(* ===== verification/Rounding.thy ===== *)
theory Rounding
  imports Complex_Main
begin

text \<open>\<open>Math.round\<close> of the runtime, which the reward factors and the relay's messages use: a half
  is rounded up.\<close>

definition math_round :: "rat \<Rightarrow> int" where
  "math_round x = \<lfloor>x + 1 / 2\<rfloor>"

lemma math_round_mono: "x \<le> y \<Longrightarrow> math_round x \<le> math_round y"
  unfolding math_round_def by (intro floor_mono) simp

lemma math_round_int: "math_round (of_int n) = n"
  unfolding math_round_def by (simp add: floor_unique)

end
