(* ===== verification/Prelude.thy ===== *)
theory Prelude
  imports Main "HOL-Library.Sublist"
begin

text \<open>
  Shared vocabulary of the development.

  \<^item> A computation that may throw and that changes the database is a function from a
    state to either an error or a result with the new state (type \<open>act\<close>). An error
    carries no state: a thrown exception inside a transaction rolls the transaction back,
    so the caller that catches it goes on from the state before.
  \<^item> \<open>triple P m Q\<close> is the partial-correctness statement about such a computation, with one
    rule per combinator; the rules are collected in \<open>triple_rules\<close>.
  \<^item> Generic facts on lists used as database tables (the first row that satisfies a
    predicate, an update of the rows that match a key, a fresh primary key).
  \<^item> Decimal rendering of integers as the template strings of the source produce it, with
    its injectivity.
\<close>

section \<open>Computations with errors and state\<close>

type_synonym ('e, 's, 'a) act = "'s \<Rightarrow> 'e + ('a \<times> 's)"

definition ret :: "'a \<Rightarrow> ('e, 's, 'a) act" where
  "ret x = (\<lambda>s. Inr (x, s))"

definition throw :: "'e \<Rightarrow> ('e, 's, 'a) act" where
  "throw e = (\<lambda>s. Inl e)"

definition bnd :: "('e, 's, 'a) act \<Rightarrow> ('a \<Rightarrow> ('e, 's, 'b) act) \<Rightarrow> ('e, 's, 'b) act" where
  "bnd m f = (\<lambda>s. case m s of Inl e \<Rightarrow> Inl e | Inr (x, s') \<Rightarrow> f x s')"

definition andThen :: "('e, 's, 'a) act \<Rightarrow> ('e, 's, 'b) act \<Rightarrow> ('e, 's, 'b) act" where
  "andThen m n = bnd m (\<lambda>_. n)"

definition reads :: "('s \<Rightarrow> 'a) \<Rightarrow> ('e, 's, 'a) act" where
  "reads f = (\<lambda>s. Inr (f s, s))"

definition modifies :: "('s \<Rightarrow> 's) \<Rightarrow> ('e, 's, unit) act" where
  "modifies f = (\<lambda>s. Inr ((), f s))"

primrec each :: "('a \<Rightarrow> ('e, 's, unit) act) \<Rightarrow> 'a list \<Rightarrow> ('e, 's, unit) act" where
  "each f [] = ret ()"
| "each f (x # xs) = andThen (f x) (each f xs)"

text \<open>
  A transaction inside \<open>try \<dots> catch\<close>: on an error the state is the one before the
  transaction and the caller sees \<open>None\<close>. An error that satisfies \<open>fatal\<close> is no exception of
  the program (it stands for a computation that does not return), so it is not caught.
\<close>

definition attempt :: "('e \<Rightarrow> bool) \<Rightarrow> ('e, 's, 'a) act \<Rightarrow> ('e, 's, 'a option) act" where
  "attempt fatal m = (\<lambda>s. case m s of
       Inl e \<Rightarrow> if fatal e then Inl e else Inr (None, s)
     | Inr (x, s') \<Rightarrow> Inr (Some x, s'))"

subsection \<open>Partial correctness\<close>

definition triple :: "('s \<Rightarrow> bool) \<Rightarrow> ('e, 's, 'a) act \<Rightarrow> ('a \<Rightarrow> 's \<Rightarrow> bool) \<Rightarrow> bool" where
  "triple P m Q \<longleftrightarrow> (\<forall>s x s'. P s \<longrightarrow> m s = Inr (x, s') \<longrightarrow> Q x s')"

abbreviation keeps :: "('s \<Rightarrow> bool) \<Rightarrow> ('e, 's, 'a) act \<Rightarrow> bool" where
  "keeps I m \<equiv> triple I m (\<lambda>_. I)"

named_theorems triple_rules

lemma tripleI:
  assumes "\<And>s x s'. P s \<Longrightarrow> m s = Inr (x, s') \<Longrightarrow> Q x s'"
  shows "triple P m Q"
  using assms by (auto simp: triple_def)

lemma tripleD: "triple P m Q \<Longrightarrow> P s \<Longrightarrow> m s = Inr (x, s') \<Longrightarrow> Q x s'"
  by (auto simp: triple_def)

lemma triple_weaken:
  assumes "triple P m Q" and "\<And>s. P' s \<Longrightarrow> P s" and "\<And>x s. Q x s \<Longrightarrow> Q' x s"
  shows "triple P' m Q'"
  using assms unfolding triple_def by blast

lemma triple_ret [triple_rules]: "triple (\<lambda>s. Q x s) (ret x) Q"
  by (simp add: triple_def ret_def)

lemma triple_throw [triple_rules]: "triple P (throw e) Q"
  by (simp add: triple_def throw_def)

lemma triple_reads: "triple (\<lambda>s. Q (f s) s) (reads f) Q"
  by (simp add: triple_def reads_def)

lemma keeps_reads [triple_rules]: "keeps I (reads f)"
  by (simp add: triple_def reads_def)

lemma triple_modifies: "triple (\<lambda>s. Q () (f s)) (modifies f) Q"
  by (simp add: triple_def modifies_def)

lemma keeps_modifies [triple_rules]: "(\<And>s. I s \<Longrightarrow> I (f s)) \<Longrightarrow> keeps I (modifies f)"
  by (simp add: triple_def modifies_def)

lemma triple_bnd:
  assumes "triple P m R" and "\<And>x. triple (R x) (f x) Q"
  shows "triple P (bnd m f) Q"
proof (rule tripleI)
  fix s y t
  assume P: "P s" and run: "bnd m f s = Inr (y, t)"
  from run obtain x s' where m: "m s = Inr (x, s')" and f: "f x s' = Inr (y, t)"
    by (auto simp: bnd_def split: sum.splits prod.splits)
  from assms(1) P m have "R x s'" by (rule tripleD)
  with assms(2) f show "Q y t" by (blast dest: tripleD)
qed

lemma keeps_bnd [triple_rules]: "keeps I m \<Longrightarrow> (\<And>x. triple I (f x) Q) \<Longrightarrow> triple I (bnd m f) Q"
  by (rule triple_bnd)

lemma keeps_andThen [triple_rules]: "keeps I m \<Longrightarrow> triple I n Q \<Longrightarrow> triple I (andThen m n) Q"
  by (simp add: andThen_def keeps_bnd)

lemma keeps_each [triple_rules]: "(\<And>x. x \<in> set xs \<Longrightarrow> keeps I (f x)) \<Longrightarrow> keeps I (each f xs)"
  by (induction xs) (auto intro: triple_rules)

lemma keeps_attempt [triple_rules]: "keeps I m \<Longrightarrow> keeps I (attempt fatal m)"
  by (auto simp: triple_def attempt_def split: sum.splits if_splits)

lemma keeps_if [triple_rules]:
  "(b \<Longrightarrow> triple I m Q) \<Longrightarrow> (\<not> b \<Longrightarrow> triple I n Q) \<Longrightarrow> triple I (if b then m else n) Q"
  by simp

lemma keeps_option [triple_rules]:
  "(x = None \<Longrightarrow> triple I m Q) \<Longrightarrow> (\<And>y. x = Some y \<Longrightarrow> triple I (f y) Q) \<Longrightarrow>
   triple I (case x of None \<Rightarrow> m | Some y \<Rightarrow> f y) Q"
  by (cases x) simp_all

lemma keeps_let [triple_rules]: "triple I (f x) Q \<Longrightarrow> triple I (Let x f) Q"
  by simp

lemma bnd_Inr:
  "bnd m f s = Inr (y, t) \<longleftrightarrow> (\<exists>x s'. m s = Inr (x, s') \<and> f x s' = Inr (y, t))"
  by (auto simp: bnd_def split: sum.splits prod.splits)

lemma bnd_Inl:
  "bnd m f s = Inl e \<longleftrightarrow> m s = Inl e \<or> (\<exists>x s'. m s = Inr (x, s') \<and> f x s' = Inl e)"
  by (auto simp: bnd_def split: sum.splits prod.splits)

lemma andThen_Inr:
  "andThen m n s = Inr (y, t) \<longleftrightarrow> (\<exists>x s'. m s = Inr (x, s') \<and> n s' = Inr (y, t))"
  by (simp add: andThen_def bnd_Inr)

lemma andThen_Inl:
  "andThen m n s = Inl e \<longleftrightarrow> m s = Inl e \<or> (\<exists>x s'. m s = Inr (x, s') \<and> n s' = Inl e)"
  by (simp add: andThen_def bnd_Inl)

lemmas act_simps = ret_def throw_def reads_def modifies_def bnd_Inr andThen_Inr

subsection \<open>Relations every step refines\<close>

text \<open>
  \<open>steps R m\<close>: every successful run of \<open>m\<close> relates the state before to the state after.
  For a reflexive and transitive \<open>R\<close> it composes like \<open>keeps\<close>.
\<close>

definition steps :: "('s \<Rightarrow> 's \<Rightarrow> bool) \<Rightarrow> ('e, 's, 'a) act \<Rightarrow> bool" where
  "steps R m \<longleftrightarrow> (\<forall>s x s'. m s = Inr (x, s') \<longrightarrow> R s s')"

lemma stepsI: "(\<And>s x s'. m s = Inr (x, s') \<Longrightarrow> R s s') \<Longrightarrow> steps R m"
  by (auto simp: steps_def)

lemma stepsD: "steps R m \<Longrightarrow> m s = Inr (x, s') \<Longrightarrow> R s s'"
  by (auto simp: steps_def)

locale preorder_rel =
  fixes R :: "'s \<Rightarrow> 's \<Rightarrow> bool"
  assumes rel_refl: "R s s"
    and rel_trans: "R s t \<Longrightarrow> R t u \<Longrightarrow> R s u"
begin

lemma steps_ret: "steps R (ret x)"
  by (simp add: steps_def ret_def rel_refl)

lemma steps_throw: "steps R (throw e)"
  by (simp add: steps_def throw_def)

lemma steps_reads: "steps R (reads f)"
  by (simp add: steps_def reads_def rel_refl)

lemma steps_modifies: "(\<And>s. R s (f s)) \<Longrightarrow> steps R (modifies f)"
  by (simp add: steps_def modifies_def)

lemma steps_bnd: "steps R m \<Longrightarrow> (\<And>x. steps R (f x)) \<Longrightarrow> steps R (bnd m f)"
  by (rule stepsI) (auto simp: bnd_Inr dest!: stepsD intro: rel_trans)

lemma steps_andThen: "steps R m \<Longrightarrow> steps R n \<Longrightarrow> steps R (andThen m n)"
  by (simp add: andThen_def steps_bnd)

lemma steps_each: "(\<And>x. x \<in> set xs \<Longrightarrow> steps R (f x)) \<Longrightarrow> steps R (each f xs)"
  by (induction xs) (auto intro: steps_ret steps_andThen)

lemma steps_attempt: "steps R m \<Longrightarrow> steps R (attempt fatal m)"
  by (auto simp: steps_def attempt_def rel_refl split: sum.splits if_splits)

lemma steps_if: "(b \<Longrightarrow> steps R m) \<Longrightarrow> (\<not> b \<Longrightarrow> steps R n) \<Longrightarrow> steps R (if b then m else n)"
  by simp

lemma steps_option:
  "(x = None \<Longrightarrow> steps R m) \<Longrightarrow> (\<And>y. x = Some y \<Longrightarrow> steps R (f y)) \<Longrightarrow>
   steps R (case x of None \<Rightarrow> m | Some y \<Rightarrow> f y)"
  by (cases x) simp_all

lemma steps_let: "steps R (f x) \<Longrightarrow> steps R (Let x f)"
  by simp

lemmas steps_rules = steps_ret steps_throw steps_reads steps_modifies steps_bnd steps_andThen
  steps_each steps_attempt steps_if steps_option steps_let

end

section \<open>Lists as tables\<close>

text \<open>\<open>find P\<close> is the first row a query returns; \<open>fresh_id\<close> is the next value of a serial
  primary key, larger than every key of the table.\<close>

definition fresh_id :: "int list \<Rightarrow> int" where
  "fresh_id ids = foldr max ids 0 + 1"

definition update_where :: "('a \<Rightarrow> bool) \<Rightarrow> ('a \<Rightarrow> 'a) \<Rightarrow> 'a list \<Rightarrow> 'a list" where
  "update_where P f = map (\<lambda>x. if P x then f x else x)"

lemma fresh_id_greater: "i \<in> set ids \<Longrightarrow> i < fresh_id ids"
  unfolding fresh_id_def by (induction ids) (auto simp: le_max_iff_disj)

lemma fresh_id_notin [simp]: "fresh_id ids \<notin> set ids"
  using fresh_id_greater by blast

lemma fresh_id_map: "x \<in> set xs \<Longrightarrow> f x < fresh_id (map f xs)"
  by (rule fresh_id_greater) simp

lemma fresh_id_notin_image [simp]: "fresh_id (map f xs) \<notin> f ` set xs"
  using fresh_id_notin [of "map f xs"] by simp

lemma fresh_id_positive: "0 < fresh_id ids"
  unfolding fresh_id_def by (induction ids) auto

lemma find_Some_iff_mem: "find P xs = Some x \<Longrightarrow> x \<in> set xs \<and> P x"
  by (induction xs) (auto split: if_splits)

lemma find_None_all: "find P xs = None \<longleftrightarrow> (\<forall>x\<in>set xs. \<not> P x)"
  by (induction xs) auto

lemma find_append: "find P (xs @ ys) = (case find P xs of None \<Rightarrow> find P ys | Some x \<Rightarrow> Some x)"
  by (induction xs) auto

lemma find_map_filter: "find P xs = (case filter P xs of [] \<Rightarrow> None | x # _ \<Rightarrow> Some x)"
  by (induction xs) auto

lemma set_update_where: "set (update_where P f xs) = (\<lambda>x. if P x then f x else x) ` set xs"
  by (simp add: update_where_def)

lemma map_update_where:
  assumes "\<And>x. P x \<Longrightarrow> g (f x) = g x"
  shows "map g (update_where P f xs) = map g xs"
  using assms by (simp add: update_where_def)

lemma length_update_where [simp]: "length (update_where P f xs) = length xs"
  by (simp add: update_where_def)

lemma update_where_none: "(\<And>x. x \<in> set xs \<Longrightarrow> \<not> P x) \<Longrightarrow> update_where P f xs = xs"
  unfolding update_where_def by (induction xs) auto

lemma find_update_where:
  assumes "\<And>x. P (f x) = P x"
  shows "find P (update_where Q f xs) = map_option (\<lambda>x. if Q x then f x else x) (find P xs)"
  unfolding update_where_def using assms by (induction xs) auto

lemma length_filter_mono: "(\<And>z. z \<in> set xs \<Longrightarrow> P z \<Longrightarrow> Q z) \<Longrightarrow> length (filter P xs) \<le> length (filter Q xs)"
  by (induction xs) (auto simp: le_SucI)

lemma distinct_map_eq:
  "distinct (map g xs) \<Longrightarrow> x \<in> set xs \<Longrightarrow> y \<in> set xs \<Longrightarrow> g x = g y \<Longrightarrow> x = y"
  by (auto simp: distinct_map dest: inj_onD)

lemma distinct_map_Cons_neq:
  assumes "distinct (map g (x # xs))" and "y \<in> set xs"
  shows "g y \<noteq> g x"
  using assms imageI [OF assms(2), of g] by force

lemma filter_unique:
  assumes "distinct (map f xs)" and "x \<in> set xs" and "P x" and "\<forall>y. P y \<longrightarrow> f y = f x"
  shows "filter P xs = [x]"
  using assms(1,2)
proof (induction xs)
  case (Cons a xs)
  show ?case
  proof (cases "a = x")
    case True
    have "\<not> P y" if y: "y \<in> set xs" for y
    proof
      assume "P y"
      then have "f y = f a" using assms(4) True by blast
      moreover have "f y \<in> f ` set xs" using y by (rule imageI)
      ultimately show False using Cons.prems(1) by simp
    qed
    then show ?thesis using True assms(3) by (simp add: filter_empty_conv)
  next
    case False
    with Cons.prems(2) have x: "x \<in> set xs" by simp
    have "f a \<noteq> f x" using Cons.prems(1) imageI [OF x, of f] by force
    then have "\<not> P a" using assms(4) by blast
    with x Cons show ?thesis by simp
  qed
qed simp

section \<open>Operations that a key makes idempotent\<close>

text \<open>
  \<open>op i\<close> writes once per key of \<open>i\<close>: \<open>answer s i\<close> is what the state already holds for the
  input, and then the operation changes nothing and gives that answer again. \<open>other\<close> are the
  steps that may run between two attempts; none of them withdraws an answer.
\<close>

primrec run_all :: "('e, 's, 'a) act list \<Rightarrow> ('e, 's, unit) act" where
  "run_all [] = ret ()"
| "run_all (m # ms) = andThen m (run_all ms)"

locale keyed_once =
  fixes op :: "'i \<Rightarrow> ('e, 's, 'r) act"
    and answer :: "'s \<Rightarrow> 'i \<Rightarrow> 'r option"
    and accepted :: "'r \<Rightarrow> bool"
    and other :: "('e, 's, 'b) act \<Rightarrow> bool"
  assumes replays: "answer s i = Some r \<Longrightarrow> op i s = Inr (r, s)"
    and records: "op i s = Inr (r, s') \<Longrightarrow> accepted r \<Longrightarrow> answer s' i = Some r"
    and stays: "other m \<Longrightarrow> m s = Inr (x, s') \<Longrightarrow> answer s i = Some r \<Longrightarrow> answer s' i = Some r"
begin

lemma retry_at_once: "op i s = Inr (r, s') \<Longrightarrow> accepted r \<Longrightarrow> op i s' = Inr (r, s')"
  by (rule replays) (rule records)

lemma stays_run_all:
  "(\<And>m. m \<in> set ms \<Longrightarrow> other m) \<Longrightarrow> run_all ms s = Inr (x, s') \<Longrightarrow> answer s i = Some r \<Longrightarrow>
   answer s' i = Some r"
proof (induction ms arbitrary: s)
  case Nil
  then show ?case by (simp add: ret_def)
next
  case (Cons m ms)
  from Cons.prems(2) obtain y t where m: "m s = Inr (y, t)" and ms: "run_all ms t = Inr (x, s')"
    by (auto simp: andThen_Inr)
  have "answer t i = Some r" using Cons.prems(1,3) m by (auto intro: stays)
  with Cons.IH Cons.prems(1) ms show ?case by simp
qed

lemma retry_later:
  assumes "op i s = Inr (r, s1)" and "accepted r"
    and "\<And>m. m \<in> set ms \<Longrightarrow> other m" and "run_all ms s1 = Inr (x, s2)"
  shows "op i s2 = Inr (r, s2)"
  by (rule replays) (rule stays_run_all [OF assms(3,4) records [OF assms(1,2)]])

end

section \<open>Decimal rendering\<close>

definition digit_char :: "nat \<Rightarrow> char" where
  "digit_char d = char_of (48 + d)"

definition digit_value :: "char \<Rightarrow> nat" where
  "digit_value c = of_char c - 48"

fun show_nat :: "nat \<Rightarrow> string" where
  "show_nat n = (if n < 10 then [digit_char n] else show_nat (n div 10) @ [digit_char (n mod 10)])"

declare show_nat.simps [simp del]

definition show_int :: "int \<Rightarrow> string" where
  "show_int i = (if i < 0 then ''-'' @ show_nat (nat (- i)) else show_nat (nat i))"

definition read_nat :: "string \<Rightarrow> nat" where
  "read_nat s = foldl (\<lambda>n c. 10 * n + digit_value c) 0 s"

text \<open>\<open>String(value).padStart(2, '0')\<close>.\<close>

definition padStart2 :: "string \<Rightarrow> string" where
  "padStart2 s = replicate (2 - length s) (CHR ''0'') @ s"

lemma digit_value_digit_char: "d < 10 \<Longrightarrow> digit_value (digit_char d) = d"
  by (simp add: digit_value_def digit_char_def)

lemma digit_char_code: "d < 10 \<Longrightarrow> of_char (digit_char d) = 48 + d"
  by (simp add: digit_char_def)

lemma read_show_nat: "read_nat (show_nat n) = n"
proof (induction n rule: show_nat.induct)
  case (1 n)
  show ?case
  proof (cases "n < 10")
    case True
    then show ?thesis
      by (subst show_nat.simps) (simp add: read_nat_def digit_value_digit_char)
  next
    case False
    with "1.IH" have "read_nat (show_nat (n div 10)) = n div 10" by simp
    with False show ?thesis
      by (subst show_nat.simps) (simp add: read_nat_def digit_value_digit_char)
  qed
qed

lemma show_nat_inject [simp]: "show_nat m = show_nat n \<longleftrightarrow> m = n"
  using read_show_nat by metis

lemma show_nat_digits: "c \<in> set (show_nat n) \<Longrightarrow> 48 \<le> (of_char c :: nat) \<and> of_char c \<le> (57 :: nat)"
proof (induction n rule: show_nat.induct)
  case (1 n)
  have d: "n mod 10 < 10" by simp
  show ?case
  proof (cases "n < 10")
    case True
    with "1.prems" show ?thesis
      by (subst (asm) show_nat.simps) (simp add: digit_char_code)
  next
    case False
    with "1.prems" have "c \<in> set (show_nat (n div 10)) \<or> c = digit_char (n mod 10)"
      by (subst (asm) show_nat.simps) auto
    with "1.IH" False d show ?thesis
      using digit_char_code [OF d] by auto
  qed
qed

lemma show_nat_nonempty [simp]: "show_nat n \<noteq> []"
  by (subst show_nat.simps) simp

lemma minus_notin_show_nat: "CHR ''-'' \<notin> set (show_nat n)"
  using show_nat_digits [of "CHR ''-''" n] by auto

lemma colon_notin_show_nat: "CHR '':'' \<notin> set (show_nat n)"
  using show_nat_digits [of "CHR '':''" n] by auto

lemma show_int_inject [simp]: "show_int i = show_int j \<longleftrightarrow> i = j"
proof
  assume eq: "show_int i = show_int j"
  have no: "show_nat n \<noteq> CHR ''-'' # xs" for n xs
    using minus_notin_show_nat [of n] by (metis list.set_intros(1))
  from eq no show "i = j"
    by (auto simp: show_int_def split: if_splits dest: sym)
qed simp

lemma colon_notin_show_int: "CHR '':'' \<notin> set (show_int i)"
  using colon_notin_show_nat by (auto simp: show_int_def)

text \<open>Splitting at the first separator: a prefix free of the separator is determined.\<close>

lemma append_sep_inject:
  assumes "c \<notin> set xs" and "c \<notin> set ys"
  shows "xs @ c # us = ys @ c # vs \<longleftrightarrow> xs = ys \<and> us = vs"
  using assms
proof (induction xs arbitrary: ys)
  case Nil
  then show ?case by (cases ys) auto
next
  case (Cons x xs)
  then show ?case by (cases ys) auto
qed

lemma append_sep_inject_right:
  assumes "c \<notin> set us" and "c \<notin> set vs"
  shows "xs @ c # us = ys @ c # vs \<longleftrightarrow> xs = ys \<and> us = vs"
proof -
  have "xs @ c # us = ys @ c # vs \<longleftrightarrow> rev us @ c # rev xs = rev vs @ c # rev ys"
    by (metis append.assoc append_Cons append_Nil rev.simps(2) rev_append rev_rev_ident)
  also have "\<dots> \<longleftrightarrow> rev us = rev vs \<and> rev xs = rev ys"
    using assms by (intro append_sep_inject) simp_all
  finally show ?thesis by auto
qed

lemma read_padStart2: "read_nat (padStart2 (show_nat n)) = n"
proof -
  have "read_nat (replicate k (CHR ''0'') @ s) = read_nat s" for k s
    by (induction k) (simp_all add: read_nat_def digit_value_def)
  then show ?thesis by (simp add: padStart2_def read_show_nat)
qed

lemma padStart2_inject: "0 \<le> i \<Longrightarrow> 0 \<le> j \<Longrightarrow>
    padStart2 (show_int i) = padStart2 (show_int j) \<longleftrightarrow> i = j"
  using read_padStart2 by (metis nat_0_le not_less show_int_def)

lemma minus_notin_padStart2: "0 \<le> i \<Longrightarrow> CHR ''-'' \<notin> set (padStart2 (show_int i))"
  using minus_notin_show_nat by (auto simp: padStart2_def show_int_def)

end
