(* ===== verification/Reward_Types.thy ===== *)
theory Reward_Types
  imports Prelude
begin

text \<open>
  The data of the reward engine: the enumerations of \<open>shared/enums/reward.enum.ts\<close>, one
  record per table of the reward schema, the row inputs of the repositories, and the database
  record that holds the tables as lists of rows in insertion order.

  Left out of the rows: the public random handles (\<open>ref_id\<close>), which no decision of the engine
  reads, and the bookkeeping timestamps \<open>created_at\<close> and \<open>updated_at\<close>. Instants are integers,
  milliseconds since 1970-01-01T00:00Z, as \<open>Date.getTime()\<close> gives them. Kinds of benefits and
  conditions stay text, because the code reads them from VARCHAR columns and guards against a
  value the build does not know.
\<close>

section \<open>Enumerations\<close>

datatype RewardTriggerKind =
    DirectMessageInbound | StoryReply | StoryMention | MessageReaction | PostbackTapped
  | OptInGranted | ReferralEntry | CommentOnOwnPost | CommentOnMentionedPost | PostTaggingUs
  | PostCaptionMention | PostLike | PostShare | PointsBalanceReached

datatype RewardConditionKind = TimeWindow | CustomerTenure | ContentMatch

datatype RewardBenefitKind = GrantPoints | GrantCurrency | IssueEntitlement | ConvertValue

datatype Reversibility = Compensable | Pivot

datatype RewardAwardMode = Fixed | UpTo

datatype RewardProgramStatus = Draft | Active | Paused | Archived

datatype RewardCapScope = Lifetime | Day | Week | Month | Year | NoCap

datatype RewardAwardStatus =
  Held | Granted | Reversed | SkippedCap | SkippedCondition | SkippedZeroFactor | AwardExpired

datatype RewardReversalPolicy = NoReversal | OnContentDeleted

datatype RewardBenefitStatus = Applied | Compensated | Failed | Dead

datatype RewardWalletKind = Points | Currency

datatype RewardAccountKind = Customer | SystemTransit | SystemExternal

datatype RewardEntryKind =
    Earn | Burn | ConvertOut | ConvertIn | ForwardOut | TransitIn | TransitOut | ExternalOut
  | ForwardBack | Reversal | Adjust | TransferIn | TransferOut

datatype RewardEntitlementStatus = Issued | Reserved | Redeemed | EntitlementExpired | Revoked

datatype ActorKind = ActorEmployee | ActorStaff | ActorSystem

definition FACTOR_BASIS_POINTS_MAX :: int where
  "FACTOR_BASIS_POINTS_MAX = 10000"

definition CONSTANT_ONE_FACTOR_PROVIDER :: string where
  "CONSTANT_ONE_FACTOR_PROVIDER = ''constant_one''"

text \<open>The stored text of a kind, and the kind a stored text names.\<close>

fun benefit_kind_text :: "RewardBenefitKind \<Rightarrow> string" where
  "benefit_kind_text GrantPoints = ''grant_points''"
| "benefit_kind_text GrantCurrency = ''grant_currency''"
| "benefit_kind_text IssueEntitlement = ''issue_entitlement''"
| "benefit_kind_text ConvertValue = ''convert_value''"

fun condition_kind_text :: "RewardConditionKind \<Rightarrow> string" where
  "condition_kind_text TimeWindow = ''time_window''"
| "condition_kind_text CustomerTenure = ''customer_tenure''"
| "condition_kind_text ContentMatch = ''content_match''"

definition benefit_kind_of :: "string \<Rightarrow> RewardBenefitKind option" where
  "benefit_kind_of t =
     find (\<lambda>k. benefit_kind_text k = t) [GrantPoints, GrantCurrency, IssueEntitlement, ConvertValue]"

definition condition_kind_of :: "string \<Rightarrow> RewardConditionKind option" where
  "condition_kind_of t =
     find (\<lambda>k. condition_kind_text k = t) [TimeWindow, CustomerTenure, ContentMatch]"

definition CURRENCY_BEARING_BENEFITS :: "RewardBenefitKind set" where
  "CURRENCY_BEARING_BENEFITS = {GrantCurrency, ConvertValue}"

lemma benefit_kind_of_text [simp]: "benefit_kind_of (benefit_kind_text k) = Some k"
  by (cases k) (simp_all add: benefit_kind_of_def)

lemma benefit_kind_ofD: "benefit_kind_of t = Some k \<Longrightarrow> t = benefit_kind_text k"
  unfolding benefit_kind_of_def by (drule find_Some_iff_mem) simp

lemma condition_kind_of_text [simp]: "condition_kind_of (condition_kind_text k) = Some k"
  by (cases k) (simp_all add: condition_kind_of_def)

section \<open>JSONB payloads\<close>

text \<open>
  A JSONB value. Every number the reward contracts read is required to be an integer, so a
  number that is not one is a single value \<open>JFrac\<close>, which every schema refuses.
\<close>

datatype json = JNull | JBool bool | JNum int | JFrac | JStr string | JArr "json list"
  | JObj "(string \<times> json) list"

type_synonym config = "(string \<times> json) list"

section \<open>Errors\<close>

text \<open>
  What the engine throws. \<open>UniqueViolation\<close> and \<open>CheckViolation\<close> are the refusals of the named
  database constraint. \<open>Diverged\<close> is no exception: it marks a run that used up the bound on
  nested trigger evaluation.
\<close>

datatype reward_error =
    WalletNotFound int
  | DebitNeedsNegativeAmount
  | InsufficientPoints int int
  | EnterpriseCurrencyNotSet
  | CustomerNotFound
  | BenefitSchemaMismatch string
  | CorruptCompensation
  | UniqueViolation string
  | CheckViolation string
  | Diverged

section \<open>Rows\<close>

record reward_wallet =
  w_id :: int
  w_enterprise :: int
  w_account :: RewardAccountKind
  w_customer :: "int option"
  w_kind :: RewardWalletKind
  w_currency :: "string option"
  w_balance :: int
  w_pending :: int
  w_lifetime :: int
  w_version :: int
  w_deleted :: bool

record ledger_entry =
  e_id :: int
  e_enterprise :: int
  e_wallet :: int
  e_kind :: RewardEntryKind
  e_amount :: int
  e_balance_after :: int
  e_award :: "int option"
  e_rule :: "int option"
  e_rule_version :: "int option"
  e_group :: "string option"
  e_reverses :: "int option"
  e_key :: string
  e_actor_kind :: "ActorKind option"
  e_actor :: "int option"
  e_reason :: "string option"
  e_occurred :: int

record post_input =
  p_enterprise :: int
  p_wallet :: int
  p_kind :: RewardEntryKind
  p_amount :: int
  p_key :: string
  p_occurred :: int
  p_award :: "int option"
  p_rule :: "int option"
  p_rule_version :: "int option"
  p_group :: "string option"
  p_reverses :: "int option"
  p_actor_kind :: "ActorKind option"
  p_actor :: "int option"
  p_reason :: "string option"

record reward_award =
  a_id :: int
  a_enterprise :: int
  a_program :: int
  a_rule :: int
  a_rule_version :: int
  a_program_version :: int
  a_customer :: int
  a_channel :: "int option"
  a_source_kind :: string
  a_source :: int
  a_status :: RewardAwardStatus
  a_period_key :: "string option"
  a_held_until :: "int option"
  a_occurred :: int
  a_granted_at :: "int option"
  a_reversed_at :: "int option"
  a_reason :: "string option"
  a_factor :: "int option"
  a_factor_provider :: "string option"
  a_deleted :: bool

record cap_counter =
  c_enterprise :: int
  c_program :: int
  c_rule :: int
  c_customer :: int
  c_period :: string
  c_used :: int
  c_cap :: int

record reward_entitlement =
  n_id :: int
  n_enterprise :: int
  n_customer :: int
  n_award :: int
  n_item :: string
  n_status :: RewardEntitlementStatus
  n_code :: string
  n_issued_at :: int
  n_expires_at :: "int option"
  n_deleted :: bool

text \<open>What a benefit handler produced: the payload for the record and what undoing it needs.\<close>

datatype payload =
    PaidPoints int
  | PaidCurrency int "string option"
  | PaidEntitlement string int
  | PaidConversion int int int string

datatype compensation =
    UndoPoints int int int
  | UndoCurrency int int int
  | UndoEntitlement int
  | UndoConversion string int int int int int int

record award_benefit =
  b_id :: int
  b_enterprise :: int
  b_award :: int
  b_index :: int
  b_kind :: string
  b_payload :: payload
  b_compensation :: compensation
  b_status :: RewardBenefitStatus
  b_key :: string
  b_deleted :: bool

record reward_rule =
  r_id :: int
  r_enterprise :: int
  r_program :: int
  r_version :: int
  r_trigger :: RewardTriggerKind
  r_trigger_config :: config
  r_factor_provider :: string
  r_cap_scope :: RewardCapScope
  r_cap_count :: int
  r_hold_hours :: int
  r_reversal :: RewardReversalPolicy
  r_priority :: int
  r_active :: bool
  r_deleted :: bool

record rule_benefit =
  rb_enterprise :: int
  rb_rule :: int
  rb_rule_version :: int
  rb_index :: int
  rb_kind :: string
  rb_mode :: RewardAwardMode
  rb_cap :: "int option"
  rb_config :: config
  rb_deleted :: bool

record rule_condition =
  rc_enterprise :: int
  rc_rule :: int
  rc_rule_version :: int
  rc_index :: int
  rc_kind :: string
  rc_config :: config
  rc_deleted :: bool

record reward_program =
  g_id :: int
  g_enterprise :: int
  g_status :: RewardProgramStatus
  g_version :: int
  g_starts_at :: "int option"
  g_ends_at :: "int option"
  g_deleted :: bool

text \<open>The two settings of a business that the engine joins in.\<close>

record enterprise_settings =
  t_id :: int
  t_timezone :: "string option"
  t_currency :: "string option"

record customer_row =
  cu_id :: int
  cu_enterprise :: int
  cu_first_seen :: "int option"
  cu_deleted :: bool

datatype audit_action = AuditGranted | AuditReversed | AuditAdjusted

record audit_row =
  l_enterprise :: int
  l_action :: audit_action
  l_entity :: int

record reward_db =
  wallets :: "reward_wallet list"
  ledger :: "ledger_entry list"
  awards :: "reward_award list"
  award_benefits :: "award_benefit list"
  cap_counters :: "cap_counter list"
  entitlements :: "reward_entitlement list"
  rules :: "reward_rule list"
  rule_benefits :: "rule_benefit list"
  rule_conditions :: "rule_condition list"
  programs :: "reward_program list"
  enterprises :: "enterprise_settings list"
  customers :: "customer_row list"
  audit_logs :: "audit_row list"
  clock :: int
  entropy :: nat

text \<open>
  Facilities of the host that are not code of this repository. \<open>tz_offset zone at\<close> is what the
  time-zone database adds to the UTC instant \<open>at\<close> to give the wall clock of \<open>zone\<close>, in
  milliseconds; \<open>lower\<close>, \<open>upper\<close> and \<open>trim\<close> are the string methods of the runtime;
  \<open>currencies\<close> is \<open>Intl.supportedValuesOf('currency')\<close>; \<open>uuid n\<close> and \<open>bytes n\<close> are the results
  of the \<open>n\<close>-th draw from the random source.
\<close>

record host =
  tz_offset :: "string \<Rightarrow> int \<Rightarrow> int"
  lower :: "string \<Rightarrow> string"
  upper :: "string \<Rightarrow> string"
  trim :: "string \<Rightarrow> string"
  currencies :: "string \<Rightarrow> bool"
  uuid :: "nat \<Rightarrow> string"
  bytes :: "nat \<Rightarrow> nat list"

type_synonym 'a reward_act = "(reward_error, reward_db, 'a) act"

definition is_diverged :: "reward_error \<Rightarrow> bool" where
  "is_diverged e \<longleftrightarrow> e = Diverged"

end
