(* ===== verification/Reward_Ledger.thy ===== *)
theory Reward_Ledger
  imports Reward_Types
begin

text \<open>
  Wallets and the append-only ledger behind them, the model of
  \<open>database/repositories/reward-wallet.repository.ts\<close>. Each SQL statement is one function on
  the tables \<open>wallets\<close> and \<open>ledger\<close>; the unique indexes and the CHECK constraints of
  \<open>database/schema/reward-objects.ts\<close> are its refusals. The state is what one transaction sees:
  statements run one after the other.

  The invariant \<open>books_ok\<close> says that every balance is the sum of the wallet's entries, that every
  entry's \<open>balance_after\<close> is the running sum, and that the unique indexes hold. The interpretations
  of \<open>keyed_once\<close> at the end say that a retry under one idempotency key writes nothing.
\<close>

section \<open>Queries\<close>

definition entry_by_key :: "reward_db \<Rightarrow> int \<Rightarrow> string \<Rightarrow> ledger_entry option" where
  "entry_by_key db ent key =
     find (\<lambda>e. e_enterprise e = ent \<and> e_key e = key) (ledger db)"

definition wallet_by_id :: "reward_db \<Rightarrow> int \<Rightarrow> int \<Rightarrow> reward_wallet option" where
  "wallet_by_id db ent wid =
     find (\<lambda>w. w_id w = wid \<and> w_enterprise w = ent \<and> \<not> w_deleted w) (wallets db)"

definition is_customer_wallet ::
    "int \<Rightarrow> int \<Rightarrow> RewardWalletKind \<Rightarrow> string option \<Rightarrow> reward_wallet \<Rightarrow> bool" where
  "is_customer_wallet ent cust kind cur w \<longleftrightarrow>
     w_enterprise w = ent \<and> w_customer w = Some cust \<and> w_kind w = kind \<and> w_currency w = cur
     \<and> w_account w = Customer \<and> \<not> w_deleted w"

definition findCustomerWallet ::
    "reward_db \<Rightarrow> int \<Rightarrow> int \<Rightarrow> RewardWalletKind \<Rightarrow> string option \<Rightarrow> reward_wallet option" where
  "findCustomerWallet db ent cust kind cur = find (is_customer_wallet ent cust kind cur) (wallets db)"

definition of_wallet :: "int \<Rightarrow> int \<Rightarrow> ledger_entry \<Rightarrow> bool" where
  "of_wallet ent wid e \<longleftrightarrow> e_enterprise e = ent \<and> e_wallet e = wid"

definition sum_of :: "int \<Rightarrow> int \<Rightarrow> ledger_entry list \<Rightarrow> int" where
  "sum_of ent wid es = sum_list (map e_amount (filter (of_wallet ent wid) es))"

definition sumEntries :: "reward_db \<Rightarrow> int \<Rightarrow> int \<Rightarrow> int" where
  "sumEntries db ent wid = sum_of ent wid (ledger db)"

definition listEntries :: "reward_db \<Rightarrow> int \<Rightarrow> int \<Rightarrow> nat \<Rightarrow> ledger_entry list" where
  "listEntries db ent wid limit =
     take limit (rev (sort_key e_id (filter (of_wallet ent wid) (ledger db))))"

section \<open>Statements\<close>

text \<open>
  \<open>ensureCustomerWallet\<close>: insert, or return the live wallet of the same customer, kind and
  currency (the partial unique index compares \<open>COALESCE(currency_code, '---')\<close>, so two absent
  currencies are equal). \<open>reward_wallets_currency_chk\<close> refuses a points wallet with a currency
  and a currency wallet without one.
\<close>

definition coalesced :: "string option \<Rightarrow> string" where
  "coalesced cur = (case cur of None \<Rightarrow> ''---'' | Some c \<Rightarrow> c)"

definition same_slot ::
    "int \<Rightarrow> int \<Rightarrow> RewardWalletKind \<Rightarrow> string option \<Rightarrow> reward_wallet \<Rightarrow> bool" where
  "same_slot ent cust kind cur w \<longleftrightarrow>
     w_enterprise w = ent \<and> w_customer w = Some cust \<and> w_kind w = kind
     \<and> coalesced (w_currency w) = coalesced cur \<and> w_account w = Customer \<and> \<not> w_deleted w"

definition currency_chk :: "RewardWalletKind \<Rightarrow> string option \<Rightarrow> bool" where
  "currency_chk kind cur \<longleftrightarrow> (kind = Points \<longleftrightarrow> cur = None)"

definition ensureCustomerWallet ::
    "int \<Rightarrow> int \<Rightarrow> RewardWalletKind \<Rightarrow> string option \<Rightarrow> reward_wallet reward_act" where
  "ensureCustomerWallet ent cust kind cur = (\<lambda>db.
     if \<not> currency_chk kind cur then Inl (CheckViolation ''reward_wallets_currency_chk'')
     else case find (same_slot ent cust kind cur) (wallets db) of
       Some w \<Rightarrow> Inr (w, db)
     | None \<Rightarrow>
         let w = \<lparr>w_id = fresh_id (map w_id (wallets db)), w_enterprise = ent,
                   w_account = Customer, w_customer = Some cust, w_kind = kind,
                   w_currency = cur, w_balance = 0, w_pending = 0, w_lifetime = 0,
                   w_version = 0, w_deleted = False\<rparr>
         in Inr (w, db\<lparr>wallets := wallets db @ [w]\<rparr>))"

text \<open>The ledger row an input writes, with the balance the same statement produced.\<close>

definition entry_of :: "post_input \<Rightarrow> int \<Rightarrow> int \<Rightarrow> ledger_entry" where
  "entry_of p eid bal =
     \<lparr>e_id = eid, e_enterprise = p_enterprise p, e_wallet = p_wallet p, e_kind = p_kind p,
      e_amount = p_amount p, e_balance_after = bal, e_award = p_award p, e_rule = p_rule p,
      e_rule_version = p_rule_version p, e_group = p_group p, e_reverses = p_reverses p,
      e_key = p_key p, e_actor_kind = p_actor_kind p, e_actor = p_actor p,
      e_reason = p_reason p, e_occurred = p_occurred p\<rparr>"

text \<open>\<open>reward_ledger_reversal_uniq\<close>: an entry is reversed at most once.\<close>

definition already_reversed :: "reward_db \<Rightarrow> post_input \<Rightarrow> bool" where
  "already_reversed db p \<longleftrightarrow>
     (case p_reverses p of None \<Rightarrow> False
      | Some r \<Rightarrow> list_ex (\<lambda>e. e_enterprise e = p_enterprise p \<and> e_reverses e = Some r) (ledger db))"

text \<open>
  The common table expressions \<open>moved\<close> and \<open>written\<close>: the balance and the entry change in one
  statement.
\<close>

definition move_and_write ::
    "post_input \<Rightarrow> int \<Rightarrow> reward_wallet \<Rightarrow> ledger_entry reward_act" where
  "move_and_write p lifetimeDelta w = (\<lambda>db.
     if already_reversed db p then Inl (UniqueViolation ''reward_ledger_reversal_uniq'')
     else
       let bal = w_balance w + p_amount p;
           e = entry_of p (fresh_id (map e_id (ledger db))) bal;
           ws = update_where
                  (\<lambda>v. w_id v = p_wallet p \<and> w_enterprise v = p_enterprise p \<and> \<not> w_deleted v)
                  (\<lambda>v. v\<lparr>w_balance := w_balance v + p_amount p,
                          w_lifetime := w_lifetime v + lifetimeDelta,
                          w_version := w_version v + 1\<rparr>)
                  (wallets db)
       in Inr (e, db\<lparr>wallets := ws, ledger := ledger db @ [e]\<rparr>))"

definition post :: "post_input \<Rightarrow> bool \<Rightarrow> ledger_entry reward_act" where
  "post p isEarn = (\<lambda>db.
     let lifetimeDelta = (if isEarn \<and> 0 < p_amount p then p_amount p else 0)
     in case entry_by_key db (p_enterprise p) (p_key p) of
          Some e \<Rightarrow> Inr (e, db)
        | None \<Rightarrow>
            (case wallet_by_id db (p_enterprise p) (p_wallet p) of
               None \<Rightarrow> Inl (WalletNotFound (p_wallet p))
             | Some w \<Rightarrow> move_and_write p lifetimeDelta w db))"

definition credit :: "post_input \<Rightarrow> ledger_entry reward_act" where
  "credit p = post p True"

definition postUnchecked :: "post_input \<Rightarrow> ledger_entry reward_act" where
  "postUnchecked p = post p False"

text \<open>
  \<open>debitIfSufficient\<close>: \<open>None\<close> is the refusal for want of balance. The guard
  \<open>balance >= required\<close>, the replay guard and the write are one statement; when it yields no
  row, the wallet is looked up again to tell a refusal from a wallet that does not exist.
\<close>

definition debitIfSufficient :: "post_input \<Rightarrow> ledger_entry option reward_act" where
  "debitIfSufficient p = (\<lambda>db.
     if 0 \<le> p_amount p then Inl DebitNeedsNegativeAmount
     else
       let required = \<bar>p_amount p\<bar>
       in case entry_by_key db (p_enterprise p) (p_key p) of
            Some e \<Rightarrow> Inr (Some e, db)
          | None \<Rightarrow>
              (case wallet_by_id db (p_enterprise p) (p_wallet p) of
                 None \<Rightarrow> Inl (WalletNotFound (p_wallet p))
               | Some w \<Rightarrow>
                   if required \<le> w_balance w
                   then (case move_and_write p 0 w db of
                           Inl e \<Rightarrow> Inl e | Inr (x, db') \<Rightarrow> Inr (Some x, db'))
                   else Inr (None, db)))"

section \<open>The invariant of the books\<close>

text \<open>\<open>running es\<close>: every entry's \<open>balance_after\<close> is the sum of the entries of its wallet up to
  and including itself.\<close>

definition running :: "ledger_entry list \<Rightarrow> bool" where
  "running es \<longleftrightarrow> (\<forall>xs e ys. es = xs @ e # ys \<longrightarrow>
     e_balance_after e = sum_of (e_enterprise e) (e_wallet e) xs + e_amount e)"

definition reversal_key :: "ledger_entry \<Rightarrow> int \<times> int option" where
  "reversal_key e = (e_enterprise e, e_reverses e)"

definition books :: "reward_wallet list \<Rightarrow> ledger_entry list \<Rightarrow> bool" where
  "books ws es \<longleftrightarrow>
     distinct (map w_id ws) \<and> distinct (map e_id es)
     \<and> distinct (map (\<lambda>e. (e_enterprise e, e_key e)) es)
     \<and> distinct (map reversal_key (filter (\<lambda>e. e_reverses e \<noteq> None) es))
     \<and> distinct (map (\<lambda>w. (w_enterprise w, w_customer w, w_kind w, coalesced (w_currency w)))
         (filter (\<lambda>w. w_account w = Customer \<and> \<not> w_deleted w) ws))
     \<and> (\<forall>w\<in>set ws. currency_chk (w_kind w) (w_currency w))
     \<and> (\<forall>w\<in>set ws. w_balance w = sum_of (w_enterprise w) (w_id w) es)
     \<and> (\<forall>e\<in>set es. \<exists>w\<in>set ws. w_id w = e_wallet e \<and> w_enterprise w = e_enterprise e)
     \<and> running es"

definition books_ok :: "reward_db \<Rightarrow> bool" where
  "books_ok db \<longleftrightarrow> books (wallets db) (ledger db)"

text \<open>The balance of a wallet as its row shows it, and 0 for a wallet that does not exist.\<close>

definition balance :: "reward_db \<Rightarrow> int \<Rightarrow> int \<Rightarrow> int" where
  "balance db ent wid =
     sum_list (map w_balance (filter (\<lambda>w. w_id w = wid \<and> w_enterprise w = ent) (wallets db)))"

lemma sum_of_Nil [simp]: "sum_of ent wid [] = 0"
  by (simp add: sum_of_def)

lemma sum_of_append [simp]: "sum_of ent wid (xs @ ys) = sum_of ent wid xs + sum_of ent wid ys"
  by (simp add: sum_of_def)

lemma sum_of_single:
  "sum_of ent wid [e] = (if e_enterprise e = ent \<and> e_wallet e = wid then e_amount e else 0)"
  by (simp add: sum_of_def of_wallet_def)

lemma sum_of_none:
  "(\<And>e. e \<in> set es \<Longrightarrow> \<not> (e_enterprise e = ent \<and> e_wallet e = wid)) \<Longrightarrow> sum_of ent wid es = 0"
  by (induction es) (auto simp: sum_of_def of_wallet_def)

lemma running_Nil [simp]: "running []"
  by (simp add: running_def)

lemma running_snoc:
  "running (es @ [e]) \<longleftrightarrow>
     running es \<and> e_balance_after e = sum_of (e_enterprise e) (e_wallet e) es + e_amount e"
  (is "?L \<longleftrightarrow> ?R")
proof
  assume L: ?L
  have "e_balance_after f = sum_of (e_enterprise f) (e_wallet f) xs + e_amount f"
    if "es = xs @ f # ys" for xs f ys
    using L that unfolding running_def by (metis append.assoc append_Cons)
  with L show ?R unfolding running_def by simp
next
  assume R: ?R
  have "e_balance_after f = sum_of (e_enterprise f) (e_wallet f) xs + e_amount f"
    if "es @ [e] = xs @ f # ys" for xs f ys
    using R that unfolding running_def
    by (cases ys rule: rev_cases) auto
  then show ?L unfolding running_def by blast
qed

lemma wallet_by_idD:
  assumes "wallet_by_id db ent wid = Some w"
  shows "w \<in> set (wallets db)" and "w_id w = wid" and "w_enterprise w = ent" and "\<not> w_deleted w"
  using assms find_Some_iff_mem unfolding wallet_by_id_def by fastforce+

lemma entry_by_key_NoneD:
  "entry_by_key db ent key = None \<Longrightarrow> e \<in> set (ledger db) \<Longrightarrow> \<not> (e_enterprise e = ent \<and> e_key e = key)"
  unfolding entry_by_key_def find_None_all by blast

lemma entry_by_keyD:
  assumes "entry_by_key db ent key = Some e"
  shows "e \<in> set (ledger db)" and "e_enterprise e = ent" and "e_key e = key"
  using assms find_Some_iff_mem unfolding entry_by_key_def by fastforce+

lemma booksD:
  assumes "books ws es"
  shows "distinct (map w_id ws)" and "distinct (map e_id es)"
    and "distinct (map (\<lambda>e. (e_enterprise e, e_key e)) es)"
    and "w \<in> set ws \<Longrightarrow> w_balance w = sum_of (w_enterprise w) (w_id w) es"
    and "running es"
  using assms unfolding books_def by auto

text \<open>The new wallet rows of one statement, and what they leave as it was.\<close>

definition moved :: "post_input \<Rightarrow> int \<Rightarrow> reward_wallet list \<Rightarrow> reward_wallet list" where
  "moved p l = update_where
     (\<lambda>v. w_id v = p_wallet p \<and> w_enterprise v = p_enterprise p \<and> \<not> w_deleted v)
     (\<lambda>v. v\<lparr>w_balance := w_balance v + p_amount p, w_lifetime := w_lifetime v + l,
             w_version := w_version v + 1\<rparr>)"

lemma move_and_write_Inr:
  "move_and_write p l w db = Inr (e, db') \<longleftrightarrow>
     \<not> already_reversed db p
     \<and> e = entry_of p (fresh_id (map e_id (ledger db))) (w_balance w + p_amount p)
     \<and> db' = db\<lparr>wallets := moved p l (wallets db), ledger := ledger db @ [e]\<rparr>"
  by (auto simp: move_and_write_def moved_def Let_def)

lemma entry_of_simps [simp]:
  "e_id (entry_of p i b) = i" "e_enterprise (entry_of p i b) = p_enterprise p"
  "e_wallet (entry_of p i b) = p_wallet p" "e_amount (entry_of p i b) = p_amount p"
  "e_balance_after (entry_of p i b) = b" "e_key (entry_of p i b) = p_key p"
  "e_reverses (entry_of p i b) = p_reverses p" "e_kind (entry_of p i b) = p_kind p"
  "e_award (entry_of p i b) = p_award p" "e_group (entry_of p i b) = p_group p"
  by (simp_all add: entry_of_def)

lemma reversal_key_entry: "reversal_key (entry_of p i b) = (p_enterprise p, p_reverses p)"
  by (simp add: reversal_key_def)

lemma map_moved:
  assumes "\<And>v b l' n. f (v\<lparr>w_balance := b, w_lifetime := l', w_version := n\<rparr>) = f v"
  shows "map f (moved p l ws) = map f ws"
  using assms by (simp add: moved_def update_where_def)

lemma map_filter_moved:
  assumes "\<And>v b l' n. f (v\<lparr>w_balance := b, w_lifetime := l', w_version := n\<rparr>) = f v"
    and "\<And>v b l' n. P (v\<lparr>w_balance := b, w_lifetime := l', w_version := n\<rparr>) = P v"
  shows "map f (filter P (moved p l ws)) = map f (filter P ws)"
  using assms unfolding moved_def update_where_def by (induction ws) auto

lemma moved_row:
  assumes "v' \<in> set (moved p l ws)"
  obtains v where "v \<in> set ws"
    and "v' = (if w_id v = p_wallet p \<and> w_enterprise v = p_enterprise p \<and> \<not> w_deleted v
               then v\<lparr>w_balance := w_balance v + p_amount p, w_lifetime := w_lifetime v + l,
                       w_version := w_version v + 1\<rparr> else v)"
  using assms by (auto simp: moved_def set_update_where)

lemma moved_row_keeps:
  assumes "v \<in> set ws"
  shows "\<exists>v'\<in>set (moved p l ws). w_id v' = w_id v \<and> w_enterprise v' = w_enterprise v"
proof -
  let ?f = "\<lambda>v. v\<lparr>w_balance := w_balance v + p_amount p, w_lifetime := w_lifetime v + l,
      w_version := w_version v + 1\<rparr>"
  let ?v = "if w_id v = p_wallet p \<and> w_enterprise v = p_enterprise p \<and> \<not> w_deleted v
    then ?f v else v"
  have "?v \<in> set (moved p l ws)"
    unfolding moved_def set_update_where using assms by (rule imageI)
  then show ?thesis by (rule bexI [rotated]) simp
qed

lemma not_already_reversed:
  assumes "\<not> already_reversed db p"
  shows "e \<in> set (ledger db) \<Longrightarrow> e_reverses e \<noteq> None \<Longrightarrow> p_reverses p \<noteq> None \<Longrightarrow>
    reversal_key e \<noteq> (p_enterprise p, p_reverses p)"
  using assms unfolding already_reversed_def reversal_key_def list_ex_iff by auto

lemma moved_balance:
  assumes ids: "distinct (map w_id ws)" and w: "w \<in> set ws"
    and w': "w_id w = p_wallet p" "w_enterprise w = p_enterprise p" "\<not> w_deleted w"
    and sums: "\<And>v. v \<in> set ws \<Longrightarrow> w_balance v = sum_of (w_enterprise v) (w_id v) es"
    and e: "e_enterprise e = p_enterprise p" "e_wallet e = p_wallet p" "e_amount e = p_amount p"
    and v': "v' \<in> set (moved p l ws)"
  shows "w_balance v' = sum_of (w_enterprise v') (w_id v') (es @ [e])"
proof -
  from v' obtain v where v: "v \<in> set ws"
    and v'_eq: "v' = (if w_id v = p_wallet p \<and> w_enterprise v = p_enterprise p \<and> \<not> w_deleted v
             then v\<lparr>w_balance := w_balance v + p_amount p, w_lifetime := w_lifetime v + l,
                     w_version := w_version v + 1\<rparr> else v)"
    by (rule moved_row)
  have bv: "w_balance v = sum_of (w_enterprise v) (w_id v) es" by (rule sums [OF v])
  show ?thesis
  proof (cases "w_id v = p_wallet p")
    case True
    then have "v = w" using distinct_map_eq [OF ids v w] w'(1) by simp
    with w' have "w_enterprise v = p_enterprise p" and "\<not> w_deleted v" by simp_all
    with True v'_eq bv show ?thesis by (simp add: sum_of_single e)
  next
    case False
    with v'_eq have "v' = v" by simp
    with False bv show ?thesis by (simp add: sum_of_single e)
  qed
qed

lemma moved_reversals:
  assumes "distinct (map reversal_key (filter (\<lambda>e. e_reverses e \<noteq> None) (ledger db)))"
    and nrev: "\<not> already_reversed db p"
  shows "distinct (map reversal_key
           (filter (\<lambda>e. e_reverses e \<noteq> None) (ledger db @ [entry_of p i b])))"
proof -
  have "(p_enterprise p, p_reverses p)
          \<notin> reversal_key ` set (filter (\<lambda>e. e_reverses e \<noteq> None) (ledger db))"
    if "p_reverses p \<noteq> None"
    using not_already_reversed [OF nrev] that by force
  with assms(1) show ?thesis by (auto simp: reversal_key_entry)
qed

lemma books_move:
  assumes ok: "books_ok db" and new: "entry_by_key db (p_enterprise p) (p_key p) = None"
    and wallet: "wallet_by_id db (p_enterprise p) (p_wallet p) = Some w"
    and run: "move_and_write p l w db = Inr (e, db')"
  shows "books_ok db'"
proof -
  let ?ws = "wallets db" and ?es = "ledger db"
  have b: "books ?ws ?es" using ok by (simp add: books_ok_def)
  from run have nrev: "\<not> already_reversed db p"
    and e: "e = entry_of p (fresh_id (map e_id ?es)) (w_balance w + p_amount p)"
    and db': "wallets db' = moved p l ?ws" "ledger db' = ?es @ [e]"
    by (auto simp: move_and_write_Inr)
  note w = wallet_by_idD [OF wallet]
  have wsum: "w_balance w = sum_of (p_enterprise p) (p_wallet p) ?es"
    using booksD(4) [OF b w(1)] w by simp
  have key: "(p_enterprise p, p_key p) \<notin> (\<lambda>e. (e_enterprise e, e_key e)) ` set ?es"
    using entry_by_key_NoneD [OF new] by force
  have rev: "distinct (map reversal_key (filter (\<lambda>e. e_reverses e \<noteq> None) (?es @ [e])))"
    unfolding e by (rule moved_reversals [OF _ nrev]) (use b in \<open>simp add: books_def\<close>)
  have bal: "\<forall>v\<in>set (moved p l ?ws). w_balance v = sum_of (w_enterprise v) (w_id v) (?es @ [e])"
    using moved_balance [OF booksD(1) [OF b] w booksD(4) [OF b], of e] by (simp add: e)
  have "\<exists>v\<in>set ?ws. w_id v = e_wallet f \<and> w_enterprise v = e_enterprise f"
    if "f \<in> set (?es @ [e])" for f
    using that b w unfolding books_def e by auto
  then have fk: "\<forall>f\<in>set (?es @ [e]). \<exists>v\<in>set (moved p l ?ws).
      w_id v = e_wallet f \<and> w_enterprise v = e_enterprise f"
    using moved_row_keeps by metis
  have chk: "\<forall>v\<in>set (moved p l ?ws). currency_chk (w_kind v) (w_currency v)"
    using b by (auto simp: books_def elim!: moved_row)
  show ?thesis
    using b key rev bal fk chk unfolding books_ok_def db' books_def
    by (simp add: e map_moved map_filter_moved running_snoc wsum)
qed

section \<open>What each statement does\<close>

definition lifetime_delta :: "post_input \<Rightarrow> bool \<Rightarrow> int" where
  "lifetime_delta p isEarn = (if isEarn \<and> 0 < p_amount p then p_amount p else 0)"

lemma post_replay:
  "entry_by_key db (p_enterprise p) (p_key p) = Some e \<Longrightarrow> post p isEarn db = Inr (e, db)"
  by (simp add: post_def)

lemma post_Inr:
  "post p isEarn db = Inr (e, db') \<longleftrightarrow>
     (entry_by_key db (p_enterprise p) (p_key p) = Some e \<and> db' = db)
     \<or> (entry_by_key db (p_enterprise p) (p_key p) = None
        \<and> (\<exists>w. wallet_by_id db (p_enterprise p) (p_wallet p) = Some w
               \<and> move_and_write p (lifetime_delta p isEarn) w db = Inr (e, db')))"
  by (auto simp: post_def lifetime_delta_def Let_def split: option.splits)

lemma debit_Inr:
  "debitIfSufficient p db = Inr (r, db') \<longleftrightarrow> p_amount p < 0 \<and>
     ((\<exists>e. entry_by_key db (p_enterprise p) (p_key p) = Some e \<and> r = Some e \<and> db' = db)
     \<or> (entry_by_key db (p_enterprise p) (p_key p) = None
        \<and> (\<exists>w. wallet_by_id db (p_enterprise p) (p_wallet p) = Some w
            \<and> (if - p_amount p \<le> w_balance w
               then \<exists>e. r = Some e \<and> move_and_write p 0 w db = Inr (e, db')
               else r = None \<and> db' = db))))"
  by (auto simp: debitIfSufficient_def Let_def split: option.splits sum.splits if_splits)

lemma ensure_Inr:
  "ensureCustomerWallet ent cust kind cur db = Inr (w, db') \<longleftrightarrow> currency_chk kind cur \<and>
     ((find (same_slot ent cust kind cur) (wallets db) = Some w \<and> db' = db)
     \<or> (find (same_slot ent cust kind cur) (wallets db) = None
        \<and> w = \<lparr>w_id = fresh_id (map w_id (wallets db)), w_enterprise = ent,
                   w_account = Customer, w_customer = Some cust, w_kind = kind,
                   w_currency = cur, w_balance = 0, w_pending = 0, w_lifetime = 0,
                   w_version = 0, w_deleted = False\<rparr>
        \<and> db' = db\<lparr>wallets := wallets db @ [w]\<rparr>))"
  by (auto simp: ensureCustomerWallet_def Let_def split: option.splits)

lemma keeps_books_post: "keeps books_ok (post p isEarn)"
  by (rule tripleI) (auto simp: post_Inr intro: books_move)

lemma keeps_books_credit [triple_rules]: "keeps books_ok (credit p)"
  by (simp add: credit_def keeps_books_post)

lemma keeps_books_postUnchecked [triple_rules]: "keeps books_ok (postUnchecked p)"
  by (simp add: postUnchecked_def keeps_books_post)

lemma keeps_books_debit [triple_rules]: "keeps books_ok (debitIfSufficient p)"
  by (rule tripleI) (auto simp: debit_Inr split: if_splits intro: books_move)

lemma fresh_wallet_unused:
  assumes "books ws es"
  shows "sum_of ent (fresh_id (map w_id ws)) es = 0"
proof (rule sum_of_none)
  fix e assume "e \<in> set es"
  then obtain w where "w \<in> set ws" and "w_id w = e_wallet e"
    using assms unfolding books_def by blast
  then have "e_wallet e < fresh_id (map w_id ws)"
    using fresh_id_map [of w ws w_id] by simp
  then show "\<not> (e_enterprise e = ent \<and> e_wallet e = fresh_id (map w_id ws))"
    by simp
qed

lemma keeps_books_ensure [triple_rules]: "keeps books_ok (ensureCustomerWallet ent cust kind cur)"
proof (rule tripleI)
  fix db w db'
  assume ok: "books_ok db" and run: "ensureCustomerWallet ent cust kind cur db = Inr (w, db')"
  show "books_ok db'"
  proof (cases "find (same_slot ent cust kind cur) (wallets db)")
    case (Some v)
    with ok run show ?thesis by (simp add: ensure_Inr)
  next
    case None
    have b: "books (wallets db) (ledger db)" using ok by (simp add: books_ok_def)
    have slot: "\<not> same_slot ent cust kind cur v" if "v \<in> set (wallets db)" for v
      using None that by (simp add: find_None_all)
    let ?key = "\<lambda>w. (w_enterprise w, w_customer w, w_kind w, coalesced (w_currency w))"
    let ?live = "\<lambda>w. w_account w = Customer \<and> \<not> w_deleted w"
    have "(ent, Some cust, kind, coalesced cur) \<notin> ?key ` set (filter ?live (wallets db))"
      using slot unfolding same_slot_def by force
    with run None show ?thesis
      using b fresh_wallet_unused [OF b]
      unfolding books_ok_def books_def
      by (simp add: ensure_Inr)
  qed
qed

lemma balance_sumEntries:
  assumes "books_ok db"
  shows "balance db ent wid = sumEntries db ent wid"
proof -
  let ?P = "\<lambda>w. w_id w = wid \<and> w_enterprise w = ent"
  have b: "books (wallets db) (ledger db)" using assms by (simp add: books_ok_def)
  show ?thesis
  proof (cases "\<exists>w\<in>set (wallets db). ?P w")
    case True
    then obtain w where w: "w \<in> set (wallets db)" "w_id w = wid" "w_enterprise w = ent" by blast
    then have "filter ?P (wallets db) = [w]"
      using booksD(1) [OF b] by (intro filter_unique [where f = w_id]) simp_all
    with booksD(4) [OF b w(1)] w show ?thesis by (simp add: balance_def sumEntries_def)
  next
    case False
    then have "filter ?P (wallets db) = []" by (auto simp: filter_empty_conv)
    moreover have "sum_of ent wid (ledger db) = 0"
      using False b unfolding books_def by (intro sum_of_none) metis
    ultimately show ?thesis by (simp add: balance_def sumEntries_def)
  qed
qed

section \<open>The ledger only grows\<close>

interpretation ledger_growth: preorder_rel "\<lambda>s s'. prefix (ledger s) (ledger s')"
  by unfold_locales (auto intro: prefix_order.order_trans)

lemma move_grows: "move_and_write p l w db = Inr (e, db') \<Longrightarrow> prefix (ledger db) (ledger db')"
  by (auto simp: move_and_write_Inr)

lemma grows_post: "steps (\<lambda>s s'. prefix (ledger s) (ledger s')) (post p isEarn)"
  by (rule stepsI) (auto simp: post_Inr move_grows)

lemma grows_credit: "steps (\<lambda>s s'. prefix (ledger s) (ledger s')) (credit p)"
  by (simp add: credit_def grows_post)

lemma grows_postUnchecked: "steps (\<lambda>s s'. prefix (ledger s) (ledger s')) (postUnchecked p)"
  by (simp add: postUnchecked_def grows_post)

lemma grows_debit: "steps (\<lambda>s s'. prefix (ledger s) (ledger s')) (debitIfSufficient p)"
  by (rule stepsI) (auto simp: debit_Inr move_grows split: if_splits)

lemma grows_ensure: "steps (\<lambda>s s'. prefix (ledger s) (ledger s')) (ensureCustomerWallet ent cust kind cur)"
  by (rule stepsI) (auto simp: ensure_Inr)

lemma entry_by_key_grows:
  assumes "prefix (ledger s) (ledger s')" and "entry_by_key s ent key = Some e"
  shows "entry_by_key s' ent key = Some e"
  using assms by (auto simp: entry_by_key_def prefix_def find_append)

lemma move_answers:
  assumes "entry_by_key db (p_enterprise p) (p_key p) = None"
    and "move_and_write p l w db = Inr (e, db')"
  shows "entry_by_key db' (p_enterprise p) (p_key p) = Some e"
  using assms by (auto simp: move_and_write_Inr entry_by_key_def find_append)

text \<open>
  Every call of \<open>post\<close> with one idempotency key writes once, whatever other calls that only
  append to the ledger run in between.
\<close>

interpretation post_once: keyed_once
  "\<lambda>(p, isEarn). post p isEarn" "\<lambda>s (p, isEarn). entry_by_key s (p_enterprise p) (p_key p)"
  "\<lambda>_. True" "steps (\<lambda>s s'. prefix (ledger s) (ledger s'))"
proof (unfold_locales, goal_cases)
  case (1 s i r)
  then show ?case by (cases i) (auto simp: post_replay)
next
  case (2 i s r s')
  then show ?case by (cases i) (auto simp: post_Inr move_answers)
next
  case (3 m s x s' i r)
  then show ?case by (cases i) (auto dest: stepsD intro: entry_by_key_grows)
qed

interpretation debit_once: keyed_once
  debitIfSufficient
  "\<lambda>s p. if 0 \<le> p_amount p then None
         else map_option Some (entry_by_key s (p_enterprise p) (p_key p))"
  "\<lambda>r. r \<noteq> None" "steps (\<lambda>s s'. prefix (ledger s) (ledger s'))"
proof (unfold_locales, goal_cases)
  case (1 s i r)
  then show ?case by (auto simp: debit_Inr split: if_splits)
next
  case (2 i s r s')
  then show ?case by (auto simp: debit_Inr move_answers split: if_splits)
next
  case (3 m s x s' i r)
  then show ?case by (auto split: if_splits dest: stepsD intro: entry_by_key_grows)
qed

end
