(* ===== verification/Reward_Awards.thy ===== *)
theory Reward_Awards
  imports Reward_Ledger
begin

text \<open>
  Awards, cap counters, applied benefits and entitlements: the models of
  \<open>database/repositories/reward-award.repository.ts\<close> and \<open>reward-entitlement.repository.ts\<close>, and
  the reads the engine makes of rules, programs and customers (\<open>reward-rule.repository.ts\<close>,
  \<open>reward-program.repository.ts\<close>).

  The invariant \<open>records_ok\<close> states the unique indexes and CHECK constraints of
  \<open>database/schema/reward-objects.ts\<close>: at most one live award per rule, customer and source,
  counters within \<open>0 \<le> used \<le> cap\<close>, one benefit row per award and position, one live entitlement
  per redemption code. Every statement keeps it; \<open>award_once\<close> and the \<open>slots\<close> lemmas give the
  exactly-once and frequency-cap behaviour.
\<close>

section \<open>Awards\<close>

record create_award =
  k_enterprise :: int
  k_program :: int
  k_rule :: int
  k_rule_version :: int
  k_program_version :: int
  k_customer :: int
  k_channel :: "int option"
  k_source_kind :: string
  k_source :: int
  k_status :: RewardAwardStatus
  k_held_until :: "int option"
  k_occurred :: int

definition source_key :: "reward_award \<Rightarrow> int \<times> int \<times> int \<times> string \<times> int" where
  "source_key a = (a_enterprise a, a_rule a, a_customer a, a_source_kind a, a_source a)"

definition input_key :: "create_award \<Rightarrow> int \<times> int \<times> int \<times> string \<times> int" where
  "input_key k = (k_enterprise k, k_rule k, k_customer k, k_source_kind k, k_source k)"

definition award_exists :: "reward_db \<Rightarrow> int \<times> int \<times> int \<times> string \<times> int \<Rightarrow> bool" where
  "award_exists db key \<longleftrightarrow> list_ex (\<lambda>a. \<not> a_deleted a \<and> source_key a = key) (awards db)"

definition new_award :: "int \<Rightarrow> create_award \<Rightarrow> reward_award" where
  "new_award i k =
     \<lparr>a_id = i, a_enterprise = k_enterprise k, a_program = k_program k, a_rule = k_rule k,
      a_rule_version = k_rule_version k, a_program_version = k_program_version k,
      a_customer = k_customer k, a_channel = k_channel k, a_source_kind = k_source_kind k,
      a_source = k_source k, a_status = k_status k, a_period_key = None,
      a_held_until = k_held_until k, a_occurred = k_occurred k, a_granted_at = None,
      a_reversed_at = None, a_reason = None, a_factor = None, a_factor_provider = None,
      a_deleted = False\<rparr>"

definition createIfAbsent :: "create_award \<Rightarrow> reward_award option reward_act" where
  "createIfAbsent k = (\<lambda>db.
     if award_exists db (input_key k) then Inr (None, db)
     else let a = new_award (fresh_id (map a_id (awards db))) k
          in Inr (Some a, db\<lparr>awards := awards db @ [a]\<rparr>))"

definition update_award ::
    "int \<Rightarrow> int \<Rightarrow> (reward_award \<Rightarrow> reward_award) \<Rightarrow> reward_db \<Rightarrow> reward_db" where
  "update_award ent awardId f db =
     db\<lparr>awards := update_where (\<lambda>a. a_id a = awardId \<and> a_enterprise a = ent) f (awards db)\<rparr>"

definition coalesce :: "'a option \<Rightarrow> 'a option \<Rightarrow> 'a option" where
  "coalesce x y = (case x of None \<Rightarrow> y | Some v \<Rightarrow> Some v)"

definition markSkipped ::
    "int \<Rightarrow> int \<Rightarrow> RewardAwardStatus \<Rightarrow> string \<Rightarrow> string option \<Rightarrow> unit reward_act" where
  "markSkipped ent awardId status reason periodKey =
     modifies (update_award ent awardId
       (\<lambda>a. a\<lparr>a_status := status, a_reason := Some reason,
              a_period_key := coalesce periodKey (a_period_key a)\<rparr>))"

text \<open>\<open>reward_awards_factor_chk\<close> refuses a factor outside \<open>0..10000\<close>.\<close>

definition factor_chk :: "int option \<Rightarrow> bool" where
  "factor_chk f = (case f of None \<Rightarrow> True | Some n \<Rightarrow> 0 \<le> n \<and> n \<le> 10000)"

definition markGranted ::
    "int \<Rightarrow> int \<Rightarrow> int option \<Rightarrow> string option \<Rightarrow> string option \<Rightarrow> unit reward_act" where
  "markGranted ent awardId factorBasisPoints factorProviderCode periodKey =
     (if \<not> factor_chk factorBasisPoints then throw (CheckViolation ''reward_awards_factor_chk'')
      else modifies (\<lambda>db. update_award ent awardId
        (\<lambda>a. a\<lparr>a_status := Granted, a_granted_at := Some (clock db),
               a_factor := factorBasisPoints, a_factor_provider := factorProviderCode,
               a_period_key := coalesce periodKey (a_period_key a)\<rparr>) db))"

definition markReversed :: "int \<Rightarrow> int \<Rightarrow> string \<Rightarrow> unit reward_act" where
  "markReversed ent awardId reason =
     modifies (\<lambda>db. update_award ent awardId
       (\<lambda>a. a\<lparr>a_status := Reversed, a_reversed_at := Some (clock db), a_reason := Some reason\<rparr>) db)"

text \<open>\<open>lockHeldAward\<close> gives the lock to at most one transaction; here it is the re-check of the
  status under the lock.\<close>

definition lockHeldAward :: "reward_db \<Rightarrow> int \<Rightarrow> int \<Rightarrow> bool" where
  "lockHeldAward db ent awardId \<longleftrightarrow>
     list_ex (\<lambda>a. a_id a = awardId \<and> a_enterprise a = ent \<and> a_status a = Held \<and> \<not> a_deleted a)
       (awards db)"

definition hold_elapsed :: "int \<Rightarrow> reward_award \<Rightarrow> bool" where
  "hold_elapsed now a \<longleftrightarrow> (case a_held_until a of None \<Rightarrow> False | Some t \<Rightarrow> t \<le> now)"

definition claimDueHeldAwards :: "reward_db \<Rightarrow> nat \<Rightarrow> reward_award list" where
  "claimDueHeldAwards db limit =
     take limit (sort_key (\<lambda>a. the (a_held_until a))
       (filter (\<lambda>a. a_status a = Held \<and> \<not> a_deleted a \<and> hold_elapsed (clock db) a) (awards db)))"

text \<open>The query has no ORDER BY; the rows come in insertion order here.\<close>

definition findBySource :: "reward_db \<Rightarrow> int \<Rightarrow> string \<Rightarrow> int \<Rightarrow> reward_award list" where
  "findBySource db ent sourceRefKind sourceRefId =
     filter (\<lambda>a. a_enterprise a = ent \<and> a_source_kind a = sourceRefKind
                 \<and> a_source a = sourceRefId \<and> \<not> a_deleted a) (awards db)"

section \<open>Cap counters\<close>

definition counter_key :: "cap_counter \<Rightarrow> int \<times> int \<times> int \<times> string" where
  "counter_key c = (c_enterprise c, c_rule c, c_customer c, c_period c)"

definition counter_of :: "reward_db \<Rightarrow> int \<times> int \<times> int \<times> string \<Rightarrow> cap_counter option" where
  "counter_of db key = find (\<lambda>c. counter_key c = key) (cap_counters db)"

text \<open>Insert with one slot used, or take the next slot while \<open>used < cap\<close>; the answer says whether
  a slot was taken. \<open>reward_cap_counters_used_chk\<close> refuses a first claim against a cap below 1.\<close>

definition claimCapSlot :: "int \<Rightarrow> int \<Rightarrow> int \<Rightarrow> int \<Rightarrow> string \<Rightarrow> int \<Rightarrow> bool reward_act" where
  "claimCapSlot ent prog rule cust period cap = (\<lambda>db.
     case counter_of db (ent, rule, cust, period) of
       None \<Rightarrow>
         if cap < 1 then Inl (CheckViolation ''reward_cap_counters_used_chk'')
         else Inr (True, db\<lparr>cap_counters := cap_counters db @
                [\<lparr>c_enterprise = ent, c_program = prog, c_rule = rule, c_customer = cust,
                  c_period = period, c_used = 1, c_cap = cap\<rparr>]\<rparr>)
     | Some c \<Rightarrow>
         if c_used c < c_cap c
         then Inr (True, db\<lparr>cap_counters :=
                update_where (\<lambda>x. counter_key x = (ent, rule, cust, period))
                  (\<lambda>x. x\<lparr>c_used := c_used x + 1\<rparr>) (cap_counters db)\<rparr>)
         else Inr (False, db))"

definition releaseCapSlot :: "int \<Rightarrow> int \<Rightarrow> int \<Rightarrow> string \<Rightarrow> unit reward_act" where
  "releaseCapSlot ent rule cust period =
     modifies (\<lambda>db. db\<lparr>cap_counters :=
       update_where (\<lambda>x. counter_key x = (ent, rule, cust, period))
         (\<lambda>x. x\<lparr>c_used := max (c_used x - 1) 0\<rparr>) (cap_counters db)\<rparr>)"

section \<open>Applied benefits\<close>

definition recordBenefit ::
    "int \<Rightarrow> int \<Rightarrow> int \<Rightarrow> string \<Rightarrow> payload \<Rightarrow> compensation \<Rightarrow> string \<Rightarrow> int reward_act" where
  "recordBenefit ent awardId idx kind pay undo key = (\<lambda>db.
     if list_ex (\<lambda>b. b_enterprise b = ent \<and> b_key b = key) (award_benefits db)
     then Inl (UniqueViolation ''reward_award_benefits_idem_uniq'')
     else if list_ex (\<lambda>b. b_enterprise b = ent \<and> b_award b = awardId \<and> b_index b = idx
                          \<and> \<not> b_deleted b) (award_benefits db)
     then Inl (UniqueViolation ''reward_award_benefits_slot_uniq'')
     else let i = fresh_id (map b_id (award_benefits db))
          in Inr (i, db\<lparr>award_benefits := award_benefits db @
               [\<lparr>b_id = i, b_enterprise = ent, b_award = awardId, b_index = idx, b_kind = kind,
                 b_payload = pay, b_compensation = undo, b_status = Applied, b_key = key,
                 b_deleted = False\<rparr>]\<rparr>))"

definition of_award :: "int \<Rightarrow> int \<Rightarrow> award_benefit \<Rightarrow> bool" where
  "of_award ent awardId b \<longleftrightarrow> b_enterprise b = ent \<and> b_award b = awardId \<and> \<not> b_deleted b"

definition listAppliedBenefits :: "reward_db \<Rightarrow> int \<Rightarrow> int \<Rightarrow> award_benefit list" where
  "listAppliedBenefits db ent awardId =
     sort_key b_index (filter (of_award ent awardId) (award_benefits db))"

definition markBenefitCompensated :: "int \<Rightarrow> int \<Rightarrow> unit reward_act" where
  "markBenefitCompensated ent benefitId =
     modifies (\<lambda>db. db\<lparr>award_benefits :=
       update_where (\<lambda>b. b_id b = benefitId \<and> b_enterprise b = ent)
         (\<lambda>b. b\<lparr>b_status := Compensated\<rparr>) (award_benefits db)\<rparr>)"

section \<open>Entitlements\<close>

definition issue ::
    "int \<Rightarrow> int \<Rightarrow> int \<Rightarrow> string \<Rightarrow> string \<Rightarrow> int option \<Rightarrow> reward_entitlement reward_act" where
  "issue ent cust awardId item code expires = (\<lambda>db.
     if list_ex (\<lambda>n. n_enterprise n = ent \<and> n_code n = code \<and> \<not> n_deleted n) (entitlements db)
     then Inl (UniqueViolation ''reward_entitlements_code_uniq'')
     else let n = \<lparr>n_id = fresh_id (map n_id (entitlements db)), n_enterprise = ent,
                    n_customer = cust, n_award = awardId, n_item = item, n_status = Issued,
                    n_code = code, n_issued_at = clock db, n_expires_at = expires,
                    n_deleted = False\<rparr>
          in Inr (n, db\<lparr>entitlements := entitlements db @ [n]\<rparr>))"

definition revocable :: "int \<Rightarrow> int \<Rightarrow> reward_entitlement \<Rightarrow> bool" where
  "revocable ent entitlementId n \<longleftrightarrow>
     n_id n = entitlementId \<and> n_enterprise n = ent \<and> n_status n = Issued"

definition revokeIfUnredeemed :: "int \<Rightarrow> int \<Rightarrow> bool reward_act" where
  "revokeIfUnredeemed ent entitlementId = (\<lambda>db.
     Inr (list_ex (revocable ent entitlementId) (entitlements db),
       db\<lparr>entitlements := update_where (revocable ent entitlementId)
            (\<lambda>n. n\<lparr>n_status := Revoked\<rparr>) (entitlements db)\<rparr>))"

definition lapsed :: "int \<Rightarrow> reward_entitlement \<Rightarrow> bool" where
  "lapsed now n \<longleftrightarrow> n_status n = Issued \<and> \<not> n_deleted n
     \<and> (case n_expires_at n of None \<Rightarrow> False | Some t \<Rightarrow> t \<le> now)"

definition expireLapsed :: "nat \<Rightarrow> nat reward_act" where
  "expireLapsed limit = (\<lambda>db.
     let ids = map n_id (take limit (sort_key (\<lambda>n. the (n_expires_at n))
                 (filter (lapsed (clock db)) (entitlements db))))
     in Inr (length (filter (\<lambda>n. n_id n \<in> set ids) (entitlements db)),
          db\<lparr>entitlements := update_where (\<lambda>n. n_id n \<in> set ids)
               (\<lambda>n. n\<lparr>n_status := EntitlementExpired\<rparr>) (entitlements db)\<rparr>))"

section \<open>Rules, programs and customers, as the engine reads them\<close>

definition program_open :: "int \<Rightarrow> reward_program \<Rightarrow> bool" where
  "program_open at p \<longleftrightarrow> g_status p = Active \<and> \<not> g_deleted p
     \<and> (case g_starts_at p of None \<Rightarrow> True | Some t \<Rightarrow> t \<le> at)
     \<and> (case g_ends_at p of None \<Rightarrow> True | Some t \<Rightarrow> at < t)"

text \<open>\<open>ORDER BY r.priority, r.id\<close> as two stable sorts.\<close>

definition findMatchingRules :: "reward_db \<Rightarrow> int \<Rightarrow> RewardTriggerKind \<Rightarrow> int \<Rightarrow> reward_rule list" where
  "findMatchingRules db ent trigger at =
     sort_key r_priority (sort_key r_id
       (filter (\<lambda>r. r_enterprise r = ent \<and> r_trigger r = trigger \<and> r_active r \<and> \<not> r_deleted r
                    \<and> list_ex (\<lambda>p. g_id p = r_program r \<and> g_enterprise p = r_enterprise r
                                   \<and> program_open at p) (programs db))
          (rules db)))"

definition loadBenefits :: "reward_db \<Rightarrow> int \<Rightarrow> int \<Rightarrow> int \<Rightarrow> rule_benefit list" where
  "loadBenefits db ent ruleId ruleVersion =
     sort_key rb_index (filter (\<lambda>b. rb_enterprise b = ent \<and> rb_rule b = ruleId
       \<and> rb_rule_version b = ruleVersion \<and> \<not> rb_deleted b) (rule_benefits db))"

definition loadConditions :: "reward_db \<Rightarrow> int \<Rightarrow> int \<Rightarrow> int \<Rightarrow> rule_condition list" where
  "loadConditions db ent ruleId ruleVersion =
     sort_key rc_index (filter (\<lambda>c. rc_enterprise c = ent \<and> rc_rule c = ruleId
       \<and> rc_rule_version c = ruleVersion \<and> \<not> rc_deleted c) (rule_conditions db))"

definition findRuleById :: "reward_db \<Rightarrow> int \<Rightarrow> int \<Rightarrow> reward_rule option" where
  "findRuleById db ent i =
     find (\<lambda>r. r_enterprise r = ent \<and> r_id r = i \<and> \<not> r_deleted r) (rules db)"

text \<open>The program joined with the time zone and the currency of its business.\<close>

record program_row =
  pr_program :: reward_program
  pr_timezone :: "string option"
  pr_currency :: "string option"

definition findProgramById :: "reward_db \<Rightarrow> int \<Rightarrow> int \<Rightarrow> program_row option" where
  "findProgramById db ent i =
     (case find (\<lambda>p. g_enterprise p = ent \<and> g_id p = i \<and> \<not> g_deleted p) (programs db) of
        None \<Rightarrow> None
      | Some p \<Rightarrow>
          (case find (\<lambda>t. t_id t = g_enterprise p) (enterprises db) of
             None \<Rightarrow> None
           | Some t \<Rightarrow> Some \<lparr>pr_program = p, pr_timezone = t_timezone t, pr_currency = t_currency t\<rparr>))"

definition findFirstSeenAt :: "reward_db \<Rightarrow> int \<Rightarrow> int \<Rightarrow> int option" where
  "findFirstSeenAt db ent cust =
     (case find (\<lambda>c. cu_enterprise c = ent \<and> cu_id c = cust \<and> \<not> cu_deleted c) (customers db) of
        None \<Rightarrow> None | Some c \<Rightarrow> cu_first_seen c)"

section \<open>Audit rows and random draws\<close>

definition audit_record :: "int \<Rightarrow> audit_action \<Rightarrow> int \<Rightarrow> unit reward_act" where
  "audit_record ent action entity =
     modifies (\<lambda>db. db\<lparr>audit_logs := audit_logs db @
       [\<lparr>l_enterprise = ent, l_action = action, l_entity = entity\<rparr>]\<rparr>)"

definition randomUUID :: "host \<Rightarrow> string reward_act" where
  "randomUUID h = (\<lambda>db. Inr (uuid h (entropy db), db\<lparr>entropy := entropy db + 1\<rparr>))"

definition randomBytes :: "host \<Rightarrow> nat list reward_act" where
  "randomBytes h = (\<lambda>db. Inr (bytes h (entropy db), db\<lparr>entropy := entropy db + 1\<rparr>))"

section \<open>The invariant of the records\<close>

definition award_ok :: "reward_award \<Rightarrow> bool" where
  "award_ok a \<longleftrightarrow> factor_chk (a_factor a) \<and> (a_status a = Held \<longrightarrow> a_period_key a = None)"

definition awards_ok :: "reward_award list \<Rightarrow> bool" where
  "awards_ok as \<longleftrightarrow> distinct (map a_id as)
     \<and> distinct (map source_key (filter (\<lambda>a. \<not> a_deleted a) as)) \<and> (\<forall>a\<in>set as. award_ok a)"

definition counters_ok :: "cap_counter list \<Rightarrow> bool" where
  "counters_ok cs \<longleftrightarrow> distinct (map counter_key cs) \<and> (\<forall>c\<in>set cs. 0 \<le> c_used c \<and> c_used c \<le> c_cap c)"

definition benefits_ok :: "award_benefit list \<Rightarrow> bool" where
  "benefits_ok bs \<longleftrightarrow> distinct (map b_id bs) \<and> distinct (map (\<lambda>b. (b_enterprise b, b_key b)) bs)
     \<and> distinct (map (\<lambda>b. (b_enterprise b, b_award b, b_index b)) (filter (\<lambda>b. \<not> b_deleted b) bs))"

definition entitlements_ok :: "reward_entitlement list \<Rightarrow> bool" where
  "entitlements_ok ns \<longleftrightarrow> distinct (map n_id ns)
     \<and> distinct (map (\<lambda>n. (n_enterprise n, n_code n)) (filter (\<lambda>n. \<not> n_deleted n) ns))"

definition records_ok :: "reward_db \<Rightarrow> bool" where
  "records_ok db \<longleftrightarrow> awards_ok (awards db) \<and> counters_ok (cap_counters db)
     \<and> benefits_ok (award_benefits db) \<and> entitlements_ok (entitlements db)"

definition engine_ok :: "reward_db \<Rightarrow> bool" where
  "engine_ok db \<longleftrightarrow> books_ok db \<and> records_ok db"

lemma filter_update_where:
  assumes "\<And>x. P x \<Longrightarrow> Q (f x) = Q x" and "\<And>x. P x \<Longrightarrow> g (f x) = g x"
  shows "map g (filter Q (update_where P f xs)) = map g (filter Q xs)"
  using assms unfolding update_where_def by (induction xs) auto

lemma awards_ok_create:
  assumes "awards_ok (awards db)" and "\<not> award_exists db (input_key k)"
  shows "awards_ok (awards db @ [new_award (fresh_id (map a_id (awards db))) k])"
  using assms fresh_id_map [of _ "awards db" a_id]
  unfolding awards_ok_def award_exists_def
  by (force simp: list_ex_iff new_award_def award_ok_def factor_chk_def source_key_def input_key_def)

lemma awards_ok_update:
  assumes "awards_ok as"
    and "\<And>a. a \<in> set as \<Longrightarrow> award_ok (f a)"
    and "\<And>a. a_id (f a) = a_id a" "\<And>a. source_key (f a) = source_key a"
      "\<And>a. a_deleted (f a) = a_deleted a"
  shows "awards_ok (update_where P f as)"
  using assms unfolding awards_ok_def
  by (auto simp: map_update_where filter_update_where set_update_where)

lemma counters_ok_claim:
  assumes "counters_ok cs" and "\<forall>c\<in>set cs. counter_key c = key \<longrightarrow> c_used c < c_cap c"
  shows "counters_ok (update_where (\<lambda>x. counter_key x = key) (\<lambda>x. x\<lparr>c_used := c_used x + 1\<rparr>) cs)"
  using assms unfolding counters_ok_def
  by (auto simp: set_update_where counter_key_def map_update_where)

lemma counters_ok_release:
  assumes "counters_ok cs"
  shows "counters_ok (update_where (\<lambda>x. counter_key x = key)
           (\<lambda>x. x\<lparr>c_used := max (c_used x - 1) 0\<rparr>) cs)"
  using assms unfolding counters_ok_def
  by (auto simp: set_update_where counter_key_def map_update_where)

lemma counter_ofD: "counter_of db key = Some c \<Longrightarrow> c \<in> set (cap_counters db) \<and> counter_key c = key"
  unfolding counter_of_def by (auto dest: find_Some_iff_mem)

lemma counter_of_unique:
  assumes "counters_ok (cap_counters db)" and "counter_of db key = Some c"
    and "d \<in> set (cap_counters db)" "counter_key d = key"
  shows "d = c"
  using assms distinct_map_eq [of counter_key] unfolding counters_ok_def
  by (metis counter_ofD)

subsection \<open>Every statement keeps both invariants\<close>

lemma keeps_engine:
  "keeps books_ok m \<Longrightarrow> keeps records_ok m \<Longrightarrow> keeps engine_ok m"
  by (auto simp: triple_def engine_ok_def)

lemma records_ok_frame [simp]:
  "records_ok (db\<lparr>wallets := ws\<rparr>) = records_ok db"
  "records_ok (db\<lparr>wallets := ws, ledger := es\<rparr>) = records_ok db"
  "records_ok (db\<lparr>audit_logs := ls\<rparr>) = records_ok db"
  "records_ok (db\<lparr>entropy := n\<rparr>) = records_ok db"
  by (simp_all add: records_ok_def)

lemma books_ok_frame [simp]:
  "books_ok (db\<lparr>awards := as\<rparr>) = books_ok db"
  "books_ok (db\<lparr>cap_counters := cs\<rparr>) = books_ok db"
  "books_ok (db\<lparr>award_benefits := bs\<rparr>) = books_ok db"
  "books_ok (db\<lparr>entitlements := ns\<rparr>) = books_ok db"
  "books_ok (db\<lparr>audit_logs := ls\<rparr>) = books_ok db"
  "books_ok (db\<lparr>entropy := n\<rparr>) = books_ok db"
  by (simp_all add: books_ok_def)

lemma keeps_engine_ensure: "keeps engine_ok (ensureCustomerWallet ent cust kind cur)"
  by (rule keeps_engine [OF keeps_books_ensure], rule tripleI) (auto simp: ensure_Inr)

lemma keeps_engine_post: "keeps engine_ok (post p isEarn)"
  by (rule keeps_engine [OF keeps_books_post], rule tripleI) (auto simp: post_Inr move_and_write_Inr)

lemma keeps_engine_debit: "keeps engine_ok (debitIfSufficient p)"
  by (rule keeps_engine [OF keeps_books_debit], rule tripleI)
    (auto simp: debit_Inr move_and_write_Inr split: if_splits)

lemma keeps_engine_create: "keeps engine_ok (createIfAbsent k)"
  by (rule tripleI)
    (auto simp: createIfAbsent_def engine_ok_def records_ok_def Let_def awards_ok_create split: if_splits)

lemma keeps_engine_update_award:
  assumes "\<And>a. award_ok a \<Longrightarrow> award_ok (f a)"
    and "\<And>a. a_id (f a) = a_id a" "\<And>a. source_key (f a) = source_key a"
      "\<And>a. a_deleted (f a) = a_deleted a"
    and "engine_ok db"
  shows "engine_ok (update_award ent awardId f db)"
proof -
  have "awards_ok (awards db)" using assms(5) by (simp add: engine_ok_def records_ok_def)
  then have "awards_ok (update_where (\<lambda>a. a_id a = awardId \<and> a_enterprise a = ent) f (awards db))"
    using assms(1-4) by (intro awards_ok_update) (auto simp: awards_ok_def)
  with assms(5) show ?thesis by (simp add: update_award_def engine_ok_def records_ok_def)
qed

lemma keeps_engine_markSkipped:
  "status \<noteq> Held \<Longrightarrow> keeps engine_ok (markSkipped ent awardId status reason periodKey)"
  unfolding markSkipped_def
  by (intro keeps_modifies keeps_engine_update_award) (auto simp: award_ok_def source_key_def)

lemma keeps_engine_markGranted: "keeps engine_ok (markGranted ent awardId f prov periodKey)"
  unfolding markGranted_def
  by (intro keeps_if triple_throw keeps_modifies keeps_engine_update_award)
    (auto simp: award_ok_def source_key_def)

lemma keeps_engine_markReversed: "keeps engine_ok (markReversed ent awardId reason)"
  unfolding markReversed_def
  by (intro keeps_modifies keeps_engine_update_award) (auto simp: award_ok_def source_key_def)

lemma keeps_engine_claim: "keeps engine_ok (claimCapSlot ent prog rule cust period cap)"
proof (rule tripleI)
  fix db b db'
  assume ok: "engine_ok db" and run: "claimCapSlot ent prog rule cust period cap db = Inr (b, db')"
  let ?key = "(ent, rule, cust, period)"
  have cs: "counters_ok (cap_counters db)" using ok by (simp add: engine_ok_def records_ok_def)
  show "engine_ok db'"
  proof (cases "counter_of db ?key")
    case None
    then have "\<forall>c\<in>set (cap_counters db). counter_key c \<noteq> ?key"
      unfolding counter_of_def find_None_all by simp
    with None run ok cs show ?thesis
      by (auto simp: claimCapSlot_def engine_ok_def records_ok_def counters_ok_def counter_key_def
          split: if_splits)
  next
    case (Some c)
    have "c_used d < c_cap d" if "d \<in> set (cap_counters db)" "counter_key d = ?key" "c_used c < c_cap c" for d
      using counter_of_unique [OF cs Some that(1,2)] that(3) by simp
    with Some run ok cs show ?thesis
      by (auto simp: claimCapSlot_def engine_ok_def records_ok_def split: if_splits intro!: counters_ok_claim)
  qed
qed

lemma keeps_engine_release: "keeps engine_ok (releaseCapSlot ent rule cust period)"
  unfolding releaseCapSlot_def
  by (intro keeps_modifies) (auto simp: engine_ok_def records_ok_def intro: counters_ok_release)

lemma keeps_engine_recordBenefit: "keeps engine_ok (recordBenefit ent awardId idx kind pay undo key)"
  by (rule tripleI)
    (auto simp: recordBenefit_def engine_ok_def records_ok_def benefits_ok_def Let_def list_ex_iff
      split: if_splits dest: fresh_id_map [where f = b_id])

lemma keeps_engine_markBenefitCompensated: "keeps engine_ok (markBenefitCompensated ent benefitId)"
  unfolding markBenefitCompensated_def
  by (intro keeps_modifies)
    (simp add: engine_ok_def records_ok_def benefits_ok_def map_update_where filter_update_where)

lemma keeps_engine_issue: "keeps engine_ok (issue ent cust awardId item code expires)"
  by (rule tripleI)
    (auto simp: issue_def engine_ok_def records_ok_def entitlements_ok_def Let_def list_ex_iff
      split: if_splits dest: fresh_id_map [where f = n_id])

lemma entitlements_ok_status:
  "entitlements_ok ns \<Longrightarrow> entitlements_ok (update_where P (\<lambda>n. n\<lparr>n_status := st\<rparr>) ns)"
  by (simp add: entitlements_ok_def map_update_where filter_update_where)

lemma keeps_engine_revoke: "keeps engine_ok (revokeIfUnredeemed ent entitlementId)"
  by (rule tripleI)
    (auto simp: revokeIfUnredeemed_def engine_ok_def records_ok_def intro: entitlements_ok_status)

lemma keeps_engine_expire: "keeps engine_ok (expireLapsed limit)"
  by (rule tripleI)
    (auto simp: expireLapsed_def Let_def engine_ok_def records_ok_def intro: entitlements_ok_status)

lemma keeps_engine_frames:
  "keeps engine_ok (audit_record ent action entity)"
  "keeps engine_ok (randomUUID h)"
  "keeps engine_ok (randomBytes h)"
  by (auto simp: triple_def audit_record_def randomUUID_def randomBytes_def modifies_def engine_ok_def)

section \<open>The interface the engine runs on\<close>

text \<open>
  A state predicate that the statements of the benefit handlers keep (\<open>payout_invariant\<close>), one
  that the statements of the whole grant path keep (\<open>store_invariant\<close>), one that the
  compensators keep (\<open>undo_invariant\<close>), and one that all of them and the remaining statements of
  reversal and of the sweeps keep (\<open>reversal_invariant\<close>). The benefit
  handlers, the dispatcher and the evaluator only reach the database through these statements,
  so what they keep is proved once for every such predicate.
\<close>

locale payout_invariant =
  fixes I :: "reward_db \<Rightarrow> bool"
  assumes I_ensure: "keeps I (ensureCustomerWallet ent cust kind cur)"
    and I_credit: "0 \<le> p_amount p \<Longrightarrow> keeps I (credit p)"
    and I_debit: "keeps I (debitIfSufficient p)"
    and I_record: "keeps I (recordBenefit ent awardId idx kind' pay undo key)"
    and I_issue: "keeps I (issue ent cust awardId item code expires)"
    and I_uuid: "keeps I (randomUUID h)"
    and I_bytes: "keeps I (randomBytes h)"

locale store_invariant = payout_invariant +
  assumes I_create: "keeps I (createIfAbsent k)"
    and I_skip: "status \<noteq> Held \<Longrightarrow> status \<noteq> Granted \<Longrightarrow>
      keeps I (markSkipped ent awardId status reason periodKey)"
    and I_grant: "keeps I (markGranted ent awardId f prov periodKey)"
    and I_claim: "keeps I (claimCapSlot ent prog rule cust periodKey' cap)"
    and I_release: "keeps I (releaseCapSlot ent rule cust periodKey')"
    and I_audit: "keeps I (audit_record ent action entity)"

locale undo_invariant =
  fixes I :: "reward_db \<Rightarrow> bool"
  assumes I_post: "keeps I (postUnchecked p)"
    and I_revoke: "keeps I (revokeIfUnredeemed ent entitlementId)"
    and I_compensated: "keeps I (markBenefitCompensated ent benefitId)"
    and I_draw: "keeps I (randomUUID h)"

locale reversal_invariant = store_invariant I + undo_invariant I for I +
  assumes I_reverse: "keeps I (markReversed ent awardId reason)"
    and I_expire: "keeps I (expireLapsed limit)"

interpretation engine_inv: reversal_invariant engine_ok
  by unfold_locales
    (simp_all add: keeps_engine_ensure keeps_engine_post credit_def postUnchecked_def
      keeps_engine_debit keeps_engine_create keeps_engine_markSkipped keeps_engine_markGranted
      keeps_engine_claim keeps_engine_release keeps_engine_recordBenefit keeps_engine_issue
      keeps_engine_frames keeps_engine_markReversed keeps_engine_revoke
      keeps_engine_markBenefitCompensated keeps_engine_expire)

subsection \<open>Which tables a statement leaves alone\<close>

definition same_books :: "reward_db \<Rightarrow> reward_db \<Rightarrow> bool" where
  "same_books s s' \<longleftrightarrow> wallets s' = wallets s \<and> ledger s' = ledger s"

definition same_awards :: "reward_db \<Rightarrow> reward_db \<Rightarrow> bool" where
  "same_awards s s' \<longleftrightarrow> awards s' = awards s"

lemmas statement_defs =
  createIfAbsent_def markSkipped_def markGranted_def claimCapSlot_def releaseCapSlot_def
  recordBenefit_def issue_def audit_record_def randomUUID_def randomBytes_def markReversed_def
  revokeIfUnredeemed_def markBenefitCompensated_def expireLapsed_def update_award_def
  modifies_def throw_def Let_def

lemma record_statements_same_books:
  "steps same_books (createIfAbsent k)"
  "steps same_books (markSkipped ent awardId status reason periodKey)"
  "steps same_books (markGranted ent awardId f prov periodKey)"
  "steps same_books (claimCapSlot ent prog rule cust periodKey' cap)"
  "steps same_books (releaseCapSlot ent rule cust periodKey')"
  "steps same_books (recordBenefit ent awardId idx kind' pay undo key)"
  "steps same_books (issue ent cust awardId item code expires)"
  "steps same_books (audit_record ent action entity)"
  "steps same_books (randomUUID h)"
  "steps same_books (randomBytes h)"
  "steps same_books (markReversed ent awardId reason)"
  "steps same_books (revokeIfUnredeemed ent entitlementId)"
  "steps same_books (markBenefitCompensated ent benefitId)"
  "steps same_books (expireLapsed limit)"
  by (auto simp: steps_def same_books_def statement_defs split: if_splits option.splits)

lemma other_statements_same_awards:
  "steps same_awards (ensureCustomerWallet ent cust kind cur)"
  "steps same_awards (post p isEarn)"
  "steps same_awards (debitIfSufficient p)"
  "steps same_awards (claimCapSlot ent prog rule cust periodKey' cap)"
  "steps same_awards (releaseCapSlot ent rule cust periodKey')"
  "steps same_awards (recordBenefit ent awardId idx kind' pay undo key)"
  "steps same_awards (issue ent cust awardId item code expires)"
  "steps same_awards (audit_record ent action entity)"
  "steps same_awards (randomUUID h)"
  "steps same_awards (randomBytes h)"
  "steps same_awards (revokeIfUnredeemed ent entitlementId)"
  "steps same_awards (markBenefitCompensated ent benefitId)"
  "steps same_awards (expireLapsed limit)"
  by (auto simp: steps_def same_awards_def statement_defs ensure_Inr post_Inr debit_Inr
      move_and_write_Inr split: if_splits option.splits)

lemma keeps_from_steps:
  "steps R m \<Longrightarrow> (\<And>s s'. R s s' \<Longrightarrow> I s \<Longrightarrow> I s') \<Longrightarrow> keeps I m"
  unfolding steps_def triple_def by blast

subsection \<open>Nothing is taken back from the ledger\<close>

lemma keeps_prefix:
  "steps same_books m \<Longrightarrow> keeps (\<lambda>s. prefix es (ledger s)) m"
  "steps (\<lambda>s s'. prefix (ledger s) (ledger s')) m' \<Longrightarrow> keeps (\<lambda>s. prefix es (ledger s)) m'"
  by (auto elim!: keeps_from_steps simp: same_books_def intro: prefix_order.order_trans)

interpretation ledger_inv: reversal_invariant "\<lambda>s. prefix es (ledger s)"
  by unfold_locales
    (simp_all add: keeps_prefix(2) [OF grows_ensure] keeps_prefix(2) [OF grows_credit]
      keeps_prefix(2) [OF grows_debit] keeps_prefix(2) [OF grows_postUnchecked]
      record_statements_same_books [THEN keeps_prefix(1)])

subsection \<open>An award stays\<close>

lemma list_ex_update_where:
  "(\<And>x. Q (f x) = Q x) \<Longrightarrow> list_ex Q (update_where P f xs) = list_ex Q xs"
  unfolding update_where_def by (induction xs) auto

lemma award_exists_update:
  assumes "\<And>a. a_deleted (f a) = a_deleted a" "\<And>a. source_key (f a) = source_key a"
  shows "award_exists (update_award ent awardId f db) key = award_exists db key"
  using assms by (simp add: award_exists_def update_award_def list_ex_update_where)

lemma award_exists_create: "keeps (\<lambda>s. award_exists s key) (createIfAbsent k)"
  by (rule tripleI) (auto simp: createIfAbsent_def award_exists_def Let_def split: if_splits)

lemma award_exists_marks:
  "keeps (\<lambda>s. award_exists s key) (markSkipped ent awardId status reason periodKey)"
  "keeps (\<lambda>s. award_exists s key) (markGranted ent awardId f prov periodKey)"
  "keeps (\<lambda>s. award_exists s key) (markReversed ent awardId reason)"
  unfolding markSkipped_def markGranted_def markReversed_def
  by (auto intro!: keeps_modifies keeps_if triple_throw simp: award_exists_update source_key_def)

lemma keeps_award_exists: "steps same_awards m \<Longrightarrow> keeps (\<lambda>s. award_exists s key) m"
  by (erule keeps_from_steps) (simp add: same_awards_def award_exists_def)

interpretation award_inv: reversal_invariant "\<lambda>s. award_exists s key"
  by unfold_locales
    (simp_all add: credit_def postUnchecked_def award_exists_create award_exists_marks
      other_statements_same_awards [THEN keeps_award_exists])

subsection \<open>The grant path never overdraws a wallet\<close>

definition no_overdraft :: "reward_db \<Rightarrow> bool" where
  "no_overdraft db \<longleftrightarrow> distinct (map w_id (wallets db)) \<and> (\<forall>w\<in>set (wallets db). 0 \<le> w_balance w)"

lemma no_overdraft_move:
  assumes ok: "no_overdraft db" and w: "wallet_by_id db (p_enterprise p) (p_wallet p) = Some w"
    and enough: "0 \<le> w_balance w + p_amount p" and run: "move_and_write p l w db = Inr (e, db')"
  shows "no_overdraft db'"
proof -
  have "0 \<le> w_balance v'" if v': "v' \<in> set (moved p l (wallets db))" for v'
    using v'
  proof (rule moved_row)
    fix v
    assume v: "v \<in> set (wallets db)"
      and v'_eq: "v' = (if w_id v = p_wallet p \<and> w_enterprise v = p_enterprise p \<and> \<not> w_deleted v
        then v\<lparr>w_balance := w_balance v + p_amount p, w_lifetime := w_lifetime v + l,
                w_version := w_version v + 1\<rparr> else v)"
    show "0 \<le> w_balance v'"
    proof (cases "w_id v = p_wallet p")
      case True
      then have "v = w"
        using distinct_map_eq [of w_id, OF _ v] wallet_by_idD [OF w] ok by (auto simp: no_overdraft_def)
      with v'_eq enough v ok show ?thesis by (simp add: no_overdraft_def)
    next
      case False
      with v'_eq v ok show ?thesis by (simp add: no_overdraft_def)
    qed
  qed
  with run ok show ?thesis by (auto simp: no_overdraft_def move_and_write_Inr map_moved)
qed

lemma no_overdraft_credit: "0 \<le> p_amount p \<Longrightarrow> keeps no_overdraft (credit p)"
proof (rule tripleI)
  fix db e db'
  assume "0 \<le> p_amount p" and ok: "no_overdraft db" and run: "credit p db = Inr (e, db')"
  moreover have "0 \<le> w_balance w" if "wallet_by_id db (p_enterprise p) (p_wallet p) = Some w" for w
    using wallet_by_idD(1) [OF that] ok by (simp add: no_overdraft_def)
  ultimately show "no_overdraft db'"
    unfolding credit_def post_Inr by (auto intro: no_overdraft_move)
qed

lemma no_overdraft_debit: "keeps no_overdraft (debitIfSufficient p)"
  by (rule tripleI) (auto simp: debit_Inr split: if_splits intro: no_overdraft_move)

lemma no_overdraft_ensure: "keeps no_overdraft (ensureCustomerWallet ent cust kind cur)"
  by (rule tripleI) (auto simp: ensure_Inr no_overdraft_def)

lemma keeps_no_overdraft: "steps same_books m \<Longrightarrow> keeps no_overdraft m"
  by (erule keeps_from_steps) (simp add: same_books_def no_overdraft_def)

interpretation overdraft_inv: store_invariant no_overdraft
  by unfold_locales
    (simp_all add: no_overdraft_ensure no_overdraft_credit no_overdraft_debit
      record_statements_same_books [THEN keeps_no_overdraft])

end
