(* ===== verification/Reward_Contract.thy ===== *)
theory Reward_Contract
  imports Reward_Types
begin

text \<open>
  The read-time schemas of \<open>shared/contracts/rewards/reward.contract.ts\<close>: a stored JSONB config
  either parses to a typed value or is refused. \<open>strictObject\<close> refuses an unknown key, and
  \<open>z.number().int()\<close> accepts the integers a double represents exactly.
\<close>

definition MAX_SAFE_INTEGER :: int where
  "MAX_SAFE_INTEGER = 9007199254740991"

definition strict_keys :: "string list \<Rightarrow> config \<Rightarrow> bool" where
  "strict_keys ks c \<longleftrightarrow> list_all (\<lambda>(k, _). k \<in> set ks) c"

definition int_field :: "json option \<Rightarrow> int option" where
  "int_field j = (case j of Some (JNum n) \<Rightarrow> if \<bar>n\<bar> \<le> MAX_SAFE_INTEGER then Some n else None | _ \<Rightarrow> None)"

definition positive_field :: "json option \<Rightarrow> int option" where
  "positive_field j = (case int_field j of Some n \<Rightarrow> if 0 < n then Some n else None | None \<Rightarrow> None)"

definition bounded_field :: "int \<Rightarrow> int \<Rightarrow> json \<Rightarrow> int option" where
  "bounded_field lo hi j = (case int_field (Some j) of
     Some n \<Rightarrow> if lo \<le> n \<and> n \<le> hi then Some n else None | None \<Rightarrow> None)"

text \<open>An array whose members all parse, with a bound on its length.\<close>

primrec all_parse :: "(json \<Rightarrow> 'a option) \<Rightarrow> json list \<Rightarrow> 'a list option" where
  "all_parse f [] = Some []"
| "all_parse f (j # js) =
     (case f j of None \<Rightarrow> None | Some x \<Rightarrow> map_option ((#) x) (all_parse f js))"

definition array_field :: "(json \<Rightarrow> 'a option) \<Rightarrow> nat \<Rightarrow> nat \<Rightarrow> json option \<Rightarrow> 'a list option" where
  "array_field f lo hi j = (case j of
     Some (JArr js) \<Rightarrow> if lo \<le> length js \<and> length js \<le> hi then all_parse f js else None
   | _ \<Rightarrow> None)"

text \<open>\<open>z.string().trim().min(lo).max(hi)\<close>: the trimmed text is the value.\<close>

definition trimmed_field :: "host \<Rightarrow> nat \<Rightarrow> nat \<Rightarrow> json option \<Rightarrow> string option" where
  "trimmed_field h lo hi j = (case j of
     Some (JStr s) \<Rightarrow> let t = trim h s in if lo \<le> length t \<and> length t \<le> hi then Some t else None
   | _ \<Rightarrow> None)"

text \<open>\<open>CurrencyCodeSchema.optional()\<close>: \<open>None\<close> is a refusal, \<open>Some None\<close> an absent field.\<close>

definition CurrencyCodeSchema :: "host \<Rightarrow> json \<Rightarrow> string option" where
  "CurrencyCodeSchema h j = (case j of
     JStr s \<Rightarrow> let c = upper h (trim h s) in if currencies h c then Some c else None | _ \<Rightarrow> None)"

definition optional_currency :: "host \<Rightarrow> json option \<Rightarrow> string option option" where
  "optional_currency h j = (case j of None \<Rightarrow> Some None | Some v \<Rightarrow> map_option Some (CurrencyCodeSchema h v))"

section \<open>Benefits\<close>

datatype reward_benefit =
    BGrantPoints int
  | BGrantCurrency int "string option"
  | BIssueEntitlement string "int option"
  | BConvertValue int int "string option"

fun kind_of_benefit :: "reward_benefit \<Rightarrow> RewardBenefitKind" where
  "kind_of_benefit (BGrantPoints _) = GrantPoints"
| "kind_of_benefit (BGrantCurrency _ _) = GrantCurrency"
| "kind_of_benefit (BIssueEntitlement _ _) = IssueEntitlement"
| "kind_of_benefit (BConvertValue _ _ _) = ConvertValue"

definition GrantPointsConfigSchema :: "config \<Rightarrow> reward_benefit option" where
  "GrantPointsConfigSchema c =
     (if strict_keys [''points''] c
      then map_option BGrantPoints (positive_field (map_of c ''points'')) else None)"

definition GrantCurrencyConfigSchema :: "host \<Rightarrow> config \<Rightarrow> reward_benefit option" where
  "GrantCurrencyConfigSchema h c =
     (if strict_keys [''minorUnits'', ''currencyCode''] c
      then (case (positive_field (map_of c ''minorUnits''), optional_currency h (map_of c ''currencyCode'')) of
              (Some n, Some cur) \<Rightarrow> Some (BGrantCurrency n cur)
            | _ \<Rightarrow> None)
      else None)"

text \<open>\<open>validForDays\<close> is nullable with default \<open>null\<close>: \<open>Some None\<close> is no expiry.\<close>

definition valid_for_days :: "json option \<Rightarrow> int option option" where
  "valid_for_days j = (case j of
     None \<Rightarrow> Some None
   | Some JNull \<Rightarrow> Some None
   | Some v \<Rightarrow> map_option Some (bounded_field 1 3650 v))"

definition IssueEntitlementConfigSchema :: "host \<Rightarrow> config \<Rightarrow> reward_benefit option" where
  "IssueEntitlementConfigSchema h c =
     (if strict_keys [''itemRef'', ''validForDays''] c
      then (case (trimmed_field h 1 64 (map_of c ''itemRef''), valid_for_days (map_of c ''validForDays'')) of
              (Some item, Some days) \<Rightarrow> Some (BIssueEntitlement item days)
            | _ \<Rightarrow> None)
      else None)"

definition ConvertValueConfigSchema :: "host \<Rightarrow> config \<Rightarrow> reward_benefit option" where
  "ConvertValueConfigSchema h c =
     (if strict_keys [''burnPoints'', ''grantMinor'', ''currencyCode''] c
      then (case (positive_field (map_of c ''burnPoints''), positive_field (map_of c ''grantMinor''),
                  optional_currency h (map_of c ''currencyCode'')) of
              (Some b, Some g, Some cur) \<Rightarrow> Some (BConvertValue b g cur)
            | _ \<Rightarrow> None)
      else None)"

definition RewardBenefitConfigSchema :: "host \<Rightarrow> string \<Rightarrow> config \<Rightarrow> reward_benefit option" where
  "RewardBenefitConfigSchema h kind c =
     (case benefit_kind_of kind of
        None \<Rightarrow> None
      | Some GrantPoints \<Rightarrow> GrantPointsConfigSchema c
      | Some GrantCurrency \<Rightarrow> GrantCurrencyConfigSchema h c
      | Some IssueEntitlement \<Rightarrow> IssueEntitlementConfigSchema h c
      | Some ConvertValue \<Rightarrow> ConvertValueConfigSchema h c)"

section \<open>Conditions\<close>

text \<open>\<open>/^([01]\d|2[0-3]):[0-5]\d$/\<close>.\<close>

definition is_digit_upto :: "nat \<Rightarrow> char \<Rightarrow> bool" where
  "is_digit_upto d c \<longleftrightarrow> 48 \<le> (of_char c :: nat) \<and> of_char c \<le> 48 + d"

fun WallClockSchema :: "string \<Rightarrow> bool" where
  "WallClockSchema [a, b, c, d, e] \<longleftrightarrow>
     (is_digit_upto 1 a \<and> is_digit_upto 9 b \<or> a = CHR ''2'' \<and> is_digit_upto 3 b)
     \<and> c = CHR '':'' \<and> is_digit_upto 5 d \<and> is_digit_upto 9 e"
| "WallClockSchema _ \<longleftrightarrow> False"

record time_slot =
  slot_days :: "int list"
  slot_start :: string
  slot_end :: string

datatype reward_condition =
    CTimeWindow "time_slot list"
  | CCustomerTenure int
  | CContentMatch "string list"

definition wall_clock_field :: "json option \<Rightarrow> string option" where
  "wall_clock_field j = (case j of Some (JStr s) \<Rightarrow> if WallClockSchema s then Some s else None | _ \<Rightarrow> None)"

definition TimeSlotSchema :: "json \<Rightarrow> time_slot option" where
  "TimeSlotSchema j = (case j of
     JObj c \<Rightarrow>
       if strict_keys [''days'', ''start'', ''end''] c
       then (case (array_field (bounded_field 1 7) 1 7 (map_of c ''days''),
                   wall_clock_field (map_of c ''start''), wall_clock_field (map_of c ''end'')) of
               (Some ds, Some s, Some e) \<Rightarrow> Some \<lparr>slot_days = ds, slot_start = s, slot_end = e\<rparr>
             | _ \<Rightarrow> None)
       else None
   | _ \<Rightarrow> None)"

definition TimeWindowConfigSchema :: "config \<Rightarrow> reward_condition option" where
  "TimeWindowConfigSchema c =
     (if strict_keys [''slots''] c
      then map_option CTimeWindow (array_field TimeSlotSchema 1 32 (map_of c ''slots'')) else None)"

definition CustomerTenureConfigSchema :: "config \<Rightarrow> reward_condition option" where
  "CustomerTenureConfigSchema c =
     (if strict_keys [''minDaysSinceFirstEngagement''] c
      then map_option CCustomerTenure
             (Option.bind (map_of c ''minDaysSinceFirstEngagement'') (bounded_field 1 3650))
      else None)"

definition ContentMatchConfigSchema :: "host \<Rightarrow> config \<Rightarrow> reward_condition option" where
  "ContentMatchConfigSchema h c =
     (if strict_keys [''anyOfKeywords''] c
      then map_option CContentMatch
             (array_field (\<lambda>j. trimmed_field h 1 60 (Some j)) 1 32 (map_of c ''anyOfKeywords''))
      else None)"

definition RewardConditionConfigSchema :: "host \<Rightarrow> string \<Rightarrow> config \<Rightarrow> reward_condition option" where
  "RewardConditionConfigSchema h kind c =
     (case condition_kind_of kind of
        None \<Rightarrow> None
      | Some TimeWindow \<Rightarrow> TimeWindowConfigSchema c
      | Some CustomerTenure \<Rightarrow> CustomerTenureConfigSchema c
      | Some ContentMatch \<Rightarrow> ContentMatchConfigSchema h c)"

section \<open>Trigger configs\<close>

record trigger_config =
  tc_channelIds :: "int list option"
  tc_minPointsBalance :: "int option"

definition RewardTriggerConfigSchema :: "config \<Rightarrow> trigger_config option" where
  "RewardTriggerConfigSchema c =
     (if strict_keys [''channelIds'', ''minPointsBalance''] c
      then (case ((case map_of c ''channelIds'' of None \<Rightarrow> Some None
                   | Some j \<Rightarrow> map_option Some (array_field (\<lambda>x. positive_field (Some x)) 1 50 (Some j))),
                  (case map_of c ''minPointsBalance'' of None \<Rightarrow> Some None
                   | Some j \<Rightarrow> map_option Some (bounded_field 1 10000000 j))) of
              (Some ch, Some mn) \<Rightarrow> Some \<lparr>tc_channelIds = ch, tc_minPointsBalance = mn\<rparr>
            | _ \<Rightarrow> None)
      else None)"

section \<open>What a parsed value satisfies\<close>

fun benefit_positive :: "reward_benefit \<Rightarrow> bool" where
  "benefit_positive (BGrantPoints n) \<longleftrightarrow> 0 < n"
| "benefit_positive (BGrantCurrency n _) \<longleftrightarrow> 0 < n"
| "benefit_positive (BIssueEntitlement _ _) \<longleftrightarrow> True"
| "benefit_positive (BConvertValue b g _) \<longleftrightarrow> 0 < b \<and> 0 < g"

lemma positive_fieldD: "positive_field j = Some n \<Longrightarrow> 0 < n"
  by (auto simp: positive_field_def split: option.splits if_splits)

lemma parsed_benefit_positive: "RewardBenefitConfigSchema h k c = Some b \<Longrightarrow> benefit_positive b"
  unfolding RewardBenefitConfigSchema_def GrantPointsConfigSchema_def GrantCurrencyConfigSchema_def
    IssueEntitlementConfigSchema_def ConvertValueConfigSchema_def
  by (auto split: option.splits RewardBenefitKind.splits if_splits dest!: positive_fieldD)

lemma parsed_benefit_kind:
  "RewardBenefitConfigSchema h k c = Some b \<Longrightarrow> benefit_kind_of k = Some (kind_of_benefit b)"
  unfolding RewardBenefitConfigSchema_def GrantPointsConfigSchema_def GrantCurrencyConfigSchema_def
    IssueEntitlementConfigSchema_def ConvertValueConfigSchema_def
  by (auto split: option.splits RewardBenefitKind.splits if_splits)

end
