(* ===== verification/Calendar.thy ===== *)
theory Calendar
  imports Reward_Types
begin

text \<open>
  Civil dates as the source uses them: the part of the ECMAScript \<open>Date\<close> object that
  \<open>modules/rewards/period-key.util.ts\<close> and \<open>conditions/time-window.condition.ts\<close> call
  (\<open>Date.UTC\<close>, \<open>getUTCDay\<close>, \<open>getUTCFullYear\<close>, \<open>setUTCDate\<close>) and the calendar date and wall clock
  that \<open>Intl.DateTimeFormat\<close> shows for an instant in a zone. Days are counted from 1970-01-01.
  The offset of a zone at an instant comes from the time-zone database and is a field of \<open>host\<close>.

  \<open>Intl\<close> prints years before 1 with an era; the model is that of the years from 1 on, where
  the printed year is the year.
\<close>

section \<open>Days and years\<close>

definition MS_PER_DAY :: int where
  "MS_PER_DAY = 86400000"

definition leap :: "int \<Rightarrow> bool" where
  "leap y \<longleftrightarrow> y mod 4 = 0 \<and> (y mod 100 \<noteq> 0 \<or> y mod 400 = 0)"

text \<open>\<open>DayFromYear\<close> of ECMA-262.\<close>

definition dayFromYear :: "int \<Rightarrow> int" where
  "dayFromYear y = 365 * (y - 1970) + (y - 1969) div 4 - (y - 1901) div 100 + (y - 1601) div 400"

text \<open>\<open>YearFromTime\<close>: the year that contains a day, from an estimate that is off by one at most.\<close>

definition yearFromDay :: "int \<Rightarrow> int" where
  "yearFromDay d =
     (let y = 1970 + 400 * d div 146097
      in if d < dayFromYear y then y - 1 else if dayFromYear (y + 1) \<le> d then y + 1 else y)"

definition month_starts :: "bool \<Rightarrow> int list" where
  "month_starts l = (if l then [0, 31, 60, 91, 121, 152, 182, 213, 244, 274, 305, 335]
                     else [0, 31, 59, 90, 120, 151, 181, 212, 243, 273, 304, 334])"

text \<open>\<open>MakeDay\<close> for a month from 1 to 12.\<close>

definition makeDay :: "int \<Rightarrow> int \<Rightarrow> int \<Rightarrow> int" where
  "makeDay y m d = dayFromYear y + month_starts (leap y) ! nat (m - 1) + d - 1"

definition dayOfMonth :: "int \<Rightarrow> int \<times> int \<times> int" where
  "dayOfMonth n =
     (let y = yearFromDay n; k = n - dayFromYear y;
          starts = month_starts (leap y);
          m = int (length (takeWhile (\<lambda>s. s \<le> k) starts))
      in (y, m, k - starts ! nat (m - 1) + 1))"

text \<open>\<open>getUTCDay() || 7\<close>: Monday is 1 and Sunday is 7; day 0 was a Thursday.\<close>

definition isoDayOfWeek :: "int \<Rightarrow> int" where
  "isoDayOfWeek n = (n + 3) mod 7 + 1"

lemma div_bounds:
  assumes "0 < (k :: int)"
  shows "k * (x div k) \<le> x" "x - k < k * (x div k)"
  using assms pos_mod_sign [of k x] pos_mod_bound [of k x] mult_div_mod_eq [of k x] by linarith+

lemma dayFromYear_bounds:
  "400 * dayFromYear y \<le> 146097 * (y - 1970) + 589" "146097 * (y - 1970) - 506 \<le> 400 * dayFromYear y"
proof -
  note b = div_bounds [of 4 "y - 1969"] div_bounds [of 100 "y - 1901"] div_bounds [of 400 "y - 1601"]
  show "400 * dayFromYear y \<le> 146097 * (y - 1970) + 589"
    using b unfolding dayFromYear_def by simp
  show "146097 * (y - 1970) - 506 \<le> 400 * dayFromYear y"
    using b unfolding dayFromYear_def by simp
qed

lemma div_succ:
  assumes "0 < (k :: int)"
  shows "(x + 1) div k = x div k + (if (x + 1) mod k = 0 then 1 else 0)"
proof -
  have x: "x = k * (x div k) + x mod k" by simp
  have r: "0 \<le> x mod k" "x mod k < k" using assms by simp_all
  show ?thesis
  proof (cases "x mod k + 1 = k")
    case True
    then have "x + 1 = k * (x div k + 1)" using x unfolding distrib_left by linarith
    then have "(x + 1) div k = x div k + 1" and "(x + 1) mod k = 0"
      using assms by simp_all
    then show ?thesis by simp
  next
    case False
    with r have s: "0 \<le> x mod k + 1" "x mod k + 1 < k" by linarith+
    have "x + 1 = k * (x div k) + (x mod k + 1)" using x by linarith
    from int_div_pos_eq [OF this s] int_mod_pos_eq [OF this s]
    have "(x + 1) div k = x div k" and "(x + 1) mod k = x mod k + 1" .
    then show ?thesis using r by simp
  qed
qed

lemma mod_shift: "(y - c * k) mod k = y mod (k :: int)"
  using mod_mult_self1 [of y "- c" k] by simp

lemma leap_count:
  assumes "R \<Longrightarrow> Q" and "Q \<Longrightarrow> P"
  shows "(x :: int) + 365 + (if P then 1 else 0) - (if Q then 1 else 0) + (if R then 1 else 0)
    = x + (if P \<and> (\<not> Q \<or> R) then 366 else 365)"
  using assms by (cases P; cases Q; cases R) simp_all

lemma dayFromYear_Suc: "dayFromYear (y + 1) = dayFromYear y + (if leap y then 366 else 365)"
proof -
  have a: "(y - 1968) div 4 = (y - 1969) div 4 + (if y mod 4 = 0 then 1 else 0)"
    using div_succ [of 4 "y - 1969"] mod_shift [of y 492 4] by simp
  have b: "(y - 1900) div 100 = (y - 1901) div 100 + (if y mod 100 = 0 then 1 else 0)"
    using div_succ [of 100 "y - 1901"] mod_shift [of y 19 100] by simp
  have c: "(y - 1600) div 400 = (y - 1601) div 400 + (if y mod 400 = 0 then 1 else 0)"
    using div_succ [of 400 "y - 1601"] mod_shift [of y 4 400] by simp
  have d: "y mod 400 = 0 \<Longrightarrow> y mod 100 = 0" "y mod 100 = 0 \<Longrightarrow> y mod 4 = 0"
    using mod_mod_cancel [of 100 400 y] mod_mod_cancel [of 4 100 y] by auto
  have "dayFromYear (y + 1) =
      365 * (y - 1969) + (y - 1968) div 4 - (y - 1900) div 100 + (y - 1600) div 400"
    by (simp add: dayFromYear_def)
  also have "\<dots> = dayFromYear y + 365 + (if y mod 4 = 0 then 1 else 0)
      - (if y mod 100 = 0 then 1 else 0) + (if y mod 400 = 0 then 1 else 0)"
    unfolding a b c dayFromYear_def by simp
  also have "\<dots> = dayFromYear y + (if leap y then 366 else 365)"
    unfolding leap_def using d by (rule leap_count)
  finally show ?thesis .
qed

text \<open>\<open>yearFromDay\<close> is the year whose days include the given one.\<close>

lemma yearFromDay_bounds:
  "dayFromYear (yearFromDay d) \<le> d" "d < dayFromYear (yearFromDay d + 1)"
proof -
  define y where "y = 1970 + 400 * d div 146097"
  have est: "146097 * (y - 1970) \<le> 400 * d" "400 * d < 146097 * (y - 1970) + 146097"
    using div_bounds [of 146097 "400 * d"] unfolding y_def by simp_all
  have lo: "dayFromYear (y - 1) \<le> d"
    using dayFromYear_bounds(1) [of "y - 1"] est by simp
  have hi: "d < dayFromYear (y + 2)"
    using dayFromYear_bounds(2) [of "y + 2"] est by simp
  show "dayFromYear (yearFromDay d) \<le> d" and "d < dayFromYear (yearFromDay d + 1)"
    using lo hi unfolding yearFromDay_def y_def [symmetric] Let_def
    by (auto simp: add.assoc)
qed

lemma dayFromYear_mono: "y < y' \<Longrightarrow> dayFromYear (y + 1) \<le> dayFromYear y'"
proof -
  assume "y < y'"
  then show ?thesis
    using \<open>y < y'\<close>
  proof (induction "nat (y' - y)" arbitrary: y')
    case (Suc k)
    show ?case
    proof (cases "y' = y + 1")
      case False
      with Suc have "dayFromYear (y + 1) \<le> dayFromYear (y' - 1)" by simp
      then show ?thesis using dayFromYear_Suc [of "y' - 1"] by (auto split: if_splits)
    qed simp
  qed simp
qed

lemma yearFromDay_unique:
  assumes "dayFromYear y \<le> d" and "d < dayFromYear (y + 1)"
  shows "yearFromDay d = y"
  using yearFromDay_bounds [of d] assms dayFromYear_mono [of y "yearFromDay d"]
    dayFromYear_mono [of "yearFromDay d" y] by force

section \<open>Months\<close>

lemma month_starts_length [simp]: "length (month_starts l) = 12"
  by (simp add: month_starts_def)

lemma takeWhile_month:
  assumes "0 \<le> k" and "k < (if l then 366 else 365)"
    and m: "m = length (takeWhile (\<lambda>s. s \<le> k) (month_starts l))"
  shows "1 \<le> m" "m \<le> 12" "month_starts l ! (m - 1) \<le> k" "k \<le> month_starts l ! (m - 1) + 30"
  using assms(1,2) unfolding m month_starts_def by (auto split: if_splits)

text \<open>The calendar date of a day is in range, and \<open>MakeDay\<close> gives the day back.\<close>

lemma dayOfMonth_range:
  assumes "dayOfMonth n = (y, m, d)"
  shows "y = yearFromDay n" "1 \<le> m" "m \<le> 12" "1 \<le> d" "d \<le> 31" "makeDay y m d = n"
proof -
  let ?y = "yearFromDay n"
  let ?k = "n - dayFromYear ?y"
  let ?m = "length (takeWhile (\<lambda>s. s \<le> ?k) (month_starts (leap ?y)))"
  have k: "0 \<le> ?k" "?k < (if leap ?y then 366 else 365)"
    using yearFromDay_bounds [of n] unfolding dayFromYear_Suc by auto
  have dm: "y = ?y" "m = int ?m" "d = ?k - month_starts (leap ?y) ! nat (m - 1) + 1"
    using assms by (auto simp: dayOfMonth_def Let_def)
  have idx: "nat (m - 1) = ?m - 1" using dm(2) by simp
  note t = takeWhile_month [OF k refl]
  show "y = yearFromDay n" by (rule dm(1))
  show "1 \<le> m" "m \<le> 12" using t(1,2) dm(2) by simp_all
  show "1 \<le> d" "d \<le> 31" using t(3,4) unfolding dm(3) idx by simp_all
  show "makeDay y m d = n" unfolding makeDay_def dm(1) dm(3) by simp
qed

section \<open>Wall clocks in a zone\<close>

definition local_ms :: "host \<Rightarrow> string \<Rightarrow> int \<Rightarrow> int" where
  "local_ms h zone at = at + tz_offset h zone at"

text \<open>The local day of an instant, and the minutes of the wall clock since local midnight.\<close>

definition local_day :: "host \<Rightarrow> string \<Rightarrow> int \<Rightarrow> int" where
  "local_day h zone at = local_ms h zone at div MS_PER_DAY"

definition local_minutes :: "host \<Rightarrow> string \<Rightarrow> int \<Rightarrow> int" where
  "local_minutes h zone at = local_ms h zone at mod MS_PER_DAY div 60000"

text \<open>\<open>localYmd\<close> of \<open>period-key.util.ts\<close> and \<open>localParts\<close> of \<open>time-window.condition.ts\<close>.\<close>

definition localYmd :: "host \<Rightarrow> int \<Rightarrow> string \<Rightarrow> int \<times> int \<times> int" where
  "localYmd h at zone = dayOfMonth (local_day h zone at)"

definition localParts :: "host \<Rightarrow> int \<Rightarrow> string \<Rightarrow> int \<times> int" where
  "localParts h at zone = (isoDayOfWeek (local_day h zone at), local_minutes h zone at)"

lemma local_minutes_range: "0 \<le> local_minutes h zone at" "local_minutes h zone at < 1440"
proof -
  have "0 \<le> local_ms h zone at mod MS_PER_DAY" "local_ms h zone at mod MS_PER_DAY < 86400000"
    by (simp_all add: MS_PER_DAY_def)
  then show "0 \<le> local_minutes h zone at" "local_minutes h zone at < 1440"
    unfolding local_minutes_def by linarith+
qed

lemma isoDayOfWeek_range: "1 \<le> isoDayOfWeek n" "isoDayOfWeek n \<le> 7"
  unfolding isoDayOfWeek_def by presburger+

end
