(* ===== verification/Reward_Benefits.thy ===== *)
theory Reward_Benefits
  imports Reward_Awards Reward_Contract Calendar
begin

text \<open>
  What an award gives and how it is taken back: \<open>modules/rewards/benefits/*.ts\<close> and
  \<open>modules/rewards/benefit-dispatcher.service.ts\<close>. The four handlers share one contract, the
  locale \<open>benefit_handler\<close>: applying keeps every predicate of the store interface, and
  compensating moves each wallet by exactly the opposite of what applying moved it by.
\<close>

section \<open>Handlers\<close>

record benefit_context =
  bc_enterprise :: int
  bc_customer :: int
  bc_award :: int
  bc_rule :: int
  bc_rule_version :: int
  bc_occurred :: int
  bc_key :: string
  bc_default_currency :: "string option"

type_synonym applied = "payload \<times> compensation"

text \<open>A posting that names its award and rule, with every optional field absent.\<close>

definition posting :: "benefit_context \<Rightarrow> int \<Rightarrow> RewardEntryKind \<Rightarrow> int \<Rightarrow> string \<Rightarrow> post_input" where
  "posting ctx wid kind amount key =
     \<lparr>p_enterprise = bc_enterprise ctx, p_wallet = wid, p_kind = kind, p_amount = amount,
      p_key = key, p_occurred = bc_occurred ctx, p_award = Some (bc_award ctx),
      p_rule = Some (bc_rule ctx), p_rule_version = Some (bc_rule_version ctx), p_group = None,
      p_reverses = None, p_actor_kind = None, p_actor = None, p_reason = None\<rparr>"

subsection \<open>Points\<close>

definition GrantPointsBenefit_apply :: "int \<Rightarrow> benefit_context \<Rightarrow> applied reward_act" where
  "GrantPointsBenefit_apply points ctx =
     bnd (ensureCustomerWallet (bc_enterprise ctx) (bc_customer ctx) Points None) (\<lambda>wallet.
     bnd (credit (posting ctx (w_id wallet) Earn points (bc_key ctx))) (\<lambda>entry.
     ret (PaidPoints points, UndoPoints (e_id entry) (w_id wallet) points)))"

definition reversing :: "benefit_context \<Rightarrow> int \<Rightarrow> int \<Rightarrow> int \<Rightarrow> post_input" where
  "reversing ctx wid amount entryId =
     (posting ctx wid Reversal amount (bc_key ctx @ '':reversal''))
       \<lparr>p_rule_version := None, p_reverses := Some entryId, p_reason := Some ''benefit_compensated''\<rparr>"

fun GrantPointsBenefit_compensate :: "compensation \<Rightarrow> benefit_context \<Rightarrow> unit reward_act" where
  "GrantPointsBenefit_compensate (UndoPoints entryId wid points) ctx =
     andThen (postUnchecked (reversing ctx wid (- points) entryId)) (ret ())"
| "GrantPointsBenefit_compensate _ ctx = throw CorruptCompensation"

subsection \<open>Currency\<close>

text \<open>\<open>!currencyCode\<close> is true of an absent and of an empty code.\<close>

definition absent :: "string option \<Rightarrow> bool" where
  "absent cur \<longleftrightarrow> (case cur of None \<Rightarrow> True | Some c \<Rightarrow> c = '''')"

definition GrantCurrencyBenefit_apply ::
    "int \<Rightarrow> string option \<Rightarrow> benefit_context \<Rightarrow> applied reward_act" where
  "GrantCurrencyBenefit_apply minorUnits currencyCode ctx =
     (if absent currencyCode then throw EnterpriseCurrencyNotSet
      else
        bnd (ensureCustomerWallet (bc_enterprise ctx) (bc_customer ctx) Currency currencyCode) (\<lambda>wallet.
        bnd (credit (posting ctx (w_id wallet) Earn minorUnits (bc_key ctx))) (\<lambda>entry.
        ret (PaidCurrency minorUnits currencyCode,
             UndoCurrency (e_id entry) (w_id wallet) minorUnits))))"

fun GrantCurrencyBenefit_compensate :: "compensation \<Rightarrow> benefit_context \<Rightarrow> unit reward_act" where
  "GrantCurrencyBenefit_compensate (UndoCurrency entryId wid minorUnits) ctx =
     andThen (postUnchecked (reversing ctx wid (- minorUnits) entryId)) (ret ())"
| "GrantCurrencyBenefit_compensate _ ctx = throw CorruptCompensation"

subsection \<open>Entitlements\<close>

definition CODE_ALPHABET :: string where
  "CODE_ALPHABET = ''ABCDEFGHJKLMNPQRSTUVWXYZ23456789''"

definition generateRedemptionCode :: "host \<Rightarrow> string reward_act" where
  "generateRedemptionCode h =
     bnd (randomBytes h) (\<lambda>bs. ret (map (\<lambda>b. CODE_ALPHABET ! (b mod length CODE_ALPHABET)) bs))"

text \<open>The public handle of the entitlement in the payload is its row id here.\<close>

definition IssueEntitlementBenefit_apply ::
    "host \<Rightarrow> string \<Rightarrow> int option \<Rightarrow> benefit_context \<Rightarrow> applied reward_act" where
  "IssueEntitlementBenefit_apply h itemRef validForDays ctx =
     (let expiresAt = map_option (\<lambda>d. bc_occurred ctx + d * MS_PER_DAY) validForDays
      in bnd (generateRedemptionCode h) (\<lambda>code.
         bnd (issue (bc_enterprise ctx) (bc_customer ctx) (bc_award ctx) itemRef code expiresAt) (\<lambda>issued.
         ret (PaidEntitlement itemRef (n_id issued), UndoEntitlement (n_id issued)))))"

fun IssueEntitlementBenefit_compensate :: "compensation \<Rightarrow> benefit_context \<Rightarrow> unit reward_act" where
  "IssueEntitlementBenefit_compensate (UndoEntitlement entitlementId) ctx =
     andThen (revokeIfUnredeemed (bc_enterprise ctx) entitlementId) (ret ())"
| "IssueEntitlementBenefit_compensate _ ctx = throw CorruptCompensation"

subsection \<open>Conversions\<close>

definition MAX_CONVERSIONS_PER_APPLY :: int where
  "MAX_CONVERSIONS_PER_APPLY = 100"

definition conversions :: "int \<Rightarrow> int \<Rightarrow> int" where
  "conversions bal burnPoints = min (bal div burnPoints) MAX_CONVERSIONS_PER_APPLY"

definition ConvertValueBenefit_apply ::
    "host \<Rightarrow> int \<Rightarrow> int \<Rightarrow> string option \<Rightarrow> benefit_context \<Rightarrow> applied reward_act" where
  "ConvertValueBenefit_apply h burnPoints grantMinor currencyCode ctx =
     (if absent currencyCode then throw EnterpriseCurrencyNotSet
      else
        bnd (ensureCustomerWallet (bc_enterprise ctx) (bc_customer ctx) Points None) (\<lambda>pointsWallet.
        let times = conversions (w_balance pointsWallet) burnPoints
        in if times < 1 then throw (InsufficientPoints burnPoints (w_balance pointsWallet))
        else
          bnd (randomUUID h) (\<lambda>groupRef.
          let totalBurn = times * burnPoints; totalGrant = times * grantMinor
          in bnd (debitIfSufficient ((posting ctx (w_id pointsWallet) ConvertOut (- totalBurn)
                    (bc_key ctx @ '':out''))\<lparr>p_group := Some groupRef\<rparr>)) (\<lambda>burned.
             case burned of
               None \<Rightarrow> throw (InsufficientPoints totalBurn (w_balance pointsWallet))
             | Some out \<Rightarrow>
                 bnd (ensureCustomerWallet (bc_enterprise ctx) (bc_customer ctx) Currency currencyCode)
                   (\<lambda>currencyWallet.
                 bnd (credit ((posting ctx (w_id currencyWallet) ConvertIn totalGrant
                        (bc_key ctx @ '':in''))\<lparr>p_group := Some groupRef\<rparr>)) (\<lambda>granted.
                 ret (PaidConversion times totalBurn totalGrant (coalesced currencyCode),
                      UndoConversion groupRef (w_id pointsWallet) (w_id currencyWallet)
                        totalBurn totalGrant (e_id out) (e_id granted))))))))"

definition conversion_reversing ::
    "benefit_context \<Rightarrow> int \<Rightarrow> int \<Rightarrow> string \<Rightarrow> string \<Rightarrow> int \<Rightarrow> post_input" where
  "conversion_reversing ctx wid amount leg groupRef entryId =
     (posting ctx wid Reversal amount (bc_key ctx @ leg))
       \<lparr>p_rule := None, p_rule_version := None, p_group := Some groupRef,
        p_reverses := Some entryId, p_reason := Some ''conversion_reversed''\<rparr>"

fun ConvertValueBenefit_compensate ::
    "host \<Rightarrow> compensation \<Rightarrow> benefit_context \<Rightarrow> unit reward_act" where
  "ConvertValueBenefit_compensate h (UndoConversion _ pointsWid currencyWid burned granted outId inId) ctx =
     bnd (randomUUID h) (\<lambda>groupRef.
     andThen (postUnchecked
       (conversion_reversing ctx currencyWid (- granted) '':in:reversal'' groupRef inId))
     (andThen (postUnchecked
       (conversion_reversing ctx pointsWid burned '':out:reversal'' groupRef outId))
     (ret ())))"
| "ConvertValueBenefit_compensate h _ ctx = throw CorruptCompensation"

section \<open>The registry\<close>

fun handler_apply :: "host \<Rightarrow> reward_benefit \<Rightarrow> benefit_context \<Rightarrow> applied reward_act" where
  "handler_apply h (BGrantPoints n) ctx = GrantPointsBenefit_apply n ctx"
| "handler_apply h (BGrantCurrency n cur) ctx = GrantCurrencyBenefit_apply n cur ctx"
| "handler_apply h (BIssueEntitlement item days) ctx = IssueEntitlementBenefit_apply h item days ctx"
| "handler_apply h (BConvertValue b g cur) ctx = ConvertValueBenefit_apply h b g cur ctx"

fun handler_compensate ::
    "host \<Rightarrow> RewardBenefitKind \<Rightarrow> compensation \<Rightarrow> benefit_context \<Rightarrow> unit reward_act" where
  "handler_compensate h GrantPoints undo ctx = GrantPointsBenefit_compensate undo ctx"
| "handler_compensate h GrantCurrency undo ctx = GrantCurrencyBenefit_compensate undo ctx"
| "handler_compensate h IssueEntitlement undo ctx = IssueEntitlementBenefit_compensate undo ctx"
| "handler_compensate h ConvertValue undo ctx = ConvertValueBenefit_compensate h undo ctx"

fun handler_reversibility :: "RewardBenefitKind \<Rightarrow> Reversibility" where
  "handler_reversibility GrantPoints = Compensable"
| "handler_reversibility GrantCurrency = Compensable"
| "handler_reversibility IssueEntitlement = Compensable"
| "handler_reversibility ConvertValue = Compensable"

fun isScalable :: "RewardBenefitKind \<Rightarrow> bool" where
  "isScalable GrantPoints = True"
| "isScalable GrantCurrency = True"
| "isScalable IssueEntitlement = False"
| "isScalable ConvertValue = False"

section \<open>The dispatcher\<close>

definition benefit_idempotency_key :: "int \<Rightarrow> int \<Rightarrow> string" where
  "benefit_idempotency_key awardId idx = ''award:'' @ show_int awardId @ '':benefit:'' @ show_int idx"

record dispatch_context =
  dc_enterprise :: int
  dc_customer :: int
  dc_award :: int
  dc_rule :: int
  dc_rule_version :: int
  dc_occurred :: int
  dc_index :: int
  dc_default_currency :: "string option"

definition benefit_ctx :: "dispatch_context \<Rightarrow> benefit_context" where
  "benefit_ctx ctx =
     \<lparr>bc_enterprise = dc_enterprise ctx, bc_customer = dc_customer ctx, bc_award = dc_award ctx,
      bc_rule = dc_rule ctx, bc_rule_version = dc_rule_version ctx, bc_occurred = dc_occurred ctx,
      bc_key = benefit_idempotency_key (dc_award ctx) (dc_index ctx),
      bc_default_currency = dc_default_currency ctx\<rparr>"

definition BenefitDispatcher_apply :: "host \<Rightarrow> reward_benefit \<Rightarrow> dispatch_context \<Rightarrow> unit reward_act" where
  "BenefitDispatcher_apply h benefit ctx =
     bnd (handler_apply h benefit (benefit_ctx ctx)) (\<lambda>applied.
     andThen (recordBenefit (dc_enterprise ctx) (dc_award ctx) (dc_index ctx)
       (benefit_kind_text (kind_of_benefit benefit)) (fst applied) (snd applied)
       (bc_key (benefit_ctx ctx)))
     (ret ()))"

definition compensateRow ::
    "host \<Rightarrow> int \<Rightarrow> int \<Rightarrow> int \<Rightarrow> int \<Rightarrow> int \<Rightarrow> int \<Rightarrow> award_benefit \<Rightarrow> unit reward_act" where
  "compensateRow h ent awardId cust ruleId ruleVersion occurred row =
     (case benefit_kind_of (b_kind row) of
        None \<Rightarrow> ret ()
      | Some kind \<Rightarrow>
          if handler_reversibility kind = Pivot then ret ()
          else
            andThen (handler_compensate h kind (b_compensation row)
              \<lparr>bc_enterprise = ent, bc_customer = cust, bc_award = awardId, bc_rule = ruleId,
               bc_rule_version = ruleVersion, bc_occurred = occurred,
               bc_key = benefit_idempotency_key awardId (b_index row),
               bc_default_currency = None\<rparr>)
            (markBenefitCompensated ent (b_id row)))"

definition compensateAward ::
    "host \<Rightarrow> int \<Rightarrow> int \<Rightarrow> int \<Rightarrow> int \<Rightarrow> int \<Rightarrow> int \<Rightarrow> unit reward_act" where
  "compensateAward h ent awardId cust ruleId ruleVersion occurred =
     bnd (reads (\<lambda>db. listAppliedBenefits db ent awardId)) (\<lambda>applied.
     each (compensateRow h ent awardId cust ruleId ruleVersion occurred) (rev applied))"

section \<open>What a posting does to the sums\<close>

lemma sumEntries_post:
  assumes "post p isEarn s = Inr (e, s')" and "entry_by_key s (p_enterprise p) (p_key p) = None"
  shows "sumEntries s' ent wid = sumEntries s ent wid
    + (if p_enterprise p = ent \<and> p_wallet p = wid then p_amount p else 0)"
  using assms by (auto simp: post_Inr move_and_write_Inr sumEntries_def sum_of_single)

lemma sumEntries_debit:
  assumes "debitIfSufficient p s = Inr (Some e, s')" and "entry_by_key s (p_enterprise p) (p_key p) = None"
  shows "sumEntries s' ent wid = sumEntries s ent wid
    + (if p_enterprise p = ent \<and> p_wallet p = wid then p_amount p else 0)"
  using assms by (auto simp: debit_Inr move_and_write_Inr sumEntries_def sum_of_single split: if_splits)

lemma sumEntries_ensure:
  "ensureCustomerWallet e c k cur s = Inr (w, s') \<Longrightarrow> sumEntries s' ent wid = sumEntries s ent wid"
  by (auto simp: ensure_Inr sumEntries_def)

lemma sumEntries_same_books:
  "steps same_books m \<Longrightarrow> m s = Inr (x, s') \<Longrightarrow> sumEntries s' ent wid = sumEntries s ent wid"
  by (auto simp: steps_def same_books_def sumEntries_def)

lemma entry_by_key_ensure:
  "ensureCustomerWallet e c k cur s = Inr (w, s') \<Longrightarrow> entry_by_key s' ent key = entry_by_key s ent key"
  by (auto simp: ensure_Inr entry_by_key_def)

lemma entry_by_key_same_books:
  "steps same_books m \<Longrightarrow> m s = Inr (x, s') \<Longrightarrow> entry_by_key s' ent key = entry_by_key s ent key"
  by (auto simp: steps_def same_books_def entry_by_key_def)

lemma entry_by_key_debit:
  assumes "debitIfSufficient p s = Inr (r, s')" and "p_key p \<noteq> key"
  shows "entry_by_key s' ent key = entry_by_key s ent key"
  using assms
  by (auto simp: debit_Inr move_and_write_Inr entry_by_key_def find_append split: if_splits option.splits)

lemma entry_by_key_post:
  assumes "post p isEarn s = Inr (r, s')" and "p_key p \<noteq> key"
  shows "entry_by_key s' ent key = entry_by_key s ent key"
  using assms by (auto simp: post_Inr move_and_write_Inr entry_by_key_def find_append split: option.splits)

lemma already_reversed_post:
  assumes "post p isEarn s = Inr (r, s')" and "p_reverses p \<noteq> p_reverses q" and "\<not> already_reversed s q"
  shows "\<not> already_reversed s' q"
  using assms
  by (auto simp: post_Inr move_and_write_Inr already_reversed_def split: option.splits)

lemma wallet_by_id_post:
  assumes "post p isEarn s = Inr (r, s')" and "wallet_by_id s ent wid \<noteq> None"
  shows "wallet_by_id s' ent wid \<noteq> None"
proof -
  have "find Q (moved p l ws) \<noteq> None"
    if "find Q ws \<noteq> None" "\<And>v b k n. Q (v\<lparr>w_balance := b, w_lifetime := k, w_version := n\<rparr>) = Q v"
    for Q l ws
    using that unfolding moved_def update_where_def by (induction ws) auto
  with assms show ?thesis
    by (auto simp: post_Inr move_and_write_Inr wallet_by_id_def)
qed

lemma post_writes:
  assumes "entry_by_key s (p_enterprise p) (p_key p) = None"
    and "wallet_by_id s (p_enterprise p) (p_wallet p) \<noteq> None" and "\<not> already_reversed s p"
  shows "\<exists>e s'. post p isEarn s = Inr (e, s')"
  using assms unfolding post_def move_and_write_def by (auto simp: Let_def)

lemma posting_simps [simp]:
  "p_enterprise (posting ctx w k a key) = bc_enterprise ctx" "p_wallet (posting ctx w k a key) = w"
  "p_amount (posting ctx w k a key) = a" "p_key (posting ctx w k a key) = key"
  "p_reverses (posting ctx w k a key) = None" "p_kind (posting ctx w k a key) = k"
  by (simp_all add: posting_def)

lemma reversing_simps [simp]:
  "p_enterprise (reversing ctx w a i) = bc_enterprise ctx" "p_wallet (reversing ctx w a i) = w"
  "p_amount (reversing ctx w a i) = a" "p_key (reversing ctx w a i) = bc_key ctx @ '':reversal''"
  "p_reverses (reversing ctx w a i) = Some i"
  by (simp_all add: reversing_def)

lemma conversion_reversing_simps [simp]:
  "p_enterprise (conversion_reversing ctx w a leg g i) = bc_enterprise ctx"
  "p_wallet (conversion_reversing ctx w a leg g i) = w"
  "p_amount (conversion_reversing ctx w a leg g i) = a"
  "p_key (conversion_reversing ctx w a leg g i) = bc_key ctx @ leg"
  "p_reverses (conversion_reversing ctx w a leg g i) = Some i"
  by (simp_all add: conversion_reversing_def)

section \<open>The contract of a handler\<close>

text \<open>\<open>untouched\<close>: the ledger holds no entry under a key this benefit uses. \<open>ready\<close>: the wallets that
  the stored compensation names are live, and none of its entries has been reversed.\<close>

definition untouched :: "benefit_context \<Rightarrow> reward_db \<Rightarrow> bool" where
  "untouched ctx s \<longleftrightarrow> list_all (\<lambda>sfx. entry_by_key s (bc_enterprise ctx) (bc_key ctx @ sfx) = None)
     ['''', '':out'', '':in'']"

fun undone_wallets :: "compensation \<Rightarrow> int list" where
  "undone_wallets (UndoPoints _ w _) = [w]"
| "undone_wallets (UndoCurrency _ w _) = [w]"
| "undone_wallets (UndoEntitlement _) = []"
| "undone_wallets (UndoConversion _ pw cw _ _ _ _) = [pw, cw]"

fun undone_entries :: "compensation \<Rightarrow> int list" where
  "undone_entries (UndoPoints e _ _) = [e]"
| "undone_entries (UndoCurrency e _ _) = [e]"
| "undone_entries (UndoEntitlement _) = []"
| "undone_entries (UndoConversion _ _ _ _ _ out inn) = [inn, out]"

definition ready :: "benefit_context \<Rightarrow> compensation \<Rightarrow> reward_db \<Rightarrow> bool" where
  "ready ctx c t \<longleftrightarrow> distinct (undone_entries c)
     \<and> list_all (\<lambda>w. wallet_by_id t (bc_enterprise ctx) w \<noteq> None) (undone_wallets c)
     \<and> list_all (\<lambda>i. \<not> list_ex (\<lambda>e. e_enterprise e = bc_enterprise ctx \<and> e_reverses e = Some i) (ledger t))
         (undone_entries c)
     \<and> list_all (\<lambda>sfx. entry_by_key t (bc_enterprise ctx) (bc_key ctx @ sfx) = None)
         ['':reversal'', '':in:reversal'', '':out:reversal'']"

definition negates :: "reward_db \<Rightarrow> reward_db \<Rightarrow> reward_db \<Rightarrow> reward_db \<Rightarrow> bool" where
  "negates s s1 t t' \<longleftrightarrow> (\<forall>ent wid. sumEntries t' ent wid + sumEntries s1 ent wid
     = sumEntries t ent wid + sumEntries s ent wid)"

locale benefit_handler =
  fixes give :: "'b \<Rightarrow> benefit_context \<Rightarrow> applied reward_act"
    and undo :: "compensation \<Rightarrow> benefit_context \<Rightarrow> unit reward_act"
    and payable :: "'b \<Rightarrow> bool"
  assumes give_keeps: "payout_invariant I \<Longrightarrow> payable b \<Longrightarrow> keeps I (give b ctx)"
    and undo_keeps: "undo_invariant I \<Longrightarrow> keeps I (undo c ctx)"
    and undo_negates: "untouched ctx s \<Longrightarrow> give b ctx s = Inr ((pay, c), s1) \<Longrightarrow> ready ctx c t \<Longrightarrow>
      \<exists>t'. undo c ctx t = Inr ((), t') \<and> negates s s1 t t'"
begin

text \<open>Applying and compensating at once leaves every sum of the ledger as it was.\<close>

lemma roundtrip:
  assumes "untouched ctx s" and "give b ctx s = Inr ((pay, c), s1)" and "ready ctx c s1"
  shows "\<exists>s2. undo c ctx s1 = Inr ((), s2) \<and> (\<forall>ent wid. sumEntries s2 ent wid = sumEntries s ent wid)"
  using undo_negates [OF assms] by (auto simp: negates_def)

end

lemma ready_reversing:
  assumes "ready ctx c t" and "wid \<in> set (undone_wallets c)" and "i \<in> set (undone_entries c)"
  shows "\<exists>e t'. post (reversing ctx wid a i) isEarn t = Inr (e, t')"
    and "entry_by_key t (bc_enterprise ctx) (bc_key ctx @ '':reversal'') = None"
  using assms
  by (auto intro!: post_writes simp: ready_def already_reversed_def list_all_iff list_ex_iff)

lemma keeps_apply_points:
  "payout_invariant I \<Longrightarrow> 0 < n \<Longrightarrow> keeps I (GrantPointsBenefit_apply n ctx)"
  unfolding GrantPointsBenefit_apply_def
  by (intro keeps_bnd triple_ret payout_invariant.I_ensure payout_invariant.I_credit) auto

lemma keeps_apply_currency:
  "payout_invariant I \<Longrightarrow> 0 < n \<Longrightarrow> keeps I (GrantCurrencyBenefit_apply n cur ctx)"
  unfolding GrantCurrencyBenefit_apply_def
  by (intro keeps_if triple_throw keeps_bnd triple_ret payout_invariant.I_ensure
      payout_invariant.I_credit) auto

lemma keeps_apply_entitlement:
  "payout_invariant I \<Longrightarrow> keeps I (IssueEntitlementBenefit_apply h item days ctx)"
  unfolding IssueEntitlementBenefit_apply_def generateRedemptionCode_def
  by (intro keeps_let keeps_bnd triple_ret payout_invariant.I_bytes payout_invariant.I_issue)

lemma keeps_apply_conversion:
  "payout_invariant I \<Longrightarrow> 0 < b \<Longrightarrow> 0 < g \<Longrightarrow> keeps I (ConvertValueBenefit_apply h b g cur ctx)"
  unfolding ConvertValueBenefit_apply_def
  by (intro keeps_if triple_throw keeps_bnd keeps_let keeps_option triple_ret payout_invariant.I_ensure
      payout_invariant.I_credit payout_invariant.I_debit payout_invariant.I_uuid) auto

lemma keeps_undo_handlers:
  assumes "undo_invariant I"
  shows "keeps I (GrantPointsBenefit_compensate c ctx)"
    and "keeps I (GrantCurrencyBenefit_compensate c ctx)"
    and "keeps I (IssueEntitlementBenefit_compensate c ctx)"
    and "keeps I (ConvertValueBenefit_compensate h c ctx)"
  using assms
  by (cases c; simp; intro triple_throw keeps_bnd keeps_andThen triple_ret undo_invariant.I_post
      undo_invariant.I_revoke undo_invariant.I_draw)+

subsection \<open>Compensation moves every wallet back\<close>

lemma negates_points:
  assumes u: "untouched ctx s" and run: "GrantPointsBenefit_apply n ctx s = Inr ((pay, c), s1)"
    and r: "ready ctx c t"
  shows "\<exists>t'. GrantPointsBenefit_compensate c ctx t = Inr ((), t') \<and> negates s s1 t t'"
proof -
  from run obtain w s0 e where w: "ensureCustomerWallet (bc_enterprise ctx) (bc_customer ctx) Points None s = Inr (w, s0)"
    and e: "post (posting ctx (w_id w) Earn n (bc_key ctx)) True s0 = Inr (e, s1)"
    and c: "c = UndoPoints (e_id e) (w_id w) n"
    by (auto simp: GrantPointsBenefit_apply_def act_simps credit_def)
  have new: "entry_by_key s0 (bc_enterprise ctx) (bc_key ctx) = None"
    using u entry_by_key_ensure [OF w] by (simp add: untouched_def)
  obtain f t' where f: "post (reversing ctx (w_id w) (- n) (e_id e)) False t = Inr (f, t')"
    using ready_reversing(1) [OF r, of "w_id w" "e_id e" "- n" False] by (auto simp: c)
  have "GrantPointsBenefit_compensate c ctx t = Inr ((), t')"
    using f by (simp add: c act_simps postUnchecked_def)
  moreover have "negates s s1 t t'"
    using sumEntries_post [OF e] sumEntries_post [OF f] ready_reversing(2) [OF r, of "w_id w" "e_id e"]
      sumEntries_ensure [OF w] new by (simp add: negates_def c)
  ultimately show ?thesis by blast
qed

lemma negates_currency:
  assumes u: "untouched ctx s" and run: "GrantCurrencyBenefit_apply n cur ctx s = Inr ((pay, c), s1)"
    and r: "ready ctx c t"
  shows "\<exists>t'. GrantCurrencyBenefit_compensate c ctx t = Inr ((), t') \<and> negates s s1 t t'"
proof -
  from run obtain w s0 e where w: "ensureCustomerWallet (bc_enterprise ctx) (bc_customer ctx) Currency cur s = Inr (w, s0)"
    and e: "post (posting ctx (w_id w) Earn n (bc_key ctx)) True s0 = Inr (e, s1)"
    and c: "c = UndoCurrency (e_id e) (w_id w) n"
    by (auto simp: GrantCurrencyBenefit_apply_def act_simps credit_def split: if_splits)
  have new: "entry_by_key s0 (bc_enterprise ctx) (bc_key ctx) = None"
    using u entry_by_key_ensure [OF w] by (simp add: untouched_def)
  obtain f t' where f: "post (reversing ctx (w_id w) (- n) (e_id e)) False t = Inr (f, t')"
    using ready_reversing(1) [OF r, of "w_id w" "e_id e" "- n" False] by (auto simp: c)
  have "GrantCurrencyBenefit_compensate c ctx t = Inr ((), t')"
    using f by (simp add: c act_simps postUnchecked_def)
  moreover have "negates s s1 t t'"
    using sumEntries_post [OF e] sumEntries_post [OF f] ready_reversing(2) [OF r, of "w_id w" "e_id e"]
      sumEntries_ensure [OF w] new by (simp add: negates_def c)
  ultimately show ?thesis by blast
qed

lemma same_books_entitlement:
  "steps same_books (IssueEntitlementBenefit_apply h item days ctx)"
proof (rule stepsI)
  fix s x s'
  assume "IssueEntitlementBenefit_apply h item days ctx s = Inr (x, s')"
  then show "same_books s s'"
    by (auto simp: IssueEntitlementBenefit_apply_def generateRedemptionCode_def randomBytes_def issue_def
        bnd_Inr ret_def Let_def same_books_def split: if_splits)
qed

lemma negates_entitlement:
  assumes run: "IssueEntitlementBenefit_apply h item days ctx s = Inr ((pay, c), s1)"
  shows "\<exists>t'. IssueEntitlementBenefit_compensate c ctx t = Inr ((), t') \<and> negates s s1 t t'"
proof -
  from run obtain i where c: "c = UndoEntitlement i"
    by (auto simp: IssueEntitlementBenefit_apply_def act_simps Let_def)
  obtain r t' where r: "revokeIfUnredeemed (bc_enterprise ctx) i t = Inr (r, t')"
    by (simp add: revokeIfUnredeemed_def)
  have "sumEntries t' ent wid = sumEntries t ent wid" for ent wid
    using record_statements_same_books(12) r by (rule sumEntries_same_books)
  moreover have "sumEntries s1 ent wid = sumEntries s ent wid" for ent wid
    using same_books_entitlement run by (rule sumEntries_same_books)
  ultimately show ?thesis using r by (simp add: c act_simps negates_def)
qed

lemma conversion_run:
  assumes "ConvertValueBenefit_apply h b g cur ctx s = Inr ((pay, c), s1)"
  obtains pw sa grp sb out sc cw sd inn n where
    "ensureCustomerWallet (bc_enterprise ctx) (bc_customer ctx) Points None s = Inr (pw, sa)"
    "n = conversions (w_balance pw) b" "1 \<le> n"
    "randomUUID h sa = Inr (grp, sb)"
    "debitIfSufficient ((posting ctx (w_id pw) ConvertOut (- (n * b)) (bc_key ctx @ '':out''))
       \<lparr>p_group := Some grp\<rparr>) sb = Inr (Some out, sc)"
    "ensureCustomerWallet (bc_enterprise ctx) (bc_customer ctx) Currency cur sc = Inr (cw, sd)"
    "post ((posting ctx (w_id cw) ConvertIn (n * g) (bc_key ctx @ '':in''))\<lparr>p_group := Some grp\<rparr>)
       True sd = Inr (inn, s1)"
    "c = UndoConversion grp (w_id pw) (w_id cw) (n * b) (n * g) (e_id out) (e_id inn)"
    "pay = PaidConversion n (n * b) (n * g) (coalesced cur)"
  using assms
  by (auto simp: ConvertValueBenefit_apply_def bnd_Inr ret_def throw_def credit_def Let_def not_less
      split: if_splits option.splits)

lemma sums_conversion:
  assumes u: "untouched ctx s" and run: "ConvertValueBenefit_apply h b g cur ctx s = Inr ((pay, c), s1)"
    and c: "c = UndoConversion grp pw cw burned granted out inn"
  shows "sumEntries s1 ent wid = sumEntries s ent wid
    + (if ent = bc_enterprise ctx \<and> wid = pw then - burned else 0)
    + (if ent = bc_enterprise ctx \<and> wid = cw then granted else 0)"
proof -
  from run obtain w sa grp' sb o' sc v sd i' n where
    1: "ensureCustomerWallet (bc_enterprise ctx) (bc_customer ctx) Points None s = Inr (w, sa)"
    and 2: "randomUUID h sa = Inr (grp', sb)"
    and 3: "debitIfSufficient ((posting ctx (w_id w) ConvertOut (- (n * b)) (bc_key ctx @ '':out''))
       \<lparr>p_group := Some grp'\<rparr>) sb = Inr (Some o', sc)"
    and 4: "ensureCustomerWallet (bc_enterprise ctx) (bc_customer ctx) Currency cur sc = Inr (v, sd)"
    and 5: "post ((posting ctx (w_id v) ConvertIn (n * g) (bc_key ctx @ '':in''))\<lparr>p_group := Some grp'\<rparr>)
       True sd = Inr (i', s1)"
    and 6: "c = UndoConversion grp' (w_id w) (w_id v) (n * b) (n * g) (e_id o') (e_id i')"
    by (rule conversion_run)
  note uuid = record_statements_same_books(9) [of h]
  have new: "entry_by_key sb (bc_enterprise ctx) (bc_key ctx @ '':out'') = None"
    "entry_by_key sd (bc_enterprise ctx) (bc_key ctx @ '':in'') = None"
    using u entry_by_key_ensure [OF 1] entry_by_key_same_books [OF uuid 2] entry_by_key_debit [OF 3]
      entry_by_key_ensure [OF 4] by (simp_all add: untouched_def)
  show ?thesis
    using sumEntries_ensure [OF 1, of ent wid] sumEntries_same_books [OF uuid 2, of ent wid]
      sumEntries_debit [OF 3, of ent wid] sumEntries_ensure [OF 4, of ent wid]
      sumEntries_post [OF 5, of ent wid] new 6 c by auto
qed

lemma negates_conversion:
  assumes u: "untouched ctx s" and run: "ConvertValueBenefit_apply h b g cur ctx s = Inr ((pay, c), s1)"
    and r: "ready ctx c t"
  shows "\<exists>t'. ConvertValueBenefit_compensate h c ctx t = Inr ((), t') \<and> negates s s1 t t'"
proof -
  from run obtain grp pw cw burned granted out inn
    where c: "c = UndoConversion grp pw cw burned granted out inn"
    by (rule conversion_run)
  note sums = sums_conversion [OF u run c]
  let ?t0 = "t\<lparr>entropy := entropy t + 1\<rparr>" and ?g = "uuid h (entropy t)"
  let ?p = "conversion_reversing ctx cw (- granted) '':in:reversal'' ?g inn"
  let ?q = "conversion_reversing ctx pw burned '':out:reversal'' ?g out"
  have t0: "entry_by_key ?t0 = entry_by_key t" "wallet_by_id ?t0 = wallet_by_id t"
    "sumEntries ?t0 = sumEntries t" "already_reversed ?t0 = already_reversed t"
    by (auto simp: entry_by_key_def wallet_by_id_def sumEntries_def already_reversed_def fun_eq_iff
        split: option.splits)
  have p: "entry_by_key ?t0 (p_enterprise ?p) (p_key ?p) = None" "\<not> already_reversed ?t0 ?p"
    and q: "entry_by_key ?t0 (p_enterprise ?q) (p_key ?q) = None" "\<not> already_reversed ?t0 ?q"
    and w: "wallet_by_id ?t0 (p_enterprise ?p) (p_wallet ?p) \<noteq> None"
      "wallet_by_id ?t0 (p_enterprise ?q) (p_wallet ?q) \<noteq> None" and ne: "inn \<noteq> out"
    using r unfolding t0 by (auto simp: ready_def c already_reversed_def)
  obtain e t1 where 1: "post ?p False ?t0 = Inr (e, t1)"
    using post_writes [OF p(1) w(1) p(2)] by blast
  have q1: "entry_by_key t1 (p_enterprise ?q) (p_key ?q) = None" "\<not> already_reversed t1 ?q"
    "wallet_by_id t1 (p_enterprise ?q) (p_wallet ?q) \<noteq> None"
    using entry_by_key_post [OF 1, of "p_key ?q"] already_reversed_post [OF 1 _ q(2)]
      wallet_by_id_post [OF 1 w(2)] q ne by auto
  obtain f t2 where 2: "post ?q False t1 = Inr (f, t2)"
    using post_writes [OF q1(1,3,2)] by blast
  have "ConvertValueBenefit_compensate h c ctx t = Inr ((), t2)"
    using 1 2 by (simp add: c act_simps postUnchecked_def randomUUID_def)
  moreover have "negates s s1 t t2"
    using sumEntries_post [OF 1 p(1)] sumEntries_post [OF 2 q1(1)] sums t0(3)
    by (simp add: negates_def)
  ultimately show ?thesis by blast
qed

interpretation points_handler: benefit_handler GrantPointsBenefit_apply GrantPointsBenefit_compensate
  "\<lambda>n. 0 < n"
  by unfold_locales (simp_all add: keeps_apply_points keeps_undo_handlers negates_points)

interpretation currency_handler: benefit_handler "\<lambda>(n, cur). GrantCurrencyBenefit_apply n cur"
  GrantCurrencyBenefit_compensate "\<lambda>(n, cur). 0 < n"
  by unfold_locales
    (auto simp: keeps_undo_handlers negates_currency intro: keeps_apply_currency split: prod.splits)

interpretation entitlement_handler: benefit_handler
  "\<lambda>(item, days). IssueEntitlementBenefit_apply h item days" IssueEntitlementBenefit_compensate
  "\<lambda>_. True"
  by unfold_locales
    (auto simp: keeps_undo_handlers negates_entitlement intro: keeps_apply_entitlement split: prod.splits)

interpretation conversion_handler: benefit_handler
  "\<lambda>(b, g, cur). ConvertValueBenefit_apply h b g cur" "ConvertValueBenefit_compensate h"
  "\<lambda>(b, g, cur). 0 < b \<and> 0 < g"
  by unfold_locales
    (auto simp: keeps_undo_handlers negates_conversion intro: keeps_apply_conversion split: prod.splits)

section \<open>The dispatcher over the contract\<close>

lemma keeps_handler_apply:
  "payout_invariant I \<Longrightarrow> benefit_positive b \<Longrightarrow> keeps I (handler_apply h b ctx)"
  by (cases b) (simp_all add: keeps_apply_points keeps_apply_currency keeps_apply_entitlement
      keeps_apply_conversion)

lemma keeps_dispatch:
  "payout_invariant I \<Longrightarrow> benefit_positive b \<Longrightarrow> keeps I (BenefitDispatcher_apply h b ctx)"
  unfolding BenefitDispatcher_apply_def
  by (intro keeps_bnd keeps_andThen triple_ret keeps_handler_apply payout_invariant.I_record)

lemma keeps_handler_compensate:
  "undo_invariant I \<Longrightarrow> keeps I (handler_compensate h kind c ctx)"
  by (cases kind) (simp_all add: keeps_undo_handlers)

lemma keeps_compensateAward:
  "undo_invariant I \<Longrightarrow> keeps I (compensateAward h ent awardId cust ruleId ruleVersion occurred)"
  unfolding compensateAward_def compensateRow_def
  by (intro keeps_bnd keeps_reads keeps_each keeps_option keeps_if triple_ret keeps_andThen
      keeps_handler_compensate undo_invariant.I_compensated)

lemma handler_negates:
  assumes "untouched ctx s" and "handler_apply h b ctx s = Inr ((pay, c), s1)" and "ready ctx c t"
  shows "\<exists>t'. handler_compensate h (kind_of_benefit b) c ctx t = Inr ((), t') \<and> negates s s1 t t'"
  using assms points_handler.undo_negates currency_handler.undo_negates [of _ _ "(_, _)"]
    entitlement_handler.undo_negates [of _ _ _ "(_, _)"] conversion_handler.undo_negates [of _ _ _ "(_, _, _)"]
  by (cases b) auto

lemma key_parts:
  "benefit_idempotency_key a i @ sfx =
     ''award:'' @ show_int a @ CHR '':'' # ''benefit:'' @ show_int i @ sfx"
  by (simp add: benefit_idempotency_key_def)

definition key_suffixes :: "string list" where
  "key_suffixes = ['''', '':out'', '':in'', '':reversal'', '':out:reversal'', '':in:reversal'']"

lemma suffix_inject:
  assumes "sfx \<in> set key_suffixes" "sfx' \<in> set key_suffixes" "show_int i @ sfx = show_int j @ sfx'"
  shows "i = j \<and> sfx = sfx'"
proof -
  have shape: "x = [] \<or> (\<exists>y. x = CHR '':'' # y)" if "x \<in> set key_suffixes" for x
    using that by (auto simp: key_suffixes_def)
  have nocolon: "CHR '':'' \<notin> set (show_int k)" for k by (rule colon_notin_show_int)
  have no: "show_int i' \<noteq> show_int j' @ CHR '':'' # y" for i' j' y
    using nocolon [of i'] by auto
  from shape [OF assms(1)] shape [OF assms(2)] show ?thesis
    using assms(3) no append_sep_inject [OF nocolon nocolon] by (auto dest: sym)
qed

text \<open>The idempotency keys of benefits never collide: two awards, two positions or two legs of a
  benefit (the plain key, the conversion's \<open>:out\<close> and \<open>:in\<close>, and the reversals of each) always get
  different ledger keys, so the unique index refuses a retry and nothing else.\<close>

theorem benefit_keys_injective:
  assumes "sfx \<in> set key_suffixes" and "sfx' \<in> set key_suffixes"
    and "benefit_idempotency_key a i @ sfx = benefit_idempotency_key a' i' @ sfx'"
  shows "a = a' \<and> i = i' \<and> sfx = sfx'"
proof -
  have "show_int a @ CHR '':'' # ''benefit:'' @ show_int i @ sfx
      = show_int a' @ CHR '':'' # ''benefit:'' @ show_int i' @ sfx'"
    using assms(3) unfolding key_parts by simp
  then have "a = a'" and "show_int i @ sfx = show_int i' @ sfx'"
    using append_sep_inject [OF colon_notin_show_int colon_notin_show_int] by auto
  with suffix_inject [OF assms(1,2)] show ?thesis by blast
qed

theorem benefit_keys_injective_witness:
  "'':out'' \<in> set key_suffixes \<and>
   (7 :: int) = 7 \<and> (0 :: int) = 0 \<and> '':out'' = '':out''"
  using benefit_keys_injective [of "'':out''" "'':out''" 7 0 7 0] by (simp add: key_suffixes_def)

section \<open>Conversions in detail\<close>

definition lifetime :: "reward_db \<Rightarrow> int \<Rightarrow> int \<Rightarrow> int" where
  "lifetime db ent wid =
     sum_list (map w_lifetime (filter (\<lambda>w. w_id w = wid \<and> w_enterprise w = ent \<and> \<not> w_deleted w) (wallets db)))"

lemma ensure_wallet:
  assumes "ensureCustomerWallet ent cust kind cur s = Inr (w, s')"
  shows "w \<in> set (wallets s')" and "w_kind w = kind" and "w_enterprise w = ent" and "\<not> w_deleted w"
    and "set (wallets s) \<subseteq> set (wallets s')"
  using assms by (auto simp: ensure_Inr same_slot_def dest: find_Some_iff_mem)

lemma lifetime_ensure:
  assumes "ensureCustomerWallet e c k cur s = Inr (w, s')"
  shows "lifetime s' ent wid = lifetime s ent wid"
  using assms by (auto simp: ensure_Inr lifetime_def)

lemma lifetime_moved:
  assumes "distinct (map w_id ws)"
    and "w \<in> set ws" "w_id w = p_wallet p" "w_enterprise w = p_enterprise p" "\<not> w_deleted w"
  shows "sum_list (map w_lifetime (filter (\<lambda>w. w_id w = wid \<and> w_enterprise w = ent \<and> \<not> w_deleted w)
      (moved p l ws)))
    = sum_list (map w_lifetime (filter (\<lambda>w. w_id w = wid \<and> w_enterprise w = ent \<and> \<not> w_deleted w) ws))
      + (if wid = p_wallet p \<and> ent = p_enterprise p then l else 0)"
  using assms
proof (induction ws)
  case (Cons v ws)
  show ?case
  proof (cases "v = w")
    case True
    have "moved p l ws = ws"
      unfolding moved_def
    proof (rule update_where_none)
      fix x assume "x \<in> set ws"
      with Cons.prems(1) have "w_id x \<noteq> w_id v" by (rule distinct_map_Cons_neq)
      then show "\<not> (w_id x = p_wallet p \<and> w_enterprise x = p_enterprise p \<and> \<not> w_deleted x)"
        using True Cons.prems(3) by simp
    qed
    then show ?thesis using True Cons.prems by (auto simp: moved_def update_where_def)
  next
    case False
    with Cons.prems have "w \<in> set ws" by simp
    moreover from this have "w_id v \<noteq> p_wallet p"
      using Cons.prems(1,3) by force
    moreover from this have "moved p l (v # ws) = v # moved p l ws"
      by (simp add: moved_def update_where_def)
    ultimately show ?thesis using Cons by auto
  qed
qed simp

lemma lifetime_move:
  assumes "distinct (map w_id (wallets s))" and "wallet_by_id s (p_enterprise p) (p_wallet p) = Some w"
    and "move_and_write p l w s = Inr (e, s')"
  shows "lifetime s' ent wid = lifetime s ent wid
    + (if wid = p_wallet p \<and> ent = p_enterprise p then l else 0)"
  using assms(3) lifetime_moved [OF assms(1) wallet_by_idD [OF assms(2)], of wid ent l]
  by (simp add: move_and_write_Inr lifetime_def)

lemma lifetime_post:
  assumes "distinct (map w_id (wallets s))" and "post p isEarn s = Inr (e, s')"
    and "entry_by_key s (p_enterprise p) (p_key p) = None"
  shows "lifetime s' ent wid = lifetime s ent wid
    + (if wid = p_wallet p \<and> ent = p_enterprise p then lifetime_delta p isEarn else 0)"
  using assms lifetime_move [OF assms(1)] unfolding post_Inr by force

lemma lifetime_debit:
  assumes "distinct (map w_id (wallets s))" and "debitIfSufficient p s = Inr (Some e, s')"
    and "entry_by_key s (p_enterprise p) (p_key p) = None"
  shows "lifetime s' ent wid = lifetime s ent wid"
  using assms lifetime_move [OF assms(1)] unfolding debit_Inr by (force split: if_splits)

lemma distinct_wallets: "books_ok s \<Longrightarrow> distinct (map w_id (wallets s))"
  by (simp add: books_ok_def books_def)

lemma conversions_bounds:
  assumes "0 < b" and "1 \<le> conversions bal b"
  shows "conversions bal b \<le> 100" and "conversions bal b * b \<le> bal"
    and "conversions bal b < 100 \<Longrightarrow> bal - conversions bal b * b < b"
proof -
  let ?n = "conversions bal b"
  show "?n \<le> 100" by (simp add: conversions_def MAX_CONVERSIONS_PER_APPLY_def)
  have le: "?n \<le> bal div b" by (simp add: conversions_def)
  have "?n * b \<le> (bal div b) * b" using le assms(1) by (intro mult_right_mono) simp_all
  also have "\<dots> \<le> bal" using assms(1) by (simp add: div_mult_self_is_m minus_mod_eq_div_mult [symmetric])
  finally show "?n * b \<le> bal" .
  assume "?n < 100"
  then have "?n = bal div b" by (simp add: conversions_def MAX_CONVERSIONS_PER_APPLY_def min_def split: if_splits)
  then have "bal - ?n * b = bal mod b" by (simp add: minus_div_mult_eq_mod)
  then show "bal - ?n * b < b" using assms(1) by simp
qed

lemma moved_same_id:
  assumes "v \<in> set (moved p l ws)"
  shows "\<exists>v0\<in>set ws. w_id v0 = w_id v \<and> w_kind v0 = w_kind v"
  using assms by (rule moved_row) auto

lemma debit_rows:
  assumes "debitIfSufficient p s = Inr (r, s')" and "v \<in> set (wallets s')"
  shows "\<exists>v0\<in>set (wallets s). w_id v0 = w_id v \<and> w_kind v0 = w_kind v"
  using assms by (auto simp: debit_Inr move_and_write_Inr split: if_splits dest: moved_same_id)

text \<open>The points wallet and the currency wallet of a conversion are two rows.\<close>

lemma conversion_wallets_differ:
  assumes ok: "books_ok s"
    and pw: "ensureCustomerWallet ent cust Points None s = Inr (pw, sa)"
    and sb: "same_books sa sb" and out: "debitIfSufficient p sb = Inr (r, sc)"
    and cw: "ensureCustomerWallet ent cust Currency cur sc = Inr (cw, sd)"
  shows "w_id pw \<noteq> w_id cw"
proof
  assume same: "w_id pw = w_id cw"
  have oka: "books_ok sa" by (rule tripleD [OF keeps_books_ensure ok pw])
  then have okb: "books_ok sb" using sb by (simp add: books_ok_def same_books_def)
  then have okc: "books_ok sc" using out by (rule tripleD [OF keeps_books_debit])
  have okd: "books_ok sd" by (rule tripleD [OF keeps_books_ensure okc cw])
  have pin: "w_id pw \<in> w_id ` set (wallets sb)"
    using ensure_wallet(1) [OF pw] sb by (auto simp: same_books_def)
  have idc: "map w_id (wallets sc) = map w_id (wallets sb)"
    using out by (auto simp: debit_Inr move_and_write_Inr map_moved split: if_splits)
  then obtain v where v: "v \<in> set (wallets sc)" "w_id v = w_id pw"
    using pin by (metis (no_types, lifting) image_iff list.set_map)
  obtain v0 where v0: "v0 \<in> set (wallets sb)" "w_id v0 = w_id v" "w_kind v0 = w_kind v"
    using debit_rows [OF out v(1)] by blast
  have "v0 = pw"
    using distinct_map_eq [OF distinct_wallets [OF okb] v0(1), of pw] v0(2) v(2) ensure_wallet(1) [OF pw] sb
    by (simp add: same_books_def)
  then have "w_kind v = Points" using v0(3) ensure_wallet(2) [OF pw] by simp
  moreover have "v = cw"
    using distinct_map_eq [OF distinct_wallets [OF okd], of v cw] v same ensure_wallet(1,5) [OF cw] by auto
  ultimately show False using ensure_wallet(2) [OF cw] by simp
qed

lemma conversion_facts:
  assumes ok: "books_ok s" and u: "untouched ctx s" and b: "0 < b" and g: "0 < g"
    and run: "ConvertValueBenefit_apply h b g cur ctx s = Inr ((pay, c), s1)"
  obtains n grp pw cw out inn where
    "c = UndoConversion grp pw cw (n * b) (n * g) out inn" "pw \<noteq> cw" "1 \<le> n"
    "n = conversions (sumEntries s (bc_enterprise ctx) pw) b"
    "lifetime s1 (bc_enterprise ctx) cw = lifetime s (bc_enterprise ctx) cw + n * g"
proof -
  from run obtain w sa grp sb o' sc v sd i' n where
    1: "ensureCustomerWallet (bc_enterprise ctx) (bc_customer ctx) Points None s = Inr (w, sa)"
    and n: "n = conversions (w_balance w) b" "1 \<le> n"
    and 2: "randomUUID h sa = Inr (grp, sb)"
    and 3: "debitIfSufficient ((posting ctx (w_id w) ConvertOut (- (n * b)) (bc_key ctx @ '':out''))
       \<lparr>p_group := Some grp\<rparr>) sb = Inr (Some o', sc)"
    and 4: "ensureCustomerWallet (bc_enterprise ctx) (bc_customer ctx) Currency cur sc = Inr (v, sd)"
    and 5: "post ((posting ctx (w_id v) ConvertIn (n * g) (bc_key ctx @ '':in''))\<lparr>p_group := Some grp\<rparr>)
       True sd = Inr (i', s1)"
    and 6: "c = UndoConversion grp (w_id w) (w_id v) (n * b) (n * g) (e_id o') (e_id i')"
    by (rule conversion_run)
  have sab: "same_books sa sb" using record_statements_same_books(9) 2 by (rule stepsD)
  have oka: "books_ok sa" by (rule tripleD [OF keeps_books_ensure ok 1])
  then have okb: "books_ok sb" using sab by (simp add: books_ok_def same_books_def)
  have okc: "books_ok sc" by (rule tripleD [OF keeps_books_debit okb 3])
  have okd: "books_ok sd" by (rule tripleD [OF keeps_books_ensure okc 4])
  have bal: "w_balance w = sumEntries s (bc_enterprise ctx) (w_id w)"
    using oka ensure_wallet(1,3) [OF 1] sumEntries_ensure [OF 1]
    by (auto simp: books_ok_def books_def sumEntries_def)
  have new: "entry_by_key sb (bc_enterprise ctx) (bc_key ctx @ '':out'') = None"
    "entry_by_key sd (bc_enterprise ctx) (bc_key ctx @ '':in'') = None"
    using u entry_by_key_ensure [OF 1] entry_by_key_same_books [OF record_statements_same_books(9) 2]
      entry_by_key_debit [OF 3] entry_by_key_ensure [OF 4] by (simp_all add: untouched_def)
  have "lifetime sb = lifetime sa" using sab by (simp add: lifetime_def same_books_def fun_eq_iff)
  then have "lifetime s1 (bc_enterprise ctx) (w_id v) = lifetime s (bc_enterprise ctx) (w_id v) + n * g"
    using lifetime_post [OF distinct_wallets [OF okd] 5] lifetime_debit [OF distinct_wallets [OF okb] 3]
      lifetime_ensure [OF 1] lifetime_ensure [OF 4] new n(2) g
    by (simp add: lifetime_delta_def)
  moreover have "w_id w \<noteq> w_id v" by (rule conversion_wallets_differ [OF ok 1 sab 3 4])
  ultimately show ?thesis using that n bal 6 by metis
qed

section \<open>Properties\<close>

text \<open>C14: Compensation is the exact opposite of what was given. Whatever a benefit handler did to the
  ledger when it was applied, its compensator, run in any later state in which the wallets are
  still there and the entries have not been reversed, succeeds and moves every wallet's ledger
  sum by exactly the opposite amount.\<close>

theorem compensation_negates:
  assumes "untouched ctx s" and "handler_apply h b ctx s = Inr ((pay, c), s1)" and "ready ctx c t"
  shows "\<exists>t'. handler_compensate h (kind_of_benefit b) c ctx t = Inr ((), t')
    \<and> (\<forall>ent wid. sumEntries t' ent wid - sumEntries t ent wid = sumEntries s ent wid - sumEntries s1 ent wid)"
proof -
  obtain t' where "handler_compensate h (kind_of_benefit b) c ctx t = Inr ((), t')"
    and "negates s s1 t t'"
    using handler_negates [OF assms] by blast
  then show ?thesis by (auto simp: negates_def algebra_simps intro!: exI [of _ t'])
qed

text \<open>An empty database, and one customer of business 1 who holds 250 points.\<close>

definition empty_db :: reward_db where
  "empty_db = \<lparr>wallets = [], ledger = [], awards = [], award_benefits = [], cap_counters = [],
     entitlements = [], rules = [], rule_benefits = [], rule_conditions = [], programs = [],
     enterprises = [], customers = [], audit_logs = [], clock = 0, entropy = 0\<rparr>"

definition demo_host :: host where
  "demo_host = \<lparr>tz_offset = (\<lambda>z t. 0), lower = id, upper = id, trim = id,
     currencies = (\<lambda>c. c = ''INR''), uuid = (\<lambda>n. show_nat n),
     bytes = (\<lambda>n. replicate 10 (n mod 256))\<rparr>"

definition demo_context :: "int \<Rightarrow> benefit_context" where
  "demo_context award = \<lparr>bc_enterprise = 1, bc_customer = 5, bc_award = award, bc_rule = 3,
     bc_rule_version = 1, bc_occurred = 1000, bc_key = benefit_idempotency_key award 0,
     bc_default_currency = None\<rparr>"

definition points_db :: reward_db where
  "points_db = (case handler_apply demo_host (BGrantPoints 250) (demo_context 1) empty_db of
     Inl _ \<Rightarrow> empty_db | Inr (_, s) \<Rightarrow> s)"

definition converted_db :: reward_db where
  "converted_db = (case handler_apply demo_host (BConvertValue 100 30 (Some ''INR'')) (demo_context 2) points_db of
     Inl _ \<Rightarrow> points_db | Inr (_, s) \<Rightarrow> s)"

lemma demo_conversion:
  "handler_apply demo_host (BConvertValue 100 30 (Some ''INR'')) (demo_context 2) points_db
     = Inr ((PaidConversion 2 200 60 ''INR'', UndoConversion ''0'' 1 2 200 60 2 3), converted_db)"
  by code_simp

lemma empty_engine_ok: "engine_ok empty_db"
  by (simp add: engine_ok_def books_ok_def books_def records_ok_def awards_ok_def counters_ok_def
      benefits_ok_def entitlements_ok_def empty_db_def)

lemma points_db_run:
  "handler_apply demo_host (BGrantPoints 250) (demo_context 1) empty_db
     = Inr ((PaidPoints 250, UndoPoints 1 1 250), points_db)"
  by code_simp

lemma points_db_books: "books_ok points_db"
  using tripleD [OF keeps_handler_apply [OF engine_inv.payout_invariant_axioms] empty_engine_ok points_db_run]
  by (simp add: engine_ok_def)

theorem compensation_negates_witness:
  "\<exists>t'. handler_compensate demo_host ConvertValue (UndoConversion ''0'' 1 2 200 60 2 3)
       (demo_context 2) converted_db = Inr ((), t')
    \<and> (\<forall>ent wid. sumEntries t' ent wid - sumEntries converted_db ent wid
          = sumEntries points_db ent wid - sumEntries converted_db ent wid)"
proof -
  have "untouched (demo_context 2) points_db" by code_simp
  moreover have "ready (demo_context 2) (UndoConversion ''0'' 1 2 200 60 2 3) converted_db" by code_simp
  ultimately show ?thesis
    using compensation_negates [OF _ demo_conversion, of converted_db] by simp
qed

text \<open>A conversion burns whole multiples only and never overdraws: it converts as many times as the
  ledger sum of the points wallet affords, between 1 and 100 times, takes exactly that many times
  the burn from the points wallet, leaves it non-negative (and below one more conversion unless
  the bound of 100 was reached), and puts exactly that many times the grant into a different
  wallet, the currency wallet.\<close>

theorem conversion_exact:
  assumes "books_ok s" and "untouched ctx s" and "0 < b" and "0 < g"
    and "ConvertValueBenefit_apply h b g cur ctx s = Inr ((pay, c), s1)"
  shows "\<exists>n grp pw cw out inn. c = UndoConversion grp pw cw (n * b) (n * g) out inn
    \<and> 1 \<le> n \<and> n \<le> 100 \<and> pw \<noteq> cw
    \<and> sumEntries s1 (bc_enterprise ctx) pw = sumEntries s (bc_enterprise ctx) pw - n * b
    \<and> 0 \<le> sumEntries s1 (bc_enterprise ctx) pw
    \<and> (n = 100 \<or> sumEntries s1 (bc_enterprise ctx) pw < b)
    \<and> sumEntries s1 (bc_enterprise ctx) cw = sumEntries s (bc_enterprise ctx) cw + n * g"
proof -
  obtain n grp pw cw out inn where c: "c = UndoConversion grp pw cw (n * b) (n * g) out inn"
    and ne: "pw \<noteq> cw" and n: "1 \<le> n" "n = conversions (sumEntries s (bc_enterprise ctx) pw) b"
    by (rule conversion_facts [OF assms])
  note sums = sums_conversion [OF assms(2,5) c, of "bc_enterprise ctx"]
  note bounds = conversions_bounds [OF assms(3) n(1) [unfolded n(2)], folded n(2)]
  have "n = 100 \<or> sumEntries s (bc_enterprise ctx) pw - n * b < b"
    using bounds(1,3) by (cases "n < 100") simp_all
  with bounds(1,2) have "n \<le> 100" "n * b \<le> sumEntries s (bc_enterprise ctx) pw"
    "n = 100 \<or> sumEntries s (bc_enterprise ctx) pw - n * b < b"
    by blast+
  then show ?thesis using c ne n(1) sums [of pw] sums [of cw] by auto
qed

theorem conversion_exact_witness:
  "\<exists>n grp pw cw out inn. UndoConversion ''0'' 1 2 200 60 2 3
      = UndoConversion grp pw cw (n * 100) (n * 30) out inn
    \<and> 1 \<le> n \<and> n \<le> 100 \<and> pw \<noteq> cw
    \<and> sumEntries converted_db 1 pw = sumEntries points_db 1 pw - n * 100
    \<and> 0 \<le> sumEntries converted_db 1 pw
    \<and> (n = 100 \<or> sumEntries converted_db 1 pw < 100)
    \<and> sumEntries converted_db 1 cw = sumEntries points_db 1 cw + n * 30"
proof -
  have "untouched (demo_context 2) points_db" by code_simp
  then show ?thesis
    using conversion_exact [OF points_db_books, of "demo_context 2" 100 30 demo_host "Some ''INR''"]
      demo_conversion by (simp add: demo_context_def)
qed

text \<open>A conversion raises the lifetime-earned figure of the currency wallet by what it credits. The
  repository's comment on \<open>lifetime_earned\<close> says the credit leg of a conversion must not, because
  no new value was earned; the handler posts that leg through \<open>credit\<close>.\<close>

theorem conversion_raises_lifetime:
  assumes "books_ok s" and "untouched ctx s" and "0 < b" and "0 < g"
    and "ConvertValueBenefit_apply h b g cur ctx s = Inr ((pay, c), s1)"
  shows "\<exists>n grp pw cw out inn. c = UndoConversion grp pw cw (n * b) (n * g) out inn \<and> 1 \<le> n
    \<and> lifetime s1 (bc_enterprise ctx) cw = lifetime s (bc_enterprise ctx) cw + n * g"
  by (rule conversion_facts [OF assms]) blast

theorem conversion_raises_lifetime_witness:
  "\<exists>n grp pw cw out inn. UndoConversion ''0'' 1 2 200 60 2 3
      = UndoConversion grp pw cw (n * 100) (n * 30) out inn \<and> 1 \<le> n
    \<and> lifetime converted_db 1 cw = lifetime points_db 1 cw + n * 30"
proof -
  have "untouched (demo_context 2) points_db" by code_simp
  then show ?thesis
    using conversion_raises_lifetime [OF points_db_books, of "demo_context 2" 100 30 demo_host "Some ''INR''"]
      demo_conversion by (simp add: demo_context_def)
qed

end
