(* ===== verification/Reward_Period.thy ===== *)
theory Reward_Period
  imports Calendar
begin

text \<open>
  Which cap slot an event falls into: \<open>modules/rewards/period-key.util.ts\<close>. The key is text;
  the theorem at the end says that two instants share it exactly when they lie in the same
  calendar period of the zone, so a cap neither resets early nor spans two periods.
\<close>

definition pad :: "int \<Rightarrow> string" where
  "pad value = padStart2 (show_int value)"

definition thursday :: "int \<Rightarrow> int" where
  "thursday n = n + 4 - isoDayOfWeek n"

text \<open>\<open>Math.round(days / 7)\<close>.\<close>

definition round_weeks :: "int \<Rightarrow> int" where
  "round_weeks x = (2 * x + 7) div 14"

definition isoWeekKey :: "int \<Rightarrow> int \<Rightarrow> int \<Rightarrow> string" where
  "isoWeekKey year month day =
     (let date = thursday (makeDay year month day);
          weekYear = yearFromDay date;
          firstThursday = thursday (makeDay weekYear 1 4);
          week = 1 + round_weeks (date - firstThursday)
      in show_int weekYear @ ''-W'' @ pad week)"

definition derivePeriodKey :: "host \<Rightarrow> int \<Rightarrow> string \<Rightarrow> RewardCapScope \<Rightarrow> string option" where
  "derivePeriodKey h at timezone scope =
     (if scope = NoCap then None
      else if scope = Lifetime then Some ''LIFETIME''
      else case localYmd h at timezone of (year, month, day) \<Rightarrow>
        (case scope of
           Day \<Rightarrow> Some (show_int year @ ''-'' @ pad month @ ''-'' @ pad day)
         | Week \<Rightarrow> Some (isoWeekKey year month day)
         | Month \<Rightarrow> Some (show_int year @ ''-'' @ pad month)
         | Year \<Rightarrow> Some (show_int year)
         | _ \<Rightarrow> None))"

text \<open>The reference: the calendar periods themselves. ISO weeks start on Monday, and day
  \<open>-3\<close> (1969-12-29) was one.\<close>

definition same_period :: "host \<Rightarrow> string \<Rightarrow> RewardCapScope \<Rightarrow> int \<Rightarrow> int \<Rightarrow> bool" where
  "same_period h zone scope a b =
     (case scope of
        Lifetime \<Rightarrow> True
      | Day \<Rightarrow> local_day h zone a = local_day h zone b
      | Week \<Rightarrow> (local_day h zone a + 3) div 7 = (local_day h zone b + 3) div 7
      | Month \<Rightarrow> fst (localYmd h a zone) = fst (localYmd h b zone)
                 \<and> fst (snd (localYmd h a zone)) = fst (snd (localYmd h b zone))
      | Year \<Rightarrow> fst (localYmd h a zone) = fst (localYmd h b zone)
      | NoCap \<Rightarrow> True)"

lemma thursday_eq: "thursday n = 7 * ((n + 3) div 7)"
  unfolding thursday_def isoDayOfWeek_def by presburger

lemma thursday_range: "thursday n - 3 \<le> n" "n \<le> thursday n + 3"
  unfolding thursday_eq by presburger+

lemma round_weeks_mult: "round_weeks (7 * k) = k"
  unfolding round_weeks_def by simp

lemma makeDay_jan4: "makeDay y 1 4 = dayFromYear y + 3"
  by (simp add: makeDay_def month_starts_def)

text \<open>The week number of a Thursday lies in 1 to 53: the first Thursday of the ISO year is one
  of its first seven days.\<close>

lemma iso_week_range:
  assumes "wy = yearFromDay (thursday n)"
    and "w = 1 + round_weeks (thursday n - thursday (makeDay wy 1 4))"
  shows "1 \<le> w" "w \<le> 53" "thursday n = thursday (makeDay wy 1 4) + 7 * (w - 1)"
proof -
  let ?j = "dayFromYear wy"
  let ?f = "(?j + 6) div 7" and ?t = "(n + 3) div 7"
  have t: "thursday n = 7 * ?t" by (rule thursday_eq)
  have f: "thursday (makeDay wy 1 4) = 7 * ?f" by (simp add: thursday_eq makeDay_jan4)
  have w: "w = 1 + (?t - ?f)"
    using assms(2) round_weeks_mult [of "?t - ?f"] by (simp add: t f right_diff_distrib)
  have "?j \<le> 7 * ?t" "7 * ?t < ?j + 366"
    using yearFromDay_bounds [of "thursday n"] assms(1)
    by (auto simp: t dayFromYear_Suc split: if_splits)
  moreover have "?j \<le> 7 * ?f" "7 * ?f \<le> ?j + 6"
    by presburger+
  ultimately show "1 \<le> w" "w \<le> 53" unfolding w by linarith+
  show "thursday n = thursday (makeDay wy 1 4) + 7 * (w - 1)" unfolding w t f by simp
qed

lemma isoWeekKey_eq_iff:
  "isoWeekKey y m d = isoWeekKey y' m' d' \<longleftrightarrow>
     (makeDay y m d + 3) div 7 = (makeDay y' m' d' + 3) div 7"
proof -
  let ?n = "makeDay y m d" and ?n' = "makeDay y' m' d'"
  define wy w where "wy = yearFromDay (thursday ?n)"
    and "w = 1 + round_weeks (thursday ?n - thursday (makeDay wy 1 4))"
  define wy' w' where "wy' = yearFromDay (thursday ?n')"
    and "w' = 1 + round_weeks (thursday ?n' - thursday (makeDay wy' 1 4))"
  note r = iso_week_range [OF wy_def w_def] and r' = iso_week_range [OF wy'_def w'_def]
  have keys: "isoWeekKey y m d = (show_int wy @ ''-'') @ CHR ''W'' # pad w"
    "isoWeekKey y' m' d' = (show_int wy' @ ''-'') @ CHR ''W'' # pad w'"
    by (simp_all add: isoWeekKey_def Let_def wy_def w_def wy'_def w'_def)
  have W: "CHR ''W'' \<notin> set (pad i)" if "0 \<le> i" for i
    using that show_nat_digits [of "CHR ''W''"] by (auto simp: pad_def padStart2_def show_int_def)
  have "isoWeekKey y m d = isoWeekKey y' m' d' \<longleftrightarrow> wy = wy' \<and> w = w'"
    unfolding keys append_sep_inject_right [OF W W, of w w', OF order_trans [OF zero_le_one r(1)]
        order_trans [OF zero_le_one r'(1)]]
    using r(1) r'(1) by (simp add: pad_def padStart2_inject)
  also have "\<dots> \<longleftrightarrow> thursday ?n = thursday ?n'"
    using r(3) r'(3) unfolding wy_def w_def wy'_def w'_def by auto
  finally show ?thesis by (simp add: thursday_eq)
qed

lemma month_key_eq_iff:
  assumes "1 \<le> m" and "1 \<le> m'"
  shows "x @ ''-'' @ pad m = x' @ ''-'' @ pad m' \<longleftrightarrow> x = x' \<and> m = m'"
  using assms
  by (simp add: pad_def append_sep_inject_right minus_notin_padStart2 padStart2_inject)

lemma day_key_eq_iff:
  assumes "1 \<le> m" and "1 \<le> m'" and "1 \<le> d" and "1 \<le> d'"
  shows "show_int y @ ''-'' @ pad m @ ''-'' @ pad d = show_int y' @ ''-'' @ pad m' @ ''-'' @ pad d'
    \<longleftrightarrow> y = y' \<and> m = m' \<and> d = d'"
  using month_key_eq_iff [OF assms(3,4), of "show_int y @ ''-'' @ pad m" "show_int y' @ ''-'' @ pad m'"]
    month_key_eq_iff [OF assms(1,2), of "show_int y" "show_int y'"] by auto

text \<open>
  C23: A cap slot is a calendar period of the business. For every scope with a cap, two instants
  get the same period key exactly when the zone's calendar puts them in the same day, the same
  Monday-based ISO week (the year of the key is the ISO week-year, so the weeks around a new year
  are kept apart), the same month, the same year, or, for a lifetime cap, always.
\<close>

theorem period_key_iff_same_period:
  assumes "scope \<noteq> NoCap"
  shows "derivePeriodKey h a zone scope = derivePeriodKey h b zone scope
    \<longleftrightarrow> same_period h zone scope a b"
proof -
  obtain y m d where a: "localYmd h a zone = (y, m, d)" by (metis prod_cases3)
  obtain y' m' d' where b: "localYmd h b zone = (y', m', d')" by (metis prod_cases3)
  note ra = dayOfMonth_range [OF a [unfolded localYmd_def]]
    and rb = dayOfMonth_range [OF b [unfolded localYmd_def]]
  have day: "local_day h zone a = local_day h zone b \<longleftrightarrow> y = y' \<and> m = m' \<and> d = d'"
    using a b ra(6) rb(6) by (auto simp: localYmd_def)
  show ?thesis
    using assms ra rb day
    by (cases scope)
      (simp_all add: derivePeriodKey_def same_period_def a b isoWeekKey_eq_iff
        day_key_eq_iff month_key_eq_iff del: append.simps)
qed

text \<open>Two instants of 2025-12-29 and 2026-01-02 in a zone two hours ahead of UTC: one ISO week,
  two calendar years.\<close>

definition example_host :: host where
  "example_host = \<lparr>tz_offset = (\<lambda>z t. if z = ''Europe/Athens'' then 7200000 else 0), lower = id,
     upper = id, trim = id, currencies = (\<lambda>c. c = ''INR''), uuid = (\<lambda>n. show_nat n),
     bytes = (\<lambda>n. replicate 10 (n mod 32))\<rparr>"

theorem period_key_iff_same_period_witness:
  "derivePeriodKey example_host 1766959200000 ''Europe/Athens'' Week
     = derivePeriodKey example_host 1767391200000 ''Europe/Athens'' Week
   \<and> same_period example_host ''Europe/Athens'' Week 1766959200000 1767391200000
   \<and> derivePeriodKey example_host 1766959200000 ''Europe/Athens'' Week = Some ''2026-W01''"
proof -
  have "same_period example_host ''Europe/Athens'' Week 1766959200000 1767391200000"
    by (simp add: same_period_def local_day_def local_ms_def example_host_def MS_PER_DAY_def)
  moreover have "derivePeriodKey example_host 1766959200000 ''Europe/Athens'' Week = Some ''2026-W01''"
    by code_simp
  ultimately show ?thesis
    using period_key_iff_same_period [of Week example_host 1766959200000 "''Europe/Athens''" 1767391200000]
    by simp
qed

end
