(* ===== verification/Reward_Conditions.thy ===== *)
theory Reward_Conditions
  imports Reward_Contract Reward_Period
begin

text \<open>
  Whether an event qualifies: \<open>modules/rewards/conditions/*.ts\<close> and
  \<open>modules/rewards/trigger-match.util.ts\<close>. The three handlers share one contract, the locale
  \<open>condition_handler\<close>: what each needs from the context, and that it refuses without it.
\<close>

section \<open>Handlers\<close>

record condition_context =
  x_enterprise :: int
  x_customer :: int
  x_occurred :: int
  x_timezone :: "string option"
  x_content :: "string option"
  x_first_seen :: "int option"

text \<open>\<open>toMinutes\<close> splits at the colon; its argument has passed \<open>WallClockSchema\<close>.\<close>

definition toMinutes :: "string \<Rightarrow> int" where
  "toMinutes wallClock =
     (let hh = takeWhile (\<lambda>c. c \<noteq> CHR '':'') wallClock;
          mm = takeWhile (\<lambda>c. c \<noteq> CHR '':'') (tl (dropWhile (\<lambda>c. c \<noteq> CHR '':'') wallClock))
      in int (read_nat hh) * 60 + int (read_nat mm))"

definition LAST_MINUTE_OF_DAY :: int where
  "LAST_MINUTE_OF_DAY = 23 * 60 + 59"

definition END_OF_DAY :: int where
  "END_OF_DAY = 24 * 60"

definition endMinute :: "string \<Rightarrow> int" where
  "endMinute wallClock =
     (let e = toMinutes wallClock in if e = LAST_MINUTE_OF_DAY then END_OF_DAY else e)"

definition slot_matches :: "int \<Rightarrow> int \<Rightarrow> time_slot \<Rightarrow> bool" where
  "slot_matches isoDay minutes slot =
     (let start = toMinutes (slot_start slot); e = endMinute (slot_end slot)
      in if start \<le> e then isoDay \<in> set (slot_days slot) \<and> start \<le> minutes \<and> minutes < e
         else let previousDay = (if isoDay = 1 then 7 else isoDay - 1)
              in (isoDay \<in> set (slot_days slot) \<and> start \<le> minutes)
                 \<or> (previousDay \<in> set (slot_days slot) \<and> minutes < e))"

definition TimeWindowCondition_check :: "host \<Rightarrow> time_slot list \<Rightarrow> condition_context \<Rightarrow> bool" where
  "TimeWindowCondition_check h slots ctx =
     (case x_timezone ctx of
        None \<Rightarrow> False
      | Some zone \<Rightarrow>
          (case localParts h (x_occurred ctx) zone of (isoDay, minutes) \<Rightarrow>
             list_ex (slot_matches isoDay minutes) slots))"

definition CustomerTenureCondition_check :: "int \<Rightarrow> condition_context \<Rightarrow> bool" where
  "CustomerTenureCondition_check minDays ctx =
     (case x_first_seen ctx of
        None \<Rightarrow> False
      | Some seen \<Rightarrow> minDays * MS_PER_DAY \<le> x_occurred ctx - seen)"

definition text_includes :: "string \<Rightarrow> string \<Rightarrow> bool" where
  "text_includes haystack word \<longleftrightarrow> sublist word haystack"

definition ContentMatchCondition_check :: "host \<Rightarrow> string list \<Rightarrow> condition_context \<Rightarrow> bool" where
  "ContentMatchCondition_check h anyOfKeywords ctx =
     (case x_content ctx of
        None \<Rightarrow> False
      | Some content \<Rightarrow>
          if trim h content = '''' then False
          else list_ex (\<lambda>word. text_includes (lower h content) (lower h word)) anyOfKeywords)"

section \<open>The registry\<close>

fun handler_check :: "host \<Rightarrow> reward_condition \<Rightarrow> condition_context \<Rightarrow> bool" where
  "handler_check h (CTimeWindow slots) ctx = TimeWindowCondition_check h slots ctx"
| "handler_check h (CCustomerTenure n) ctx = CustomerTenureCondition_check n ctx"
| "handler_check h (CContentMatch ws) ctx = ContentMatchCondition_check h ws ctx"

definition checkOne :: "host \<Rightarrow> string \<Rightarrow> config \<Rightarrow> condition_context \<Rightarrow> bool" where
  "checkOne h kind cfg ctx =
     (case condition_kind_of kind of
        None \<Rightarrow> False
      | Some _ \<Rightarrow>
          (case RewardConditionConfigSchema h kind cfg of
             None \<Rightarrow> False
           | Some c \<Rightarrow> handler_check h c ctx))"

datatype condition_outcome = Passed | FailedBy string

fun evaluate :: "host \<Rightarrow> rule_condition list \<Rightarrow> condition_context \<Rightarrow> condition_outcome" where
  "evaluate h [] ctx = Passed"
| "evaluate h (stored # rest) ctx =
     (if \<not> checkOne h (rc_kind stored) (rc_config stored) ctx then FailedBy (rc_kind stored)
      else evaluate h rest ctx)"

section \<open>Trigger configs\<close>

definition matchesTriggerConfig :: "trigger_config \<Rightarrow> int option \<Rightarrow> int option \<Rightarrow> bool" where
  "matchesTriggerConfig cfg channelId pointsBalance =
     (if (case tc_channelIds cfg of
            None \<Rightarrow> False
          | Some ids \<Rightarrow> channelId = None \<or> the channelId \<notin> set ids) then False
      else case tc_minPointsBalance cfg of
             None \<Rightarrow> True
           | Some mn \<Rightarrow>
               (case pointsBalance of None \<Rightarrow> False | Some b \<Rightarrow> \<not> b < mn))"

section \<open>A wall clock that passed the schema\<close>

lemma is_digit_uptoD: "is_digit_upto d c \<Longrightarrow> d \<le> 9 \<Longrightarrow> digit_value c \<le> d \<and> c \<noteq> CHR '':''"
  by (auto simp: is_digit_upto_def digit_value_def)

lemma toMinutes_range:
  assumes "WallClockSchema s"
  shows "0 \<le> toMinutes s" "toMinutes s < 1440"
proof -
  from assms obtain a b c d e where s: "s = [a, b, c, d, e]"
    and v: "is_digit_upto 1 a \<and> is_digit_upto 9 b \<or> a = CHR ''2'' \<and> is_digit_upto 3 b"
      "c = CHR '':''" "is_digit_upto 5 d" "is_digit_upto 9 e"
    by (cases s rule: WallClockSchema.cases) auto
  have h: "a \<noteq> CHR '':''" "b \<noteq> CHR '':''" "10 * digit_value a + digit_value b \<le> 23"
    using v(1) by (auto dest!: is_digit_uptoD simp: digit_value_def)
  have m: "d \<noteq> CHR '':''" "e \<noteq> CHR '':''" "10 * digit_value d + digit_value e \<le> 59"
    using v(3,4) by (auto dest!: is_digit_uptoD)
  have "toMinutes s = int (10 * digit_value a + digit_value b) * 60
      + int (10 * digit_value d + digit_value e)"
    using h m v(2) by (simp add: toMinutes_def read_nat_def s)
  moreover have "int (10 * digit_value a + digit_value b) \<le> 23"
    "int (10 * digit_value d + digit_value e) \<le> 59"
    using h(3) m(3) by linarith+
  ultimately show "0 \<le> toMinutes s" and "toMinutes s < 1440" by simp_all
qed

lemma endMinute_range:
  assumes "WallClockSchema s"
  shows "0 \<le> endMinute s" "endMinute s \<le> 1440"
  using toMinutes_range [OF assms] by (auto simp: endMinute_def Let_def END_OF_DAY_def)

definition slot_valid :: "time_slot \<Rightarrow> bool" where
  "slot_valid s \<longleftrightarrow> WallClockSchema (slot_start s) \<and> WallClockSchema (slot_end s)
     \<and> (\<forall>d\<in>set (slot_days s). 1 \<le> d \<and> d \<le> 7)"

lemma all_parse_set: "all_parse f js = Some xs \<Longrightarrow> x \<in> set xs \<Longrightarrow> \<exists>j\<in>set js. f j = Some x"
  by (induction js arbitrary: xs) (auto split: option.splits)

lemma array_fieldD: "array_field f lo hi j = Some xs \<Longrightarrow> x \<in> set xs \<Longrightarrow> \<exists>v. f v = Some x"
  unfolding array_field_def by (auto split: option.splits json.splits if_splits dest: all_parse_set)

lemma bounded_fieldD: "bounded_field lo hi j = Some n \<Longrightarrow> lo \<le> n \<and> n \<le> hi"
  by (auto simp: bounded_field_def split: option.splits if_splits)

lemma wall_clock_fieldD: "wall_clock_field j = Some s \<Longrightarrow> WallClockSchema s"
  by (auto simp: wall_clock_field_def split: option.splits json.splits if_splits)

lemma parsed_slot_valid: "TimeSlotSchema j = Some s \<Longrightarrow> slot_valid s"
  unfolding TimeSlotSchema_def slot_valid_def
  by (auto split: json.splits if_splits option.splits
      dest!: wall_clock_fieldD dest: array_fieldD bounded_fieldD)

lemma parsed_slots_valid:
  "TimeWindowConfigSchema c = Some (CTimeWindow slots) \<Longrightarrow> s \<in> set slots \<Longrightarrow> slot_valid s"
  unfolding TimeWindowConfigSchema_def
  by (auto split: if_splits dest!: array_fieldD intro: parsed_slot_valid)

section \<open>Windows as intervals of the week\<close>

text \<open>
  The reference: the week has 10080 minutes from Monday 00:00. A slot on day \<open>d\<close> opens at
  \<open>(d - 1) * 1440 + start\<close> and stays open for its length, past midnight and past Sunday where
  it wraps.
\<close>

definition slot_length :: "time_slot \<Rightarrow> int" where
  "slot_length s =
     (let start = toMinutes (slot_start s); e = endMinute (slot_end s)
      in if start \<le> e then e - start else e + 1440 - start)"

definition in_weekly_window :: "int \<Rightarrow> time_slot \<Rightarrow> bool" where
  "in_weekly_window t s \<longleftrightarrow>
     (\<exists>d\<in>set (slot_days s). (t - ((d - 1) * 1440 + toMinutes (slot_start s))) mod 10080 < slot_length s)"

definition minute_of_week :: "host \<Rightarrow> string \<Rightarrow> int \<Rightarrow> int" where
  "minute_of_week h zone at =
     (isoDayOfWeek (local_day h zone at) - 1) * 1440 + local_minutes h zone at"

lemma mod_week:
  assumes "- 10080 \<le> x" and "x < 10080"
  shows "x mod 10080 = (if x < 0 then x + 10080 else (x :: int))"
  using assms by (auto simp: mod_pos_pos_trivial intro!: int_mod_pos_eq [where q = "-1"])

lemma day_window:
  assumes t: "1 \<le> i" "i \<le> 7" "0 \<le> m" "m < 1440" and d: "1 \<le> d" "d \<le> 7"
    and s: "0 \<le> s" "s < 1440" "0 \<le> e" "e \<le> 1440"
  shows "((i - 1) * 1440 + m - ((d - 1) * 1440 + s)) mod 10080 < (if s \<le> e then e - s else e + 1440 - s)
    \<longleftrightarrow> (if s \<le> e then d = i \<and> s \<le> m \<and> m < e
         else d = i \<and> s \<le> m \<or> d = (if i = 1 then 7 else i - 1) \<and> m < (e :: int))"
proof -
  define x where "x = (i - 1) * 1440 + m - ((d - 1) * 1440 + s)"
  have x: "x = 1440 * (i - d) + (m - s)" by (simp add: x_def algebra_simps)
  have r: "- 10080 \<le> x" "x < 10080" using t d s by (simp_all add: x)
  consider (same) "d = i" | (before) "d = i - 1" | (wrap) "i = 1" "d = 7"
    | (other) "d \<noteq> i" "d \<noteq> i - 1" "\<not> (i = 1 \<and> d = 7)" by blast
  then show ?thesis
  proof cases
    case same
    then have "x = m - s" by (simp add: x)
    then show ?thesis unfolding x_def [symmetric] mod_week [OF r] using same t s d by auto
  next
    case before
    then have "x = 1440 + m - s" by (simp add: x)
    then show ?thesis unfolding x_def [symmetric] mod_week [OF r] using before t s d by auto
  next
    case wrap
    then have "x = m - s - 8640" by (simp add: x)
    then show ?thesis unfolding x_def [symmetric] mod_week [OF r] using wrap t s d by auto
  next
    case other
    then have "2 \<le> i - d \<or> (-5 \<le> i - d \<and> i - d \<le> -1)" using t d by linarith
    then have "1440 < x \<or> (- 8640 < x \<and> x < 0)" using t s by (auto simp: x)
    then show ?thesis unfolding x_def [symmetric] mod_week [OF r] using other t s d by auto
  qed
qed

lemma slot_matches_iff:
  assumes "slot_valid s" and "1 \<le> i" "i \<le> 7" "0 \<le> m" "m < 1440"
  shows "slot_matches i m s \<longleftrightarrow> in_weekly_window ((i - 1) * 1440 + m) s"
proof -
  have st: "0 \<le> toMinutes (slot_start s)" "toMinutes (slot_start s) < 1440"
    and en: "0 \<le> endMinute (slot_end s)" "endMinute (slot_end s) \<le> 1440"
    using assms(1) toMinutes_range endMinute_range by (auto simp: slot_valid_def)
  have "((i - 1) * 1440 + m - ((d - 1) * 1440 + toMinutes (slot_start s))) mod 10080 < slot_length s
    \<longleftrightarrow> (if toMinutes (slot_start s) \<le> endMinute (slot_end s)
         then d = i \<and> toMinutes (slot_start s) \<le> m \<and> m < endMinute (slot_end s)
         else d = i \<and> toMinutes (slot_start s) \<le> m
              \<or> d = (if i = 1 then 7 else i - 1) \<and> m < endMinute (slot_end s))"
    if "d \<in> set (slot_days s)" for d
    using day_window [OF assms(2-5) _ _ st en, of d] that assms(1)
    unfolding slot_length_def Let_def slot_valid_def by blast
  then show ?thesis
    unfolding in_weekly_window_def slot_matches_def Let_def by auto
qed

section \<open>Every handler fails closed\<close>

text \<open>
  A handler reads one part of the context, and without it refuses. The part determines the
  answer, so nothing else of the event can change it.
\<close>

locale condition_handler =
  fixes check :: "'c \<Rightarrow> condition_context \<Rightarrow> bool"
    and part :: "condition_context \<Rightarrow> 'p option"
  assumes fails_closed: "part ctx = None \<Longrightarrow> \<not> check c ctx"
    and determined: "part ctx = part ctx' \<Longrightarrow> check c ctx = check c ctx'"
begin

lemma passes_with_part: "check c ctx \<Longrightarrow> \<exists>p. part ctx = Some p"
  using fails_closed by (cases "part ctx") auto

lemma same_answer: "part ctx = part ctx' \<Longrightarrow> {c. check c ctx} = {c. check c ctx'}"
  using determined by blast

end

interpretation time_window: condition_handler "TimeWindowCondition_check h"
  "\<lambda>ctx. map_option (\<lambda>z. (z, x_occurred ctx)) (x_timezone ctx)"
  by unfold_locales (auto simp: TimeWindowCondition_check_def split: option.splits)

interpretation customer_tenure: condition_handler CustomerTenureCondition_check
  "\<lambda>ctx. map_option (\<lambda>seen. x_occurred ctx - seen) (x_first_seen ctx)"
  by unfold_locales (auto simp: CustomerTenureCondition_check_def split: option.splits)

interpretation content_match: condition_handler "ContentMatchCondition_check h" x_content
  by unfold_locales (auto simp: ContentMatchCondition_check_def split: option.splits)

section \<open>Properties\<close>

definition passes :: "host \<Rightarrow> condition_context \<Rightarrow> rule_condition \<Rightarrow> bool" where
  "passes h ctx c \<longleftrightarrow> (case RewardConditionConfigSchema h (rc_kind c) (rc_config c) of
     None \<Rightarrow> False | Some cond \<Rightarrow> handler_check h cond ctx)"

lemma checkOne_passes: "checkOne h (rc_kind c) (rc_config c) ctx = passes h ctx c"
  by (auto simp: checkOne_def passes_def RewardConditionConfigSchema_def split: option.splits)

lemma evaluate_stops:
  "list_all (passes h ctx) before \<Longrightarrow> \<not> passes h ctx c \<Longrightarrow>
   evaluate h (before @ c # after) ctx = FailedBy (rc_kind c)"
  by (induction before) (simp_all add: checkOne_passes)

lemma evaluate_FailedBy:
  "evaluate h cs ctx = FailedBy k \<Longrightarrow>
     \<exists>before c after. cs = before @ c # after \<and> list_all (passes h ctx) before
        \<and> \<not> passes h ctx c \<and> k = rc_kind c"
proof (induction cs)
  case (Cons c cs)
  show ?case
  proof (cases "passes h ctx c")
    case True
    with Cons obtain before d after where "cs = before @ d # after"
      "list_all (passes h ctx) before" "\<not> passes h ctx d" "k = rc_kind d"
      by (auto simp: checkOne_passes)
    with True show ?thesis by (metis append_Cons list.pred_inject(2))
  next
    case False
    with Cons.prems show ?thesis by (intro exI [of _ "[]"]) (simp add: checkOne_passes)
  qed
qed simp

lemma evaluate_first_failure:
  "evaluate h cs ctx = FailedBy k \<longleftrightarrow>
     (\<exists>before c after. cs = before @ c # after \<and> list_all (passes h ctx) before
        \<and> \<not> passes h ctx c \<and> k = rc_kind c)"
  using evaluate_FailedBy evaluate_stops by blast

lemma evaluate_Passed: "evaluate h cs ctx = Passed \<longleftrightarrow> list_all (passes h ctx) cs"
  by (induction cs) (simp_all add: checkOne_passes)

lemma passes_needs_context:
  assumes "passes h ctx c"
  shows "case condition_kind_of (rc_kind c) of
      None \<Rightarrow> False
    | Some TimeWindow \<Rightarrow> x_timezone ctx \<noteq> None
    | Some CustomerTenure \<Rightarrow> x_first_seen ctx \<noteq> None
    | Some ContentMatch \<Rightarrow> x_content ctx \<noteq> None"
  using assms time_window.passes_with_part [of h _ ctx] customer_tenure.passes_with_part [of _ ctx]
    content_match.passes_with_part [of h _ ctx]
  unfolding passes_def RewardConditionConfigSchema_def TimeWindowConfigSchema_def
    CustomerTenureConfigSchema_def ContentMatchConfigSchema_def
  by (fastforce split: option.splits RewardConditionKind.splits if_splits)

text \<open>The conditions of a rule are a conjunction evaluated in order: \<open>evaluate\<close> passes exactly when
  every stored condition has a known kind, a config that parses and a handler that accepts the
  event, and otherwise it names the first condition that fails. A condition passes only when the
  context carries what its handler needs (a time zone, a first-seen date, a text).\<close>

theorem evaluate_conjunction:
  "(evaluate h cs ctx = Passed \<longleftrightarrow> list_all (passes h ctx) cs)
   \<and> (evaluate h cs ctx = FailedBy k \<longleftrightarrow>
        (\<exists>before c after. cs = before @ c # after \<and> list_all (passes h ctx) before
           \<and> \<not> passes h ctx c \<and> k = rc_kind c))
   \<and> list_all (\<lambda>c. if passes h ctx c
        then (case condition_kind_of (rc_kind c) of
                None \<Rightarrow> False
              | Some TimeWindow \<Rightarrow> x_timezone ctx \<noteq> None
              | Some CustomerTenure \<Rightarrow> x_first_seen ctx \<noteq> None
              | Some ContentMatch \<Rightarrow> x_content ctx \<noteq> None)
        else True) cs"
  using evaluate_Passed evaluate_first_failure passes_needs_context by (auto simp: list_all_iff)

text \<open>C24: A time-window condition accepts an instant exactly when some slot of the stored config, read
  as an interval of the 10080-minute week that may run past midnight and past Sunday, contains
  the instant's minute of the week on the wall clock of the business. The day and wrap-around
  tests of the code are equivalent to that one interval.\<close>

theorem time_window_is_weekly_interval:
  assumes "RewardConditionConfigSchema h ''time_window'' cfg = Some (CTimeWindow slots)"
    and "x_timezone ctx = Some zone"
  shows "checkOne h ''time_window'' cfg ctx \<longleftrightarrow>
    list_ex (in_weekly_window (minute_of_week h zone (x_occurred ctx))) slots"
proof -
  have kind: "condition_kind_of ''time_window'' = Some TimeWindow"
    using condition_kind_of_text [of TimeWindow] by simp
  have "slot_matches (isoDayOfWeek (local_day h zone (x_occurred ctx)))
      (local_minutes h zone (x_occurred ctx)) s
    \<longleftrightarrow> in_weekly_window (minute_of_week h zone (x_occurred ctx)) s" if "s \<in> set slots" for s
    unfolding minute_of_week_def using assms(1) that
    by (intro slot_matches_iff isoDayOfWeek_range local_minutes_range)
      (auto simp: RewardConditionConfigSchema_def kind intro: parsed_slots_valid)
  then show ?thesis
    using assms by (auto simp: checkOne_def kind TimeWindowCondition_check_def localParts_def list_ex_iff)
qed

text \<open>Friday 22:00 to 02:00, on Saturday 00:30 of the wall clock.\<close>

definition friday_night :: config where
  "friday_night = [(''slots'', JArr [JObj [(''days'', JArr [JNum 5]), (''start'', JStr ''22:00''),
     (''end'', JStr ''02:00'')]])]"

definition saturday_context :: condition_context where
  "saturday_context = \<lparr>x_enterprise = 1, x_customer = 1, x_occurred = 2 * 86400000 + 30 * 60000,
     x_timezone = Some ''UTC'', x_content = None, x_first_seen = None\<rparr>"

theorem time_window_is_weekly_interval_witness:
  "checkOne example_host ''time_window'' friday_night saturday_context \<longleftrightarrow>
    list_ex (in_weekly_window (minute_of_week example_host ''UTC'' (x_occurred saturday_context)))
      [\<lparr>slot_days = [5], slot_start = ''22:00'', slot_end = ''02:00''\<rparr>]"
  by (rule time_window_is_weekly_interval) code_simp+

end
