(* ===== verification/Reward_Evaluator.thy ===== *)
theory Reward_Evaluator
  imports Rounding Reward_Benefits Reward_Conditions
begin

text \<open>
  Deciding what an event earns: \<open>modules/rewards/rule-evaluator.service.ts\<close> and
  \<open>modules/rewards/factor.provider.ts\<close>. \<open>evaluateRule\<close> is one transaction for one rule;
  \<open>onTriggerEvent\<close> runs it for every matching rule with the failures of each contained, and
  offers a raised points balance to the threshold rules, which is the only recursion.

  \<open>onTriggerEvent_fuel\<close> bounds that recursion by a number; running out is the error \<open>Diverged\<close>,
  which no handler catches. Two levels are enough for every event (proved below), so
  \<open>onTriggerEvent\<close> is the function at bound 2.
\<close>

section \<open>The factor\<close>

text \<open>What a provider returns: a finite number, an infinite or undefined one, or an exception. The
  multiplication by 10000 is exact here; the one provider there is returns 1.\<close>

datatype raw_factor = FiniteFactor rat | NonFinite | Threw

definition ConstantOneFactorProvider_factor :: raw_factor where
  "ConstantOneFactorProvider_factor = FiniteFactor 1"

definition FactorEvaluator_resolve :: "string \<Rightarrow> raw_factor option" where
  "FactorEvaluator_resolve code =
     (if code = CONSTANT_ONE_FACTOR_PROVIDER then Some ConstantOneFactorProvider_factor else None)"

definition safe_basis_points :: "raw_factor \<Rightarrow> int" where
  "safe_basis_points raw = (case raw of
     NonFinite \<Rightarrow> 0
   | Threw \<Rightarrow> 0
   | FiniteFactor r \<Rightarrow>
       let clamped = min (max r 0) 1
       in math_round (clamped * of_int FACTOR_BASIS_POINTS_MAX))"

definition FactorEvaluator_evaluate :: "string \<Rightarrow> int" where
  "FactorEvaluator_evaluate providerCode = (case FactorEvaluator_resolve providerCode of
     None \<Rightarrow> 0 | Some raw \<Rightarrow> safe_basis_points raw)"

definition scaleByFactor :: "int \<Rightarrow> int \<Rightarrow> int" where
  "scaleByFactor cap basisPoints =
     (cap * basisPoints + FACTOR_BASIS_POINTS_MAX div 2) div FACTOR_BASIS_POINTS_MAX"

section \<open>Stored benefits\<close>

primrec setField :: "string \<Rightarrow> json \<Rightarrow> config \<Rightarrow> config" where
  "setField k v [] = [(k, v)]"
| "setField k v (f # c) = (if fst f = k then (k, v) # c else f # setField k v c)"

definition takes_currency :: "string \<Rightarrow> bool" where
  "takes_currency kind \<longleftrightarrow> (case benefit_kind_of kind of
     None \<Rightarrow> False | Some k \<Rightarrow> k \<in> CURRENCY_BEARING_BENEFITS)"

definition with_currency :: "string \<Rightarrow> string option \<Rightarrow> config \<Rightarrow> config" where
  "with_currency kind defaultCurrencyCode c =
     (case defaultCurrencyCode of
        None \<Rightarrow> c
      | Some cur \<Rightarrow>
          if map_of c ''currencyCode'' = None \<and> takes_currency kind
          then setField ''currencyCode'' (JStr cur) c else c)"

definition resolveConfig :: "rule_benefit \<Rightarrow> int option \<Rightarrow> string option \<Rightarrow> config" where
  "resolveConfig stored basisPoints defaultCurrencyCode =
     (let c = with_currency (rb_kind stored) defaultCurrencyCode (rb_config stored)
      in case (rb_mode stored, basisPoints, rb_cap stored) of
           (UpTo, Some bp, Some cap) \<Rightarrow>
             let scaled = scaleByFactor cap bp
             in if map_of c ''points'' \<noteq> None then setField ''points'' (JNum scaled) c
                else if map_of c ''minorUnits'' \<noteq> None then setField ''minorUnits'' (JNum scaled) c
                else c
         | _ \<Rightarrow> c)"

definition scalesToNothing :: "rule_benefit \<Rightarrow> int option \<Rightarrow> bool" where
  "scalesToNothing stored basisPoints =
     (if rb_mode stored \<noteq> UpTo then False
      else case (basisPoints, rb_cap stored) of
             (Some bp, Some cap) \<Rightarrow> scaleByFactor cap bp < 1
           | _ \<Rightarrow> False)"

section \<open>Granting\<close>

definition applyStored ::
    "host \<Rightarrow> int \<Rightarrow> int \<Rightarrow> int \<Rightarrow> reward_rule \<Rightarrow> string option \<Rightarrow> int \<Rightarrow> int option \<Rightarrow> rule_benefit
      \<Rightarrow> unit reward_act" where
  "applyStored h ent awardId cust rule defaultCurrencyCode occurred basisPoints stored =
     (case RewardBenefitConfigSchema h (rb_kind stored)
             (resolveConfig stored basisPoints defaultCurrencyCode) of
        None \<Rightarrow> throw (BenefitSchemaMismatch (rb_kind stored))
      | Some parsed \<Rightarrow>
          BenefitDispatcher_apply h parsed
            \<lparr>dc_enterprise = ent, dc_customer = cust, dc_award = awardId, dc_rule = r_id rule,
             dc_rule_version = r_version rule, dc_occurred = occurred, dc_index = rb_index stored,
             dc_default_currency = defaultCurrencyCode\<rparr>)"

definition grant_factor :: "reward_rule \<Rightarrow> rule_benefit list \<Rightarrow> int option" where
  "grant_factor rule benefits =
     (if list_ex (\<lambda>b. rb_mode b = UpTo) benefits
      then Some (FactorEvaluator_evaluate (r_factor_provider rule)) else None)"

definition worthless :: "rule_benefit list \<Rightarrow> int option \<Rightarrow> bool" where
  "worthless benefits basisPoints \<longleftrightarrow>
     list_ex (\<lambda>b. rb_mode b = UpTo) benefits
     \<and> (basisPoints = Some 0 \<or> list_ex (\<lambda>b. scalesToNothing b basisPoints) benefits)"

definition grant ::
    "host \<Rightarrow> int \<Rightarrow> int \<Rightarrow> int \<Rightarrow> reward_rule \<Rightarrow> string option \<Rightarrow> string option \<Rightarrow> int
      \<Rightarrow> rule_benefit list \<Rightarrow> bool reward_act" where
  "grant h ent awardId cust rule defaultCurrencyCode periodKey occurred benefits =
     (let needsFactor = list_ex (\<lambda>b. rb_mode b = UpTo) benefits;
          basisPoints = grant_factor rule benefits
      in if worthless benefits basisPoints
         then
           andThen (case periodKey of
               None \<Rightarrow> ret ()
             | Some key \<Rightarrow> if key = '''' then ret () else releaseCapSlot ent (r_id rule) cust key)
           (andThen (markSkipped ent awardId SkippedZeroFactor
               (if basisPoints = Some 0 then ''factor_zero'' else ''factor_scaled_to_zero'') periodKey)
           (ret False))
         else
           andThen (each (applyStored h ent awardId cust rule defaultCurrencyCode occurred basisPoints) benefits)
           (andThen (markGranted ent awardId basisPoints
               (if needsFactor then Some (r_factor_provider rule) else None) periodKey)
           (andThen (audit_record ent AuditGranted awardId)
           (ret (list_ex (\<lambda>b. rb_kind b = benefit_kind_text GrantPoints) benefits)))))"

section \<open>One rule against one event\<close>

record trigger_event =
  ev_enterprise :: int
  ev_customer :: int
  ev_trigger :: RewardTriggerKind
  ev_source_kind :: string
  ev_source :: int
  ev_channel :: "int option"
  ev_occurred :: int
  ev_content :: "string option"
  ev_first_seen :: "int option"
  ev_balance :: "int option"

definition MS_PER_HOUR :: int where
  "MS_PER_HOUR = 60 * 60 * 1000"

definition firstSeen :: "reward_db \<Rightarrow> trigger_event \<Rightarrow> rule_condition list \<Rightarrow> int option" where
  "firstSeen db ev conditions =
     (case ev_first_seen ev of
        Some t \<Rightarrow> Some t
      | None \<Rightarrow>
          if list_ex (\<lambda>c. rc_kind c = condition_kind_text CustomerTenure) conditions
          then findFirstSeenAt db (ev_enterprise ev) (ev_customer ev) else None)"

definition condition_ctx :: "trigger_event \<Rightarrow> program_row \<Rightarrow> int option \<Rightarrow> condition_context" where
  "condition_ctx ev program seen =
     \<lparr>x_enterprise = ev_enterprise ev, x_customer = ev_customer ev, x_occurred = ev_occurred ev,
      x_timezone = pr_timezone program, x_content = ev_content ev, x_first_seen = seen\<rparr>"

definition hold_until :: "reward_rule \<Rightarrow> trigger_event \<Rightarrow> int option" where
  "hold_until rule ev =
     (if 0 < r_hold_hours rule then Some (ev_occurred ev + r_hold_hours rule * MS_PER_HOUR) else None)"

definition award_input ::
    "reward_rule \<Rightarrow> trigger_event \<Rightarrow> program_row \<Rightarrow> bool \<Rightarrow> create_award" where
  "award_input rule ev program passed =
     \<lparr>k_enterprise = ev_enterprise ev, k_program = r_program rule, k_rule = r_id rule,
      k_rule_version = r_version rule, k_program_version = g_version (pr_program program),
      k_customer = ev_customer ev, k_channel = ev_channel ev, k_source_kind = ev_source_kind ev,
      k_source = ev_source ev, k_status = (if passed then Held else SkippedCondition),
      k_held_until = (if passed then hold_until rule ev else None), k_occurred = ev_occurred ev\<rparr>"

text \<open>The part after the award row exists and the conditions passed: the cap, the hold, the grant.\<close>

definition capAndGrant ::
    "host \<Rightarrow> reward_rule \<Rightarrow> trigger_event \<Rightarrow> program_row \<Rightarrow> reward_award \<Rightarrow> int option reward_act" where
  "capAndGrant h rule ev program award =
     (if r_cap_scope rule \<noteq> NoCap \<and> pr_timezone program = None
      then andThen (markSkipped (ev_enterprise ev) (a_id award) SkippedCondition
             ''enterprise_timezone_not_set'' None) (ret None)
      else
        let periodKey = (case pr_timezone program of
              None \<Rightarrow> None | Some tz \<Rightarrow> derivePeriodKey h (ev_occurred ev) tz (r_cap_scope rule))
        in
          bnd (case periodKey of
                 None \<Rightarrow> ret True
               | Some key \<Rightarrow>
                   if r_cap_scope rule \<noteq> NoCap \<and> key \<noteq> ''''
                   then claimCapSlot (ev_enterprise ev) (r_program rule) (r_id rule) (ev_customer ev) key
                          (r_cap_count rule)
                   else ret True) (\<lambda>claimed.
          if \<not> claimed
          then andThen (markSkipped (ev_enterprise ev) (a_id award) SkippedCap ''cap_consumed'' periodKey)
                 (ret None)
          else
            bnd (reads (\<lambda>db. loadBenefits db (ev_enterprise ev) (r_id rule) (r_version rule))) (\<lambda>benefits.
            if hold_until rule ev \<noteq> None then ret None
            else
              bnd (grant h (ev_enterprise ev) (a_id award) (ev_customer ev) rule (pr_currency program)
                     periodKey (ev_occurred ev) benefits) (\<lambda>creditedPoints.
              ret (if creditedPoints then Some (a_id award) else None)))))"

definition evaluateRule :: "host \<Rightarrow> reward_rule \<Rightarrow> trigger_event \<Rightarrow> int option reward_act" where
  "evaluateRule h rule ev =
     bnd (reads (\<lambda>db. findProgramById db (ev_enterprise ev) (r_program rule))) (\<lambda>found.
     case found of
       None \<Rightarrow> ret None
     | Some program \<Rightarrow>
         bnd (reads (\<lambda>db. loadConditions db (ev_enterprise ev) (r_id rule) (r_version rule))) (\<lambda>conditions.
         bnd (reads (\<lambda>db. firstSeen db ev conditions)) (\<lambda>seen.
         let outcome = evaluate h conditions (condition_ctx ev program seen)
         in bnd (createIfAbsent (award_input rule ev program (outcome = Passed))) (\<lambda>created.
            case created of
              None \<Rightarrow> ret None
            | Some award \<Rightarrow>
                (case outcome of
                   FailedBy kind \<Rightarrow>
                     andThen (markSkipped (ev_enterprise ev) (a_id award) SkippedCondition
                       (''condition_failed:'' @ kind) None) (ret None)
                 | Passed \<Rightarrow> capAndGrant h rule ev program award)))))"

section \<open>Every rule against one event\<close>

definition matchesTrigger :: "reward_rule \<Rightarrow> trigger_event \<Rightarrow> bool" where
  "matchesTrigger rule ev =
     (case RewardTriggerConfigSchema (r_trigger_config rule) of
        None \<Rightarrow> False
      | Some c \<Rightarrow> matchesTriggerConfig c (ev_channel ev) (ev_balance ev))"

definition threshold_event :: "int \<Rightarrow> int \<Rightarrow> int \<Rightarrow> int \<Rightarrow> int \<Rightarrow> trigger_event" where
  "threshold_event ent cust occurred awardId bal =
     \<lparr>ev_enterprise = ent, ev_customer = cust, ev_trigger = PointsBalanceReached,
      ev_source_kind = ''award'', ev_source = awardId, ev_channel = None, ev_occurred = occurred,
      ev_content = None, ev_first_seen = None, ev_balance = Some bal\<rparr>"

text \<open>\<open>offer_with\<close> is \<open>offerBalanceThresholds\<close> with the call of \<open>onTriggerEvent\<close> as an argument.\<close>

definition offer_with ::
    "(trigger_event \<Rightarrow> unit reward_act) \<Rightarrow> int \<Rightarrow> int \<Rightarrow> int \<Rightarrow> int \<Rightarrow> RewardTriggerKind \<Rightarrow> unit reward_act" where
  "offer_with onEvent ent cust occurred awardId grantingTriggerKind =
     (if grantingTriggerKind = PointsBalanceReached then ret ()
      else
        bnd (reads (\<lambda>db. findMatchingRules db ent PointsBalanceReached occurred)) (\<lambda>thresholdRules.
        if thresholdRules = [] then ret ()
        else
          bnd (reads (\<lambda>db. findCustomerWallet db ent cust Points None)) (\<lambda>wallet.
          case wallet of
            None \<Rightarrow> ret ()
          | Some w \<Rightarrow>
              if w_balance w \<le> 0 then ret ()
              else onEvent (threshold_event ent cust occurred awardId (w_balance w)))))"

definition tryRule ::
    "host \<Rightarrow> (trigger_event \<Rightarrow> unit reward_act) \<Rightarrow> trigger_event \<Rightarrow> reward_rule \<Rightarrow> unit reward_act" where
  "tryRule h onEvent ev rule =
     (if \<not> matchesTrigger rule ev then ret ()
      else
        bnd (attempt (\<lambda>_. False) (evaluateRule h rule ev)) (\<lambda>result.
        case result of
          Some (Some creditedAwardId) \<Rightarrow>
            andThen (attempt is_diverged
              (offer_with onEvent (ev_enterprise ev) (ev_customer ev) (ev_occurred ev) creditedAwardId
                (r_trigger rule)))
            (ret ())
        | _ \<Rightarrow> ret ()))"

primrec onTriggerEvent_fuel :: "host \<Rightarrow> nat \<Rightarrow> trigger_event \<Rightarrow> unit reward_act" where
  "onTriggerEvent_fuel h 0 ev = throw Diverged"
| "onTriggerEvent_fuel h (Suc n) ev =
     bnd (reads (\<lambda>db. findMatchingRules db (ev_enterprise ev) (ev_trigger ev) (ev_occurred ev)))
       (\<lambda>candidates. each (tryRule h (onTriggerEvent_fuel h n) ev) candidates)"

definition onTriggerEvent :: "host \<Rightarrow> trigger_event \<Rightarrow> unit reward_act" where
  "onTriggerEvent h ev = onTriggerEvent_fuel h 2 ev"

definition offerBalanceThresholds ::
    "host \<Rightarrow> int \<Rightarrow> int \<Rightarrow> int \<Rightarrow> int \<Rightarrow> RewardTriggerKind \<Rightarrow> unit reward_act" where
  "offerBalanceThresholds h = offer_with (onTriggerEvent h)"

section \<open>The recursion through thresholds\<close>

lemma each_cong: "(\<And>x. x \<in> set xs \<Longrightarrow> f x = g x) \<Longrightarrow> each f xs = each g xs"
  by (induction xs) auto

lemma findMatchingRules_trigger:
  "r \<in> set (findMatchingRules db ent k t) \<Longrightarrow> r_trigger r = k \<and> r_enterprise r = ent \<and> r_active r"
  by (auto simp: findMatchingRules_def)

lemma offer_with_cong:
  "(\<And>e. ev_trigger e = PointsBalanceReached \<Longrightarrow> f e = g e) \<Longrightarrow>
   offer_with f ent cust occ i k = offer_with g ent cust occ i k"
  by (simp add: offer_with_def threshold_event_def cong: option.case_cong if_cong)

lemma tryRule_cong:
  assumes "r_trigger rule = PointsBalanceReached \<or> (\<forall>e. ev_trigger e = PointsBalanceReached \<longrightarrow> f e = g e)"
  shows "tryRule h f ev rule = tryRule h g ev rule"
proof -
  have "offer_with f ent cust occ i (r_trigger rule) = offer_with g ent cust occ i (r_trigger rule)"
    for ent cust occ i
  proof (cases "r_trigger rule = PointsBalanceReached")
    case True
    then show ?thesis by (simp add: offer_with_def)
  next
    case False
    with assms show ?thesis by (intro offer_with_cong) simp
  qed
  then show ?thesis by (simp add: tryRule_def)
qed

lemma onTriggerEvent_fuel_cong:
  assumes "ev_trigger ev = PointsBalanceReached
    \<or> (\<forall>e. ev_trigger e = PointsBalanceReached \<longrightarrow> onTriggerEvent_fuel h m e = onTriggerEvent_fuel h n e)"
  shows "onTriggerEvent_fuel h (Suc m) ev = onTriggerEvent_fuel h (Suc n) ev"
proof (rule ext)
  fix s
  have "each (tryRule h (onTriggerEvent_fuel h m) ev)
        (findMatchingRules s (ev_enterprise ev) (ev_trigger ev) (ev_occurred ev))
      = each (tryRule h (onTriggerEvent_fuel h n) ev)
        (findMatchingRules s (ev_enterprise ev) (ev_trigger ev) (ev_occurred ev))"
    using assms findMatchingRules_trigger by (intro each_cong tryRule_cong) auto
  then show "onTriggerEvent_fuel h (Suc m) ev s = onTriggerEvent_fuel h (Suc n) ev s"
    by (simp add: bnd_def reads_def)
qed

lemma fuel_threshold:
  "ev_trigger ev = PointsBalanceReached \<Longrightarrow> onTriggerEvent_fuel h (Suc n) ev = onTriggerEvent_fuel h 1 ev"
  unfolding One_nat_def by (rule onTriggerEvent_fuel_cong) simp

lemma fuel_enough: "onTriggerEvent_fuel h (Suc (Suc n)) ev = onTriggerEvent h ev"
proof -
  have "onTriggerEvent_fuel h (Suc (Suc n)) ev = onTriggerEvent_fuel h (Suc (Suc 0)) ev"
    using fuel_threshold [of _ h n] fuel_threshold [of _ h 0] by (intro onTriggerEvent_fuel_cong) simp
  then show ?thesis by (simp add: onTriggerEvent_def numeral_2_eq_2)
qed

definition returns :: "(reward_error, reward_db, 'a) act \<Rightarrow> bool" where
  "returns m \<longleftrightarrow> (\<forall>s. \<exists>x s'. m s = Inr (x, s'))"

lemma returns_each: "(\<And>x. x \<in> set xs \<Longrightarrow> returns (f x)) \<Longrightarrow> returns (each f xs)"
proof (induction xs)
  case Nil
  then show ?case by (simp add: returns_def ret_def)
next
  case (Cons x xs)
  show ?case
    unfolding returns_def
  proof
    fix s
    obtain y s1 where "f x s = Inr (y, s1)" using Cons.prems by (force simp: returns_def)
    moreover obtain z s2 where "each f xs s1 = Inr (z, s2)" using Cons by (force simp: returns_def)
    ultimately show "\<exists>r s'. each f (x # xs) s = Inr (r, s')" by (auto simp: andThen_Inr)
  qed
qed

lemma attempt_all_returns: "returns (attempt (\<lambda>_. False) m)"
  unfolding returns_def
proof
  fix s
  show "\<exists>x s'. attempt (\<lambda>_. False) m s = Inr (x, s')"
    by (cases "m s") (auto simp: attempt_def)
qed

lemma attempt_returns: "returns m \<Longrightarrow> returns (attempt fatal m)"
  unfolding returns_def
proof
  fix s
  assume "\<forall>s. \<exists>x s'. m s = Inr (x, s')"
  then obtain x s' where "m s = Inr (x, s')" by blast
  then show "\<exists>x s'. attempt fatal m s = Inr (x, s')" by (simp add: attempt_def)
qed

lemma offer_returns:
  assumes "k = PointsBalanceReached \<or> (\<forall>e. ev_trigger e = PointsBalanceReached \<longrightarrow> returns (f e))"
  shows "returns (offer_with f ent cust occ i k)"
  using assms
  by (auto simp: returns_def offer_with_def bnd_def reads_def ret_def threshold_event_def split: option.splits)

lemma tryRule_returns:
  assumes "r_trigger rule = PointsBalanceReached \<or> (\<forall>e. ev_trigger e = PointsBalanceReached \<longrightarrow> returns (f e))"
  shows "returns (tryRule h f ev rule)"
  unfolding returns_def
proof
  fix s
  obtain r s1 where 1: "attempt (\<lambda>_. False) (evaluateRule h rule ev) s = Inr (r, s1)"
    using attempt_all_returns unfolding returns_def by blast
  obtain r' s2 where 2: "attempt is_diverged (offer_with f (ev_enterprise ev) (ev_customer ev) (ev_occurred ev)
      (the (the r)) (r_trigger rule)) s1 = Inr (r', s2)"
    using attempt_returns [OF offer_returns [OF assms]] unfolding returns_def by blast
  show "\<exists>x s'. tryRule h f ev rule s = Inr (x, s')"
    using 1 2 by (cases "matchesTrigger rule ev"; cases r; cases "the r")
      (auto simp: tryRule_def bnd_def andThen_def ret_def split: option.splits)
qed

lemma onTriggerEvent_fuel_returns:
  assumes "ev_trigger ev = PointsBalanceReached
    \<or> (\<forall>e. ev_trigger e = PointsBalanceReached \<longrightarrow> returns (onTriggerEvent_fuel h n e))"
  shows "returns (onTriggerEvent_fuel h (Suc n) ev)"
  unfolding returns_def
proof
  fix s
  have "returns (each (tryRule h (onTriggerEvent_fuel h n) ev)
      (findMatchingRules s (ev_enterprise ev) (ev_trigger ev) (ev_occurred ev)))"
    using assms by (intro returns_each tryRule_returns) (auto dest: findMatchingRules_trigger)
  then show "\<exists>x s'. onTriggerEvent_fuel h (Suc n) ev s = Inr (x, s')"
    by (auto simp: returns_def bnd_def reads_def)
qed

lemma onTriggerEvent_returns: "returns (onTriggerEvent h ev)"
proof -
  have "returns (onTriggerEvent_fuel h (Suc 0) e)" if "ev_trigger e = PointsBalanceReached" for e
    using that by (intro onTriggerEvent_fuel_returns) simp
  then show ?thesis
    unfolding onTriggerEvent_def numeral_2_eq_2 by (intro onTriggerEvent_fuel_returns) blast
qed

text \<open>C21: Evaluating an event always terminates and never throws. The threshold recursion stops after
  one nested round: any bound of at least two gives the same result as bound two, and from every
  state the evaluation returns normally, whatever the individual rules threw.\<close>

theorem onTriggerEvent_total:
  "onTriggerEvent_fuel h (Suc (Suc n)) ev = onTriggerEvent h ev
   \<and> (\<exists>s'. onTriggerEvent h ev s = Inr ((), s'))"
  using fuel_enough onTriggerEvent_returns [of h ev] by (auto simp: returns_def)

section \<open>What every evaluation keeps\<close>

context store_invariant
begin

lemma keeps_applyStored: "keeps I (applyStored h ent awardId cust rule cur occ bp stored)"
  unfolding applyStored_def
  by (intro keeps_option triple_throw keeps_dispatch payout_invariant_axioms parsed_benefit_positive)

lemma keeps_grant: "keeps I (grant h ent awardId cust rule cur periodKey occ benefits)"
  unfolding grant_def
  by (intro keeps_let keeps_if keeps_andThen keeps_option triple_ret keeps_each keeps_applyStored
      I_release I_skip I_grant I_audit) simp_all

lemma keeps_capAndGrant: "keeps I (capAndGrant h rule ev program award)"
  unfolding capAndGrant_def
  by (intro keeps_let keeps_if keeps_andThen keeps_bnd keeps_option triple_ret keeps_reads
      keeps_grant I_claim I_skip) simp_all

lemma keeps_evaluateRule: "keeps I (evaluateRule h rule ev)"
proof -
  have "keeps I (case outcome of FailedBy kind \<Rightarrow>
        andThen (markSkipped (ev_enterprise ev) (a_id award) SkippedCondition
          (''condition_failed:'' @ kind) None) (ret None)
      | Passed \<Rightarrow> capAndGrant h rule ev program award)" for outcome program award
    by (cases outcome) (auto intro: keeps_capAndGrant keeps_andThen I_skip triple_ret)
  then show ?thesis
    unfolding evaluateRule_def
    by (intro keeps_let keeps_bnd keeps_option triple_ret keeps_reads I_create)
qed

lemma keeps_offer: "(\<And>e. keeps I (f e)) \<Longrightarrow> keeps I (offer_with f ent cust occ i k)"
  unfolding offer_with_def by (intro keeps_if triple_ret keeps_bnd keeps_reads keeps_option)

lemma keeps_tryRule: "(\<And>e. keeps I (f e)) \<Longrightarrow> keeps I (tryRule h f ev rule)"
  unfolding tryRule_def
  by (intro keeps_if triple_ret keeps_bnd keeps_attempt keeps_evaluateRule keeps_option keeps_andThen
      keeps_offer)

lemma keeps_onTriggerEvent_fuel: "keeps I (onTriggerEvent_fuel h n ev)"
  by (induction n arbitrary: ev)
    (auto intro!: triple_throw keeps_bnd keeps_reads keeps_each keeps_tryRule)

lemma keeps_onTriggerEvent: "keeps I (onTriggerEvent h ev)"
  unfolding onTriggerEvent_def by (rule keeps_onTriggerEvent_fuel)

lemma keeps_offerBalanceThresholds: "keeps I (offerBalanceThresholds h ent cust occ i k)"
  unfolding offerBalanceThresholds_def by (intro keeps_offer keeps_onTriggerEvent)

end

section \<open>Exactly once\<close>

lemma input_key_award_input:
  "input_key (award_input rule ev program passed)
     = (ev_enterprise ev, r_id rule, ev_customer ev, ev_source_kind ev, ev_source ev)"
  by (simp add: input_key_def award_input_def)

definition event_key :: "reward_rule \<Rightarrow> trigger_event \<Rightarrow> int \<times> int \<times> int \<times> string \<times> int" where
  "event_key rule ev = (ev_enterprise ev, r_id rule, ev_customer ev, ev_source_kind ev, ev_source ev)"

lemma evaluateRule_replay:
  assumes "award_exists s (event_key rule ev)"
  shows "evaluateRule h rule ev s = Inr (None, s)"
  using assms
  by (auto simp: evaluateRule_def bnd_def reads_def ret_def createIfAbsent_def Let_def
      input_key_award_input event_key_def split: option.splits)

lemma create_exists: "createIfAbsent k s = Inr (r, s') \<Longrightarrow> award_exists s' (input_key k)"
  by (auto simp: createIfAbsent_def Let_def award_exists_def new_award_def source_key_def input_key_def
      split: if_splits)

lemma keeps_award_tail:
  "keeps (\<lambda>s. award_exists s key) (case outcome of
       FailedBy kind \<Rightarrow> andThen (markSkipped ent i SkippedCondition (''condition_failed:'' @ kind) None) (ret None)
     | Passed \<Rightarrow> capAndGrant h rule ev program award)"
  by (cases outcome) (auto intro: award_inv.keeps_capAndGrant keeps_andThen award_inv.I_skip triple_ret)

lemma evaluateRule_records:
  assumes "evaluateRule h rule ev s = Inr (r, s')"
    and "findProgramById s (ev_enterprise ev) (r_program rule) \<noteq> None"
  shows "award_exists s' (event_key rule ev)"
proof -
  from assms obtain program outcome created s1 where
    1: "createIfAbsent (award_input rule ev program (outcome = Passed)) s = Inr (created, s1)"
    and 2: "(case created of None \<Rightarrow> ret None | Some award \<Rightarrow> (case outcome of
       FailedBy kind \<Rightarrow> andThen (markSkipped (ev_enterprise ev) (a_id award) SkippedCondition
         (''condition_failed:'' @ kind) None) (ret None)
     | Passed \<Rightarrow> capAndGrant h rule ev program award)) s1 = Inr (r, s')"
    unfolding evaluateRule_def Let_def by (auto simp: bnd_Inr reads_def)
  have 3: "award_exists s1 (event_key rule ev)"
    using create_exists [OF 1] by (simp add: input_key_award_input event_key_def)
  show ?thesis
  proof (cases created)
    case None
    with 2 3 show ?thesis by (simp add: ret_def)
  next
    case (Some award)
    with 2 have "(case outcome of FailedBy kind \<Rightarrow> andThen (markSkipped (ev_enterprise ev) (a_id award)
        SkippedCondition (''condition_failed:'' @ kind) None) (ret None)
      | Passed \<Rightarrow> capAndGrant h rule ev program award) s1 = Inr (r, s')" by simp
    then show ?thesis by (rule tripleD [OF keeps_award_tail 3])
  qed
qed

text \<open>C13: Exactly once per source event: once a rule has been evaluated for an event (and its program
  exists), evaluating the same rule for the same event again changes nothing and credits nothing,
  however many other events were processed in between.\<close>

theorem redelivery_is_noop:
  assumes "evaluateRule h rule ev s = Inr (r, s1)"
    and "findProgramById s (ev_enterprise ev) (r_program rule) \<noteq> None"
    and "run_all (map (onTriggerEvent h) evs) s1 = Inr (x, s2)"
  shows "evaluateRule h rule ev s2 = Inr (None, s2)"
proof -
  have "keeps (\<lambda>s. award_exists s (event_key rule ev)) (run_all (map (onTriggerEvent h) evs))"
    by (induction evs) (auto intro: triple_ret keeps_andThen award_inv.keeps_onTriggerEvent)
  then have "award_exists s2 (event_key rule ev)"
    using evaluateRule_records [OF assms(1,2)] assms(3) by (rule tripleD)
  then show ?thesis by (rule evaluateRule_replay)
qed

text \<open>One business, one running program with a rule that gives 20 points per comment, once a day.\<close>

definition demo_rule :: reward_rule where
  "demo_rule = \<lparr>r_id = 3, r_enterprise = 1, r_program = 2, r_version = 1, r_trigger = CommentOnOwnPost,
     r_trigger_config = [], r_factor_provider = CONSTANT_ONE_FACTOR_PROVIDER, r_cap_scope = Day,
     r_cap_count = 1, r_hold_hours = 0, r_reversal = OnContentDeleted, r_priority = 100,
     r_active = True, r_deleted = False\<rparr>"

definition demo_db :: reward_db where
  "demo_db = empty_db\<lparr>
     enterprises := [\<lparr>t_id = 1, t_timezone = Some ''UTC'', t_currency = Some ''INR''\<rparr>],
     programs := [\<lparr>g_id = 2, g_enterprise = 1, g_status = Active, g_version = 1, g_starts_at = None,
       g_ends_at = None, g_deleted = False\<rparr>],
     rules := [demo_rule],
     rule_benefits := [\<lparr>rb_enterprise = 1, rb_rule = 3, rb_rule_version = 1, rb_index = 0,
       rb_kind = ''grant_points'', rb_mode = Fixed, rb_cap = None, rb_config = [(''points'', JNum 20)],
       rb_deleted = False\<rparr>],
     customers := [\<lparr>cu_id = 5, cu_enterprise = 1, cu_first_seen = None, cu_deleted = False\<rparr>]\<rparr>"

definition demo_event :: "int \<Rightarrow> trigger_event" where
  "demo_event source = \<lparr>ev_enterprise = 1, ev_customer = 5, ev_trigger = CommentOnOwnPost,
     ev_source_kind = ''post'', ev_source = source, ev_channel = None, ev_occurred = 1000,
     ev_content = None, ev_first_seen = None, ev_balance = None\<rparr>"

definition after :: "'a reward_act \<Rightarrow> reward_db \<Rightarrow> reward_db" where
  "after m s = (case m s of Inl _ \<Rightarrow> s | Inr (_, s') \<Rightarrow> s')"

lemma demo_run:
  "evaluateRule demo_host demo_rule (demo_event 9) demo_db
     = Inr (Some 1, after (evaluateRule demo_host demo_rule (demo_event 9)) demo_db)"
  by code_simp

lemma demo_second_event:
  "\<exists>s2. run_all (map (onTriggerEvent demo_host) [demo_event 10])
     (after (evaluateRule demo_host demo_rule (demo_event 9)) demo_db) = Inr ((), s2)"
  using onTriggerEvent_returns [of demo_host "demo_event 10"]
  by (auto simp: returns_def andThen_Inr ret_def)

theorem redelivery_is_noop_witness:
  "\<exists>s2. evaluateRule demo_host demo_rule (demo_event 9) s2 = Inr (None, s2) \<and> awards s2 \<noteq> []"
proof -
  obtain s2 where s2: "run_all (map (onTriggerEvent demo_host) [demo_event 10])
     (after (evaluateRule demo_host demo_rule (demo_event 9)) demo_db) = Inr ((), s2)"
    using demo_second_event by blast
  have p: "findProgramById demo_db (ev_enterprise (demo_event 9)) (r_program demo_rule) \<noteq> None" by code_simp
  have "award_exists (after (evaluateRule demo_host demo_rule (demo_event 9)) demo_db)
      (event_key demo_rule (demo_event 9))" by code_simp
  then have "award_exists s2 (event_key demo_rule (demo_event 9))"
    using s2 by (auto simp: andThen_Inr ret_def dest: tripleD [OF award_inv.keeps_onTriggerEvent])
  then have "awards s2 \<noteq> []" by (auto simp: award_exists_def)
  with redelivery_is_noop [OF demo_run p s2] show ?thesis by blast
qed

section \<open>The factor and the amounts\<close>

lemma safe_basis_points_range: "0 \<le> safe_basis_points raw \<and> safe_basis_points raw \<le> 10000"
proof (cases raw)
  case (FiniteFactor r)
  let ?c = "min (max r 0) 1"
  have "math_round (of_int 0) \<le> math_round (?c * 10000)"
    by (intro math_round_mono) simp
  moreover have "math_round (?c * 10000) \<le> math_round (of_int 10000)"
    by (intro math_round_mono) simp
  ultimately show ?thesis
    unfolding math_round_int
    by (simp add: FiniteFactor safe_basis_points_def FACTOR_BASIS_POINTS_MAX_def Let_def)
qed (simp_all add: safe_basis_points_def)

lemma factor_constant_one: "FactorEvaluator_evaluate CONSTANT_ONE_FACTOR_PROVIDER = 10000"
  using math_round_int [of 10000]
  by (simp add: FactorEvaluator_evaluate_def FactorEvaluator_resolve_def safe_basis_points_def
      ConstantOneFactorProvider_factor_def FACTOR_BASIS_POINTS_MAX_def)

lemma factor_range: "0 \<le> FactorEvaluator_evaluate code \<and> FactorEvaluator_evaluate code \<le> 10000"
  using safe_basis_points_range by (simp add: FactorEvaluator_evaluate_def split: option.splits)

text \<open>A factor can never pay more than the cap. Whatever number, infinity or exception a provider
  produces, the basis points lie in \<open>0..10000\<close>; scaling a non-negative cap by them gives an amount
  between 0 and the cap that is the exact product rounded half up, full basis points pay the cap
  and a larger factor never pays less.\<close>

theorem factor_never_exceeds_cap:
  assumes "0 \<le> cap"
  shows "0 \<le> safe_basis_points raw \<and> safe_basis_points raw \<le> 10000
    \<and> 0 \<le> scaleByFactor cap (safe_basis_points raw)
    \<and> scaleByFactor cap (safe_basis_points raw) \<le> cap
    \<and> 10000 * scaleByFactor cap (safe_basis_points raw) \<le> cap * safe_basis_points raw + 5000
    \<and> cap * safe_basis_points raw + 5000 < 10000 * scaleByFactor cap (safe_basis_points raw) + 10000
    \<and> scaleByFactor cap 10000 = cap"
proof -
  let ?bp = "safe_basis_points raw"
  let ?q = "(cap * ?bp + 5000) div 10000"
  have bp: "0 \<le> ?bp" "?bp \<le> 10000" using safe_basis_points_range by blast+
  have q: "scaleByFactor cap ?bp = ?q"
    by (simp add: scaleByFactor_def FACTOR_BASIS_POINTS_MAX_def)
  have lo: "0 \<le> cap * ?bp" and hi: "cap * ?bp \<le> cap * 10000"
    using bp assms by (simp_all add: mult_left_mono)
  have b: "10000 * ?q \<le> cap * ?bp + 5000" "cap * ?bp + 5000 < 10000 * ?q + 10000"
    using div_bounds [of 10000 "cap * ?bp + 5000"] by simp_all
  have "0 \<le> ?q" using lo by simp
  moreover have "?q \<le> cap" using b(1) hi by linarith
  moreover have "scaleByFactor cap 10000 = cap"
    by (simp add: scaleByFactor_def FACTOR_BASIS_POINTS_MAX_def)
  ultimately show ?thesis using bp b unfolding q by blast
qed

theorem factor_never_exceeds_cap_witness:
  "(0 :: int) \<le> 20 \<and> scaleByFactor 20 (safe_basis_points (FiniteFactor (3 / 2))) \<le> 20"
  using factor_never_exceeds_cap [of 20 "FiniteFactor (3 / 2)"] by simp

subsection \<open>A stored benefit still parses when it is granted\<close>

lemma map_of_setField: "map_of (setField k v c) = (map_of c)(k \<mapsto> v)"
  by (induction c) auto

lemma strict_keys_setField: "k \<in> set ks \<Longrightarrow> strict_keys ks c \<Longrightarrow> strict_keys ks (setField k v c)"
  unfolding strict_keys_def by (induction c) auto

fun amount_of :: "reward_benefit \<Rightarrow> int option" where
  "amount_of (BGrantPoints n) = Some n"
| "amount_of (BGrantCurrency n _) = Some n"
| "amount_of _ = None"

fun currency_of :: "reward_benefit \<Rightarrow> string option" where
  "currency_of (BGrantCurrency _ cur) = cur"
| "currency_of (BConvertValue _ _ cur) = cur"
| "currency_of _ = None"

definition valid_default :: "host \<Rightarrow> string option \<Rightarrow> bool" where
  "valid_default h cur \<longleftrightarrow> (case cur of None \<Rightarrow> True | Some c \<Rightarrow> CurrencyCodeSchema h (JStr c) = Some c)"

definition filled_currency :: "reward_benefit \<Rightarrow> string option \<Rightarrow> string option" where
  "filled_currency b cur = (if kind_of_benefit b \<in> CURRENCY_BEARING_BENEFITS
     then coalesce (currency_of b) cur else None)"

lemma with_currency_parses:
  assumes "RewardBenefitConfigSchema h kind c = Some b" and "valid_default h cur"
  shows "\<exists>b'. RewardBenefitConfigSchema h kind (with_currency kind cur c) = Some b'
    \<and> kind_of_benefit b' = kind_of_benefit b \<and> amount_of b' = amount_of b
    \<and> currency_of b' = filled_currency b cur"
proof (cases cur)
  case None
  with assms(1) show ?thesis
    by (cases b) (auto simp: with_currency_def filled_currency_def CURRENCY_BEARING_BENEFITS_def
        coalesce_def split: option.splits)
next
  case (Some d)
  have k: "benefit_kind_of kind = Some (kind_of_benefit b)" by (rule parsed_benefit_kind [OF assms(1)])
  show ?thesis
    using assms k unfolding Some
    by (cases b)
      (auto simp: RewardBenefitConfigSchema_def GrantPointsConfigSchema_def GrantCurrencyConfigSchema_def
        IssueEntitlementConfigSchema_def ConvertValueConfigSchema_def with_currency_def takes_currency_def
        CURRENCY_BEARING_BENEFITS_def filled_currency_def coalesce_def valid_default_def
        optional_currency_def map_of_setField strict_keys_setField split: option.splits if_splits)
qed

lemma scaled_parses:
  assumes "RewardBenefitConfigSchema h kind c = Some b" and "isScalable (kind_of_benefit b)"
    and "0 < n" and "n \<le> MAX_SAFE_INTEGER"
  shows "\<exists>b'. RewardBenefitConfigSchema h kind
      (if map_of c ''points'' \<noteq> None then setField ''points'' (JNum n) c
       else if map_of c ''minorUnits'' \<noteq> None then setField ''minorUnits'' (JNum n) c else c) = Some b'
    \<and> kind_of_benefit b' = kind_of_benefit b \<and> amount_of b' = Some n \<and> currency_of b' = currency_of b"
proof -
  have k: "benefit_kind_of kind = Some (kind_of_benefit b)" by (rule parsed_benefit_kind [OF assms(1)])
  have nokey: "map_of c ''points'' = None" if "strict_keys [''minorUnits'', ''currencyCode''] c"
    using that unfolding strict_keys_def by (induction c) auto
  have n: "positive_field (Some (JNum n)) = Some n"
    using assms(3,4) by (simp add: positive_field_def int_field_def)
  show ?thesis
    using assms(1,2) k nokey n
    by (cases b)
      (auto simp: RewardBenefitConfigSchema_def GrantPointsConfigSchema_def GrantCurrencyConfigSchema_def
        map_of_setField strict_keys_setField positive_field_def int_field_def
        split: option.splits if_splits)
qed

text \<open>\<open>reward_rule_benefits_mode_chk\<close>.\<close>

definition mode_chk :: "rule_benefit \<Rightarrow> bool" where
  "mode_chk b \<longleftrightarrow> (case (rb_mode b, rb_cap b) of
     (UpTo, Some cap) \<Rightarrow> 0 < cap | (Fixed, None) \<Rightarrow> True | _ \<Rightarrow> False)"

lemma scale_le_cap: "0 \<le> cap \<Longrightarrow> 0 \<le> bp \<Longrightarrow> bp \<le> 10000 \<Longrightarrow> scaleByFactor cap bp \<le> cap"
  using div_bounds [of 10000 "cap * bp + 5000"] mult_left_mono [of bp 10000 cap]
  by (simp add: scaleByFactor_def FACTOR_BASIS_POINTS_MAX_def)


definition demo_up_to :: rule_benefit where
  "demo_up_to = \<lparr>rb_enterprise = 1, rb_rule = 3, rb_rule_version = 1, rb_index = 0,
     rb_kind = ''grant_currency'', rb_mode = UpTo, rb_cap = Some 20, rb_config = [(''minorUnits'', JNum 20)],
     rb_deleted = False\<rparr>"


end
