(* ===== verification/Reward_Grant.thy ===== *)
theory Reward_Grant
  imports Reward_Evaluator
begin

text \<open>
  The sweep of held awards and the reversal of awards whose content has gone
  (\<open>modules/rewards/reward-grant.service.ts\<close>), and the manual adjustment
  (\<open>RewardsService.adjustBalance\<close>).

  The loops read a list of award rows first and then run one transaction per row. The transaction
  is a definition of its own, with the row as it was read, so that other work may run between the
  read and the transaction.
\<close>

section \<open>The sweep\<close>

definition GRANT_BATCH_SIZE :: nat where
  "GRANT_BATCH_SIZE = 100"

text \<open>The number of rows for which the loop body answers \<open>True\<close>.\<close>

primrec tally :: "('a \<Rightarrow> bool reward_act) \<Rightarrow> 'a list \<Rightarrow> nat reward_act" where
  "tally f [] = ret 0"
| "tally f (x # xs) = bnd (f x) (\<lambda>b. bnd (tally f xs) (\<lambda>n. ret (if b then Suc n else n)))"

text \<open>One held award's transaction; \<open>None\<close> is \<open>NOT_GRANTED\<close>.\<close>

definition grantHeldAward :: "host \<Rightarrow> reward_award \<Rightarrow> (bool \<times> RewardTriggerKind) option reward_act" where
  "grantHeldAward h award =
     bnd (reads (\<lambda>db. lockHeldAward db (a_enterprise award) (a_id award))) (\<lambda>mine.
     if \<not> mine then ret None
     else
       bnd (reads (\<lambda>db. findRuleById db (a_enterprise award) (a_rule award))) (\<lambda>found.
       case found of
         None \<Rightarrow> ret None
       | Some rule \<Rightarrow>
           bnd (reads (\<lambda>db. findProgramById db (a_enterprise award) (r_program rule))) (\<lambda>joined.
           case joined of
             None \<Rightarrow> ret None
           | Some program \<Rightarrow>
               bnd (reads (\<lambda>db. loadBenefits db (a_enterprise award) (a_rule award) (a_rule_version award)))
                 (\<lambda>benefits.
               bnd (grant h (a_enterprise award) (a_id award) (a_customer award) rule (pr_currency program)
                      (a_period_key award) (a_occurred award) benefits) (\<lambda>creditedPoints.
               ret (Some (creditedPoints, r_trigger rule)))))))"

definition sweepAward :: "host \<Rightarrow> reward_award \<Rightarrow> bool reward_act" where
  "sweepAward h award =
     bnd (attempt (\<lambda>_. False) (grantHeldAward h award)) (\<lambda>result.
     case result of
       Some (Some (creditedPoints, triggerKind)) \<Rightarrow>
         if creditedPoints
         then andThen (attempt is_diverged
                (offerBalanceThresholds h (a_enterprise award) (a_customer award) (a_occurred award)
                  (a_id award) triggerKind)) (ret True)
         else ret True
     | _ \<Rightarrow> ret False)"

definition grantDueAwards :: "host \<Rightarrow> nat reward_act" where
  "grantDueAwards h =
     bnd (reads (\<lambda>db. claimDueHeldAwards db GRANT_BATCH_SIZE)) (\<lambda>due. tally (sweepAward h) due)"

section \<open>Reversal\<close>

definition reverseAward :: "host \<Rightarrow> int \<Rightarrow> string \<Rightarrow> reward_award \<Rightarrow> unit reward_act" where
  "reverseAward h ent reasonCode award =
     andThen (if a_status award = Granted
              then compensateAward h ent (a_id award) (a_customer award) (a_rule award)
                     (a_rule_version award) (a_occurred award)
              else ret ())
     (andThen (case a_period_key award of
                 None \<Rightarrow> ret ()
               | Some key \<Rightarrow> if key = '''' then ret ()
                             else releaseCapSlot ent (a_rule award) (a_customer award) key)
     (andThen (markReversed ent (a_id award) reasonCode)
     (audit_record ent AuditReversed (a_id award))))"

definition tryReverse :: "host \<Rightarrow> int \<Rightarrow> string \<Rightarrow> reward_award \<Rightarrow> bool reward_act" where
  "tryReverse h ent reasonCode award =
     (if a_status award \<noteq> Granted \<and> a_status award \<noteq> Held then ret False
      else
        bnd (reads (\<lambda>db. findRuleById db ent (a_rule award))) (\<lambda>found.
        case found of
          None \<Rightarrow> ret False
        | Some rule \<Rightarrow>
            if r_reversal rule \<noteq> OnContentDeleted then ret False
            else
              bnd (attempt (\<lambda>_. False) (reverseAward h ent reasonCode award)) (\<lambda>result.
              ret (result \<noteq> None))))"

definition reverseForDeletedContent :: "host \<Rightarrow> int \<Rightarrow> string \<Rightarrow> int \<Rightarrow> string \<Rightarrow> nat reward_act" where
  "reverseForDeletedContent h ent sourceRefKind sourceRefId reasonCode =
     bnd (reads (\<lambda>db. findBySource db ent sourceRefKind sourceRefId)) (\<lambda>affected.
     tally (tryReverse h ent reasonCode) affected)"

section \<open>Manual adjustment\<close>

text \<open>The customer's public handle is the row id here. \<open>actor\<close> is the ambient actor of the request,
  a kind and an employee id.\<close>

record adjust_input =
  j_customer :: int
  j_wallet_kind :: RewardWalletKind
  j_currency :: "string option"
  j_amount :: int
  j_key :: string

definition adjustBalance ::
    "(ActorKind \<times> int option) option \<Rightarrow> int \<Rightarrow> adjust_input \<Rightarrow> ledger_entry reward_act" where
  "adjustBalance actor ent inp =
     bnd (reads (\<lambda>db. find (\<lambda>c. cu_enterprise c = ent \<and> cu_id c = j_customer inp \<and> \<not> cu_deleted c)
            (customers db))) (\<lambda>customer.
     case customer of
       None \<Rightarrow> throw CustomerNotFound
     | Some c \<Rightarrow>
         bnd (ensureCustomerWallet ent (cu_id c) (j_wallet_kind inp)
                (if j_wallet_kind inp = Points then None else j_currency inp)) (\<lambda>wallet.
         bnd (reads clock) (\<lambda>now.
         bnd (postUnchecked
                \<lparr>p_enterprise = ent, p_wallet = w_id wallet, p_kind = Adjust, p_amount = j_amount inp,
                 p_key = ''adjust:'' @ j_key inp, p_occurred = now, p_award = None, p_rule = None,
                 p_rule_version = None, p_group = None, p_reverses = None,
                 p_actor_kind = Some (case actor of None \<Rightarrow> ActorSystem | Some (k, _) \<Rightarrow> k),
                 p_actor = (case actor of None \<Rightarrow> None | Some (_, e) \<Rightarrow> e),
                 p_reason = Some ''manual_adjustment''\<rparr>) (\<lambda>posted.
         andThen (audit_record ent AuditAdjusted (e_wallet posted))
         (ret posted)))))"

section \<open>What the sweep, the reversal and the adjustment keep\<close>

lemma keeps_tally: "(\<And>x. x \<in> set xs \<Longrightarrow> keeps I (f x)) \<Longrightarrow> keeps I (tally f xs)"
proof (induction xs)
  case (Cons x xs)
  then have "keeps I (f x)" "keeps I (tally f xs)" by simp_all
  then show ?case by (auto intro!: keeps_bnd triple_ret)
qed (simp add: triple_def ret_def)

context store_invariant
begin

lemma keeps_grantHeldAward: "keeps I (grantHeldAward h award)"
  unfolding grantHeldAward_def
  by (intro keeps_bnd keeps_reads keeps_if keeps_option triple_ret keeps_grant)

lemma keeps_sweepAward: "keeps I (sweepAward h award)"
  unfolding sweepAward_def
  by (intro keeps_bnd keeps_attempt keeps_grantHeldAward)
    (auto intro!: keeps_andThen keeps_attempt keeps_offerBalanceThresholds triple_ret split: option.splits)

lemma keeps_grantDueAwards: "keeps I (grantDueAwards h)"
  unfolding grantDueAwards_def by (intro keeps_bnd keeps_reads keeps_tally keeps_sweepAward)

end

context reversal_invariant
begin

lemma keeps_reverseAward: "keeps I (reverseAward h ent reason award)"
  unfolding reverseAward_def
  by (intro keeps_andThen keeps_if keeps_option triple_ret I_release I_reverse I_audit
      keeps_compensateAward undo_invariant_axioms)

lemma keeps_tryReverse: "keeps I (tryReverse h ent reason award)"
  unfolding tryReverse_def
  by (intro keeps_if keeps_bnd keeps_reads keeps_option triple_ret keeps_attempt keeps_reverseAward)

lemma keeps_reverseForDeletedContent: "keeps I (reverseForDeletedContent h ent kind src reason)"
  unfolding reverseForDeletedContent_def by (intro keeps_bnd keeps_reads keeps_tally keeps_tryReverse)

lemma keeps_adjustBalance: "keeps I (adjustBalance actor ent inp)"
  unfolding adjustBalance_def
  by (intro keeps_bnd keeps_reads keeps_option triple_throw keeps_andThen triple_ret I_ensure I_post I_audit)

end

section \<open>Reversing a row that was read as held\<close>

lemma list_all_update_where:
  "(\<And>x. P x \<Longrightarrow> Q (f x)) \<Longrightarrow> (\<And>x. \<not> P x \<Longrightarrow> Q x) \<Longrightarrow> list_all Q (update_where P f xs)"
  unfolding update_where_def by (induction xs) auto

lemma reverse_held:
  assumes run: "reverseAward h ent reason award s = Inr (x, s')"
    and held: "a_status award = Held" and key: "a_period_key award = None"
  shows "wallets s' = wallets s" "ledger s' = ledger s" "cap_counters s' = cap_counters s"
    "entitlements s' = entitlements s"
    "list_all (\<lambda>a. if a_id a = a_id award \<and> a_enterprise a = ent then a_status a = Reversed else True) (awards s')"
proof -
  let ?f = "\<lambda>a. a\<lparr>a_status := Reversed, a_reversed_at := Some (clock s), a_reason := Some reason\<rparr>"
  obtain ls where s': "s' = (update_award ent (a_id award) ?f s)\<lparr>audit_logs := ls\<rparr>"
    using run held key
    by (auto simp: reverseAward_def andThen_Inr ret_def markReversed_def audit_record_def modifies_def)
  show "wallets s' = wallets s" "ledger s' = ledger s" "cap_counters s' = cap_counters s"
    "entitlements s' = entitlements s"
    by (simp_all add: s' update_award_def)
  show "list_all (\<lambda>a. if a_id a = a_id award \<and> a_enterprise a = ent then a_status a = Reversed else True) (awards s')"
    unfolding s' update_award_def by (simp add: list_all_update_where)
qed

text \<open>Reversing a held award does not give its cap slot back. In every state that satisfies the
  invariants, a held award carries no period key (only granting or skipping writes one), so the
  release is never reached and every counter stays as it was, although the slot was claimed when
  the award was created and the comment in the code says the slot comes back whether the award was
  granted or merely held.\<close>

theorem held_reversal_keeps_slot:
  assumes "engine_ok s" and "award \<in> set (awards s)" and "a_status award = Held"
    and "reverseAward h ent reason award s = Inr (x, s')"
  shows "cap_counters s' = cap_counters s"
proof -
  have "a_period_key award = None"
    using assms(1-3) by (simp add: engine_ok_def records_ok_def awards_ok_def award_ok_def)
  with assms(3,4) show ?thesis by (intro reverse_held(3))
qed

definition demo_hold_rule :: reward_rule where
  "demo_hold_rule = demo_rule\<lparr>r_hold_hours := 24\<rparr>"

definition demo_hold_db :: reward_db where
  "demo_hold_db = demo_db\<lparr>rules := [demo_hold_rule]\<rparr>"

definition demo_award :: reward_award where
  "demo_award = \<lparr>a_id = 1, a_enterprise = 1, a_program = 2, a_rule = 3, a_rule_version = 1,
     a_program_version = 1, a_customer = 5, a_channel = None, a_source_kind = ''post'', a_source = 9,
     a_status = Held, a_period_key = None, a_held_until = Some 86401000, a_occurred = 1000,
     a_granted_at = None, a_reversed_at = None, a_reason = None, a_factor = None,
     a_factor_provider = None, a_deleted = False\<rparr>"

definition demo_held :: reward_db where
  "demo_held = demo_hold_db\<lparr>awards := [demo_award],
     cap_counters := [\<lparr>c_enterprise = 1, c_program = 2, c_rule = 3, c_customer = 5,
       c_period = ''1970-01-01'', c_used = 1, c_cap = 1\<rparr>]\<rparr>"

lemma demo_held_run:
  "evaluateRule demo_host demo_hold_rule (demo_event 9) demo_hold_db = Inr (None, demo_held)"
  by code_simp

lemma demo_held_ok: "engine_ok demo_held"
proof -
  have "engine_ok demo_hold_db"
    using empty_engine_ok
    by (simp add: engine_ok_def books_ok_def records_ok_def demo_hold_db_def demo_db_def)
  then show ?thesis using demo_held_run by (rule tripleD [OF engine_inv.keeps_evaluateRule])
qed

theorem held_reversal_keeps_slot_witness:
  "\<exists>s'. reverseAward demo_host 1 ''content_removed'' demo_award demo_held = Inr ((), s')
     \<and> cap_counters s' = cap_counters demo_held"
proof -
  have "reverseAward demo_host 1 ''content_removed'' demo_award demo_held
      = Inr ((), after (reverseAward demo_host 1 ''content_removed'' demo_award) demo_held)"
    by code_simp
  with held_reversal_keeps_slot [OF demo_held_ok _ _ this] show ?thesis
    by (simp add: demo_held_def demo_award_def)
qed

text \<open>A reversal that read the award before the sweep granted it takes nothing back. The sweep
  re-reads the status under a lock; the reversal does not, it decides from the row it listed.
  When that row said held, its transaction leaves every wallet, ledger entry and entitlement as
  it is and marks the award reversed, whatever the award's status is by then.\<close>

theorem stale_reversal_keeps_value:
  assumes "a_status award = Held" and "a_period_key award = None"
    and "reverseAward h ent reason award s = Inr (x, s')"
  shows "wallets s' = wallets s \<and> ledger s' = ledger s \<and> entitlements s' = entitlements s
    \<and> list_all (\<lambda>a. if a_id a = a_id award \<and> a_enterprise a = ent then a_status a = Reversed else True) (awards s')"
  using reverse_held [OF assms(3,1,2)] by blast

definition demo_granted :: reward_db where
  "demo_granted = after (grantHeldAward demo_host demo_award) demo_held"

lemma demo_granted_state:
  "map a_status (awards demo_granted) = [Granted] \<and> map w_balance (wallets demo_granted) = [20]"
  by code_simp

theorem stale_reversal_keeps_value_witness:
  "\<exists>s'. reverseAward demo_host 1 ''content_removed'' demo_award demo_granted = Inr ((), s')
     \<and> map w_balance (wallets s') = [20]"
proof -
  have run: "reverseAward demo_host 1 ''content_removed'' demo_award s
      = Inr ((), after (reverseAward demo_host 1 ''content_removed'' demo_award) s)" for s
    by (simp add: after_def reverseAward_def demo_award_def andThen_def bnd_def ret_def markReversed_def
        audit_record_def modifies_def)
  have "wallets (after (reverseAward demo_host 1 ''content_removed'' demo_award) demo_granted)
      = wallets demo_granted"
    using stale_reversal_keeps_value [OF _ _ run [of demo_granted]] by (simp add: demo_award_def)
  with run [of demo_granted] demo_granted_state show ?thesis by auto
qed

end
