(* ===== verification/Reward_Caps.thy ===== *)
theory Reward_Caps
  imports Reward_Grant
begin

text \<open>
  The frequency cap of a rule, end to end: the awards of one rule, customer and period that are
  recorded as granted never outnumber the slots taken in the period's counter, and so never
  exceed the cap. The counter and the award status change in different statements, so the
  invariant is carried through the transaction with the claimed slot as slack.
\<close>

section \<open>Granted awards and used slots\<close>

type_synonym cap_key = "int \<times> int \<times> int \<times> string"

definition counts_for :: "cap_key \<Rightarrow> reward_award \<Rightarrow> bool" where
  "counts_for key a \<longleftrightarrow> a_status a = Granted \<and>
     (case key of (ent, rule, cust, period) \<Rightarrow>
        a_enterprise a = ent \<and> a_rule a = rule \<and> a_customer a = cust \<and> a_period_key a = Some period)"

definition granted_in :: "reward_db \<Rightarrow> cap_key \<Rightarrow> nat" where
  "granted_in db key = length (filter (counts_for key) (awards db))"

definition used_in :: "reward_db \<Rightarrow> cap_key \<Rightarrow> int" where
  "used_in db key = (case counter_of db key of None \<Rightarrow> 0 | Some c \<Rightarrow> c_used c)"

definition caps_cover :: "reward_db \<Rightarrow> bool" where
  "caps_cover db \<longleftrightarrow> (\<forall>key. int (granted_in db key) \<le> used_in db key)"

text \<open>As \<open>caps_cover\<close>, with one slot of \<open>key\<close> to spare.\<close>

definition slack :: "cap_key option \<Rightarrow> reward_db \<Rightarrow> bool" where
  "slack spare db \<longleftrightarrow> (\<forall>key. int (granted_in db key) + (if spare = Some key then 1 else 0) \<le> used_in db key)"

lemma slack_None [simp]: "slack None db = caps_cover db"
  by (simp add: slack_def caps_cover_def)

lemma slackD:
  "slack spare db \<Longrightarrow> int (granted_in db key) + (if spare = Some key then 1 else 0) \<le> used_in db key"
  unfolding slack_def by blast

lemma slack_weaken: "slack spare db \<Longrightarrow> caps_cover db"
  unfolding caps_cover_def
proof
  fix key
  assume "slack spare db"
  from slackD [OF this, of key] show "int (granted_in db key) \<le> used_in db key"
    by (cases "spare = Some key") simp_all
qed

lemma granted_in_frame: "awards s' = awards s \<Longrightarrow> granted_in s' = granted_in s"
  by (simp add: granted_in_def fun_eq_iff)

lemma used_in_frame: "cap_counters s' = cap_counters s \<Longrightarrow> used_in s' = used_in s"
  by (simp add: used_in_def counter_of_def fun_eq_iff)

subsection \<open>Counters\<close>

lemma claim_True:
  assumes "claimCapSlot ent prog rule cust period cap s = Inr (True, s')"
  shows "used_in s' key = used_in s key + (if key = (ent, rule, cust, period) then 1 else 0)"
    and "awards s' = awards s"
proof -
  let ?key = "(ent, rule, cust, period)"
  show "awards s' = awards s"
    using assms by (auto simp: claimCapSlot_def split: option.splits if_splits)
  show "used_in s' key = used_in s key + (if key = ?key then 1 else 0)"
  proof (cases "counter_of s ?key")
    case None
    with assms have "cap_counters s' = cap_counters s @ [\<lparr>c_enterprise = ent, c_program = prog, c_rule = rule,
        c_customer = cust, c_period = period, c_used = 1, c_cap = cap\<rparr>]"
      by (auto simp: claimCapSlot_def split: if_splits)
    with None show ?thesis
      by (auto simp: used_in_def counter_of_def find_append counter_key_def split: option.splits)
  next
    case (Some c)
    with assms have s': "cap_counters s' = update_where (\<lambda>x. counter_key x = ?key)
        (\<lambda>x. x\<lparr>c_used := c_used x + 1\<rparr>) (cap_counters s)"
      by (auto simp: claimCapSlot_def split: if_splits)
    have "counter_of s' key = map_option (\<lambda>x. if counter_key x = ?key then x\<lparr>c_used := c_used x + 1\<rparr> else x)
        (counter_of s key)"
      unfolding counter_of_def s' by (rule find_update_where) (simp add: counter_key_def)
    with Some show ?thesis
      by (auto simp: used_in_def split: option.splits dest: counter_ofD)
  qed
qed

lemma claim_False: "claimCapSlot ent prog rule cust period cap s = Inr (False, s') \<Longrightarrow> s' = s"
  by (auto simp: claimCapSlot_def split: option.splits if_splits)

lemma release_used:
  assumes "releaseCapSlot ent rule cust period s = Inr (x, s')"
  shows "used_in s' key \<ge> used_in s key - (if key = (ent, rule, cust, period) then 1 else 0)"
    and "awards s' = awards s"
proof -
  let ?key = "(ent, rule, cust, period)"
  have s': "cap_counters s' = update_where (\<lambda>x. counter_key x = ?key)
      (\<lambda>x. x\<lparr>c_used := max (c_used x - 1) 0\<rparr>) (cap_counters s)" and "awards s' = awards s"
    using assms by (auto simp: releaseCapSlot_def modifies_def)
  then show "awards s' = awards s" by simp
  have "counter_of s' key = map_option (\<lambda>x. if counter_key x = ?key then x\<lparr>c_used := max (c_used x - 1) 0\<rparr> else x)
      (counter_of s key)"
    unfolding counter_of_def s' by (rule find_update_where) (simp add: counter_key_def)
  then show "used_in s' key \<ge> used_in s key - (if key = ?key then 1 else 0)"
    by (auto simp: used_in_def split: option.splits dest: counter_ofD)
qed

subsection \<open>Awards\<close>

lemma granted_create:
  assumes "createIfAbsent k s = Inr (r, s')" and "k_status k \<noteq> Granted"
  shows "granted_in s' key = granted_in s key" and "cap_counters s' = cap_counters s"
  using assms
  by (auto simp: createIfAbsent_def Let_def granted_in_def counts_for_def new_award_def split: if_splits)

lemma granted_update_le:
  assumes "\<And>a. \<not> counts_for key (f a)"
  shows "granted_in (update_award ent i f s) key \<le> granted_in s key"
proof -
  have "length (filter (counts_for key) (update_where P f as)) \<le> length (filter (counts_for key) as)" for P as
    using assms unfolding update_where_def by (induction as) auto
  then show ?thesis by (simp add: granted_in_def update_award_def)
qed

lemma caps_skip:
  assumes "markSkipped ent i status reason periodKey s = Inr (x, s')" and "status \<noteq> Granted"
    and "slack spare s"
  shows "slack spare s'"
proof -
  let ?f = "\<lambda>a. a\<lparr>a_status := status, a_reason := Some reason,
    a_period_key := coalesce periodKey (a_period_key a)\<rparr>"
  have "s' = update_award ent i ?f s" using assms(1) by (simp add: markSkipped_def modifies_def)
  moreover have "\<not> counts_for key (?f a)" for key a using assms(2) by (simp add: counts_for_def)
  ultimately have s': "granted_in s' key \<le> granted_in s key" "used_in s' key = used_in s key" for key
    using granted_update_le [of key ?f ent i s]
    by (simp_all add: used_in_def counter_of_def update_award_def)
  show ?thesis
    unfolding slack_def
  proof
    fix key
    have "int (granted_in s key) + (if spare = Some key then 1 else 0) \<le> used_in s key"
      using assms(3) by (rule slackD)
    then show "int (granted_in s' key) + (if spare = Some key then 1 else 0) \<le> used_in s' key"
      using s' [of key] by linarith
  qed
qed

text \<open>The row of the award that a transaction works on.\<close>

definition sole_award :: "int \<Rightarrow> int \<Rightarrow> reward_award \<Rightarrow> reward_db \<Rightarrow> bool" where
  "sole_award ent i a s \<longleftrightarrow> distinct (map a_id (awards s)) \<and> a \<in> set (awards s) \<and> a_id a = i \<and> a_enterprise a = ent"

lemma granted_mark:
  assumes "distinct (map a_id as)" and "a \<in> set as" "a_id a = i" "a_enterprise a = ent"
  shows "length (filter (counts_for key) (update_where (\<lambda>a. a_id a = i \<and> a_enterprise a = ent) f as))
      + (if counts_for key a then 1 else 0)
    = length (filter (counts_for key) as) + (if counts_for key (f a) then 1 else 0)"
  using assms
proof (induction as)
  case (Cons b as)
  show ?case
  proof (cases "b = a")
    case True
    have "update_where (\<lambda>a. a_id a = i \<and> a_enterprise a = ent) f as = as"
    proof (rule update_where_none)
      fix x assume "x \<in> set as"
      with Cons.prems(1) have "a_id x \<noteq> a_id b" by (rule distinct_map_Cons_neq)
      with True Cons.prems(3) show "\<not> (a_id x = i \<and> a_enterprise x = ent)" by simp
    qed
    with True Cons.prems show ?thesis by (auto simp: update_where_def)
  next
    case False
    with Cons.prems have a: "a \<in> set as" by simp
    then have "a_id b \<noteq> i" using distinct_map_Cons_neq [OF Cons.prems(1)] Cons.prems(3) by blast
    then have "update_where (\<lambda>a. a_id a = i \<and> a_enterprise a = ent) f (b # as)
        = b # update_where (\<lambda>a. a_id a = i \<and> a_enterprise a = ent) f as"
      by (simp add: update_where_def)
    with Cons a show ?thesis by auto
  qed
qed simp

lemma caps_markGranted:
  assumes run: "markGranted ent i f prov periodKey s = Inr (x, s')"
    and a: "sole_award ent i a s" and held: "a_period_key a = None"
    and ok: "slack (map_option (\<lambda>p. (ent, a_rule a, a_customer a, p)) periodKey) s"
  shows "caps_cover s'"
  unfolding caps_cover_def
proof
  fix key
  have s': "s' = update_award ent i (\<lambda>a. a\<lparr>a_status := Granted, a_granted_at := Some (clock s),
      a_factor := f, a_factor_provider := prov, a_period_key := coalesce periodKey (a_period_key a)\<rparr>) s"
    using run by (auto simp: markGranted_def modifies_def throw_def split: if_splits)
  have u: "used_in s' key = used_in s key"
    unfolding s' by (simp add: used_in_def counter_of_def update_award_def)
  have "granted_in s' key \<le> granted_in s key
      + (if map_option (\<lambda>p. (ent, a_rule a, a_customer a, p)) periodKey = Some key then 1 else 0)"
    using granted_mark [of "awards s" a i ent key "\<lambda>a. a\<lparr>a_status := Granted, a_granted_at := Some (clock s),
      a_factor := f, a_factor_provider := prov, a_period_key := coalesce periodKey (a_period_key a)\<rparr>"]
      a held
    by (cases key; cases periodKey)
      (auto simp: s' granted_in_def update_award_def sole_award_def counts_for_def coalesce_def split: if_splits)
  moreover have "int (granted_in s key)
      + (if map_option (\<lambda>p. (ent, a_rule a, a_customer a, p)) periodKey = Some key then 1 else 0) \<le> used_in s key"
    using ok by (rule slackD)
  ultimately show "int (granted_in s' key) \<le> used_in s' key"
    unfolding u by (simp split: if_splits)
qed

section \<open>Through the transactions\<close>

definition same_caps :: "reward_db \<Rightarrow> reward_db \<Rightarrow> bool" where
  "same_caps s s' \<longleftrightarrow> awards s' = awards s \<and> cap_counters s' = cap_counters s"

lemma payout_same_caps:
  "steps same_caps (ensureCustomerWallet ent cust kind cur)"
  "steps same_caps (post p isEarn)"
  "steps same_caps (debitIfSufficient p)"
  "steps same_caps (recordBenefit ent awardId idx kind' pay undo key)"
  "steps same_caps (issue ent cust awardId item code expires)"
  "steps same_caps (randomUUID h)"
  "steps same_caps (randomBytes h)"
  "steps same_caps (revokeIfUnredeemed ent entitlementId)"
  "steps same_caps (markBenefitCompensated ent benefitId)"
  by (auto simp: steps_def same_caps_def statement_defs ensure_Inr post_Inr debit_Inr
      move_and_write_Inr split: if_splits option.splits)

lemma same_capsD:
  assumes "same_caps s s'"
  shows "slack spare s' = slack spare s" and "sole_award ent i a s' = sole_award ent i a s"
  using assms by (auto simp: same_caps_def sole_award_def slack_def granted_in_def used_in_def counter_of_def)

text \<open>Paying out and taking back touch neither awards nor counters.\<close>

lemma payout_framed:
  assumes "\<And>s s'. same_caps s s' \<Longrightarrow> I s \<Longrightarrow> I s'"
  shows "payout_invariant I"
  by unfold_locales
    (simp_all add: credit_def payout_same_caps [THEN keeps_from_steps, of I] assms)

lemma undo_framed:
  assumes "\<And>s s'. same_caps s s' \<Longrightarrow> I s \<Longrightarrow> I s'"
  shows "undo_invariant I"
  by unfold_locales
    (simp_all add: postUnchecked_def payout_same_caps [THEN keeps_from_steps, of I] assms)

lemma derivePeriodKey_nonempty: "derivePeriodKey h t tz scope \<noteq> Some ''''"
  by (auto simp: derivePeriodKey_def isoWeekKey_def Let_def show_int_def
      split: prod.splits RewardCapScope.splits)

lemma derivePeriodKey_NoCap: "derivePeriodKey h t tz scope = Some key \<Longrightarrow> scope \<noteq> NoCap"
  by (auto simp: derivePeriodKey_def)

definition spare_of :: "int \<Rightarrow> reward_award \<Rightarrow> string option \<Rightarrow> cap_key option" where
  "spare_of ent a periodKey = map_option (\<lambda>p. (ent, a_rule a, a_customer a, p)) periodKey"

lemma caps_release:
  assumes "slack (Some (ent, rule, cust, key)) s" and "releaseCapSlot ent rule cust key s = Inr (x, s')"
  shows "caps_cover s'"
  unfolding caps_cover_def
proof
  fix k
  have "granted_in s' k = granted_in s k" using release_used(2) [OF assms(2)] by (simp add: granted_in_def)
  then show "int (granted_in s' k) \<le> used_in s' k"
    using slackD [OF assms(1), of k] release_used(1) [OF assms(2), of k]
    by (cases "k = (ent, rule, cust, key)") auto
qed

lemma caps_grant:
  assumes run: "grant h ent i cust rule cur periodKey occ benefits s = Inr (r, s')"
    and a: "sole_award ent i a s" "a_period_key a = None"
    and sl: "slack (spare_of ent a periodKey) s"
    and rule: "periodKey \<noteq> None \<longrightarrow> r_id rule = a_rule a \<and> cust = a_customer a" and ne: "periodKey \<noteq> Some ''''"
  shows "caps_cover s'"
proof (cases "worthless benefits (grant_factor rule benefits)")
  case True
  let ?rel = "case periodKey of None \<Rightarrow> ret ()
    | Some key \<Rightarrow> if key = '''' then ret () else releaseCapSlot ent (r_id rule) cust key"
  from run True obtain y s1 z reason where 1: "?rel s = Inr (y, s1)"
    and 2: "markSkipped ent i SkippedZeroFactor reason periodKey s1 = Inr (z, s')"
    by (auto simp: grant_def Let_def andThen_Inr ret_def)
  have "caps_cover s1"
  proof (cases periodKey)
    case None
    with 1 sl show ?thesis by (simp add: ret_def spare_of_def)
  next
    case (Some key)
    with 1 sl rule ne show ?thesis
      by (intro caps_release [of ent "a_rule a" "a_customer a" key s y]) (auto simp: spare_of_def)
  qed
  then show ?thesis using caps_skip [OF 2, of None] by simp
next
  case False
  let ?I = "\<lambda>s. sole_award ent i a s \<and> slack (spare_of ent a periodKey) s"
  let ?all = "each (applyStored h ent i cust rule cur occ (grant_factor rule benefits)) benefits"
  from run False obtain s1 s2 f prov where 1: "?all s = Inr ((), s1)"
    and 2: "markGranted ent i f prov periodKey s1 = Inr ((), s2)" and 3: "same_caps s2 s'"
    by (auto simp: grant_def Let_def andThen_Inr ret_def audit_record_def modifies_def same_caps_def)
  have "payout_invariant ?I"
    by (rule payout_framed) (simp add: same_capsD)
  then have "keeps ?I ?all"
    unfolding applyStored_def
    by (intro keeps_each keeps_option triple_throw keeps_dispatch parsed_benefit_positive)
  moreover have "?I s" using a(1) sl by simp
  ultimately have "?I s1" using 1 by (rule tripleD)
  then have "caps_cover s2" using caps_markGranted [OF 2, of a] a(2) by (simp add: spare_of_def)
  then show ?thesis using same_capsD(1) [OF 3, of None] by simp
qed

lemma caps_capAndGrant:
  assumes run: "capAndGrant h rule ev program a s = Inr (r, s')"
    and a: "sole_award (ev_enterprise ev) (a_id a) a s" "a_period_key a = None"
    and key: "a_rule a = r_id rule" "a_customer a = ev_customer ev"
    and ok: "caps_cover s"
  shows "caps_cover s'"
proof (cases "r_cap_scope rule \<noteq> NoCap \<and> pr_timezone program = None")
  case True
  with run show ?thesis
    using caps_skip [of _ _ _ _ _ s _ s' None] ok
    by (auto simp: capAndGrant_def andThen_Inr ret_def)
next
  case False
  define periodKey where "periodKey = (case pr_timezone program of
    None \<Rightarrow> None | Some tz \<Rightarrow> derivePeriodKey h (ev_occurred ev) tz (r_cap_scope rule))"
  have ne: "periodKey \<noteq> Some ''''" and scope: "periodKey \<noteq> None \<longrightarrow> r_cap_scope rule \<noteq> NoCap"
    by (auto simp: periodKey_def derivePeriodKey_nonempty split: option.splits dest: derivePeriodKey_NoCap)
  let ?claim = "case periodKey of None \<Rightarrow> ret True
    | Some key \<Rightarrow> if r_cap_scope rule \<noteq> NoCap \<and> key \<noteq> ''''
        then claimCapSlot (ev_enterprise ev) (r_program rule) (r_id rule) (ev_customer ev) key (r_cap_count rule)
        else ret True"
  from run False obtain b s1 where 1: "?claim s = Inr (b, s1)"
    and 2: "(if \<not> b
          then andThen (markSkipped (ev_enterprise ev) (a_id a) SkippedCap ''cap_consumed'' periodKey)
                 (ret None)
          else
            bnd (reads (\<lambda>db. loadBenefits db (ev_enterprise ev) (r_id rule) (r_version rule))) (\<lambda>benefits.
            if hold_until rule ev \<noteq> None then ret None
            else
              bnd (grant h (ev_enterprise ev) (a_id a) (ev_customer ev) rule (pr_currency program)
                     periodKey (ev_occurred ev) benefits) (\<lambda>creditedPoints.
              ret (if creditedPoints then Some (a_id a) else None)))) s1 = Inr (r, s')"
    unfolding capAndGrant_def Let_def periodKey_def [symmetric] by (auto simp: bnd_Inr)
  show ?thesis
  proof (cases b)
    case False
    have "s1 = s"
    proof (cases periodKey)
      case None
      with 1 False show ?thesis by (simp add: ret_def)
    next
      case (Some k)
      with 1 False scope ne show ?thesis by (auto dest: claim_False)
    qed
    with 2 False ok show ?thesis
      using caps_skip [of _ _ _ _ _ s _ s' None] by (auto simp: andThen_Inr ret_def)
  next
    case True
    have aw: "awards s1 = awards s" and sl: "slack (spare_of (ev_enterprise ev) a periodKey) s1"
    proof -
      show "awards s1 = awards s"
        using 1 True claim_True(2) by (auto simp: ret_def split: option.splits if_splits)
      show "slack (spare_of (ev_enterprise ev) a periodKey) s1"
      proof (cases periodKey)
        case None
        with 1 ok show ?thesis by (simp add: ret_def spare_of_def)
      next
        case (Some k)
        with 1 True scope ne have c: "claimCapSlot (ev_enterprise ev) (r_program rule) (r_id rule)
            (ev_customer ev) k (r_cap_count rule) s = Inr (True, s1)" by auto
        show ?thesis
          unfolding slack_def
        proof
          fix key'
          have "int (granted_in s key') \<le> used_in s key'" using ok unfolding caps_cover_def by blast
          then show "int (granted_in s1 key') + (if spare_of (ev_enterprise ev) a periodKey = Some key' then 1 else 0)
              \<le> used_in s1 key'"
            using claim_True(1) [OF c, of key'] claim_True(2) [OF c] granted_in_frame [of s1 s] key Some by (auto simp: spare_of_def)
        qed
      qed
    qed
    show ?thesis
    proof (cases "hold_until rule ev = None")
      case False
      with 2 True have "s' = s1" by (auto simp: bnd_Inr reads_def ret_def)
      then show ?thesis using slack_weaken [OF sl] by simp
    next
      case nohold: True
      with 2 True obtain benefits c where g: "grant h (ev_enterprise ev) (a_id a) (a_customer a) rule
          (pr_currency program) periodKey (ev_occurred ev) benefits s1 = Inr (c, s')"
        by (auto simp: bnd_Inr reads_def ret_def key)
      show ?thesis
        by (rule caps_grant [OF g _ a(2) sl]) (use a(1) aw key ne in \<open>auto simp: sole_award_def\<close>)
    qed
  qed
qed

definition caps_ok :: "reward_db \<Rightarrow> bool" where
  "caps_ok s \<longleftrightarrow> engine_ok s \<and> caps_cover s"

lemma engine_ids: "engine_ok s \<Longrightarrow> distinct (map a_id (awards s))"
  by (simp add: engine_ok_def records_ok_def awards_ok_def)

lemma create_new:
  assumes "createIfAbsent k s = Inr (Some a, s')"
  shows "a \<in> set (awards s')" "a_period_key a = None" "a_rule a = k_rule k" "a_customer a = k_customer k"
    "a_enterprise a = k_enterprise k"
  using assms by (auto simp: createIfAbsent_def Let_def new_award_def split: if_splits)

lemma caps_create:
  assumes "caps_cover s" and "createIfAbsent k s = Inr (r, s')" and "k_status k \<noteq> Granted"
  shows "caps_cover s'"
  using assms(1) granted_create [OF assms(2,3)] used_in_frame [of s' s] by (simp add: caps_cover_def)

lemma caps_evaluateRule: "keeps caps_ok (evaluateRule h rule ev)"
proof (rule tripleI)
  fix s r s'
  assume ok: "caps_ok s" and run: "evaluateRule h rule ev s = Inr (r, s')"
  have eng: "engine_ok s'" using engine_inv.keeps_evaluateRule ok run unfolding caps_ok_def by (auto dest: tripleD)
  have "caps_cover s'"
  proof (cases "findProgramById s (ev_enterprise ev) (r_program rule)")
    case None
    with run ok show ?thesis by (simp add: evaluateRule_def bnd_def reads_def ret_def caps_ok_def)
  next
    case (Some program)
    let ?in = "\<lambda>outcome. award_input rule ev program (outcome = Passed)"
    from run Some obtain outcome created s1 where
      1: "createIfAbsent (?in outcome) s = Inr (created, s1)"
      and 2: "(case created of None \<Rightarrow> ret None | Some award \<Rightarrow> (case outcome of
         FailedBy kind \<Rightarrow> andThen (markSkipped (ev_enterprise ev) (a_id award) SkippedCondition
           (''condition_failed:'' @ kind) None) (ret None)
       | Passed \<Rightarrow> capAndGrant h rule ev program award)) s1 = Inr (r, s')"
      unfolding evaluateRule_def Let_def by (auto simp: bnd_Inr reads_def)
    have c1: "caps_cover s1"
      using caps_create [OF _ 1] ok by (auto simp: caps_ok_def award_input_def)
    have ids: "distinct (map a_id (awards s1))"
      using engine_ids tripleD [OF keeps_engine_create _ 1] ok by (auto simp: caps_ok_def)
    show ?thesis
    proof (cases created)
      case None
      with 2 c1 show ?thesis by (simp add: ret_def)
    next
      case (Some a)
      note new = create_new [OF 1 [unfolded Some]]
      show ?thesis
      proof (cases outcome)
        case Passed
        with 2 Some have g: "capAndGrant h rule ev program a s1 = Inr (r, s')" by simp
        show ?thesis
          by (rule caps_capAndGrant [OF g _ new(2) _ _ c1])
            (use ids new in \<open>simp_all add: sole_award_def award_input_def\<close>)
      next
        case (FailedBy kind)
        with 2 Some show ?thesis
          using caps_skip [of _ _ _ _ _ s1 _ s' None] c1 by (auto simp: andThen_Inr ret_def)
      qed
    qed
  qed
  with eng show "caps_ok s'" by (simp add: caps_ok_def)
qed

lemma caps_tryRule: "(\<And>e. keeps caps_ok (f e)) \<Longrightarrow> keeps caps_ok (tryRule h f ev rule)"
  unfolding tryRule_def offer_with_def
  by (intro keeps_if triple_ret keeps_bnd keeps_reads keeps_attempt caps_evaluateRule keeps_option
      keeps_andThen)

lemma caps_onTriggerEvent: "keeps caps_ok (onTriggerEvent h ev)"
proof -
  have "keeps caps_ok (onTriggerEvent_fuel h n ev)" for n
    by (induction n arbitrary: ev)
      (auto intro!: triple_throw keeps_bnd keeps_reads keeps_each caps_tryRule)
  then show ?thesis by (simp add: onTriggerEvent_def)
qed

subsection \<open>The sweep\<close>

lemma caps_grantHeldAward:
  assumes "a_period_key award = None"
  shows "keeps caps_ok (grantHeldAward h award)"
proof (rule tripleI)
  fix s r s'
  assume ok: "caps_ok s" and run: "grantHeldAward h award s = Inr (r, s')"
  have eng: "engine_ok s'"
    using engine_inv.keeps_grantHeldAward ok run unfolding caps_ok_def by (auto dest: tripleD)
  have "caps_cover s'"
  proof (cases "s' = s")
    case True
    with ok show ?thesis by (simp add: caps_ok_def)
  next
    case False
    with run obtain rule cur occ benefits c where lock: "lockHeldAward s (a_enterprise award) (a_id award)"
      and g: "grant h (a_enterprise award) (a_id award) (a_customer award) rule cur None occ benefits s = Inr (c, s')"
      using assms unfolding grantHeldAward_def
      by (auto simp: bnd_Inr reads_def ret_def split: if_splits option.splits)
    from lock obtain a where a: "a \<in> set (awards s)" "a_id a = a_id award"
      "a_enterprise a = a_enterprise award" "a_status a = Held"
      by (auto simp: lockHeldAward_def list_ex_iff)
    have ids: "distinct (map a_id (awards s))" and "a_period_key a = None"
      using ok a engine_ids by (auto simp: caps_ok_def engine_ok_def records_ok_def awards_ok_def award_ok_def)
    then have b: "sole_award (a_enterprise award) (a_id award) a s" "a_period_key a = None"
      using a by (simp_all add: sole_award_def)
    show ?thesis
      by (rule caps_grant [OF g b]) (use ok in \<open>simp_all add: caps_ok_def spare_of_def\<close>)
  qed
  with eng show "caps_ok s'" by (simp add: caps_ok_def)
qed

lemma caps_sweepAward: "a_period_key award = None \<Longrightarrow> keeps caps_ok (sweepAward h award)"
  unfolding sweepAward_def offerBalanceThresholds_def offer_with_def
  by (intro keeps_bnd keeps_attempt caps_grantHeldAward)
    (auto intro!: keeps_andThen keeps_attempt triple_ret keeps_if keeps_bnd keeps_reads caps_onTriggerEvent
      keeps_option split: option.splits)

lemma held_no_period:
  assumes "engine_ok s" and "a \<in> set (claimDueHeldAwards s limit)"
  shows "a_period_key a = None"
proof -
  have "a \<in> set (awards s)" "a_status a = Held"
    using assms(2) by (auto simp: claimDueHeldAwards_def dest: in_set_takeD)
  then show ?thesis using assms(1) by (simp add: engine_ok_def records_ok_def awards_ok_def award_ok_def)
qed

lemma caps_grantDueAwards: "keeps caps_ok (grantDueAwards h)"
proof (rule tripleI)
  fix s n s'
  assume ok: "caps_ok s" and "grantDueAwards h s = Inr (n, s')"
  then have run: "tally (sweepAward h) (claimDueHeldAwards s GRANT_BATCH_SIZE) s = Inr (n, s')"
    by (simp add: grantDueAwards_def bnd_def reads_def)
  have "keeps caps_ok (tally (sweepAward h) (claimDueHeldAwards s GRANT_BATCH_SIZE))"
    using held_no_period ok by (intro keeps_tally caps_sweepAward) (auto simp: caps_ok_def)
  then show "caps_ok s'" using ok run by (rule tripleD)
qed

subsection \<open>Reversal\<close>

lemma caps_markReversed:
  assumes run: "markReversed ent i reason s = Inr (x, s')" and a: "sole_award ent i a s"
  shows "int (granted_in s' key) + (if counts_for key a then 1 else 0) = int (granted_in s key)"
    and "used_in s' key = used_in s key"
proof -
  let ?f = "\<lambda>a. a\<lparr>a_status := Reversed, a_reversed_at := Some (clock s), a_reason := Some reason\<rparr>"
  have s': "s' = update_award ent i ?f s" using run by (auto simp: markReversed_def modifies_def)
  have "\<not> counts_for key (?f a)" by (simp add: counts_for_def)
  then show "int (granted_in s' key) + (if counts_for key a then 1 else 0) = int (granted_in s key)"
    using granted_mark [of "awards s" a i ent key ?f] a
    by (simp add: s' granted_in_def update_award_def sole_award_def split: if_splits)
  show "used_in s' key = used_in s key"
    by (simp add: s' used_in_def counter_of_def update_award_def)
qed

lemma compensate_same_caps:
  assumes "compensateAward h ent i cust ruleId ver occ s = Inr (x, s')"
  shows "same_caps s s'"
proof -
  have "undo_invariant (same_caps s)"
    by (rule undo_framed) (auto simp: same_caps_def)
  then have "keeps (same_caps s) (compensateAward h ent i cust ruleId ver occ)"
    by (rule keeps_compensateAward)
  moreover have "same_caps s s" by (simp add: same_caps_def)
  ultimately show ?thesis using assms by (rule tripleD)
qed

lemma caps_reverseAward:
  assumes run: "reverseAward h ent reason a s = Inr (x, s')" and ok: "caps_cover s"
    and a: "sole_award ent (a_id a) a s" and st: "a_status a = Granted \<or> a_period_key a = None"
  shows "caps_cover s'" and "\<And>b. b \<in> set (awards s) \<Longrightarrow> a_id b \<noteq> a_id a \<Longrightarrow> b \<in> set (awards s')"
proof -
  let ?rel = "case a_period_key a of None \<Rightarrow> ret () | Some key \<Rightarrow> if key = '''' then ret ()
      else releaseCapSlot ent (a_rule a) (a_customer a) key"
  from run obtain s1 y s2 z s3 u where
    1: "(if a_status a = Granted then compensateAward h ent (a_id a) (a_customer a) (a_rule a)
         (a_rule_version a) (a_occurred a) else ret ()) s = Inr (u, s1)"
    and 2: "?rel s1 = Inr (y, s2)" and 3: "markReversed ent (a_id a) reason s2 = Inr (z, s3)"
    and 4: "same_caps s3 s'"
    unfolding reverseAward_def by (auto simp: andThen_Inr audit_record_def modifies_def same_caps_def)
  have s1: "same_caps s s1"
    using 1 compensate_same_caps by (auto simp: ret_def same_caps_def split: if_splits)
  have aw: "awards s2 = awards s1"
    using 2 release_used(2) by (auto simp: ret_def split: option.splits if_splits)
  have a2: "sole_award ent (a_id a) a s2" using a s1 aw by (simp add: same_caps_def sole_award_def)
  have used: "used_in s1 key \<le> used_in s2 key + (if counts_for key a then 1 else 0)" for key
  proof (cases "a_period_key a")
    case None
    with 2 show ?thesis by (simp add: ret_def)
  next
    case (Some k)
    have "counts_for (ent, a_rule a, a_customer a, k) a"
      using st Some a by (auto simp: counts_for_def sole_award_def)
    then show ?thesis
      using 2 Some release_used(1) [of ent "a_rule a" "a_customer a" k s1 y s2 key]
      by (auto simp: ret_def split: if_splits)
  qed
  show "caps_cover s'"
    unfolding caps_cover_def
  proof
    fix key
    have "int (granted_in s key) \<le> used_in s key" using ok unfolding caps_cover_def by blast
    moreover have "granted_in s2 key = granted_in s key" "used_in s1 key = used_in s key"
      using s1 aw granted_in_frame [of s2 s] used_in_frame [of s1 s] by (simp_all add: same_caps_def)
    moreover have "granted_in s' key = granted_in s3 key" "used_in s' key = used_in s3 key"
      using 4 granted_in_frame [of s' s3] used_in_frame [of s' s3] by (simp_all add: same_caps_def)
    ultimately show "int (granted_in s' key) \<le> used_in s' key"
      using used [of key] caps_markReversed [OF 3 a2, of key] by (simp split: if_splits)
  qed
  show "b \<in> set (awards s')" if "b \<in> set (awards s)" "a_id b \<noteq> a_id a" for b
    using that 3 4 aw s1
    by (auto simp: same_caps_def markReversed_def modifies_def update_award_def set_update_where)
qed

lemma caps_tryReverse:
  assumes run: "tryReverse h ent reason a s = Inr (b, s')" and ok: "caps_ok s"
    and a: "a \<in> set (awards s)" "a_enterprise a = ent"
  shows "caps_ok s'" and "\<And>c. c \<in> set (awards s) \<Longrightarrow> a_id c \<noteq> a_id a \<Longrightarrow> c \<in> set (awards s')"
proof -
  have eng: "engine_ok s'"
    using tripleD [OF engine_inv.keeps_tryReverse _ run] ok by (simp add: caps_ok_def)
  have sole: "sole_award ent (a_id a) a s"
    using a ok engine_ids by (auto simp: sole_award_def caps_ok_def)
  have "s' = s \<or> (\<exists>x. reverseAward h ent reason a s = Inr (x, s')) \<and> (a_status a = Granted \<or> a_status a = Held)"
    using run
    by (auto simp: tryReverse_def bnd_Inr reads_def ret_def attempt_def split: if_splits option.splits sum.splits)
  then consider "s' = s" | x where "reverseAward h ent reason a s = Inr (x, s')"
      "a_status a = Granted \<or> a_status a = Held" by blast
  then have "caps_cover s' \<and> (\<forall>c. c \<in> set (awards s) \<longrightarrow> a_id c \<noteq> a_id a \<longrightarrow> c \<in> set (awards s'))"
  proof cases
    case 1
    with ok show ?thesis by (simp add: caps_ok_def)
  next
    case 2
    have st: "a_status a = Granted \<or> a_period_key a = None"
      using 2(2) ok a(1) by (auto simp: caps_ok_def engine_ok_def records_ok_def awards_ok_def award_ok_def)
    have "caps_cover s" using ok by (simp add: caps_ok_def)
    from caps_reverseAward [OF 2(1) this sole st] show ?thesis by blast
  qed
  with eng show "caps_ok s'" and "\<And>c. c \<in> set (awards s) \<Longrightarrow> a_id c \<noteq> a_id a \<Longrightarrow> c \<in> set (awards s')"
    by (auto simp: caps_ok_def)
qed

lemma caps_tally_reverse:
  "tally (tryReverse h ent reason) as s = Inr (n, s') \<Longrightarrow> caps_ok s \<Longrightarrow> set as \<subseteq> set (awards s) \<Longrightarrow>
   distinct (map a_id as) \<Longrightarrow> (\<And>a. a \<in> set as \<Longrightarrow> a_enterprise a = ent) \<Longrightarrow> caps_ok s'"
proof (induction as arbitrary: s n)
  case Nil
  then show ?case by (simp add: ret_def)
next
  case (Cons a as)
  from Cons.prems(1) obtain b s1 m where 1: "tryReverse h ent reason a s = Inr (b, s1)"
    and 2: "tally (tryReverse h ent reason) as s1 = Inr (m, s')"
    by (auto simp: bnd_Inr ret_def)
  note step = caps_tryReverse [OF 1 Cons.prems(2)]
  have "caps_ok s1" using step(1) Cons.prems(3,5) by simp
  moreover have "set as \<subseteq> set (awards s1)"
  proof
    fix c assume c: "c \<in> set as"
    have "a_id c \<noteq> a_id a" by (rule distinct_map_Cons_neq [OF Cons.prems(4) c])
    then show "c \<in> set (awards s1)" using step(2) Cons.prems(3,5) c by auto
  qed
  ultimately show ?case using Cons.IH [OF 2] Cons.prems(4,5) by simp
qed

lemma caps_reverseForDeletedContent: "keeps caps_ok (reverseForDeletedContent h ent kind src reason)"
proof (rule tripleI)
  fix s n s'
  assume ok: "caps_ok s" and "reverseForDeletedContent h ent kind src reason s = Inr (n, s')"
  then have run: "tally (tryReverse h ent reason) (findBySource s ent kind src) s = Inr (n, s')"
    by (simp add: reverseForDeletedContent_def bnd_def reads_def)
  have "distinct (map a_id (findBySource s ent kind src))"
    using ok engine_ids unfolding findBySource_def caps_ok_def by (auto intro: distinct_map_filter)
  with run ok show "caps_ok s'"
    by (intro caps_tally_reverse [OF run ok]) (auto simp: findBySource_def)
qed

lemma caps_other:
  "keeps caps_ok (adjustBalance actor ent inp)"
  "keeps caps_ok (expireLapsed limit)"
proof -
  have e: "keeps engine_ok (adjustBalance actor ent inp)" "keeps engine_ok (expireLapsed limit)"
    by (rule engine_inv.keeps_adjustBalance, rule engine_inv.I_expire)
  have "steps same_caps (adjustBalance actor ent inp)"
    by (rule stepsI)
      (auto simp: adjustBalance_def same_caps_def bnd_Inr andThen_Inr reads_def ret_def throw_def
        audit_record_def modifies_def postUnchecked_def ensure_Inr post_Inr move_and_write_Inr
        split: option.splits)
  moreover have "steps same_caps (expireLapsed limit)"
    by (rule stepsI) (auto simp: expireLapsed_def same_caps_def Let_def)
  ultimately have "keeps caps_cover (adjustBalance actor ent inp)" "keeps caps_cover (expireLapsed limit)"
    using same_capsD(1) [of _ _ None] by (auto elim!: keeps_from_steps)
  with e show "keeps caps_ok (adjustBalance actor ent inp)" "keeps caps_ok (expireLapsed limit)"
    unfolding caps_ok_def triple_def by blast+
qed

end
