(* ===== verification/Reward_Bank.thy ===== *)
theory Reward_Bank
  imports Reward_Ledger
begin

text \<open>
  What the wallet repository promises, without wallets, entries, cached balances or versions: a
  bank that knows how much each open purse holds, which receipts it has given out and which
  postings have been undone. \<open>bank_of\<close> forgets everything else, and reads the holdings off the
  ledger alone; the operations of \<open>Reward_Ledger\<close>, which guard on the cached balance of a row,
  refine the operations of the bank.
\<close>

record bank =
  purse :: "int \<times> int \<Rightarrow> int option"
  receipt :: "int \<times> string \<Rightarrow> (int \<times> int) option"
  undone :: "int \<times> int \<Rightarrow> bool"

definition bank_of :: "reward_db \<Rightarrow> bank" where
  "bank_of db =
     \<lparr> purse = (\<lambda>(ent, wid). if wallet_by_id db ent wid = None then None else Some (sumEntries db ent wid)),
       receipt = (\<lambda>(ent, key). map_option (\<lambda>e. (e_wallet e, e_amount e)) (entry_by_key db ent key)),
       undone = (\<lambda>(ent, r). list_ex (\<lambda>e. e_enterprise e = ent \<and> e_reverses e = Some r) (ledger db)) \<rparr>"

text \<open>Moving money: a receipt is given, and an undone posting is remembered.\<close>

definition bank_move :: "post_input \<Rightarrow> int \<Rightarrow> bank \<Rightarrow> bank" where
  "bank_move p held b =
     \<lparr> purse = (purse b)((p_enterprise p, p_wallet p) \<mapsto> held + p_amount p),
       receipt = (receipt b)((p_enterprise p, p_key p) \<mapsto> (p_wallet p, p_amount p)),
       undone = (\<lambda>(ent, r). undone b (ent, r) \<or> (ent = p_enterprise p \<and> p_reverses p = Some r)) \<rparr>"

definition bank_refuses :: "post_input \<Rightarrow> bank \<Rightarrow> bool" where
  "bank_refuses p b \<longleftrightarrow> (case p_reverses p of None \<Rightarrow> False | Some r \<Rightarrow> undone b (p_enterprise p, r))"

definition bank_post :: "post_input \<Rightarrow> bank \<Rightarrow> reward_error + bank" where
  "bank_post p b =
     (if receipt b (p_enterprise p, p_key p) \<noteq> None then Inr b
      else case purse b (p_enterprise p, p_wallet p) of
          None \<Rightarrow> Inl (WalletNotFound (p_wallet p))
        | Some held \<Rightarrow> if bank_refuses p b then Inl (UniqueViolation ''reward_ledger_reversal_uniq'') else Inr (bank_move p held b))"

text \<open>The Boolean says whether the debit happened, now or before.\<close>

definition bank_debit :: "post_input \<Rightarrow> bank \<Rightarrow> reward_error + (bool \<times> bank)" where
  "bank_debit p b =
     (if 0 \<le> p_amount p then Inl DebitNeedsNegativeAmount
      else if receipt b (p_enterprise p, p_key p) \<noteq> None then Inr (True, b)
      else case purse b (p_enterprise p, p_wallet p) of
          None \<Rightarrow> Inl (WalletNotFound (p_wallet p))
        | Some held \<Rightarrow>
            if held + p_amount p < 0 then Inr (False, b)
            else if bank_refuses p b then Inl (UniqueViolation ''reward_ledger_reversal_uniq'')
            else Inr (True, bank_move p held b))"

definition bank_open :: "int \<Rightarrow> int \<Rightarrow> bank \<Rightarrow> bank" where
  "bank_open ent wid b = b\<lparr>purse := (purse b)((ent, wid) \<mapsto> (case purse b (ent, wid) of None \<Rightarrow> 0 | Some m \<Rightarrow> m))\<rparr>"

lemma purse_wallet:
  assumes "books_ok db" and "wallet_by_id db ent wid = Some w"
  shows "purse (bank_of db) (ent, wid) = Some (w_balance w)"
proof -
  have "w_balance w = sum_of ent wid (ledger db)"
    using booksD(4) [of "wallets db" "ledger db" w] assms wallet_by_idD [OF assms(2)] by (simp add: books_ok_def)
  then show ?thesis using assms(2) by (simp add: bank_of_def sumEntries_def)
qed

lemma wallet_moved: "wallet_by_id (db\<lparr>wallets := moved p l (wallets db), ledger := es\<rparr>) ent wid = None
    \<longleftrightarrow> wallet_by_id db ent wid = None"
  by (simp add: wallet_by_id_def moved_def find_update_where)

lemma bank_refuses_iff: "bank_refuses p (bank_of db) \<longleftrightarrow> already_reversed db p"
  by (simp add: bank_refuses_def already_reversed_def bank_of_def split: option.split)

lemma bank_of_moved:
  assumes "books_ok db" and w: "wallet_by_id db (p_enterprise p) (p_wallet p) = Some w"
    and "entry_by_key db (p_enterprise p) (p_key p) = None"
    and mv: "move_and_write p l w db = Inr (e, db')"
  shows "bank_of db' = bank_move p (w_balance w) (bank_of db)"
proof -
  have e: "e = entry_of p (fresh_id (map e_id (ledger db))) (w_balance w + p_amount p)"
    and db': "db' = db\<lparr>wallets := moved p l (wallets db), ledger := ledger db @ [e]\<rparr>"
    using mv by (simp_all add: move_and_write_Inr)
  have bal: "w_balance w = sum_of (p_enterprise p) (p_wallet p) (ledger db)"
    using purse_wallet [OF assms(1) w] w by (simp add: bank_of_def sumEntries_def)
  have "purse (bank_of db') (ent, wid) = purse (bank_move p (w_balance w) (bank_of db)) (ent, wid)" for ent wid
    using w bal by (auto simp: bank_of_def bank_move_def db' wallet_moved sumEntries_def sum_of_single e)
  moreover have "receipt (bank_of db') (ent, key) = receipt (bank_move p (w_balance w) (bank_of db)) (ent, key)" for ent key
    using assms(3) by (auto simp: bank_of_def bank_move_def db' entry_by_key_def find_append e split: option.splits)
  moreover have "undone (bank_of db') (ent, r) = undone (bank_move p (w_balance w) (bank_of db)) (ent, r)" for ent r
    by (auto simp: bank_of_def bank_move_def db' e)
  ultimately show ?thesis by (intro bank.equality ext) auto
qed

lemma receipt_iff: "receipt (bank_of db) (ent, key) = None \<longleftrightarrow> entry_by_key db ent key = None"
  by (simp add: bank_of_def)

lemma purse_None: "wallet_by_id db ent wid = None \<Longrightarrow> purse (bank_of db) (ent, wid) = None"
  by (simp add: bank_of_def)

lemma post_refines:
  assumes "books_ok db"
  shows "map_sum id (\<lambda>(e, db'). bank_of db') (post p isEarn db) = bank_post p (bank_of db)"
proof (cases "entry_by_key db (p_enterprise p) (p_key p)")
  case (Some e)
  then show ?thesis using receipt_iff [of db "p_enterprise p" "p_key p"] by (simp add: post_def bank_post_def)
next
  case None
  note r = receipt_iff [of db "p_enterprise p" "p_key p"]
  show ?thesis
  proof (cases "wallet_by_id db (p_enterprise p) (p_wallet p)")
    case (Some w)
    let ?l = "if isEarn \<and> 0 < p_amount p then p_amount p else 0"
    show ?thesis
    proof (cases "already_reversed db p")
      case True
      then have "move_and_write p ?l w db = Inl (UniqueViolation ''reward_ledger_reversal_uniq'')"
        by (simp add: move_and_write_def)
      then show ?thesis using None Some r purse_wallet [OF assms Some] bank_refuses_iff [of p db] True
        by (simp add: post_def bank_post_def Let_def)
    next
      case False
      then obtain e db' where m: "move_and_write p ?l w db = Inr (e, db')" by (auto simp: move_and_write_def Let_def)
      then show ?thesis
        using None Some r purse_wallet [OF assms Some] bank_refuses_iff [of p db] False bank_of_moved [OF assms Some None m]
        by (simp add: post_def bank_post_def Let_def)
    qed
  qed (use None r purse_None in \<open>simp add: post_def bank_post_def\<close>)
qed

lemma debit_refines:
  assumes "books_ok db"
  shows "map_sum id (\<lambda>(x, db'). (x \<noteq> None, bank_of db')) (debitIfSufficient p db) = bank_debit p (bank_of db)"
proof (cases "0 \<le> p_amount p \<or> entry_by_key db (p_enterprise p) (p_key p) \<noteq> None")
  case True
  then show ?thesis using receipt_iff [of db "p_enterprise p" "p_key p"] by (auto simp: debitIfSufficient_def bank_debit_def)
next
  case False
  then have None: "entry_by_key db (p_enterprise p) (p_key p) = None" "\<not> 0 \<le> p_amount p" by simp_all
  note r = receipt_iff [of db "p_enterprise p" "p_key p"]
  show ?thesis
  proof (cases "wallet_by_id db (p_enterprise p) (p_wallet p)")
    case (Some w)
    have suff: "\<bar>p_amount p\<bar> \<le> w_balance w \<longleftrightarrow> \<not> w_balance w + p_amount p < 0" using None(2) by linarith
    show ?thesis
    proof (cases "already_reversed db p")
      case True
      then have "move_and_write p 0 w db = Inl (UniqueViolation ''reward_ledger_reversal_uniq'')"
        by (simp add: move_and_write_def)
      then show ?thesis using None Some r purse_wallet [OF assms Some] bank_refuses_iff [of p db] True suff
        by (simp add: debitIfSufficient_def bank_debit_def Let_def)
    next
      case False
      then obtain e db' where m: "move_and_write p 0 w db = Inr (e, db')" by (auto simp: move_and_write_def Let_def)
      then show ?thesis
        using None Some r purse_wallet [OF assms Some] bank_refuses_iff [of p db] False bank_of_moved [OF assms Some None(1) m] suff
        by (simp add: debitIfSufficient_def bank_debit_def Let_def)
    qed
  qed (use None r purse_None in \<open>simp add: debitIfSufficient_def bank_debit_def\<close>)
qed

lemma open_refines:
  assumes ok: "books_ok db" and e: "ensureCustomerWallet ent cust kind cur db = Inr (w, db')"
  shows "bank_of db' = bank_open ent (w_id w) (bank_of db)"
proof (cases "find (same_slot ent cust kind cur) (wallets db)")
  case (Some v)
  then have v: "w = v" "db' = db" "v \<in> set (wallets db)" "w_enterprise v = ent" "\<not> w_deleted v"
    using e find_Some_iff_mem [OF Some] by (auto simp: ensureCustomerWallet_def same_slot_def split: if_splits)
  have "wallet_by_id db ent (w_id v) \<noteq> None" using v by (auto simp: wallet_by_id_def find_None_all)
  then show ?thesis using v by (auto simp: bank_open_def bank_of_def fun_eq_iff)
next
  case None
  let ?i = "fresh_id (map w_id (wallets db))"
  have w: "w_id w = ?i" "w_enterprise w = ent" "\<not> w_deleted w" and db': "db' = db\<lparr>wallets := wallets db @ [w]\<rparr>"
    using e None by (auto simp: ensureCustomerWallet_def Let_def split: if_splits)
  have new: "v \<in> set (wallets db) \<Longrightarrow> w_id v \<noteq> ?i" for v using fresh_id_map [of v "wallets db" w_id] by fastforce
  then have none: "wallet_by_id db x ?i = None" for x by (auto simp: wallet_by_id_def find_None_all)
  have zero: "sumEntries db ent ?i = 0"
    unfolding sumEntries_def
  proof (rule sum_of_none)
    fix x assume "x \<in> set (ledger db)"
    then obtain v where "v \<in> set (wallets db)" "w_id v = e_wallet x" using ok unfolding books_ok_def books_def by blast
    with new [of v] show "\<not> (e_enterprise x = ent \<and> e_wallet x = ?i)" by auto
  qed
  have find: "wallet_by_id db' x y = (if x = ent \<and> y = ?i then Some w else wallet_by_id db x y)" for x y
    using none w by (auto simp: wallet_by_id_def db' find_append split: option.splits)
  have "ledger db' = ledger db" by (simp add: db')
  then have "purse (bank_of db') (x, y) = purse (bank_open ent ?i (bank_of db)) (x, y)" for x y
    using none zero by (auto simp: bank_open_def bank_of_def find sumEntries_def)
  then have "purse (bank_of db') = purse (bank_open ent ?i (bank_of db))" by (intro ext) (metis surj_pair)
  moreover have "receipt (bank_of db') = receipt (bank_open ent ?i (bank_of db))" "undone (bank_of db') = undone (bank_open ent ?i (bank_of db))"
    by (simp_all add: bank_of_def bank_open_def db' entry_by_key_def)
  ultimately show ?thesis unfolding w(1) by (intro bank.equality) simp_all
qed

text \<open>C15: The wallet repository is a bank. On books that balance, a posting, a conditional debit and the
  opening of a wallet do to holdings, receipts and reversals exactly what the bank's operations
  do, refusals included, although they decide on a cached balance and the bank on the ledger
  alone: a key pays once, a debit never goes below zero, an entry is undone once, and opening a
  wallet moves nothing.\<close>

theorem repository_refines_bank:
  assumes "books_ok db"
  shows "map_sum id (\<lambda>(e, db'). bank_of db') (post p isEarn db) = bank_post p (bank_of db)
    \<and> map_sum id (\<lambda>(x, db'). (x \<noteq> None, bank_of db')) (debitIfSufficient p db) = bank_debit p (bank_of db)
    \<and> (case ensureCustomerWallet ent cust kind cur db of Inl err \<Rightarrow> \<not> currency_chk kind cur
       | Inr (w, db') \<Rightarrow> bank_of db' = bank_open ent (w_id w) (bank_of db))"
proof -
  have "ensureCustomerWallet ent cust kind cur db = Inl err \<Longrightarrow> \<not> currency_chk kind cur" for err
    by (auto simp: ensureCustomerWallet_def Let_def split: if_splits option.splits)
  then show ?thesis using post_refines [OF assms] debit_refines [OF assms] open_refines [OF assms]
    by (auto split: sum.split)
qed

end
