(* ===== verification/Reward_Schedule.thy ===== *)
theory Reward_Schedule
  imports Reward_Conditions
begin

text \<open>
  The schedule of a program, in its two shapes. The form asks day by day, with no hours meaning
  the whole day; the engine stores one \<open>time_window\<close> condition whose slots name their days.
  \<open>programConditions\<close> and \<open>conditionsToSchedule\<close> of \<open>modules/rewards/rewards.service.ts\<close> convert
  between them. This theory shows when the form gets back what it saved, and when not.
\<close>

record day_slot =
  ds_start :: string
  ds_end :: string

record schedule_day =
  iso_day :: int
  day_slots :: "day_slot list"

definition ScheduleDaySchema :: "schedule_day \<Rightarrow> bool" where
  "ScheduleDaySchema d \<longleftrightarrow> 1 \<le> iso_day d \<and> iso_day d \<le> 7 \<and> length (day_slots d) \<le> 8
     \<and> list_all (\<lambda>s. WallClockSchema (ds_start s) \<and> WallClockSchema (ds_end s)) (day_slots d)"

definition day_windows :: "schedule_day \<Rightarrow> time_slot list" where
  "day_windows d =
     (if day_slots d = [] then [\<lparr> slot_days = [iso_day d], slot_start = ''00:00'', slot_end = ''23:59'' \<rparr>]
      else map (\<lambda>s. \<lparr> slot_days = [iso_day d], slot_start = ds_start s, slot_end = ds_end s \<rparr>) (day_slots d))"

definition programConditions :: "schedule_day list \<Rightarrow> reward_condition list \<Rightarrow> reward_condition list" where
  "programConditions days others = (if days = [] then others else CTimeWindow (concat (map day_windows days)) # others)"

text \<open>The map \<open>byDay\<close> in insertion order.\<close>

fun upsert_day :: "int \<Rightarrow> day_slot list \<Rightarrow> (int \<times> day_slot list) list \<Rightarrow> (int \<times> day_slot list) list" where
  "upsert_day d new [] = [(d, new)]"
| "upsert_day d new ((k, held) # rest) = (if k = d then (k, held @ new) # rest else (k, held) # upsert_day d new rest)"

definition whole_day :: "string \<Rightarrow> string \<Rightarrow> bool" where
  "whole_day s e \<longleftrightarrow> s = ''00:00'' \<and> e = ''23:59''"

definition hold_slot :: "time_slot \<Rightarrow> (int \<times> day_slot list) list \<Rightarrow> (int \<times> day_slot list) list" where
  "hold_slot s byDay =
     fold (\<lambda>d. upsert_day d (if whole_day (slot_start s) (slot_end s) then [] else [\<lparr> ds_start = slot_start s, ds_end = slot_end s \<rparr>]))
       (slot_days s) byDay"

fun hold_condition :: "reward_condition \<Rightarrow> (int \<times> day_slot list) list \<Rightarrow> (int \<times> day_slot list) list" where
  "hold_condition (CTimeWindow slots) byDay = fold hold_slot slots byDay"
| "hold_condition (CCustomerTenure n) byDay = byDay"
| "hold_condition (CContentMatch ws) byDay = byDay"

definition conditionsToSchedule :: "reward_condition list \<Rightarrow> schedule_day list" where
  "conditionsToSchedule conditions =
     map (\<lambda>(d, slots). \<lparr> iso_day = d, day_slots = slots \<rparr>) (sort_key fst (fold hold_condition conditions []))"

section \<open>The round trip\<close>

text \<open>The contract refuses a \<open>time_window\<close> among the other conditions.\<close>

fun is_time_window :: "reward_condition \<Rightarrow> bool" where
  "is_time_window (CTimeWindow _) = True"
| "is_time_window _ = False"

definition partial_slots :: "day_slot list \<Rightarrow> day_slot list" where
  "partial_slots = filter (\<lambda>s. \<not> whole_day (ds_start s) (ds_end s))"

lemma upsert_new: "d \<notin> fst ` set m \<Longrightarrow> upsert_day d new m = m @ [(d, new)]"
  by (induction m) auto

lemma upsert_last: "d \<notin> fst ` set m \<Longrightarrow> upsert_day d new (m @ [(d, held)]) = m @ [(d, held @ new)]"
  by (induction m) auto

lemma hold_day_slots:
  assumes "d \<notin> fst ` set m"
  shows "fold hold_slot (map (\<lambda>s. \<lparr> slot_days = [d], slot_start = ds_start s, slot_end = ds_end s \<rparr>) ss) (m @ [(d, held)])
    = m @ [(d, held @ partial_slots ss)]"
proof (induction ss arbitrary: held)
  case (Cons s ss)
  have "\<lparr> ds_start = ds_start s, ds_end = ds_end s \<rparr> = s" by simp
  with Cons show ?case by (simp add: hold_slot_def upsert_last [OF assms] partial_slots_def)
qed (simp add: partial_slots_def)

lemma hold_day:
  assumes "iso_day d \<notin> fst ` set m"
  shows "fold hold_slot (day_windows d) m = m @ [(iso_day d, partial_slots (day_slots d))]"
proof (cases "day_slots d")
  case Nil
  then show ?thesis by (simp add: day_windows_def hold_slot_def whole_day_def upsert_new [OF assms] partial_slots_def)
next
  case (Cons s ss)
  have "\<lparr> ds_start = ds_start s, ds_end = ds_end s \<rparr> = s" by simp
  then have "hold_slot \<lparr> slot_days = [iso_day d], slot_start = ds_start s, slot_end = ds_end s \<rparr> m = m @ [(iso_day d, partial_slots [s])]"
    by (simp add: hold_slot_def upsert_new [OF assms] partial_slots_def)
  then show ?thesis using hold_day_slots [OF assms, of ss] by (simp add: day_windows_def Cons partial_slots_def)
qed

lemma hold_days:
  assumes "distinct (map iso_day ds)" and "fst ` set m \<inter> iso_day ` set ds = {}"
  shows "fold hold_slot (concat (map day_windows ds)) m = m @ map (\<lambda>d. (iso_day d, partial_slots (day_slots d))) ds"
  using assms
proof (induction ds arbitrary: m)
  case (Cons d ds)
  then have "iso_day d \<notin> fst ` set m" by auto
  moreover have "fst ` set (m @ [(iso_day d, partial_slots (day_slots d))]) \<inter> iso_day ` set ds = {}" using Cons.prems by auto
  ultimately show ?case using Cons hold_day [of d m] by simp
qed simp

lemma hold_others: "list_all (\<lambda>c. \<not> is_time_window c) cs \<Longrightarrow> fold hold_condition cs m = m"
proof (induction cs)
  case (Cons c cs)
  then show ?case by (cases c) simp_all
qed simp

lemma insort_key_map: "insort_key k (f x) (map f xs) = map f (insort_key (k \<circ> f) x xs)"
  by (induction xs) simp_all

lemma sort_key_map_comp: "sort_key k (map f xs) = map f (sort_key (k \<circ> f) xs)"
  by (induction xs) (simp_all add: insort_key_map comp_def)

lemma schedule_back:
  assumes "distinct (map iso_day days)" and "list_all (\<lambda>c. \<not> is_time_window c) others"
  shows "conditionsToSchedule (programConditions days others)
    = map (\<lambda>d. d\<lparr>day_slots := partial_slots (day_slots d)\<rparr>) (sort_key iso_day days)"
proof -
  have "fold hold_condition (programConditions days others) [] = map (\<lambda>d. (iso_day d, partial_slots (day_slots d))) days"
    using hold_days [OF assms(1), of "[]"] hold_others [OF assms(2)] by (auto simp: programConditions_def)
  then show ?thesis by (simp add: conditionsToSchedule_def sort_key_map_comp comp_def)
qed



section \<open>Where it narrows\<close>

definition busy_monday :: schedule_day where
  "busy_monday = \<lparr> iso_day = 1, day_slots = [\<lparr> ds_start = ''00:00'', ds_end = ''23:59'' \<rparr>, \<lparr> ds_start = ''09:00'', ds_end = ''10:00'' \<rparr>] \<rparr>"

text \<open>A day with an explicit whole-day slot next to another loses the day when the form is saved again.
  The contract accepts such a day and the engine then rewards at noon on Monday; the form reads
  it back with the whole-day slot gone, and saving what it read stores nine to ten only, so
  noon is refused.\<close>

theorem whole_day_slot_narrows:
  "ScheduleDaySchema busy_monday
   \<and> list_ex (slot_matches 1 720) (day_windows busy_monday)
   \<and> conditionsToSchedule (programConditions [busy_monday] []) = [busy_monday\<lparr>day_slots := [\<lparr> ds_start = ''09:00'', ds_end = ''10:00'' \<rparr>]\<rparr>]
   \<and> \<not> list_ex (slot_matches 1 720) (concat (map day_windows (conditionsToSchedule (programConditions [busy_monday] []))))"
proof -
  have b: "conditionsToSchedule (programConditions [busy_monday] [])
      = [busy_monday\<lparr>day_slots := [\<lparr> ds_start = ''09:00'', ds_end = ''10:00'' \<rparr>]\<rparr>]"
    using schedule_back [of "[busy_monday]" "[]"] by (simp add: partial_slots_def busy_monday_def whole_day_def)
  have "ScheduleDaySchema busy_monday" "list_ex (slot_matches 1 720) (day_windows busy_monday)" by code_simp+
  moreover have "\<not> list_ex (slot_matches 1 720) (concat (map day_windows [busy_monday\<lparr>day_slots := [\<lparr> ds_start = ''09:00'', ds_end = ''10:00'' \<rparr>]\<rparr>]))"
    by code_simp
  ultimately show ?thesis using b by simp
qed

end
