(* ===== verification/Rbac_Authority.thy ===== *)
theory Rbac_Authority
  imports Prelude
begin

text \<open>
  The pure rules of who may hand out what (\<open>shared/rbac/authority.ts\<close>), which changes of an
  employment an administrator may make (\<open>shared/rbac/employee-lifecycle.ts\<close>) and which permission
  governs which kind of thread (\<open>shared/rbac/conversation-permissions.ts\<close>), with the enumerations
  they use from \<open>shared/enums/permission.enum.ts\<close>.
\<close>

section \<open>Levels and roles\<close>

datatype SystemRole = Owner | Manager | Agent | Viewer | Support | Ops

fun system_role_name :: "SystemRole \<Rightarrow> string" where
  "system_role_name Owner = ''owner''"
| "system_role_name Manager = ''manager''"
| "system_role_name Agent = ''agent''"
| "system_role_name Viewer = ''viewer''"
| "system_role_name Support = ''support''"
| "system_role_name Ops = ''ops''"

definition ROLE_LEVEL_Owner :: int where "ROLE_LEVEL_Owner = 100"

fun SYSTEM_ROLE_LEVELS :: "SystemRole \<Rightarrow> int" where
  "SYSTEM_ROLE_LEVELS Owner = ROLE_LEVEL_Owner"
| "SYSTEM_ROLE_LEVELS Manager = 70"
| "SYSTEM_ROLE_LEVELS Agent = 40"
| "SYSTEM_ROLE_LEVELS Viewer = 10"
| "SYSTEM_ROLE_LEVELS Support = 40"
| "SYSTEM_ROLE_LEVELS Ops = 70"

definition MAX_CREATABLE_ROLE_LEVEL :: int where
  "MAX_CREATABLE_ROLE_LEVEL = ROLE_LEVEL_Owner - 1"

definition highestRoleLevel :: "int list \<Rightarrow> int option" where
  "highestRoleLevel levels = (case levels of [] \<Rightarrow> None | l # ls \<Rightarrow> Some (foldr max ls l))"

lemma highestRoleLevel_None [simp]: "highestRoleLevel ls = None \<longleftrightarrow> ls = []"
  by (simp add: highestRoleLevel_def split: list.splits)

lemma foldr_max: "l \<in> set ls \<Longrightarrow> l \<le> foldr max ls (k :: int)" "k \<le> foldr max ls k"
  "foldr max ls k = k \<or> foldr max ls k \<in> set ls"
  by (induction ls) (auto simp: le_max_iff_disj max_def)

lemma highestRoleLevel_Some:
  assumes "highestRoleLevel ls = Some m"
  shows "m \<in> set ls" and "l \<in> set ls \<Longrightarrow> l \<le> m"
  using assms foldr_max(1,2) foldr_max(3) [of "tl ls" "hd ls"]
  by (auto simp: highestRoleLevel_def split: list.splits)

section \<open>Authority\<close>

datatype AuthorityDenial =
    actor_has_no_authority
  | role_not_below_actor
  | owner_grants_owner
  | permissions_exceed_actor
  | target_not_below_actor
  | cannot_act_on_self
  | system_role_immutable
  | owner_level_reserved

record ActorAuthority =
  aa_employee :: int
  aa_level :: "int option"
  aa_roleNames :: "string list"
  aa_permissions :: "string list"

record TargetRole =
  tr_name :: string
  tr_level :: int
  tr_isSystem :: bool
  tr_permissions :: "string list"

definition isOwner :: "ActorAuthority \<Rightarrow> bool" where
  "isOwner actor \<longleftrightarrow> system_role_name Owner \<in> set (aa_roleNames actor)"

definition exceeds :: "ActorAuthority \<Rightarrow> string list \<Rightarrow> bool" where
  "exceeds actor codes \<longleftrightarrow> list_ex (\<lambda>code. code \<notin> set (aa_permissions actor)) codes"

definition mayAssignRole :: "ActorAuthority \<Rightarrow> TargetRole \<Rightarrow> AuthorityDenial option" where
  "mayAssignRole actor role =
     (case aa_level actor of
        None \<Rightarrow> Some actor_has_no_authority
      | Some level \<Rightarrow>
          if tr_name role = system_role_name Owner \<or> ROLE_LEVEL_Owner \<le> tr_level role
          then (if isOwner actor then None else Some owner_grants_owner)
          else if level \<le> tr_level role then Some role_not_below_actor
          else if exceeds actor (tr_permissions role) then Some permissions_exceed_actor
          else None)"

definition mayDefineRole :: "ActorAuthority \<Rightarrow> int \<Rightarrow> string list \<Rightarrow> bool \<Rightarrow> AuthorityDenial option" where
  "mayDefineRole actor roleLevel codes isSystem =
     (case aa_level actor of
        None \<Rightarrow> Some actor_has_no_authority
      | Some level \<Rightarrow>
          if isSystem then Some system_role_immutable
          else if MAX_CREATABLE_ROLE_LEVEL < roleLevel then Some owner_level_reserved
          else if level \<le> roleLevel then Some role_not_below_actor
          else if exceeds actor codes then Some permissions_exceed_actor
          else None)"

definition mayModifyEmployee :: "ActorAuthority \<Rightarrow> int \<Rightarrow> int option \<Rightarrow> AuthorityDenial option" where
  "mayModifyEmployee actor targetEmployee targetLevel =
     (if aa_employee actor = targetEmployee then Some cannot_act_on_self
      else case aa_level actor of
        None \<Rightarrow> Some actor_has_no_authority
      | Some level \<Rightarrow>
          (case targetLevel of
             None \<Rightarrow> None
           | Some target \<Rightarrow>
               if ROLE_LEVEL_Owner \<le> target \<and> ROLE_LEVEL_Owner \<le> level then None
               else if level \<le> target then Some target_not_below_actor
               else None))"

definition maySeeEmployee :: "int option \<Rightarrow> int option \<Rightarrow> bool" where
  "maySeeEmployee actorLevel targetLevel =
     (case actorLevel of
        None \<Rightarrow> False
      | Some level \<Rightarrow> (case targetLevel of None \<Rightarrow> True | Some target \<Rightarrow> target \<le> level))"

lemma exceeds_iff: "\<not> exceeds actor codes \<longleftrightarrow> set codes \<subseteq> set (aa_permissions actor)"
  by (auto simp: exceeds_def list_ex_iff)

lemma mayAssignRoleD:
  assumes "mayAssignRole actor role = None"
  shows "isOwner actor \<or> (tr_name role \<noteq> system_role_name Owner \<and> tr_level role < ROLE_LEVEL_Owner
    \<and> (\<exists>level. aa_level actor = Some level \<and> tr_level role < level)
    \<and> set (tr_permissions role) \<subseteq> set (aa_permissions actor))"
  using assms by (auto simp: mayAssignRole_def exceeds_iff not_le split: option.splits if_splits)

lemma mayDefineRoleD:
  assumes "mayDefineRole actor l codes sys = None"
  shows "\<not> sys" "l < ROLE_LEVEL_Owner" "\<exists>level. aa_level actor = Some level \<and> l < level"
    "set codes \<subseteq> set (aa_permissions actor)"
  using assms
  by (auto simp: mayDefineRole_def exceeds_iff MAX_CREATABLE_ROLE_LEVEL_def not_le split: option.splits if_splits)

definition both_owner_level :: "ActorAuthority \<Rightarrow> ActorAuthority \<Rightarrow> bool" where
  "both_owner_level a b \<longleftrightarrow> (case (aa_level a, aa_level b) of
     (Some l, Some m) \<Rightarrow> ROLE_LEVEL_Owner \<le> l \<and> ROLE_LEVEL_Owner \<le> m | _ \<Rightarrow> False)"

text \<open>Acting is exclusive. Nobody may modify themselves, and whoever may modify somebody is not open
  to being modified by them and may see them, except at the top of the ladder: two people can act
  on each other only when both stand at the owner level.\<close>

theorem authority_is_exclusive:
  assumes "mayModifyEmployee a (aa_employee b) (aa_level b) = None"
  shows "aa_employee a \<noteq> aa_employee b
    \<and> (both_owner_level a b
       \<or> (mayModifyEmployee b (aa_employee a) (aa_level a) \<noteq> None \<and> maySeeEmployee (aa_level a) (aa_level b)))"
  using assms
  by (auto simp: mayModifyEmployee_def maySeeEmployee_def both_owner_level_def ROLE_LEVEL_Owner_def
      split: option.splits if_splits)

definition example_actor :: "int \<Rightarrow> int \<Rightarrow> ActorAuthority" where
  "example_actor i level = \<lparr>aa_employee = i, aa_level = Some level, aa_roleNames = [], aa_permissions = []\<rparr>"

theorem authority_is_exclusive_witness:
  "aa_employee (example_actor 1 70) \<noteq> aa_employee (example_actor 2 40)
   \<and> mayModifyEmployee (example_actor 2 40) 1 (Some 70) \<noteq> None"
  using authority_is_exclusive [of "example_actor 1 70" "example_actor 2 40"]
  by (simp add: example_actor_def mayModifyEmployee_def ROLE_LEVEL_Owner_def)

section \<open>The life of an employment\<close>

datatype LifecycleStatus = Invited | ActiveEmployment | Suspended

datatype StatusTransitionDenial = AlreadyInStatus LifecycleStatus | AcceptanceRequired | NeverAccepted

definition mayChangeStatus ::
    "LifecycleStatus \<Rightarrow> LifecycleStatus \<Rightarrow> bool \<Rightarrow> StatusTransitionDenial option" where
  "mayChangeStatus fromS toS everAccepted =
     (if fromS = toS then Some (AlreadyInStatus toS)
      else if toS = ActiveEmployment \<and> fromS = Invited then Some AcceptanceRequired
      else if toS = ActiveEmployment \<and> \<not> everAccepted then Some NeverAccepted
      else None)"

section \<open>Threads\<close>

datatype ConversationKind = DirectMessage | CommentThread | Mention | Review

datatype ConversationAction = ActView | ActReply | ActAssign | ActManage

datatype ThreadPermission =
    ConversationsView | ConversationsReply | ConversationsAssign | ConversationsManage
  | CommentsView | CommentsReply | CommentsAssign | CommentsManage
  | MentionsView | MentionsReply | MentionsAssign | MentionsManage

fun permissionFor :: "ConversationKind \<Rightarrow> ConversationAction \<Rightarrow> ThreadPermission" where
  "permissionFor DirectMessage ActView = ConversationsView"
| "permissionFor DirectMessage ActReply = ConversationsReply"
| "permissionFor DirectMessage ActAssign = ConversationsAssign"
| "permissionFor DirectMessage ActManage = ConversationsManage"
| "permissionFor CommentThread ActView = CommentsView"
| "permissionFor CommentThread ActReply = CommentsReply"
| "permissionFor CommentThread ActAssign = CommentsAssign"
| "permissionFor CommentThread ActManage = CommentsManage"
| "permissionFor Mention ActView = MentionsView"
| "permissionFor Mention ActReply = MentionsReply"
| "permissionFor Mention ActAssign = MentionsAssign"
| "permissionFor Mention ActManage = MentionsManage"
| "permissionFor Review ActView = ConversationsView"
| "permissionFor Review ActReply = ConversationsReply"
| "permissionFor Review ActAssign = ConversationsAssign"
| "permissionFor Review ActManage = ConversationsManage"

definition all_kinds :: "ConversationKind list" where
  "all_kinds = [DirectMessage, CommentThread, Mention, Review]"

text \<open>\<open>[...new Set(xs)]\<close> keeps the first occurrence of each value.\<close>

definition anyPermissionFor :: "ConversationAction \<Rightarrow> ThreadPermission list" where
  "anyPermissionFor action = rev (remdups (rev (map (\<lambda>k. permissionFor k action) all_kinds)))"

definition visibleKinds :: "ThreadPermission set \<Rightarrow> ConversationKind list" where
  "visibleKinds held = filter (\<lambda>k. permissionFor k ActView \<in> held) all_kinds"

lemma all_kinds_complete: "k \<in> set all_kinds"
  by (cases k) (simp_all add: all_kinds_def)

lemma permissionFor_inject:
  "permissionFor k a = permissionFor k' a' \<Longrightarrow> a = a' \<and> (k = k' \<or> {k, k'} = {DirectMessage, Review})"
  by (cases k; cases a; cases k'; cases a'; simp add: insert_commute)

text \<open>Thread permissions separate the kinds of thread. An actor sees exactly the kinds whose view
  code they hold; one code never governs two actions, and governs two kinds only for direct
  messages and reviews, so a grant for mentions or comments never opens the private inbox; and
  the route's union admits an actor exactly when some kind of thread is open to them for that
  action.\<close>

theorem thread_permissions_separate:
  "(k \<in> set (visibleKinds held) \<longleftrightarrow> permissionFor k ActView \<in> held)
   \<and> (permissionFor k a \<noteq> permissionFor k' a' \<or> (a = a' \<and> (k = k' \<or> {k, k'} = {DirectMessage, Review})))
   \<and> ((\<exists>p\<in>set (anyPermissionFor a). p \<in> held) \<longleftrightarrow> (\<exists>j. permissionFor j a \<in> held))
   \<and> distinct (anyPermissionFor a)"
  using all_kinds_complete permissionFor_inject [of k a k' a']
  by (auto simp: visibleKinds_def anyPermissionFor_def)

theorem thread_permissions_separate_witness:
  "Mention \<in> set (visibleKinds {MentionsView}) \<and> DirectMessage \<notin> set (visibleKinds {MentionsView})"
  using thread_permissions_separate [of Mention "{MentionsView}" ActView DirectMessage ActView]
    thread_permissions_separate [of DirectMessage "{MentionsView}" ActView Mention ActView] by simp

end
