(* ===== verification/Rbac_Roles.thy ===== *)
theory Rbac_Roles
  imports Rbac_Authority
begin

text \<open>
  Roles and employments of one business, and the services that change them:
  \<open>modules/roles/roles.service.ts\<close> (create, update, archive, set an employee's roles),
  \<open>modules/employees/employees.service.ts\<close> (invite, change a status) and the statements of
  \<open>database/repositories/role.repository.ts\<close> and \<open>enterprise-employee.repository.ts\<close> they use.

  The state is what those queries see of one tenant: every one of them is scoped by
  \<open>enterprise_id\<close>, and no path of these services deletes a role. Public handles are row ids. The
  audit rows, the version history, sessions and verifications are left out. A locked check and
  its write are one step.
\<close>

section \<open>State\<close>

record role_row =
  ro_id :: int
  ro_name :: string
  ro_level :: int
  ro_isSystem :: bool
  ro_active :: bool
  ro_codes :: "string list"

record employee_row =
  em_id :: int
  em_identity :: int
  em_status :: LifecycleStatus
  em_joined :: bool

text \<open>\<open>perms\<close> is the catalogue: a code, whether it is active and whether it is for staff only.
  \<open>templates\<close> are the names of the built-in roles, in lower case.\<close>

record identity_row =
  id_id :: int
  id_email :: "string option"
  id_mobile :: "string option"

record role_db =
  roles_of :: "role_row list"
  grants :: "(int \<times> int) list"
  employees :: "employee_row list"
  perms :: "(string \<times> bool \<times> bool) list"
  templates :: "string list"
  identities :: "identity_row list"

datatype role_error =
    PermissionDenied AuthorityDenial
  | RoleNotFound
  | EmployeeNotFound
  | TooManyRoles
  | NameTaken
  | NameReserved
  | RoleHeld nat
  | LastOwner
  | InvalidTransition StatusTransitionDenial
  | ConcurrentModification
  | NotAffected
  | InvalidMobile
  | CredentialRequired
  | EmployeeAlreadyExists

type_synonym 'a role_act = "(role_error, role_db, 'a) act"

section \<open>Queries\<close>

definition code_active :: "role_db \<Rightarrow> string \<Rightarrow> bool" where
  "code_active db code \<longleftrightarrow> list_ex (\<lambda>(c, active, staff). c = code \<and> active) (perms db)"

definition code_grantable :: "role_db \<Rightarrow> string \<Rightarrow> bool" where
  "code_grantable db code \<longleftrightarrow> list_ex (\<lambda>(c, active, staff). c = code \<and> active \<and> \<not> staff) (perms db)"

definition permissionCodes :: "role_db \<Rightarrow> role_row \<Rightarrow> string list" where
  "permissionCodes db r = filter (code_active db) (ro_codes r)"

definition held_roles :: "role_db \<Rightarrow> int \<Rightarrow> role_row list" where
  "held_roles db e = filter (\<lambda>r. ro_active r \<and> (e, ro_id r) \<in> set (grants db)) (roles_of db)"

definition highestLevelForEmployee :: "role_db \<Rightarrow> int \<Rightarrow> int option" where
  "highestLevelForEmployee db e = highestRoleLevel (map ro_level (held_roles db e))"

definition authorityOfEmployee :: "role_db \<Rightarrow> int \<Rightarrow> ActorAuthority" where
  "authorityOfEmployee db e =
     \<lparr>aa_employee = e, aa_level = highestRoleLevel (map ro_level (held_roles db e)),
      aa_roleNames = map ro_name (held_roles db e),
      aa_permissions = remdups (concat (map (permissionCodes db) (held_roles db e)))\<rparr>"

definition findRole :: "role_db \<Rightarrow> int \<Rightarrow> role_row option" where
  "findRole db i = find (\<lambda>r. ro_id r = i) (roles_of db)"

definition findActiveRole :: "role_db \<Rightarrow> int \<Rightarrow> role_row option" where
  "findActiveRole db i = find (\<lambda>r. ro_id r = i \<and> ro_active r) (roles_of db)"

definition findByNameInEnterprise :: "role_db \<Rightarrow> string \<Rightarrow> role_row option" where
  "findByNameInEnterprise db name = find (\<lambda>r. ro_name r = name) (roles_of db)"

definition isSystemTemplateName :: "(string \<Rightarrow> string) \<Rightarrow> role_db \<Rightarrow> string \<Rightarrow> bool" where
  "isSystemTemplateName sqlLower db name \<longleftrightarrow> sqlLower name \<in> set (templates db)"

definition holderCount :: "role_db \<Rightarrow> int \<Rightarrow> nat" where
  "holderCount db i = length (filter (\<lambda>(e, r). r = i) (grants db))"

definition findEmployee :: "role_db \<Rightarrow> int \<Rightarrow> employee_row option" where
  "findEmployee db e = find (\<lambda>x. em_id x = e) (employees db)"

definition is_active_owner :: "role_db \<Rightarrow> int \<Rightarrow> bool" where
  "is_active_owner db e \<longleftrightarrow>
     list_ex (\<lambda>x. em_id x = e \<and> em_status x = ActiveEmployment) (employees db)
     \<and> list_ex (\<lambda>r. ro_name r = system_role_name Owner) (held_roles db e)"

definition countOtherActiveOwners :: "role_db \<Rightarrow> int \<Rightarrow> nat" where
  "countOtherActiveOwners db excluding =
     length (remdups (filter (\<lambda>e. e \<noteq> excluding \<and> is_active_owner db e) (map fst (grants db))))"

definition target_role :: "role_db \<Rightarrow> role_row \<Rightarrow> TargetRole" where
  "target_role db r = \<lparr>tr_name = ro_name r, tr_level = ro_level r, tr_isSystem = ro_isSystem r,
     tr_permissions = permissionCodes db r\<rparr>"

section \<open>Services\<close>

definition MAX_ROLES_PER_ENTERPRISE :: nat where
  "MAX_ROLES_PER_ENTERPRISE = 50"

definition assertMayDefine :: "ActorAuthority \<Rightarrow> int \<Rightarrow> string list \<Rightarrow> bool \<Rightarrow> unit role_act" where
  "assertMayDefine authority level codes isSystem =
     (case mayDefineRole authority level codes isSystem of
        None \<Rightarrow> ret () | Some denial \<Rightarrow> throw (PermissionDenied denial))"

text \<open>\<open>replaceRolePermissions\<close> writes only the codes that are active and not for staff.\<close>

definition writable :: "role_db \<Rightarrow> string list \<Rightarrow> string list" where
  "writable db codes = filter (code_grantable db) (remdups codes)"

record role_request =
  q_name :: string
  q_level :: int
  q_codes :: "string list"

definition createRole :: "(string \<Rightarrow> string) \<Rightarrow> int \<Rightarrow> role_request \<Rightarrow> int role_act" where
  "createRole sqlLower actor req =
     bnd (reads (\<lambda>db. authorityOfEmployee db actor)) (\<lambda>authority.
     andThen (assertMayDefine authority (q_level req) (q_codes req) False)
     (\<lambda>db.
        if MAX_ROLES_PER_ENTERPRISE \<le> length (roles_of db) then Inl TooManyRoles
        else if findByNameInEnterprise db (q_name req) \<noteq> None then Inl NameTaken
        else if isSystemTemplateName sqlLower db (q_name req) then Inl NameReserved
        else let i = fresh_id (map ro_id (roles_of db) @ map snd (grants db))
             in Inr (i, db\<lparr>roles_of := roles_of db @
                  [\<lparr>ro_id = i, ro_name = q_name req, ro_level = q_level req, ro_isSystem = False,
                    ro_active = True, ro_codes = writable db (q_codes req)\<rparr>]\<rparr>)))"

definition updateRole :: "int \<Rightarrow> int \<Rightarrow> role_request \<Rightarrow> unit role_act" where
  "updateRole actor roleId req =
     bnd (reads (\<lambda>db. authorityOfEmployee db actor)) (\<lambda>authority.
     bnd (reads (\<lambda>db. findRole db roleId)) (\<lambda>found.
     case found of
       None \<Rightarrow> throw RoleNotFound
     | Some role \<Rightarrow>
         bnd (reads (\<lambda>db. permissionCodes db role)) (\<lambda>held.
         andThen (assertMayDefine authority (ro_level role) held (ro_isSystem role))
         (andThen (assertMayDefine authority (q_level req) (q_codes req) (ro_isSystem role))
         (\<lambda>db.
            if (case findByNameInEnterprise db (q_name req) of
                  None \<Rightarrow> False | Some clash \<Rightarrow> ro_id clash \<noteq> ro_id role)
            then Inl NameTaken
            else if \<not> list_ex (\<lambda>r. ro_id r = roleId \<and> \<not> ro_isSystem r) (roles_of db) then Inl NotAffected
            else Inr ((), db\<lparr>roles_of := update_where (\<lambda>r. ro_id r = roleId \<and> \<not> ro_isSystem r)
                   (\<lambda>r. r\<lparr>ro_name := q_name req, ro_level := q_level req,
                           ro_codes := writable db (q_codes req)\<rparr>) (roles_of db)\<rparr>))))))"

definition archiveRole :: "int \<Rightarrow> int \<Rightarrow> unit role_act" where
  "archiveRole actor roleId =
     bnd (reads (\<lambda>db. authorityOfEmployee db actor)) (\<lambda>authority.
     bnd (reads (\<lambda>db. findRole db roleId)) (\<lambda>found.
     case found of
       None \<Rightarrow> throw RoleNotFound
     | Some role \<Rightarrow>
         bnd (reads (\<lambda>db. permissionCodes db role)) (\<lambda>held.
         andThen (assertMayDefine authority (ro_level role) held (ro_isSystem role))
         (\<lambda>db.
            if 0 < holderCount db roleId then Inl (RoleHeld (holderCount db roleId))
            else if \<not> list_ex (\<lambda>r. ro_id r = roleId \<and> \<not> ro_isSystem r) (roles_of db) then Inl NotAffected
            else Inr ((), db\<lparr>roles_of := update_where (\<lambda>r. ro_id r = roleId \<and> \<not> ro_isSystem r)
                   (\<lambda>r. r\<lparr>ro_active := False\<rparr>) (roles_of db)\<rparr>)))))"

definition assertMayModify :: "ActorAuthority \<Rightarrow> int \<Rightarrow> int option \<Rightarrow> unit role_act" where
  "assertMayModify authority target level =
     (case mayModifyEmployee authority target level of
        None \<Rightarrow> ret () | Some denial \<Rightarrow> throw (PermissionDenied denial))"

definition assertMayAssign :: "ActorAuthority \<Rightarrow> TargetRole \<Rightarrow> unit role_act" where
  "assertMayAssign authority role =
     (case mayAssignRole authority role of
        None \<Rightarrow> ret () | Some denial \<Rightarrow> throw (PermissionDenied denial))"

definition setEmployeeRoles :: "int \<Rightarrow> int \<Rightarrow> int list \<Rightarrow> unit role_act" where
  "setEmployeeRoles actor target roleIds =
     bnd (reads (\<lambda>db. authorityOfEmployee db actor)) (\<lambda>authority.
     bnd (reads (\<lambda>db. findEmployee db target)) (\<lambda>employee.
     case employee of
       None \<Rightarrow> throw EmployeeNotFound
     | Some _ \<Rightarrow>
         bnd (reads (\<lambda>db. highestLevelForEmployee db target)) (\<lambda>level.
         andThen (assertMayModify authority target level)
         (bnd (reads (\<lambda>db. filter (\<lambda>r. ro_active r \<and> ro_id r \<in> set roleIds) (roles_of db))) (\<lambda>roles.
          if length roles \<noteq> length roleIds then throw RoleNotFound
          else
            bnd (reads (\<lambda>db. map (target_role db) roles)) (\<lambda>targets.
            andThen (each (assertMayAssign authority) targets)
            (\<lambda>db.
               if \<not> list_ex (\<lambda>r. ro_name r = system_role_name Owner) roles
                  \<and> list_ex (\<lambda>r. ro_name r = system_role_name Owner) (held_roles db target)
                  \<and> countOtherActiveOwners db target = 0
               then Inl LastOwner
               else Inr ((), db\<lparr>grants := filter (\<lambda>(e, _). e \<noteq> target) (grants db)
                      @ map (\<lambda>r. (target, ro_id r)) roles\<rparr>)))))))) "

text \<open>\<open>EmployeesService.create\<close>. A login is global: one that has the address is reused, unless its
  holder is on the books of this business already. \<open>canonical\<close> is the number
  \<open>normalizeMobile\<close> reads, which rests on a third-party parser; the address comes normalised. The
  new employment is invited and holds the one role.\<close>

definition truthy :: "string option \<Rightarrow> string option" where
  "truthy v = (if v = Some [] then None else v)"

definition findIdentity :: "string option \<Rightarrow> string option \<Rightarrow> role_db \<Rightarrow> identity_row option" where
  "findIdentity email mobile db =
     (case (if email = None then None else find (\<lambda>x. id_email x = email) (identities db)) of
        Some x \<Rightarrow> Some x
      | None \<Rightarrow> (if mobile = None then None else find (\<lambda>x. id_mobile x = mobile) (identities db)))"

definition add_employee ::
    "string option \<Rightarrow> string option \<Rightarrow> int \<Rightarrow> int role_act" where
  "add_employee email mobile roleId db =
     (case findIdentity email mobile db of
        Some x \<Rightarrow>
          if list_ex (\<lambda>e. em_identity e = id_id x) (employees db) then Inl EmployeeAlreadyExists
          else let e = fresh_id (map em_id (employees db) @ map fst (grants db))
               in Inr (e, db\<lparr>employees := employees db @
                      [\<lparr>em_id = e, em_identity = id_id x, em_status = Invited, em_joined = False\<rparr>],
                    grants := grants db @ [(e, roleId)]\<rparr>)
      | None \<Rightarrow>
          let i = fresh_id (map id_id (identities db) @ map em_identity (employees db));
              e = fresh_id (map em_id (employees db) @ map fst (grants db))
          in Inr (e, db\<lparr>identities := identities db @ [\<lparr>id_id = i, id_email = email, id_mobile = mobile\<rparr>],
               employees := employees db @
                 [\<lparr>em_id = e, em_identity = i, em_status = Invited, em_joined = False\<rparr>],
               grants := grants db @ [(e, roleId)]\<rparr>))"

definition inviteEmployee ::
    "(string \<Rightarrow> string option) \<Rightarrow> int \<Rightarrow> string option \<Rightarrow> string option \<Rightarrow> int \<Rightarrow> int role_act" where
  "inviteEmployee canonical actor email number roleId =
     (let mobile = (case number of None \<Rightarrow> None | Some n \<Rightarrow> canonical n) in
      if number \<noteq> None \<and> mobile = None then throw InvalidMobile
      else if truthy email = None \<and> mobile = None then throw CredentialRequired
      else
        bnd (reads (\<lambda>db. findActiveRole db roleId)) (\<lambda>found.
        case found of
          None \<Rightarrow> throw RoleNotFound
        | Some role \<Rightarrow>
            bnd (reads (\<lambda>db. authorityOfEmployee db actor)) (\<lambda>authority.
            bnd (reads (\<lambda>db. target_role db role)) (\<lambda>t.
            andThen (assertMayAssign authority t)
              (add_employee (truthy email) mobile (ro_id role))))))"

text \<open>The transaction's lock makes the count and the write one step. The request's status is active
  or suspended (\<open>EmployeeStatusRequestSchema\<close>); \<open>collude\<close> below takes only those.\<close>

definition setEmployeeStatus :: "int \<Rightarrow> int \<Rightarrow> LifecycleStatus \<Rightarrow> unit role_act" where
  "setEmployeeStatus actor target status =
     bnd (reads (\<lambda>db. findEmployee db target)) (\<lambda>found.
     case found of
       None \<Rightarrow> throw EmployeeNotFound
     | Some employee \<Rightarrow>
         bnd (reads (\<lambda>db. authorityOfEmployee db actor)) (\<lambda>authority.
         bnd (reads (\<lambda>db. highestLevelForEmployee db target)) (\<lambda>level.
         andThen (assertMayModify authority target level)
         (case mayChangeStatus (em_status employee) status (em_joined employee) of
            Some denial \<Rightarrow> throw (InvalidTransition denial)
          | None \<Rightarrow>
              (\<lambda>db.
                 if status = Suspended
                    \<and> list_ex (\<lambda>r. ro_name r = system_role_name Owner) (held_roles db target)
                    \<and> countOtherActiveOwners db target = 0
                 then Inl LastOwner
                 else if \<not> list_ex (\<lambda>x. em_id x = target \<and> em_status x = em_status employee) (employees db)
                 then Inl ConcurrentModification
                 else Inr ((), db\<lparr>employees := update_where
                        (\<lambda>x. em_id x = target \<and> em_status x = em_status employee)
                        (\<lambda>x. x\<lparr>em_status := status\<rparr>) (employees db)\<rparr>))))))"

text \<open>\<open>EnterpriseEmployeeRepository.activate\<close>, the acceptance of an invitation by the invited person.\<close>

definition activate :: "int \<Rightarrow> unit role_act" where
  "activate e = modifies (\<lambda>db. db\<lparr>employees := update_where
     (\<lambda>x. em_id x = e \<and> em_status x = Invited)
     (\<lambda>x. x\<lparr>em_status := ActiveEmployment, em_joined := True\<rparr>) (employees db)\<rparr>)"

section \<open>Nobody escalates\<close>

text \<open>A set of people who act together, and who take in everybody they invite.\<close>

inductive collude :: "(string \<Rightarrow> string) \<Rightarrow> (string \<Rightarrow> string option) \<Rightarrow> role_db \<Rightarrow> int set \<Rightarrow> role_db \<Rightarrow> int set \<Rightarrow> bool"
  for sqlLower :: "string \<Rightarrow> string" and canonical :: "string \<Rightarrow> string option" and db0 :: role_db and S0 :: "int set" where
  start: "collude sqlLower canonical db0 S0 db0 S0"
| create: "collude sqlLower canonical db0 S0 db S \<Longrightarrow> a \<in> S \<Longrightarrow> createRole sqlLower a req db = Inr (i, db') \<Longrightarrow>
    collude sqlLower canonical db0 S0 db' S"
| update: "collude sqlLower canonical db0 S0 db S \<Longrightarrow> a \<in> S \<Longrightarrow> updateRole a i req db = Inr (x, db') \<Longrightarrow>
    collude sqlLower canonical db0 S0 db' S"
| archive: "collude sqlLower canonical db0 S0 db S \<Longrightarrow> a \<in> S \<Longrightarrow> archiveRole a i db = Inr (x, db') \<Longrightarrow>
    collude sqlLower canonical db0 S0 db' S"
| assign: "collude sqlLower canonical db0 S0 db S \<Longrightarrow> a \<in> S \<Longrightarrow> setEmployeeRoles a e ids db = Inr (x, db') \<Longrightarrow>
    collude sqlLower canonical db0 S0 db' S"
| invite: "collude sqlLower canonical db0 S0 db S \<Longrightarrow> a \<in> S \<Longrightarrow> inviteEmployee canonical a email number i db = Inr (e, db') \<Longrightarrow>
    collude sqlLower canonical db0 S0 db' (insert e S)"
| status: "collude sqlLower canonical db0 S0 db S \<Longrightarrow> a \<in> S \<Longrightarrow> st \<noteq> Invited \<Longrightarrow> setEmployeeStatus a e st db = Inr (x, db') \<Longrightarrow>
    collude sqlLower canonical db0 S0 db' S"
| accept: "collude sqlLower canonical db0 S0 db S \<Longrightarrow> activate e db = Inr (x, db') \<Longrightarrow>
    collude sqlLower canonical db0 S0 db' S"

text \<open>The owner role is a built-in one, and its name is taken.\<close>

definition ladder_ok :: "role_db \<Rightarrow> bool" where
  "ladder_ok db \<longleftrightarrow> distinct (map ro_id (roles_of db))
     \<and> list_ex (\<lambda>r. ro_name r = system_role_name Owner) (roles_of db)
     \<and> list_all (\<lambda>r. ro_name r = system_role_name Owner \<longrightarrow> ro_isSystem r) (roles_of db)"

definition within :: "string set \<Rightarrow> int \<Rightarrow> role_db \<Rightarrow> role_row \<Rightarrow> bool" where
  "within P L db r \<longleftrightarrow> set (permissionCodes db r) \<subseteq> P \<and> ro_level r \<le> L \<and> ro_name r \<noteq> system_role_name Owner"

definition bounded :: "string set \<Rightarrow> int \<Rightarrow> int set \<Rightarrow> role_db \<Rightarrow> bool" where
  "bounded P L S db \<longleftrightarrow> (\<forall>e\<in>S. \<forall>r\<in>set (held_roles db e). within P L db r)"

lemma bounded_authority:
  assumes "bounded P L S db" and "a \<in> S"
  shows "set (aa_permissions (authorityOfEmployee db a)) \<subseteq> P"
    and "aa_level (authorityOfEmployee db a) = Some l \<Longrightarrow> l \<le> L"
    and "\<not> isOwner (authorityOfEmployee db a)"
proof -
  have w: "within P L db r" if "r \<in> set (held_roles db a)" for r
    using assms that by (simp add: bounded_def)
  show "set (aa_permissions (authorityOfEmployee db a)) \<subseteq> P"
    using w by (auto simp: authorityOfEmployee_def within_def)
  show "l \<le> L" if "aa_level (authorityOfEmployee db a) = Some l"
    using highestRoleLevel_Some(1) [of "map ro_level (held_roles db a)" l] that w
    by (auto simp: authorityOfEmployee_def within_def)
  show "\<not> isOwner (authorityOfEmployee db a)"
    using w unfolding isOwner_def within_def by (force simp: authorityOfEmployee_def)
qed

lemma assertMayDefine_Inr:
  "assertMayDefine auth l codes sys s = Inr (x, s') \<longleftrightarrow> mayDefineRole auth l codes sys = None \<and> s' = s"
  by (auto simp: assertMayDefine_def ret_def throw_def split: option.splits)

lemma assertMayModify_Inr:
  "assertMayModify auth t l s = Inr (x, s') \<longleftrightarrow> mayModifyEmployee auth t l = None \<and> s' = s"
  by (auto simp: assertMayModify_def ret_def throw_def split: option.splits)

lemma assertMayAssign_Inr:
  "assertMayAssign auth r s = Inr (x, s') \<longleftrightarrow> mayAssignRole auth r = None \<and> s' = s"
  by (auto simp: assertMayAssign_def ret_def throw_def split: option.splits)

lemma each_assertMayAssign:
  "each (assertMayAssign auth) rs s = Inr (x, s') \<longleftrightarrow> (\<forall>r\<in>set rs. mayAssignRole auth r = None) \<and> s' = s"
  by (induction rs) (auto simp: ret_def andThen_Inr assertMayAssign_Inr)

lemma defined_within:
  assumes "bounded P L S db" and "a \<in> S" and "mayDefineRole (authorityOfEmployee db a) l codes sys = None"
  shows "set codes \<subseteq> P" "l \<le> L" "\<not> sys"
  using mayDefineRoleD [OF assms(3)] bounded_authority [OF assms(1,2)] by auto

lemma assigned_within:
  assumes "bounded P L S db" and "a \<in> S" and "mayAssignRole (authorityOfEmployee db a) (target_role db r) = None"
  shows "within P L db r"
  using mayAssignRoleD [OF assms(3)] bounded_authority [OF assms(1,2)]
  by (force simp: within_def target_role_def)

lemma owner_name_taken:
  assumes "ladder_ok db"
  obtains c where "findByNameInEnterprise db (system_role_name Owner) = Some c" "ro_isSystem c"
    "c \<in> set (roles_of db)"
proof -
  from assms obtain c where c: "findByNameInEnterprise db (system_role_name Owner) = Some c"
    unfolding ladder_ok_def findByNameInEnterprise_def
    by (cases "find (\<lambda>r. ro_name r = system_role_name Owner) (roles_of db)")
      (auto simp: find_None_all list_ex_iff)
  then have "c \<in> set (roles_of db)" "ro_name c = system_role_name Owner"
    using find_Some_iff_mem unfolding findByNameInEnterprise_def by fastforce+
  with assms c that show ?thesis by (auto simp: ladder_ok_def list_all_iff)
qed

subsection \<open>Each service\<close>

lemma createRole_Inr:
  assumes "createRole low a req db = Inr (i, db')"
  shows "i = fresh_id (map ro_id (roles_of db) @ map snd (grants db))"
    and "findByNameInEnterprise db (q_name req) = None"
    and "db' = db\<lparr>roles_of := roles_of db @
      [\<lparr>ro_id = i, ro_name = q_name req, ro_level = q_level req, ro_isSystem = False,
        ro_active = True, ro_codes = writable db (q_codes req)\<rparr>]\<rparr>"
  using assms
  by (auto simp: createRole_def bnd_Inr andThen_Inr reads_def assertMayDefine_Inr Let_def split: if_splits)

lemma permissionCodes_frame: "perms db' = perms db \<Longrightarrow> permissionCodes db' r = permissionCodes db r"
  by (simp add: permissionCodes_def code_active_def [abs_def])

lemma within_frame:
  assumes "perms db' = perms db"
  shows "within P L db' r = within P L db r"
  by (simp only: within_def permissionCodes_frame [OF assms])

lemma ladder_create:
  assumes run: "createRole low a req db = Inr (i, db')" and ok: "ladder_ok db"
  shows "ladder_ok db'"
proof -
  note c = createRole_Inr [OF run]
  have new: "ro_id r \<noteq> i" if "r \<in> set (roles_of db)" for r
    using fresh_id_greater [of "ro_id r" "map ro_id (roles_of db) @ map snd (grants db)"] that c(1) by auto
  have name: "q_name req \<noteq> system_role_name Owner"
    using owner_name_taken [OF ok] c(2) by (metis option.distinct(1))
  show ?thesis using ok new name by (auto simp: c(3) ladder_ok_def)
qed

lemma held_create:
  assumes run: "createRole low a req db = Inr (i, db')"
  shows "held_roles db' e = held_roles db e"
proof -
  note c = createRole_Inr [OF run]
  have free: "(e, i) \<notin> set (grants db)"
    using fresh_id_greater [of i "map ro_id (roles_of db) @ map snd (grants db)"] c(1) by force
  then show ?thesis by (simp add: c(3) held_roles_def)
qed

lemma step_create:
  assumes run: "createRole low a req db = Inr (i, db')" and b: "bounded P L S db"
  shows "bounded P L S db'"
proof -
  have "within P L db' = within P L db"
    using within_frame [of db' db P L] by (simp add: createRole_Inr(3) [OF run] fun_eq_iff)
  with b show ?thesis by (simp add: bounded_def held_create [OF run])
qed

lemma updateRole_Inr:
  assumes "updateRole a i req db = Inr (x, db')"
  obtains role where "findRole db i = Some role"
    "mayDefineRole (authorityOfEmployee db a) (ro_level role) (permissionCodes db role) (ro_isSystem role) = None"
    "mayDefineRole (authorityOfEmployee db a) (q_level req) (q_codes req) (ro_isSystem role) = None"
    "case findByNameInEnterprise db (q_name req) of None \<Rightarrow> True | Some clash \<Rightarrow> ro_id clash = ro_id role"
    "db' = db\<lparr>roles_of := update_where (\<lambda>r. ro_id r = i \<and> \<not> ro_isSystem r)
       (\<lambda>r. r\<lparr>ro_name := q_name req, ro_level := q_level req, ro_codes := writable db (q_codes req)\<rparr>)
       (roles_of db)\<rparr>"
  using assms
  by (auto simp: updateRole_def bnd_Inr andThen_Inr reads_def throw_def assertMayDefine_Inr
      split: option.splits if_splits)

lemma findRoleD: "findRole db i = Some r \<Longrightarrow> r \<in> set (roles_of db) \<and> ro_id r = i"
  unfolding findRole_def by (auto dest: find_Some_iff_mem)

lemma update_not_owner:
  assumes ok: "ladder_ok db" and role: "findRole db i = Some role" and sys: "\<not> ro_isSystem role"
    and clash: "case findByNameInEnterprise db name of None \<Rightarrow> True | Some clash \<Rightarrow> ro_id clash = ro_id role"
  shows "name \<noteq> system_role_name Owner"
proof
  assume "name = system_role_name Owner"
  with ok clash obtain c where c: "ro_isSystem c" "c \<in> set (roles_of db)" "ro_id c = ro_id role"
    by (auto elim: owner_name_taken)
  have "c = role"
    using distinct_map_eq [of ro_id "roles_of db" c role] ok c findRoleD [OF role] by (auto simp: ladder_ok_def)
  with c(1) sys show False by simp
qed

lemma permissionCodes_writable:
  "set (permissionCodes db' r) \<subseteq> set (ro_codes r)" "set (writable db codes) \<subseteq> set codes"
  by (auto simp: permissionCodes_def writable_def)

lemma update_owner_safe:
  assumes run: "updateRole a i req db = Inr (x, db')" and ok: "ladder_ok db"
  shows "q_name req \<noteq> system_role_name Owner" and "ladder_ok db'"
    and "c \<in> set (roles_of db) \<Longrightarrow> ro_isSystem c \<Longrightarrow> c \<in> set (roles_of db')"
proof -
  let ?f = "\<lambda>r. r\<lparr>ro_name := q_name req, ro_level := q_level req, ro_codes := writable db (q_codes req)\<rparr>"
  from run obtain role where role: "findRole db i = Some role"
    and new: "mayDefineRole (authorityOfEmployee db a) (q_level req) (q_codes req) (ro_isSystem role) = None"
    and clash: "case findByNameInEnterprise db (q_name req) of None \<Rightarrow> True | Some clash \<Rightarrow> ro_id clash = ro_id role"
    and db': "db' = db\<lparr>roles_of := update_where (\<lambda>r. ro_id r = i \<and> \<not> ro_isSystem r) ?f (roles_of db)\<rparr>"
    by (rule updateRole_Inr) blast
  show name: "q_name req \<noteq> system_role_name Owner"
    by (rule update_not_owner [OF ok role mayDefineRoleD(1) [OF new] clash])
  have ids: "map ro_id (roles_of db') = map ro_id (roles_of db)"
    by (simp add: db' map_update_where)
  show owner: "c \<in> set (roles_of db')" if "c \<in> set (roles_of db)" "ro_isSystem c" for c
    using that by (auto simp: db' set_update_where intro: rev_image_eqI)
  have sys: "ro_isSystem r" if "r \<in> set (roles_of db')" "ro_name r = system_role_name Owner" for r
    using that name ok by (auto simp: db' set_update_where ladder_ok_def list_all_iff)
  show "ladder_ok db'"
    using ok owner sys owner_name_taken [OF ok] unfolding ladder_ok_def ids list_ex_iff list_all_iff
    by blast
qed

lemma step_update:
  assumes run: "updateRole a i req db = Inr (x, db')" and ok: "ladder_ok db" and b: "bounded P L S db"
    and a: "a \<in> S"
  shows "bounded P L S db'"
proof -
  let ?f = "\<lambda>r. r\<lparr>ro_name := q_name req, ro_level := q_level req, ro_codes := writable db (q_codes req)\<rparr>"
  from run obtain role where "findRole db i = Some role"
    and new: "mayDefineRole (authorityOfEmployee db a) (q_level req) (q_codes req) (ro_isSystem role) = None"
    and db': "db' = db\<lparr>roles_of := update_where (\<lambda>r. ro_id r = i \<and> \<not> ro_isSystem r) ?f (roles_of db)\<rparr>"
    by (rule updateRole_Inr) blast
  note d = defined_within [OF b a new] and name = update_owner_safe(1) [OF run ok]
  have w: "within P L db' (?f r)" for r
    using d name permissionCodes_writable(1) [of db' "?f r"] permissionCodes_writable(2) [of db "q_codes req"]
    by (auto simp: within_def)
  have keep: "within P L db' r" if "within P L db r" for r
    using that within_frame [of db' db P L r] by (simp add: db')
  show "bounded P L S db'"
    unfolding bounded_def
  proof (intro ballI)
    fix e r assume e: "e \<in> S" and r: "r \<in> set (held_roles db' e)"
    then obtain r0 where r0: "r0 \<in> set (roles_of db)" "r = (if ro_id r0 = i \<and> \<not> ro_isSystem r0 then ?f r0 else r0)"
      by (auto simp: held_roles_def db' set_update_where)
    show "within P L db' r"
    proof (cases "ro_id r0 = i \<and> \<not> ro_isSystem r0")
      case True
      with r0 w show ?thesis by simp
    next
      case False
      with r0 r have "r \<in> set (held_roles db e)" by (auto simp: held_roles_def db')
      with b e keep show ?thesis by (simp add: bounded_def)
    qed
  qed
qed

lemma archiveRole_Inr:
  assumes "archiveRole a i db = Inr (x, db')"
  shows "db' = db\<lparr>roles_of := update_where (\<lambda>r. ro_id r = i \<and> \<not> ro_isSystem r)
    (\<lambda>r. r\<lparr>ro_active := False\<rparr>) (roles_of db)\<rparr>" and "holderCount db i = 0"
  using assms
  by (auto simp: archiveRole_def bnd_Inr andThen_Inr reads_def throw_def assertMayDefine_Inr
      split: option.splits if_splits)

lemma ladder_archive:
  assumes run: "archiveRole a i db = Inr (x, db')" and ok: "ladder_ok db"
  shows "ladder_ok db'" and "c \<in> set (roles_of db) \<Longrightarrow> ro_isSystem c \<Longrightarrow> c \<in> set (roles_of db')"
proof -
  note db' = archiveRole_Inr(1) [OF run]
  have ids: "map ro_id (roles_of db') = map ro_id (roles_of db)"
    by (simp add: db' map_update_where)
  have sys: "ro_isSystem r" if "r \<in> set (roles_of db')" "ro_name r = system_role_name Owner" for r
    using that ok by (auto simp: db' set_update_where ladder_ok_def list_all_iff split: if_splits)
  show owner: "c \<in> set (roles_of db')" if "c \<in> set (roles_of db)" "ro_isSystem c" for c
    using that by (auto simp: db' set_update_where intro: rev_image_eqI)
  show "ladder_ok db'"
    using ok owner sys unfolding ladder_ok_def ids list_ex_iff list_all_iff by blast
qed

lemma step_archive:
  assumes run: "archiveRole a i db = Inr (x, db')" and b: "bounded P L S db"
  shows "bounded P L S db'"
proof -
  note db' = archiveRole_Inr(1) [OF run]
  have held: "set (held_roles db' e) \<subseteq> set (held_roles db e)" for e
    by (auto simp: held_roles_def db' set_update_where)
  have "within P L db' = within P L db"
    using within_frame [of db' db P L] by (simp add: db' fun_eq_iff)
  with b held show "bounded P L S db'" unfolding bounded_def by (metis subsetD)
qed

lemma setEmployeeRoles_Inr:
  assumes "setEmployeeRoles a e ids db = Inr (x, db')"
  defines "rs \<equiv> filter (\<lambda>r. ro_active r \<and> ro_id r \<in> set ids) (roles_of db)"
  shows "mayModifyEmployee (authorityOfEmployee db a) e (highestLevelForEmployee db e) = None"
    and "\<And>r. r \<in> set rs \<Longrightarrow> mayAssignRole (authorityOfEmployee db a) (target_role db r) = None"
    and "list_ex (\<lambda>r. ro_name r = system_role_name Owner) rs
      \<or> \<not> list_ex (\<lambda>r. ro_name r = system_role_name Owner) (held_roles db e) \<or> countOtherActiveOwners db e \<noteq> 0"
    and "db' = db\<lparr>grants := filter (\<lambda>(e', _). e' \<noteq> e) (grants db) @ map (\<lambda>r. (e, ro_id r)) rs\<rparr>"
  using assms(1) unfolding rs_def
  by (auto simp: setEmployeeRoles_def bnd_Inr andThen_Inr reads_def throw_def assertMayModify_Inr
      each_assertMayAssign split: option.splits if_splits)

lemma held_after_assign:
  assumes "setEmployeeRoles a e ids db = Inr (x, db')"
  shows "held_roles db' e' =
    (if e' = e then filter (\<lambda>r. ro_active r \<and> ro_id r \<in>
        ro_id ` {r \<in> set (roles_of db). ro_active r \<and> ro_id r \<in> set ids}) (roles_of db)
     else held_roles db e')"
  by (auto simp: setEmployeeRoles_Inr(4) [OF assms] held_roles_def image_iff intro!: filter_cong)

lemma step_assign:
  assumes run: "setEmployeeRoles a e ids db = Inr (x, db')" and b: "bounded P L S db" and a: "a \<in> S"
  shows "bounded P L S db'"
proof -
  note s = setEmployeeRoles_Inr [OF run]
  have w: "within P L db' = within P L db"
    using within_frame [of db' db P L] by (simp add: s(4) fun_eq_iff)
  have "within P L db r" if "r \<in> set (held_roles db' e)" for r
    using that assigned_within [OF b a] s(2) by (auto simp: held_after_assign [OF run])
  then show "bounded P L S db'"
    using b unfolding bounded_def w by (metis held_after_assign [OF run])
qed

lemma inviteEmployee_Inr:
  assumes "inviteEmployee canonical a email number i db = Inr (e, db')"
  obtains role where "findActiveRole db i = Some role"
    "mayAssignRole (authorityOfEmployee db a) (target_role db role) = None"
    "e = fresh_id (map em_id (employees db) @ map fst (grants db))"
    "roles_of db' = roles_of db" "perms db' = perms db" "grants db' = grants db @ [(e, ro_id role)]"
    "\<exists>j. employees db' = employees db @ [\<lparr>em_id = e, em_identity = j, em_status = Invited, em_joined = False\<rparr>]"
  using assms
  by (auto simp: inviteEmployee_def add_employee_def bnd_Inr andThen_Inr reads_def throw_def
      assertMayAssign_Inr Let_def split: option.splits if_splits)

lemma step_invite:
  assumes run: "inviteEmployee canonical a email number i db = Inr (e, db')" and ok: "ladder_ok db"
    and b: "bounded P L S db" and a: "a \<in> S"
  shows "bounded P L (insert e S) db'"
proof -
  from run obtain role where role: "findActiveRole db i = Some role"
    and may: "mayAssignRole (authorityOfEmployee db a) (target_role db role) = None"
    and e: "e = fresh_id (map em_id (employees db) @ map fst (grants db))"
    and db': "roles_of db' = roles_of db" "perms db' = perms db" "grants db' = grants db @ [(e, ro_id role)]"
    by (rule inviteEmployee_Inr)
  have w: "within P L db' r = within P L db r" for r by (rule within_frame [OF db'(2)])
  have free: "(e, j) \<notin> set (grants db)" for j
    using fresh_id_greater [of e "map em_id (employees db) @ map fst (grants db)"] e by force
  have "role \<in> set (roles_of db)" using role by (auto simp: findActiveRole_def dest: find_Some_iff_mem)
  then have "r = role" if "r \<in> set (held_roles db' e)" for r
    using that free distinct_map_eq [of ro_id "roles_of db" r role] ok
    by (auto simp: held_roles_def db' ladder_ok_def)
  moreover have "held_roles db' e' = held_roles db e'" if "e' \<noteq> e" for e'
    using that by (auto simp: held_roles_def db' intro!: filter_cong)
  ultimately show "bounded P L (insert e S) db'"
    using b assigned_within [OF b a may] unfolding bounded_def w by (metis insertE)
qed

text \<open>Status changes and acceptances touch neither the roles nor the grants.\<close>

lemma bounded_frame:
  assumes "roles_of db' = roles_of db" "grants db' = grants db" "perms db' = perms db" and "bounded P L S db"
  shows "bounded P L S db'"
proof -
  have "held_roles db' e = held_roles db e" for e using assms by (simp add: held_roles_def)
  with assms(4) within_frame [OF assms(3)] show "bounded P L S db'" by (simp add: bounded_def)
qed

lemma ladder_frame: "roles_of db' = roles_of db \<Longrightarrow> ladder_ok db \<Longrightarrow> ladder_ok db'"
  by (simp add: ladder_ok_def)

lemma setEmployeeStatus_Inr:
  assumes "setEmployeeStatus a e st db = Inr (x, db')"
  obtains employee where "findEmployee db e = Some employee"
    "mayModifyEmployee (authorityOfEmployee db a) e (highestLevelForEmployee db e) = None"
    "mayChangeStatus (em_status employee) st (em_joined employee) = None"
    "st \<noteq> Suspended \<or> \<not> list_ex (\<lambda>r. ro_name r = system_role_name Owner) (held_roles db e)
      \<or> countOtherActiveOwners db e \<noteq> 0"
    "db' = db\<lparr>employees := update_where (\<lambda>x. em_id x = e \<and> em_status x = em_status employee)
       (\<lambda>x. x\<lparr>em_status := st\<rparr>) (employees db)\<rparr>"
  using assms
  by (auto simp: setEmployeeStatus_def bnd_Inr andThen_Inr reads_def throw_def assertMayModify_Inr
      split: option.splits if_splits)

lemma setEmployeeStatus_frame:
  assumes "setEmployeeStatus a e st db = Inr (x, db')"
  shows "roles_of db' = roles_of db" "grants db' = grants db" "perms db' = perms db"
  using assms by (auto elim!: setEmployeeStatus_Inr)

lemma activate_Inr: "activate e db = Inr (x, db') \<longleftrightarrow> db' = db\<lparr>employees := update_where
    (\<lambda>x. em_id x = e \<and> em_status x = Invited)
    (\<lambda>x. x\<lparr>em_status := ActiveEmployment, em_joined := True\<rparr>) (employees db)\<rparr>"
  by (auto simp: activate_def modifies_def)

lemma collude_ladder: "collude low canonical db0 S0 db S \<Longrightarrow> ladder_ok db0 \<Longrightarrow> ladder_ok db"
proof (induction rule: collude.induct)
  case (create db S a req i db')
  then show ?case using ladder_create by blast
next
  case (update db S a i req x db')
  then show ?case using update_owner_safe(2) by blast
next
  case (archive db S a i x db')
  then show ?case using ladder_archive(1) by blast
next
  case (assign db S a e ids x db')
  then show ?case using ladder_frame [of db' db] setEmployeeRoles_Inr(4) [OF assign(3)] by simp
next
  case (invite db S a email number i e db')
  then show ?case using ladder_frame [of db' db] by (auto elim!: inviteEmployee_Inr)
next
  case (status db S a st e x db')
  then show ?case using ladder_frame [of db' db] setEmployeeStatus_frame(1) by blast
next
  case (accept db S e x db')
  then show ?case using ladder_frame [of db' db] by (simp add: activate_Inr)
qed simp

lemma collude_bounded:
  assumes "collude low canonical db0 S0 db S" and "ladder_ok db0" and "bounded P L S0 db0"
  shows "bounded P L S db"
  using assms
proof (induction rule: collude.induct)
  case (create db S a req i db')
  then show ?case using step_create by blast
next
  case (update db S a i req x db')
  then show ?case using step_update collude_ladder by blast
next
  case (archive db S a i x db')
  then show ?case using step_archive by blast
next
  case (assign db S a e ids x db')
  then show ?case using step_assign by blast
next
  case (invite db S a email number i e db')
  then show ?case using step_invite [OF invite(3) collude_ladder [OF invite(1)]] by blast
next
  case (status db S a st e x db')
  then show ?case using bounded_frame [of db' db P L S] setEmployeeStatus_frame [OF status(4)] by blast
next
  case (accept db S e x db')
  then show ?case using bounded_frame [of db' db P L S] by (simp add: activate_Inr)
qed simp

subsection \<open>Properties\<close>

text \<open>C3: Nobody escalates. Whatever a group of people do together through the role editor, role
  assignment, invitations and status changes, and whoever they invite and take in, no member ever
  holds a permission outside the set, a level above the highest, or the owner role, that the group
  did not hold to begin with.\<close>

theorem no_escalation:
  assumes "collude low canonical db0 S0 db S" and "ladder_ok db0" and "bounded P L S0 db0" and "e \<in> S"
  shows "set (aa_permissions (authorityOfEmployee db e)) \<subseteq> P
    \<and> (case aa_level (authorityOfEmployee db e) of None \<Rightarrow> True | Some l \<Rightarrow> l \<le> L)
    \<and> \<not> isOwner (authorityOfEmployee db e)"
  using bounded_authority [OF collude_bounded [OF assms(1-3)] assms(4)] by (simp split: option.splits)

definition small_business :: role_db where
  "small_business =
     \<lparr>roles_of = [\<lparr>ro_id = 1, ro_name = ''owner'', ro_level = 100, ro_isSystem = True, ro_active = True,
                    ro_codes = [''roles.manage'', ''enterprise.manage'']\<rparr>,
                  \<lparr>ro_id = 2, ro_name = ''manager'', ro_level = 70, ro_isSystem = True, ro_active = True,
                    ro_codes = [''roles.manage'']\<rparr>],
      grants = [(1, 1), (2, 2)],
      employees = [\<lparr>em_id = 1, em_identity = 1, em_status = ActiveEmployment, em_joined = True\<rparr>,
                   \<lparr>em_id = 2, em_identity = 2, em_status = ActiveEmployment, em_joined = True\<rparr>],
      perms = [(''roles.manage'', True, False), (''enterprise.manage'', True, False)],
      templates = [''owner'', ''manager''],
      identities = [\<lparr>id_id = 1, id_email = Some ''o@x.io'', id_mobile = None\<rparr>,
                    \<lparr>id_id = 2, id_email = Some ''m@x.io'', id_mobile = None\<rparr>]\<rparr>"

definition run_or :: "'a role_act \<Rightarrow> role_db \<Rightarrow> role_db" where
  "run_or m db = (case m db of Inr (_, db') \<Rightarrow> db' | Inl _ \<Rightarrow> db)"

text \<open>The manager defines a role below their own and invites somebody into it.\<close>

definition with_lead :: role_db where
  "with_lead = run_or (createRole id 2 \<lparr>q_name = ''lead'', q_level = 60, q_codes = [''roles.manage'']\<rparr>) small_business"

definition with_guest :: role_db where
  "with_guest = run_or (inviteEmployee Some 2 (Some ''g@x.io'') None 3) with_lead"

lemma small_business_ok: "ladder_ok small_business \<and> bounded {''roles.manage''} 70 {2} small_business"
  by (simp add: bounded_def) code_simp

lemma small_business_steps:
  "createRole id 2 \<lparr>q_name = ''lead'', q_level = 60, q_codes = [''roles.manage'']\<rparr> small_business = Inr (3, with_lead)"
  "inviteEmployee Some 2 (Some ''g@x.io'') None 3 with_lead = Inr (3, with_guest)"
  by code_simp+

lemma small_business_collude: "collude id Some small_business {2} with_guest {3, 2}"
  by (rule collude.invite [OF collude.create [OF collude.start _ small_business_steps(1)] _ small_business_steps(2)])
    simp_all

theorem no_escalation_witness:
  "set (aa_permissions (authorityOfEmployee with_guest 3)) \<subseteq> {''roles.manage''}"
  using no_escalation [OF small_business_collude _ _ , of "{''roles.manage''}" 70 3] small_business_ok by simp

section \<open>A business keeps an owner\<close>

definition has_active_owner :: "role_db \<Rightarrow> bool" where
  "has_active_owner db \<longleftrightarrow> list_ex (is_active_owner db) (map em_id (employees db))"

lemma has_active_ownerI: "is_active_owner db e \<Longrightarrow> has_active_owner db"
  unfolding has_active_owner_def by (auto simp: list_ex_iff is_active_owner_def)

lemma has_active_ownerE:
  assumes "has_active_owner db"
  obtains e where "is_active_owner db e"
  using assms by (auto simp: has_active_owner_def list_ex_iff)

lemma other_owner:
  assumes "countOtherActiveOwners db e \<noteq> 0"
  obtains e' where "e' \<noteq> e" "is_active_owner db e'"
proof -
  let ?P = "\<lambda>e'. e' \<noteq> e \<and> is_active_owner db e'"
  from assms have "set (remdups (filter ?P (map fst (grants db)))) \<noteq> {}"
    by (auto simp: countOtherActiveOwners_def filter_empty_conv)
  with that show ?thesis by auto
qed

lemma list_ex_update_mono:
  "(\<And>x. P x \<Longrightarrow> Q x \<Longrightarrow> Q (f x)) \<Longrightarrow> list_ex Q xs \<Longrightarrow> list_ex Q (update_where P f xs)"
  unfolding update_where_def by (induction xs) auto

lemma owner_kept:
  assumes "is_active_owner db e"
    and "list_ex (\<lambda>r. ro_name r = system_role_name Owner) (held_roles db e) \<Longrightarrow>
      list_ex (\<lambda>r. ro_name r = system_role_name Owner) (held_roles db' e)"
    and "list_ex (\<lambda>x. em_id x = e \<and> em_status x = ActiveEmployment) (employees db) \<Longrightarrow>
      list_ex (\<lambda>x. em_id x = e \<and> em_status x = ActiveEmployment) (employees db')"
  shows "has_active_owner db'"
  using assms by (intro has_active_ownerI [of db' e]) (simp add: is_active_owner_def)

text \<open>The row of the owner role survives every change that keeps the rows of built-in roles.\<close>

lemma owner_row_kept:
  assumes "ladder_ok db" and "\<And>c. c \<in> set (roles_of db) \<Longrightarrow> ro_isSystem c \<Longrightarrow> c \<in> set (roles_of db')"
    and "set (grants db) \<subseteq> set (grants db')"
    and "list_ex (\<lambda>r. ro_name r = system_role_name Owner) (held_roles db e)"
  shows "list_ex (\<lambda>r. ro_name r = system_role_name Owner) (held_roles db' e)"
proof -
  from assms(4) obtain r where "r \<in> set (roles_of db)" "ro_active r" "(e, ro_id r) \<in> set (grants db)"
    "ro_name r = system_role_name Owner"
    by (auto simp: list_ex_iff held_roles_def)
  moreover from this assms(1) have "ro_isSystem r" by (auto simp: ladder_ok_def list_all_iff)
  ultimately show ?thesis using assms(2,3) by (auto simp: list_ex_iff held_roles_def)
qed

lemma owner_after_assign:
  assumes run: "setEmployeeRoles a e ids db = Inr (x, db')" and own: "has_active_owner db"
  shows "has_active_owner db'"
proof -
  note s = setEmployeeRoles_Inr [OF run] and h = held_after_assign [OF run]
  have other: "has_active_owner db'" if "is_active_owner db o'" "o' \<noteq> e" for o'
    by (rule owner_kept [OF that(1)]) (use that(2) h s(4) in simp_all)
  obtain o' where o': "is_active_owner db o'" using own by (rule has_active_ownerE)
  show ?thesis
  proof (cases "o' = e")
    case False
    with other o' show ?thesis by blast
  next
    case True
    then have "list_ex (\<lambda>r. ro_name r = system_role_name Owner) (held_roles db e)"
      using o' by (simp add: is_active_owner_def)
    with s(3) consider "countOtherActiveOwners db e \<noteq> 0"
      | "list_ex (\<lambda>r. ro_name r = system_role_name Owner)
          (filter (\<lambda>r. ro_active r \<and> ro_id r \<in> set ids) (roles_of db))" by blast
    then show ?thesis
    proof cases
      case 1
      then obtain o2 where "o2 \<noteq> e" "is_active_owner db o2" by (rule other_owner)
      with other show ?thesis by blast
    next
      case 2
      then show ?thesis
        by (intro owner_kept [OF o']) (use True h s(4) in \<open>auto simp: list_ex_iff\<close>)
    qed
  qed
qed

lemma owner_after_status:
  assumes run: "setEmployeeStatus a e st db = Inr (x, db')" and st: "st \<noteq> Invited"
    and own: "has_active_owner db"
  shows "has_active_owner db'"
proof -
  from run obtain employee where guard: "findEmployee db e = Some employee"
    "st \<noteq> Suspended \<or> \<not> list_ex (\<lambda>r. ro_name r = system_role_name Owner) (held_roles db e)
      \<or> countOtherActiveOwners db e \<noteq> 0"
    and db': "db' = db\<lparr>employees := update_where (\<lambda>x. em_id x = e \<and> em_status x = em_status employee)
       (\<lambda>x. x\<lparr>em_status := st\<rparr>) (employees db)\<rparr>"
    by (rule setEmployeeStatus_Inr) blast
  have held: "held_roles db' o' = held_roles db o'" for o' by (simp add: db' held_roles_def)
  have stays: "has_active_owner db'" if "is_active_owner db o'" "o' \<noteq> e \<or> st = ActiveEmployment" for o'
  proof (rule owner_kept [OF that(1)])
    show "list_ex (\<lambda>x. em_id x = o' \<and> em_status x = ActiveEmployment) (employees db')"
      if "list_ex (\<lambda>x. em_id x = o' \<and> em_status x = ActiveEmployment) (employees db)"
      using that \<open>o' \<noteq> e \<or> st = ActiveEmployment\<close> unfolding db' by (auto intro!: list_ex_update_mono)
  qed (simp add: held)
  obtain o' where o': "is_active_owner db o'" using own by (rule has_active_ownerE)
  show ?thesis
  proof (cases "o' \<noteq> e \<or> st = ActiveEmployment")
    case False
    with st o' guard(2) have "countOtherActiveOwners db e \<noteq> 0"
      by (cases st) (auto simp: is_active_owner_def)
    then obtain o2 where "o2 \<noteq> e" "is_active_owner db o2" by (rule other_owner)
    with stays show ?thesis by blast
  qed (use stays o' in blast)
qed

lemma same_employees:
  "createRole low a req db = Inr (i, db') \<Longrightarrow> employees db' = employees db"
  "updateRole a i req db = Inr (x, db') \<Longrightarrow> employees db' = employees db"
  "archiveRole a i db = Inr (x, db') \<Longrightarrow> employees db' = employees db"
  "setEmployeeRoles a e ids db = Inr (x, db') \<Longrightarrow> employees db' = employees db"
  by (auto elim!: updateRole_Inr dest!: createRole_Inr(3) archiveRole_Inr(1) setEmployeeRoles_Inr(4))

lemma invite_grows:
  assumes "inviteEmployee canonical a email number i db = Inr (e, db')"
  shows "roles_of db' = roles_of db" "set (grants db) \<subseteq> set (grants db')"
    "list_ex Q (employees db) \<Longrightarrow> list_ex Q (employees db')"
  using assms by (auto elim!: inviteEmployee_Inr)

text \<open>C20: A business keeps an owner. Starting from a business with an active owner, no sequence of role
  edits, role assignments, invitations, suspensions and reinstatements by anybody leaves it with
  no active employee who holds the owner role.\<close>

theorem owner_remains:
  assumes "collude low canonical db0 S0 db S" and "ladder_ok db0" and "has_active_owner db0"
  shows "has_active_owner db"
  using assms
proof (induction rule: collude.induct)
  case (create db S a req i db')
  then obtain e where "is_active_owner db e" by (auto elim: has_active_ownerE)
  then show ?case
    by (rule owner_kept) (simp_all only: held_create [OF create(3)] same_employees(1) [OF create(3)])
next
  case (update db S a i req x db')
  then obtain e where e: "is_active_owner db e" by (auto elim: has_active_ownerE)
  have ok: "ladder_ok db" using update collude_ladder by blast
  from update(3) have "grants db' = grants db" "employees db' = employees db" by (auto elim!: updateRole_Inr)
  then show ?case
    using owner_row_kept [OF ok update_owner_safe(3) [OF update(3) ok]] by (intro owner_kept [OF e]) simp_all
next
  case (archive db S a i x db')
  then obtain e where e: "is_active_owner db e" by (auto elim: has_active_ownerE)
  have ok: "ladder_ok db" using archive collude_ladder by blast
  have "grants db' = grants db" "employees db' = employees db"
    by (simp_all add: archiveRole_Inr(1) [OF archive(3)])
  then show ?case
    using owner_row_kept [OF ok ladder_archive(2) [OF archive(3) ok]] by (intro owner_kept [OF e]) simp_all
next
  case (assign db S a e ids x db')
  then show ?case using owner_after_assign by blast
next
  case (invite db S a email number i e db')
  then obtain o' where o': "is_active_owner db o'" by (auto elim: has_active_ownerE)
  have ok: "ladder_ok db" using invite collude_ladder by blast
  note g = invite_grows [OF invite(3)]
  show ?case
    using owner_row_kept [OF ok _ g(2)] g(1,3) by (intro owner_kept [OF o']) simp_all
next
  case (status db S a st e x db')
  then show ?case using owner_after_status by blast
next
  case (accept db S e x db')
  then obtain o' where o': "is_active_owner db o'" by (auto elim: has_active_ownerE)
  have "held_roles db' = held_roles db"
    using accept by (simp add: activate_Inr held_roles_def fun_eq_iff)
  then show ?case
    using accept by (intro owner_kept [OF o']) (auto simp: activate_Inr intro!: list_ex_update_mono)
qed simp

theorem owner_remains_witness: "has_active_owner with_guest"
  by (rule owner_remains [OF small_business_collude]) code_simp+

section \<open>Only a person's own acceptance makes an employment real\<close>

definition joined_ok :: "role_db \<Rightarrow> bool" where
  "joined_ok db \<longleftrightarrow> list_all (\<lambda>x. em_status x = ActiveEmployment \<longrightarrow> em_joined x) (employees db)"

lemma list_all_update_mono:
  "(\<And>x. x \<in> set xs \<Longrightarrow> P x \<Longrightarrow> Q x \<Longrightarrow> Q (f x)) \<Longrightarrow> list_all Q xs \<Longrightarrow> list_all Q (update_where P f xs)"
  unfolding update_where_def by (induction xs) auto

lemma joined_status:
  assumes run: "setEmployeeStatus a e st db = Inr (x, db')" and ok: "joined_ok db"
    and ids: "distinct (map em_id (employees db))"
  shows "joined_ok db'" and "map em_id (employees db') = map em_id (employees db)"
    and "map em_joined (employees db') = map em_joined (employees db)"
proof -
  from run obtain y where y: "findEmployee db e = Some y"
    and may: "mayChangeStatus (em_status y) st (em_joined y) = None"
    and db': "db' = db\<lparr>employees := update_where (\<lambda>x. em_id x = e \<and> em_status x = em_status y)
       (\<lambda>x. x\<lparr>em_status := st\<rparr>) (employees db)\<rparr>"
    by (rule setEmployeeStatus_Inr) blast
  show "map em_id (employees db') = map em_id (employees db)"
    "map em_joined (employees db') = map em_joined (employees db)"
    by (simp_all add: db' map_update_where)
  have "y \<in> set (employees db)" "em_id y = e"
    using y by (auto simp: findEmployee_def dest: find_Some_iff_mem)
  then have "x = y" if "x \<in> set (employees db)" "em_id x = e" for x
    using distinct_map_eq [OF ids] that by metis
  moreover have "st = ActiveEmployment \<longrightarrow> em_joined y"
    using may by (auto simp: mayChangeStatus_def split: if_splits)
  ultimately show "joined_ok db'"
    using ok unfolding joined_ok_def db' by (auto intro!: list_all_update_mono)
qed

lemma collude_joined:
  assumes "collude low canonical db0 S0 db S" and "joined_ok db0" and "distinct (map em_id (employees db0))"
  shows "joined_ok db \<and> distinct (map em_id (employees db))"
  using assms
proof (induction rule: collude.induct)
  case (invite db S a email number i e db')
  have "e \<notin> em_id ` set (employees db)"
    using invite(3) fresh_id_greater [of e "map em_id (employees db) @ map fst (grants db)"]
    by (auto elim!: inviteEmployee_Inr)
  with invite show ?case by (auto elim!: inviteEmployee_Inr simp: joined_ok_def)
next
  case (status db S a st e x db')
  then show ?case using joined_status [OF status(4)] by metis
next
  case (accept db S e x db')
  then show ?case
    by (auto simp: activate_Inr joined_ok_def map_update_where intro!: list_all_update_mono)
qed (use same_employees in \<open>simp_all add: joined_ok_def\<close>)

text \<open>No administrative action makes an employment real. However invitations, cancellations,
  suspensions and reinstatements are combined, an employment is active only if its person accepted
  the invitation at some point: \<open>activate\<close> is the only operation that records that, so neither a
  direct activation nor the detour through a suspension gets there.\<close>

theorem active_means_accepted:
  assumes "collude low canonical db0 S0 db S" and "joined_ok db0" and "distinct (map em_id (employees db0))"
    and "x \<in> set (employees db)" and "em_status x = ActiveEmployment"
  shows "em_joined x"
  using collude_joined [OF assms(1-3)] assms(4,5) by (auto simp: joined_ok_def list_all_iff)

theorem active_means_accepted_witness:
  "em_joined \<lparr>em_id = 1, em_identity = 1, em_status = ActiveEmployment, em_joined = True\<rparr>"
  by (rule active_means_accepted [OF small_business_collude]) code_simp+

end
