(* ===== verification/Event_Queue.thy ===== *)
theory Event_Queue
  imports Prelude Rounding "HOL-Library.Product_Lexorder"
begin

text \<open>
  What the inbound and the outbound ledger share. There is no broker: the table is the queue
  (\<open>workers/base-poller.ts\<close>). One statement claims a batch of due rows in order, one returns the
  rows of dead workers, one deletes settled rows. \<open>claim_rows\<close>, \<open>reclaim_rows\<close> and
  \<open>delete_rows\<close> are the three statements over any row type; the locale \<open>lease_table\<close> says what a
  table has to promise, and holds what follows: a claim takes the first due rows, a row is taken
  by one worker at a time, and no row is lost or duplicated.

  The retry policy of \<open>modules/ledger/backoff.util.ts\<close> and the dedup keys of
  \<open>modules/ledger/dedup-key.util.ts\<close> are here too.
\<close>

section \<open>Batches\<close>

text \<open>\<open>UPDATE ... WHERE id IN (SELECT id ... ORDER BY ... LIMIT ...)\<close>.\<close>

definition first_ids :: "('r \<Rightarrow> int) \<Rightarrow> ('r \<Rightarrow> bool) \<Rightarrow> ('r \<Rightarrow> 'k :: linorder) \<Rightarrow> nat \<Rightarrow> 'r list \<Rightarrow> int list" where
  "first_ids rid due order limit rows = map rid (take limit (sort_key order (filter due rows)))"

definition claim_rows ::
    "('r \<Rightarrow> int) \<Rightarrow> ('r \<Rightarrow> bool) \<Rightarrow> ('r \<Rightarrow> 'k :: linorder) \<Rightarrow> nat \<Rightarrow> ('r \<Rightarrow> 'r) \<Rightarrow> 'r list \<Rightarrow> 'r list" where
  "claim_rows rid due order limit grab rows =
     (let ids = first_ids rid due order limit rows in update_where (\<lambda>r. rid r \<in> set ids) grab rows)"

definition claimed_rows ::
    "('r \<Rightarrow> int) \<Rightarrow> ('r \<Rightarrow> bool) \<Rightarrow> ('r \<Rightarrow> 'k :: linorder) \<Rightarrow> nat \<Rightarrow> ('r \<Rightarrow> 'r) \<Rightarrow> 'r list \<Rightarrow> 'r list" where
  "claimed_rows rid due order limit grab rows =
     (let ids = first_ids rid due order limit rows in map grab (filter (\<lambda>r. rid r \<in> set ids) rows))"

text \<open>A \<open>LIMIT\<close> with no \<open>ORDER BY\<close>: any of the rows that qualify may be left for the next run, here
  the later ones of the table.\<close>

definition reclaim_rows :: "('r \<Rightarrow> int) \<Rightarrow> ('r \<Rightarrow> bool) \<Rightarrow> nat \<Rightarrow> ('r \<Rightarrow> 'r) \<Rightarrow> 'r list \<Rightarrow> 'r list" where
  "reclaim_rows rid lapsed limit release rows =
     (let ids = map rid (take limit (filter lapsed rows)) in update_where (\<lambda>r. rid r \<in> set ids) release rows)"

definition delete_rows ::
    "('r \<Rightarrow> int) \<Rightarrow> ('r \<Rightarrow> bool) \<Rightarrow> ('r \<Rightarrow> 'k :: linorder) \<Rightarrow> nat \<Rightarrow> 'r list \<Rightarrow> 'r list" where
  "delete_rows rid old order limit rows =
     (let ids = first_ids rid old order limit rows in filter (\<lambda>r. rid r \<notin> set ids) rows)"

lemma first_ids_sub:
  "i \<in> set (first_ids rid due order limit rows) \<Longrightarrow> \<exists>r\<in>set rows. rid r = i \<and> due r"
  by (auto simp: first_ids_def dest!: in_set_takeD)

lemma first_ids_length: "length (first_ids rid due order limit rows) = min (length (filter due rows)) limit"
  by (simp add: first_ids_def)

lemma sorted_take_before:
  assumes "sorted (map f xs)" and "x \<in> set (take n xs)" and "y \<in> set (drop n xs)"
  shows "f x \<le> f y"
proof -
  have "sorted (map f (take n xs) @ map f (drop n xs))"
    using assms(1) by (metis append_take_drop_id map_append)
  with assms(2,3) show ?thesis by (auto simp: sorted_append)
qed

lemma first_ids_before:
  assumes "distinct (map rid rows)"
    and x: "x \<in> set rows" "rid x \<in> set (first_ids rid due order limit rows)"
    and y: "y \<in> set rows" "due y" "rid y \<notin> set (first_ids rid due order limit rows)"
  shows "order x \<le> order y"
proof -
  let ?q = "sort_key order (filter due rows)"
  obtain x' where "x' \<in> set (take limit ?q)" "rid x' = rid x" using x(2) by (auto simp: first_ids_def)
  moreover from this have "x' \<in> set rows" by (auto dest!: in_set_takeD)
  ultimately have "x \<in> set (take limit ?q)" using distinct_map_eq [OF assms(1)] x(1) by metis
  moreover have "y \<in> set ?q" using y(1,2) by simp
  then have "y \<in> set (take limit ?q) \<or> y \<in> set (drop limit ?q)"
    by (metis Un_iff append_take_drop_id set_append)
  then have "y \<in> set (drop limit ?q)" using y(3) by (auto simp: first_ids_def)
  ultimately show ?thesis using sorted_take_before [of order ?q] by simp
qed

text \<open>A row with few due rows before it is taken.\<close>

lemma take_sorted_filter:
  assumes s: "sorted (map f q)" and x: "x \<in> set (drop n q)"
  shows "n < length (filter (\<lambda>z. f z \<le> f x) q)"
proof -
  have all: "\<forall>z\<in>set (take n q). f z \<le> f x" using sorted_take_before [OF s _ x] by blast
  have n: "n < length q" using x by (cases "n < length q") auto
  have "filter (\<lambda>z. f z \<le> f x) q = filter (\<lambda>z. f z \<le> f x) (take n q) @ filter (\<lambda>z. f z \<le> f x) (drop n q)"
    by (simp only: filter_append [symmetric] append_take_drop_id)
  then have "filter (\<lambda>z. f z \<le> f x) q = take n q @ filter (\<lambda>z. f z \<le> f x) (drop n q)"
    using all by (simp add: filter_id_conv)
  moreover have "filter (\<lambda>z. f z \<le> f x) (drop n q) \<noteq> []" using x by (auto simp: filter_empty_conv)
  ultimately have "length (filter (\<lambda>z. f z \<le> f x) q) = n + length (filter (\<lambda>z. f z \<le> f x) (drop n q))"
    using n by simp
  with \<open>filter (\<lambda>z. f z \<le> f x) (drop n q) \<noteq> []\<close> show ?thesis by (cases "filter (\<lambda>z. f z \<le> f x) (drop n q)") auto
qed

lemma length_filter_sort: "length (filter P (sort_key f xs)) = length (filter P xs)"
  by (simp add: filter_sort)

lemma first_ids_within:
  assumes x: "x \<in> set rows" "due x"
    and few: "length (filter (\<lambda>z. due z \<and> order z \<le> order x) rows) \<le> limit"
  shows "rid x \<in> set (first_ids rid due order limit rows)"
proof -
  let ?q = "sort_key order (filter due rows)"
  have "length (filter (\<lambda>z. order z \<le> order x) ?q) = length (filter (\<lambda>z. due z \<and> order z \<le> order x) rows)"
    by (simp add: length_filter_sort conj_commute)
  then have "x \<notin> set (drop limit ?q)" using take_sorted_filter [of order ?q x limit] few by auto
  moreover have "x \<in> set ?q" using x by simp
  ultimately have "x \<in> set (take limit ?q)" by (metis Un_iff append_take_drop_id set_append)
  then show ?thesis by (simp add: first_ids_def)
qed

locale lease_table =
  fixes rid :: "'r \<Rightarrow> int" and due :: "int \<Rightarrow> 'r \<Rightarrow> bool" and order :: "'r \<Rightarrow> 'k :: linorder"
    and owner :: "'r \<Rightarrow> 'w option" and grab :: "'w \<Rightarrow> int \<Rightarrow> 'r \<Rightarrow> 'r"
  assumes grab_id: "rid (grab w t r) = rid r"
    and grab_owner: "owner (grab w t r) = Some w"
    and grab_not_due: "\<not> due now (grab w t r)"
begin

lemma claim_ids: "map rid (claim_rows rid (due now) order n (grab w t) rows) = map rid rows"
  by (simp add: claim_rows_def Let_def map_update_where grab_id)

lemma claimed_owner: "r \<in> set (claimed_rows rid (due now) order n (grab w t) rows) \<Longrightarrow> owner r = Some w"
  by (auto simp: claimed_rows_def Let_def grab_owner)

lemma claimed_sub: "set (claimed_rows rid (due now) order n (grab w t) rows)
    \<subseteq> set (claim_rows rid (due now) order n (grab w t) rows)"
  by (auto simp: claimed_rows_def claim_rows_def Let_def set_update_where)

lemma claimed_ids: "distinct (map rid rows) \<Longrightarrow> 
   rid ` set (claimed_rows rid (due now) order n (grab w t) rows) = set (first_ids rid (due now) order n rows)"
  using first_ids_sub [of _ rid "due now" order n rows]
  by (force simp: claimed_rows_def Let_def grab_id image_iff)

lemma claim_exclusive:
  assumes ids: "distinct (map rid rows)"
    and r: "r \<in> set (claimed_rows rid (due now) order n (grab w t) rows)"
    and r': "r' \<in> set (claimed_rows rid (due now') order m (grab w' t')
      (claim_rows rid (due now) order n (grab w t) rows))"
  shows "rid r \<noteq> rid r'"
proof
  let ?after = "claim_rows rid (due now) order n (grab w t) rows"
  assume eq: "rid r = rid r'"
  have ids': "distinct (map rid ?after)" using ids by (simp add: claim_ids)
  from r' have "rid r' \<in> set (first_ids rid (due now') order m ?after)"
    using claimed_ids [OF ids'] by blast
  then obtain s where s: "s \<in> set ?after" "rid s = rid r'" "due now' s" using first_ids_sub by blast
  have "r \<in> set ?after" using r claimed_sub by blast
  then have "s = r" using distinct_map_eq [OF ids'] s(1,2) eq by metis
  moreover have "\<not> due now' r" using r by (auto simp: claimed_rows_def Let_def grab_not_due)
  ultimately show False using s(3) by simp
qed

end

section \<open>When to try again\<close>

text \<open>\<open>r\<close> is what \<open>Math.random()\<close> drew, in \<open>[0, 1)\<close>.\<close>

definition RETRY_BASE_DELAY_MS :: int where "RETRY_BASE_DELAY_MS = 1000"

definition RETRY_MAX_DELAY_MS :: int where "RETRY_MAX_DELAY_MS = 5 * 60 * 1000"

definition exponential_ms :: "int \<Rightarrow> int" where
  "exponential_ms attemptCount =
     min (RETRY_BASE_DELAY_MS * 2 ^ nat (max 0 (attemptCount - 1))) RETRY_MAX_DELAY_MS"

definition jittered :: "rat \<Rightarrow> rat \<Rightarrow> int" where
  "jittered r baseMs = \<lfloor>baseMs * (1 / 2 + r / 2)\<rfloor>"

definition nextAttemptDelayMs :: "rat \<Rightarrow> int \<Rightarrow> int" where
  "nextAttemptDelayMs r attemptCount = jittered r (rat_of_int (exponential_ms attemptCount))"

definition nextAttemptAt :: "rat \<Rightarrow> int \<Rightarrow> int \<Rightarrow> int" where
  "nextAttemptAt r attemptCount now = now + nextAttemptDelayMs r attemptCount"

definition parkFor :: "rat \<Rightarrow> rat \<Rightarrow> int \<Rightarrow> int" where
  "parkFor r baseMs now = now + jittered r baseMs"

definition scheduleRetry :: "rat \<Rightarrow> int \<Rightarrow> int \<Rightarrow> int \<Rightarrow> int option" where
  "scheduleRetry r attemptCount maxAttempts now =
     (if maxAttempts \<le> attemptCount then None else Some (nextAttemptAt r attemptCount now))"

lemma jittered_bounds:
  assumes "0 \<le> r" and "r < 1" and "0 \<le> b"
  shows "b \<le> 2 * jittered r (rat_of_int b) + 1" and "jittered r (rat_of_int b) \<le> b"
proof -
  let ?j = "jittered r (rat_of_int b)"
  let ?x = "rat_of_int b * (1 / 2 + r / 2)"
  have lo: "rat_of_int b \<le> 2 * ?x"
    using assms(1,3) by (simp add: algebra_simps)
  have hi: "?x \<le> rat_of_int b"
    using mult_left_mono [of "1 / 2 + r / 2" 1 "rat_of_int b"] assms(2,3) by simp
  have "?x < rat_of_int ?j + 1" unfolding jittered_def by linarith
  with lo have "rat_of_int b < rat_of_int (2 * ?j + 2)" by simp
  then show "b \<le> 2 * ?j + 1" by (simp only: of_int_less_iff)
  have "rat_of_int ?j \<le> rat_of_int b" using hi unfolding jittered_def by linarith
  then show "?j \<le> b" by simp
qed

lemma exponential_ms_bounds: "500 \<le> exponential_ms n" "exponential_ms n \<le> 300000" "1000 \<le> exponential_ms n"
proof -
  have "(1 :: int) \<le> 2 ^ k" for k :: nat by simp
  from this [of "nat (max 0 (n - 1))"] show "1000 \<le> exponential_ms n"
    by (simp add: exponential_ms_def RETRY_BASE_DELAY_MS_def RETRY_MAX_DELAY_MS_def)
  then show "500 \<le> exponential_ms n" by simp
  show "exponential_ms n \<le> 300000" by (simp add: exponential_ms_def RETRY_MAX_DELAY_MS_def)
qed

lemma exponential_ms_mono: "m \<le> n \<Longrightarrow> exponential_ms m \<le> exponential_ms n"
  unfolding exponential_ms_def RETRY_BASE_DELAY_MS_def
  by (intro min.mono mult_left_mono power_increasing nat_mono) auto

text \<open>A retry is never immediate and never later than five minutes, and there is none once the budget
  is spent. Whatever the random draw, the delay lies between half (rounded down) of an exponential
  curve and the curve itself; the curve starts at one second, never falls and stops at five
  minutes.\<close>

theorem retry_delay_bounds:
  assumes "0 \<le> r" and "r < 1"
  shows "exponential_ms n \<le> 2 * nextAttemptDelayMs r n + 1 \<and> nextAttemptDelayMs r n \<le> exponential_ms n
    \<and> 1000 \<le> exponential_ms n \<and> exponential_ms n \<le> exponential_ms (n + 1) \<and> exponential_ms n \<le> 300000
    \<and> (case scheduleRetry r n budget now of
         None \<Rightarrow> budget \<le> n
       | Some t \<Rightarrow> n < budget \<and> now + 499 < t \<and> t \<le> now + 300000)"
proof -
  note b = jittered_bounds [OF assms, of "exponential_ms n", folded nextAttemptDelayMs_def]
    and e = exponential_ms_bounds [of n] and m = exponential_ms_mono [of n "n + 1"]
  have "499 < nextAttemptDelayMs r n" using b(1) e by linarith
  with b e m show ?thesis by (auto simp: scheduleRetry_def nextAttemptAt_def)
qed

theorem retry_delay_bounds_witness: "scheduleRetry (1 / 2) 2 5 0 = Some 1500 \<and> nextAttemptDelayMs (1 / 2) 2 \<le> 2000"
  using retry_delay_bounds [of "1 / 2" 2 5 0]
  by (simp add: scheduleRetry_def nextAttemptAt_def nextAttemptDelayMs_def jittered_def exponential_ms_def
      RETRY_BASE_DELAY_MS_def RETRY_MAX_DELAY_MS_def)

section \<open>Dedup keys\<close>

datatype Platform = Facebook | Instagram | WhatsApp | YouTube | Zendesk | Internal

fun platform_text :: "Platform \<Rightarrow> string" where
  "platform_text Facebook = ''facebook''"
| "platform_text Instagram = ''instagram''"
| "platform_text WhatsApp = ''whatsapp''"
| "platform_text YouTube = ''youtube''"
| "platform_text Zendesk = ''zendesk''"
| "platform_text Internal = ''internal''"

datatype InboundEventType = InComment | InDirectMessage | InMention | InPostUpdate | InStoryReply | InPermissionChange

fun inbound_type_text :: "InboundEventType \<Rightarrow> string" where
  "inbound_type_text InComment = ''comment''"
| "inbound_type_text InDirectMessage = ''direct_message''"
| "inbound_type_text InMention = ''mention''"
| "inbound_type_text InPostUpdate = ''post_update''"
| "inbound_type_text InStoryReply = ''story_reply''"
| "inbound_type_text InPermissionChange = ''permission_change''"

datatype OutboundEventType =
  CommentReply | MentionReply | OutDirectMessage | CommentHide | CommentDelete | PostPublish | VerificationSend

fun outbound_type_text :: "OutboundEventType \<Rightarrow> string" where
  "outbound_type_text CommentReply = ''comment_reply''"
| "outbound_type_text MentionReply = ''mention_reply''"
| "outbound_type_text OutDirectMessage = ''direct_message''"
| "outbound_type_text CommentHide = ''comment_hide''"
| "outbound_type_text CommentDelete = ''comment_delete''"
| "outbound_type_text PostPublish = ''post_publish''"
| "outbound_type_text VerificationSend = ''verification_send''"

definition MAX_IDENTITY_CHARS :: nat where "MAX_IDENTITY_CHARS = 400"

text \<open>\<open>sha256\<close> is the hexadecimal digest of the host's library.\<close>

definition boundIdentity :: "(string \<Rightarrow> string) \<Rightarrow> string \<Rightarrow> string" where
  "boundIdentity sha256 identity =
     (if length identity \<le> MAX_IDENTITY_CHARS then identity else ''h:'' @ sha256 identity)"

definition inboundDedupKey :: "(string \<Rightarrow> string) \<Rightarrow> Platform \<Rightarrow> InboundEventType \<Rightarrow> string \<Rightarrow> string" where
  "inboundDedupKey sha256 platform eventType platformEventId =
     platform_text platform @ '':'' @ inbound_type_text eventType @ '':'' @ boundIdentity sha256 platformEventId"

definition outboundDedupKey :: "Platform \<Rightarrow> OutboundEventType \<Rightarrow> string \<Rightarrow> string \<Rightarrow> string" where
  "outboundDedupKey platform eventType sourceTable sourceRowId =
     platform_text platform @ '':'' @ outbound_type_text eventType @ '':'' @ sourceTable @ '':'' @ sourceRowId"

lemma no_colon:
  "CHR '':'' \<notin> set (platform_text p)" "CHR '':'' \<notin> set (inbound_type_text i)" "CHR '':'' \<notin> set (outbound_type_text t)"
  subgoal by (cases p; simp)
  subgoal by (cases i; simp)
  subgoal by (cases t; simp)
  done

lemma text_inject:
  "platform_text p = platform_text q \<longleftrightarrow> p = q"
  "inbound_type_text i = inbound_type_text j \<longleftrightarrow> i = j"
  "outbound_type_text t = outbound_type_text u \<longleftrightarrow> t = u"
  subgoal by (cases p; cases q; simp)
  subgoal by (cases i; cases j; simp)
  subgoal by (cases t; cases u; simp)
  done

lemma boundIdentity_inject:
  assumes "boundIdentity sha256 a = boundIdentity sha256 b"
    and "length a \<le> MAX_IDENTITY_CHARS \<Longrightarrow> take 2 a \<noteq> ''h:''" "length b \<le> MAX_IDENTITY_CHARS \<Longrightarrow> take 2 b \<noteq> ''h:''"
    and "sha256 a = sha256 b \<Longrightarrow> a = b"
  shows "a = b"
  using assms by (auto simp: boundIdentity_def split: if_splits)

text \<open>Two different items never share a dedup key, and one item always gets the same one. The
  inbound key determines platform, type and platform id, whether the id is short or hashed, as
  long as the digest does not collide on the two ids and no short id starts with the marker
  \<open>h:\<close>; the outbound key determines platform, type, cause and row, also
  for a moderation, whose cause itself contains colons.\<close>

theorem dedup_keys_injective:
  assumes "length a \<le> MAX_IDENTITY_CHARS \<longrightarrow> take 2 a \<noteq> ''h:''" "length b \<le> MAX_IDENTITY_CHARS \<longrightarrow> take 2 b \<noteq> ''h:''"
    and "sha256 a = sha256 b \<longrightarrow> a = b" and "CHR '':'' \<notin> set row" "CHR '':'' \<notin> set row'"
  shows "(inboundDedupKey sha256 p i a = inboundDedupKey sha256 q j b \<longleftrightarrow> p = q \<and> i = j \<and> a = b)
    \<and> (outboundDedupKey p t table row = outboundDedupKey q u table' row' \<longleftrightarrow>
         p = q \<and> t = u \<and> table = table' \<and> row = row')"
  using assms boundIdentity_inject [of sha256 a b]
  by (auto simp: inboundDedupKey_def outboundDedupKey_def append_sep_inject append_sep_inject_right
      no_colon text_inject)

theorem dedup_keys_injective_witness:
  "inboundDedupKey id Instagram InComment ''17'' \<noteq> inboundDedupKey id Instagram InComment ''18''
   \<and> outboundDedupKey Instagram CommentReply ''messages'' ''1'' \<noteq> outboundDedupKey Instagram CommentReply ''messages'' ''2''"
  using dedup_keys_injective [of "''17''" "''18''" id "''1''" "''2''" Instagram InComment Instagram
      InComment CommentReply "''messages''" CommentReply "''messages''"]
  by simp

end
