(* ===== verification/Outbox_Store.thy ===== *)
theory Outbox_Store
  imports Event_Queue
begin

text \<open>
  The outbound ledger: the table \<open>outbound_events\<close> and every statement of
  \<open>database/repositories/outbound-event.repository.ts\<close> that reads or writes it. Times are
  milliseconds, and \<open>now\<close> is the transaction's \<open>now()\<close>. The JSON columns are records of the fields
  the code reads or writes. Not kept: \<open>updated_at\<close> and the trace columns, which no statement
  reads, and the wake-up \<open>notifyQueue\<close>, which only shortens the wait for the next poll.

  \<open>outbox_ok\<close> is the table's invariant and \<open>may_follow\<close> its state machine.
\<close>

section \<open>The table\<close>

datatype OutboundEventStatus =
  OutPending | OutScheduled | OutLeased | OutSending | OutSent | OutFailed | OutDeadLetter | OutCancelled

datatype ReadBackOutcome = Landed | Lost | Unknown

datatype DestinationKind = ToChannel | ToProviderConnection | ToSystem | ToKafkaTopic | ToQueue | ToWebhook

record out_payload =
  commentId :: "string option"
  mediaId :: "string option"
  message :: "string option"
  replyToPlatformMessageId :: "string option"
  hidden :: "bool option"

record out_metadata =
  ambiguous :: bool
  readBack :: "ReadBackOutcome option"
  readBackAt :: "int option"
  replays :: int
  lastReplayAt :: "int option"

record outbound_event =
  o_id :: int
  o_enterprise :: "int option"
  o_channel :: "int option"
  destination_kind :: DestinationKind
  destination_id :: "string option"
  o_platform :: Platform
  o_type :: OutboundEventType
  in_reply_to :: "int option"
  recipient :: "string option"
  o_dedup :: string
  correlation :: "string option"
  o_payload :: out_payload
  priority :: int
  o_status :: OutboundEventStatus
  scheduled_at :: "int option"
  next_attempt_at :: "int option"
  created_at :: int
  attempt_count :: int
  max_attempts :: int
  lease_owner :: "string option"
  lease_expires_at :: "int option"
  last_error :: "string option"
  last_error_at :: "int option"
  dead_lettered_at :: "int option"
  sent_at :: "int option"
  platform_event_id :: "string option"
  o_metadata :: out_metadata

record outbox =
  events :: "outbound_event list"
  next_event_id :: int

definition MAX_SEND_ATTEMPTS :: int where "MAX_SEND_ATTEMPTS = 5"

definition PLATFORM_REQUEST_TIMEOUT_MS :: int where "PLATFORM_REQUEST_TIMEOUT_MS = 10000"

definition SENDING_REAP_GRACE_MS :: int where "SENDING_REAP_GRACE_MS = PLATFORM_REQUEST_TIMEOUT_MS * 2"

definition PRIORITY_NORMAL :: int where "PRIORITY_NORMAL = 30"

definition DUE_OUTBOUND_STATUSES :: "OutboundEventStatus list" where
  "DUE_OUTBOUND_STATUSES = [OutPending, OutScheduled, OutFailed]"

definition SETTLED_OUTBOUND_STATUSES :: "OutboundEventStatus list" where
  "SETTLED_OUTBOUND_STATUSES = [OutSent, OutCancelled]"

section \<open>The statements\<close>

record EnqueueOutboundInput =
  i_enterprise :: "int option"
  i_channel :: "int option"
  i_destination_kind :: DestinationKind
  i_destination_id :: "string option"
  i_platform :: Platform
  i_type :: OutboundEventType
  i_in_reply_to :: "int option"
  i_recipient :: "string option"
  i_dedup :: string
  i_correlation :: "string option"
  i_payload :: out_payload
  i_scheduled_at :: "int option"
  i_priority :: "int option"

text \<open>The unique index \<open>(COALESCE(enterprise_id, 0), dedup_key)\<close>.\<close>

definition dedup_index :: "outbound_event \<Rightarrow> int \<times> string" where
  "dedup_index e = ((case o_enterprise e of None \<Rightarrow> 0 | Some n \<Rightarrow> n), o_dedup e)"

definition new_event :: "int \<Rightarrow> int \<Rightarrow> EnqueueOutboundInput \<Rightarrow> outbound_event" where
  "new_event now i inp =
     \<lparr> o_id = i, o_enterprise = i_enterprise inp, o_channel = i_channel inp,
       destination_kind = i_destination_kind inp, destination_id = i_destination_id inp,
       o_platform = i_platform inp, o_type = i_type inp, in_reply_to = i_in_reply_to inp,
       recipient = i_recipient inp, o_dedup = i_dedup inp, correlation = i_correlation inp,
       o_payload = i_payload inp,
       priority = (case i_priority inp of None \<Rightarrow> PRIORITY_NORMAL | Some p \<Rightarrow> p),
       o_status = (if i_scheduled_at inp = None then OutPending else OutScheduled),
       scheduled_at = i_scheduled_at inp,
       next_attempt_at = Some (case i_scheduled_at inp of None \<Rightarrow> now | Some t \<Rightarrow> t),
       created_at = now, attempt_count = 0, max_attempts = MAX_SEND_ATTEMPTS,
       lease_owner = None, lease_expires_at = None, last_error = None, last_error_at = None,
       dead_lettered_at = None, sent_at = None, platform_event_id = None,
       o_metadata = \<lparr> ambiguous = False, readBack = None, readBackAt = None, replays = 0, lastReplayAt = None \<rparr> \<rparr>"

text \<open>The result: the new id, or \<open>None\<close> for a duplicate.\<close>

definition enqueue :: "int \<Rightarrow> EnqueueOutboundInput \<Rightarrow> outbox \<Rightarrow> int option \<times> outbox" where
  "enqueue now inp box =
     (let e = new_event now (next_event_id box) inp in
      if list_ex (\<lambda>f. dedup_index f = dedup_index e) (events box) then (None, box)
      else (Some (next_event_id box),
            box\<lparr>events := events box @ [e], next_event_id := next_event_id box + 1\<rparr>))"

definition due_at :: "outbound_event \<Rightarrow> int" where
  "due_at e = (case next_attempt_at e of Some t \<Rightarrow> t | None \<Rightarrow>
     (case scheduled_at e of Some t \<Rightarrow> t | None \<Rightarrow> created_at e))"

definition out_due :: "int \<Rightarrow> outbound_event \<Rightarrow> bool" where
  "out_due now e \<longleftrightarrow> o_status e \<in> set DUE_OUTBOUND_STATUSES \<and> due_at e \<le> now"

definition out_order :: "outbound_event \<Rightarrow> int \<times> int \<times> int" where
  "out_order e = (priority e, due_at e, o_id e)"

definition out_grab :: "string \<Rightarrow> int \<Rightarrow> outbound_event \<Rightarrow> outbound_event" where
  "out_grab owner expires e = e\<lparr>o_status := OutSending, lease_owner := Some owner,
     lease_expires_at := Some expires, attempt_count := attempt_count e + 1\<rparr>"

record ClaimedOutboundEvent =
  ce_id :: int
  ce_enterprise :: "int option"
  ce_channel :: "int option"
  ce_type :: OutboundEventType
  ce_recipient :: "string option"
  ce_payload :: out_payload
  ce_attempts :: int
  ce_max :: int

definition claimed_event :: "outbound_event \<Rightarrow> ClaimedOutboundEvent" where
  "claimed_event e =
     \<lparr> ce_id = o_id e, ce_enterprise = o_enterprise e, ce_channel = o_channel e, ce_type = o_type e,
       ce_recipient = recipient e, ce_payload = o_payload e, ce_attempts = attempt_count e, ce_max = max_attempts e \<rparr>"

definition claimDueBatch ::
    "string \<Rightarrow> nat \<Rightarrow> int \<Rightarrow> int \<Rightarrow> outbox \<Rightarrow> ClaimedOutboundEvent list \<times> outbox" where
  "claimDueBatch owner limit leaseSeconds now box =
     (let grab = out_grab owner (now + leaseSeconds * 1000);
          taken = claimed_rows o_id (out_due now) out_order limit grab (events box)
      in (map claimed_event (sort_key (\<lambda>e. (priority e, o_id e)) taken),
          box\<lparr>events := claim_rows o_id (out_due now) out_order limit grab (events box)\<rparr>))"

text \<open>An \<open>UPDATE ... WHERE id = ... AND ...\<close> and whether it touched a row.\<close>

definition update_event :: "int \<Rightarrow> (outbound_event \<Rightarrow> bool) \<Rightarrow> (outbound_event \<Rightarrow> outbound_event) \<Rightarrow> outbox \<Rightarrow> bool \<times> outbox" where
  "update_event i ok f box =
     (list_ex (\<lambda>e. o_id e = i \<and> ok e) (events box),
      box\<lparr>events := update_where (\<lambda>e. o_id e = i \<and> ok e) f (events box)\<rparr>)"

definition release :: "outbound_event \<Rightarrow> outbound_event" where
  "release e = e\<lparr>lease_owner := None, lease_expires_at := None\<rparr>"

definition markSent :: "int \<Rightarrow> int \<Rightarrow> string \<Rightarrow> string option \<Rightarrow> outbox \<Rightarrow> bool \<times> outbox" where
  "markSent now i owner pid =
     update_event i (\<lambda>e. lease_owner e = Some owner)
       (\<lambda>e. (release e)\<lparr>o_status := OutSent, sent_at := Some now, platform_event_id := pid\<rparr>)"

definition stillHoldsLease :: "int \<Rightarrow> int \<Rightarrow> string \<Rightarrow> outbox \<Rightarrow> bool" where
  "stillHoldsLease now i owner box =
     list_ex (\<lambda>e. o_id e = i \<and> lease_owner e = Some owner
        \<and> (case lease_expires_at e of None \<Rightarrow> False | Some t \<Rightarrow> now < t)) (events box)"

definition slice_error :: "string \<Rightarrow> string" where "slice_error s = take 2000 s"

definition unsettled_by :: "string \<Rightarrow> outbound_event \<Rightarrow> bool" where
  "unsettled_by owner e \<longleftrightarrow> lease_owner e = Some owner \<and> o_status e \<noteq> OutSent"

definition markFailed :: "int \<Rightarrow> int \<Rightarrow> string \<Rightarrow> string \<Rightarrow> int option \<Rightarrow> outbox \<Rightarrow> bool \<times> outbox" where
  "markFailed now i owner err next =
     update_event i (unsettled_by owner)
       (\<lambda>e. let spent = next = None \<or> max_attempts e \<le> attempt_count e in
          (release e)\<lparr>o_status := (if spent then OutDeadLetter else OutFailed),
            dead_lettered_at := (if spent then Some now else None),
            last_error := Some (slice_error err), last_error_at := Some now, next_attempt_at := next\<rparr>)"

datatype rate_limit_outcome = Parked | DeadLettered | NotApplied

definition young :: "int \<Rightarrow> int \<Rightarrow> outbound_event \<Rightarrow> bool" where
  "young now maxWaitMs e \<longleftrightarrow> now - maxWaitMs < created_at e"

definition markRateLimited ::
    "int \<Rightarrow> int \<Rightarrow> string \<Rightarrow> int \<Rightarrow> string \<Rightarrow> int \<Rightarrow> outbox \<Rightarrow> rate_limit_outcome \<times> outbox" where
  "markRateLimited now i owner retryAt err maxWaitMs box =
     (let (applied, box') = update_event i (unsettled_by owner)
            (\<lambda>e. let park = young now maxWaitMs e in
               (release e)\<lparr>o_status := (if park then OutPending else OutDeadLetter),
                 attempt_count := (if park then max (attempt_count e - 1) 0 else attempt_count e),
                 dead_lettered_at := (if park then None else Some now),
                 next_attempt_at := (if park then Some retryAt else None),
                 last_error := Some (slice_error err), last_error_at := Some now\<rparr>) box
      in ((case find (\<lambda>e. o_id e = i \<and> unsettled_by owner e) (events box) of
             None \<Rightarrow> NotApplied
           | Some e \<Rightarrow> if young now maxWaitMs e then Parked else DeadLettered), box'))"

definition cancel :: "int \<Rightarrow> int \<Rightarrow> string \<Rightarrow> string \<Rightarrow> outbox \<Rightarrow> bool \<times> outbox" where
  "cancel now i owner reason =
     update_event i (unsettled_by owner)
       (\<lambda>e. (release e)\<lparr>o_status := OutCancelled, last_error := Some (slice_error reason), last_error_at := Some now\<rparr>)"

definition cancelAmbiguous :: "int \<Rightarrow> int \<Rightarrow> string \<Rightarrow> string \<Rightarrow> outbox \<Rightarrow> bool \<times> outbox" where
  "cancelAmbiguous now i owner reason =
     update_event i (unsettled_by owner)
       (\<lambda>e. (release e)\<lparr>o_status := OutCancelled, last_error := Some (slice_error reason), last_error_at := Some now,
          o_metadata := (o_metadata e)\<lparr>ambiguous := True\<rparr>\<rparr>)"

text \<open>\<open>ORDER BY last_error_at LIMIT\<close>: a row with no time of failure never qualifies.\<close>

definition awaits_read_back :: "int \<Rightarrow> int \<Rightarrow> outbound_event \<Rightarrow> bool" where
  "awaits_read_back now settledBeforeMs e \<longleftrightarrow>
     o_status e = OutCancelled \<and> o_platform e = Instagram \<and> o_type e \<in> {CommentReply, MentionReply}
     \<and> ambiguous (o_metadata e) \<and> readBack (o_metadata e) = None \<and> o_enterprise e \<noteq> None \<and> o_channel e \<noteq> None
     \<and> (case last_error_at e of None \<Rightarrow> False | Some t \<Rightarrow> t < now - settledBeforeMs)"

definition listAmbiguousAwaitingReadBack :: "int \<Rightarrow> nat \<Rightarrow> int \<Rightarrow> outbox \<Rightarrow> outbound_event list" where
  "listAmbiguousAwaitingReadBack now limit settledBeforeMs box =
     take limit (sort_key (\<lambda>e. case last_error_at e of None \<Rightarrow> 0 | Some t \<Rightarrow> t)
       (filter (awaits_read_back now settledBeforeMs) (events box)))"

definition markReadBackResolved :: "int \<Rightarrow> int \<Rightarrow> ReadBackOutcome \<Rightarrow> string option \<Rightarrow> outbox \<Rightarrow> bool \<times> outbox" where
  "markReadBackResolved now i outcome pid =
     update_event i (\<lambda>e. readBack (o_metadata e) = None)
       (\<lambda>e. e\<lparr>o_metadata := (o_metadata e)\<lparr>readBack := Some outcome, readBackAt := Some now\<rparr>,
          o_status := (if outcome = Landed then OutSent else o_status e),
          platform_event_id := (case pid of None \<Rightarrow> platform_event_id e | Some p \<Rightarrow> Some p)\<rparr>)"

definition dead_moderation :: "int \<Rightarrow> outbound_event \<Rightarrow> bool" where
  "dead_moderation enterprise e \<longleftrightarrow> o_enterprise e = Some enterprise \<and> o_status e = OutDeadLetter
     \<and> o_type e \<in> {CommentHide, CommentDelete}"

definition findDeadModerationEvent :: "int \<Rightarrow> string \<Rightarrow> outbox \<Rightarrow> outbound_event option" where
  "findDeadModerationEvent enterprise comment box =
     (case sort_key (\<lambda>e. - o_id e)
        (filter (\<lambda>e. dead_moderation enterprise e \<and> commentId (o_payload e) = Some comment) (events box)) of
       [] \<Rightarrow> None | e # _ \<Rightarrow> Some e)"

definition findFailedModerationCommentIds :: "int \<Rightarrow> string list \<Rightarrow> outbox \<Rightarrow> string list" where
  "findFailedModerationCommentIds enterprise comments box =
     remdups (filter (\<lambda>c. list_ex (\<lambda>e. dead_moderation enterprise e \<and> commentId (o_payload e) = Some c) (events box)) comments)"

definition requeueDeadLettered :: "int \<Rightarrow> int \<Rightarrow> int \<Rightarrow> int \<Rightarrow> outbox \<Rightarrow> bool \<times> outbox" where
  "requeueDeadLettered now enterprise i maxReplays =
     update_event i
       (\<lambda>e. o_enterprise e = Some enterprise \<and> o_status e = OutDeadLetter \<and> replays (o_metadata e) < maxReplays)
       (\<lambda>e. (release e)\<lparr>o_status := OutPending, attempt_count := 0, next_attempt_at := Some now,
          o_metadata := (o_metadata e)\<lparr>replays := replays (o_metadata e) + 1,
            lastReplayAt := Some (now div 1000 * 1000)\<rparr>\<rparr>)"

definition out_lapsed :: "int \<Rightarrow> outbound_event \<Rightarrow> bool" where
  "out_lapsed now e \<longleftrightarrow> (case lease_expires_at e of None \<Rightarrow> False | Some t \<Rightarrow>
     (o_status e = OutLeased \<and> t < now) \<or> (o_status e = OutSending \<and> t < now - SENDING_REAP_GRACE_MS))"

definition reclaimExpiredLeases :: "int \<Rightarrow> nat \<Rightarrow> outbox \<Rightarrow> outbox" where
  "reclaimExpiredLeases now limit box =
     box\<lparr>events := reclaim_rows o_id (out_lapsed now) limit (\<lambda>e. (release e)\<lparr>o_status := OutPending\<rparr>) (events box)\<rparr>"

definition deleteSettledBefore :: "int \<Rightarrow> nat \<Rightarrow> outbox \<Rightarrow> outbox" where
  "deleteSettledBefore cutoff limit box =
     box\<lparr>events := delete_rows o_id (\<lambda>e. o_status e \<in> set SETTLED_OUTBOUND_STATUSES \<and> created_at e < cutoff)
       created_at limit (events box)\<rparr>"

section \<open>Looking a row up after each statement\<close>

definition row :: "outbox \<Rightarrow> int \<Rightarrow> outbound_event option" where
  "row box i = find (\<lambda>e. o_id e = i) (events box)"

definition outbox_ok :: "outbox \<Rightarrow> bool" where
  "outbox_ok box \<longleftrightarrow> distinct (map o_id (events box)) \<and> distinct (map dedup_index (events box))
     \<and> list_all (\<lambda>e. o_id e < next_event_id box) (events box)"

lemma row_Some: "row box i = Some e \<Longrightarrow> e \<in> set (events box) \<and> o_id e = i"
  unfolding row_def by (drule find_Some_iff_mem) simp

lemma row_mem: "distinct (map o_id (events box)) \<Longrightarrow> e \<in> set (events box) \<Longrightarrow> row box (o_id e) = Some e"
proof -
  assume d: "distinct (map o_id (events box))" and e: "e \<in> set (events box)"
  then obtain f where f: "row box (o_id e) = Some f"
    unfolding row_def by (metis (mono_tags, lifting) find_None_iff not_Some_eq)
  with row_Some [OF f] d e show ?thesis using distinct_map_eq by metis
qed

lemma row_update_where:
  assumes "\<And>e. o_id (f e) = o_id e"
  shows "row (box\<lparr>events := update_where P f (events box)\<rparr>) i = map_option (\<lambda>e. if P e then f e else e) (row box i)"
  unfolding row_def by (simp add: find_update_where assms)

lemma row_update_event:
  assumes "\<And>e. o_id (f e) = o_id e"
  shows "row (snd (update_event i ok f box)) j =
    (if j = i then map_option (\<lambda>e. if ok e then f e else e) (row box i) else row box j)"
proof -
  have "row (snd (update_event i ok f box)) j = map_option (\<lambda>e. if o_id e = i \<and> ok e then f e else e) (row box j)"
    by (simp add: update_event_def row_update_where assms)
  also have "\<dots> = (if j = i then map_option (\<lambda>e. if ok e then f e else e) (row box i) else row box j)"
    using row_Some [of box j] by (cases "row box j") auto
  finally show ?thesis .
qed

lemma applied_iff:
  assumes "outbox_ok box"
  shows "fst (update_event i ok f box) = (case row box i of None \<Rightarrow> False | Some e \<Rightarrow> ok e)"
proof (cases "row box i")
  case None
  then have "\<forall>e\<in>set (events box). o_id e \<noteq> i" by (simp add: row_def find_None_all)
  with None show ?thesis by (auto simp: update_event_def list_ex_iff)
next
  case (Some e)
  from assms have d: "distinct (map o_id (events box))" by (simp add: outbox_ok_def)
  have "o_id f = i \<Longrightarrow> f \<in> set (events box) \<Longrightarrow> f = e" for f using row_mem [OF d, of f] Some by simp
  with row_Some [OF Some] Some show ?thesis by (auto simp: update_event_def list_ex_iff)
qed

text \<open>What the statements keep: ids and dedup keys never change, so \<open>outbox_ok\<close> never breaks.\<close>

lemma outbox_ok_update_where:
  assumes "\<And>e. o_id (f e) = o_id e" "\<And>e. dedup_index (f e) = dedup_index e"
  shows "outbox_ok (box\<lparr>events := update_where P f (events box)\<rparr>) = outbox_ok box"
proof -
  have ids: "map o_id (update_where P f (events box)) = map o_id (events box)"
    and keys: "map dedup_index (update_where P f (events box)) = map dedup_index (events box)"
    by (simp_all add: map_update_where assms)
  have all: "list_all (\<lambda>e. o_id e < n) es = (\<forall>i\<in>set (map o_id es). i < n)" for n es
    by (simp add: list_all_iff)
  show ?thesis unfolding outbox_ok_def all by (simp add: ids keys del: set_map)
qed

lemma outbox_ok_update_event:
  assumes "\<And>e. o_id (f e) = o_id e" "\<And>e. dedup_index (f e) = dedup_index e"
  shows "outbox_ok (snd (update_event i ok f box)) = outbox_ok box"
  by (simp add: update_event_def outbox_ok_update_where assms)

lemma outbox_ok_filter: "outbox_ok box \<Longrightarrow> outbox_ok (box\<lparr>events := filter P (events box)\<rparr>)"
  by (auto simp: outbox_ok_def list_all_iff distinct_map intro: inj_on_subset)

lemma outbox_ok_enqueue: "outbox_ok box \<Longrightarrow> outbox_ok (snd (enqueue now inp box))"
  by (auto simp: enqueue_def Let_def outbox_ok_def list_all_iff list_ex_iff new_event_def)

lemma row_enqueue:
  assumes "outbox_ok box"
  shows "row (snd (enqueue now inp box)) i =
    (if fst (enqueue now inp box) = Some i then Some (new_event now i inp) else row box i)"
proof -
  have "row box (next_event_id box) = None"
    using assms by (auto simp: outbox_ok_def row_def find_None_all list_all_iff)
  then show ?thesis
    by (auto simp: enqueue_def Let_def row_def find_append new_event_def split: option.splits)
qed

lemma row_delete:
  assumes "outbox_ok box"
  shows "row (deleteSettledBefore cutoff n box) i = row box i
    \<or> (row (deleteSettledBefore cutoff n box) i = None
       \<and> (\<exists>e. row box i = Some e \<and> o_status e \<in> {OutSent, OutCancelled}))"
proof (cases "row (deleteSettledBefore cutoff n box) i")
  case (Some e)
  with row_Some [OF Some] have "e \<in> set (events box)" "o_id e = i"
    by (auto simp: deleteSettledBefore_def delete_rows_def Let_def)
  with Some assms row_mem show ?thesis by (metis outbox_ok_def)
next
  case None
  show ?thesis
  proof (cases "row box i")
    case (Some e)
    from None row_Some [OF Some] have
      "i \<in> set (first_ids o_id (\<lambda>e. o_status e \<in> set SETTLED_OUTBOUND_STATUSES \<and> created_at e < cutoff) created_at n (events box))"
      by (auto simp: deleteSettledBefore_def delete_rows_def Let_def row_def find_None_all)
    from first_ids_sub [OF this] obtain f where "f \<in> set (events box)" "o_id f = i"
      "o_status f \<in> set SETTLED_OUTBOUND_STATUSES" by blast
    moreover from this have "f = e" using row_mem [of box f] Some assms by (simp add: outbox_ok_def)
    ultimately show ?thesis using None Some by (simp add: SETTLED_OUTBOUND_STATUSES_def)
  qed (simp add: None)
qed

lemma ids_row:
  assumes "outbox_ok box" and "row box i = Some e"
    and "\<exists>f\<in>set (events box). o_id f = i \<and> P f"
  shows "P e"
  using assms row_mem [of box] by (auto simp: outbox_ok_def)

lemma row_claim:
  assumes "outbox_ok box"
  shows "row (snd (claimDueBatch owner n secs now box)) i =
    (case row box i of None \<Rightarrow> None
     | Some e \<Rightarrow> Some (if i \<in> set (first_ids o_id (out_due now) out_order n (events box))
         then out_grab owner (now + secs * 1000) e else e))"
proof -
  have "o_id (out_grab owner t e) = o_id e" for t e by (simp add: out_grab_def)
  then show ?thesis using row_Some
    by (auto simp: claimDueBatch_def claim_rows_def Let_def row_update_where split: option.splits)
qed

lemma row_claim_due:
  assumes "outbox_ok box" and "row box i = Some e" and "i \<in> set (first_ids o_id (out_due now) out_order n (events box))"
  shows "out_due now e"
  using ids_row [OF assms(1,2), of "out_due now"] first_ids_sub [OF assms(3)] by blast

lemma row_reclaim:
  assumes "outbox_ok box"
  shows "row (reclaimExpiredLeases now n box) i = row box i
    \<or> (\<exists>e. row box i = Some e \<and> out_lapsed now e
         \<and> row (reclaimExpiredLeases now n box) i = Some ((release e)\<lparr>o_status := OutPending\<rparr>))"
proof (cases "row box i")
  case (Some e)
  let ?ids = "map o_id (take n (filter (out_lapsed now) (events box)))"
  have "o_id ((release e)\<lparr>o_status := OutPending\<rparr>) = o_id e" for e by (simp add: release_def)
  then have r: "row (reclaimExpiredLeases now n box) i =
      Some (if i \<in> set ?ids then (release e)\<lparr>o_status := OutPending\<rparr> else e)"
    using Some row_Some [OF Some]
    by (auto simp: reclaimExpiredLeases_def reclaim_rows_def Let_def row_update_where)
  moreover have "out_lapsed now e" if "i \<in> set ?ids"
  proof (rule ids_row [OF assms Some])
    show "\<exists>f\<in>set (events box). o_id f = i \<and> out_lapsed now f" using that by (auto dest!: in_set_takeD)
  qed
  ultimately show ?thesis using Some by auto
next
  case None
  have "o_id ((release e)\<lparr>o_status := OutPending\<rparr>) = o_id e" for e by (simp add: release_def)
  then show ?thesis using None by (simp add: reclaimExpiredLeases_def reclaim_rows_def Let_def row_update_where)
qed

section \<open>Claiming\<close>

interpretation outbox_lease: lease_table o_id out_due out_order lease_owner out_grab
  by unfold_locales (auto simp: out_grab_def out_due_def DUE_OUTBOUND_STATUSES_def)

lemma claimed_event_ids: "ce_id ` set (map claimed_event es) = o_id ` set es"
  by (auto simp: claimed_event_def image_iff)

lemma claim_batch_ids:
  assumes "outbox_ok box"
  shows "ce_id ` set (fst (claimDueBatch owner n secs now box)) = set (first_ids o_id (out_due now) out_order n (events box))"
  using outbox_lease.claimed_ids [of "events box"] assms
  by (simp add: claimDueBatch_def Let_def claimed_event_def image_image outbox_ok_def)

lemma claim_batch_length:
  assumes "outbox_ok box"
  shows "length (fst (claimDueBatch owner n secs now box)) = min (length (filter (out_due now) (events box))) n"
proof -
  let ?ids = "first_ids o_id (out_due now) out_order n (events box)"
  let ?taken = "filter (\<lambda>e. o_id e \<in> set ?ids) (events box)"
  have d: "distinct (map o_id (events box))" using assms by (simp add: outbox_ok_def)
  have "distinct (map o_id ?taken)" using d by (rule distinct_map_filter)
  moreover have "set (map o_id ?taken) = set ?ids" using first_ids_sub [of _ o_id "out_due now" out_order n] by force
  ultimately have "length (map o_id ?taken) = card (set ?ids)" using distinct_card by metis
  moreover have "distinct ?ids" using d unfolding first_ids_def
    by (auto simp: distinct_map dest: in_set_takeD intro!: inj_on_subset [where A = "set (events box)"])
  ultimately show ?thesis
    by (simp add: claimDueBatch_def claimed_rows_def Let_def distinct_card first_ids_length)
qed

lemma outbox_ok_claim: "outbox_ok box \<Longrightarrow> outbox_ok (snd (claimDueBatch owner n secs now box))"
  by (simp add: claimDueBatch_def claim_rows_def Let_def outbox_ok_update_where out_grab_def dedup_index_def)

lemma outbox_ok_reclaim: "outbox_ok box \<Longrightarrow> outbox_ok (reclaimExpiredLeases now n box)"
  by (simp add: reclaimExpiredLeases_def reclaim_rows_def Let_def outbox_ok_update_where release_def dedup_index_def)

lemma outbox_ok_delete: "outbox_ok box \<Longrightarrow> outbox_ok (deleteSettledBefore cutoff n box)"
  by (simp add: deleteSettledBefore_def delete_rows_def Let_def outbox_ok_filter)

lemma claim_twice_disjoint:
  assumes "outbox_ok box"
  shows "ce_id ` set (fst (claimDueBatch owner n secs now box))
    \<inter> ce_id ` set (fst (claimDueBatch owner' n' secs' now' (snd (claimDueBatch owner n secs now box)))) = {}"
proof -
  have "o_id r \<noteq> o_id r'"
    if "r \<in> set (claimed_rows o_id (out_due now) out_order n (out_grab owner t) (events box))"
      "r' \<in> set (claimed_rows o_id (out_due now') out_order n' (out_grab owner' t')
         (claim_rows o_id (out_due now) out_order n (out_grab owner t) (events box)))" for r r' t t'
    using outbox_lease.claim_exclusive that assms unfolding outbox_ok_def by blast
  then show ?thesis by (auto simp: claimDueBatch_def Let_def claimed_event_def)
qed

text \<open>A claim takes the most urgent due sends, and nobody else gets them. As many rows are taken as
  are due, up to the batch size; every one was due, is now \<open>sending\<close>, leased to the claimant and one
  attempt further, and comes before every due row that was left; no other row changes; and no
  later claim, by any worker at any time, returns one of them as long as its lease is not
  released.\<close>

theorem claim_takes_first_due:
  assumes ok: "outbox_ok box" and claim: "claimDueBatch owner n secs now box = (batch, box')"
  shows "length batch = min (length (filter (out_due now) (events box))) n
    \<and> (\<forall>i e. row box i = Some e \<longrightarrow>
         (if i \<in> ce_id ` set batch
          then out_due now e \<and> row box' i = Some (out_grab owner (now + secs * 1000) e)
          else row box' i = Some e))
    \<and> (\<forall>i e j f. row box i = Some e \<longrightarrow> i \<in> ce_id ` set batch \<longrightarrow>
         row box j = Some f \<longrightarrow> out_due now f \<longrightarrow> j \<notin> ce_id ` set batch \<longrightarrow> out_order e \<le> out_order f)
    \<and> ce_id ` set batch \<inter> ce_id ` set (fst (claimDueBatch owner' n' secs' now' box')) = {}"
proof -
  have d: "distinct (map o_id (events box))" using ok by (simp add: outbox_ok_def)
  note ids = claim_batch_ids [OF ok, of owner n secs now, unfolded claim fst_conv]
  have "out_order e \<le> out_order f"
    if "row box i = Some e" "i \<in> ce_id ` set batch" "row box j = Some f" "out_due now f" "j \<notin> ce_id ` set batch" for i e j f
    using first_ids_before [OF d, of e "out_due now" out_order n f] that ids row_Some [of box i] row_Some [of box j] by simp
  then show ?thesis
    using claim_batch_length [OF ok, of owner n secs now] claim_twice_disjoint [OF ok, of owner n secs now]
      row_claim [OF ok, of owner n secs now] row_claim_due [OF ok, of _ _ now n]
    by (simp add: claim ids)
qed

definition demo_send :: "string \<Rightarrow> EnqueueOutboundInput" where
  "demo_send key =
     \<lparr> i_enterprise = Some 7, i_channel = Some 3, i_destination_kind = ToChannel, i_destination_id = Some ''3'',
       i_platform = Instagram, i_type = CommentReply, i_in_reply_to = None, i_recipient = None, i_dedup = key,
       i_correlation = None,
       i_payload = \<lparr> commentId = Some ''c1'', mediaId = None, message = Some ''hi'', replyToPlatformMessageId = None, hidden = None \<rparr>,
       i_scheduled_at = None, i_priority = None \<rparr>"

definition demo_box :: outbox where
  "demo_box = \<lparr> events = [new_event 0 1 (demo_send ''a''), new_event 1000 2 (demo_send ''b'')], next_event_id = 3 \<rparr>"

lemma demo_box_ok: "outbox_ok demo_box"
  by code_simp

theorem claim_takes_first_due_witness:
  "outbox_ok demo_box \<and> map ce_id (fst (claimDueBatch ''w1'' 1 120 5000 demo_box)) = [1]
   \<and> ce_id ` set (fst (claimDueBatch ''w1'' 1 120 5000 demo_box))
     \<inter> ce_id ` set (fst (claimDueBatch ''w2'' 5 120 6000 (snd (claimDueBatch ''w1'' 1 120 5000 demo_box)))) = {}"
proof -
  have "map ce_id (fst (claimDueBatch ''w1'' 1 120 5000 demo_box)) = [1]" by code_simp
  then show ?thesis
    using demo_box_ok claim_takes_first_due [OF demo_box_ok surjective_pairing, of "''w1''" 1 120 5000 "''w2''" 5 120 6000]
    by simp
qed

end
