(* ===== verification/Outbox_Relay.thy ===== *)
theory Outbox_Relay
  imports Outbox_Store
begin

text \<open>
  The relay that empties the outbound ledger (\<open>workers/outbound-relay.worker.ts\<close>), with what it
  calls: how a Graph failure is read (\<open>modules/connections/graph/graph-error.mapper.ts\<close>), the
  requests the client sends (\<open>graph-api.client.ts\<close>), the channel's send context and the two
  write-backs, to the message and to the connection.

  The platform, the token cipher, the usage collector and the random draw are the record
  \<open>relay_env\<close>, over which everything is quantified. The clock of the process and of the database
  are one, and a database statement that fails is a step of its own in \<open>Outbox_Delivery\<close>.
\<close>

section \<open>Reading a failure\<close>

record GraphApiError =
  httpStatus :: int
  g_code :: "int option"
  subcode :: "int option"
  g_type :: "string option"
  fbTraceId :: "string option"
  g_message :: string
  retryAfterMinutes :: "rat option"

definition fromSchema :: "int \<Rightarrow> string \<Rightarrow> string \<Rightarrow> GraphApiError" where
  "fromSchema status path detail =
     \<lparr> httpStatus = status, g_code = None, subcode = None, g_type = Some ''schema'', fbTraceId = None,
       g_message = ''graph '' @ path @ '' returned an unexpected shape: '' @ detail, retryAfterMinutes = None \<rparr>"

definition fromTransport :: "string \<Rightarrow> GraphApiError" where
  "fromTransport detail =
     \<lparr> httpStatus = 0, g_code = None, subcode = None, g_type = Some ''transport'', fbTraceId = None,
       g_message = detail, retryAfterMinutes = None \<rparr>"

datatype GraphErrorCode =
  UpstreamUnavailable | MessagingWindowClosed | ChannelReauthRequired | UpstreamRateLimited | GraphPermissionDenied
  | UpstreamContractChanged

fun error_code_text :: "GraphErrorCode \<Rightarrow> string" where
  "error_code_text UpstreamUnavailable = ''UPSTREAM_UNAVAILABLE''"
| "error_code_text MessagingWindowClosed = ''MESSAGING_WINDOW_CLOSED''"
| "error_code_text ChannelReauthRequired = ''CHANNEL_REAUTH_REQUIRED''"
| "error_code_text UpstreamRateLimited = ''UPSTREAM_RATE_LIMITED''"
| "error_code_text GraphPermissionDenied = ''PERMISSION_DENIED''"
| "error_code_text UpstreamContractChanged = ''UPSTREAM_CONTRACT_CHANGED''"

record MappedGraphError =
  mapped_code :: GraphErrorCode
  requiresReauth :: bool
  retryable :: bool

definition isRateLimit :: "GraphApiError \<Rightarrow> bool" where
  "isRateLimit e \<longleftrightarrow>
     g_code e \<in> {Some 4, Some 17, Some 32, Some 613}
     \<or> (case g_code e of None \<Rightarrow> False | Some c \<Rightarrow> 80000 \<le> c \<and> c \<le> 80099)
     \<or> subcode e = Some 2446079"

text \<open>The test \<open>/allowed window|24[- ]?hour/i\<close>.\<close>

definition lower_char :: "char \<Rightarrow> char" where
  "lower_char c = (let n = (of_char c :: nat) in if 65 \<le> n \<and> n \<le> 90 then char_of (n + 32) else c)"

fun occurs_in :: "string \<Rightarrow> string \<Rightarrow> bool" where
  "occurs_in p [] \<longleftrightarrow> p = []"
| "occurs_in p (c # cs) \<longleftrightarrow> take (length p) (c # cs) = p \<or> occurs_in p cs"

definition names_window :: "string \<Rightarrow> bool" where
  "names_window s = list_ex (\<lambda>p. occurs_in p (map lower_char s)) [''allowed window'', ''24hour'', ''24-hour'', ''24 hour'']"

definition mapGraphError :: "GraphApiError \<Rightarrow> MappedGraphError" where
  "mapGraphError e =
     (if httpStatus e = 0 then \<lparr> mapped_code = UpstreamUnavailable, requiresReauth = False, retryable = True \<rparr>
      else if subcode e = Some 2534022 then \<lparr> mapped_code = MessagingWindowClosed, requiresReauth = False, retryable = False \<rparr>
      else if g_code e = Some 190 \<or> subcode e = Some 463 \<or> subcode e = Some 467 then
        \<lparr> mapped_code = ChannelReauthRequired, requiresReauth = True, retryable = False \<rparr>
      else if isRateLimit e then \<lparr> mapped_code = UpstreamRateLimited, requiresReauth = False, retryable = True \<rparr>
      else if g_code e = Some 2 \<or> 500 \<le> httpStatus e then
        \<lparr> mapped_code = UpstreamUnavailable, requiresReauth = False, retryable = True \<rparr>
      else if g_code e = Some 10 then
        (if names_window (g_message e)
         then \<lparr> mapped_code = MessagingWindowClosed, requiresReauth = False, retryable = False \<rparr>
         else \<lparr> mapped_code = GraphPermissionDenied, requiresReauth = False, retryable = False \<rparr>)
      else if g_code e = Some 3 then \<lparr> mapped_code = GraphPermissionDenied, requiresReauth = False, retryable = False \<rparr>
      else if g_type e = Some ''schema'' then
        \<lparr> mapped_code = UpstreamContractChanged, requiresReauth = False, retryable = False \<rparr>
      else \<lparr> mapped_code = UpstreamUnavailable, requiresReauth = False, retryable = False \<rparr>)"

definition isAmbiguousFailure :: "GraphApiError \<Rightarrow> bool" where
  "isAmbiguousFailure e \<longleftrightarrow> httpStatus e = 0 \<or> 500 \<le> httpStatus e"

section \<open>Channels, connections and messages\<close>

datatype ChannelStatus = ChannelActive | ChannelDisconnected | ChannelExpired | ChannelError

datatype TokenStatus = TokenValid | TokenExpiringSoon | TokenExpired | TokenRevoked | TokenNotApplicable

datatype ConnectionStatus = ConnectionActive | ConnectionExpired | ConnectionRevoked

record channel =
  ch_id :: int
  ch_enterprise :: int
  ch_connection :: int
  ch_parent :: "int option"
  ch_platform :: Platform
  ch_platform_id :: string
  ch_token :: "string option"
  ch_token_status :: TokenStatus
  ch_reauth :: bool
  ch_managed :: bool
  ch_deleted :: bool
  ch_status :: ChannelStatus

record connection =
  pc_id :: int
  pc_enterprise :: int
  pc_reauth :: bool
  pc_token_status :: TokenStatus
  pc_status :: ConnectionStatus

datatype MessageStatus = MsgPending | MsgSending | MsgSent | MsgDelivered | MsgFailed

record msg_row =
  m_id :: int
  m_enterprise :: int
  m_event :: "int option"
  m_platform_id :: "string option"
  m_status :: MessageStatus
  m_sent_at :: "int option"

record relay_db =
  box :: outbox
  messages :: "msg_row list"
  channels :: "channel list"
  connections :: "connection list"

definition recordDelivery :: "int \<Rightarrow> int \<Rightarrow> int \<Rightarrow> string option \<Rightarrow> MessageStatus \<Rightarrow> relay_db \<Rightarrow> relay_db" where
  "recordDelivery now enterprise event pid status db =
     db\<lparr>messages := update_where (\<lambda>m. m_enterprise m = enterprise \<and> m_event m = Some event)
       (\<lambda>m. m\<lparr>m_platform_id := (case pid of None \<Rightarrow> m_platform_id m | Some p \<Rightarrow> Some p), m_status := status,
          m_sent_at := (if status = MsgSent then Some now else m_sent_at m)\<rparr>) (messages db)\<rparr>"

record ChannelSendContext =
  x_channel :: int
  x_connection :: int
  x_platform :: Platform
  x_platform_id :: string
  x_parent_platform_id :: "string option"
  x_token :: "string option"
  x_reauth :: bool
  x_managed :: bool

definition findSendContext :: "int \<Rightarrow> int \<Rightarrow> channel list \<Rightarrow> ChannelSendContext option" where
  "findSendContext enterprise i cs =
     (case find (\<lambda>c. ch_enterprise c = enterprise \<and> ch_id c = i \<and> \<not> ch_deleted c \<and> ch_status c \<noteq> ChannelDisconnected) cs of
        None \<Rightarrow> None
      | Some c \<Rightarrow>
          let parent = find (\<lambda>p. ch_parent c = Some (ch_id p) \<and> ch_enterprise p = ch_enterprise c) cs in
          Some \<lparr> x_channel = ch_id c, x_connection = ch_connection c, x_platform = ch_platform c,
            x_platform_id = ch_platform_id c, x_parent_platform_id = map_option ch_platform_id parent,
            x_token = (case ch_token c of Some t \<Rightarrow> Some t
                       | None \<Rightarrow> (case parent of None \<Rightarrow> None | Some p \<Rightarrow> ch_token p)),
            x_reauth = (ch_reauth c \<or> (case parent of None \<Rightarrow> False | Some p \<Rightarrow> ch_reauth p)),
            x_managed = ch_managed c \<rparr>)"

definition markReauthRequired :: "int \<Rightarrow> int \<Rightarrow> ConnectionStatus \<Rightarrow> relay_db \<Rightarrow> relay_db" where
  "markReauthRequired enterprise conn status db =
     db\<lparr>connections := update_where (\<lambda>c. pc_id c = conn \<and> pc_enterprise c = enterprise)
          (\<lambda>c. c\<lparr>pc_reauth := True, pc_token_status := TokenRevoked, pc_status := status\<rparr>) (connections db),
        channels := update_where (\<lambda>c. ch_connection c = conn \<and> ch_enterprise c = enterprise \<and> \<not> ch_deleted c)
          (\<lambda>c. c\<lparr>ch_reauth := True, ch_token_status := TokenRevoked\<rparr>) (channels db)\<rparr>"

section \<open>Building the request\<close>

datatype http_method = POST | DELETE

text \<open>A form field is plain text or the \<open>JSON.stringify\<close> of an object with one text member.\<close>

datatype form_value = Plain string | Json string string

record graph_request =
  rq_method :: http_method
  rq_path :: string
  rq_token :: string
  rq_body :: "(string \<times> form_value) list"

definition truthy_text :: "string option \<Rightarrow> bool" where
  "truthy_text s \<longleftrightarrow> (case s of None \<Rightarrow> False | Some t \<Rightarrow> t \<noteq> [])"

definition text_of :: "string option \<Rightarrow> string" where
  "text_of s = (case s of None \<Rightarrow> [] | Some t \<Rightarrow> t)"

definition replyToComment :: "string \<Rightarrow> string \<Rightarrow> string \<Rightarrow> Platform \<Rightarrow> graph_request" where
  "replyToComment comment text token platform =
     \<lparr> rq_method = POST, rq_path = comment @ ''/'' @ (if platform = Instagram then ''replies'' else ''comments''),
       rq_token = token, rq_body = [(''message'', Plain text)] \<rparr>"

definition show_bool :: "bool \<Rightarrow> string" where
  "show_bool b = (if b then ''true'' else ''false'')"

definition hideComment :: "string \<Rightarrow> bool \<Rightarrow> string \<Rightarrow> Platform \<Rightarrow> graph_request" where
  "hideComment comment hide token platform =
     \<lparr> rq_method = POST, rq_path = comment, rq_token = token,
       rq_body = [(if platform = Instagram then ''hide'' else ''is_hidden'', Plain (show_bool hide))] \<rparr>"

definition deleteComment :: "string \<Rightarrow> string \<Rightarrow> graph_request" where
  "deleteComment comment token = \<lparr> rq_method = DELETE, rq_path = comment, rq_token = token, rq_body = [] \<rparr>"

definition sendDirectMessage :: "string \<Rightarrow> string \<Rightarrow> string \<Rightarrow> string \<Rightarrow> string option \<Rightarrow> graph_request" where
  "sendDirectMessage page to text token replyTo =
     \<lparr> rq_method = POST, rq_path = page @ ''/messages'', rq_token = token,
       rq_body = [(''recipient'', Json ''id'' to), (''message'', Json ''text'' text), (''messaging_type'', Plain ''RESPONSE'')]
         @ (if truthy_text replyTo then [(''reply_to'', Json ''mid'' (text_of replyTo))] else []) \<rparr>"

definition replyToMention :: "string \<Rightarrow> string \<Rightarrow> string option \<Rightarrow> string \<Rightarrow> string \<Rightarrow> graph_request" where
  "replyToMention user media comment text token =
     \<lparr> rq_method = POST, rq_path = user @ ''/mentions'', rq_token = token,
       rq_body = [(''media_id'', Plain media), (''message'', Plain text)]
         @ (if truthy_text comment then [(''comment_id'', Plain (text_of comment))] else []) \<rparr>"

text \<open>\<open>send\<close> up to its call of the client: the request, or the error it throws first.\<close>

definition send :: "ClaimedOutboundEvent \<Rightarrow> string \<Rightarrow> string \<Rightarrow> string \<Rightarrow> Platform \<Rightarrow> string + graph_request" where
  "send ev platformChannelId token messagingTarget platform =
     (let p = ce_payload ev in
      case ce_type ev of
        CommentReply \<Rightarrow>
          if \<not> truthy_text (commentId p) \<or> \<not> truthy_text (message p) then Inl ''incomplete comment reply''
          else Inr (replyToComment (text_of (commentId p)) (text_of (message p)) token platform)
      | MentionReply \<Rightarrow>
          if \<not> truthy_text (message p) then Inl ''incomplete mention reply''
          else if \<not> truthy_text (mediaId p) then Inl ''the mention has no post recorded, so it cannot be answered''
          else Inr (replyToMention platformChannelId (text_of (mediaId p)) (commentId p) (text_of (message p)) token)
      | OutDirectMessage \<Rightarrow>
          if \<not> truthy_text (ce_recipient ev) \<or> \<not> truthy_text (message p) then Inl ''incomplete direct message''
          else Inr (sendDirectMessage messagingTarget (text_of (ce_recipient ev)) (text_of (message p)) token
                 (replyToPlatformMessageId p))
      | CommentHide \<Rightarrow>
          if \<not> truthy_text (commentId p) then Inl ''incomplete comment hide''
          else Inr (hideComment (text_of (commentId p)) (case hidden p of None \<Rightarrow> True | Some h \<Rightarrow> h) token platform)
      | CommentDelete \<Rightarrow>
          if \<not> truthy_text (commentId p) then Inl ''incomplete comment delete''
          else Inr (deleteComment (text_of (commentId p)) token)
      | t \<Rightarrow> Inl (''no sender for event_type \"'' @ outbound_type_text t @ ''\"''))"

text \<open>What \<open>send\<close> returns of an accepted call: a moderation has no id of its own.\<close>

definition sent_id :: "OutboundEventType \<Rightarrow> string \<Rightarrow> string option" where
  "sent_id t pid = (if t \<in> {CommentHide, CommentDelete} then None else Some pid)"

section \<open>Delivering one event\<close>

datatype platform_answer = Accepted string | Refused GraphApiError

datatype send_failure = Thrown string | GraphFailure GraphApiError

record relay_env =
  appPressure :: rat
  pressureFor :: "string option \<Rightarrow> rat"
  decrypt :: "string \<Rightarrow> string option"
  draw :: "ClaimedOutboundEvent \<Rightarrow> rat"
  latency :: "ClaimedOutboundEvent \<Rightarrow> int"
  platform_call :: "graph_request \<Rightarrow> platform_answer"

definition META_USAGE_SOFT_LIMIT_PCT :: rat where "META_USAGE_SOFT_LIMIT_PCT = 80"

definition OUTBOUND_RATE_LIMIT_PARK_MS :: rat where "OUTBOUND_RATE_LIMIT_PARK_MS = 5 * 60 * 1000"

definition OUTBOUND_RATE_LIMIT_MAX_WAIT_MS :: int where "OUTBOUND_RATE_LIMIT_MAX_WAIT_MS = 24 * 60 * 60 * 1000"

text \<open>\<open>settle\<close>, which \<open>settleAsFailed\<close> runs in one transaction.\<close>

definition settle :: "string \<Rightarrow> int \<Rightarrow> int option \<Rightarrow> int \<Rightarrow> string \<Rightarrow> bool \<Rightarrow> relay_db \<Rightarrow> relay_db" where
  "settle owner now enterprise event reason ambiguously db =
     (let (cancelled, b) = (if ambiguously then cancelAmbiguous now event owner reason (box db)
                            else cancel now event owner reason (box db))
      in if \<not> cancelled then db
         else case enterprise of None \<Rightarrow> db\<lparr>box := b\<rparr>
              | Some n \<Rightarrow> recordDelivery now n event None MsgFailed (db\<lparr>box := b\<rparr>))"

definition settleMessage :: "int \<Rightarrow> ClaimedOutboundEvent \<Rightarrow> relay_db \<Rightarrow> relay_db" where
  "settleMessage now ev db =
     (case ce_enterprise ev of None \<Rightarrow> db | Some n \<Rightarrow> recordDelivery now n (ce_id ev) None MsgFailed db)"

text \<open>The two places that spend an attempt: \<open>markFailed\<close> with the next time, and the message settled
  once there is none.\<close>

definition failAttempt :: "string \<Rightarrow> int \<Rightarrow> ClaimedOutboundEvent \<Rightarrow> string \<Rightarrow> int option \<Rightarrow> relay_db \<Rightarrow> relay_db" where
  "failAttempt owner now ev err next db =
     (let (applied, b) = markFailed now (ce_id ev) owner err next (box db); db' = db\<lparr>box := b\<rparr>
      in if applied \<and> next = None then settleMessage now ev db' else db')"

definition handleSendFailure :: "relay_env \<Rightarrow> string \<Rightarrow> int \<Rightarrow> ClaimedOutboundEvent \<Rightarrow> send_failure \<Rightarrow> relay_db \<Rightarrow> relay_db" where
  "handleSendFailure env owner now ev failure db =
     (case failure of
        Thrown msg \<Rightarrow> failAttempt owner now ev msg (scheduleRetry (draw env ev) (ce_attempts ev) (ce_max ev) now) db
      | GraphFailure e \<Rightarrow>
          let mapped = mapGraphError e; err = error_code_text (mapped_code mapped) @ '': '' @ g_message e in
          if requiresReauth mapped \<and> ce_enterprise ev \<noteq> None \<and> ce_channel ev \<noteq> None then
            (let enterprise = the (ce_enterprise ev);
                 db' = (case findSendContext enterprise (the (ce_channel ev)) (channels db) of
                          None \<Rightarrow> db
                        | Some x \<Rightarrow> markReauthRequired enterprise (x_connection x) ConnectionRevoked db)
             in settle owner now (ce_enterprise ev) (ce_id ev) ''the provider rejected the credential'' False db')
          else if isAmbiguousFailure e then
            settle owner now (ce_enterprise ev) (ce_id ev)
              ''the outcome was ambiguous; a read-back is required before any retry'' True db
          else if \<not> retryable mapped then failAttempt owner now ev err None db
          else if mapped_code mapped = UpstreamRateLimited then
            (let base = (case retryAfterMinutes e of None \<Rightarrow> OUTBOUND_RATE_LIMIT_PARK_MS | Some m \<Rightarrow> m * 60000);
                 (outcome, b) = markRateLimited now (ce_id ev) owner (parkFor (draw env ev) base now) err
                   OUTBOUND_RATE_LIMIT_MAX_WAIT_MS (box db);
                 db' = db\<lparr>box := b\<rparr>
             in if outcome = DeadLettered then settleMessage now ev db' else db')
          else failAttempt owner now ev err (scheduleRetry (draw env ev) (ce_attempts ev) (ce_max ev) now) db)"

text \<open>\<open>deliver\<close> up to the lease check. The left result is a database that is final; the right one is
  what \<open>send\<close> makes of the event.\<close>

definition beforeSend ::
    "relay_env \<Rightarrow> string \<Rightarrow> int \<Rightarrow> ClaimedOutboundEvent \<Rightarrow> relay_db \<Rightarrow> relay_db + (string + graph_request)" where
  "beforeSend env owner now ev db =
     (let fails = (\<lambda>reason. Inl (settle owner now (ce_enterprise ev) (ce_id ev) reason False db)) in
      case (ce_enterprise ev, ce_channel ev) of
        (Some enterprise, Some ch) \<Rightarrow>
          (case findSendContext enterprise ch (channels db) of
             None \<Rightarrow> fails ''the channel no longer exists''
           | Some x \<Rightarrow>
               if x_reauth x then fails ''the channel needs re-authentication''
               else if \<not> x_managed x then fails ''the channel is not managed''
               else if \<not> truthy_text (x_token x) then fails ''no usable access token for the channel''
               else
                 let ownPressure = max (pressureFor env (Some (x_platform_id x))) (pressureFor env (x_parent_platform_id x)) in
                 if META_USAGE_SOFT_LIMIT_PCT \<le> ownPressure then
                   Inl (db\<lparr>box := snd (markRateLimited now (ce_id ev) owner
                     (parkFor (draw env ev) OUTBOUND_RATE_LIMIT_PARK_MS now)
                     (''this account's Meta allowance is '' @ show_int (math_round ownPressure) @ ''% spent'')
                     OUTBOUND_RATE_LIMIT_MAX_WAIT_MS (box db))\<rparr>)
                 else
                   (case decrypt env (text_of (x_token x)) of
                      None \<Rightarrow> fails ''the channel token could not be decrypted''
                    | Some token \<Rightarrow>
                        if \<not> stillHoldsLease now (ce_id ev) owner (box db) then Inl db
                        else
                          let target = (if x_platform x = Instagram
                                then (case x_parent_platform_id x of None \<Rightarrow> x_platform_id x | Some p \<Rightarrow> p)
                                else x_platform_id x)
                          in Inr (send ev (x_platform_id x) token target (x_platform x))))
      | _ \<Rightarrow> fails ''the event names no channel to send through'')"

definition afterSend :: "string \<Rightarrow> int \<Rightarrow> ClaimedOutboundEvent \<Rightarrow> string option \<Rightarrow> relay_db \<Rightarrow> relay_db" where
  "afterSend owner now ev pid db =
     (let (settled, b) = markSent now (ce_id ev) owner pid (box db) in
      if \<not> settled then db
      else case ce_enterprise ev of None \<Rightarrow> db\<lparr>box := b\<rparr>
           | Some n \<Rightarrow> recordDelivery now n (ce_id ev) pid MsgSent (db\<lparr>box := b\<rparr>))"

definition finishSend :: "relay_env \<Rightarrow> string \<Rightarrow> int \<Rightarrow> ClaimedOutboundEvent \<Rightarrow> platform_answer \<Rightarrow> relay_db \<Rightarrow> relay_db" where
  "finishSend env owner now ev answer db =
     (case answer of
        Accepted pid \<Rightarrow> afterSend owner now ev (sent_id (ce_type ev) pid) db
      | Refused e \<Rightarrow> handleSendFailure env owner now ev (GraphFailure e) db)"

definition deliver :: "relay_env \<Rightarrow> string \<Rightarrow> int \<Rightarrow> ClaimedOutboundEvent \<Rightarrow> relay_db \<Rightarrow> relay_db" where
  "deliver env owner now ev db =
     (case beforeSend env owner now ev db of
        Inl db' \<Rightarrow> db'
      | Inr (Inl err) \<Rightarrow> handleSendFailure env owner now ev (Thrown err) db
      | Inr (Inr request) \<Rightarrow> finishSend env owner (now + latency env ev) ev (platform_call env request) db)"

primrec deliver_all :: "relay_env \<Rightarrow> string \<Rightarrow> int \<Rightarrow> ClaimedOutboundEvent list \<Rightarrow> relay_db \<Rightarrow> relay_db" where
  "deliver_all env owner now [] db = db"
| "deliver_all env owner now (ev # evs) db =
     deliver_all env owner (now + latency env ev) evs (deliver env owner now ev db)"

definition claim_for_poll ::
    "relay_env \<Rightarrow> string \<Rightarrow> nat \<Rightarrow> int \<Rightarrow> int \<Rightarrow> outbox \<Rightarrow> ClaimedOutboundEvent list \<times> outbox" where
  "claim_for_poll env owner batchSize leaseSeconds now b =
     (if META_USAGE_SOFT_LIMIT_PCT \<le> appPressure env then ([], b)
      else claimDueBatch owner batchSize leaseSeconds now b)"

definition pollOnce :: "relay_env \<Rightarrow> string \<Rightarrow> nat \<Rightarrow> int \<Rightarrow> int \<Rightarrow> relay_db \<Rightarrow> nat \<times> relay_db" where
  "pollOnce env owner batchSize leaseSeconds now db =
     (let (claimed, b) = claim_for_poll env owner batchSize leaseSeconds now (box db)
      in (length claimed, deliver_all env owner now claimed (db\<lparr>box := b\<rparr>)))"

end
