(* ===== verification/Outbox_Reconcile.thy ===== *)
theory Outbox_Reconcile
  imports Outbox_Relay
begin

text \<open>
  Sends with two ends left open. \<open>modules/inbox/send-reconciliation.service.ts\<close> reads the platform
  back for the sends whose outcome was never confirmed; \<open>InboxService.retryModeration\<close>
  (\<open>modules/inbox/inbox.service.ts\<close>) puts a dead hide or delete back on the queue.

  The read-back calls are functions of the record \<open>reader\<close> that return \<open>None\<close> when they throw;
  \<open>Date.parse\<close> is one too.
\<close>

section \<open>Reading back\<close>

record ResolvedMentionReply =
  r_platform_id :: string
  r_text :: "string option"
  r_timestamp :: "string option"

record reader =
  open_token :: "string \<Rightarrow> string option"
  date_parse :: "string \<Rightarrow> int option"
  listCommentReplies :: "string \<Rightarrow> string \<Rightarrow> ResolvedMentionReply list option"
  listMentionedPostComments :: "string \<Rightarrow> string \<Rightarrow> string \<Rightarrow> ResolvedMentionReply list option"
  listMentionedMediaComments :: "string \<Rightarrow> string \<Rightarrow> string \<Rightarrow> ResolvedMentionReply list option"

definition SEND_READ_BACK_DELAY_MS :: int where "SEND_READ_BACK_DELAY_MS = 2 * 60 * 1000"

definition SEND_READ_BACK_WINDOW_MS :: int where "SEND_READ_BACK_WINDOW_MS = 24 * 60 * 60 * 1000"

definition SEND_READ_BACK_MATCH_WINDOW_MS :: int where "SEND_READ_BACK_MATCH_WINDOW_MS = 10 * 60 * 1000"

definition SEND_RECONCILE_BATCH :: nat where "SEND_RECONCILE_BATCH = 25"

definition js_space :: "char \<Rightarrow> bool" where
  "js_space c \<longleftrightarrow> (of_char c :: nat) \<in> {9, 10, 11, 12, 13, 32, 160}"

definition js_trim :: "string \<Rightarrow> string" where
  "js_trim s = rev (dropWhile js_space (rev (dropWhile js_space s)))"

definition matches :: "reader \<Rightarrow> string \<Rightarrow> int \<Rightarrow> ResolvedMentionReply \<Rightarrow> bool" where
  "matches rd sentText attemptedAt c \<longleftrightarrow>
     js_trim (text_of (r_text c)) = js_trim sentText
     \<and> (case r_timestamp c of None \<Rightarrow> False
        | Some s \<Rightarrow> (case date_parse rd s of None \<Rightarrow> False
                     | Some posted \<Rightarrow> \<bar>posted - attemptedAt\<bar> \<le> SEND_READ_BACK_MATCH_WINDOW_MS))"

definition findMatch :: "reader \<Rightarrow> ResolvedMentionReply list \<Rightarrow> string \<Rightarrow> int \<Rightarrow> ResolvedMentionReply option" where
  "findMatch rd candidates sentText attemptedAt = find (matches rd sentText attemptedAt) candidates"

definition named :: "string option \<Rightarrow> string option" where
  "named s = (case s of None \<Rightarrow> None | Some t \<Rightarrow> if js_trim t = [] then None else Some t)"

text \<open>The outer \<open>None\<close> is a call that threw, the inner one a payload with nothing to look with.\<close>

definition readBackCall ::
    "reader \<Rightarrow> outbound_event \<Rightarrow> string \<Rightarrow> string \<Rightarrow> ResolvedMentionReply list option option" where
  "readBackCall rd snt instagramUser token =
     (let media = named (mediaId (o_payload snt)); comment = named (commentId (o_payload snt)) in
      if o_type snt = CommentReply then
        (case comment of None \<Rightarrow> Some None | Some c \<Rightarrow> map_option Some (listCommentReplies rd c token))
      else
        (case comment of Some c \<Rightarrow> map_option Some (listMentionedPostComments rd instagramUser c token)
         | None \<Rightarrow> (case media of None \<Rightarrow> Some None
                    | Some m \<Rightarrow> map_option Some (listMentionedMediaComments rd instagramUser m token))))"

definition resolve :: "int \<Rightarrow> outbound_event \<Rightarrow> ReadBackOutcome \<Rightarrow> string option \<Rightarrow> relay_db \<Rightarrow> relay_db" where
  "resolve now snt outcome pid db =
     (let (applied, b) = markReadBackResolved now (o_id snt) outcome pid (box db) in
      if \<not> applied then db
      else if outcome = Landed
      then recordDelivery now (the (o_enterprise snt)) (o_id snt) pid MsgSent (db\<lparr>box := b\<rparr>)
      else db\<lparr>box := b\<rparr>)"

definition reconcileOne :: "reader \<Rightarrow> int \<Rightarrow> outbound_event \<Rightarrow> relay_db \<Rightarrow> (ReadBackOutcome \<times> relay_db) option" where
  "reconcileOne rd now snt db =
     (let unknown = Some (Unknown, resolve now snt Unknown None db); failedAt = the (last_error_at snt) in
      if SEND_READ_BACK_WINDOW_MS < now - failedAt then unknown
      else case findSendContext (the (o_enterprise snt)) (the (o_channel snt)) (channels db) of
          None \<Rightarrow> unknown
        | Some x \<Rightarrow>
            if \<not> truthy_text (x_token x) \<or> \<not> x_managed x \<or> x_reauth x then unknown
            else case open_token rd (text_of (x_token x)) of
                None \<Rightarrow> unknown
              | Some token \<Rightarrow>
                  (case message (o_payload snt) of
                     None \<Rightarrow> unknown
                   | Some sentText \<Rightarrow>
                       (case readBackCall rd snt (x_platform_id x) token of
                          None \<Rightarrow> None
                        | Some None \<Rightarrow> unknown
                        | Some (Some candidates) \<Rightarrow>
                            (case findMatch rd candidates sentText failedAt of
                               Some match \<Rightarrow> Some (Landed, resolve now snt Landed (Some (r_platform_id match)) db)
                             | None \<Rightarrow> Some (Lost, resolve now snt Lost None db)))))"

text \<open>One send's failure does not end the run: it keeps no mark and waits for the next one.\<close>

primrec reconcile_each ::
    "reader \<Rightarrow> int \<Rightarrow> outbound_event list \<Rightarrow> relay_db \<Rightarrow> ReadBackOutcome list \<times> relay_db" where
  "reconcile_each rd now [] db = ([], db)"
| "reconcile_each rd now (s # ss) db =
     (case reconcileOne rd now s db of
        None \<Rightarrow> reconcile_each rd now ss db
      | Some (outcome, db') \<Rightarrow> (let (os, db'') = reconcile_each rd now ss db' in (outcome # os, db'')))"

definition reconcileAll :: "reader \<Rightarrow> int \<Rightarrow> relay_db \<Rightarrow> ReadBackOutcome list \<times> relay_db" where
  "reconcileAll rd now db =
     reconcile_each rd now (listAmbiguousAwaitingReadBack now SEND_RECONCILE_BATCH SEND_READ_BACK_DELAY_MS (box db)) db"

section \<open>Replaying a dead moderation\<close>

datatype moderation_error = NothingToReplay | MayNotModerate | OutOfReplays

definition MAX_MODERATION_REPLAYS :: int where "MAX_MODERATION_REPLAYS = 3"

text \<open>\<open>mayHide\<close> and \<open>mayDelete\<close> are whether the actor holds \<open>comments.hide\<close> and \<open>comments.delete\<close>;
  \<open>comment\<close> is the platform id of the locked message, so the thread was visible to the actor.\<close>

definition retryModeration ::
    "bool \<Rightarrow> bool \<Rightarrow> int \<Rightarrow> int \<Rightarrow> string \<Rightarrow> relay_db \<Rightarrow> moderation_error + (string \<times> relay_db)" where
  "retryModeration mayHide mayDelete now enterprise comment db =
     (case findDeadModerationEvent enterprise comment (box db) of
        None \<Rightarrow> Inl NothingToReplay
      | Some dead \<Rightarrow>
          let action = (if o_type dead = CommentDelete then ''delete'' else ''hide'') in
          if \<not> (if action = ''delete'' then mayDelete else mayHide) then Inl MayNotModerate
          else
            let (requeued, b) = requeueDeadLettered now enterprise (o_id dead) MAX_MODERATION_REPLAYS (box db) in
            if \<not> requeued then Inl OutOfReplays else Inr (action, db\<lparr>box := b\<rparr>))"

end
