(* ===== verification/Outbox_Delivery.thy ===== *)
theory Outbox_Delivery
  imports Outbox_Reconcile
begin

text \<open>
  Many relays, the reaper, the sweeper, the reconciler and the API on one outbound ledger, in any
  order. \<open>relay_step\<close> is one database round trip of one of them: a worker keeps the batch it
  claimed and at most one request in flight, time passes between any two steps, writes can fail
  and processes can die. Four ghost fields record what the platform really accepted, and the
  three ways out of the guarantee that the code itself documents.
\<close>

section \<open>What a worker's write may do\<close>

definition lease_ok :: "outbound_event \<Rightarrow> bool" where
  "lease_ok e \<longleftrightarrow> (o_status e = OutSending \<longleftrightarrow> lease_owner e \<noteq> None)
     \<and> (lease_expires_at e = None \<longleftrightarrow> lease_owner e = None) \<and> o_status e \<noteq> OutLeased"

definition rows_ok :: "outbox \<Rightarrow> bool" where
  "rows_ok b \<longleftrightarrow> outbox_ok b \<and> list_all lease_ok (events b)"

definition kept :: "outbound_event \<Rightarrow> outbound_event \<Rightarrow> bool" where
  "kept e e' \<longleftrightarrow> o_id e' = o_id e \<and> dedup_index e' = dedup_index e \<and> o_enterprise e' = o_enterprise e
     \<and> o_type e' = o_type e \<and> o_payload e' = o_payload e \<and> created_at e' = created_at e \<and> max_attempts e' = max_attempts e"

definition written :: "OutboundEventStatus set \<Rightarrow> outbound_event \<Rightarrow> outbound_event \<Rightarrow> bool" where
  "written S e e' \<longleftrightarrow> kept e e' \<and> lease_owner e' = None \<and> lease_expires_at e' = None \<and> o_status e' \<in> S
     \<and> replays (o_metadata e') = replays (o_metadata e)"

text \<open>The fence: a write by worker \<open>w\<close> on row \<open>i\<close> takes effect exactly when the lease is still \<open>w\<close>'s.\<close>

definition fenced :: "string \<Rightarrow> int \<Rightarrow> OutboundEventStatus set \<Rightarrow> outbox \<Rightarrow> outbox \<Rightarrow> bool" where
  "fenced w i S b b' \<longleftrightarrow> rows_ok b' \<and> next_event_id b' = next_event_id b \<and> (\<forall>j. j \<noteq> i \<longrightarrow> row b' j = row b j)
     \<and> (case row b i of
          None \<Rightarrow> row b' i = None
        | Some e \<Rightarrow> if lease_owner e = Some w then \<exists>e'. row b' i = Some e' \<and> written S e e' else row b' i = Some e)"

definition outcomes :: "OutboundEventStatus set" where
  "outcomes = {OutSent, OutCancelled, OutDeadLetter, OutFailed, OutPending}"

lemma rows_ok_row: "rows_ok b \<Longrightarrow> row b i = Some e \<Longrightarrow> lease_ok e"
  using row_Some [of b i e] by (auto simp: rows_ok_def list_all_iff)

lemma rows_okI: "outbox_ok b \<Longrightarrow> (\<And>i e. row b i = Some e \<Longrightarrow> lease_ok e) \<Longrightarrow> rows_ok b"
  using row_mem [of b] by (fastforce simp: rows_ok_def list_all_iff outbox_ok_def)

lemma written_ok: "written S e e' \<Longrightarrow> S \<subseteq> outcomes \<Longrightarrow> lease_ok e'"
  by (auto simp: written_def lease_ok_def outcomes_def)

lemma fenced_mono: "fenced w i S b b' \<Longrightarrow> S \<subseteq> T \<Longrightarrow> fenced w i T b b'"
  by (auto simp: fenced_def written_def split: option.splits if_splits)

lemma fenced_update:
  assumes ok: "rows_ok b" and guard: "\<And>e. lease_ok e \<Longrightarrow> ok e \<longleftrightarrow> lease_owner e = Some w"
    and f: "\<And>e. written S e (f e)" and S: "S \<subseteq> outcomes"
  shows "fenced w i S b (snd (update_event i ok f b))"
proof -
  have id: "o_id (f e) = o_id e" "dedup_index (f e) = dedup_index e" for e
    using f [of e] by (auto simp: written_def kept_def)
  note r = row_update_event [of f i ok b, OF id(1)]
  have g: "row b i = Some e \<Longrightarrow> ok e \<longleftrightarrow> lease_owner e = Some w" for e using guard rows_ok_row [OF ok] by blast
  have "rows_ok (snd (update_event i ok f b))"
  proof (rule rows_okI)
    show "outbox_ok (snd (update_event i ok f b))" using ok id by (simp add: outbox_ok_update_event rows_ok_def)
    show "lease_ok e" if "row (snd (update_event i ok f b)) j = Some e" for j e
      using that rows_ok_row [OF ok] written_ok [OF f S] by (auto simp: r split: if_splits)
  qed
  with r g f show ?thesis by (auto simp: fenced_def update_event_def split: option.splits)
qed

lemma fenced_skip:
  assumes ok: "rows_ok b" and guard: "\<And>e. lease_ok e \<Longrightarrow> ok e \<longleftrightarrow> lease_owner e = Some w"
    and no: "\<not> fst (update_event i ok f b)"
  shows "fenced w i S b b"
proof -
  have "row b i = Some e \<Longrightarrow> lease_owner e \<noteq> Some w" for e
    using no applied_iff [of b i ok f] ok guard rows_ok_row [OF ok] by (auto simp: rows_ok_def)
  then show ?thesis using ok by (auto simp: fenced_def split: option.splits)
qed

lemma unsettled_guard: "lease_ok e \<Longrightarrow> unsettled_by w e \<longleftrightarrow> lease_owner e = Some w"
  by (auto simp: lease_ok_def unsettled_by_def)

lemma written_cancelled:
  "written {OutCancelled} e ((release e)\<lparr>o_status := OutCancelled, last_error := x, last_error_at := y\<rparr>)"
  "written {OutCancelled} e ((release e)\<lparr>o_status := OutCancelled, last_error := x, last_error_at := y,
     o_metadata := (o_metadata e)\<lparr>ambiguous := True\<rparr>\<rparr>)"
  by (simp_all add: written_def kept_def release_def dedup_index_def)

lemma box_recordDelivery [simp]: "box (recordDelivery now n i pid st db) = box db"
  by (simp add: recordDelivery_def)

lemma box_settleMessage [simp]: "box (settleMessage now ev db) = box db"
  by (simp add: settleMessage_def split: option.splits)

lemma box_markReauthRequired [simp]: "box (markReauthRequired n c st db) = box db"
  by (simp add: markReauthRequired_def)

lemma fenced_settle:
  assumes "rows_ok (box db)"
  shows "fenced w i {OutCancelled} (box db) (box (settle w now n i reason amb db))"
proof -
  have f: "fenced w i {OutCancelled} (box db) (snd (cancel now i w reason (box db)))"
    "fenced w i {OutCancelled} (box db) (snd (cancelAmbiguous now i w reason (box db)))"
    unfolding cancel_def cancelAmbiguous_def
    by (rule fenced_update [OF assms unsettled_guard written_cancelled(1)];
        simp add: outcomes_def)
       (rule fenced_update [OF assms unsettled_guard written_cancelled(2)]; simp add: outcomes_def)
  have s: "\<not> fst (cancel now i w reason (box db)) \<Longrightarrow> fenced w i {OutCancelled} (box db) (box db)"
    "\<not> fst (cancelAmbiguous now i w reason (box db)) \<Longrightarrow> fenced w i {OutCancelled} (box db) (box db)"
    unfolding cancel_def cancelAmbiguous_def using fenced_skip [OF assms unsettled_guard] by blast+
  show ?thesis using f s
    by (cases amb; cases "cancel now i w reason (box db)"; cases "cancelAmbiguous now i w reason (box db)")
       (auto simp: settle_def split: option.splits)
qed

lemma fenced_markFailed:
  assumes "rows_ok b"
  shows "fenced w i (if next = None then {OutDeadLetter} else {OutDeadLetter, OutFailed}) b (snd (markFailed now i w err next b))"
  unfolding markFailed_def
  by (rule fenced_update [OF assms unsettled_guard])
     (auto simp: written_def kept_def release_def dedup_index_def outcomes_def Let_def)

lemma fenced_failAttempt:
  assumes "rows_ok (box db)"
  shows "fenced w (ce_id ev) (if next = None then {OutDeadLetter} else {OutDeadLetter, OutFailed})
    (box db) (box (failAttempt w now ev err next db))"
  using fenced_markFailed [OF assms, of w "ce_id ev" "next" now err]
  by (cases "markFailed now (ce_id ev) w err next (box db)"; cases "next") (simp_all add: failAttempt_def Let_def)

lemma fenced_markRateLimited:
  assumes "rows_ok b"
  shows "fenced w i {OutPending, OutDeadLetter} b (snd (markRateLimited now i w retryAt err wait b))"
  unfolding markRateLimited_def Let_def case_prod_beta snd_conv
  by (rule fenced_update [OF assms unsettled_guard])
     (auto simp: written_def kept_def release_def dedup_index_def outcomes_def)

lemma fenced_afterSend:
  assumes "rows_ok (box db)"
  shows "fenced w (ce_id ev) {OutSent} (box db) (box (afterSend w now ev pid db))"
proof -
  let ?m = "markSent now (ce_id ev) w pid (box db)"
  have "fenced w (ce_id ev) {OutSent} (box db) (snd ?m)"
    unfolding markSent_def
    by (rule fenced_update [OF assms])
       (auto simp: written_def kept_def release_def dedup_index_def outcomes_def)
  moreover have "fenced w (ce_id ev) {OutSent} (box db) (box db)" if "\<not> fst ?m"
    using that unfolding markSent_def by (rule fenced_skip [OF assms refl])
  ultimately show ?thesis by (cases ?m) (auto simp: afterSend_def split: option.splits)
qed

lemma fenced_handle:
  assumes "rows_ok (box db)"
  shows "fenced w (ce_id ev) outcomes (box db) (box (handleSendFailure env w now ev failure db))"
proof (cases failure)
  case (Thrown m)
  have "fenced w (ce_id ev) outcomes (box db) (box (failAttempt w now ev m next db))" for "next"
    by (rule fenced_mono [OF fenced_failAttempt [OF assms]]) (simp add: outcomes_def)
  then show ?thesis by (simp add: handleSendFailure_def Thrown)
next
  case (GraphFailure e)
  have a: "fenced w (ce_id ev) outcomes (box db) (box (failAttempt w now ev m next db))" for m "next"
    by (rule fenced_mono [OF fenced_failAttempt [OF assms]]) (simp add: outcomes_def)
  have s: "fenced w (ce_id ev) outcomes (box db') (box (settle w now n (ce_id ev) m amb db'))"
    if "box db' = box db" for db' n m amb
    using assms that by (intro fenced_mono [OF fenced_settle]) (simp_all add: outcomes_def)
  have r: "fenced w (ce_id ev) outcomes (box db) (snd (markRateLimited now (ce_id ev) w t m k (box db)))" for t m k
    by (rule fenced_mono [OF fenced_markRateLimited [OF assms]]) (simp add: outcomes_def)
  show ?thesis
    using a s [of db] r s [of "markReauthRequired _ _ _ db"]
    by (simp add: handleSendFailure_def GraphFailure Let_def case_prod_beta split: option.split)
qed

text \<open>What the platform may answer, given whether it took the request. A clean refusal, a 4xx, means
  that nothing was created; a transport failure or a 5xx says nothing; an accepted request may
  also come back in an unexpected shape, which the client reports as a schema error.\<close>

definition answers :: "bool \<Rightarrow> platform_answer \<Rightarrow> bool" where
  "answers took a \<longleftrightarrow> (case a of Accepted pid \<Rightarrow> took
     | Refused e \<Rightarrow> took \<longrightarrow> isAmbiguousFailure e \<or> (\<exists>status path detail. 0 < status \<and> e = fromSchema status path detail))"

definition settled :: "OutboundEventStatus set" where
  "settled = {OutSent, OutCancelled, OutDeadLetter}"

lemma settled_outcomes: "settled \<subseteq> outcomes"
  by (simp add: settled_def outcomes_def)

lemma fenced_took:
  assumes ok: "rows_ok (box db)" and ans: "answers True a"
  shows "fenced w (ce_id ev) settled (box db) (box (finishSend env w now ev a db))"
proof (cases a)
  case (Accepted pid)
  show ?thesis unfolding finishSend_def Accepted platform_answer.case
    by (rule fenced_mono [OF fenced_afterSend [OF ok]]) (simp add: settled_def)
next
  case (Refused e)
  have s: "fenced w (ce_id ev) settled (box db') (box (settle w now n (ce_id ev) m amb db'))"
    if "box db' = box db" for db' n m amb
    using ok that by (intro fenced_mono [OF fenced_settle]) (simp_all add: settled_def)
  have f: "fenced w (ce_id ev) settled (box db) (box (failAttempt w now ev m None db))" for m
    using fenced_mono [OF fenced_failAttempt [OF ok, of w ev None], of settled] by (simp add: settled_def)
  consider "isAmbiguousFailure e" | status path detail where "0 < status" "e = fromSchema status path detail"
    using ans by (auto simp: answers_def Refused)
  then show ?thesis
  proof cases
    case 1
    then show ?thesis using s [of db] s [of "markReauthRequired _ _ _ db"]
      by (simp add: finishSend_def handleSendFailure_def Refused Let_def split: option.split)
  next
    case (2 status path detail)
    then have m: "\<not> requiresReauth (mapGraphError e) \<and> (\<not> isAmbiguousFailure e \<longrightarrow> \<not> retryable (mapGraphError e))"
      by (simp add: mapGraphError_def isRateLimit_def isAmbiguousFailure_def fromSchema_def)
    then show ?thesis using s [of db] f
      by (auto simp: finishSend_def handleSendFailure_def Refused Let_def)
  qed
qed

lemma fenced_finish:
  assumes "rows_ok (box db)"
  shows "fenced w (ce_id ev) outcomes (box db) (box (finishSend env w now ev a db))"
  using fenced_handle [OF assms] fenced_mono [OF fenced_afterSend [OF assms], of outcomes]
  by (cases a) (simp_all add: finishSend_def outcomes_def)

lemma fenced_before:
  assumes ok: "rows_ok (box db)" and before: "beforeSend env w now ev db = Inl db'"
  shows "box db' = box db \<or> fenced w (ce_id ev) outcomes (box db) (box db')"
proof -
  have s: "fenced w (ce_id ev) outcomes (box db) (box (settle w now n (ce_id ev) m False db))" for n m
    by (rule fenced_mono [OF fenced_settle [OF ok]]) (simp add: outcomes_def)
  have r: "fenced w (ce_id ev) outcomes (box db) (snd (markRateLimited now (ce_id ev) w t m k (box db)))" for t m k
    by (rule fenced_mono [OF fenced_markRateLimited [OF ok]]) (simp add: outcomes_def)
  from before s r show ?thesis
    by (auto simp: beforeSend_def Let_def split: option.splits if_splits)
qed

lemma before_holds_lease:
  assumes "beforeSend env w now ev db = Inr x" and ok: "rows_ok (box db)"
  shows "\<exists>e l. row (box db) (ce_id ev) = Some e \<and> lease_owner e = Some w \<and> lease_expires_at e = Some l \<and> now < l"
proof -
  have "stillHoldsLease now (ce_id ev) w (box db)"
    using assms(1) by (auto simp: beforeSend_def Let_def split: option.splits if_splits)
  then obtain e where e: "e \<in> set (events (box db))" "o_id e = ce_id ev" "lease_owner e = Some w"
    "case lease_expires_at e of None \<Rightarrow> False | Some t \<Rightarrow> now < t"
    by (auto simp: stillHoldsLease_def list_ex_iff)
  have "row (box db) (ce_id ev) = Some e" using row_mem [of "box db" e] ok e(1,2) by (simp add: rows_ok_def outbox_ok_def)
  with e(3,4) show ?thesis by (auto split: option.splits)
qed

section \<open>Everybody at once\<close>

record relay_worker =
  batch :: "ClaimedOutboundEvent list"
  in_flight :: "(ClaimedOutboundEvent \<times> int) option"

record relay_state =
  base :: relay_db
  relay_clock :: int
  workers :: "string \<Rightarrow> relay_worker"
  reading :: "outbound_event list"
  taken :: "int list"
  overdue :: "int set"
  unrecorded :: "int set"
  replayed :: "int set"

definition resting :: relay_worker where
  "resting = \<lparr> batch = [], in_flight = None \<rparr>"

definition put_box :: "outbox \<Rightarrow> relay_state \<Rightarrow> relay_state" where
  "put_box b s = s\<lparr>base := (base s)\<lparr>box := b\<rparr>\<rparr>"

definition put_worker :: "string \<Rightarrow> relay_worker \<Rightarrow> relay_state \<Rightarrow> relay_state" where
  "put_worker w wk s = s\<lparr>workers := (workers s)(w := wk)\<rparr>"

text \<open>A request is overdue once its worker has held it for longer than the reaper's grace.\<close>

definition late_at :: "int \<Rightarrow> (string \<Rightarrow> relay_worker) \<Rightarrow> int set" where
  "late_at now ws = {i. \<exists>w ev t. in_flight (ws w) = Some (ev, t) \<and> ce_id ev = i \<and> t + SENDING_REAP_GRACE_MS < now}"

definition took_ids :: "bool \<Rightarrow> int \<Rightarrow> int list" where
  "took_ids took i = (if took then [i] else [])"

inductive relay_step :: "relay_state \<Rightarrow> relay_state \<Rightarrow> bool" where
  tick: "0 \<le> d \<Longrightarrow> relay_step s (s\<lparr>relay_clock := relay_clock s + d, overdue := overdue s \<union> late_at (relay_clock s + d) (workers s)\<rparr>)"
| api: "relay_step s (s\<lparr>base := \<lparr> box = snd (enqueue (relay_clock s) inp (box (base s))),
      messages = ms, channels = cs, connections = pcs \<rparr>\<rparr>)"
| poll: "workers s w = resting \<Longrightarrow> claim_for_poll env w n secs (relay_clock s) (box (base s)) = (evs, b) \<Longrightarrow>
    relay_step s (put_worker w \<lparr> batch = evs, in_flight = None \<rparr> (put_box b s))"
| guarded: "workers s w = \<lparr> batch = ev # evs, in_flight = None \<rparr> \<Longrightarrow> beforeSend env w (relay_clock s) ev (base s) = Inl d \<Longrightarrow>
    relay_step s (put_worker w \<lparr> batch = evs, in_flight = None \<rparr> (s\<lparr>base := d\<rparr>))"
| unsendable: "workers s w = \<lparr> batch = ev # evs, in_flight = None \<rparr> \<Longrightarrow> beforeSend env w (relay_clock s) ev (base s) = Inr (Inl err) \<Longrightarrow>
    relay_step s (put_worker w \<lparr> batch = evs, in_flight = None \<rparr>
      (s\<lparr>base := handleSendFailure env w (relay_clock s) ev (Thrown err) (base s)\<rparr>))"
| start: "workers s w = \<lparr> batch = ev # evs, in_flight = None \<rparr> \<Longrightarrow> beforeSend env w (relay_clock s) ev (base s) = Inr (Inr rq) \<Longrightarrow>
    relay_step s (put_worker w \<lparr> batch = evs, in_flight = Some (ev, relay_clock s) \<rparr> s)"
| finish: "workers s w = \<lparr> batch = evs, in_flight = Some (ev, t) \<rparr> \<Longrightarrow> answers took a \<Longrightarrow>
    relay_step s (put_worker w \<lparr> batch = evs, in_flight = None \<rparr>
      (s\<lparr>base := finishSend env w (relay_clock s) ev a (base s), taken := took_ids took (ce_id ev) @ taken s\<rparr>))"
| write_failed: "workers s w = \<lparr> batch = evs, in_flight = Some (ev, t) \<rparr> \<Longrightarrow>
    relay_step s (put_worker w \<lparr> batch = evs, in_flight = None \<rparr>
      (s\<lparr>taken := took_ids took (ce_id ev) @ taken s, unrecorded := insert (ce_id ev) (unrecorded s)\<rparr>))"
| threw: "workers s w = \<lparr> batch = ev # evs, in_flight = None \<rparr> \<Longrightarrow>
    relay_step s (put_worker w \<lparr> batch = evs, in_flight = None \<rparr> s)"
| died: "in_flight (workers s w) = None \<Longrightarrow> relay_step s (put_worker w resting s)"
| died_sending: "in_flight (workers s w) = Some (ev, t) \<Longrightarrow>
    relay_step s (put_worker w resting
      (s\<lparr>taken := took_ids took (ce_id ev) @ taken s, unrecorded := insert (ce_id ev) (unrecorded s)\<rparr>))"
| reap: "relay_step s (put_box (reclaimExpiredLeases (relay_clock s) n (box (base s))) s)"
| sweep: "relay_step s (put_box (deleteSettledBefore cutoff n (box (base s))) s)"
| replay: "retryModeration mayHide mayDelete (relay_clock s) enterprise comment (base s) = Inr (action, d) \<Longrightarrow>
    findDeadModerationEvent enterprise comment (box (base s)) = Some e \<Longrightarrow>
    relay_step s (s\<lparr>base := d, replayed := insert (o_id e) (replayed s)\<rparr>)"
| list_sends: "relay_step s (s\<lparr>reading :=
    listAmbiguousAwaitingReadBack (relay_clock s) SEND_RECONCILE_BATCH SEND_READ_BACK_DELAY_MS (box (base s))\<rparr>)"
| read_back: "reading s = snt # rest \<Longrightarrow> reconcileOne rd (relay_clock s) snt (base s) = Some (outcome, d) \<Longrightarrow>
    relay_step s (s\<lparr>base := d, reading := rest\<rparr>)"
| read_failed: "reading s = snt # rest \<Longrightarrow> relay_step s (s\<lparr>reading := rest\<rparr>)"

definition empty_relay :: relay_state where
  "empty_relay = \<lparr> base = \<lparr> box = \<lparr> events = [], next_event_id = 1 \<rparr>, messages = [], channels = [], connections = [] \<rparr>,
     relay_clock = 0, workers = (\<lambda>_. resting), reading = [], taken = [], overdue = {}, unrecorded = {}, replayed = {} \<rparr>"

inductive relay_run :: "relay_state \<Rightarrow> bool" where
  relay_init: "relay_run empty_relay"
| relay_next: "relay_run s \<Longrightarrow> relay_step s s' \<Longrightarrow> relay_run s'"

section \<open>What every step does to one row\<close>

fun may_follow :: "OutboundEventStatus \<Rightarrow> OutboundEventStatus \<Rightarrow> bool" where
  "may_follow OutPending t \<longleftrightarrow> t \<in> {OutPending, OutSending}"
| "may_follow OutScheduled t \<longleftrightarrow> t \<in> {OutScheduled, OutSending}"
| "may_follow OutFailed t \<longleftrightarrow> t \<in> {OutFailed, OutSending}"
| "may_follow OutLeased t \<longleftrightarrow> False"
| "may_follow OutSending t \<longleftrightarrow> t \<notin> {OutScheduled, OutLeased}"
| "may_follow OutSent t \<longleftrightarrow> t = OutSent"
| "may_follow OutCancelled t \<longleftrightarrow> t \<in> {OutCancelled, OutSent}"
| "may_follow OutDeadLetter t \<longleftrightarrow> t \<in> {OutDeadLetter, OutPending}"

definition moderation_type :: "OutboundEventType \<Rightarrow> bool" where
  "moderation_type t \<longleftrightarrow> t \<in> {CommentHide, CommentDelete}"

definition moves :: "outbound_event \<Rightarrow> outbound_event \<Rightarrow> bool" where
  "moves e e' \<longleftrightarrow> kept e e' \<and> may_follow (o_status e) (o_status e') \<and> lease_ok e'
     \<and> (if o_status e = OutDeadLetter \<and> o_status e' = OutPending
        then moderation_type (o_type e) \<and> replays (o_metadata e) < MAX_MODERATION_REPLAYS
          \<and> replays (o_metadata e') = replays (o_metadata e) + 1
        else replays (o_metadata e') = replays (o_metadata e))"

text \<open>\<open>R\<close> are the rows that an agent may have put back.\<close>

definition moves_in :: "int set \<Rightarrow> outbound_event \<Rightarrow> outbound_event \<Rightarrow> bool" where
  "moves_in R e e' \<longleftrightarrow> moves e e' \<and> (o_status e = OutDeadLetter \<and> o_status e' = OutPending \<longrightarrow> o_id e \<in> R)"

lemma moves_refl: "lease_ok e \<Longrightarrow> moves_in R e e"
  by (cases "o_status e") (auto simp: moves_in_def moves_def kept_def lease_ok_def)

lemma moves_written: "lease_ok e \<Longrightarrow> lease_owner e \<noteq> None \<Longrightarrow> written S e e' \<Longrightarrow> S \<subseteq> outcomes \<Longrightarrow> moves_in R e e'"
  using written_ok [of S e e'] by (auto simp: moves_in_def moves_def written_def lease_ok_def outcomes_def)

text \<open>The relation between two tables: rows move along \<open>moves\<close>, settled rows may go, and new rows have
  new ids.\<close>

definition evolves :: "int set \<Rightarrow> outbox \<Rightarrow> outbox \<Rightarrow> bool" where
  "evolves R b b' \<longleftrightarrow> rows_ok b' \<and> next_event_id b \<le> next_event_id b'
     \<and> (\<forall>i. case row b i of
          None \<Rightarrow> i < next_event_id b \<longrightarrow> row b' i = None
        | Some e \<Rightarrow> (case row b' i of None \<Rightarrow> o_status e \<in> {OutSent, OutCancelled} | Some e' \<Rightarrow> moves_in R e e'))"

lemma evolves_refl: "rows_ok b \<Longrightarrow> evolves R b b"
  using rows_ok_row [of b] by (auto simp: evolves_def moves_refl split: option.splits)

lemma evolvesI:
  assumes "rows_ok b'" "next_event_id b' = next_event_id b" "\<And>i. row b i = None \<Longrightarrow> row b' i = None"
    "\<And>i e. row b i = Some e \<Longrightarrow> (row b' i = None \<and> o_status e \<in> {OutSent, OutCancelled}) \<or> (\<exists>e'. row b' i = Some e' \<and> moves_in R e e')"
  shows "evolves R b b'"
  unfolding evolves_def using assms(1-3) by (auto split: option.splits dest: assms(4))

lemma evolves_fenced:
  assumes "fenced w i S b b'" and "rows_ok b" and "S \<subseteq> outcomes"
  shows "evolves R b b'"
proof (rule evolvesI)
  show "rows_ok b'" "next_event_id b' = next_event_id b" using assms(1) by (simp_all add: fenced_def)
  show "row b j = None \<Longrightarrow> row b' j = None" for j
    using assms(1) by (cases "j = i") (auto simp: fenced_def)
  show "(row b' j = None \<and> o_status e \<in> {OutSent, OutCancelled}) \<or> (\<exists>e'. row b' j = Some e' \<and> moves_in R e e')"
    if "row b j = Some e" for j e
    using assms(1,3) that moves_refl moves_written rows_ok_row [OF assms(2) that]
    by (cases "j = i") (fastforce simp: fenced_def split: if_splits)+
qed

lemma evolves_enqueue:
  assumes ok: "rows_ok b"
  shows "evolves R b (snd (enqueue now inp b))"
proof -
  have o: "outbox_ok b" using ok by (simp add: rows_ok_def)
  note r = row_enqueue [OF o, of now inp]
  have new: "lease_ok (new_event now i inp)" for i by (simp add: lease_ok_def new_event_def)
  have f: "fst (enqueue now inp b) = Some i \<Longrightarrow> i = next_event_id b \<and> row b i = None" for i
    using o by (auto simp: enqueue_def Let_def row_def find_None_all outbox_ok_def list_all_iff split: if_splits)
  have "rows_ok (snd (enqueue now inp b))"
    using outbox_ok_enqueue [OF o] rows_ok_row [OF ok] new r by (intro rows_okI) (auto split: if_splits)
  moreover have "next_event_id b \<le> next_event_id (snd (enqueue now inp b))"
    by (simp add: enqueue_def Let_def)
  moreover have "row b i = Some e \<Longrightarrow> row (snd (enqueue now inp b)) i = Some e" for i e
    using f [of i] r [of i] by auto
  moreover have "row b i = None \<Longrightarrow> i < next_event_id b \<Longrightarrow> row (snd (enqueue now inp b)) i = None" for i
    using f [of i] r [of i] by auto
  ultimately show ?thesis using moves_refl [OF rows_ok_row [OF ok]]
    by (auto simp: evolves_def split: option.splits)
qed

lemma evolves_claim:
  assumes ok: "rows_ok b"
  shows "evolves R b (snd (claimDueBatch w n secs now b))"
proof -
  have o: "outbox_ok b" using ok by (simp add: rows_ok_def)
  have g: "moves_in R e (out_grab w t e)" if "lease_ok e" "out_due now e" for e t
    using that by (cases "o_status e")
      (auto simp: moves_in_def moves_def kept_def out_grab_def lease_ok_def out_due_def DUE_OUTBOUND_STATUSES_def dedup_index_def)
  have m: "\<exists>e'. row (snd (claimDueBatch w n secs now b)) i = Some e' \<and> moves_in R e e'" if "row b i = Some e" for i e
    using row_claim [OF o, of w n secs now i] row_claim_due [OF o that] g moves_refl rows_ok_row [OF ok that] that by auto
  have "rows_ok (snd (claimDueBatch w n secs now b))"
  proof (rule rows_okI [OF outbox_ok_claim [OF o]])
    fix i e' assume e': "row (snd (claimDueBatch w n secs now b)) i = Some e'"
    then obtain e where "row b i = Some e" using row_claim [OF o, of w n secs now i] by (auto split: option.splits)
    with m [OF this] e' show "lease_ok e'" by (auto simp: moves_in_def moves_def)
  qed
  then show ?thesis
    using m row_claim [OF o, of w n secs now] by (intro evolvesI) (auto simp: claimDueBatch_def Let_def)
qed

lemma moves_reap: "lease_ok e \<Longrightarrow> out_lapsed now e \<Longrightarrow> moves_in R e ((release e)\<lparr>o_status := OutPending\<rparr>)"
  by (auto simp: moves_in_def moves_def kept_def release_def lease_ok_def out_lapsed_def dedup_index_def split: option.splits)

lemma evolves_reap:
  assumes ok: "rows_ok b"
  shows "evolves R b (reclaimExpiredLeases now n b)"
proof -
  have o: "outbox_ok b" using ok by (simp add: rows_ok_def)
  note r = row_reclaim [OF o, of now n]
  have m: "\<exists>e'. row (reclaimExpiredLeases now n b) i = Some e' \<and> moves_in R e e'" if "row b i = Some e" for i e
    using r [of i] moves_reap moves_refl rows_ok_row [OF ok that] that by auto
  have "rows_ok (reclaimExpiredLeases now n b)"
  proof (rule rows_okI [OF outbox_ok_reclaim [OF o]])
    fix i e' assume e': "row (reclaimExpiredLeases now n b) i = Some e'"
    then obtain e where "row b i = Some e" using r [of i] by (cases "row b i") auto
    with m [OF this] e' show "lease_ok e'" by (auto simp: moves_in_def moves_def)
  qed
  then show ?thesis
  proof (rule evolvesI)
    show "next_event_id (reclaimExpiredLeases now n b) = next_event_id b" by (simp add: reclaimExpiredLeases_def)
    show "row b i = None \<Longrightarrow> row (reclaimExpiredLeases now n b) i = None" for i using r [of i] by auto
  qed (use m in blast)
qed

lemma evolves_sweep:
  assumes ok: "rows_ok b"
  shows "evolves R b (deleteSettledBefore cutoff n b)"
proof -
  have o: "outbox_ok b" using ok by (simp add: rows_ok_def)
  note r = row_delete [OF o, of cutoff n]
  have "rows_ok (deleteSettledBefore cutoff n b)"
  proof (rule rows_okI [OF outbox_ok_delete [OF o]])
    show "row (deleteSettledBefore cutoff n b) i = Some e \<Longrightarrow> lease_ok e" for i e
      using r [of i] rows_ok_row [OF ok] by auto
  qed
  then show ?thesis
  proof (rule evolvesI)
    show "next_event_id (deleteSettledBefore cutoff n b) = next_event_id b" by (simp add: deleteSettledBefore_def)
    show "row b i = None \<Longrightarrow> row (deleteSettledBefore cutoff n b) i = None" for i using r [of i] by auto
    show "(row (deleteSettledBefore cutoff n b) i = None \<and> o_status e \<in> {OutSent, OutCancelled})
        \<or> (\<exists>e'. row (deleteSettledBefore cutoff n b) i = Some e' \<and> moves_in R e e')" if "row b i = Some e" for i e
      using r [of i] moves_refl rows_ok_row [OF ok that] that by auto
  qed
qed

text \<open>Statements on one row, whoever runs them.\<close>

lemma evolves_update:
  assumes ok: "rows_ok b" and ids: "\<And>e. o_id (f e) = o_id e" "\<And>e. dedup_index (f e) = dedup_index e"
    and m: "\<And>e. row b i = Some e \<Longrightarrow> ok e \<Longrightarrow> moves_in R e (f e)"
  shows "evolves R b (snd (update_event i ok f b))"
proof -
  note r = row_update_event [of f i ok b, OF ids(1)]
  have "rows_ok (snd (update_event i ok f b))"
  proof (rule rows_okI)
    show "outbox_ok (snd (update_event i ok f b))" using ok ids by (simp add: outbox_ok_update_event rows_ok_def)
    show "row (snd (update_event i ok f b)) j = Some e \<Longrightarrow> lease_ok e" for j e
      using rows_ok_row [OF ok] m by (auto simp: r moves_in_def moves_def split: if_splits)
  qed
  then show ?thesis
  proof (rule evolvesI)
    show "next_event_id (snd (update_event i ok f b)) = next_event_id b" by (simp add: update_event_def)
    show "row b j = None \<Longrightarrow> row (snd (update_event i ok f b)) j = None" for j by (auto simp: r)
    have "\<exists>e'. row (snd (update_event i ok f b)) j = Some e' \<and> moves_in R e e'" if "row b j = Some e" for j e
      using m [of e] moves_refl [OF rows_ok_row [OF ok that], of R] that by (cases "ok e") (auto simp: r)
    then show "(row (snd (update_event i ok f b)) j = None \<and> o_status e \<in> {OutSent, OutCancelled})
      \<or> (\<exists>e'. row (snd (update_event i ok f b)) j = Some e' \<and> moves_in R e e')" if "row b j = Some e" for j e
      using that by blast
  qed
qed

lemma findDead_Some:
  assumes "findDeadModerationEvent n c b = Some e"
  shows "e \<in> set (events b)" "dead_moderation n e" "commentId (o_payload e) = Some c"
proof -
  let ?es = "filter (\<lambda>e. dead_moderation n e \<and> commentId (o_payload e) = Some c) (events b)"
  obtain es where "sort_key (\<lambda>e. - o_id e) ?es = e # es"
    using assms by (auto simp: findDeadModerationEvent_def split: list.splits)
  then have "e \<in> set (sort_key (\<lambda>e. - o_id e) ?es)" by (metis list.set_intros(1))
  then show "e \<in> set (events b)" "dead_moderation n e" "commentId (o_payload e) = Some c" by auto
qed

lemma replay_box:
  assumes "retryModeration h d now n c store = Inr (action, store')" "findDeadModerationEvent n c (box store) = Some e"
  shows "box store' = snd (requeueDeadLettered now n (o_id e) MAX_MODERATION_REPLAYS (box store))"
  using assms by (auto simp: retryModeration_def Let_def case_prod_beta split: if_splits)

lemma evolves_replay:
  assumes ok: "rows_ok (box store)" and r: "retryModeration h d now n c store = Inr (action, store')"
    and e: "findDeadModerationEvent n c (box store) = Some e"
  shows "evolves {o_id e} (box store) (box store')"
proof -
  have "row (box store) (o_id e) = Some e"
    using row_mem [OF _ findDead_Some(1) [OF e]] ok by (simp add: rows_ok_def outbox_ok_def)
  then have "moves_in {o_id e} f ((release f)\<lparr>o_status := OutPending, attempt_count := 0, next_attempt_at := Some now,
        o_metadata := (o_metadata f)\<lparr>replays := replays (o_metadata f) + 1, lastReplayAt := Some (now div 1000 * 1000)\<rparr>\<rparr>)"
    if "row (box store) (o_id e) = Some f" "replays (o_metadata f) < MAX_MODERATION_REPLAYS" "o_status f = OutDeadLetter" for f
    using that findDead_Some(2) [OF e] rows_ok_row [OF ok that(1)]
    by (auto simp: moves_in_def moves_def kept_def release_def dedup_index_def lease_ok_def dead_moderation_def moderation_type_def)
  then show ?thesis unfolding replay_box [OF r e] requeueDeadLettered_def
    by (intro evolves_update [OF ok]) (auto simp: release_def dedup_index_def)
qed

lemma resolve_box:
  assumes ok: "rows_ok (box store)"
    and st: "\<And>e. row (box store) (o_id snt) = Some e \<Longrightarrow> o_status e \<in> {OutCancelled, OutSent}"
  shows "evolves R (box store) (box (resolve now snt outcome pid store))"
proof -
  have "moves_in R e (e\<lparr>o_metadata := (o_metadata e)\<lparr>readBack := Some outcome, readBackAt := Some now\<rparr>,
      o_status := (if outcome = Landed then OutSent else o_status e),
      platform_event_id := (case pid of None \<Rightarrow> platform_event_id e | Some p \<Rightarrow> Some p)\<rparr>)"
    if "row (box store) (o_id snt) = Some e" for e
    using st [OF that] rows_ok_row [OF ok that] by (auto simp: moves_in_def moves_def kept_def lease_ok_def dedup_index_def)
  then have "evolves R (box store) (snd (markReadBackResolved now (o_id snt) outcome pid (box store)))"
    unfolding markReadBackResolved_def by (intro evolves_update [OF ok]) (auto simp: dedup_index_def)
  then show ?thesis using evolves_refl [OF ok]
    by (auto simp: resolve_def case_prod_beta)
qed

lemma reconcile_box:
  "reconcileOne rd now snt store = Some (outcome, store') \<Longrightarrow> \<exists>pid. store' = resolve now snt outcome pid store"
  by (auto simp: reconcileOne_def Let_def split: if_splits option.splits)

lemma moves_in_mono: "moves_in R e e' \<Longrightarrow> R \<subseteq> T \<Longrightarrow> moves_in T e e'"
  unfolding moves_in_def by blast

lemma evolves_mono: "evolves R b b' \<Longrightarrow> R \<subseteq> T \<Longrightarrow> evolves T b b'"
  unfolding evolves_def
  by (intro conjI allI, blast, blast, drule conjunct2, drule conjunct2, drule spec)
     (auto split: option.split option.split_asm intro: moves_in_mono)


section \<open>A lease in use is not disturbed\<close>

definition holds :: "string \<Rightarrow> int \<Rightarrow> int \<Rightarrow> outbox \<Rightarrow> bool" where
  "holds w i l b \<longleftrightarrow> (\<exists>e. row b i = Some e \<and> lease_owner e = Some w \<and> lease_expires_at e = Some l)"

lemma holds_sending: "rows_ok b \<Longrightarrow> row b i = Some e \<Longrightarrow> lease_owner e = Some w \<Longrightarrow> o_status e = OutSending"
  using rows_ok_row [of b i e] by (simp add: lease_ok_def)

lemma holds_fenced: "fenced w' j S b b' \<Longrightarrow> w' \<noteq> w \<Longrightarrow> holds w i l b \<Longrightarrow> holds w i l b'"
  by (cases "i = j") (auto simp: fenced_def holds_def)

lemma holds_enqueue:
  assumes "rows_ok b" and "holds w i l b"
  shows "holds w i l (snd (enqueue now inp b))"
proof -
  have "outbox_ok b" using assms(1) by (simp add: rows_ok_def)
  moreover have "fst (enqueue now inp b) \<noteq> Some i"
    using assms by (auto simp: enqueue_def Let_def holds_def rows_ok_def outbox_ok_def list_all_iff dest!: row_Some split: if_splits)
  ultimately show ?thesis using assms(2) by (simp add: holds_def row_enqueue)
qed

lemma holds_claim:
  assumes ok: "rows_ok b" and "holds w i l b"
  shows "holds w i l (snd (claimDueBatch w' n secs now b))"
proof -
  have o: "outbox_ok b" using ok by (simp add: rows_ok_def)
  obtain e where e: "row b i = Some e" "lease_owner e = Some w" using assms(2) by (auto simp: holds_def)
  then have "\<not> out_due now e" using holds_sending [OF ok] by (auto simp: out_due_def DUE_OUTBOUND_STATUSES_def)
  then have "i \<notin> set (first_ids o_id (out_due now) out_order n (events b))" using row_claim_due [OF o e(1)] by blast
  then show ?thesis using assms(2) e by (simp add: holds_def row_claim [OF o])
qed

lemma holds_reap:
  assumes ok: "rows_ok b" and h: "holds w i l b" and "now \<le> l + SENDING_REAP_GRACE_MS"
  shows "holds w i l (reclaimExpiredLeases now n b)"
proof -
  obtain e where e: "row b i = Some e" "lease_owner e = Some w" "lease_expires_at e = Some l" using h by (auto simp: holds_def)
  then have "\<not> out_lapsed now e" using holds_sending [OF ok] assms(3) by (simp add: out_lapsed_def)
  then show ?thesis using row_reclaim [of b now n i] ok e by (auto simp: holds_def rows_ok_def)
qed

lemma holds_sweep:
  assumes ok: "rows_ok b" and h: "holds w i l b"
  shows "holds w i l (deleteSettledBefore cutoff n b)"
proof -
  obtain e where "row b i = Some e" "o_status e = OutSending" using h holds_sending [OF ok] by (auto simp: holds_def)
  then have "row (deleteSettledBefore cutoff n b) i = row b i" using row_delete [of b cutoff n i] ok by (auto simp: rows_ok_def)
  then show ?thesis using h by (simp add: holds_def)
qed

lemma holds_update:
  assumes ok: "rows_ok b" and h: "holds w i l b" and id: "\<And>e. o_id (f e) = o_id e"
    and no: "\<And>e. row b j = Some e \<Longrightarrow> o_status e = OutSending \<Longrightarrow> \<not> ok e"
  shows "holds w i l (snd (update_event j ok f b))"
proof -
  obtain e where e: "row b i = Some e" "lease_owner e = Some w" "lease_expires_at e = Some l" using h by (auto simp: holds_def)
  have "row (snd (update_event j ok f b)) i = Some e"
    using e(1) no [of e] holds_sending [OF ok e(1,2)] by (auto simp: row_update_event [of f, OF id])
  then show ?thesis using e by (simp add: holds_def)
qed

lemma holds_replay:
  assumes ok: "rows_ok (box store)" and h: "holds w i l (box store)"
    and r: "retryModeration mh md now n c store = Inr (action, store')" and e: "findDeadModerationEvent n c (box store) = Some e"
  shows "holds w i l (box store')"
  unfolding replay_box [OF r e] requeueDeadLettered_def
  by (rule holds_update [OF ok h]) (auto simp: release_def)

lemma holds_resolve:
  assumes ok: "rows_ok (box store)" and h: "holds w i l (box store)"
    and st: "\<And>e. row (box store) (o_id snt) = Some e \<Longrightarrow> o_status e \<in> {OutCancelled, OutSent}"
  shows "holds w i l (box (resolve now snt outcome pid store))"
proof -
  have "holds w i l (snd (markReadBackResolved now (o_id snt) outcome pid (box store)))"
    unfolding markReadBackResolved_def by (rule holds_update [OF ok h]) (use st in fastforce)+
  then show ?thesis using h by (auto simp: resolve_def case_prod_beta)
qed

section \<open>The invariant\<close>

definition flights_ok :: "relay_state \<Rightarrow> bool" where
  "flights_ok s \<longleftrightarrow> (\<forall>w ev t. in_flight (workers s w) = Some (ev, t) \<longrightarrow> ce_id ev \<notin> overdue s \<longrightarrow>
     relay_clock s \<le> t + SENDING_REAP_GRACE_MS \<and> (\<exists>l. t < l \<and> holds w (ce_id ev) l (box (base s))))"

definition exempt :: "relay_state \<Rightarrow> int set" where
  "exempt s = overdue s \<union> unrecorded s \<union> replayed s"

definition taken_ok :: "relay_state \<Rightarrow> bool" where
  "taken_ok s \<longleftrightarrow> (\<forall>i. i \<notin> exempt s \<longrightarrow> i \<in> set (taken s) \<longrightarrow>
     count_list (taken s) i = 1 \<and> i < next_event_id (box (base s))
     \<and> (\<forall>e. row (box (base s)) i = Some e \<longrightarrow> o_status e \<in> settled))"

definition reading_ok :: "relay_state \<Rightarrow> bool" where
  "reading_ok s \<longleftrightarrow> (\<forall>snt\<in>set (reading s). o_id snt < next_event_id (box (base s))
     \<and> (\<forall>e. row (box (base s)) (o_id snt) = Some e \<longrightarrow> o_status e \<in> {OutCancelled, OutSent}))"

definition relay_inv :: "relay_state \<Rightarrow> bool" where
  "relay_inv s \<longleftrightarrow> rows_ok (box (base s)) \<and> reading_ok s \<and> flights_ok s \<and> taken_ok s"

lemmas put_simps = put_box_def put_worker_def

lemma claim_for_poll_cases:
  assumes "claim_for_poll env w n secs now b = (evs, b')"
  shows "b' = b \<or> b' = snd (claimDueBatch w n secs now b)"
  using assms by (auto simp: claim_for_poll_def split: if_splits)

lemma step_evolves:
  assumes "relay_step s s'" and "rows_ok (box (base s))" and "reading_ok s"
  shows "evolves (replayed s') (box (base s)) (box (base s'))"
  using assms(1)
proof cases
  case (poll w env n secs evs b)
  then show ?thesis using claim_for_poll_cases [OF poll(3)] evolves_refl evolves_claim assms(2) by (auto simp: put_simps)
next
  case (guarded w ev evs env d)
  then show ?thesis using fenced_before [OF assms(2) guarded(3)] evolves_refl evolves_fenced assms(2) by (auto simp: put_simps)
next
  case (unsendable w ev evs env err)
  then show ?thesis using evolves_fenced [OF fenced_handle] assms(2) by (simp add: put_simps)
next
  case (finish w evs ev t took a env)
  then show ?thesis using evolves_fenced [OF fenced_finish] assms(2) by (simp add: put_simps)
next
  case (replay mh md n c action d e)
  then show ?thesis using evolves_mono [OF evolves_replay [OF assms(2) replay(2,3)]] by simp
next
  case (read_back snt rest rd outcome d)
  then have "row (box (base s)) (o_id snt) = Some e \<Longrightarrow> o_status e \<in> {OutCancelled, OutSent}" for e
    using assms(3) by (simp add: reading_ok_def)
  then show ?thesis using resolve_box [OF assms(2)] reconcile_box [OF read_back(3)] read_back(1) by auto
qed (simp_all add: put_simps evolves_refl evolves_enqueue evolves_reap evolves_sweep assms(2))

lemma evolves_Some:
  assumes "evolves R b b'" "row b' i = Some e'" "i < next_event_id b"
  shows "\<exists>e. row b i = Some e \<and> moves_in R e e'"
proof -
  from assms(1) have "case row b i of None \<Rightarrow> i < next_event_id b \<longrightarrow> row b' i = None
     | Some e \<Rightarrow> (case row b' i of None \<Rightarrow> o_status e \<in> {OutSent, OutCancelled} | Some e' \<Rightarrow> moves_in R e e')"
    by (simp add: evolves_def)
  with assms(2,3) show ?thesis by (auto split: option.splits)
qed

lemma evolves_next: "evolves R b b' \<Longrightarrow> next_event_id b \<le> next_event_id b'"
  by (simp add: evolves_def)

lemma reading_evolves:
  assumes "reading_ok s" and ev: "evolves R (box (base s)) (box (base s'))" and sub: "set (reading s') \<subseteq> set (reading s)"
  shows "reading_ok s'"
  unfolding reading_ok_def
proof (intro ballI conjI allI impI)
  fix snt assume "snt \<in> set (reading s')"
  with assms have r: "o_id snt < next_event_id (box (base s))"
    "\<And>e. row (box (base s)) (o_id snt) = Some e \<Longrightarrow> o_status e \<in> {OutCancelled, OutSent}"
    by (auto simp: reading_ok_def)
  show "o_id snt < next_event_id (box (base s'))" using r(1) evolves_next [OF ev] by simp
  show "o_status e \<in> {OutCancelled, OutSent}" if "row (box (base s')) (o_id snt) = Some e" for e
    using evolves_Some [OF ev that r(1)] r(2) by (auto simp: moves_in_def moves_def)
qed

lemma listed_cancelled:
  assumes "outbox_ok b" and "snt \<in> set (listAmbiguousAwaitingReadBack now n k b)"
  shows "row b (o_id snt) = Some snt" "o_status snt = OutCancelled"
  using assms row_mem [of b snt]
  by (auto simp: listAmbiguousAwaitingReadBack_def awaits_read_back_def outbox_ok_def dest!: in_set_takeD)

lemma step_reading:
  assumes "relay_step s s'" and ok: "rows_ok (box (base s))" and "reading_ok s"
  shows "reading_ok s'"
  using assms(1)
proof cases
  case list_sends
  have o: "outbox_ok (box (base s))" using ok by (simp add: rows_ok_def)
  have "i < next_event_id (box (base s))" if "row (box (base s)) i = Some e" for i e
    using row_Some [OF that] o by (auto simp: outbox_ok_def list_all_iff)
  then show ?thesis using listed_cancelled [OF o] list_sends by (simp add: reading_ok_def)
qed (use reading_evolves [OF assms(3) step_evolves [OF assms]] in \<open>auto simp: put_simps\<close>)

lemma settled_stays: "moves_in R e e' \<Longrightarrow> o_status e \<in> settled \<Longrightarrow> o_id e \<notin> R \<Longrightarrow> o_status e' \<in> settled"
  by (auto simp: moves_in_def moves_def settled_def)

lemma taken_evolves:
  assumes "taken_ok s" and ev: "evolves R (box (base s)) (box (base s'))" and i: "i \<notin> exempt s" "i \<notin> R" "i \<in> set (taken s)"
  shows "i < next_event_id (box (base s')) \<and> (\<forall>e. row (box (base s')) i = Some e \<longrightarrow> o_status e \<in> settled)"
proof -
  have t: "i < next_event_id (box (base s))" "\<And>e. row (box (base s)) i = Some e \<Longrightarrow> o_status e \<in> settled"
    using assms(1) i(1,3) unfolding taken_ok_def by blast+
  have "o_status e' \<in> settled" if e': "row (box (base s')) i = Some e'" for e'
  proof -
    obtain e where e: "row (box (base s)) i = Some e" "moves_in R e e'" using evolves_Some [OF ev e' t(1)] by blast
    then show ?thesis using settled_stays [OF e(2) t(2) [OF e(1)]] row_Some [OF e(1)] i(2) by simp
  qed
  then show ?thesis using t(1) evolves_next [OF ev] by simp
qed

lemma step_taken_same:
  assumes "relay_step s s'" "rows_ok (box (base s))" "reading_ok s" "taken_ok s"
    and "taken s' = taken s" "exempt s \<subseteq> exempt s'"
  shows "taken_ok s'"
  unfolding taken_ok_def
proof (intro allI impI)
  fix i assume i: "i \<notin> exempt s'" "i \<in> set (taken s')"
  then have j: "i \<notin> exempt s" "i \<notin> replayed s'" "i \<in> set (taken s)" using assms(5,6) by (auto simp: exempt_def)
  then have "count_list (taken s) i = 1" using assms(4) by (simp add: taken_ok_def)
  with taken_evolves [OF assms(4) step_evolves [OF assms(1-3)] j] assms(5)
  show "count_list (taken s') i = 1 \<and> i < next_event_id (box (base s'))
    \<and> (\<forall>e. row (box (base s')) i = Some e \<longrightarrow> o_status e \<in> settled)" by simp
qed

text \<open>A request that ends: its row is still the worker's, so the row was not taken before, and it is
  settled now.\<close>

lemma step_taken_finish:
  assumes st: "relay_step s s'" and ok: "rows_ok (box (base s))" and "reading_ok s" and t: "taken_ok s" and f: "flights_ok s"
    and w: "in_flight (workers s w) = Some (ev, t0)" and a: "answers took a"
    and s': "taken s' = took_ids took (ce_id ev) @ taken s" "box (base s') = box (finishSend env w (relay_clock s) ev a (base s))"
      "exempt s' = exempt s"
  shows "taken_ok s'"
  unfolding taken_ok_def
proof (intro allI impI)
  fix i assume i: "i \<notin> exempt s'" "i \<in> set (taken s')"
  have old: "count_list (taken s) j = 1 \<and> j < next_event_id (box (base s'))
      \<and> (\<forall>e. row (box (base s')) j = Some e \<longrightarrow> o_status e \<in> settled)" if "j \<notin> exempt s" "j \<in> set (taken s)" for j
    using taken_evolves [OF t step_evolves [OF assms(1-3)], of j] t that s'(3) by (auto simp: taken_ok_def exempt_def)
  show "count_list (taken s') i = 1 \<and> i < next_event_id (box (base s'))
    \<and> (\<forall>e. row (box (base s')) i = Some e \<longrightarrow> o_status e \<in> settled)"
  proof (cases "took \<and> i = ce_id ev")
    case True
    moreover have "i \<notin> exempt s" using i(1) s'(3) by simp
    ultimately have "ce_id ev \<notin> overdue s" by (simp add: exempt_def)
    then obtain e where e: "row (box (base s)) i = Some e" "lease_owner e = Some w"
      using f w True unfolding flights_ok_def holds_def by blast
    then have "o_status e \<notin> settled" using holds_sending [OF ok e] by (simp add: settled_def)
    then have "i \<notin> set (taken s)" using t e(1) i(1) s'(3) by (auto simp: taken_ok_def)
    then have "count_list (taken s') i = 1" using True s'(1) by (simp add: took_ids_def)
    moreover have "fenced w (ce_id ev) settled (box (base s)) (box (base s'))"
      using fenced_took [OF ok] a True s'(2) by simp
    ultimately show ?thesis using e True row_Some [OF e(1)] ok
      by (auto simp: fenced_def written_def rows_ok_def outbox_ok_def list_all_iff)
  next
    case False
    then have "i \<in> set (taken s)" "count_list (taken s') i = count_list (taken s) i"
      using i(2) s'(1) by (auto simp: took_ids_def split: if_splits)
    with old i(1) s'(3) show ?thesis by simp
  qed
qed

lemma step_taken_lost:
  assumes "relay_step s s'" and "rows_ok (box (base s))" and "reading_ok s" and t: "taken_ok s"
    and s': "taken s' = took_ids took j @ taken s" "box (base s') = box (base s)" "exempt s' = insert j (exempt s)"
  shows "taken_ok s'"
  using t s' by (auto simp: taken_ok_def took_ids_def split: if_splits)

lemma step_taken:
  assumes "relay_step s s'" and inv: "relay_inv s"
  shows "taken_ok s'"
proof -
  have same: "taken s' = taken s \<Longrightarrow> exempt s \<subseteq> exempt s' \<Longrightarrow> taken_ok s'"
    using step_taken_same [OF assms(1)] inv by (simp add: relay_inv_def)
  from assms(1) show ?thesis
proof cases
  case (finish w evs ev t took a env)
  then show ?thesis using inv by (intro step_taken_finish [OF assms(1), of w ev t took a env])
    (auto simp: relay_inv_def put_simps exempt_def)
next
  case (write_failed w evs ev t took)
  then show ?thesis using inv by (intro step_taken_lost [OF assms(1), of took "ce_id ev"])
    (auto simp: relay_inv_def put_simps exempt_def)
next
  case (died_sending w ev t took)
  then show ?thesis using inv by (intro step_taken_lost [OF assms(1), of took "ce_id ev"])
    (auto simp: relay_inv_def put_simps exempt_def)
qed (rule same; force simp: put_simps exempt_def)+
qed

lemma flights_keep:
  assumes f: "flights_ok s" and c: "relay_clock s' = relay_clock s" and o: "overdue s \<subseteq> overdue s'"
    and sub: "\<And>w x. in_flight (workers s' w) = Some x \<Longrightarrow> in_flight (workers s w) = Some x"
    and h: "\<And>w i t l. in_flight (workers s' w) \<noteq> None \<Longrightarrow> relay_clock s \<le> t + SENDING_REAP_GRACE_MS \<Longrightarrow> t < l \<Longrightarrow>
      holds w i l (box (base s)) \<Longrightarrow> holds w i l (box (base s'))"
  shows "flights_ok s'"
  unfolding flights_ok_def
proof (intro allI impI)
  fix w ev t assume a: "in_flight (workers s' w) = Some (ev, t)" "ce_id ev \<notin> overdue s'"
  then obtain l where "relay_clock s \<le> t + SENDING_REAP_GRACE_MS" "t < l" "holds w (ce_id ev) l (box (base s))"
    using f sub [OF a(1)] o unfolding flights_ok_def by blast
  then show "relay_clock s' \<le> t + SENDING_REAP_GRACE_MS \<and> (\<exists>l. t < l \<and> holds w (ce_id ev) l (box (base s')))"
    using h [of w t l] a(1) c by auto
qed

lemma flights_tick:
  assumes "flights_ok s" and "0 \<le> d"
  shows "flights_ok (s\<lparr>relay_clock := relay_clock s + d, overdue := overdue s \<union> late_at (relay_clock s + d) (workers s)\<rparr>)"
  unfolding flights_ok_def
proof (intro allI impI)
  fix w ev t
  assume "in_flight (workers (s\<lparr>relay_clock := relay_clock s + d, overdue := overdue s \<union> late_at (relay_clock s + d) (workers s)\<rparr>) w) = Some (ev, t)"
    and "ce_id ev \<notin> overdue (s\<lparr>relay_clock := relay_clock s + d, overdue := overdue s \<union> late_at (relay_clock s + d) (workers s)\<rparr>)"
  then have w: "in_flight (workers s w) = Some (ev, t)" "ce_id ev \<notin> overdue s" "ce_id ev \<notin> late_at (relay_clock s + d) (workers s)"
    by simp_all
  then have "relay_clock s + d \<le> t + SENDING_REAP_GRACE_MS" by (fastforce simp: late_at_def)
  with assms w(1,2) show "relay_clock (s\<lparr>relay_clock := relay_clock s + d, overdue := overdue s \<union> late_at (relay_clock s + d) (workers s)\<rparr>)
      \<le> t + SENDING_REAP_GRACE_MS \<and>
    (\<exists>l. t < l \<and> holds w (ce_id ev) l (box (base (s\<lparr>relay_clock := relay_clock s + d, overdue := overdue s \<union> late_at (relay_clock s + d) (workers s)\<rparr>))))"
    unfolding flights_ok_def by simp
qed

lemma flights_start:
  assumes "flights_ok s" and ok: "rows_ok (box (base s))" and b: "beforeSend env w (relay_clock s) ev (base s) = Inr x"
  shows "flights_ok (put_worker w \<lparr> batch = evs, in_flight = Some (ev, relay_clock s) \<rparr> s)"
proof -
  have "0 \<le> SENDING_REAP_GRACE_MS" by (simp add: SENDING_REAP_GRACE_MS_def PLATFORM_REQUEST_TIMEOUT_MS_def)
  then show ?thesis
    using assms(1) before_holds_lease [OF b ok] by (auto simp: flights_ok_def put_simps holds_def)
qed

lemma step_flights:
  assumes "relay_step s s'" and inv: "relay_inv s"
  shows "flights_ok s'"
proof -
  have ok: "rows_ok (box (base s))" and f: "flights_ok s" and rd: "reading_ok s" using inv by (simp_all add: relay_inv_def)
  from assms(1) show ?thesis
  proof cases
    case (tick d)
    then show ?thesis using flights_tick [OF f] by simp
  next
    case (poll w env n secs evs b)
    show ?thesis
      by (rule flights_keep [OF f])
         (use poll claim_for_poll_cases [OF poll(3)] holds_claim [OF ok] in \<open>auto simp: put_simps split: if_splits\<close>)
  next
    case (guarded w ev evs env d)
    show ?thesis
      by (rule flights_keep [OF f])
         (use guarded fenced_before [OF ok guarded(3)] holds_fenced in \<open>auto simp: put_simps split: if_splits\<close>)
  next
    case (unsendable w ev evs env err)
    show ?thesis
      by (rule flights_keep [OF f])
         (use unsendable holds_fenced [OF fenced_handle [OF ok]] in \<open>auto simp: put_simps split: if_splits\<close>)
  next
    case (start w ev evs env rq)
    then show ?thesis using flights_start [OF f ok] by blast
  next
    case (finish w evs ev t took a env)
    show ?thesis
      by (rule flights_keep [OF f])
         (use finish holds_fenced [OF fenced_finish [OF ok]] in \<open>auto simp: put_simps split: if_splits\<close>)
  next
    case (reap n)
    show ?thesis
      by (rule flights_keep [OF f]) (use reap holds_reap [OF ok] in \<open>auto simp: put_simps\<close>)
  next
    case (read_back snt rest rd' outcome d)
    then have "row (box (base s)) (o_id snt) = Some e \<Longrightarrow> o_status e \<in> {OutCancelled, OutSent}" for e
      using rd by (simp add: reading_ok_def)
    note h = holds_resolve [OF ok _ this]
    obtain pid where "d = resolve (relay_clock s) snt outcome pid (base s)" using reconcile_box [OF read_back(3)] by blast
    then show ?thesis using read_back h by (intro flights_keep [OF f]) auto
  next
    case (replay mh md n c action d e)
    show ?thesis
      by (rule flights_keep [OF f]) (use replay holds_replay [OF ok _ replay(2,3)] in auto)
  qed (rule flights_keep [OF f]; force simp: put_simps resting_def holds_enqueue [OF ok] holds_sweep [OF ok] split: if_splits)+
qed

lemma step_inv: "relay_step s s' \<Longrightarrow> relay_inv s \<Longrightarrow> relay_inv s'"
  using step_evolves [of s s'] step_reading [of s s'] step_flights [of s s'] step_taken [of s s']
  by (auto simp: relay_inv_def evolves_def)

lemma run_inv: "relay_run s \<Longrightarrow> relay_inv s"
proof (induction rule: relay_run.induct)
  case relay_init
  show ?case
    by (simp add: relay_inv_def rows_ok_def outbox_ok_def empty_relay_def reading_ok_def flights_ok_def taken_ok_def resting_def)
qed (rule step_inv)

section \<open>A run\<close>

definition demo_channel :: channel where
  "demo_channel = \<lparr> ch_id = 3, ch_enterprise = 7, ch_connection = 5, ch_parent = None, ch_platform = Instagram,
     ch_platform_id = ''ig'', ch_token = Some ''sealed'', ch_token_status = TokenValid, ch_reauth = False,
     ch_managed = True, ch_deleted = False, ch_status = ChannelActive \<rparr>"

definition demo_message :: msg_row where
  "demo_message = \<lparr> m_id = 40, m_enterprise = 7, m_event = Some 1, m_platform_id = None, m_status = MsgPending, m_sent_at = None \<rparr>"

definition demo_env :: "rat \<Rightarrow> platform_answer \<Rightarrow> relay_env" where
  "demo_env pressure a = \<lparr> appPressure = 0, pressureFor = (\<lambda>_. pressure), decrypt = Some, draw = (\<lambda>_. 0), latency = (\<lambda>_. 1000),
     platform_call = (\<lambda>_. a) \<rparr>"

definition demo_relay :: relay_db where
  "demo_relay = \<lparr> box = snd (enqueue 0 (demo_send ''a'') \<lparr> events = [], next_event_id = 1 \<rparr>), messages = [demo_message],
     channels = [demo_channel], connections = [] \<rparr>"

definition demo_claim :: "ClaimedOutboundEvent list \<times> outbox" where
  "demo_claim = claimDueBatch ''w1'' 20 120 0 (box demo_relay)"

definition demo_sent :: ClaimedOutboundEvent where
  "demo_sent = claimed_event (out_grab ''w1'' 120000 (new_event 0 1 (demo_send ''a'')))"

definition demo_sending :: relay_state where
  "demo_sending = empty_relay\<lparr>base := demo_relay\<lparr>box := snd demo_claim\<rparr>,
     workers := (\<lambda>_. resting)(''w1'' := \<lparr> batch = [], in_flight = Some (demo_sent, 0) \<rparr>)\<rparr>"

definition demo_done :: relay_state where
  "demo_done = demo_sending\<lparr>base := finishSend (demo_env 0 (Accepted ''p1'')) ''w1'' 0 demo_sent (Accepted ''p1'') (base demo_sending),
     workers := (\<lambda>_. resting), taken := [1]\<rparr>"

lemma demo_claimed: "fst demo_claim = [demo_sent]"
  by code_simp

lemma demo_before: "isl (beforeSend (demo_env 0 a) ''w1'' 0 demo_sent (demo_relay\<lparr>box := snd demo_claim\<rparr>)) = False
    \<and> isl (projr (beforeSend (demo_env 0 a) ''w1'' 0 demo_sent (demo_relay\<lparr>box := snd demo_claim\<rparr>))) = False"
  unfolding demo_env_def by code_simp

lemma demo_sending_run: "relay_run demo_sending"
proof -
  let ?s1 = "empty_relay\<lparr>base := demo_relay\<rparr>" and ?e = "demo_env 0 (Accepted [])"
  let ?s2 = "put_worker ''w1'' \<lparr> batch = [demo_sent], in_flight = None \<rparr> (put_box (snd demo_claim) ?s1)"
  have s1: "relay_step empty_relay ?s1"
    using relay_step.api [of empty_relay "demo_send ''a''" "[demo_message]" "[demo_channel]" "[]"]
    by (simp add: empty_relay_def demo_relay_def)
  have "claim_for_poll ?e ''w1'' 20 120 (relay_clock ?s1) (box (base ?s1)) = ([demo_sent], snd demo_claim)"
    using demo_claimed by (simp add: claim_for_poll_def demo_env_def META_USAGE_SOFT_LIMIT_PCT_def demo_claim_def
        empty_relay_def prod_eq_iff)
  then have s2: "relay_step ?s1 ?s2" by (intro relay_step.poll) (auto simp: empty_relay_def)
  obtain rq where "beforeSend ?e ''w1'' (relay_clock ?s2) demo_sent (base ?s2) = Inr (Inr rq)"
    using demo_before [of "Accepted []"] by (auto simp: put_simps empty_relay_def isl_def sum.case_eq_if split: sum.splits)
      (metis projr_def sum.collapse(2) sum.exhaust_sel sum.disc(2) projl_def sum.sel(2))
  then have "relay_step ?s2 (put_worker ''w1'' \<lparr> batch = [], in_flight = Some (demo_sent, relay_clock ?s2) \<rparr> ?s2)"
    by (rule relay_step.start [rotated]) (simp add: put_simps)
  moreover have "put_worker ''w1'' \<lparr> batch = [], in_flight = Some (demo_sent, relay_clock ?s2) \<rparr> ?s2 = demo_sending"
    by (simp add: put_simps demo_sending_def empty_relay_def)
  ultimately show ?thesis using s1 s2 relay_init relay_next by metis
qed

lemma demo_done_step: "relay_step demo_sending demo_done"
proof -
  have "relay_step demo_sending (put_worker ''w1'' \<lparr> batch = [], in_flight = None \<rparr>
      (demo_sending\<lparr>base := finishSend (demo_env 0 (Accepted ''p1'')) ''w1'' (relay_clock demo_sending) demo_sent (Accepted ''p1'') (base demo_sending),
         taken := took_ids True (ce_id demo_sent) @ taken demo_sending\<rparr>))"
    by (rule relay_step.finish) (simp_all add: demo_sending_def answers_def)
  moreover have "ce_id demo_sent = 1" by code_simp
  ultimately show ?thesis
    by (simp add: put_simps demo_done_def demo_sending_def empty_relay_def took_ids_def resting_def fun_upd_def if_distrib cong: if_cong)
qed

section \<open>The properties\<close>

text \<open>C2: Across any number of relays, the platform accepts a queued send at most once. In every run, with
  processes dying, requests timing out, leases expiring, rows being reaped, swept and read back
  in any order, a row is accepted at most once unless one of the three cases the code names
  happened to it: its worker held the request for longer than the reaper's grace, the outcome
  could not be written back, or an agent replayed it.\<close>

theorem at_most_once_send:
  assumes "relay_run s" and "i \<notin> overdue s" and "i \<notin> unrecorded s" and "i \<notin> replayed s"
  shows "count_list (taken s) i \<le> 1"
proof (cases "i \<in> set (taken s)")
  case True
  with run_inv [OF assms(1)] assms(2-4) show ?thesis by (simp add: relay_inv_def taken_ok_def exempt_def)
qed (simp add: count_list_0_iff)

theorem at_most_once_send_witness: "taken demo_done = [1] \<and> count_list (taken demo_done) 1 \<le> 1"
proof -
  have "1 \<notin> overdue demo_done" "1 \<notin> unrecorded demo_done" "1 \<notin> replayed demo_done" "taken demo_done = [1]"
    by (simp_all add: demo_done_def demo_sending_def empty_relay_def)
  then show ?thesis using at_most_once_send [OF relay_next [OF demo_sending_run demo_done_step]] by blast
qed

text \<open>C16: The outbound ledger is a state machine. Whatever any process does, a row keeps its identity and
  moves along the arrows only: sent is final, a cancelled row can only turn out to have been
  sent, a dead letter comes back only when it is a hide or delete with replays left, each
  replay is counted, and only sent and cancelled rows are ever deleted.\<close>

theorem outbound_lifecycle:
  assumes "relay_run s" and "relay_step s s'" and "row (box (base s)) i = Some e"
  shows "case row (box (base s')) i of None \<Rightarrow> o_status e \<in> {OutSent, OutCancelled} | Some e' \<Rightarrow> moves e e'"
proof -
  have "evolves (replayed s') (box (base s)) (box (base s'))"
    using step_evolves [OF assms(2)] run_inv [OF assms(1)] by (simp add: relay_inv_def)
  then have "case row (box (base s)) i of None \<Rightarrow> i < next_event_id (box (base s)) \<longrightarrow> row (box (base s')) i = None
     | Some e \<Rightarrow> (case row (box (base s')) i of None \<Rightarrow> o_status e \<in> {OutSent, OutCancelled}
         | Some e' \<Rightarrow> moves_in (replayed s') e e')"
    by (simp add: evolves_def)
  then show ?thesis using assms(3) by (auto simp: moves_in_def split: option.splits)
qed

theorem outbound_lifecycle_witness:
  "map_option o_status (row (box (base demo_sending)) 1) = Some OutSending
   \<and> (case row (box (base demo_done)) 1 of None \<Rightarrow> False
      | Some e' \<Rightarrow> o_status e' = OutSent \<and> moves (the (row (box (base demo_sending)) 1)) e')"
proof -
  have d: "base demo_sending = demo_relay\<lparr>box := snd demo_claim\<rparr>"
    "base demo_done = finishSend (demo_env 0 (Accepted ''p1'')) ''w1'' 0 demo_sent (Accepted ''p1'') (demo_relay\<lparr>box := snd demo_claim\<rparr>)"
    by (simp_all add: demo_done_def demo_sending_def)
  have r: "map_option o_status (row (box (base demo_sending)) 1) = Some OutSending" unfolding d(1) by code_simp
  have "map_option o_status (row (box (base demo_done)) 1) = Some OutSent" unfolding d(2) demo_env_def by code_simp
  with r obtain e e' where e: "row (box (base demo_sending)) 1 = Some e" "row (box (base demo_done)) 1 = Some e'" "o_status e' = OutSent"
    by auto
  show ?thesis using r e outbound_lifecycle [OF demo_sending_run demo_done_step e(1)] by simp
qed

end
