(* ===== verification/Outbox_Agreement.thy ===== *)
theory Outbox_Agreement
  imports Outbox_Delivery
begin

text \<open>
  What an agent sees. A message shows the fate of its send, and the relay writes the two together
  (\<open>settle\<close>, \<open>settleMessage\<close>, \<open>recordDelivery\<close>): this theory shows that they agree after every
  delivery, where they do not, what the read-back may conclude, and that the reaper sets no bound
  on attempts.
\<close>

section \<open>Message and ledger row\<close>

text \<open>The messages as the row's final state demands: untouched while the send may still happen.\<close>

definition told :: "int \<Rightarrow> relay_db \<Rightarrow> outbound_event \<Rightarrow> msg_row list" where
  "told n store e =
     (case o_status e of
        OutSent \<Rightarrow> messages (recordDelivery (the (sent_at e)) n (o_id e) (platform_event_id e) MsgSent store)
      | OutCancelled \<Rightarrow> messages (recordDelivery 0 n (o_id e) None MsgFailed store)
      | OutDeadLetter \<Rightarrow> messages (recordDelivery 0 n (o_id e) None MsgFailed store)
      | _ \<Rightarrow> messages store)"

definition agrees :: "int \<Rightarrow> int \<Rightarrow> relay_db \<Rightarrow> relay_db \<Rightarrow> bool" where
  "agrees n i store store' \<longleftrightarrow>
     (\<exists>e'. row (box store') i = Some e' \<and> lease_owner e' = None \<and> o_status e' \<in> outcomes \<and> messages store' = told n store e')"

text \<open>The worker's situation: the row is leased to it and is the one it claimed.\<close>

definition at_work :: "string \<Rightarrow> ClaimedOutboundEvent \<Rightarrow> int \<Rightarrow> relay_db \<Rightarrow> bool" where
  "at_work w ev n store \<longleftrightarrow> rows_ok (box store) \<and> ce_enterprise ev = Some n
     \<and> (case row (box store) (ce_id ev) of None \<Rightarrow> False
        | Some e \<Rightarrow> lease_owner e = Some w \<and> claimed_event e = ev)"

lemma failed_time: "recordDelivery t n i pid MsgFailed store = recordDelivery t' n i pid MsgFailed store"
  by (simp add: recordDelivery_def)

lemma messages_box [simp]: "messages (recordDelivery t n i pid st (store\<lparr>box := b\<rparr>)) = messages (recordDelivery t n i pid st store)"
  by (simp add: recordDelivery_def)

lemma at_workE:
  assumes "at_work w ev n store"
  obtains e where "rows_ok (box store)" "row (box store) (ce_id ev) = Some e" "lease_owner e = Some w" "claimed_event e = ev"
    "o_status e = OutSending" "o_id e = ce_id ev" "ce_enterprise ev = Some n"
  using assms holds_sending [of "box store"] by (auto simp: at_work_def claimed_event_def split: option.splits)

text \<open>A fenced statement of a worker that is at work is applied.\<close>

lemma at_work_applied:
  assumes "at_work w ev n store" and guard: "\<And>e. lease_ok e \<Longrightarrow> ok e \<longleftrightarrow> lease_owner e = Some w" and id: "\<And>e. o_id (f e) = o_id e"
  obtains e where "row (box store) (ce_id ev) = Some e" "claimed_event e = ev" "o_id e = ce_id ev" "o_status e = OutSending"
    "fst (update_event (ce_id ev) ok f (box store))" "row (snd (update_event (ce_id ev) ok f (box store))) (ce_id ev) = Some (f e)"
proof -
  obtain e where e: "rows_ok (box store)" "row (box store) (ce_id ev) = Some e" "lease_owner e = Some w" "claimed_event e = ev"
    "o_status e = OutSending" "o_id e = ce_id ev" using at_workE [OF assms(1)] by metis
  have "ok e" using guard [OF rows_ok_row [OF e(1,2)]] e(3) by simp
  then show ?thesis using that [OF e(2,4,6,5)] e(1,2) applied_iff [of "box store" "ce_id ev" ok f] row_update_event [of f, OF id]
    by (simp add: rows_ok_def)
qed

lemma agrees_settle:
  assumes "at_work w ev n store"
  shows "agrees n (ce_id ev) store (settle w now (Some n) (ce_id ev) reason amb store)"
proof -
  let ?f = "\<lambda>e. (release e)\<lparr>o_status := OutCancelled, last_error := Some (slice_error reason), last_error_at := Some now\<rparr>"
    and ?g = "\<lambda>e. (release e)\<lparr>o_status := OutCancelled, last_error := Some (slice_error reason), last_error_at := Some now,
      o_metadata := (o_metadata e)\<lparr>ambiguous := True\<rparr>\<rparr>"
  obtain e where e: "o_id e = ce_id ev" "fst (cancel now (ce_id ev) w reason (box store))"
    "row (snd (cancel now (ce_id ev) w reason (box store))) (ce_id ev) = Some (?f e)"
    unfolding cancel_def by (rule at_work_applied [OF assms unsettled_guard, of ?f]) (auto simp: release_def)
  obtain e' where e': "o_id e' = ce_id ev" "fst (cancelAmbiguous now (ce_id ev) w reason (box store))"
    "row (snd (cancelAmbiguous now (ce_id ev) w reason (box store))) (ce_id ev) = Some (?g e')"
    unfolding cancelAmbiguous_def by (rule at_work_applied [OF assms unsettled_guard, of ?g]) (auto simp: release_def)
  show ?thesis using e e' failed_time [of now n "ce_id ev" None store 0]
    by (cases amb) (auto simp: agrees_def settle_def told_def case_prod_beta release_def outcomes_def)
qed

lemma agrees_failAttempt:
  assumes w: "at_work w ev n store" and "next = None \<longleftrightarrow> ce_max ev \<le> ce_attempts ev \<or> terminal"
  shows "agrees n (ce_id ev) store (failAttempt w now ev err next store)"
proof -
  let ?f = "\<lambda>e. let spent = next = None \<or> max_attempts e \<le> attempt_count e in
     (release e)\<lparr>o_status := (if spent then OutDeadLetter else OutFailed), dead_lettered_at := (if spent then Some now else None),
       last_error := Some (slice_error err), last_error_at := Some now, next_attempt_at := next\<rparr>"
  obtain e where e: "claimed_event e = ev" "o_id e = ce_id ev" "fst (markFailed now (ce_id ev) w err next (box store))"
    "row (snd (markFailed now (ce_id ev) w err next (box store))) (ce_id ev) = Some (?f e)"
    unfolding markFailed_def by (rule at_work_applied [OF w unsettled_guard, of ?f]) (auto simp: release_def Let_def)
  have "ce_enterprise ev = Some n" using w by (simp add: at_work_def)
  moreover have "ce_max ev = max_attempts e" "ce_attempts ev = attempt_count e" using e(1) by (auto simp: claimed_event_def)
  ultimately show ?thesis using e assms(2) failed_time [of now n "ce_id ev" None store 0]
    by (cases "next") (auto simp: agrees_def failAttempt_def settleMessage_def told_def case_prod_beta Let_def release_def outcomes_def)
qed

lemma agrees_afterSend:
  assumes w: "at_work w ev n store"
  shows "agrees n (ce_id ev) store (afterSend w now ev pid store)"
proof -
  let ?f = "\<lambda>e. (release e)\<lparr>o_status := OutSent, sent_at := Some now, platform_event_id := pid\<rparr>"
  obtain e where e: "o_id e = ce_id ev" "fst (markSent now (ce_id ev) w pid (box store))"
    "row (snd (markSent now (ce_id ev) w pid (box store))) (ce_id ev) = Some (?f e)"
    unfolding markSent_def by (rule at_work_applied [OF w refl, of ?f]) (auto simp: release_def)
  moreover have "ce_enterprise ev = Some n" using w by (simp add: at_work_def)
  ultimately show ?thesis by (auto simp: agrees_def afterSend_def told_def case_prod_beta release_def outcomes_def)
qed

definition rate_limited :: "int \<Rightarrow> int \<Rightarrow> string \<Rightarrow> int \<Rightarrow> outbound_event \<Rightarrow> outbound_event" where
  "rate_limited now retryAt err wait e = (let park = young now wait e in
     (release e)\<lparr>o_status := (if park then OutPending else OutDeadLetter),
       attempt_count := (if park then max (attempt_count e - 1) 0 else attempt_count e),
       dead_lettered_at := (if park then None else Some now),
       next_attempt_at := (if park then Some retryAt else None),
       last_error := Some (slice_error err), last_error_at := Some now\<rparr>)"

lemma rate_limited_at_work:
  assumes w: "at_work w ev n store"
  obtains e where "row (box store) (ce_id ev) = Some e" "claimed_event e = ev" "o_id e = ce_id ev"
    "row (snd (markRateLimited now (ce_id ev) w t err wait (box store))) (ce_id ev) = Some (rate_limited now t err wait e)"
    "fst (markRateLimited now (ce_id ev) w t err wait (box store)) = (if young now wait e then Parked else DeadLettered)"
proof -
  obtain e where e: "rows_ok (box store)" "row (box store) (ce_id ev) = Some e" "lease_owner e = Some w" "claimed_event e = ev"
    "o_status e = OutSending" "o_id e = ce_id ev" using at_workE [OF w] by metis
  have "find (\<lambda>f. o_id f = ce_id ev \<and> unsettled_by w f) (events (box store)) = Some e"
  proof -
    have d: "distinct (map o_id (events (box store)))" using e(1) by (simp add: rows_ok_def outbox_ok_def)
    have u: "unsettled_by w e" using e(3,5) by (simp add: unsettled_by_def)
    have m: "e \<in> set (events (box store))" using row_Some [OF e(2)] by simp
    obtain f where f: "find (\<lambda>f. o_id f = ce_id ev \<and> unsettled_by w f) (events (box store)) = Some f"
      using m u e(6) by (metis (mono_tags, lifting) find_None_iff not_Some_eq)
    from find_Some_iff_mem [OF this] have "f \<in> set (events (box store))" "o_id f = o_id e" using e(6) by auto
    then have "f = e" using distinct_map_eq [OF d] m by metis
    with f show ?thesis by simp
  qed
  moreover obtain e' where "row (box store) (ce_id ev) = Some e'"
    "row (snd (update_event (ce_id ev) (unsettled_by w) (rate_limited now t err wait) (box store))) (ce_id ev) = Some (rate_limited now t err wait e')"
    by (rule at_work_applied [OF w unsettled_guard, of "rate_limited now t err wait"]) (auto simp: rate_limited_def release_def Let_def)
  ultimately show ?thesis using that [OF e(2,4,6)] e(2)
    by (simp add: markRateLimited_def rate_limited_def [abs_def] case_prod_beta Let_def)
qed

lemma agrees_handle:
  assumes w: "at_work w ev n store"
  shows "agrees n (ce_id ev) store (handleSendFailure env w now ev failure store)"
proof (cases failure)
  case (Thrown m)
  show ?thesis unfolding handleSendFailure_def Thrown send_failure.case
    by (rule agrees_failAttempt [OF w, of _ False]) (simp add: scheduleRetry_def)
next
  case (GraphFailure e)
  have n: "ce_enterprise ev = Some n" using w by (simp add: at_work_def)
  have retry: "agrees n (ce_id ev) store (failAttempt w now ev m (scheduleRetry r (ce_attempts ev) (ce_max ev) now) store)" for m r
    by (rule agrees_failAttempt [OF w, of _ False]) (simp add: scheduleRetry_def)
  have dead: "agrees n (ce_id ev) store (failAttempt w now ev m None store)" for m
    by (rule agrees_failAttempt [OF w, of _ True]) simp
  have parked: "agrees n (ce_id ev) store
      (if fst (markRateLimited now (ce_id ev) w t m k (box store)) = DeadLettered
       then settleMessage now ev (store\<lparr>box := snd (markRateLimited now (ce_id ev) w t m k (box store))\<rparr>)
       else store\<lparr>box := snd (markRateLimited now (ce_id ev) w t m k (box store))\<rparr>)" for t m k
  proof -
    obtain e where "o_id e = ce_id ev"
      "row (snd (markRateLimited now (ce_id ev) w t m k (box store))) (ce_id ev) = Some (rate_limited now t m k e)"
      "fst (markRateLimited now (ce_id ev) w t m k (box store)) = (if young now k e then Parked else DeadLettered)"
      by (rule rate_limited_at_work [OF w, of now t m k]) blast
    then show ?thesis using n failed_time [of now n "ce_id ev" None store 0]
      by (cases "young now k e") (auto simp: agrees_def settleMessage_def told_def rate_limited_def release_def outcomes_def)
  qed
  have reauth: "agrees n (ce_id ev) store (settle w now (ce_enterprise ev) (ce_id ev) m b store')"
    if "box store' = box store" "messages store' = messages store" for store' m b
  proof -
    have "at_work w ev n store'" using w that by (simp add: at_work_def)
    from agrees_settle [OF this] have "agrees n (ce_id ev) store' (settle w now (ce_enterprise ev) (ce_id ev) m b store')"
      by (simp add: n)
    moreover have "told n store' = told n store" using that
      by (intro ext) (simp add: told_def recordDelivery_def split: OutboundEventStatus.split)
    ultimately show ?thesis by (simp add: agrees_def)
  qed
  show ?thesis using retry dead parked reauth [of store] reauth [of "markReauthRequired _ _ _ store"]
    by (simp add: handleSendFailure_def GraphFailure Let_def case_prod_beta markReauthRequired_def split: option.split)
qed


definition demo_store :: "int \<Rightarrow> relay_db" where
  "demo_store now = demo_relay\<lparr>box := snd (claimDueBatch ''w1'' 20 120 now (box demo_relay))\<rparr>"

lemma demo_at_work: "at_work ''w1'' demo_sent 7 (demo_store 0)" "at_work ''w1'' demo_sent 7 (demo_store 90000000)"
  unfolding at_work_def by code_simp+


section \<open>Where they part\<close>

text \<open>A reply that waits for its own account's allowance for a day dies without a word. The relay parks
  such a reply, and past 24 hours \<open>markRateLimited\<close> makes it a dead letter instead; its
  contract says that the caller must then settle the message, but this caller ignores the
  result, so the row is dead and every message keeps its status.\<close>

theorem pressure_dead_letter_strands_message:
  assumes w: "at_work w ev n store" and ch: "ce_channel ev = Some ch" and x: "findSendContext n ch (channels store) = Some x"
    and usable: "\<not> x_reauth x" "x_managed x" "truthy_text (x_token x)"
    and spent: "META_USAGE_SOFT_LIMIT_PCT \<le> pressureFor env (Some (x_platform_id x))"
    and old: "\<And>e. row (box store) (ce_id ev) = Some e \<Longrightarrow> created_at e + OUTBOUND_RATE_LIMIT_MAX_WAIT_MS \<le> now"
  shows "map_option o_status (row (box (deliver env w now ev store)) (ce_id ev)) = Some OutDeadLetter
    \<and> messages (deliver env w now ev store) = messages store"
proof -
  let ?err = "''this account's Meta allowance is '' @ show_int (math_round
      (max (pressureFor env (Some (x_platform_id x))) (pressureFor env (x_parent_platform_id x)))) @ ''% spent''"
    and ?t = "parkFor (draw env ev) OUTBOUND_RATE_LIMIT_PARK_MS now" and ?k = OUTBOUND_RATE_LIMIT_MAX_WAIT_MS
  have n: "ce_enterprise ev = Some n" using w by (simp add: at_work_def)
  have p: "META_USAGE_SOFT_LIMIT_PCT \<le> max (pressureFor env (Some (x_platform_id x))) q" for q
    using spent by (simp add: le_max_iff_disj)
  have d: "deliver env w now ev store = store\<lparr>box := snd (markRateLimited now (ce_id ev) w ?t ?err ?k (box store))\<rparr>"
    using n ch x usable p by (simp add: deliver_def beforeSend_def Let_def)
  obtain e where e: "row (box store) (ce_id ev) = Some e"
    "row (snd (markRateLimited now (ce_id ev) w ?t ?err ?k (box store))) (ce_id ev) = Some (rate_limited now ?t ?err ?k e)"
    by (rule rate_limited_at_work [OF w, of now ?t ?err ?k]) blast
  then show ?thesis using old [OF e(1)] by (simp add: d rate_limited_def young_def Let_def)
qed

theorem pressure_dead_letter_strands_message_witness:
  "map_option o_status (row (box (deliver (demo_env 90 (Accepted ''p1'')) ''w1'' 90000000 demo_sent (demo_store 90000000))) 1) = Some OutDeadLetter
   \<and> map m_status (messages (deliver (demo_env 90 (Accepted ''p1'')) ''w1'' 90000000 demo_sent (demo_store 90000000))) = [MsgPending]"
proof -
  let ?x = "\<lparr> x_channel = 3, x_connection = 5, x_platform = Instagram, x_platform_id = ''ig'', x_parent_platform_id = None,
     x_token = Some ''sealed'', x_reauth = False, x_managed = True \<rparr>"
  have c: "ce_id demo_sent = 1" "ce_channel demo_sent = Some 3" by code_simp+
  have x: "findSendContext 7 3 (channels (demo_store 90000000)) = Some ?x" by code_simp
  have m: "map m_status (messages (demo_store 90000000)) = [MsgPending]"
    "map_option created_at (row (box (demo_store 90000000)) 1) = Some 0" by code_simp+
  have "created_at e + OUTBOUND_RATE_LIMIT_MAX_WAIT_MS \<le> 90000000"
    if "row (box (demo_store 90000000)) (ce_id demo_sent) = Some e" for e
    using that m(2) c(1) by (simp add: OUTBOUND_RATE_LIMIT_MAX_WAIT_MS_def)
  then show ?thesis
    using pressure_dead_letter_strands_message [OF demo_at_work(2) c(2) x, of "demo_env 90 (Accepted ''p1'')" 90000000] m c
    by (simp add: truthy_text_def demo_env_def META_USAGE_SOFT_LIMIT_PCT_def)
qed

section \<open>The reaper counts nothing\<close>

text \<open>A worker that dies with the row in its hands: claim, death, the lease and its grace, reap.\<close>

lemma crash_cycle:
  assumes run: "relay_run s" and rest: "workers s = (\<lambda>_. resting)" and one: "events (box (base s)) = [e]"
    and e: "o_status e = OutPending" "due_at e \<le> relay_clock s"
  shows "\<exists>s'. relay_run s' \<and> workers s' = (\<lambda>_. resting) \<and> relay_clock s \<le> relay_clock s'
    \<and> events (box (base s')) = [e\<lparr>attempt_count := attempt_count e + 1, lease_owner := None, lease_expires_at := None\<rparr>]"
proof -
  let ?b = "box (base s)" and ?env = "demo_env 0 (Accepted [])"
  let ?c = "claimDueBatch ''w1'' 20 120 (relay_clock s) ?b"
  have due: "out_due (relay_clock s) e" using e by (simp add: out_due_def DUE_OUTBOUND_STATUSES_def)
  have grab: "events (snd ?c) = [out_grab ''w1'' (relay_clock s + 120000) e]"
    by (simp add: claimDueBatch_def claim_rows_def first_ids_def update_where_def one due Let_def)
  let ?s1 = "put_worker ''w1'' \<lparr> batch = fst ?c, in_flight = None \<rparr> (put_box (snd ?c) s)"
  let ?s2 = "put_worker ''w1'' resting ?s1"
  let ?s3 = "?s2\<lparr>relay_clock := relay_clock ?s2 + 200000, overdue := overdue ?s2 \<union> late_at (relay_clock ?s2 + 200000) (workers ?s2)\<rparr>"
  let ?s4 = "put_box (reclaimExpiredLeases (relay_clock ?s3) 20 (box (base ?s3))) ?s3"
  have "relay_step s ?s1"
    by (rule relay_step.poll [of s "''w1''" ?env 20 120])
       (simp_all add: rest claim_for_poll_def demo_env_def META_USAGE_SOFT_LIMIT_PCT_def)
  moreover have "relay_step ?s1 ?s2" by (rule relay_step.died) (simp add: put_simps)
  moreover have "relay_step ?s2 ?s3" by (rule relay_step.tick) simp
  moreover have "relay_step ?s3 ?s4" by (rule relay_step.reap)
  ultimately have "relay_run ?s4" using run relay_next by blast
  moreover have "out_lapsed (relay_clock ?s3) (out_grab ''w1'' (relay_clock s + 120000) e)"
    by (simp add: out_lapsed_def out_grab_def put_simps SENDING_REAP_GRACE_MS_def PLATFORM_REQUEST_TIMEOUT_MS_def)
  then have "events (box (base ?s4)) = [e\<lparr>attempt_count := attempt_count e + 1, lease_owner := None, lease_expires_at := None\<rparr>]"
    using e(1) by (simp add: put_simps grab reclaimExpiredLeases_def reclaim_rows_def update_where_def)
      (simp add: out_grab_def release_def)
  moreover have "workers ?s4 = (\<lambda>_. resting)" "relay_clock s \<le> relay_clock ?s4" by (simp_all add: put_simps rest fun_eq_iff)
  ultimately show ?thesis by blast
qed

lemma crash_loop:
  "\<exists>s e. relay_run s \<and> workers s = (\<lambda>_. resting) \<and> events (box (base s)) = [e] \<and> o_status e = OutPending
     \<and> due_at e \<le> relay_clock s \<and> attempt_count e = int k \<and> max_attempts e = MAX_SEND_ATTEMPTS"
proof (induction k)
  case 0
  let ?s = "empty_relay\<lparr>base := \<lparr> box = snd (enqueue 0 (demo_send ''a'') (box (base empty_relay))),
      messages = [], channels = [], connections = [] \<rparr>\<rparr>"
  have "relay_step empty_relay ?s" using relay_step.api [of empty_relay "demo_send ''a''" "[]" "[]" "[]"]
    by (simp add: empty_relay_def)
  then have "relay_run ?s" by (rule relay_next [OF relay_init])
  moreover have "events (box (base ?s)) = [new_event 0 1 (demo_send ''a'')]" "workers ?s = (\<lambda>_. resting)" "relay_clock ?s = 0"
    by (simp_all add: empty_relay_def enqueue_def)
  moreover have "o_status (new_event 0 1 (demo_send ''a'')) = OutPending" "due_at (new_event 0 1 (demo_send ''a'')) = 0"
    "attempt_count (new_event 0 1 (demo_send ''a'')) = 0" "max_attempts (new_event 0 1 (demo_send ''a'')) = MAX_SEND_ATTEMPTS"
    by (simp_all add: new_event_def demo_send_def due_at_def)
  ultimately show ?case by (metis of_nat_0 order_refl)
next
  case (Suc k)
  then obtain s e where s: "relay_run s" "workers s = (\<lambda>_. resting)" "events (box (base s)) = [e]" "o_status e = OutPending"
    "due_at e \<le> relay_clock s" "attempt_count e = int k" "max_attempts e = MAX_SEND_ATTEMPTS" by blast
  let ?e = "e\<lparr>attempt_count := attempt_count e + 1, lease_owner := None, lease_expires_at := None\<rparr>"
  obtain s' where "relay_run s'" "workers s' = (\<lambda>_. resting)" "relay_clock s \<le> relay_clock s'" "events (box (base s')) = [?e]"
    using crash_cycle [OF s(1-5)] by blast
  moreover have "o_status ?e = OutPending" "due_at ?e \<le> relay_clock s" "attempt_count ?e = int (Suc k)" "max_attempts ?e = MAX_SEND_ATTEMPTS"
    using s(4-7) by (simp_all add: due_at_def split: option.splits)
  ultimately show ?case by (meson order_trans)
qed

text \<open>The attempt budget of a send does not bound its attempts. \<open>MAX_SEND_ATTEMPTS\<close> is compared only when a
  failure is recorded; a worker that dies holding the row records none, and the reaper returns
  the row whatever its count. So for every number there is a run in which one row has been
  claimed that often and is still queued.\<close>

theorem reaped_attempts_unbounded:
  "\<exists>s e. relay_run s \<and> events (box (base s)) = [e] \<and> o_status e = OutPending \<and> attempt_count e = int k
     \<and> max_attempts e = MAX_SEND_ATTEMPTS"
  using crash_loop [of k] by blast

section \<open>What a read-back may conclude\<close>

text \<open>C22: A reply is called lost only on evidence. If the reconciler answers \<open>lost\<close>, the failure is at most a
  day old, the platform was asked and answered, and no comment it listed has the reply's text
  and was posted within ten minutes of the attempt; \<open>landed\<close> names one that has; in every other
  case the answer is \<open>unknown\<close>, the row stays as it was but for the mark, and so do the messages.\<close>

theorem read_back_needs_evidence:
  assumes "reconcileOne rd now snt store = Some (outcome, store')"
  shows "case outcome of
      Lost \<Rightarrow> now - the (last_error_at snt) \<le> SEND_READ_BACK_WINDOW_MS \<and> (\<exists>user token found. readBackCall rd snt user token = Some (Some found)
        \<and> list_all (\<lambda>c. \<not> matches rd (the (message (o_payload snt))) (the (last_error_at snt)) c) found)
    | Landed \<Rightarrow> (\<exists>user token found c. readBackCall rd snt user token = Some (Some found) \<and> c \<in> set found
        \<and> matches rd (the (message (o_payload snt))) (the (last_error_at snt)) c
        \<and> store' = resolve now snt Landed (Some (r_platform_id c)) store)
    | Unknown \<Rightarrow> messages store' = messages store
        \<and> map_option o_status (row (box store') (o_id snt)) = map_option o_status (row (box store) (o_id snt))"
proof -
  have u: "messages (resolve now snt Unknown None store) = messages store"
    by (simp add: resolve_def case_prod_beta)
  let ?f = "\<lambda>e. e\<lparr>o_metadata := (o_metadata e)\<lparr>readBack := Some Unknown, readBackAt := Some now\<rparr>\<rparr>"
  have id: "row (snd (update_event i ok ?f b)) i = map_option (\<lambda>e. if ok e then ?f e else e) (row b i)" for i ok b
    using row_update_event [of ?f i ok b i] by simp
  have r: "map_option o_status (row (box (resolve now snt Unknown None store)) (o_id snt)) = map_option o_status (row (box store) (o_id snt))"
    by (cases "row (box store) (o_id snt)") (simp_all add: resolve_def case_prod_beta markReadBackResolved_def id)
  show ?thesis using assms u r
    by (auto simp: reconcileOne_def Let_def findMatch_def find_None_all list_all_iff split: if_splits option.splits
        dest!: find_Some_iff_mem)
qed

definition demo_reader :: reader where
  "demo_reader = \<lparr> open_token = Some, date_parse = (\<lambda>_. Some 2000),
     listCommentReplies = (\<lambda>_ _. Some [\<lparr> r_platform_id = ''p9'', r_text = Some ''other'', r_timestamp = Some ''t'' \<rparr>]),
     listMentionedPostComments = (\<lambda>_ _ _. None), listMentionedMediaComments = (\<lambda>_ _ _. None) \<rparr>"

definition demo_cancelled :: relay_db where
  "demo_cancelled = deliver (demo_env 0 (Refused (fromTransport ''timeout''))) ''w1'' 0 demo_sent (demo_store 0)"

definition demo_unknown_send :: outbound_event where
  "demo_unknown_send = the (row (box demo_cancelled) 1)"

lemma demo_listed: "map o_id (listAmbiguousAwaitingReadBack 200000 SEND_RECONCILE_BATCH SEND_READ_BACK_DELAY_MS (box demo_cancelled)) = [1]"
  unfolding demo_cancelled_def demo_env_def by code_simp

lemma demo_lost: "map_option fst (reconcileOne demo_reader 200000 demo_unknown_send demo_cancelled) = Some Lost"
  unfolding demo_cancelled_def demo_env_def demo_reader_def demo_unknown_send_def by code_simp

theorem read_back_needs_evidence_witness:
  "map_option fst (reconcileOne demo_reader 200000 demo_unknown_send demo_cancelled) = Some Lost
   \<and> 200000 - the (last_error_at demo_unknown_send) \<le> SEND_READ_BACK_WINDOW_MS"
proof -
  obtain store' where "reconcileOne demo_reader 200000 demo_unknown_send demo_cancelled = Some (Lost, store')"
    using demo_lost by auto
  from read_back_needs_evidence [OF this] demo_lost show ?thesis by simp
qed

end
