(* ===== verification/Inbound_Ledger.thy ===== *)
theory Inbound_Ledger
  imports Outbox_Relay "HOL-Library.Multiset"
begin

text \<open>
  The inbound ledger and the worker that projects it: the table \<open>inbound_events\<close> with every
  statement of \<open>database/repositories/inbound-event.repository.ts\<close>, and the poll of
  \<open>workers/inbound-projector.worker.ts\<close>. The projectors and the reward engine are functions of the
  record \<open>projection_env\<close> on a domain state of any type; what a projector throws is the error
  text. A JSON payload is a value of any type too. Left out: \<open>notifyQueue\<close>, \<open>updated_at\<close> and the
  trace columns, as for the outbound ledger.

  \<open>inbound_run\<close> is every order of the statements of any number of workers, the reaper and the
  sweeper, with a ghost log of claims.
\<close>

section \<open>The table\<close>

datatype InboundEventStatus =
  InPending | InLeased | InProcessing | InProcessed | InFailed | InDeadLetter | InSkipped

datatype SourceKind = FromChannel | FromProviderConnection | FromSystem | FromKafkaTopic | FromQueue

record 'p inbound_event =
  in_id :: int
  in_enterprise :: "int option"
  in_channel :: "int option"
  in_source_kind :: SourceKind
  in_source_id :: "string option"
  in_platform :: Platform
  in_type :: InboundEventType
  in_platform_event_id :: "string option"
  in_dedup :: string
  in_correlation :: "string option"
  in_payload :: 'p
  in_priority :: int
  in_status :: InboundEventStatus
  in_lease_owner :: "string option"
  in_lease_expires :: "int option"
  in_attempts :: int
  in_max :: int
  in_next :: "int option"
  in_created :: int
  in_last_error :: "string option"
  in_last_error_at :: "int option"
  in_dead_at :: "int option"
  in_started :: "int option"
  in_processed :: "int option"
  in_received :: "int option"

record 'p inbound_table =
  in_rows :: "'p inbound_event list"
  in_next_id :: int

definition MAX_PROJECTION_ATTEMPTS :: int where "MAX_PROJECTION_ATTEMPTS = 5"

text \<open>The column default of \<open>max_attempts\<close>, which no statement of the inbound ledger overrides.\<close>

definition INBOUND_MAX_ATTEMPTS_DEFAULT :: int where "INBOUND_MAX_ATTEMPTS_DEFAULT = 3"

definition CLAIMABLE_INBOUND_STATUSES :: "InboundEventStatus list" where
  "CLAIMABLE_INBOUND_STATUSES = [InPending, InFailed]"

definition LEASED_INBOUND_STATUSES :: "InboundEventStatus list" where
  "LEASED_INBOUND_STATUSES = [InLeased, InProcessing]"

definition SETTLED_INBOUND_STATUSES :: "InboundEventStatus list" where
  "SETTLED_INBOUND_STATUSES = [InProcessed, InSkipped]"

section \<open>The statements\<close>

record 'p InboundEventInput =
  ni_enterprise :: "int option"
  ni_channel :: "int option"
  ni_source_kind :: SourceKind
  ni_source_id :: "string option"
  ni_platform :: Platform
  ni_type :: InboundEventType
  ni_platform_event_id :: "string option"
  ni_dedup :: string
  ni_correlation :: "string option"
  ni_payload :: 'p
  ni_received :: "int option"
  ni_priority :: "int option"

definition in_dedup_index :: "'p inbound_event \<Rightarrow> int \<times> string" where
  "in_dedup_index e = ((case in_enterprise e of None \<Rightarrow> 0 | Some n \<Rightarrow> n), in_dedup e)"

definition new_inbound :: "int \<Rightarrow> int \<Rightarrow> 'p InboundEventInput \<Rightarrow> 'p inbound_event" where
  "new_inbound now i inp =
     \<lparr> in_id = i, in_enterprise = ni_enterprise inp, in_channel = ni_channel inp, in_source_kind = ni_source_kind inp,
       in_source_id = ni_source_id inp, in_platform = ni_platform inp, in_type = ni_type inp,
       in_platform_event_id = ni_platform_event_id inp, in_dedup = ni_dedup inp, in_correlation = ni_correlation inp,
       in_payload = ni_payload inp, in_priority = (case ni_priority inp of None \<Rightarrow> PRIORITY_NORMAL | Some p \<Rightarrow> p),
       in_status = InPending, in_lease_owner = None, in_lease_expires = None, in_attempts = 0,
       in_max = INBOUND_MAX_ATTEMPTS_DEFAULT, in_next = Some now, in_created = now, in_last_error = None,
       in_last_error_at = None, in_dead_at = None, in_started = None, in_processed = None, in_received = ni_received inp \<rparr>"

text \<open>The result: the new id, or \<open>None\<close> for a duplicate.\<close>

definition insertIgnoringDuplicate :: "int \<Rightarrow> 'p InboundEventInput \<Rightarrow> 'p inbound_table \<Rightarrow> int option \<times> 'p inbound_table" where
  "insertIgnoringDuplicate now inp t =
     (let e = new_inbound now (in_next_id t) inp in
      if list_ex (\<lambda>f. in_dedup_index f = in_dedup_index e) (in_rows t) then (None, t)
      else (Some (in_next_id t), t\<lparr>in_rows := in_rows t @ [e], in_next_id := in_next_id t + 1\<rparr>))"

definition in_due_at :: "'p inbound_event \<Rightarrow> int" where
  "in_due_at e = (case in_next e of Some t \<Rightarrow> t | None \<Rightarrow> in_created e)"

definition in_due :: "int \<Rightarrow> 'p inbound_event \<Rightarrow> bool" where
  "in_due now e \<longleftrightarrow> in_status e \<in> set CLAIMABLE_INBOUND_STATUSES \<and> in_due_at e \<le> now"

definition in_order :: "'p inbound_event \<Rightarrow> int \<times> int \<times> int" where
  "in_order e = (in_priority e, in_due_at e, in_id e)"

text \<open>\<open>processing_started_at\<close> keeps the first claim; \<open>expires\<close> is \<open>now\<close> plus the lease.\<close>

definition in_grab :: "int \<Rightarrow> string \<Rightarrow> int \<Rightarrow> 'p inbound_event \<Rightarrow> 'p inbound_event" where
  "in_grab leaseMs owner now e = e\<lparr>in_status := InProcessing, in_lease_owner := Some owner,
     in_lease_expires := Some (now + leaseMs), in_attempts := in_attempts e + 1,
     in_started := (case in_started e of None \<Rightarrow> Some now | Some t \<Rightarrow> Some t)\<rparr>"

record 'p claimed_inbound =
  ci_id :: int
  ci_type :: InboundEventType
  ci_payload :: 'p
  ci_attempts :: int
  ci_priority :: int

definition claimed_inbound_of :: "'p inbound_event \<Rightarrow> 'p claimed_inbound" where
  "claimed_inbound_of e = \<lparr> ci_id = in_id e, ci_type = in_type e, ci_payload = in_payload e, ci_attempts = in_attempts e,
     ci_priority = in_priority e \<rparr>"

definition claimBatch :: "string \<Rightarrow> nat \<Rightarrow> int \<Rightarrow> int \<Rightarrow> 'p inbound_table \<Rightarrow> 'p claimed_inbound list \<times> 'p inbound_table" where
  "claimBatch owner limit leaseSeconds now t =
     (let grab = in_grab (leaseSeconds * 1000) owner now;
          taken = claimed_rows in_id (in_due now) in_order limit grab (in_rows t)
      in (sort_key (\<lambda>c. (ci_priority c, ci_id c)) (map claimed_inbound_of taken),
          t\<lparr>in_rows := claim_rows in_id (in_due now) in_order limit grab (in_rows t)\<rparr>))"

definition update_inbound ::
    "int \<Rightarrow> ('p inbound_event \<Rightarrow> bool) \<Rightarrow> ('p inbound_event \<Rightarrow> 'p inbound_event) \<Rightarrow> 'p inbound_table \<Rightarrow> bool \<times> 'p inbound_table" where
  "update_inbound i ok f t =
     (list_ex (\<lambda>e. in_id e = i \<and> ok e) (in_rows t),
      t\<lparr>in_rows := update_where (\<lambda>e. in_id e = i \<and> ok e) f (in_rows t)\<rparr>)"

definition in_release :: "'p inbound_event \<Rightarrow> 'p inbound_event" where
  "in_release e = e\<lparr>in_lease_owner := None, in_lease_expires := None\<rparr>"

definition markProcessed :: "int \<Rightarrow> int \<Rightarrow> string \<Rightarrow> 'p inbound_table \<Rightarrow> bool \<times> 'p inbound_table" where
  "markProcessed now i owner =
     update_inbound i (\<lambda>e. in_lease_owner e = Some owner)
       (\<lambda>e. (in_release e)\<lparr>in_status := InProcessed, in_processed := Some now\<rparr>)"

definition markEventSkipped :: "int \<Rightarrow> int \<Rightarrow> string \<Rightarrow> string \<Rightarrow> 'p inbound_table \<Rightarrow> bool \<times> 'p inbound_table" where
  "markEventSkipped now i owner reason =
     update_inbound i (\<lambda>e. in_lease_owner e = Some owner)
       (\<lambda>e. (in_release e)\<lparr>in_status := InSkipped, in_processed := Some now, in_last_error := Some reason\<rparr>)"

definition markProjectionFailed :: "int \<Rightarrow> int \<Rightarrow> string \<Rightarrow> string \<Rightarrow> int \<Rightarrow> 'p inbound_table \<Rightarrow> bool \<times> 'p inbound_table" where
  "markProjectionFailed now i owner err next =
     update_inbound i (\<lambda>e. in_lease_owner e = Some owner \<and> in_status e \<noteq> InProcessed)
       (\<lambda>e. let spent = in_max e \<le> in_attempts e in
          (in_release e)\<lparr>in_status := (if spent then InDeadLetter else InFailed),
            in_dead_at := (if spent then Some now else None), in_last_error := Some (slice_error err),
            in_last_error_at := Some now, in_next := Some next\<rparr>)"

definition in_lapsed :: "int \<Rightarrow> 'p inbound_event \<Rightarrow> bool" where
  "in_lapsed now e \<longleftrightarrow> in_status e \<in> set LEASED_INBOUND_STATUSES
     \<and> (case in_lease_expires e of None \<Rightarrow> False | Some t \<Rightarrow> t < now)"

text \<open>The dash of the error text is outside ASCII and written as a hyphen.\<close>

definition in_reap :: "int \<Rightarrow> 'p inbound_event \<Rightarrow> 'p inbound_event" where
  "in_reap now e = (let spent = in_max e \<le> in_attempts e in
     (in_release e)\<lparr>in_status := (if spent then InDeadLetter else InPending),
       in_dead_at := (if spent then Some now else None),
       in_last_error := (if spent then Some ''lease expired repeatedly without settling - the projection may be crashing the worker''
                         else in_last_error e),
       in_last_error_at := (if spent then Some now else in_last_error_at e)\<rparr>)"

definition reclaimInbound :: "int \<Rightarrow> nat \<Rightarrow> 'p inbound_table \<Rightarrow> 'p inbound_table" where
  "reclaimInbound now limit t = t\<lparr>in_rows := reclaim_rows in_id (in_lapsed now) limit (in_reap now) (in_rows t)\<rparr>"

definition deleteInboundBefore :: "int \<Rightarrow> nat \<Rightarrow> 'p inbound_table \<Rightarrow> 'p inbound_table" where
  "deleteInboundBefore cutoff limit t =
     t\<lparr>in_rows := delete_rows in_id (\<lambda>e. in_status e \<in> set SETTLED_INBOUND_STATUSES \<and> in_created e < cutoff)
       in_created limit (in_rows t)\<rparr>"

record projection_context =
  pc_enterprise_id :: int
  pc_channel_id :: int
  pc_platform :: Platform
  pc_platform_channel :: string
  pc_parent_channel :: "string option"

definition findProjectionContext :: "int \<Rightarrow> channel list \<Rightarrow> 'p inbound_table \<Rightarrow> projection_context option" where
  "findProjectionContext i cs t =
     (case find (\<lambda>e. in_id e = i) (in_rows t) of
        None \<Rightarrow> None
      | Some e \<Rightarrow>
          (case (in_enterprise e, in_channel e) of
             (Some n, Some ch) \<Rightarrow>
               (case find (\<lambda>c. ch_id c = ch \<and> ch_enterprise c = n) cs of
                  None \<Rightarrow> None
                | Some c \<Rightarrow>
                    let parent = find (\<lambda>p. ch_parent c = Some (ch_id p) \<and> ch_enterprise p = ch_enterprise c) cs in
                    Some \<lparr> pc_enterprise_id = n, pc_channel_id = ch, pc_platform = in_platform e,
                      pc_platform_channel = ch_platform_id c, pc_parent_channel = map_option ch_platform_id parent \<rparr>)
           | _ \<Rightarrow> None))"

section \<open>The projector's poll\<close>

record projector_input =
  pi_enterprise :: int
  pi_channel :: int
  pi_platform :: Platform
  pi_event :: int
  pi_own_ids :: "string list"
  pi_attempt :: int

record ('g, 'v) projection_outcome =
  projected :: bool
  not_projected_because :: "string option"
  offered :: "'g option"
  withdrawn :: "'v option"

text \<open>\<open>project\<close> is the registered projector of the type; \<open>onTrigger\<close> and \<open>onReversal\<close> are the domain
  state after the reward engine returned or threw, since the worker swallows what it throws.\<close>

record ('p, 'g, 'v, 'd) projection_env =
  project :: "InboundEventType \<Rightarrow> projector_input \<Rightarrow> 'p \<Rightarrow> 'd \<Rightarrow> (string + ('g, 'v) projection_outcome) \<times> 'd"
  onTrigger :: "'g \<Rightarrow> 'd \<Rightarrow> 'd"
  onReversal :: "'v \<Rightarrow> 'd \<Rightarrow> 'd"
  retry_draw :: rat

definition PROJECTED_TYPES :: "InboundEventType list" where
  "PROJECTED_TYPES = [InComment, InDirectMessage, InMention, InPostUpdate]"

definition offerToRewards :: "('p, 'g, 'v, 'd) projection_env \<Rightarrow> 'g option \<Rightarrow> 'd \<Rightarrow> 'd" where
  "offerToRewards env trigger d = (case trigger of None \<Rightarrow> d | Some g \<Rightarrow> onTrigger env g d)"

definition reverseRewards :: "('p, 'g, 'v, 'd) projection_env \<Rightarrow> 'v option \<Rightarrow> 'd \<Rightarrow> 'd" where
  "reverseRewards env reversal d = (case reversal of None \<Rightarrow> d | Some v \<Rightarrow> onReversal env v d)"

definition own_ids :: "projection_context \<Rightarrow> string list" where
  "own_ids c = pc_platform_channel c # (case pc_parent_channel c of None \<Rightarrow> [] | Some p \<Rightarrow> [p])"

definition projectEvent ::
    "('p, 'g, 'v, 'd) projection_env \<Rightarrow> string \<Rightarrow> int \<Rightarrow> channel list \<Rightarrow> 'p claimed_inbound \<Rightarrow> 'p inbound_table \<times> 'd \<Rightarrow> 'p inbound_table \<times> 'd" where
  "projectEvent env owner now cs ev s =
     (let (t, d) = s in
      if ci_type ev \<notin> set PROJECTED_TYPES then
        (snd (markEventSkipped now (ci_id ev) owner
           (''no projector registered for event_type \"'' @ inbound_type_text (ci_type ev) @ ''\"'') t), d)
      else case findProjectionContext (ci_id ev) cs t of
          None \<Rightarrow> (snd (markEventSkipped now (ci_id ev) owner ''the event names no enterprise or channel'' t), d)
        | Some c \<Rightarrow>
            let inp = \<lparr> pi_enterprise = pc_enterprise_id c, pi_channel = pc_channel_id c, pi_platform = pc_platform c,
                  pi_event = ci_id ev, pi_own_ids = own_ids c, pi_attempt = ci_attempts ev \<rparr>;
                (result, d') = project env (ci_type ev) inp (ci_payload ev) d
            in case result of
                 Inr outcome \<Rightarrow>
                   if projected outcome then
                     (snd (markProcessed now (ci_id ev) owner t),
                      reverseRewards env (withdrawn outcome) (offerToRewards env (offered outcome) d'))
                   else
                     (snd (markEventSkipped now (ci_id ev) owner
                        (case not_projected_because outcome of None \<Rightarrow> ''not projected'' | Some r \<Rightarrow> r) t), d')
               | Inl err \<Rightarrow>
                   let retryAt = (case scheduleRetry (retry_draw env) (ci_attempts ev) MAX_PROJECTION_ATTEMPTS now of
                         None \<Rightarrow> now | Some later \<Rightarrow> later)
                   in (snd (markProjectionFailed now (ci_id ev) owner err retryAt t), d'))"

definition pollInbound ::
    "('p, 'g, 'v, 'd) projection_env \<Rightarrow> string \<Rightarrow> nat \<Rightarrow> int \<Rightarrow> int \<Rightarrow> channel list \<Rightarrow> 'p inbound_table \<times> 'd \<Rightarrow> nat \<times> 'p inbound_table \<times> 'd" where
  "pollInbound env owner batchSize leaseSeconds now cs s =
     (let (claimed, t) = claimBatch owner batchSize leaseSeconds now (fst s)
      in (length claimed, fold (projectEvent env owner now cs) claimed (t, snd s)))"

section \<open>Every order of statements\<close>

text \<open>\<open>claims\<close> logs the ids each claim returned.\<close>

record 'p inbound_state =
  inq :: "'p inbound_table"
  in_clock :: int
  claims :: "int list"

inductive inbound_step :: "'p inbound_state \<Rightarrow> 'p inbound_state \<Rightarrow> bool" where
  in_tick: "0 \<le> d \<Longrightarrow> inbound_step s (s\<lparr>in_clock := in_clock s + d\<rparr>)"
| in_webhook: "inbound_step s (s\<lparr>inq := snd (insertIgnoringDuplicate (in_clock s) inp (inq s))\<rparr>)"
| in_claim: "claimBatch w n secs (in_clock s) (inq s) = (evs, t) \<Longrightarrow>
    inbound_step s (s\<lparr>inq := t, claims := map ci_id evs @ claims s\<rparr>)"
| in_done: "inbound_step s (s\<lparr>inq := snd (markProcessed (in_clock s) i w (inq s))\<rparr>)"
| in_skip: "inbound_step s (s\<lparr>inq := snd (markEventSkipped (in_clock s) i w reason (inq s))\<rparr>)"
| in_fail: "inbound_step s (s\<lparr>inq := snd (markProjectionFailed (in_clock s) i w err next (inq s))\<rparr>)"
| in_reaped: "inbound_step s (s\<lparr>inq := reclaimInbound (in_clock s) n (inq s)\<rparr>)"
| in_swept: "inbound_step s (s\<lparr>inq := deleteInboundBefore cutoff n (inq s)\<rparr>)"

inductive inbound_run :: "'p inbound_state \<Rightarrow> bool" where
  in_start: "inbound_run \<lparr> inq = \<lparr> in_rows = [], in_next_id = 1 \<rparr>, in_clock = 0, claims = [] \<rparr>"
| in_next_step: "inbound_run s \<Longrightarrow> inbound_step s s' \<Longrightarrow> inbound_run s'"

interpretation inbound_lease: lease_table in_id in_due in_order in_lease_owner "in_grab leaseMs"
  by unfold_locales (auto simp: in_grab_def in_due_def CLAIMABLE_INBOUND_STATUSES_def)

text \<open>A claimable row has attempts left, a leased one has used at least one, and the log agrees.\<close>

definition budget_ok :: "int list \<Rightarrow> 'p inbound_event \<Rightarrow> bool" where
  "budget_ok handed e \<longleftrightarrow> in_max e = INBOUND_MAX_ATTEMPTS_DEFAULT \<and> int (count_list handed (in_id e)) = in_attempts e
     \<and> in_attempts e \<le> in_max e \<and> (in_status e \<in> {InPending, InFailed} \<longrightarrow> in_attempts e < in_max e)
     \<and> (in_lease_owner e = None \<longleftrightarrow> in_status e \<noteq> InProcessing) \<and> (in_lease_expires e = None \<longleftrightarrow> in_lease_owner e = None)
     \<and> in_status e \<noteq> InLeased"

definition inbound_inv :: "'p inbound_state \<Rightarrow> bool" where
  "inbound_inv s \<longleftrightarrow> distinct (map in_id (in_rows (inq s))) \<and> 0 < in_next_id (inq s)
     \<and> (\<forall>e\<in>set (in_rows (inq s)). in_id e \<in> {1..<in_next_id (inq s)} \<and> budget_ok (claims s) e)
     \<and> (\<forall>i. int (count_list (claims s) i) \<le> INBOUND_MAX_ATTEMPTS_DEFAULT)
     \<and> set (claims s) \<subseteq> {1..<in_next_id (inq s)}"

lemma inv_update_where:
  assumes inv: "inbound_inv s" and id: "\<And>e. in_id (f e) = in_id e"
    and f: "\<And>e. P e \<Longrightarrow> budget_ok (claims s) e \<Longrightarrow> budget_ok (claims s) (f e)"
  shows "inbound_inv (s\<lparr>inq := (inq s)\<lparr>in_rows := update_where P f (in_rows (inq s))\<rparr>\<rparr>)"
proof -
  have "map in_id (update_where P f (in_rows (inq s))) = map in_id (in_rows (inq s))" by (simp add: map_update_where id)
  with inv f show ?thesis by (auto simp: inbound_inv_def set_update_where id)
qed

lemma inv_filter: "inbound_inv s \<Longrightarrow> inbound_inv (s\<lparr>inq := (inq s)\<lparr>in_rows := filter P (in_rows (inq s))\<rparr>\<rparr>)"
  by (auto simp: inbound_inv_def distinct_map intro: inj_on_subset)

lemma inv_insert:
  assumes "inbound_inv s"
  shows "inbound_inv (s\<lparr>inq := snd (insertIgnoringDuplicate now inp (inq s))\<rparr>)"
proof -
  have "budget_ok (claims s) (new_inbound now (in_next_id (inq s)) inp)"
    using assms by (auto simp: budget_ok_def new_inbound_def INBOUND_MAX_ATTEMPTS_DEFAULT_def inbound_inv_def
        count_list_0_iff)
  then show ?thesis using assms
    by (auto simp: inbound_inv_def insertIgnoringDuplicate_def Let_def new_inbound_def)
qed

lemma count_list_distinct: "distinct xs \<Longrightarrow> count_list xs x = (if x \<in> set xs then 1 else 0)"
  by (induction xs) auto

lemma claim_log:
  assumes "distinct (map in_id (in_rows t))" and "claimBatch w n secs now t = (evs, t')"
  shows "count_list (map ci_id evs) i = (if i \<in> set (first_ids in_id (in_due now) in_order n (in_rows t)) then 1 else 0)"
proof -
  let ?taken = "claimed_rows in_id (in_due now) in_order n (in_grab (secs * 1000) w now) (in_rows t)"
  have ev: "evs = sort_key (\<lambda>c. (ci_priority c, ci_id c)) (map claimed_inbound_of ?taken)"
    using assms(2) by (simp add: claimBatch_def Let_def)
  have ids: "set (map ci_id evs) = set (first_ids in_id (in_due now) in_order n (in_rows t))"
    using inbound_lease.claimed_ids [OF assms(1), of now n "secs * 1000" w now]
    by (simp add: ev claimed_inbound_of_def image_image)
  have "mset (map ci_id evs) = mset (map in_id ?taken)"
    by (simp add: ev multiset.map_comp comp_def claimed_inbound_of_def)
  moreover have "distinct (map in_id ?taken)"
    using assms(1) by (simp add: claimed_rows_def Let_def comp_def in_grab_def distinct_map_filter)
  ultimately have "distinct (map ci_id evs)" by (metis mset_eq_imp_distinct_iff)
  then show ?thesis using ids count_list_distinct by metis
qed

lemma inv_claim:
  assumes inv: "inbound_inv s" and c: "claimBatch w n secs (in_clock s) (inq s) = (evs, t)"
  shows "inbound_inv (s\<lparr>inq := t, claims := map ci_id evs @ claims s\<rparr>)"
proof -
  let ?ids = "first_ids in_id (in_due (in_clock s)) in_order n (in_rows (inq s))"
  let ?g = "in_grab (secs * 1000) w (in_clock s)"
  have d: "distinct (map in_id (in_rows (inq s)))" using inv by (simp add: inbound_inv_def)
  have t: "t = (inq s)\<lparr>in_rows := update_where (\<lambda>e. in_id e \<in> set ?ids) ?g (in_rows (inq s))\<rparr>"
    using c by (simp add: claimBatch_def claim_rows_def Let_def)
  note log = claim_log [OF d c]
  have due: "in_due (in_clock s) e" if "e \<in> set (in_rows (inq s))" "in_id e \<in> set ?ids" for e
    using first_ids_sub [OF that(2)] distinct_map_eq [OF d] that(1) by metis
  have less: "in_attempts e < in_max e \<and> budget_ok (claims s) e" if "e \<in> set (in_rows (inq s))" "in_id e \<in> set ?ids" for e
    using due [OF that] inv that(1) by (auto simp: inbound_inv_def budget_ok_def in_due_def CLAIMABLE_INBOUND_STATUSES_def)
  have rows: "budget_ok (map ci_id evs @ claims s) (if in_id e \<in> set ?ids then ?g e else e)" if e: "e \<in> set (in_rows (inq s))" for e
  proof (cases "in_id e \<in> set ?ids")
    case True
    then show ?thesis using less [OF e True] log [of "in_id e"] by (auto simp: budget_ok_def in_grab_def)
  next
    case False
    then show ?thesis using inv e log [of "in_id e"] by (auto simp: budget_ok_def inbound_inv_def)
  qed
  have "int (count_list (map ci_id evs @ claims s) i) \<le> INBOUND_MAX_ATTEMPTS_DEFAULT" for i
  proof (cases "i \<in> set ?ids")
    case True
    then obtain e where "e \<in> set (in_rows (inq s))" "in_id e = i" using first_ids_sub by metis
    with less [of e] True log [of i] show ?thesis by (auto simp: budget_ok_def)
  qed (use inv log [of i] in \<open>auto simp: inbound_inv_def\<close>)
  moreover have "set (map ci_id evs) \<subseteq> {1..<in_next_id (inq s)}"
  proof
    fix i assume "i \<in> set (map ci_id evs)"
    then have "count_list (map ci_id evs) i \<noteq> 0" by (simp only: count_list_0_iff) simp
    then have "i \<in> set ?ids" using log [of i] by (simp split: if_splits)
    then obtain e where "e \<in> set (in_rows (inq s))" "in_id e = i" using first_ids_sub by metis
    then show "i \<in> {1..<in_next_id (inq s)}" using inv by (auto simp: inbound_inv_def)
  qed
  moreover have "map in_id (in_rows t) = map in_id (in_rows (inq s))" by (simp add: t map_update_where in_grab_def)
  moreover have "in_id e \<in> {1..<in_next_id (inq s)} \<and> budget_ok (map ci_id evs @ claims s) e" if e: "e \<in> set (in_rows t)" for e
  proof -
    obtain f where f: "f \<in> set (in_rows (inq s))" "e = (if in_id f \<in> set ?ids then ?g f else f)"
      using e by (auto simp: t set_update_where)
    moreover have "in_id e = in_id f" by (simp add: f(2) in_grab_def)
    ultimately show ?thesis using rows [OF f(1)] inv by (auto simp: inbound_inv_def)
  qed
  moreover have "in_next_id t = in_next_id (inq s)" by (simp add: t)
  ultimately show ?thesis using inv by (simp add: inbound_inv_def)
qed

lemma in_id_release [simp]: "in_id (in_release e) = in_id e"
  by (simp add: in_release_def)

lemma budget_release:
  "budget_ok l e \<Longrightarrow> in_lease_owner e = Some w \<Longrightarrow>
     budget_ok l ((in_release e)\<lparr>in_status := InProcessed, in_processed := x\<rparr>)"
  "budget_ok l e \<Longrightarrow> in_lease_owner e = Some w \<Longrightarrow>
     budget_ok l ((in_release e)\<lparr>in_status := InSkipped, in_processed := x, in_last_error := y\<rparr>)"
  by (auto simp: budget_ok_def in_release_def)

lemma budget_fail:
  "budget_ok l e \<Longrightarrow> in_lease_owner e = Some w \<Longrightarrow>
     budget_ok l ((in_release e)\<lparr>in_status := InDeadLetter, in_dead_at := a, in_last_error := b, in_last_error_at := c, in_next := d\<rparr>)"
  "budget_ok l e \<Longrightarrow> in_lease_owner e = Some w \<Longrightarrow> \<not> in_max e \<le> in_attempts e \<Longrightarrow>
     budget_ok l ((in_release e)\<lparr>in_status := InFailed, in_dead_at := a, in_last_error := b, in_last_error_at := c, in_next := d\<rparr>)"
  by (auto simp: budget_ok_def in_release_def)

lemma budget_reap: "budget_ok l e \<Longrightarrow> in_status e = InProcessing \<Longrightarrow> budget_ok l (in_reap now e)"
  by (auto simp: budget_ok_def in_release_def in_reap_def Let_def)

lemma inv_reap:
  assumes inv: "inbound_inv s"
  shows "inbound_inv (s\<lparr>inq := reclaimInbound now n (inq s)\<rparr>)"
proof -
  let ?ids = "map in_id (take n (filter (in_lapsed now) (in_rows (inq s))))"
  have d: "distinct (map in_id (in_rows (inq s)))" using inv by (simp add: inbound_inv_def)
  have lapsed: "in_lapsed now e" if e: "e \<in> set (in_rows (inq s))" "in_id e \<in> set ?ids" for e
  proof -
    obtain f where "f \<in> set (in_rows (inq s))" "in_lapsed now f" "in_id f = in_id e"
      using e(2) by (auto dest!: in_set_takeD)
    then show ?thesis using distinct_map_eq [OF d] e(1) by metis
  qed
  have eq: "update_where (\<lambda>e. in_id e \<in> set ?ids) (in_reap now) (in_rows (inq s))
      = update_where (\<lambda>e. in_id e \<in> set ?ids \<and> in_lapsed now e) (in_reap now) (in_rows (inq s))"
    unfolding update_where_def by (rule map_cong [OF refl]) (meson lapsed)
  have "budget_ok l e \<Longrightarrow> in_lapsed now e \<Longrightarrow> budget_ok l (in_reap now e)" for l and e :: "'a inbound_event"
    by (rule budget_reap) (auto simp: in_lapsed_def LEASED_INBOUND_STATUSES_def budget_ok_def)
  then have "inbound_inv (s\<lparr>inq := (inq s)\<lparr>in_rows :=
      update_where (\<lambda>e. in_id e \<in> set ?ids \<and> in_lapsed now e) (in_reap now) (in_rows (inq s))\<rparr>\<rparr>)"
    by (intro inv_update_where [OF inv]) (auto simp: in_reap_def in_release_def Let_def)
  then show ?thesis by (simp only: reclaimInbound_def reclaim_rows_def Let_def eq)
qed

lemma inbound_step_inv: "inbound_step s s' \<Longrightarrow> inbound_inv s \<Longrightarrow> inbound_inv s'"
proof (induction rule: inbound_step.induct)
  case (in_tick d s)
  then show ?case by (simp add: inbound_inv_def)
next
  case (in_done s i w)
  then show ?case unfolding markProcessed_def update_inbound_def snd_conv
    by (intro inv_update_where) (auto intro: budget_release)
next
  case (in_skip s i w reason)
  then show ?case unfolding markEventSkipped_def update_inbound_def snd_conv
    by (intro inv_update_where) (auto intro: budget_release)
next
  case (in_fail s i w err "next")
  then show ?case unfolding markProjectionFailed_def update_inbound_def snd_conv Let_def
    by (intro inv_update_where) (auto intro: budget_fail)
next
  case (in_swept s cutoff n)
  then show ?case unfolding deleteInboundBefore_def delete_rows_def Let_def by (rule inv_filter)
qed (auto intro: inv_insert inv_claim inv_reap)

lemma inbound_run_inv: "inbound_run s \<Longrightarrow> inbound_inv s"
proof (induction rule: inbound_run.induct)
  case in_start
  show ?case by (simp add: inbound_inv_def INBOUND_MAX_ATTEMPTS_DEFAULT_def)
qed (rule inbound_step_inv)

section \<open>The properties\<close>

text \<open>C18: The work on an inbound event is bounded, whatever it does to the workers. In every order of
  claims, failures, crashes and reaps, an event is handed out at most three times and the row
  counts it truly; one that has been handed out three times is never due again; so the total
  number of hand-outs is at most three for each event that ever arrived.\<close>

theorem inbound_work_bounded:
  assumes "inbound_run s"
  shows "int (count_list (claims s) i) \<le> INBOUND_MAX_ATTEMPTS_DEFAULT
    \<and> int (length (claims s)) \<le> INBOUND_MAX_ATTEMPTS_DEFAULT * (in_next_id (inq s) - 1)
    \<and> list_all (\<lambda>e. in_attempts e = int (count_list (claims s) (in_id e))
        \<and> \<not> (in_attempts e = INBOUND_MAX_ATTEMPTS_DEFAULT \<and> in_due t e)) (in_rows (inq s))"
proof -
  let ?X = "{1..<in_next_id (inq s)}" and ?k = INBOUND_MAX_ATTEMPTS_DEFAULT
  note inv = inbound_run_inv [OF assms]
  have le: "int (count_list (claims s) j) \<le> ?k" for j using inv by (simp add: inbound_inv_def)
  have "int (length (claims s)) = (\<Sum>j\<in>?X. int (count_list (claims s) j))"
    using sum_count_set [of "claims s" ?X] inv by (simp add: inbound_inv_def flip: of_nat_sum)
  also have "\<dots> \<le> (\<Sum>j\<in>?X. ?k)" by (rule sum_mono) (rule le)
  also have "\<dots> = ?k * (in_next_id (inq s) - 1)" using inv by (simp add: inbound_inv_def)
  finally have "int (length (claims s)) \<le> ?k * (in_next_id (inq s) - 1)" .
  moreover have "in_attempts e = int (count_list (claims s) (in_id e)) \<and> \<not> (in_attempts e = ?k \<and> in_due t e)"
    if "e \<in> set (in_rows (inq s))" for e
    using inv that by (auto simp: inbound_inv_def budget_ok_def in_due_def CLAIMABLE_INBOUND_STATUSES_def)
  ultimately show ?thesis using le by (simp add: list_all_iff)
qed

text \<open>The third failure is final, although the worker believes in five. The projector computes the next
  attempt from \<open>MAX_PROJECTION_ATTEMPTS\<close>, and after three attempts it still gets a time; but the
  row was inserted with the column's default budget, so the same write makes it a dead letter.\<close>

theorem third_failure_is_final:
  assumes run: "inbound_run s" and e: "e \<in> set (in_rows (inq s))" "in_lease_owner e = Some w" "in_attempts e = 3"
  shows "(case scheduleRetry r (in_attempts e) MAX_PROJECTION_ATTEMPTS now of
      None \<Rightarrow> False
    | Some retryAt \<Rightarrow> fst (markProjectionFailed now (in_id e) w err retryAt (inq s))
        \<and> (case find (\<lambda>f. in_id f = in_id e) (in_rows (snd (markProjectionFailed now (in_id e) w err retryAt (inq s)))) of
             None \<Rightarrow> False | Some f \<Rightarrow> in_status f = InDeadLetter \<and> in_dead_at f = Some now))"
proof -
  note inv = inbound_run_inv [OF run]
  have b: "in_max e = 3" "in_status e = InProcessing"
    using inv e by (auto simp: inbound_inv_def budget_ok_def INBOUND_MAX_ATTEMPTS_DEFAULT_def)
  have d: "distinct (map in_id (in_rows (inq s)))" using inv by (simp add: inbound_inv_def)
  obtain f where f: "find (\<lambda>f. in_id f = in_id e) (in_rows (inq s)) = Some f"
    using e(1) by (metis (mono_tags, lifting) find_None_iff not_Some_eq)
  then have "f = e" using find_Some_iff_mem [OF f] distinct_map_eq [OF d] e(1) by metis
  moreover have "list_ex (\<lambda>g. in_id g = in_id e \<and> in_lease_owner g = Some w \<and> in_status g \<noteq> InProcessed) (in_rows (inq s))"
    using e b by (auto simp: list_ex_iff)
  ultimately show ?thesis using f e(2,3) b
    by (simp add: scheduleRetry_def MAX_PROJECTION_ATTEMPTS_def markProjectionFailed_def update_inbound_def find_update_where
        Let_def in_release_def)
qed

section \<open>A run\<close>

definition demo_webhook :: "unit InboundEventInput" where
  "demo_webhook = \<lparr> ni_enterprise = Some 7, ni_channel = Some 3, ni_source_kind = FromChannel, ni_source_id = None, ni_platform = Instagram,
     ni_type = InComment, ni_platform_event_id = Some ''17'', ni_dedup = ''instagram:comment:17'', ni_correlation = None, ni_payload = (),
     ni_received = None, ni_priority = None \<rparr>"

definition demo_handed :: "unit inbound_state \<Rightarrow> unit inbound_state" where
  "demo_handed s = s\<lparr>inq := snd (claimBatch ''w'' 5 60 (in_clock s) (inq s)),
     claims := map ci_id (fst (claimBatch ''w'' 5 60 (in_clock s) (inq s))) @ claims s\<rparr>"

definition demo_failed :: "unit inbound_state \<Rightarrow> unit inbound_state" where
  "demo_failed s = s\<lparr>inq := snd (markProjectionFailed (in_clock s) 1 ''w'' ''boom'' (in_clock s) (inq s))\<rparr>"

definition demo_arrived :: "unit inbound_state" where
  "demo_arrived = \<lparr> inq = snd (insertIgnoringDuplicate 0 demo_webhook \<lparr> in_rows = [], in_next_id = 1 \<rparr>), in_clock = 0, claims = [] \<rparr>"

definition demo_third :: "unit inbound_state" where
  "demo_third = demo_handed (demo_failed (demo_handed (demo_failed (demo_handed demo_arrived))))"

lemma demo_third_run: "inbound_run demo_third"
proof -
  have h: "inbound_run s \<Longrightarrow> inbound_run (demo_handed s)" for s
    unfolding demo_handed_def by (rule in_next_step [OF _ in_claim [OF prod.collapse [symmetric]]])
  have f: "inbound_run s \<Longrightarrow> inbound_run (demo_failed s)" for s
    unfolding demo_failed_def by (rule in_next_step [OF _ in_fail])
  have "inbound_run demo_arrived"
    using in_next_step [OF in_start in_webhook, of demo_webhook] by (simp add: demo_arrived_def)
  then show ?thesis unfolding demo_third_def by (intro h f)
qed

lemma demo_third_row: "map (\<lambda>e. (in_id e, in_lease_owner e, in_attempts e)) (in_rows (inq demo_third)) = [(1, Some ''w'', 3)]"
  by code_simp

theorem inbound_work_bounded_witness: "claims demo_third = [1, 1, 1] \<and> int (count_list (claims demo_third) 1) \<le> INBOUND_MAX_ATTEMPTS_DEFAULT"
proof -
  have "claims demo_third = [1, 1, 1]" by code_simp
  then show ?thesis using inbound_work_bounded [OF demo_third_run, of 1 0] by simp
qed

theorem third_failure_is_final_witness:
  "map in_attempts (in_rows (inq demo_third)) = [3]
   \<and> map in_status (in_rows (snd (markProjectionFailed 0 1 ''w'' ''boom'' 2000 (inq demo_third)))) = [InDeadLetter]"
proof -
  obtain e where e: "in_rows (inq demo_third) = [e]" "in_id e = 1" "in_lease_owner e = Some ''w''" "in_attempts e = 3"
    using demo_third_row by (auto simp: map_eq_Cons_conv)
  have "scheduleRetry 0 3 MAX_PROJECTION_ATTEMPTS 0 = Some 2000"
    by (simp add: scheduleRetry_def MAX_PROJECTION_ATTEMPTS_def nextAttemptAt_def nextAttemptDelayMs_def jittered_def exponential_ms_def
        RETRY_BASE_DELAY_MS_def RETRY_MAX_DELAY_MS_def)
  with third_failure_is_final [OF demo_third_run, where e = e and w = "''w''" and r = 0 and now = 0 and err = "''boom''"] e
  show ?thesis by (auto simp: markProjectionFailed_def update_inbound_def update_where_def in_release_def Let_def split: if_splits)
qed

end
