(* ===== verification/Effects.thy ===== *)
theory Effects
  imports Prelude
begin

text \<open>
  Requests whose writes stay. Outside a transaction every statement commits on its own, so a
  handler that throws leaves behind what it wrote before: a failed login is counted, a spent
  attempt stays spent. A request is therefore a function from a state to an error or a result
  \<^emph>\<open>and\<close> the state after it (type \<open>req\<close>). \<open>inTransaction\<close> runs a computation of \<open>Prelude\<close>, whose
  error takes its writes back.
\<close>

type_synonym ('e, 's, 'a) req = "'s \<Rightarrow> ('e + 'a) \<times> 's"

definition rret :: "'a \<Rightarrow> ('e, 's, 'a) req" where
  "rret x = (\<lambda>s. (Inr x, s))"

definition rthrow :: "'e \<Rightarrow> ('e, 's, 'a) req" where
  "rthrow e = (\<lambda>s. (Inl e, s))"

definition rbnd :: "('e, 's, 'a) req \<Rightarrow> ('a \<Rightarrow> ('e, 's, 'b) req) \<Rightarrow> ('e, 's, 'b) req" where
  "rbnd m f = (\<lambda>s. case m s of (Inl e, s') \<Rightarrow> (Inl e, s') | (Inr x, s') \<Rightarrow> f x s')"

definition rthen :: "('e, 's, 'a) req \<Rightarrow> ('e, 's, 'b) req \<Rightarrow> ('e, 's, 'b) req" where
  "rthen m n = rbnd m (\<lambda>_. n)"

definition rreads :: "('s \<Rightarrow> 'a) \<Rightarrow> ('e, 's, 'a) req" where
  "rreads f = (\<lambda>s. (Inr (f s), s))"

definition rwrites :: "('s \<Rightarrow> 's) \<Rightarrow> ('e, 's, unit) req" where
  "rwrites f = (\<lambda>s. (Inr (), f s))"

text \<open>One statement that answers and writes, such as \<open>UPDATE \<dots> RETURNING\<close>.\<close>

definition rstate :: "('s \<Rightarrow> 'a \<times> 's) \<Rightarrow> ('e, 's, 'a) req" where
  "rstate f = (\<lambda>s. case f s of (x, s') \<Rightarrow> (Inr x, s'))"

definition inTransaction :: "('e, 's, 'a) act \<Rightarrow> ('e, 's, 'a) req" where
  "inTransaction m = (\<lambda>s. case m s of Inl e \<Rightarrow> (Inl e, s) | Inr (x, s') \<Rightarrow> (Inr x, s'))"

text \<open>A check that throws before anything else happens.\<close>

definition rguard :: "bool \<Rightarrow> 'e \<Rightarrow> ('e, 's, unit) req" where
  "rguard ok e = (if ok then rret () else rthrow e)"

lemmas req_defs = rret_def rthrow_def rbnd_def rthen_def rreads_def rwrites_def rstate_def rguard_def

lemma inTransaction_simps [simp]:
  "m s = Inl e \<Longrightarrow> inTransaction m s = (Inl e, s)"
  "m s = Inr (x, s') \<Longrightarrow> inTransaction m s = (Inr x, s')"
  by (simp_all add: inTransaction_def)

section \<open>What a request does to the state, whatever its answer\<close>

text \<open>\<open>leads R m\<close>: however the run ends, the state after it is \<open>R\<close>-related to the state before.\<close>

definition leads :: "('s \<Rightarrow> 's \<Rightarrow> bool) \<Rightarrow> ('e, 's, 'a) req \<Rightarrow> bool" where
  "leads R m \<longleftrightarrow> (\<forall>s. R s (snd (m s)))"

lemma leadsI: "(\<And>s. R s (snd (m s))) \<Longrightarrow> leads R m"
  by (simp add: leads_def)

lemma leadsD: "leads R m \<Longrightarrow> R s (snd (m s))"
  by (simp add: leads_def)

lemma leadsD': "leads R m \<Longrightarrow> m s = (a, s') \<Longrightarrow> R s s'"
  by (metis leadsD snd_conv)

context preorder_rel
begin

lemma leads_rret: "leads R (rret x)"
  by (simp add: leads_def rret_def rel_refl)

lemma leads_rthrow: "leads R (rthrow e)"
  by (simp add: leads_def rthrow_def rel_refl)

lemma leads_rreads: "leads R (rreads f)"
  by (simp add: leads_def rreads_def rel_refl)

lemma leads_rguard: "leads R (rguard ok e)"
  by (simp add: rguard_def leads_rret leads_rthrow)

lemma leads_rwrites: "(\<And>s. R s (f s)) \<Longrightarrow> leads R (rwrites f)"
  by (simp add: leads_def rwrites_def)

lemma leads_rstate: "(\<And>s. R s (snd (f s))) \<Longrightarrow> leads R (rstate f)"
  by (simp add: leads_def rstate_def split_def)

lemma leads_rbnd: "leads R m \<Longrightarrow> (\<And>x. leads R (f x)) \<Longrightarrow> leads R (rbnd m f)"
  unfolding leads_def rbnd_def
  by (auto split: prod.split sum.split) (metis rel_trans snd_conv)+

lemma leads_rthen: "leads R m \<Longrightarrow> leads R n \<Longrightarrow> leads R (rthen m n)"
  by (simp add: rthen_def leads_rbnd)

lemma leads_inTransaction: "steps R m \<Longrightarrow> leads R (inTransaction m)"
  by (auto simp: leads_def inTransaction_def steps_def rel_refl split: sum.split)

lemma leads_if: "(b \<Longrightarrow> leads R m) \<Longrightarrow> (\<not> b \<Longrightarrow> leads R n) \<Longrightarrow> leads R (if b then m else n)"
  by simp

lemma leads_option:
  "(x = None \<Longrightarrow> leads R m) \<Longrightarrow> (\<And>y. x = Some y \<Longrightarrow> leads R (f y)) \<Longrightarrow>
   leads R (case x of None \<Rightarrow> m | Some y \<Rightarrow> f y)"
  by (cases x) simp_all

lemma leads_let: "leads R (f x) \<Longrightarrow> leads R (Let x f)"
  by simp

lemmas leads_rules = leads_rret leads_rthrow leads_rreads leads_rguard leads_rwrites leads_rstate
  leads_rbnd leads_rthen leads_inTransaction leads_if leads_option leads_let

end

text \<open>Keeping an invariant is the relation \<open>I s \<longrightarrow> I t\<close>.\<close>

abbreviation maintains :: "('s \<Rightarrow> bool) \<Rightarrow> ('e, 's, 'a) req \<Rightarrow> bool" where
  "maintains I \<equiv> leads (\<lambda>s t. I s \<longrightarrow> I t)"

interpretation implies: preorder_rel "\<lambda>s t. I s \<longrightarrow> I t" for I :: "'s \<Rightarrow> bool"
  by unfold_locales auto

lemma maintainsD: "maintains I m \<Longrightarrow> I s \<Longrightarrow> m s = (a, s') \<Longrightarrow> I s'"
  by (metis leadsD snd_conv)

text \<open>A read at the start of a run is the value there.\<close>

lemma rbnd_rreads: "rbnd (rreads f) g s = g (f s) s"
  by (simp add: rbnd_def rreads_def)

lemma rbnd_rstate: "rbnd (rstate f) g s = g (fst (f s)) (snd (f s))"
  by (simp add: rbnd_def rstate_def split_def)

lemma rthen_rwrites: "rthen (rwrites f) m s = m (f s)"
  by (simp add: rthen_def rbnd_def rwrites_def)

text \<open>A request on one table of a larger state.\<close>

definition zoom :: "('s \<Rightarrow> 't) \<Rightarrow> ('t \<Rightarrow> 's \<Rightarrow> 's) \<Rightarrow> ('e, 't, 'a) req \<Rightarrow> ('e, 's, 'a) req" where
  "zoom get put m = (\<lambda>s. case m (get s) of (r, t) \<Rightarrow> (r, put t s))"

lemma leads_zoom:
  assumes "leads Q m" and "\<And>s t. Q (get s) t \<Longrightarrow> R s (put t s)"
  shows "leads R (zoom get put m)"
  using assms by (simp add: leads_def zoom_def split_def)

text \<open>The way through a sequence that succeeds.\<close>

lemma rbnd_Inr:
  "rbnd m f s = (Inr y, t) \<longleftrightarrow> (\<exists>x s'. m s = (Inr x, s') \<and> f x s' = (Inr y, t))"
  by (auto simp: rbnd_def split: sum.splits prod.splits)

lemma rthen_Inr:
  "rthen m n s = (Inr y, t) \<longleftrightarrow> (\<exists>x s'. m s = (Inr x, s') \<and> n s' = (Inr y, t))"
  by (simp add: rthen_def rbnd_Inr)

lemma rguard_Inr: "rguard ok e s = (Inr x, t) \<longleftrightarrow> ok \<and> t = s"
  by (auto simp: rguard_def rret_def rthrow_def)

lemma rret_Inr: "rret x s = (Inr y, t) \<longleftrightarrow> y = x \<and> t = s"
  by (auto simp: rret_def)

lemma rthrow_Inr: "rthrow e s = (Inr y, t) \<longleftrightarrow> False"
  by (simp add: rthrow_def)

lemma rreads_Inr: "rreads f s = (Inr y, t) \<longleftrightarrow> y = f s \<and> t = s"
  by (auto simp: rreads_def)

lemma rwrites_Inr: "rwrites f s = (Inr y, t) \<longleftrightarrow> t = f s"
  by (auto simp: rwrites_def)

lemma rstate_Inr: "rstate f s = (Inr y, t) \<longleftrightarrow> f s = (y, t)"
  by (auto simp: rstate_def split: prod.splits)

lemma inTransaction_Inr: "inTransaction m s = (Inr x, t) \<longleftrightarrow> m s = Inr (x, t)"
  by (auto simp: inTransaction_def split: sum.splits)

lemma zoom_Inr: "zoom get put m s = (Inr x, t) \<longleftrightarrow> (\<exists>u. m (get s) = (Inr x, u) \<and> t = put u s)"
  by (auto simp: zoom_def split: prod.splits)

lemmas req_Inr = zoom_Inr rbnd_Inr rthen_Inr rguard_Inr rret_Inr rthrow_Inr rreads_Inr rwrites_Inr rstate_Inr inTransaction_Inr

end
