(* ===== verification/Verification_Store.thy ===== *)
theory Verification_Store
  imports Effects
begin

text \<open>
  Verification challenges: the rows (\<open>database/entities/verification.entity.ts\<close>), the statements of
  \<open>database/repositories/verification.repository.ts\<close>, the parameters per kind
  (\<open>config/verification.config.ts\<close>) and \<open>modules/auth/verification.service.ts\<close>.

  The public reference of a row is its id here; both are unique and never reused, which the
  counter \<open>v_next\<close> (the sequence of the table) stands for. \<open>is_deleted\<close> is written by nothing and
  left out. The keyed digest and the random source are parameters; a digest comparison is equality,
  which is what the constant-time comparison of equally long digests computes.
\<close>

section \<open>Rows and statements\<close>

datatype VerificationKind =
    FirstLogin | EmailVerification | MobileVerification | PasswordReset | EmployeeInvite
  | IdentifierChange | CustomerMobileVerification | CustomerEmailVerification

datatype VerificationSubjectKind = IdentitySubject | CustomerSubject

datatype DeliveryChannel = EmailChannel | SmsChannel | WhatsAppChannel

datatype VerificationSecretShape = NumericCode | TokenSecret

record verification =
  v_id :: int
  v_subjectKind :: VerificationSubjectKind
  v_identityId :: "int option"
  v_enterpriseId :: "int option"
  v_customerId :: "int option"
  v_customerIdentifierId :: "int option"
  v_kind :: VerificationKind
  v_channel :: DeliveryChannel
  v_destination :: string
  v_secretHash :: string
  v_expiresAt :: int
  v_consumedAt :: "int option"
  v_supersededAt :: "int option"
  v_attemptCount :: nat
  v_maxAttempts :: nat
  v_resendCount :: nat
  v_lastSentAt :: int
  v_createdAt :: int

record verification_table =
  v_rows :: "verification list"
  v_next :: int

datatype auth_error =
    VerificationNotFound
  | VerificationAlreadyPending
  | AuthCodeExpired
  | AuthCodeAttemptsExceeded
  | AuthCodeInvalid
  | AuthCodeAlreadyUsed
  | AuthResendTooSoon
  | AuthInvalidCredentials
  | AuthAccountDisabled
  | AuthAccountLocked int
  | AuthNoActiveEmployment
  | AuthSessionRevoked
  | AuthTokenInvalid
  | AuthTokenExpired
  | AuthEnterpriseNotSelected
  | UnknownEnterprise
  | EnterprisePendingActivation
  | EnterpriseSuspended
  | AlreadyEmployed
  | EmployeeMissing
  | RequestDenied "string list"
  | IllegalTransition
  | LastPlatformAdmin
  | FeatureNotEnabled string
  | EmailUnparseable
  | MobileUnparseable
  | CredentialMissing
  | AddressRegistered
  | DatabaseError

type_synonym 'a verification_req = "(auth_error, verification_table, 'a) req"

definition v_unsettled :: "verification \<Rightarrow> bool" where
  "v_unsettled v \<longleftrightarrow> v_consumedAt v = None \<and> v_supersededAt v = None"

definition coalesce0 :: "int option \<Rightarrow> int" where
  "coalesce0 x = (case x of None \<Rightarrow> 0 | Some i \<Rightarrow> i)"

text \<open>The key of the index \<open>verifications_live_uniq\<close>.\<close>

definition live_key :: "verification \<Rightarrow> int \<times> int \<times> VerificationKind \<times> string" where
  "live_key v = (coalesce0 (v_identityId v), coalesce0 (v_customerId v), v_kind v, v_destination v)"

definition update_rows :: "(verification \<Rightarrow> bool) \<Rightarrow> (verification \<Rightarrow> verification) \<Rightarrow>
    verification_table \<Rightarrow> verification_table" where
  "update_rows P f t = t\<lparr>v_rows := update_where P f (v_rows t)\<rparr>"

definition supersedeLive :: "int \<Rightarrow> int option \<Rightarrow> int option \<Rightarrow> VerificationKind \<Rightarrow> string \<Rightarrow>
    verification_table \<Rightarrow> verification_table" where
  "supersedeLive now identity customer kind destination =
     update_rows (\<lambda>v. live_key v = (coalesce0 identity, coalesce0 customer, kind, destination) \<and> v_unsettled v)
       (\<lambda>v. v\<lparr>v_supersededAt := Some now\<rparr>)"

record new_verification =
  n_subjectKind :: VerificationSubjectKind
  n_identityId :: "int option"
  n_enterpriseId :: "int option"
  n_customerId :: "int option"
  n_customerIdentifierId :: "int option"
  n_kind :: VerificationKind
  n_channel :: DeliveryChannel
  n_destination :: string

definition new_row :: "int \<Rightarrow> new_verification \<Rightarrow> string \<Rightarrow> int \<Rightarrow> nat \<Rightarrow> int \<Rightarrow> verification" where
  "new_row now inp secretHash expiresAt maxAttempts i =
     \<lparr>v_id = i, v_subjectKind = n_subjectKind inp, v_identityId = n_identityId inp,
      v_enterpriseId = n_enterpriseId inp, v_customerId = n_customerId inp,
      v_customerIdentifierId = n_customerIdentifierId inp, v_kind = n_kind inp, v_channel = n_channel inp,
      v_destination = n_destination inp, v_secretHash = secretHash, v_expiresAt = expiresAt,
      v_consumedAt = None, v_supersededAt = None, v_attemptCount = 0, v_maxAttempts = maxAttempts,
      v_resendCount = 0, v_lastSentAt = now, v_createdAt = now\<rparr>"

definition insert_verification :: "int \<Rightarrow> new_verification \<Rightarrow> string \<Rightarrow> int \<Rightarrow> nat \<Rightarrow>
    (auth_error, verification_table, verification) act" where
  "insert_verification now inp secretHash expiresAt maxAttempts t =
     (let v = new_row now inp secretHash expiresAt maxAttempts (v_next t) in
      if list_ex (\<lambda>w. v_unsettled w \<and> live_key w = live_key v) (v_rows t)
      then Inl VerificationAlreadyPending
      else Inr (v, t\<lparr>v_rows := v_rows t @ [v], v_next := v_next t + 1\<rparr>))"

text \<open>\<open>ORDER BY id DESC LIMIT 1\<close>.\<close>

definition newest :: "verification list \<Rightarrow> verification option" where
  "newest vs = (case sort_key (\<lambda>v. - v_id v) vs of [] \<Rightarrow> None | v # _ \<Rightarrow> Some v)"

definition findLiveByDestination :: "string \<Rightarrow> VerificationKind \<Rightarrow> verification_table \<Rightarrow> verification option" where
  "findLiveByDestination destination kind t =
     newest (filter (\<lambda>v. v_destination v = destination \<and> v_kind v = kind \<and> v_unsettled v) (v_rows t))"

definition findLiveByRefId :: "int \<Rightarrow> VerificationKind \<Rightarrow> verification_table \<Rightarrow> verification option" where
  "findLiveByRefId refId kind t = find (\<lambda>v. v_id v = refId \<and> v_kind v = kind \<and> v_unsettled v) (v_rows t)"

definition spendable :: "int \<Rightarrow> verification \<Rightarrow> bool" where
  "spendable i v \<longleftrightarrow> v_id v = i \<and> v_attemptCount v < v_maxAttempts v"

definition spendAttempt :: "int \<Rightarrow> verification_table \<Rightarrow> nat option \<times> verification_table" where
  "spendAttempt i t =
     (map_option (\<lambda>v. v_attemptCount v + 1) (find (spendable i) (v_rows t)),
      update_rows (spendable i) (\<lambda>v. v\<lparr>v_attemptCount := v_attemptCount v + 1\<rparr>) t)"

definition consumable :: "int \<Rightarrow> verification \<Rightarrow> bool" where
  "consumable i v \<longleftrightarrow> v_id v = i \<and> v_unsettled v"

definition consume :: "int \<Rightarrow> int \<Rightarrow> verification_table \<Rightarrow> bool \<times> verification_table" where
  "consume now i t =
     (length (filter (consumable i) (v_rows t)) = 1,
      update_rows (consumable i) (\<lambda>v. v\<lparr>v_consumedAt := Some now\<rparr>) t)"

definition countSentToDestinationSince :: "string \<Rightarrow> int \<Rightarrow> verification_table \<Rightarrow> nat" where
  "countSentToDestinationSince destination since t =
     length (filter (\<lambda>v. v_destination v = destination \<and> since \<le> v_createdAt v) (v_rows t))"

definition recordResend :: "int \<Rightarrow> int \<Rightarrow> verification_table \<Rightarrow> verification_table" where
  "recordResend now i = update_rows (\<lambda>v. v_id v = i)
     (\<lambda>v. v\<lparr>v_resendCount := v_resendCount v + 1, v_lastSentAt := now\<rparr>)"

text \<open>The retention sweep: two statements, each with a \<open>LIMIT\<close> and no order; the model takes the
  first rows of the table.\<close>

definition delete_some :: "('a \<Rightarrow> bool) \<Rightarrow> nat \<Rightarrow> 'a list \<Rightarrow> 'a list" where
  "delete_some P limit xs = (let doomed = take limit (filter P xs) in filter (\<lambda>x. x \<notin> set doomed) xs)"

definition consumed_before :: "int \<Rightarrow> verification \<Rightarrow> bool" where
  "consumed_before cutoff v \<longleftrightarrow> (case v_consumedAt v of None \<Rightarrow> False | Some t \<Rightarrow> t < cutoff)"

definition unconsumed_expired_before :: "int \<Rightarrow> verification \<Rightarrow> bool" where
  "unconsumed_expired_before cutoff v \<longleftrightarrow> v_consumedAt v = None \<and> v_expiresAt v < cutoff"

definition sweepVerifications :: "int \<Rightarrow> nat \<Rightarrow> verification_table \<Rightarrow> verification_table" where
  "sweepVerifications cutoff limit t =
     t\<lparr>v_rows := delete_some (unconsumed_expired_before cutoff) limit
        (delete_some (consumed_before cutoff) limit (v_rows t))\<rparr>"

section \<open>Parameters per kind\<close>

record VerificationKindConfig =
  c_secretShape :: VerificationSecretShape
  c_secretSize :: nat
  c_expiryMs :: int
  c_maxAttempts :: nat
  c_resendCooldownMs :: int
  c_hourlyDestinationCap :: nat

definition MINUTE :: int where "MINUTE = 60000"
definition HOUR :: int where "HOUR = 60 * MINUTE"
definition DAY :: int where "DAY = 24 * HOUR"

definition code_config :: "int \<Rightarrow> VerificationKindConfig" where
  "code_config expiryMs = \<lparr>c_secretShape = NumericCode, c_secretSize = 6, c_expiryMs = expiryMs,
     c_maxAttempts = 5, c_resendCooldownMs = 60000, c_hourlyDestinationCap = 5\<rparr>"

definition token_config :: "int \<Rightarrow> VerificationKindConfig" where
  "token_config expiryMs = \<lparr>c_secretShape = TokenSecret, c_secretSize = 32, c_expiryMs = expiryMs,
     c_maxAttempts = 3, c_resendCooldownMs = 5 * MINUTE, c_hourlyDestinationCap = 3\<rparr>"

fun VERIFICATION_CONFIG :: "VerificationKind \<Rightarrow> VerificationKindConfig" where
  "VERIFICATION_CONFIG FirstLogin = code_config (10 * MINUTE)"
| "VERIFICATION_CONFIG EmailVerification = code_config (24 * HOUR)"
| "VERIFICATION_CONFIG MobileVerification = code_config (10 * MINUTE)"
| "VERIFICATION_CONFIG IdentifierChange = code_config (10 * MINUTE)"
| "VERIFICATION_CONFIG PasswordReset = token_config (30 * MINUTE)"
| "VERIFICATION_CONFIG EmployeeInvite = code_config (7 * DAY)"
| "VERIFICATION_CONFIG CustomerMobileVerification = code_config (10 * MINUTE)"
| "VERIFICATION_CONFIG CustomerEmailVerification = code_config (24 * HOUR)"

section \<open>The service\<close>

text \<open>What the service is given: the keyed digest and the delivery switch of the configuration. The
  secret that the random source would give is an argument of each request.\<close>

record secret_env =
  hashSecret :: "string \<Rightarrow> string"
  realtimeEnabled :: bool
  staticCode :: string

definition verifySecret :: "secret_env \<Rightarrow> string \<Rightarrow> string \<Rightarrow> bool" where
  "verifySecret env storedHash submitted \<longleftrightarrow> storedHash = hashSecret env submitted"

definition mintSecret :: "secret_env \<Rightarrow> VerificationSecretShape \<Rightarrow> string \<Rightarrow> string" where
  "mintSecret env shape random =
     (if realtimeEnabled env \<or> shape \<noteq> NumericCode then random else staticCode env)"

text \<open>\<open>shared/utils/normalize\<close>: what of a destination an answer shows.\<close>

definition maskEmail :: "string \<Rightarrow> string" where
  "maskEmail address =
     (let back = rev address;
          domain = rev (takeWhile (\<lambda>c. c \<noteq> CHR ''@'') back);
          local = rev (drop 1 (dropWhile (\<lambda>c. c \<noteq> CHR ''@'') back));
          visible = take (min 2 (length local)) local
      in if CHR ''@'' \<notin> set address \<or> local = [] then ''***''
         else visible @ replicate (max 3 (length local - length visible)) (CHR ''*'') @ CHR ''@'' # domain)"

definition maskMobile :: "string \<Rightarrow> string" where
  "maskMobile canonical =
     (if length canonical < 7 then ''***''
      else take 5 canonical @ ''***'' @ drop (length canonical - 4) canonical)"

definition maskDestination :: "string \<Rightarrow> DeliveryChannel \<Rightarrow> string" where
  "maskDestination destination channel =
     (if channel = EmailChannel then maskEmail destination else maskMobile destination)"

record pending_delivery =
  pd_verificationRefId :: int
  pd_channel :: DeliveryChannel
  pd_destination :: string
  pd_purpose :: VerificationKind
  pd_otpCode :: string
  pd_expiresInSeconds :: int

record issued_verification =
  iv_verificationRefId :: int
  iv_maskedDestination :: string
  iv_deliveryChannel :: DeliveryChannel
  iv_expiresInSeconds :: int
  iv_delivery :: pending_delivery

definition assertWithinDestinationCap :: "int \<Rightarrow> string \<Rightarrow> nat \<Rightarrow> unit verification_req" where
  "assertWithinDestinationCap now destination cap =
     rbnd (rreads (countSentToDestinationSince destination (now - 60 * 60 * 1000)))
       (\<lambda>sent. if cap \<le> sent then rthrow AuthResendTooSoon else rret ())"

definition replace_live :: "int \<Rightarrow> new_verification \<Rightarrow> string \<Rightarrow> int \<Rightarrow> nat \<Rightarrow>
    (auth_error, verification_table, verification) act" where
  "replace_live now inp secretHash expiresAt maxAttempts =
     andThen (modifies (supersedeLive now (n_identityId inp) (n_customerId inp) (n_kind inp) (n_destination inp)))
       (insert_verification now inp secretHash expiresAt maxAttempts)"

definition issueVerification :: "secret_env \<Rightarrow> int \<Rightarrow> string \<Rightarrow> new_verification \<Rightarrow>
    issued_verification verification_req" where
  "issueVerification env now random inp =
     (let params = VERIFICATION_CONFIG (n_kind inp);
          secret = mintSecret env (c_secretShape params) random;
          seconds = c_expiryMs params div 1000
      in rthen (assertWithinDestinationCap now (n_destination inp) (c_hourlyDestinationCap params))
         (rbnd (inTransaction (replace_live now inp (hashSecret env secret) (now + c_expiryMs params) (c_maxAttempts params)))
           (\<lambda>created. rret
             \<lparr>iv_verificationRefId = v_id created,
              iv_maskedDestination = maskDestination (n_destination inp) (n_channel inp),
              iv_deliveryChannel = n_channel inp, iv_expiresInSeconds = seconds,
              iv_delivery = \<lparr>pd_verificationRefId = v_id created, pd_channel = n_channel inp,
                pd_destination = n_destination inp, pd_purpose = n_kind inp, pd_otpCode = secret,
                pd_expiresInSeconds = seconds\<rparr>\<rparr>)))"

record verified_subject =
  vs_identityId :: "int option"
  vs_customerId :: "int option"
  vs_enterpriseId :: "int option"
  vs_destination :: string

definition subject_of :: "verification \<Rightarrow> verified_subject" where
  "subject_of v = \<lparr>vs_identityId = v_identityId v, vs_customerId = v_customerId v,
     vs_enterpriseId = v_enterpriseId v, vs_destination = v_destination v\<rparr>"

text \<open>\<open>verify\<close> in the order of its statements: the snapshot, the spent attempt, the comparison
  against the snapshot, the single use.\<close>

definition verifySubmitted :: "secret_env \<Rightarrow> int \<Rightarrow> int \<Rightarrow> string \<Rightarrow> VerificationKind \<Rightarrow>
    verified_subject verification_req" where
  "verifySubmitted env now refId submitted expectedKind =
     rbnd (rreads (findLiveByRefId refId expectedKind)) (\<lambda>found.
     case found of
       None \<Rightarrow> rthrow VerificationNotFound
     | Some v \<Rightarrow>
         if v_expiresAt v \<le> now then rthrow AuthCodeExpired
         else rbnd (rstate (spendAttempt (v_id v))) (\<lambda>attempts.
           case attempts of
             None \<Rightarrow> rthrow AuthCodeAttemptsExceeded
           | Some n \<Rightarrow>
               if \<not> verifySecret env (v_secretHash v) submitted
               then rthrow (if v_maxAttempts v \<le> n then AuthCodeAttemptsExceeded else AuthCodeInvalid)
               else rbnd (rstate (consume now (v_id v))) (\<lambda>consumed.
                 if consumed then rret (subject_of v) else rthrow AuthCodeAlreadyUsed)))"

definition verifyByDestination :: "secret_env \<Rightarrow> int \<Rightarrow> string \<Rightarrow> string \<Rightarrow> VerificationKind \<Rightarrow>
    verified_subject verification_req" where
  "verifyByDestination env now destination submitted expectedKind =
     rbnd (rreads (findLiveByDestination destination expectedKind)) (\<lambda>found.
     case found of
       None \<Rightarrow> rthrow VerificationNotFound
     | Some v \<Rightarrow> verifySubmitted env now (v_id v) submitted expectedKind)"

definition resend :: "secret_env \<Rightarrow> int \<Rightarrow> string \<Rightarrow> string \<Rightarrow> VerificationKind \<Rightarrow> DeliveryChannel \<Rightarrow>
    pending_delivery option verification_req" where
  "resend env now random destination kind channel =
     rbnd (rreads (findLiveByDestination destination kind)) (\<lambda>found.
     case found of
       None \<Rightarrow> rret None
     | Some v \<Rightarrow>
         if now - v_lastSentAt v < c_resendCooldownMs (VERIFICATION_CONFIG kind) then rret None
         else rbnd (issueVerification env now random
             \<lparr>n_subjectKind = v_subjectKind v, n_identityId = v_identityId v, n_enterpriseId = v_enterpriseId v,
              n_customerId = v_customerId v, n_customerIdentifierId = v_customerIdentifierId v,
              n_kind = kind, n_channel = channel, n_destination = destination\<rparr>) (\<lambda>issued.
           rthen (rwrites (recordResend now (v_id v))) (rret (Some (iv_delivery issued)))))"

section \<open>The table\<close>

lemma newest_mem: "newest vs = Some v \<Longrightarrow> v \<in> set vs"
proof -
  assume "newest vs = Some v"
  then obtain ws where "sort_key (\<lambda>v. - v_id v) vs = v # ws" by (auto simp: newest_def split: list.splits)
  then have "v \<in> set (sort_key (\<lambda>v. - v_id v) vs)" by (metis list.set_intros(1))
  then show ?thesis by simp
qed

lemma findLiveByDestination_mem:
  "findLiveByDestination d k t = Some v \<Longrightarrow> v \<in> set (v_rows t) \<and> v_destination v = d \<and> v_kind v = k \<and> v_unsettled v"
  unfolding findLiveByDestination_def by (drule newest_mem) simp

definition vrow :: "verification_table \<Rightarrow> int \<Rightarrow> verification option" where
  "vrow t i = find (\<lambda>v. v_id v = i) (v_rows t)"

definition vtable_ok :: "verification_table \<Rightarrow> bool" where
  "vtable_ok t \<longleftrightarrow> distinct (map v_id (v_rows t)) \<and> list_all (\<lambda>v. v_id v < v_next t) (v_rows t)
     \<and> distinct (map live_key (filter v_unsettled (v_rows t)))"

lemma vrow_mem: "vrow t i = Some v \<Longrightarrow> v \<in> set (v_rows t) \<and> v_id v = i"
  using find_Some_iff_mem [of "\<lambda>v. v_id v = i"] by (simp add: vrow_def)

lemma vrow_of_mem: "vtable_ok t \<Longrightarrow> v \<in> set (v_rows t) \<Longrightarrow> vrow t (v_id v) = Some v"
  unfolding vtable_ok_def vrow_def
  by (cases "find (\<lambda>w. v_id w = v_id v) (v_rows t)")
    (auto simp: find_None_all dest!: find_Some_iff_mem dest: distinct_map_eq [of v_id])

lemma vrow_fresh: "vtable_ok t \<Longrightarrow> vrow t (v_next t) = None"
  using vrow_mem [of t "v_next t"] by (cases "vrow t (v_next t)") (auto simp: vtable_ok_def list_all_iff)

lemma vrow_update_rows:
  assumes "\<And>v. v_id (f v) = v_id v"
  shows "vrow (update_rows P f t) i = map_option (\<lambda>v. if P v then f v else v) (vrow t i)"
  using assms by (simp add: vrow_def update_rows_def find_update_where)

lemma filter_find_key:
  assumes "distinct (map k xs)"
  shows "filter (\<lambda>x. k x = i \<and> P x) xs =
    (case find (\<lambda>x. k x = i) xs of None \<Rightarrow> [] | Some x \<Rightarrow> if P x then [x] else [])"
  using assms
proof (induction xs)
  case (Cons a xs)
  show ?case
  proof (cases "k a = i")
    case True
    have "k x \<noteq> i" if "x \<in> set xs" for x
      using distinct_map_Cons_neq [OF Cons.prems that] True by simp
    then have "filter (\<lambda>x. k x = i \<and> P x) xs = []" by (simp add: filter_empty_conv)
    with True show ?thesis by simp
  next
    case False
    with Cons show ?thesis by simp
  qed
qed simp

lemma find_unique_key:
  assumes "distinct (map k xs)"
  shows "find (\<lambda>x. k x = i \<and> P x) xs = (case find (\<lambda>x. k x = i) xs of None \<Rightarrow> None | Some x \<Rightarrow> if P x then Some x else None)"
  using filter_find_key [OF assms, of i P] by (simp add: find_map_filter [of "\<lambda>x. k x = i \<and> P x"] split: option.splits)

lemma find_spendable:
  assumes "vtable_ok t"
  shows "find (spendable i) (v_rows t) =
    (case vrow t i of None \<Rightarrow> None | Some v \<Rightarrow> if v_attemptCount v < v_maxAttempts v then Some v else None)"
proof -
  have "spendable i = (\<lambda>v. v_id v = i \<and> v_attemptCount v < v_maxAttempts v)"
    by (simp add: fun_eq_iff spendable_def)
  with assms find_unique_key [of v_id "v_rows t" i "\<lambda>v. v_attemptCount v < v_maxAttempts v"]
  show ?thesis by (simp add: vtable_ok_def vrow_def)
qed

lemma findLiveByRefId_row:
  assumes "vtable_ok t" and "findLiveByRefId i k t = Some v"
  shows "vrow t i = Some v" "v_id v = i" "v_kind v = k" "v_unsettled v"
proof -
  from assms(2) have "v \<in> set (v_rows t) \<and> v_id v = i \<and> v_kind v = k \<and> v_unsettled v"
    unfolding findLiveByRefId_def by (rule find_Some_iff_mem)
  with vrow_of_mem [OF assms(1)] show "vrow t i = Some v" "v_id v = i" "v_kind v = k" "v_unsettled v"
    by auto
qed

lemma consume_ok:
  assumes "vtable_ok t"
  shows "fst (consume now i t) \<longleftrightarrow> (case vrow t i of None \<Rightarrow> False | Some v \<Rightarrow> v_unsettled v)"
proof -
  have "consumable i = (\<lambda>v. v_id v = i \<and> v_unsettled v)" by (simp add: fun_eq_iff consumable_def)
  with assms filter_find_key [of v_id "v_rows t" i v_unsettled]
  show ?thesis by (simp add: consume_def vtable_ok_def vrow_def split: option.splits)
qed

text \<open>A statement that settles rows, or changes neither keys nor marks, keeps the table.\<close>

lemma distinct_filter_update:
  assumes "distinct (map k (filter P xs))" and "\<And>x. k (f x) = k x" and "\<And>x. P (f x) \<Longrightarrow> P x"
  shows "distinct (map k (filter P (update_where Q f xs)))"
  using assms(1)
proof (induction xs)
  case (Cons a xs)
  have sub: "k ` {x \<in> set (update_where Q f xs). P x} \<subseteq> k ` {x \<in> set xs. P x}"
    using assms(2,3) by (auto simp: set_update_where image_iff split: if_splits)
  have tl: "distinct (map k (filter P (update_where Q f xs)))"
    using Cons by (auto split: if_splits)
  have step: "update_where Q f (a # xs) = (if Q a then f a else a) # update_where Q f xs"
    by (simp add: update_where_def)
  show ?case
  proof (cases "P (if Q a then f a else a)")
    case True
    then have "P a" using assms(3) by (auto split: if_splits)
    with Cons.prems have "k a \<notin> k ` {x \<in> set xs. P x}" by auto
    with sub have "k a \<notin> k ` {x \<in> set (update_where Q f xs). P x}" by blast
    with True tl assms(2) step show ?thesis by auto
  next
    case False
    with tl step show ?thesis by simp
  qed
qed (simp add: update_where_def)

lemma vtable_ok_update_rows:
  assumes "vtable_ok t" and "\<And>v. v_id (f v) = v_id v" and "\<And>v. live_key (f v) = live_key v"
    and "\<And>v. v_unsettled (f v) \<Longrightarrow> v_unsettled v"
  shows "vtable_ok (update_rows P f t)"
proof -
  have "list_all (\<lambda>v. v_id v < v_next t) (update_where P f (v_rows t))"
    using assms(1,2) by (auto simp: vtable_ok_def list_all_iff set_update_where)
  moreover have "distinct (map live_key (filter v_unsettled (update_where P f (v_rows t))))"
    using assms(1,3,4) by (intro distinct_filter_update) (auto simp: vtable_ok_def)
  ultimately show ?thesis
    using assms(1,2) by (simp add: vtable_ok_def update_rows_def map_update_where)
qed

lemma vtable_ok_supersede: "vtable_ok t \<Longrightarrow> vtable_ok (supersedeLive now i c k d t)"
  unfolding supersedeLive_def by (rule vtable_ok_update_rows) (auto simp: live_key_def v_unsettled_def)

lemma vtable_ok_spend: "vtable_ok t \<Longrightarrow> vtable_ok (snd (spendAttempt i t))"
  unfolding spendAttempt_def snd_conv
  by (rule vtable_ok_update_rows) (auto simp: live_key_def v_unsettled_def)

lemma vtable_ok_consume: "vtable_ok t \<Longrightarrow> vtable_ok (snd (consume now i t))"
  unfolding consume_def snd_conv
  by (rule vtable_ok_update_rows) (auto simp: live_key_def v_unsettled_def)

lemma vtable_ok_resend: "vtable_ok t \<Longrightarrow> vtable_ok (recordResend now i t)"
  unfolding recordResend_def by (rule vtable_ok_update_rows) (auto simp: live_key_def v_unsettled_def)

lemma insert_verification_Inr:
  "insert_verification now inp h e m t = Inr (v, t') \<longleftrightarrow>
     v = new_row now inp h e m (v_next t) \<and> t' = t\<lparr>v_rows := v_rows t @ [v], v_next := v_next t + 1\<rparr>
     \<and> \<not> list_ex (\<lambda>w. v_unsettled w \<and> live_key w = live_key v) (v_rows t)"
  by (auto simp: insert_verification_def Let_def)

lemma new_row_fields [simp]:
  "v_id (new_row now inp h e m i) = i" "v_unsettled (new_row now inp h e m i)"
  "v_attemptCount (new_row now inp h e m i) = 0" "v_maxAttempts (new_row now inp h e m i) = m"
  "v_consumedAt (new_row now inp h e m i) = None" "v_createdAt (new_row now inp h e m i) = now"
  "v_destination (new_row now inp h e m i) = n_destination inp"
  "v_identityId (new_row now inp h e m i) = n_identityId inp" "v_kind (new_row now inp h e m i) = n_kind inp"
  "v_enterpriseId (new_row now inp h e m i) = n_enterpriseId inp"
  "v_secretHash (new_row now inp h e m i) = h" "v_expiresAt (new_row now inp h e m i) = e"
  "v_lastSentAt (new_row now inp h e m i) = now"
  "live_key (new_row now inp h e m i) = (coalesce0 (n_identityId inp), coalesce0 (n_customerId inp), n_kind inp, n_destination inp)"
  by (simp_all add: new_row_def v_unsettled_def live_key_def)

lemma vtable_ok_insert:
  assumes "vtable_ok t" and "insert_verification now inp h e m t = Inr (v, t')"
  shows "vtable_ok t'"
  using assms by (auto simp: insert_verification_Inr vtable_ok_def list_all_iff list_ex_iff)

text \<open>Superseding first is what makes the insert never collide.\<close>

lemma replace_live_total:
  assumes "vtable_ok t"
  obtains t' where "replace_live now inp h e m t = Inr (new_row now inp h e m (v_next t), t')" "vtable_ok t'"
    "v_rows t' = v_rows (supersedeLive now (n_identityId inp) (n_customerId inp) (n_kind inp) (n_destination inp) t)
       @ [new_row now inp h e m (v_next t)]" "v_next t' = v_next t + 1"
proof -
  let ?s = "supersedeLive now (n_identityId inp) (n_customerId inp) (n_kind inp) (n_destination inp) t"
  let ?v = "new_row now inp h e m (v_next t)"
  have nx: "v_next ?s = v_next t" by (simp add: supersedeLive_def update_rows_def)
  have none: "\<not> list_ex (\<lambda>w. v_unsettled w \<and> live_key w = live_key ?v) (v_rows ?s)"
    by (auto simp: supersedeLive_def update_rows_def list_ex_iff set_update_where v_unsettled_def split: if_splits)
  have ins: "insert_verification now inp h e m ?s = Inr (?v, ?s\<lparr>v_rows := v_rows ?s @ [?v], v_next := v_next t + 1\<rparr>)"
    using none by (simp add: insert_verification_Inr nx)
  have "vtable_ok (?s\<lparr>v_rows := v_rows ?s @ [?v], v_next := v_next t + 1\<rparr>)"
    using vtable_ok_insert [OF vtable_ok_supersede [OF assms] ins] .
  moreover have "replace_live now inp h e m t = Inr (?v, ?s\<lparr>v_rows := v_rows ?s @ [?v], v_next := v_next t + 1\<rparr>)"
    using ins by (simp add: replace_live_def andThen_def bnd_def modifies_def)
  ultimately show thesis using that by simp
qed

lemma replace_live_Inr:
  assumes "vtable_ok t" and "replace_live now inp h e m t = Inr (v, t')"
  shows "v = new_row now inp h e m (v_next t)" "vtable_ok t'"
    "v_rows t' = v_rows (supersedeLive now (n_identityId inp) (n_customerId inp) (n_kind inp) (n_destination inp) t) @ [v]"
    "v_next t' = v_next t + 1"
  using replace_live_total [OF assms(1), of now inp h e m] assms(2) by auto

lemma delete_some_filter: "\<exists>R. delete_some Q n xs = filter R xs"
  unfolding delete_some_def Let_def by blast

lemma distinct_delete_some:
  assumes "distinct (map k (filter P xs))"
  shows "distinct (map k (filter P (delete_some Q n xs)))"
proof -
  obtain R where "delete_some Q n xs = filter R xs" using delete_some_filter by blast
  moreover have "filter P (filter R xs) = filter R (filter P xs)"
    by (simp add: conj_commute)
  ultimately show ?thesis using distinct_map_filter [OF assms, of R] by simp
qed

lemma distinct_map_delete_some: "distinct (map k xs) \<Longrightarrow> distinct (map k (delete_some Q n xs))"
  using distinct_delete_some [of k "\<lambda>_. True" xs Q n] by simp

lemma delete_some_subset: "set (delete_some Q n xs) \<subseteq> set xs"
  by (auto simp: delete_some_def Let_def)

lemma vtable_ok_sweep:
  assumes "vtable_ok t"
  shows "vtable_ok (sweepVerifications cutoff limit t)"
proof -
  let ?rows = "v_rows (sweepVerifications cutoff limit t)"
  have "set ?rows \<subseteq> set (v_rows t)"
    by (simp add: sweepVerifications_def) (blast dest: subsetD [OF delete_some_subset])
  then have "list_all (\<lambda>v. v_id v < v_next t) ?rows"
    using assms by (auto simp: vtable_ok_def list_all_iff)
  moreover have "distinct (map v_id ?rows)"
    using assms unfolding vtable_ok_def sweepVerifications_def
    by (simp add: distinct_map_delete_some)
  moreover have "distinct (map live_key (filter v_unsettled ?rows))"
    using assms by (simp add: vtable_ok_def sweepVerifications_def distinct_delete_some)
  ultimately show ?thesis by (simp add: vtable_ok_def sweepVerifications_def)
qed

end
