(* ===== verification/Auth_Store.thy ===== *)
theory Auth_Store
  imports Verification_Store Rbac_Authority Reward_Types
begin

text \<open>
  What signing in works on: logins, sessions, employments, our own staff, businesses and the audit
  trail, with the statements of \<open>identity.repository.ts\<close>, \<open>session.repository.ts\<close>,
  \<open>enterprise-employee.repository.ts\<close>, \<open>staff-member.repository.ts\<close> and \<open>enterprise.repository.ts\<close>
  that \<open>modules/auth\<close> uses, and the two kinds of tokens of \<open>token.service.ts\<close>.

  Public handles are row ids, soft deletion (written by nothing here) and the columns that are only
  displayed are left out. The password hash, the opaque-token hash, the signature scheme, the
  database's \<open>lower\<close> and collation, the third-party phone parser and Unicode normalization are
  parameters. \<open>signedPayloads\<close> is no table: it records the payloads the service has signed.
\<close>

section \<open>Tables\<close>

record login_identity =
  li_id :: int
  li_email :: "string option"
  li_mobile :: "string option"
  li_passwordHash :: string
  li_emailVerifiedAt :: "int option"
  li_mobileVerifiedAt :: "int option"
  li_disabled :: bool
  li_failedLoginCount :: nat
  li_lockedUntil :: "int option"
  li_lastLoginAt :: "int option"

record session_row =
  se_id :: int
  se_identityId :: int
  se_refreshTokenHash :: string
  se_createdAt :: int
  se_expiresAt :: int
  se_revokedAt :: "int option"

record employment_row =
  ey_id :: int
  ey_identityId :: int
  ey_enterpriseId :: int
  ey_status :: LifecycleStatus
  ey_joined :: bool
  ey_lastActiveAt :: "int option"

record staff_row =
  sf_id :: int
  sf_identityId :: int
  sf_allEnterprises :: bool
  sf_status :: LifecycleStatus

datatype EnterpriseStatus = PendingBusiness | ActiveBusiness | SuspendedBusiness

record business_row =
  bu_id :: int
  bu_name :: string
  bu_status :: EnterpriseStatus

datatype login_failure = NoSuchCredential | AccountLocked | BadPassword

datatype audit_event =
    LoginFailed "int option" login_failure
  | LoggedIn int
  | CredentialVerified int bool
  | InvitationAccepted int "int option" nat
  | LoggedOutOne int
  | LoggedOutAll int nat
  | Impersonated int int

type_synonym jwt_payload = "(string \<times> json) list"

record auth_db =
  logins :: "login_identity list"
  sessions :: "session_row list"
  nextSession :: int
  employments :: "employment_row list"
  staffMembers :: "staff_row list"
  businesses :: "business_row list"
  challenges :: verification_table
  auditTrail :: "audit_event list"
  signedPayloads :: "jwt_payload list"

datatype jwt_failure = JwtExpired | JwtInvalid

record auth_env =
  secrets :: secret_env
  hashPassword :: "string \<Rightarrow> string \<Rightarrow> string"
  verifyPassword :: "string \<Rightarrow> string \<Rightarrow> bool"
  hashOpaqueToken :: "string \<Rightarrow> string"
  sqlLower :: "string \<Rightarrow> string"
  collation :: "string \<Rightarrow> nat"
  normalizedEmail :: "string \<Rightarrow> string"
  canonicalMobile :: "string \<Rightarrow> string option"
  signJwt :: "int \<Rightarrow> int \<Rightarrow> jwt_payload \<Rightarrow> string"
  verifyJwt :: "int \<Rightarrow> string \<Rightarrow> jwt_failure + jwt_payload"
  accessTtl :: string
  refreshTtlDays :: int

type_synonym 'a auth_req = "(auth_error, auth_db, 'a) req"

section \<open>Logins\<close>

datatype credential = ByEmail string | ByMobile string

definition MAX_FAILED_LOGINS :: nat where "MAX_FAILED_LOGINS = 5"
definition LOGIN_LOCK_DURATION_MS :: int where "LOGIN_LOCK_DURATION_MS = 15 * 60 * 1000"
definition MAX_SESSIONS_PER_IDENTITY :: nat where "MAX_SESSIONS_PER_IDENTITY = 10"

definition identityById :: "int \<Rightarrow> auth_db \<Rightarrow> login_identity option" where
  "identityById i db = find (\<lambda>r. li_id r = i) (logins db)"

fun identityByCredential :: "auth_env \<Rightarrow> credential \<Rightarrow> auth_db \<Rightarrow> login_identity option" where
  "identityByCredential env (ByEmail v) db =
     find (\<lambda>r. case li_email r of None \<Rightarrow> False | Some e \<Rightarrow> sqlLower env e = v) (logins db)"
| "identityByCredential env (ByMobile v) db = find (\<lambda>r. li_mobile r = Some v) (logins db)"

definition update_login :: "int \<Rightarrow> (login_identity \<Rightarrow> login_identity) \<Rightarrow> auth_db \<Rightarrow> auth_db" where
  "update_login i f db = db\<lparr>logins := update_where (\<lambda>r. li_id r = i) f (logins db)\<rparr>"

definition failed_count :: "int \<Rightarrow> login_identity \<Rightarrow> nat" where
  "failed_count now r = (case li_lockedUntil r of
     Some t \<Rightarrow> if t \<le> now then 1 else li_failedLoginCount r + 1
   | None \<Rightarrow> li_failedLoginCount r + 1)"

definition is_locked :: "int \<Rightarrow> login_identity \<Rightarrow> bool" where
  "is_locked now r \<longleftrightarrow> (case li_lockedUntil r of None \<Rightarrow> False | Some t \<Rightarrow> now < t)"

definition count_failure :: "int \<Rightarrow> nat \<Rightarrow> int \<Rightarrow> login_identity \<Rightarrow> login_identity" where
  "count_failure now lockAfter duration r =
     r\<lparr>li_failedLoginCount := failed_count now r,
       li_lockedUntil := (if is_locked now r then li_lockedUntil r
         else if lockAfter \<le> failed_count now r then Some (now + duration) else None)\<rparr>"

definition recordFailedLogin :: "int \<Rightarrow> int \<Rightarrow> nat \<Rightarrow> int \<Rightarrow> auth_db \<Rightarrow> auth_db" where
  "recordFailedLogin now i lockAfter duration = update_login i (count_failure now lockAfter duration)"

definition recordSuccessfulLogin :: "int \<Rightarrow> int \<Rightarrow> auth_db \<Rightarrow> auth_db" where
  "recordSuccessfulLogin now i = update_login i
     (\<lambda>r. r\<lparr>li_failedLoginCount := 0, li_lockedUntil := None, li_lastLoginAt := Some now\<rparr>)"

definition verify_email :: "int \<Rightarrow> login_identity \<Rightarrow> login_identity" where
  "verify_email now r = (if li_emailVerifiedAt r = None then r\<lparr>li_emailVerifiedAt := Some now\<rparr> else r)"

definition verify_mobile :: "int \<Rightarrow> login_identity \<Rightarrow> login_identity" where
  "verify_mobile now r = (if li_mobileVerifiedAt r = None then r\<lparr>li_mobileVerifiedAt := Some now\<rparr> else r)"

definition markCredentialVerified :: "int \<Rightarrow> int \<Rightarrow> bool \<Rightarrow> auth_db \<Rightarrow> auth_db" where
  "markCredentialVerified now i email = update_login i (if email then verify_email now else verify_mobile now)"

definition updatePasswordHash :: "int \<Rightarrow> string \<Rightarrow> auth_db \<Rightarrow> auth_db" where
  "updatePasswordHash i h = update_login i
     (\<lambda>r. r\<lparr>li_passwordHash := h, li_failedLoginCount := 0, li_lockedUntil := None\<rparr>)"

text \<open>The unique indexes on \<open>lower(email)\<close> and on the number.\<close>

definition insert_identity :: "auth_env \<Rightarrow> string option \<Rightarrow> string option \<Rightarrow> string \<Rightarrow>
    (auth_error, auth_db, int) act" where
  "insert_identity env email mobile passwordHash db =
     (if list_ex (\<lambda>r. email \<noteq> None \<and> map_option (sqlLower env) (li_email r) = map_option (sqlLower env) email
           \<or> mobile \<noteq> None \<and> li_mobile r = mobile) (logins db)
      then Inl AddressRegistered
      else let i = fresh_id (map li_id (logins db)) in
        Inr (i, db\<lparr>logins := logins db @ [\<lparr>li_id = i, li_email = email, li_mobile = mobile,
          li_passwordHash = passwordHash, li_emailVerifiedAt = None, li_mobileVerifiedAt = None,
          li_disabled = False, li_failedLoginCount = 0, li_lockedUntil = None, li_lastLoginAt = None\<rparr>]\<rparr>))"

section \<open>Sessions\<close>

definition se_live :: "int \<Rightarrow> session_row \<Rightarrow> bool" where
  "se_live now s \<longleftrightarrow> se_revokedAt s = None \<and> now < se_expiresAt s"

definition findLiveByTokenHash :: "int \<Rightarrow> string \<Rightarrow> auth_db \<Rightarrow> session_row option" where
  "findLiveByTokenHash now h db = find (\<lambda>s. se_refreshTokenHash s = h \<and> se_live now s) (sessions db)"

definition insert_session :: "int \<Rightarrow> int \<Rightarrow> string \<Rightarrow> int \<Rightarrow> (auth_error, auth_db, unit) act" where
  "insert_session now identity h expiresAt db =
     (if list_ex (\<lambda>s. se_refreshTokenHash s = h) (sessions db) then Inl DatabaseError
      else Inr ((), db\<lparr>sessions := sessions db @ [\<lparr>se_id = nextSession db, se_identityId = identity,
          se_refreshTokenHash = h, se_createdAt = now, se_expiresAt = expiresAt, se_revokedAt = None\<rparr>],
        nextSession := nextSession db + 1\<rparr>))"

definition revoke_where :: "(session_row \<Rightarrow> bool) \<Rightarrow> int \<Rightarrow> auth_db \<Rightarrow> auth_db" where
  "revoke_where P now db = db\<lparr>sessions := update_where P (\<lambda>s. s\<lparr>se_revokedAt := Some now\<rparr>) (sessions db)\<rparr>"

definition revokeSession :: "int \<Rightarrow> int \<Rightarrow> auth_db \<Rightarrow> auth_db" where
  "revokeSession now i = revoke_where (\<lambda>s. se_id s = i \<and> se_revokedAt s = None) now"

definition of_identity :: "int \<Rightarrow> session_row \<Rightarrow> bool" where
  "of_identity i s \<longleftrightarrow> se_identityId s = i \<and> se_revokedAt s = None"

definition revokeAllForIdentity :: "int \<Rightarrow> int \<Rightarrow> auth_db \<Rightarrow> nat \<times> auth_db" where
  "revokeAllForIdentity now i db =
     (length (filter (of_identity i) (sessions db)), revoke_where (of_identity i) now db)"

text \<open>\<open>ORDER BY created_at DESC, id DESC OFFSET keep\<close>.\<close>

definition newest_first :: "session_row list \<Rightarrow> session_row list" where
  "newest_first ss = sort_key (\<lambda>s. - se_createdAt s) (sort_key (\<lambda>s. - se_id s) ss)"

definition beyond_newest :: "int \<Rightarrow> int \<Rightarrow> nat \<Rightarrow> auth_db \<Rightarrow> session_row list" where
  "beyond_newest now i keep db =
     drop keep (newest_first (filter (\<lambda>s. se_identityId s = i \<and> se_live now s) (sessions db)))"

definition revokeBeyondNewest :: "int \<Rightarrow> int \<Rightarrow> nat \<Rightarrow> auth_db \<Rightarrow> auth_db" where
  "revokeBeyondNewest now i keep db =
     revoke_where (\<lambda>s. se_id s \<in> set (map se_id (beyond_newest now i keep db))) now db"

definition sweepSessions :: "int \<Rightarrow> nat \<Rightarrow> auth_db \<Rightarrow> auth_db" where
  "sweepSessions cutoff limit db = db\<lparr>sessions :=
     delete_some (\<lambda>s. case se_revokedAt s of None \<Rightarrow> False | Some t \<Rightarrow> t < cutoff) limit
       (delete_some (\<lambda>s. se_expiresAt s < cutoff \<and> se_revokedAt s = None) limit (sessions db))\<rparr>"

section \<open>Employments, staff, businesses\<close>

definition businessById :: "int \<Rightarrow> auth_db \<Rightarrow> business_row option" where
  "businessById e db = find (\<lambda>b. bu_id b = e) (businesses db)"

definition name_rank :: "auth_env \<Rightarrow> auth_db \<Rightarrow> employment_row \<Rightarrow> nat" where
  "name_rank env db m = (case businessById (ey_enterpriseId m) db of None \<Rightarrow> 0 | Some b \<Rightarrow> collation env (bu_name b))"

definition stands :: "auth_db \<Rightarrow> int \<Rightarrow> employment_row \<Rightarrow> bool" where
  "stands db i m \<longleftrightarrow> ey_identityId m = i \<and> ey_status m = ActiveEmployment \<and> businessById (ey_enterpriseId m) db \<noteq> None"

definition listActiveByIdentity :: "auth_env \<Rightarrow> int \<Rightarrow> auth_db \<Rightarrow> employment_row list" where
  "listActiveByIdentity env i db =
     sort_key (name_rank env db) (sort_key ey_id (filter (stands db i) (employments db)))"

definition findActiveEmployment :: "int \<Rightarrow> int \<Rightarrow> auth_db \<Rightarrow> employment_row option" where
  "findActiveEmployment i e db = find (\<lambda>m. stands db i m \<and> ey_enterpriseId m = e) (employments db)"

definition countStandingForIdentity :: "int \<Rightarrow> auth_db \<Rightarrow> nat \<times> nat" where
  "countStandingForIdentity i db =
     (length (filter (\<lambda>m. ey_identityId m = i) (employments db)), length (filter (stands db i) (employments db)))"

definition hasActiveEmploymentElsewhere :: "int \<Rightarrow> int \<Rightarrow> auth_db \<Rightarrow> bool" where
  "hasActiveEmploymentElsewhere i e db \<longleftrightarrow> list_ex (\<lambda>m. stands db i m \<and> ey_enterpriseId m \<noteq> e) (employments db)"

definition employmentByIdentity :: "int \<Rightarrow> int \<Rightarrow> auth_db \<Rightarrow> employment_row option" where
  "employmentByIdentity e i db = find (\<lambda>m. ey_enterpriseId m = e \<and> ey_identityId m = i) (employments db)"

definition activateEmployment :: "int \<Rightarrow> int \<Rightarrow> auth_db \<Rightarrow> auth_db" where
  "activateEmployment m e db = db\<lparr>employments := update_where
     (\<lambda>r. ey_id r = m \<and> ey_enterpriseId r = e \<and> ey_status r = Invited)
     (\<lambda>r. r\<lparr>ey_status := ActiveEmployment, ey_joined := True\<rparr>) (employments db)\<rparr>"

definition touchLastActive :: "int \<Rightarrow> int \<Rightarrow> int \<Rightarrow> auth_db \<Rightarrow> auth_db" where
  "touchLastActive now m e db = db\<lparr>employments := update_where
     (\<lambda>r. ey_id r = m \<and> ey_enterpriseId r = e) (\<lambda>r. r\<lparr>ey_lastActiveAt := Some now\<rparr>) (employments db)\<rparr>"

definition staffActiveByIdentity :: "int \<Rightarrow> auth_db \<Rightarrow> staff_row option" where
  "staffActiveByIdentity i db = find (\<lambda>s. sf_identityId s = i \<and> sf_status s = ActiveEmployment) (staffMembers db)"

definition staffAnyByIdentity :: "int \<Rightarrow> auth_db \<Rightarrow> staff_row option" where
  "staffAnyByIdentity i db = find (\<lambda>s. sf_identityId s = i) (staffMembers db)"

definition activateStaff :: "int \<Rightarrow> auth_db \<Rightarrow> auth_db" where
  "activateStaff i db = db\<lparr>staffMembers := update_where (\<lambda>s. sf_id s = i \<and> sf_status s = Invited)
     (\<lambda>s. s\<lparr>sf_status := ActiveEmployment\<rparr>) (staffMembers db)\<rparr>"

definition recordAudit :: "audit_event \<Rightarrow> auth_db \<Rightarrow> auth_db" where
  "recordAudit a db = db\<lparr>auditTrail := auditTrail db @ [a]\<rparr>"

end
