(* ===== verification/Auth_Service.thy ===== *)
theory Auth_Service
  imports Auth_Store
begin

text \<open>
  \<open>modules/auth/token.service.ts\<close>, \<open>modules/auth/auth.service.ts\<close> and the endpoints of
  \<open>auth.controller.ts\<close>, each a request of theory \<open>Effects\<close>: outside a transaction a statement stays
  written when a later one throws. A request carries what it draws from the random source
  (\<open>draws\<close>); the delivery of a code is the \<open>pending_delivery\<close> in the answer.
\<close>

section \<open>Tokens\<close>

record access_claims =
  ac_identityId :: int
  ac_enterpriseId :: "int option"
  ac_employeeId :: "int option"
  ac_staffId :: "int option"
  ac_actorKind :: ActorKind
  ac_isImpersonated :: bool

fun actorKindText :: "ActorKind \<Rightarrow> string" where
  "actorKindText ActorEmployee = ''employee''"
| "actorKindText ActorStaff = ''staff''"
| "actorKindText ActorSystem = ''system''"

definition readActorKind :: "string \<Rightarrow> ActorKind option" where
  "readActorKind t = find (\<lambda>k. actorKindText k = t) [ActorEmployee, ActorStaff, ActorSystem]"

definition jsonNullable :: "int option \<Rightarrow> json" where
  "jsonNullable x = (case x of None \<Rightarrow> JNull | Some i \<Rightarrow> JNum i)"

definition readNullable :: "json option \<Rightarrow> int option option" where
  "readNullable j = (case j of Some JNull \<Rightarrow> Some None | Some (JNum i) \<Rightarrow> Some (Some i) | _ \<Rightarrow> None)"

definition access_payload :: "access_claims \<Rightarrow> jwt_payload" where
  "access_payload c = [(''identityId'', JNum (ac_identityId c)), (''enterpriseId'', jsonNullable (ac_enterpriseId c)),
     (''employeeId'', jsonNullable (ac_employeeId c)), (''staffId'', jsonNullable (ac_staffId c)),
     (''actorKind'', JStr (actorKindText (ac_actorKind c))), (''isImpersonated'', JBool (ac_isImpersonated c)),
     (''typ'', JStr ''access''), (''sub'', JStr (show_int (ac_identityId c)))]"

definition selection_payload :: "int \<Rightarrow> jwt_payload" where
  "selection_payload i = [(''sub'', JStr (show_int i)), (''identityId'', JNum i),
     (''purpose'', JStr ''enterprise_selection'')]"

text \<open>\<open>isAccessTokenClaims\<close>: the claims, when every one is there and of its type.\<close>

definition readAccessClaims :: "jwt_payload \<Rightarrow> access_claims option" where
  "readAccessClaims p =
     (case (map_of p ''typ'', map_of p ''sub'', map_of p ''identityId'', map_of p ''actorKind'', map_of p ''isImpersonated'') of
        (Some (JStr typ), Some (JStr sub), Some (JNum i), Some (JStr kind), Some (JBool imp)) \<Rightarrow>
          (case (readNullable (map_of p ''enterpriseId''), readNullable (map_of p ''employeeId''),
                 readNullable (map_of p ''staffId''), readActorKind kind) of
             (Some ent, Some emp, Some staff, Some k) \<Rightarrow>
               if typ = ''access'' then Some \<lparr>ac_identityId = i, ac_enterpriseId = ent, ac_employeeId = emp,
                   ac_staffId = staff, ac_actorKind = k, ac_isImpersonated = imp\<rparr>
               else None
           | _ \<Rightarrow> None)
      | _ \<Rightarrow> None)"

definition sign :: "auth_env \<Rightarrow> int \<Rightarrow> int \<Rightarrow> jwt_payload \<Rightarrow> string auth_req" where
  "sign env now seconds p =
     rthen (rwrites (\<lambda>db. db\<lparr>signedPayloads := p # signedPayloads db\<rparr>)) (rret (signJwt env now seconds p))"

text \<open>\<open>parseDuration\<close>: the digits, then at most one unit.\<close>

definition is_digit :: "char \<Rightarrow> bool" where
  "is_digit c \<longleftrightarrow> 48 \<le> (of_char c :: nat) \<and> of_char c \<le> (57 :: nat)"

definition is_blank :: "char \<Rightarrow> bool" where
  "is_blank c \<longleftrightarrow> (of_char c :: nat) \<in> {9, 10, 11, 12, 13, 32, 160}"

definition trim_blanks :: "string \<Rightarrow> string" where
  "trim_blanks s = rev (dropWhile is_blank (rev (dropWhile is_blank s)))"

definition parseDuration :: "string \<Rightarrow> int option" where
  "parseDuration value =
     (let t = trim_blanks value; digits = takeWhile is_digit t; rest = dropWhile is_blank (dropWhile is_digit t);
          amount = int (read_nat digits)
      in if digits = [] then None
         else if rest = [] \<or> rest = ''s'' then Some amount
         else if rest = ''m'' then Some (amount * 60)
         else if rest = ''h'' then Some (amount * 3600)
         else if rest = ''d'' then Some (amount * 86400) else None)"

definition SELECTION_TOKEN_TTL_SECONDS :: int where "SELECTION_TOKEN_TTL_SECONDS = 300"

definition issueAccessToken :: "auth_env \<Rightarrow> int \<Rightarrow> access_claims \<Rightarrow> string auth_req" where
  "issueAccessToken env now c = (case parseDuration (accessTtl env) of
     None \<Rightarrow> rthrow DatabaseError
   | Some seconds \<Rightarrow> sign env now seconds (access_payload c))"

definition verifyAccessToken :: "auth_env \<Rightarrow> int \<Rightarrow> string \<Rightarrow> auth_error + access_claims" where
  "verifyAccessToken env now token = (case verifyJwt env now token of
     Inl JwtExpired \<Rightarrow> Inl AuthTokenExpired
   | Inl JwtInvalid \<Rightarrow> Inl AuthTokenInvalid
   | Inr p \<Rightarrow> (case readAccessClaims p of None \<Rightarrow> Inl AuthTokenInvalid | Some c \<Rightarrow> Inr c))"

definition issueSelectionToken :: "auth_env \<Rightarrow> int \<Rightarrow> int \<Rightarrow> string auth_req" where
  "issueSelectionToken env now i = sign env now SELECTION_TOKEN_TTL_SECONDS (selection_payload i)"

text \<open>The claims are used unread but for the purpose; a payload without a number there names nobody.\<close>

definition verifySelectionToken :: "auth_env \<Rightarrow> int \<Rightarrow> string \<Rightarrow> auth_error + int option" where
  "verifySelectionToken env now token = (case verifyJwt env now token of
     Inl _ \<Rightarrow> Inl AuthTokenInvalid
   | Inr p \<Rightarrow> if map_of p ''purpose'' \<noteq> Some (JStr ''enterprise_selection'') then Inl AuthTokenInvalid
       else Inr (case map_of p ''identityId'' of Some (JNum i) \<Rightarrow> Some i | _ \<Rightarrow> None))"

definition refreshTokenExpiry :: "auth_env \<Rightarrow> int \<Rightarrow> int" where
  "refreshTokenExpiry env now = now + refreshTtlDays env * 24 * 60 * 60 * 1000"

section \<open>Addresses\<close>

definition split_on :: "char \<Rightarrow> string \<Rightarrow> string list" where
  "split_on c s = foldr (\<lambda>x acc. if x = c then [] # acc else (case acc of [] \<Rightarrow> [[x]] | y # ys \<Rightarrow> (x # y) # ys)) s [[]]"

definition local_char :: "char \<Rightarrow> bool" where
  "local_char c \<longleftrightarrow> \<not> is_blank c \<and> c \<notin> set ''@,;:<>()[]'' \<and> (of_char c :: nat) \<notin> {34, 92}"

definition doubled_dot :: "string \<Rightarrow> bool" where
  "doubled_dot s \<longleftrightarrow> [] \<in> set (butlast (drop 1 (split_on (CHR ''.'') s)))"

definition isValidEmail :: "string \<Rightarrow> bool" where
  "isValidEmail a \<longleftrightarrow> 3 \<le> length a \<and> length a \<le> 254 \<and>
     (case split_on (CHR ''@'') a of
        [local, domain] \<Rightarrow> local \<noteq> [] \<and> list_all local_char local
          \<and> list_all (\<lambda>c. \<not> is_blank c) domain
          \<and> 2 \<le> length (split_on (CHR ''.'') domain) \<and> [] \<notin> set (split_on (CHR ''.'') domain)
          \<and> length local \<le> 64 \<and> length domain \<le> 253
          \<and> hd local \<noteq> CHR ''.'' \<and> last local \<noteq> CHR ''.'' \<and> \<not> doubled_dot local
      | _ \<Rightarrow> False)"

record login_request =
  lr_email :: "string option"
  lr_mobile :: "string option"
  lr_password :: string

definition resolveCredential :: "auth_env \<Rightarrow> login_request \<Rightarrow> credential auth_req" where
  "resolveCredential env req =
     (case lr_email req of
        Some e \<Rightarrow> if isValidEmail (normalizedEmail env e) then rret (ByEmail (normalizedEmail env e))
          else rthrow EmailUnparseable
      | None \<Rightarrow> (case lr_mobile req of
          None \<Rightarrow> rthrow CredentialMissing
        | Some m \<Rightarrow> (case canonicalMobile env m of
            None \<Rightarrow> rthrow MobileUnparseable
          | Some c \<Rightarrow> rret (ByMobile c))))"

section \<open>Sessions\<close>

record draws =
  dr_secret :: string
  dr_refresh :: string
  dr_salt :: string

record employment_dto =
  ed_enterpriseId :: int
  ed_name :: string

datatype login_outcome =
    Authenticated string "employment_dto option" string int
  | SelectionRequired string "employment_dto list"
  | VerificationRequired issued_verification

definition toEmploymentDto :: "auth_db \<Rightarrow> employment_row \<Rightarrow> employment_dto" where
  "toEmploymentDto db m = \<lparr>ed_enterpriseId = ey_enterpriseId m,
     ed_name = (case businessById (ey_enterpriseId m) db of None \<Rightarrow> [] | Some b \<Rightarrow> bu_name b)\<rparr>"

definition resolveActorKind :: "employment_row option \<Rightarrow> int option \<Rightarrow> ActorKind" where
  "resolveActorKind employment staffId =
     (if employment \<noteq> None then ActorEmployee else if staffId \<noteq> None then ActorStaff else ActorSystem)"

definition isImpersonated :: "employment_row option \<Rightarrow> int option \<Rightarrow> int option \<Rightarrow> bool" where
  "isImpersonated employment staffId enterpriseId \<longleftrightarrow> staffId \<noteq> None \<and> employment = None \<and> enterpriseId \<noteq> None"

definition session_claims :: "int \<Rightarrow> employment_row option \<Rightarrow> int option \<Rightarrow> access_claims" where
  "session_claims i employment staffId =
     \<lparr>ac_identityId = i, ac_enterpriseId = map_option ey_enterpriseId employment,
      ac_employeeId = map_option ey_id employment, ac_staffId = staffId,
      ac_actorKind = resolveActorKind employment staffId,
      ac_isImpersonated = isImpersonated employment staffId (map_option ey_enterpriseId employment)\<rparr>"

definition issueSession :: "auth_env \<Rightarrow> int \<Rightarrow> draws \<Rightarrow> int \<Rightarrow> employment_row option \<Rightarrow> int option \<Rightarrow>
    login_outcome auth_req" where
  "issueSession env now rnd i employment staffId =
     (let expiresAt = refreshTokenExpiry env now in
      rthen (inTransaction (insert_session now i (hashOpaqueToken env (dr_refresh rnd)) expiresAt))
      (rthen (rwrites (revokeBeyondNewest now i MAX_SESSIONS_PER_IDENTITY))
      (rbnd (issueAccessToken env now (session_claims i employment staffId)) (\<lambda>token.
       rthen (case employment of None \<Rightarrow> rret ()
              | Some m \<Rightarrow> rwrites (touchLastActive now (ey_id m) (ey_enterpriseId m)))
       (rbnd (rreads (\<lambda>db. map_option (toEmploymentDto db) employment)) (\<lambda>dto.
        rret (Authenticated token dto (dr_refresh rnd) expiresAt)))))))"

definition assertLoginable :: "int \<Rightarrow> login_identity \<Rightarrow> unit auth_req" where
  "assertLoginable now i =
     (if li_disabled i then rthrow AuthAccountDisabled
      else case li_lockedUntil i of
        None \<Rightarrow> rret ()
      | Some t \<Rightarrow> if now < t then rthrow (AuthAccountLocked (- ((now - t) div 1000))) else rret ())"

fun needsVerification :: "login_identity \<Rightarrow> credential \<Rightarrow> bool" where
  "needsVerification i (ByEmail _) \<longleftrightarrow> li_emailVerifiedAt i = None"
| "needsVerification i (ByMobile _) \<longleftrightarrow> li_mobileVerifiedAt i = None"

definition completeLogin :: "auth_env \<Rightarrow> int \<Rightarrow> draws \<Rightarrow> int \<Rightarrow> login_outcome auth_req" where
  "completeLogin env now rnd i =
     rbnd (rreads (listActiveByIdentity env i)) (\<lambda>active.
     rbnd (rreads (staffActiveByIdentity i)) (\<lambda>staff.
     rthen (rwrites (recordSuccessfulLogin now i))
     (rthen (rwrites (recordAudit (LoggedIn i)))
     (case active of
        [] \<Rightarrow> (case staff of
            None \<Rightarrow> rthrow AuthNoActiveEmployment
          | Some s \<Rightarrow> issueSession env now rnd i None (Some (sf_id s)))
      | [m] \<Rightarrow> issueSession env now rnd i (Some m) (map_option sf_id staff)
      | _ \<Rightarrow> rbnd (issueSelectionToken env now i) (\<lambda>token.
          rbnd (rreads (\<lambda>db. map (toEmploymentDto db) active)) (\<lambda>dtos. rret (SelectionRequired token dtos)))))))"

definition at_challenges :: "'a verification_req \<Rightarrow> 'a auth_req" where
  "at_challenges = zoom challenges (\<lambda>t db. db\<lparr>challenges := t\<rparr>)"

fun credential_value :: "credential \<Rightarrow> string" where
  "credential_value (ByEmail v) = v"
| "credential_value (ByMobile v) = v"

fun credential_channel :: "credential \<Rightarrow> DeliveryChannel" where
  "credential_channel (ByEmail v) = EmailChannel"
| "credential_channel (ByMobile v) = SmsChannel"

definition identity_challenge :: "int \<Rightarrow> int option \<Rightarrow> VerificationKind \<Rightarrow> credential \<Rightarrow> new_verification" where
  "identity_challenge i enterprise kind credential =
     \<lparr>n_subjectKind = IdentitySubject, n_identityId = Some i, n_enterpriseId = enterprise, n_customerId = None,
      n_customerIdentifierId = None, n_kind = kind, n_channel = credential_channel credential,
      n_destination = credential_value credential\<rparr>"

definition login :: "auth_env \<Rightarrow> int \<Rightarrow> draws \<Rightarrow> login_request \<Rightarrow> login_outcome auth_req" where
  "login env now rnd req =
     rbnd (resolveCredential env req) (\<lambda>credential.
     rbnd (rreads (identityByCredential env credential)) (\<lambda>found.
     case found of
       None \<Rightarrow> rthen (rwrites (recordAudit (LoginFailed None NoSuchCredential))) (rthrow AuthInvalidCredentials)
     | Some i \<Rightarrow>
         let locked = is_locked now i; ok = verifyPassword env (li_passwordHash i) (lr_password req) in
         if locked \<and> \<not> ok
         then rthen (rwrites (recordAudit (LoginFailed (Some (li_id i)) AccountLocked))) (rthrow AuthInvalidCredentials)
         else if \<not> ok
         then rthen (rwrites (recordFailedLogin now (li_id i) MAX_FAILED_LOGINS LOGIN_LOCK_DURATION_MS))
           (rthen (rwrites (recordAudit (LoginFailed (Some (li_id i)) BadPassword))) (rthrow AuthInvalidCredentials))
         else rthen (assertLoginable now i)
           (if needsVerification i credential
            then rbnd (at_challenges (issueVerification (secrets env) now (dr_secret rnd)
                   (identity_challenge (li_id i) None FirstLogin credential)))
                 (\<lambda>issued. rret (VerificationRequired issued))
            else completeLogin env now rnd (li_id i))))"

text \<open>Which credential a proven destination is, if it is one of this login.\<close>

definition proven_credential :: "login_identity \<Rightarrow> string \<Rightarrow> bool option" where
  "proven_credential i destination =
     (if li_email i = Some destination then Some True
      else if li_mobile i = Some destination then Some False else None)"

definition completeVerifiedLogin :: "auth_env \<Rightarrow> int \<Rightarrow> draws \<Rightarrow> int \<Rightarrow> string \<Rightarrow> login_outcome auth_req" where
  "completeVerifiedLogin env now rnd identityId destination =
     rbnd (rreads (identityById identityId)) (\<lambda>found.
     case found of
       None \<Rightarrow> rthrow AuthInvalidCredentials
     | Some i \<Rightarrow>
         rthen (assertLoginable now i)
         (rthen (case proven_credential i destination of
             None \<Rightarrow> rret ()
           | Some email \<Rightarrow> rthen (rwrites (markCredentialVerified now (li_id i) email))
               (rwrites (recordAudit (CredentialVerified (li_id i) email))))
         (completeLogin env now rnd (li_id i))))"

definition acceptance :: "int \<Rightarrow> login_identity \<Rightarrow> int option \<Rightarrow> string \<Rightarrow> string \<Rightarrow> (auth_error, auth_db, unit) act" where
  "acceptance now i enterprise destination passwordHash =
     andThen (modifies (updatePasswordHash (li_id i) passwordHash))
     (andThen (case proven_credential i destination of
         None \<Rightarrow> ret () | Some email \<Rightarrow> modifies (markCredentialVerified now (li_id i) email))
     (andThen (case enterprise of
         Some e \<Rightarrow> bnd (reads (employmentByIdentity e (li_id i))) (\<lambda>m. case m of
             None \<Rightarrow> ret ()
           | Some m \<Rightarrow> if ey_status m = Invited then modifies (activateEmployment (ey_id m) e) else ret ())
       | None \<Rightarrow> bnd (reads (staffAnyByIdentity (li_id i))) (\<lambda>s. case s of
             None \<Rightarrow> ret ()
           | Some s \<Rightarrow> if sf_status s = Invited then modifies (activateStaff (sf_id s)) else ret ()))
     (bnd (reads (\<lambda>db. fst (revokeAllForIdentity now (li_id i) db))) (\<lambda>revoked.
      andThen (modifies (\<lambda>db. snd (revokeAllForIdentity now (li_id i) db)))
       (modifies (recordAudit (InvitationAccepted (li_id i) enterprise revoked)))))))"

definition completeInvite :: "auth_env \<Rightarrow> int \<Rightarrow> draws \<Rightarrow> int \<Rightarrow> int option \<Rightarrow> string \<Rightarrow> string \<Rightarrow>
    login_outcome auth_req" where
  "completeInvite env now rnd identityId enterprise destination newPassword =
     rbnd (rreads (identityById identityId)) (\<lambda>found.
     case found of
       None \<Rightarrow> rthrow AuthInvalidCredentials
     | Some i \<Rightarrow>
         rthen (inTransaction (acceptance now i enterprise destination (hashPassword env (dr_salt rnd) newPassword)))
         (rbnd (rreads (identityById identityId)) (\<lambda>refreshed.
          case refreshed of
            None \<Rightarrow> rthrow AuthInvalidCredentials
          | Some r \<Rightarrow> rthen (assertLoginable now r) (completeLogin env now rnd (li_id r)))))"

definition selectEnterprise :: "auth_env \<Rightarrow> int \<Rightarrow> draws \<Rightarrow> string \<Rightarrow> int \<Rightarrow> login_outcome auth_req" where
  "selectEnterprise env now rnd token enterprise =
     (case verifySelectionToken env now token of
        Inl e \<Rightarrow> rthrow e
      | Inr claimed \<Rightarrow>
          rbnd (rreads (\<lambda>db. case claimed of None \<Rightarrow> None | Some i \<Rightarrow> identityById i db)) (\<lambda>found.
          case found of
            None \<Rightarrow> rthrow AuthInvalidCredentials
          | Some i \<Rightarrow>
              rthen (assertLoginable now i)
              (rbnd (rreads (businessById enterprise)) (\<lambda>b.
               if b = None then rthrow UnknownEnterprise
               else rbnd (rreads (findActiveEmployment (li_id i) enterprise)) (\<lambda>m.
                 case m of
                   None \<Rightarrow> rthrow AuthNoActiveEmployment
                 | Some m \<Rightarrow> rbnd (rreads (staffActiveByIdentity (li_id i))) (\<lambda>staff.
                     issueSession env now rnd (li_id i) (Some m) (map_option sf_id staff)))))))"

section \<open>Refreshing, switching, leaving\<close>

definition assertStandingNotRevoked :: "int \<Rightarrow> int \<Rightarrow> bool \<Rightarrow> unit auth_req" where
  "assertStandingNotRevoked now i hasPlatformReach =
     (if hasPlatformReach then rret ()
      else rbnd (rreads (countStandingForIdentity i)) (\<lambda>(total, active).
        if 0 < total \<and> active = 0
        then rthen (rwrites (\<lambda>db. snd (revokeAllForIdentity now i db))) (rthrow AuthNoActiveEmployment)
        else rret ()))"

definition has_reach :: "staff_row option \<Rightarrow> bool" where
  "has_reach staff \<longleftrightarrow> (case staff of None \<Rightarrow> False | Some s \<Rightarrow> sf_allEnterprises s)"

definition named_employment :: "int \<Rightarrow> int option \<Rightarrow> staff_row option \<Rightarrow> employment_row option auth_req" where
  "named_employment i enterprise staff =
     (case enterprise of
        None \<Rightarrow> rret None
      | Some e \<Rightarrow> rbnd (rreads (businessById e)) (\<lambda>b.
          if b = None then rthrow UnknownEnterprise
          else rbnd (rreads (findActiveEmployment i e)) (\<lambda>m.
            if m = None \<and> \<not> has_reach staff then rthrow AuthNoActiveEmployment else rret m)))"

definition refresh :: "auth_env \<Rightarrow> int \<Rightarrow> string \<Rightarrow> int option \<Rightarrow> (string \<times> employment_dto option) auth_req" where
  "refresh env now refreshToken enterprise =
     rbnd (rreads (findLiveByTokenHash now (hashOpaqueToken env refreshToken))) (\<lambda>session.
     case session of
       None \<Rightarrow> rthrow AuthSessionRevoked
     | Some s \<Rightarrow>
         rbnd (rreads (identityById (se_identityId s))) (\<lambda>found.
         case found of
           None \<Rightarrow> rthrow AuthInvalidCredentials
         | Some i \<Rightarrow>
             rthen (assertLoginable now i)
             (rbnd (rreads (staffActiveByIdentity (li_id i))) (\<lambda>staff.
              rbnd (named_employment (li_id i) enterprise staff) (\<lambda>m.
              rthen (if m = None then assertStandingNotRevoked now (li_id i) (has_reach staff) else rret ())
              (rbnd (issueAccessToken env now (session_claims (li_id i) m (map_option sf_id staff))) (\<lambda>token.
               rbnd (rreads (\<lambda>db. map_option (toEmploymentDto db) m)) (\<lambda>dto. rret (token, dto)))))))))"

definition switchEnterprise :: "auth_env \<Rightarrow> int \<Rightarrow> int \<Rightarrow> int \<Rightarrow> (string \<times> int) auth_req" where
  "switchEnterprise env now i enterprise =
     rbnd (rreads (businessById enterprise)) (\<lambda>b.
     if b = None then rthrow UnknownEnterprise
     else
       rbnd (rreads (findActiveEmployment i enterprise)) (\<lambda>m.
       rbnd (rreads (staffActiveByIdentity i)) (\<lambda>staff.
       case m of
         Some m \<Rightarrow> rbnd (issueAccessToken env now (session_claims i (Some m) (map_option sf_id staff)))
           (\<lambda>token. rret (token, ey_enterpriseId m))
       | None \<Rightarrow> (case staff of
           None \<Rightarrow> rthrow AuthNoActiveEmployment
         | Some s \<Rightarrow>
             if \<not> sf_allEnterprises s then rthrow AuthNoActiveEmployment
             else rbnd (issueAccessToken env now \<lparr>ac_identityId = i, ac_enterpriseId = Some enterprise,
                 ac_employeeId = None, ac_staffId = Some (sf_id s), ac_actorKind = ActorStaff, ac_isImpersonated = True\<rparr>)
               (\<lambda>token. rthen (rwrites (recordAudit (Impersonated enterprise (sf_id s)))) (rret (token, enterprise)))))))"

definition logout :: "auth_env \<Rightarrow> int \<Rightarrow> string \<Rightarrow> unit auth_req" where
  "logout env now refreshToken =
     rbnd (rreads (findLiveByTokenHash now (hashOpaqueToken env refreshToken))) (\<lambda>session.
     case session of
       None \<Rightarrow> rret ()
     | Some s \<Rightarrow> rthen (rwrites (revokeSession now (se_id s))) (rwrites (recordAudit (LoggedOutOne (se_identityId s)))))"

definition signOutEverywhere :: "int \<Rightarrow> int \<Rightarrow> nat auth_req" where
  "signOutEverywhere now i =
     rbnd (rstate (revokeAllForIdentity now i)) (\<lambda>revoked.
     rthen (rwrites (recordAudit (LoggedOutAll i revoked))) (rret revoked))"

section \<open>Endpoints\<close>

definition verifyEndpoint :: "auth_env \<Rightarrow> int \<Rightarrow> draws \<Rightarrow> int \<Rightarrow> string \<Rightarrow> login_outcome auth_req" where
  "verifyEndpoint env now rnd refId code =
     rbnd (at_challenges (verifySubmitted (secrets env) now refId code FirstLogin)) (\<lambda>subject.
     case vs_identityId subject of
       None \<Rightarrow> rthrow VerificationNotFound
     | Some i \<Rightarrow> completeVerifiedLogin env now rnd i (vs_destination subject))"

definition acceptInviteEndpoint :: "auth_env \<Rightarrow> int \<Rightarrow> draws \<Rightarrow> string option \<Rightarrow> string option \<Rightarrow> string \<Rightarrow> string \<Rightarrow>
    login_outcome auth_req" where
  "acceptInviteEndpoint env now rnd email mobile code password =
     (case (case email of Some e \<Rightarrow> Some (normalizedEmail env e) | None \<Rightarrow> Option.bind mobile (canonicalMobile env)) of
        None \<Rightarrow> rthrow MobileUnparseable
      | Some destination \<Rightarrow>
          if destination = [] then rthrow MobileUnparseable
          else rbnd (at_challenges (verifyByDestination (secrets env) now destination code EmployeeInvite)) (\<lambda>subject.
            case vs_identityId subject of
              None \<Rightarrow> rthrow VerificationNotFound
            | Some i \<Rightarrow> completeInvite env now rnd i (vs_enterpriseId subject) (vs_destination subject) password))"

definition resendEndpoint :: "auth_env \<Rightarrow> int \<Rightarrow> draws \<Rightarrow> string option \<Rightarrow> string option \<Rightarrow> VerificationKind \<Rightarrow>
    pending_delivery option auth_req" where
  "resendEndpoint env now rnd email mobile purpose =
     (case (case email of Some e \<Rightarrow> Some (normalizedEmail env e) | None \<Rightarrow> Option.bind mobile (canonicalMobile env)) of
        None \<Rightarrow> rthrow MobileUnparseable
      | Some destination \<Rightarrow>
          if destination = [] then rthrow MobileUnparseable
          else at_challenges (resend (secrets env) now (dr_secret rnd) destination purpose
                 (if email = None then SmsChannel else EmailChannel)))"

section \<open>Where logins come from\<close>

text \<open>\<open>EmployeesService.create\<close> from the lookup of the login to the code it issues. Who may invite is
  theory \<open>Rbac_Roles\<close>; this is what an invitation does to logins, employments and codes. An empty
  address counts as none.\<close>

definition given :: "string option \<Rightarrow> string option" where
  "given v = (if v = Some [] then None else v)"

definition existing_login :: "auth_env \<Rightarrow> string option \<Rightarrow> string option \<Rightarrow> auth_db \<Rightarrow> login_identity option" where
  "existing_login env email mobile db =
     (case Option.bind email (\<lambda>e. identityByCredential env (ByEmail e) db) of
        Some i \<Rightarrow> Some i
      | None \<Rightarrow> Option.bind mobile (\<lambda>m. identityByCredential env (ByMobile m) db))"

definition insert_employment :: "int \<Rightarrow> int \<Rightarrow> LifecycleStatus \<Rightarrow> (auth_error, auth_db, unit) act" where
  "insert_employment i enterprise status = modifies (\<lambda>db. db\<lparr>employments := employments db @
     [\<lparr>ey_id = fresh_id (map ey_id (employments db)), ey_identityId = i, ey_enterpriseId = enterprise,
       ey_status = status, ey_joined = (status = ActiveEmployment), ey_lastActiveAt = None\<rparr>]\<rparr>)"

definition create_invited :: "auth_env \<Rightarrow> draws \<Rightarrow> int \<Rightarrow> string option \<Rightarrow> string option \<Rightarrow>
    (auth_error, auth_db, int) act" where
  "create_invited env rnd enterprise email mobile =
     bnd (reads (existing_login env email mobile)) (\<lambda>existing.
     bnd (reads (\<lambda>db. case existing of None \<Rightarrow> None | Some x \<Rightarrow> employmentByIdentity enterprise (li_id x) db)) (\<lambda>already.
     if already \<noteq> None then throw AlreadyEmployed
     else bnd (case existing of
           Some x \<Rightarrow> ret (li_id x)
         | None \<Rightarrow> insert_identity env email mobile (hashPassword env (dr_salt rnd) (dr_refresh rnd))) (\<lambda>i.
       andThen (insert_employment i enterprise Invited) (ret i))))"

definition first_address :: "string option \<Rightarrow> string option \<Rightarrow> credential option" where
  "first_address email mobile = (case email of Some e \<Rightarrow> Some (ByEmail e) | None \<Rightarrow> map_option ByMobile mobile)"

definition inviteColleague :: "auth_env \<Rightarrow> int \<Rightarrow> draws \<Rightarrow> int \<Rightarrow> string option \<Rightarrow> string option \<Rightarrow>
    pending_delivery auth_req" where
  "inviteColleague env now rnd enterprise emailText mobileText =
     (let email = given (map_option (normalizedEmail env) emailText);
          mobile = Option.bind mobileText (canonicalMobile env)
      in if mobileText \<noteq> None \<and> mobile = None then rthrow MobileUnparseable
         else case first_address email mobile of
           None \<Rightarrow> rthrow CredentialMissing
         | Some destination \<Rightarrow>
             rbnd (inTransaction (create_invited env rnd enterprise email mobile)) (\<lambda>i.
             rbnd (at_challenges (issueVerification (secrets env) now (dr_secret rnd)
                 (identity_challenge i (Some enterprise) EmployeeInvite destination)))
               (\<lambda>issued. rret (iv_delivery issued))))"

text \<open>\<open>PlatformService.inviteStaff\<close>, which refuses an address that has a login. It issues a code and, unlike
  the invitation of a colleague, does not hand it on to be delivered.\<close>

definition create_staff :: "auth_env \<Rightarrow> draws \<Rightarrow> string option \<Rightarrow> string option \<Rightarrow> (auth_error, auth_db, int) act" where
  "create_staff env rnd email mobile =
     bnd (reads (existing_login env email mobile)) (\<lambda>existing.
     if existing \<noteq> None then throw AlreadyEmployed
     else bnd (insert_identity env email mobile (hashPassword env (dr_salt rnd) (dr_refresh rnd))) (\<lambda>i.
       andThen (modifies (\<lambda>db. db\<lparr>staffMembers := staffMembers db @
         [\<lparr>sf_id = fresh_id (map sf_id (staffMembers db)), sf_identityId = i, sf_allEnterprises = False,
           sf_status = Invited\<rparr>]\<rparr>)) (ret i)))"

definition inviteStaff :: "auth_env \<Rightarrow> int \<Rightarrow> draws \<Rightarrow> string option \<Rightarrow> string option \<Rightarrow> unit auth_req" where
  "inviteStaff env now rnd emailText mobileText =
     (let email = given (map_option (normalizedEmail env) emailText);
          mobile = Option.bind mobileText (canonicalMobile env)
      in case first_address email mobile of
           None \<Rightarrow> rthrow CredentialMissing
         | Some destination \<Rightarrow>
             rbnd (inTransaction (create_staff env rnd email mobile)) (\<lambda>i.
             rbnd (at_challenges (issueVerification (secrets env) now (dr_secret rnd)
                 (identity_challenge i None EmployeeInvite destination)))
               (\<lambda>issued. rret ())))"

text \<open>\<open>EnterpriseOnboardingService.signup\<close>: a business, its owner's login and employment, a first code.\<close>

definition create_owner :: "auth_env \<Rightarrow> draws \<Rightarrow> string \<Rightarrow> string option \<Rightarrow> string option \<Rightarrow> string \<Rightarrow>
    (auth_error, auth_db, int \<times> int) act" where
  "create_owner env rnd name email mobile password =
     bnd (reads (\<lambda>db. fresh_id (map bu_id (businesses db)))) (\<lambda>e.
     andThen (modifies (\<lambda>db. db\<lparr>businesses := businesses db @ [\<lparr>bu_id = e, bu_name = name, bu_status = PendingBusiness\<rparr>]\<rparr>))
     (bnd (insert_identity env email mobile (hashPassword env (dr_salt rnd) password)) (\<lambda>i.
      andThen (insert_employment i e ActiveEmployment) (ret (e, i)))))"

definition signup :: "auth_env \<Rightarrow> int \<Rightarrow> draws \<Rightarrow> string \<Rightarrow> string option \<Rightarrow> string option \<Rightarrow> string \<Rightarrow>
    issued_verification auth_req" where
  "signup env now rnd name emailText mobileText password =
     (let email = map_option (normalizedEmail env) emailText;
          mobile = Option.bind mobileText (canonicalMobile env)
      in if email \<noteq> None \<and> \<not> isValidEmail (the email) then rthrow EmailUnparseable
         else if mobileText \<noteq> None \<and> mobile = None then rthrow MobileUnparseable
         else case first_address email mobile of
           None \<Rightarrow> rthrow CredentialMissing
         | Some destination \<Rightarrow>
             rbnd (inTransaction (create_owner env rnd name email mobile password)) (\<lambda>(e, i).
             at_challenges (issueVerification (secrets env) now (dr_secret rnd)
               (identity_challenge i (Some e) FirstLogin destination))))"

text \<open>\<open>EmployeesService.setStatus\<close> after its checks: the write, and the sessions it ends.\<close>

definition changeEmployment :: "int \<Rightarrow> int \<Rightarrow> int \<Rightarrow> LifecycleStatus \<Rightarrow> unit auth_req" where
  "changeEmployment now enterprise employeeId status =
     rbnd (rreads (\<lambda>db. find (\<lambda>m. ey_id m = employeeId \<and> ey_enterpriseId m = enterprise) (employments db))) (\<lambda>found.
     case found of
       None \<Rightarrow> rthrow EmployeeMissing
     | Some m \<Rightarrow>
         (case mayChangeStatus (ey_status m) status (ey_joined m) of
            Some denial \<Rightarrow> rthrow IllegalTransition
          | None \<Rightarrow>
              rthen (rwrites (\<lambda>db. db\<lparr>employments := update_where
                  (\<lambda>r. ey_id r = employeeId \<and> ey_enterpriseId r = enterprise \<and> ey_status r = ey_status m)
                  (\<lambda>r. r\<lparr>ey_status := status\<rparr>) (employments db)\<rparr>))
              (if status = Suspended \<and> ey_joined m
               then rbnd (rreads (hasActiveEmploymentElsewhere (ey_identityId m) enterprise)) (\<lambda>elsewhere.
                 if elsewhere then rret ()
                 else rwrites (\<lambda>db. snd (revokeAllForIdentity now (ey_identityId m) db)))
               else rret ())))"

text \<open>\<open>PlatformService.setStaffStatus\<close>; the locked count and the write are one transaction.\<close>

definition findStaffTarget :: "int \<Rightarrow> auth_db \<Rightarrow> (staff_row \<times> login_identity) option" where
  "findStaffTarget target db = Option.bind (find (\<lambda>s. sf_id s = target) (staffMembers db))
     (\<lambda>s. map_option (Pair s) (identityById (sf_identityId s) db))"

definition countOtherActivePlatformAdmins :: "int \<Rightarrow> auth_db \<Rightarrow> nat" where
  "countOtherActivePlatformAdmins i db =
     length (filter (\<lambda>s. sf_id s \<noteq> i \<and> sf_status s = ActiveEmployment \<and> sf_allEnterprises s) (staffMembers db))"

definition everAccepted :: "login_identity \<Rightarrow> bool" where
  "everAccepted i \<longleftrightarrow> li_emailVerifiedAt i \<noteq> None \<or> li_mobileVerifiedAt i \<noteq> None"

definition write_staff_status :: "staff_row \<Rightarrow> LifecycleStatus \<Rightarrow> (auth_error, auth_db, unit) act" where
  "write_staff_status s status =
     bnd (reads (countOtherActivePlatformAdmins (sf_id s))) (\<lambda>others.
     if status = Suspended \<and> sf_allEnterprises s \<and> others = 0 then throw LastPlatformAdmin
     else modifies (\<lambda>db. db\<lparr>staffMembers := update_where (\<lambda>x. sf_id x = sf_id s \<and> sf_status x = sf_status s)
       (\<lambda>x. x\<lparr>sf_status := status\<rparr>) (staffMembers db)\<rparr>))"

definition setStaffStatus :: "int \<Rightarrow> int \<Rightarrow> int \<Rightarrow> LifecycleStatus \<Rightarrow> unit auth_req" where
  "setStaffStatus now acting target status =
     rbnd (rreads (findStaffTarget target)) (\<lambda>found.
     case found of
       None \<Rightarrow> rthrow EmployeeMissing
     | Some (s, i) \<Rightarrow>
         if sf_id s = acting then rthrow (RequestDenied [])
         else (case mayChangeStatus (sf_status s) status (everAccepted i) of
            Some denial \<Rightarrow> rthrow IllegalTransition
          | None \<Rightarrow>
              rthen (inTransaction (write_staff_status s status))
              (if status = Suspended \<and> everAccepted i
               then rwrites (\<lambda>db. snd (revokeAllForIdentity now (sf_identityId s) db))
               else rret ())))"

text \<open>\<open>PlatformService.setEnterpriseStatus\<close>.\<close>

fun ENTERPRISE_STATUS_TRANSITIONS :: "EnterpriseStatus \<Rightarrow> EnterpriseStatus list" where
  "ENTERPRISE_STATUS_TRANSITIONS PendingBusiness = [ActiveBusiness, SuspendedBusiness]"
| "ENTERPRISE_STATUS_TRANSITIONS ActiveBusiness = [SuspendedBusiness]"
| "ENTERPRISE_STATUS_TRANSITIONS SuspendedBusiness = [ActiveBusiness]"

definition setEnterpriseStatus :: "int \<Rightarrow> EnterpriseStatus \<Rightarrow> unit auth_req" where
  "setEnterpriseStatus e status =
     rbnd (rreads (businessById e)) (\<lambda>found.
     case found of
       None \<Rightarrow> rthrow UnknownEnterprise
     | Some b \<Rightarrow>
         if bu_status b = status \<or> status \<notin> set (ENTERPRISE_STATUS_TRANSITIONS (bu_status b)) then rthrow IllegalTransition
         else rwrites (\<lambda>db. db\<lparr>businesses := update_where (\<lambda>x. bu_id x = e \<and> bu_status x = bu_status b)
           (\<lambda>x. x\<lparr>bu_status := status\<rparr>) (businesses db)\<rparr>))"

end
