(* ===== verification/Auth_Demo.thy ===== *)
theory Auth_Demo
  imports Auth_Service
begin

text \<open>
  Concrete values the examples of the following theories run on: one business with an owner who has
  proved her address, a second business, and a service whose secrets are written in clear.
\<close>

definition demo_auth :: auth_env where
  "demo_auth = \<lparr>secrets = \<lparr>hashSecret = rev, realtimeEnabled = True, staticCode = ''000000''\<rparr>,
     hashPassword = (\<lambda>_ p. p), verifyPassword = (=), hashOpaqueToken = rev, sqlLower = id, collation = length,
     normalizedEmail = id, canonicalMobile = (\<lambda>m. if m = [] then None else Some m),
     signJwt = (\<lambda>now n p. ''t''), verifyJwt = (\<lambda>now t. Inl JwtInvalid),
     accessTtl = ''15m'', refreshTtlDays = 7\<rparr>"

definition demo_draws :: "string \<Rightarrow> draws" where
  "demo_draws r = \<lparr>dr_secret = ''314159'', dr_refresh = r, dr_salt = ''salt''\<rparr>"

definition demo_identity :: "int \<Rightarrow> string \<Rightarrow> string \<Rightarrow> login_identity" where
  "demo_identity i email mobile = \<lparr>li_id = i, li_email = Some email, li_mobile = Some mobile,
     li_passwordHash = ''s3cret'', li_emailVerifiedAt = Some 0, li_mobileVerifiedAt = None,
     li_disabled = False, li_failedLoginCount = 0, li_lockedUntil = None, li_lastLoginAt = None\<rparr>"

definition demo_employment :: "int \<Rightarrow> int \<Rightarrow> int \<Rightarrow> employment_row" where
  "demo_employment m i e = \<lparr>ey_id = m, ey_identityId = i, ey_enterpriseId = e, ey_status = ActiveEmployment,
     ey_joined = True, ey_lastActiveAt = None\<rparr>"

definition demo_auth_db :: "login_identity list \<Rightarrow> auth_db" where
  "demo_auth_db ls = \<lparr>logins = ls, sessions = [], nextSession = 1,
     employments = [demo_employment 5 7 1],
     staffMembers = [],
     businesses = [\<lparr>bu_id = 1, bu_name = ''Cafe'', bu_status = ActiveBusiness\<rparr>,
                   \<lparr>bu_id = 2, bu_name = ''Gym'', bu_status = ActiveBusiness\<rparr>],
     challenges = \<lparr>v_rows = [], v_next = 1\<rparr>, auditTrail = [], signedPayloads = []\<rparr>"

definition demo_start :: auth_db where
  "demo_start = demo_auth_db [demo_identity 7 ''ann@x.org'' ''+911'']"

definition demo_sign_in :: "string \<Rightarrow> login_request" where
  "demo_sign_in pw = \<lparr>lr_email = Some ''ann@x.org'', lr_mobile = None, lr_password = pw\<rparr>"

lemmas demo_defs = demo_auth_def demo_draws_def demo_identity_def demo_employment_def demo_auth_db_def
  demo_start_def demo_sign_in_def

text \<open>She signs in: one session, one access token for her business.\<close>

definition demo_signed_in :: auth_db where
  "demo_signed_in = snd (login demo_auth 0 (demo_draws ''r1'') (demo_sign_in ''s3cret'') demo_start)"

lemma demo_signs_in:
  "fst (login demo_auth 0 (demo_draws ''r1'') (demo_sign_in ''s3cret'') demo_start)
     = Inr (Authenticated ''t'' (Some \<lparr>ed_enterpriseId = 1, ed_name = ''Cafe''\<rparr>) ''r1'' 604800000)"
  "map se_id (sessions demo_signed_in) = [1]"
  by code_simp+

end
