(* ===== verification/Auth_Runs.thy ===== *)
theory Auth_Runs
  imports Auth_Demo
begin

text \<open>
  Everything anybody can ask of the authentication endpoints, in any order and at any time, together
  with what the rest of the service does to logins (invitations, sign-ups, suspensions, sweeps).
  Requests run one after the other; the interleaving of code submissions, where it matters, is
  theory \<open>Verification_Race\<close>. The one assumption on the signature scheme is in the rule: a selection
  token that verifies carries a payload the service signed.
\<close>

section \<open>Requests\<close>

datatype auth_request =
    Login login_request
  | SubmitCode int string
  | AcceptInvite "string option" "string option" string string
  | Resend "string option" "string option" VerificationKind
  | Select string int
  | Refresh string "int option"
  | Switch int int
  | Logout string
  | LogoutAll int
  | Invite int "string option" "string option"
  | InviteStaff "string option" "string option"
  | Signup string "string option" "string option" string
  | ChangeEmployment int int LifecycleStatus
  | ChangeStaff int int LifecycleStatus
  | ChangeBusiness int EnterpriseStatus
  | SweepSessions int nat
  | SweepCodes int nat

fun perform :: "auth_env \<Rightarrow> int \<Rightarrow> draws \<Rightarrow> auth_request \<Rightarrow> auth_db \<Rightarrow> auth_db" where
  "perform env now rnd (Login req) db = snd (login env now rnd req db)"
| "perform env now rnd (SubmitCode r code) db = snd (verifyEndpoint env now rnd r code db)"
| "perform env now rnd (AcceptInvite e m code pw) db = snd (acceptInviteEndpoint env now rnd e m code pw db)"
| "perform env now rnd (Resend e m k) db = snd (resendEndpoint env now rnd e m k db)"
| "perform env now rnd (Select tok e) db = snd (selectEnterprise env now rnd tok e db)"
| "perform env now rnd (Refresh tok e) db = snd (refresh env now tok e db)"
| "perform env now rnd (Switch i e) db = snd (switchEnterprise env now i e db)"
| "perform env now rnd (Logout tok) db = snd (logout env now tok db)"
| "perform env now rnd (LogoutAll i) db = snd (signOutEverywhere now i db)"
| "perform env now rnd (Invite ent e m) db = snd (inviteColleague env now rnd ent e m db)"
| "perform env now rnd (InviteStaff e m) db = snd (inviteStaff env now rnd e m db)"
| "perform env now rnd (Signup n e m pw) db = snd (signup env now rnd n e m pw db)"
| "perform env now rnd (ChangeEmployment ent m st) db = snd (changeEmployment now ent m st db)"
| "perform env now rnd (ChangeStaff a i st) db = snd (setStaffStatus now a i st db)"
| "perform env now rnd (ChangeBusiness e st) db = snd (setEnterpriseStatus e st db)"
| "perform env now rnd (SweepSessions cutoff n) db = sweepSessions cutoff n db"
| "perform env now rnd (SweepCodes cutoff n) db = db\<lparr>challenges := sweepVerifications cutoff n (challenges db)\<rparr>"

definition unforged :: "auth_env \<Rightarrow> int \<Rightarrow> auth_request \<Rightarrow> auth_db \<Rightarrow> bool" where
  "unforged env now req db \<longleftrightarrow> (case req of
     Select tok e \<Rightarrow> (case verifyJwt env now tok of Inr p \<Rightarrow> p \<in> set (signedPayloads db) | _ \<Rightarrow> True) | _ \<Rightarrow> True)"

definition fresh_auth :: "auth_env \<Rightarrow> auth_db \<Rightarrow> bool" where
  "fresh_auth env db \<longleftrightarrow> distinct (map li_id (logins db))
     \<and> list_all (\<lambda>r. li_lockedUntil r = None \<and> map_option (sqlLower env) (li_email r) = li_email r) (logins db)
     \<and> sessions db = [] \<and> v_rows (challenges db) = [] \<and> signedPayloads db = []"

text \<open>\<open>admits\<close> restricts the requests of a run; \<open>\<lambda>_ _. True\<close> is no restriction.\<close>

inductive auth_steps :: "auth_env \<Rightarrow> (auth_request \<Rightarrow> auth_db \<Rightarrow> bool) \<Rightarrow> int \<times> auth_db \<Rightarrow> int \<times> auth_db \<Rightarrow> bool"
  for env :: auth_env and admits :: "auth_request \<Rightarrow> auth_db \<Rightarrow> bool" where
  auth_stay: "auth_steps env admits s s"
| auth_tick: "auth_steps env admits s (t, db) \<Longrightarrow> t \<le> t' \<Longrightarrow> auth_steps env admits s (t', db)"
| auth_request: "auth_steps env admits s (t, db) \<Longrightarrow> unforged env t req db \<Longrightarrow> admits req db \<Longrightarrow>
    auth_steps env admits s (t, perform env t rnd req db)"

definition auth_reachable :: "auth_env \<Rightarrow> (auth_request \<Rightarrow> auth_db \<Rightarrow> bool) \<Rightarrow> int \<Rightarrow> auth_db \<Rightarrow> bool" where
  "auth_reachable env admits t db \<longleftrightarrow> (\<exists>t0 db0. fresh_auth env db0 \<and> auth_steps env admits (t0, db0) (t, db))"

abbreviation anything :: "auth_request \<Rightarrow> auth_db \<Rightarrow> bool" where
  "anything \<equiv> (\<lambda>_ _. True)"

section \<open>A relation that every statement refines holds between any two states of a run\<close>

text \<open>The statements the services are made of. \<open>may_login\<close>, \<open>may_session\<close>, \<open>may_sign\<close> and
  \<open>may_hold\<close> say which addresses, whose sessions, which payloads and which codes the relation lets a
  request add.\<close>

definition code_from :: "(int option \<Rightarrow> string \<Rightarrow> bool) \<Rightarrow> verification_table \<Rightarrow> verification_table \<Rightarrow> bool" where
  "code_from may_hold t t' \<longleftrightarrow> (\<forall>v'\<in>set (v_rows t').
     (\<exists>v\<in>set (v_rows t). v_identityId v' = v_identityId v \<and> v_destination v' = v_destination v)
     \<or> may_hold (v_identityId v') (v_destination v'))"

definition login_kept :: "int \<Rightarrow> login_identity \<Rightarrow> login_identity \<Rightarrow> bool" where
  "login_kept now r r' \<longleftrightarrow> li_id r' = li_id r \<and> li_email r' = li_email r \<and> li_mobile r' = li_mobile r
     \<and> (li_emailVerifiedAt r \<noteq> None \<longrightarrow> li_emailVerifiedAt r' \<noteq> None)
     \<and> (li_mobileVerifiedAt r \<noteq> None \<longrightarrow> li_mobileVerifiedAt r' \<noteq> None)
     \<and> (li_lockedUntil r' = li_lockedUntil r \<or> li_lockedUntil r' = None
          \<or> li_lockedUntil r' = Some (now + LOGIN_LOCK_DURATION_MS))"

text \<open>Whatever happens to a staff row, its flag stays; nothing but \<open>setStaffStatus\<close> ends an active one.\<close>

definition staff_kept :: "staff_row list \<Rightarrow> staff_row list \<Rightarrow> bool" where
  "staff_kept ss ss' \<longleftrightarrow> (\<forall>s\<in>set ss. \<exists>s'\<in>set ss'. sf_id s' = sf_id s \<and> sf_allEnterprises s' = sf_allEnterprises s)"

definition staff_stays :: "staff_row list \<Rightarrow> staff_row list \<Rightarrow> bool" where
  "staff_stays ss ss' \<longleftrightarrow> staff_kept ss ss' \<and> (distinct (map sf_id ss) \<longrightarrow> distinct (map sf_id ss')) \<and> (\<forall>s\<in>set ss. sf_status s = ActiveEmployment \<longrightarrow>
     (\<exists>s'\<in>set ss'. sf_id s' = sf_id s \<and> sf_allEnterprises s' = sf_allEnterprises s \<and> sf_status s' = ActiveEmployment))"

definition reach_claims :: "int \<Rightarrow> int \<Rightarrow> staff_row \<Rightarrow> access_claims" where
  "reach_claims i e s = \<lparr>ac_identityId = i, ac_enterpriseId = Some e, ac_employeeId = None,
     ac_staffId = Some (sf_id s), ac_actorKind = ActorStaff, ac_isImpersonated = True\<rparr>"

locale auth_relation = preorder_rel R for R :: "auth_db \<Rightarrow> auth_db \<Rightarrow> bool" +
  fixes env :: auth_env and now :: int and may_login :: "string option \<Rightarrow> bool"
    and may_session :: "int \<Rightarrow> bool" and may_sign :: "jwt_payload \<Rightarrow> bool"
    and may_hold :: "int option \<Rightarrow> string \<Rightarrow> bool"
  assumes R_login: "(\<And>r. login_kept now r (f r)) \<Longrightarrow> R db (update_login i f db)"
    and R_new_login: "may_login address \<Longrightarrow> insert_identity env address number h db = Inr (i, db') \<Longrightarrow> R db db'"
    and R_revoke: "R db (revoke_where P now db)"
    and R_issue: "may_session i \<Longrightarrow> (\<And>m staff. may_sign (access_payload (session_claims i m staff))) \<Longrightarrow>
      R db (snd (issueSession env now rnd i m staff db))"
    and R_sign: "may_sign p \<Longrightarrow> R db (db\<lparr>signedPayloads := p # signedPayloads db\<rparr>)"
    and R_codes: "code_from may_hold (challenges db) t \<Longrightarrow> R db (db\<lparr>challenges := t\<rparr>)"
    and R_employments: "R db (db\<lparr>employments := ms\<rparr>)"
    and R_staff: "staff_stays (staffMembers db) ss \<Longrightarrow> R db (db\<lparr>staffMembers := ss\<rparr>)"
    and R_reach: "s \<in> set (staffMembers db) \<Longrightarrow> sf_allEnterprises s \<Longrightarrow>
      R db (recordAudit (Impersonated e' (sf_id s))
        (db\<lparr>signedPayloads := access_payload (reach_claims i' e' s) # signedPayloads db\<rparr>))"
    and R_businesses: "R db (db\<lparr>businesses := bs\<rparr>)"
    and R_audit: "R db (db\<lparr>auditTrail := auditTrail db @ [a]\<rparr>)"
    and R_sweep: "R db (sweepSessions cutoff n db)"

lemma staff_kept_update:
  assumes "\<And>s. sf_id (f s) = sf_id s \<and> sf_allEnterprises (f s) = sf_allEnterprises s"
  shows "staff_kept ss (update_where P f ss)"
  unfolding staff_kept_def set_update_where bex_simps
  using assms by (auto intro: bexI [rotated])

lemma staff_stays_activate: "staff_stays ss (update_where P (\<lambda>s. s\<lparr>sf_status := ActiveEmployment\<rparr>) ss)"
proof -
  have "staff_kept ss (update_where P (\<lambda>s. s\<lparr>sf_status := ActiveEmployment\<rparr>) ss)" by (rule staff_kept_update) simp
  moreover have "\<exists>s'\<in>set (update_where P (\<lambda>s. s\<lparr>sf_status := ActiveEmployment\<rparr>) ss).
      sf_id s' = sf_id s \<and> sf_allEnterprises s' = sf_allEnterprises s \<and> sf_status s' = ActiveEmployment"
    if "s \<in> set ss" "sf_status s = ActiveEmployment" for s
  proof
    show "(if P s then s\<lparr>sf_status := ActiveEmployment\<rparr> else s) \<in> set (update_where P (\<lambda>s. s\<lparr>sf_status := ActiveEmployment\<rparr>) ss)"
      using that(1) by (auto simp: set_update_where)
  qed (use that(2) in simp)
  ultimately show ?thesis unfolding staff_stays_def by (simp add: map_update_where)
qed

lemma staff_stays_append: "sf_id new = fresh_id (map sf_id ss) \<Longrightarrow> staff_stays ss (ss @ [new])"
  by (auto simp: staff_stays_def staff_kept_def)

text \<open>Most relations hold of the single statements of \<open>issueSession\<close>; a bound on the number of sessions
  holds only of all of them together.\<close>

locale statement_relation = preorder_rel R for R :: "auth_db \<Rightarrow> auth_db \<Rightarrow> bool" +
  fixes may_session :: "int \<Rightarrow> bool" and may_sign :: "jwt_payload \<Rightarrow> bool"
  assumes S_session: "may_session i \<Longrightarrow> insert_session now i h x db = Inr (u, db') \<Longrightarrow> R db db'"
    and S_revoke: "R db (revoke_where P now db)"
    and S_sign: "may_sign p \<Longrightarrow> R db (db\<lparr>signedPayloads := p # signedPayloads db\<rparr>)"
    and S_employments: "R db (db\<lparr>employments := ms\<rparr>)"
begin

lemma leads_access_statement: "may_sign (access_payload c) \<Longrightarrow> leads R (issueAccessToken env now c)"
  unfolding issueAccessToken_def sign_def by (auto intro!: leads_rules S_sign)

lemma R_issueSession:
  assumes "may_session i" and "\<And>m staff. may_sign (access_payload (session_claims i m staff))"
  shows "R db (snd (issueSession env now rnd i m staff db))"
proof -
  have "leads R (issueSession env now rnd i m staff)"
    unfolding issueSession_def using assms
    by (auto intro!: leads_rules leads_access_statement stepsI S_employments
        simp: revokeBeyondNewest_def touchLastActive_def S_revoke dest: S_session)
  then show ?thesis by (simp add: leads_def)
qed

end

context auth_relation
begin

lemma leads_audit: "leads R (rwrites (recordAudit a))"
  by (rule leads_rwrites) (simp add: recordAudit_def R_audit)

lemma leads_failed: "leads R (rwrites (recordFailedLogin now i n LOGIN_LOCK_DURATION_MS))"
  unfolding recordFailedLogin_def by (rule leads_rwrites) (simp add: R_login login_kept_def count_failure_def)

lemma leads_succeeded: "leads R (rwrites (recordSuccessfulLogin t i))"
  unfolding recordSuccessfulLogin_def by (rule leads_rwrites) (simp add: R_login login_kept_def)

lemma R_mark: "R db (markCredentialVerified t i email db)"
  unfolding markCredentialVerified_def
  by (rule R_login) (simp add: verify_email_def verify_mobile_def login_kept_def)

lemma R_password: "R db (updatePasswordHash i h db)"
  unfolding updatePasswordHash_def by (rule R_login) (simp add: login_kept_def)

lemma R_revoke_all: "R db (snd (revokeAllForIdentity now i db))"
  unfolding revokeAllForIdentity_def snd_conv by (rule R_revoke)

lemma leads_sign: "may_sign p \<Longrightarrow> leads R (sign env now n p)"
  unfolding sign_def by (auto intro!: leads_rules R_sign)

lemma leads_access: "may_sign (access_payload c) \<Longrightarrow> leads R (issueAccessToken env now c)"
  unfolding issueAccessToken_def by (auto intro!: leads_rules leads_sign)

lemma leads_issueSession:
  assumes "may_session i" and "\<And>m staff. may_sign (access_payload (session_claims i m staff))"
  shows "leads R (issueSession env now rnd i m staff)"
  using R_issue [OF assms] by (simp add: leads_def)

lemma leads_completeLogin:
  assumes "may_session i" and "\<And>m staff. may_sign (access_payload (session_claims i m staff))"
    and "may_sign (selection_payload i)"
  shows "leads R (completeLogin env now rnd i)"
  unfolding completeLogin_def issueSelectionToken_def using assms
  by (auto intro!: leads_rules leads_succeeded leads_audit leads_issueSession leads_sign split: list.split)

lemma leads_loginable: "leads R (assertLoginable now i)"
  unfolding assertLoginable_def by (auto intro!: leads_rules)

subsection \<open>Codes\<close>

lemma code_from_refl: "code_from may_hold t t"
  by (auto simp: code_from_def)

lemma code_from_update:
  assumes "\<And>v. v_identityId (f v) = v_identityId v \<and> v_destination (f v) = v_destination v"
  shows "code_from may_hold t (update_rows P f t)"
  using assms by (fastforce simp: code_from_def update_rows_def set_update_where)

lemma leads_at:
  assumes "\<And>t. code_from may_hold t (snd (m t))"
  shows "leads R (at_challenges m)"
  unfolding at_challenges_def using assms
  by (auto simp: leads_def zoom_def split_def intro: R_codes)

lemma code_from_submit: "code_from may_hold t (snd (verifySubmitted s now r g k t))"
proof -
  have c: "code_from may_hold t (snd (spendAttempt i t))"
    "code_from may_hold t (snd (consume now i (snd (spendAttempt j t))))" for i j
  proof -
    show "code_from may_hold t (snd (spendAttempt i t))"
      unfolding spendAttempt_def snd_conv by (rule code_from_update) simp
    show "code_from may_hold t (snd (consume now i (snd (spendAttempt j t))))"
      by (fastforce simp: code_from_def spendAttempt_def consume_def update_rows_def set_update_where)
  qed
  show ?thesis
    using c by (auto simp: verifySubmitted_def req_defs code_from_refl split: option.split prod.splits)
      (metis snd_conv)+
qed

lemma code_from_trans: "code_from may_hold t u \<Longrightarrow> code_from may_hold u x \<Longrightarrow> code_from may_hold t x"
  by (fastforce simp: code_from_def)

lemma code_from_replace:
  assumes "may_hold (n_identityId inp) (n_destination inp)
      \<or> (\<exists>v\<in>set (v_rows t). v_identityId v = n_identityId inp \<and> v_destination v = n_destination inp)"
    and "replace_live now inp h e m t = Inr (v, t')"
  shows "code_from may_hold t t'"
proof -
  let ?s = "supersedeLive now (n_identityId inp) (n_customerId inp) (n_kind inp) (n_destination inp) t"
  have "insert_verification now inp h e m ?s = Inr (v, t')"
    using assms(2) by (simp add: replace_live_def andThen_def bnd_def modifies_def)
  then have rows: "v_rows t' = v_rows ?s @ [v]" and v: "v_identityId v = n_identityId inp" "v_destination v = n_destination inp"
    by (auto simp: insert_verification_Inr)
  have "code_from may_hold t ?s" unfolding supersedeLive_def by (rule code_from_update) simp
  with rows v assms(1) show ?thesis by (auto simp: code_from_def) metis
qed

lemma code_from_issue:
  assumes "may_hold (n_identityId inp) (n_destination inp)
      \<or> (\<exists>v\<in>set (v_rows t). v_identityId v = n_identityId inp \<and> v_destination v = n_destination inp)"
  shows "code_from may_hold t (snd (issueVerification s now rnd inp t))"
  using code_from_replace [OF assms]
  by (auto simp: issueVerification_def assertWithinDestinationCap_def Let_def req_defs inTransaction_def code_from_refl
      split: sum.split)

lemma code_from_by_destination: "code_from may_hold t (snd (verifyByDestination s now d g k t))"
  by (simp add: verifyByDestination_def rbnd_def rreads_def rthrow_def code_from_refl code_from_submit split: option.split)

lemma code_from_resend_count: "code_from may_hold t (recordResend now i t)"
  unfolding recordResend_def by (rule code_from_update) simp

lemma code_from_resend: "code_from may_hold t (snd (resend s now rnd d k c t))"
proof (cases "findLiveByDestination d k t")
  case None
  then show ?thesis by (simp add: resend_def req_defs code_from_refl)
next
  case (Some v)
  let ?inp = "\<lparr>n_subjectKind = v_subjectKind v, n_identityId = v_identityId v, n_enterpriseId = v_enterpriseId v,
      n_customerId = v_customerId v, n_customerIdentifierId = v_customerIdentifierId v,
      n_kind = k, n_channel = c, n_destination = d\<rparr>"
  have issued: "code_from may_hold t (snd (issueVerification s now rnd ?inp t))"
    by (rule code_from_issue) (use findLiveByDestination_mem [OF Some] in auto)
  obtain r u where run: "issueVerification s now rnd ?inp t = (r, u)" by fastforce
  with issued have "code_from may_hold t u" by simp
  with run Some show ?thesis
    by (auto simp: resend_def req_defs code_from_refl split: sum.split
        intro: code_from_trans [OF _ code_from_resend_count])
qed

subsection \<open>Requests that add no session of somebody else\<close>

lemma leads_standing: "leads R (assertStandingNotRevoked now i b)"
  unfolding assertStandingNotRevoked_def by (auto intro!: leads_rules R_revoke_all split: prod.split)

lemma leads_refresh:
  assumes "\<And>i m staff. may_sign (access_payload (session_claims i m staff))"
  shows "leads R (refresh env now tok e)"
  unfolding refresh_def named_employment_def using assms
  by (auto intro!: leads_rules leads_loginable leads_standing leads_access)

lemma R_reach_token:
  assumes "s \<in> set (staffMembers db)" and "sf_allEnterprises s"
  shows "R db (snd (rbnd (issueAccessToken env now (reach_claims i' e' s))
     (\<lambda>token. rthen (rwrites (recordAudit (Impersonated e' (sf_id s)))) (rret (token, e))) db))"
proof (cases "parseDuration (accessTtl env)")
  case None
  then show ?thesis by (simp add: issueAccessToken_def rbnd_def rthrow_def rel_refl)
next
  case (Some n)
  with R_reach [OF assms] show ?thesis by (simp add: issueAccessToken_def sign_def req_defs)
qed

lemma leads_switch:
  assumes "\<And>i m staff. may_sign (access_payload (session_claims i m staff))"
  shows "leads R (switchEnterprise env now i e)"
proof (rule leadsI)
  fix db
  have none: "R db (snd (case staffActiveByIdentity i db of
      None \<Rightarrow> rthrow AuthNoActiveEmployment db
    | Some s \<Rightarrow> (if \<not> sf_allEnterprises s then rthrow AuthNoActiveEmployment
        else rbnd (issueAccessToken env now (reach_claims i e s))
          (\<lambda>token. rthen (rwrites (recordAudit (Impersonated e (sf_id s)))) (rret (token, e)))) db))"
  proof (cases "staffActiveByIdentity i db")
    case (Some s)
    then have "s \<in> set (staffMembers db)" unfolding staffActiveByIdentity_def by (metis find_Some_iff_mem)
    with Some show ?thesis by (auto simp: rthrow_def rel_refl intro: R_reach_token)
  qed (simp add: rthrow_def rel_refl)
  have some: "R db (snd (rbnd (issueAccessToken env now (session_claims i (Some m) staff)) (\<lambda>token. rret (token, ey_enterpriseId m)) db))"
    for m staff
    by (rule leadsD) (auto intro!: leads_rules leads_access assms)
  show "R db (snd (switchEnterprise env now i e db))"
    using none some by (auto simp: switchEnterprise_def rbnd_rreads rthrow_def rel_refl reach_claims_def split: option.split)
qed

lemma leads_logout: "leads R (logout env now tok)"
  unfolding logout_def by (auto intro!: leads_rules leads_audit simp: revokeSession_def R_revoke)

lemma leads_signOut: "leads R (signOutEverywhere now i)"
  unfolding signOutEverywhere_def by (auto intro!: leads_rules leads_audit R_revoke_all)

lemma leads_change: "leads R (changeEmployment now e m st)"
  unfolding changeEmployment_def by (auto intro!: leads_rules R_employments R_revoke_all split: option.split)

lemma leads_business: "leads R (setEnterpriseStatus e st)"
  unfolding setEnterpriseStatus_def by (auto intro!: leads_rules R_businesses)

lemma steps_acceptance: "steps R (acceptance now i e d h)"
  unfolding acceptance_def activateEmployment_def activateStaff_def recordAudit_def
  by (auto intro!: steps_rules R_password R_mark R_employments R_staff R_audit R_revoke_all staff_stays_activate split: option.split)

lemma steps_new_login: "may_login e \<Longrightarrow> steps R (insert_identity env e m h)"
  by (rule stepsI) (rule R_new_login)

lemma steps_invited: "may_login e \<Longrightarrow> steps R (create_invited env rnd ent e m)"
  unfolding create_invited_def insert_employment_def
  by (auto intro!: steps_rules steps_new_login R_employments split: option.split)

lemma steps_staff: "may_login e \<Longrightarrow> steps R (create_staff env rnd e m)"
  unfolding create_staff_def
  by (auto intro!: steps_rules steps_new_login R_staff simp: staff_stays_append)

lemma steps_owner: "may_login e \<Longrightarrow> steps R (create_owner env rnd n e m pw)"
  unfolding create_owner_def insert_employment_def
  by (auto intro!: steps_rules steps_new_login R_employments R_businesses)

end

text \<open>A relation that restricts nothing holds of every request.\<close>

locale open_relation = auth_relation +
  assumes logins_open: "may_login e" and sessions_open: "may_session i" and codes_open: "may_hold i' d"
    and payloads_open: "may_sign (access_payload (session_claims i'' m staff))" "may_sign (selection_payload j)"
begin

lemma R_perform_other:
  assumes "\<And>a i st. req \<noteq> ChangeStaff a i st"
  shows "R db (perform env now rnd req db)"
proof (cases req)
  case (Login x1)
  have "leads R (login env now rnd x1)"
    unfolding login_def resolveCredential_def Let_def
    by (auto intro!: leads_rules leads_audit leads_failed leads_loginable leads_completeLogin leads_at code_from_issue
        simp: sessions_open payloads_open codes_open split: option.split)
  then show ?thesis using Login by (simp add: leads_def)
next
  case (SubmitCode x21 x22)
  have "leads R (verifyEndpoint env now rnd x21 x22)"
    unfolding verifyEndpoint_def completeVerifiedLogin_def
    by (auto intro!: leads_rules leads_audit leads_loginable leads_completeLogin leads_at code_from_submit R_mark
        simp: sessions_open payloads_open split: option.split)
  then show ?thesis using SubmitCode by (simp add: leads_def)
next
  case (AcceptInvite x31 x32 x33 x34)
  have "leads R (acceptInviteEndpoint env now rnd x31 x32 x33 x34)"
    unfolding acceptInviteEndpoint_def completeInvite_def
    by (auto intro!: leads_rules leads_loginable leads_completeLogin leads_at code_from_by_destination steps_acceptance
        simp: sessions_open payloads_open split: option.split)
  then show ?thesis using AcceptInvite by (simp add: leads_def)
next
  case (Resend x41 x42 x43)
  have "leads R (resendEndpoint env now rnd x41 x42 x43)"
    unfolding resendEndpoint_def by (auto intro!: leads_rules leads_at code_from_resend split: option.split)
  then show ?thesis using Resend by (simp add: leads_def)
next
  case (Select x51 x52)
  have "leads R (selectEnterprise env now rnd x51 x52)"
    unfolding selectEnterprise_def
    by (auto intro!: leads_rules leads_loginable leads_issueSession simp: sessions_open payloads_open split: sum.split)
  then show ?thesis using Select by (simp add: leads_def)
next
  case (Invite x101 x102 x103)
  have "leads R (inviteColleague env now rnd x101 x102 x103)"
    unfolding inviteColleague_def Let_def
    by (auto intro!: leads_rules leads_at code_from_issue steps_invited simp: codes_open logins_open split: option.split)
  then show ?thesis using Invite by (simp add: leads_def)
next
  case (InviteStaff x111 x112)
  have "leads R (inviteStaff env now rnd x111 x112)"
    unfolding inviteStaff_def Let_def
    by (auto intro!: leads_rules leads_at code_from_issue steps_staff simp: codes_open logins_open split: option.split)
  then show ?thesis using InviteStaff by (simp add: leads_def)
next
  case (Signup x121 x122 x123 x124)
  have "leads R (signup env now rnd x121 x122 x123 x124)"
    unfolding signup_def Let_def
    by (auto intro!: leads_rules leads_at code_from_issue steps_owner simp: codes_open logins_open split: option.split prod.split)
  then show ?thesis using Signup by (simp add: leads_def)
next
  case (SweepCodes x171 x172)
  have "code_from may_hold (challenges db) (sweepVerifications x171 x172 (challenges db))"
    unfolding sweepVerifications_def code_from_def by simp (blast dest: subsetD [OF delete_some_subset])
  then show ?thesis using SweepCodes by (simp add: R_codes)
qed (use assms leads_refresh leads_switch leads_logout leads_signOut leads_change leads_business in
    \<open>auto simp: leads_def payloads_open R_sweep\<close>)

end

text \<open>A relation that does not depend on who of our people is active.\<close>

locale standing_relation = open_relation +
  assumes R_standing: "staff_kept (staffMembers db) ss \<Longrightarrow> R db (db\<lparr>staffMembers := ss\<rparr>)"
begin

lemma leads_staff: "leads R (setStaffStatus now a i st)"
  unfolding setStaffStatus_def write_staff_status_def
  by (auto intro!: leads_rules steps_rules R_standing staff_kept_update R_revoke_all split: option.split prod.split)

lemma R_perform: "R db (perform env now rnd req db)"
proof (cases "\<exists>a i st. req = ChangeStaff a i st")
  case True
  then show ?thesis using leads_staff by (auto simp: leads_def)
next
  case False
  then show ?thesis by (intro R_perform_other) blast
qed

end

section \<open>Signing out is final\<close>

definition sessions_evolve :: "auth_db \<Rightarrow> auth_db \<Rightarrow> bool" where
  "sessions_evolve db db' \<longleftrightarrow> nextSession db \<le> nextSession db'
     \<and> (\<forall>s'\<in>set (sessions db'). se_id s' < nextSession db \<longrightarrow>
          (\<exists>s\<in>set (sessions db). se_id s = se_id s' \<and> se_identityId s = se_identityId s'
             \<and> se_refreshTokenHash s = se_refreshTokenHash s' \<and> (se_revokedAt s \<noteq> None \<longrightarrow> se_revokedAt s' \<noteq> None)))"

lemma sessions_evolve_refl: "sessions_evolve db db"
  by (auto simp: sessions_evolve_def)

lemma sessions_evolve_trans:
  assumes "sessions_evolve a b" and "sessions_evolve b c"
  shows "sessions_evolve a c"
proof -
  have "\<exists>s\<in>set (sessions a). se_id s = se_id x \<and> se_identityId s = se_identityId x
      \<and> se_refreshTokenHash s = se_refreshTokenHash x \<and> (se_revokedAt s \<noteq> None \<longrightarrow> se_revokedAt x \<noteq> None)"
    if x: "x \<in> set (sessions c)" and lt: "se_id x < nextSession a" for x
  proof -
    have "se_id x < nextSession b" using assms(1) lt by (simp add: sessions_evolve_def)
    with x assms(2) obtain y where y: "y \<in> set (sessions b)" "se_id y = se_id x" "se_identityId y = se_identityId x"
      "se_refreshTokenHash y = se_refreshTokenHash x" "se_revokedAt y \<noteq> None \<longrightarrow> se_revokedAt x \<noteq> None"
      unfolding sessions_evolve_def by blast
    with assms(1) lt obtain z where "z \<in> set (sessions a)" "se_id z = se_id y" "se_identityId z = se_identityId y"
      "se_refreshTokenHash z = se_refreshTokenHash y" "se_revokedAt z \<noteq> None \<longrightarrow> se_revokedAt y \<noteq> None"
      unfolding sessions_evolve_def by metis
    with y show ?thesis by metis
  qed
  with assms show ?thesis unfolding sessions_evolve_def by (meson order_trans)
qed

lemma evolve_row:
  assumes "sessions_evolve db db'" and "s \<in> set (sessions db')" and "se_id s < nextSession db"
  shows "\<exists>x\<in>set (sessions db). se_id x = se_id s \<and> se_identityId x = se_identityId s
     \<and> se_refreshTokenHash x = se_refreshTokenHash s \<and> (se_revokedAt x \<noteq> None \<longrightarrow> se_revokedAt s \<noteq> None)"
  using assms unfolding sessions_evolve_def by simp

lemma evolve_same: "sessions db' = sessions db \<Longrightarrow> nextSession db' = nextSession db \<Longrightarrow> sessions_evolve db db'"
  by (auto simp: sessions_evolve_def)

lemma evolve_update:
  assumes "\<And>s. se_id (f s) = se_id s \<and> se_identityId (f s) = se_identityId s
      \<and> se_refreshTokenHash (f s) = se_refreshTokenHash s \<and> (se_revokedAt s \<noteq> None \<longrightarrow> se_revokedAt (f s) \<noteq> None)"
  shows "sessions_evolve db (db\<lparr>sessions := update_where P f (sessions db)\<rparr>)"
  using assms by (fastforce simp: sessions_evolve_def set_update_where)

lemma evolve_revoke: "sessions_evolve db (revoke_where P now db)"
  unfolding revoke_where_def by (rule evolve_update) simp

lemma evolve_session: "insert_session now i h x db = Inr (u, db') \<Longrightarrow> sessions_evolve db db'"
  by (auto simp: insert_session_def sessions_evolve_def split: if_splits)

lemma evolve_identity: "insert_identity env e m h db = Inr (i, db') \<Longrightarrow> sessions_evolve db db'"
  by (auto simp: insert_identity_def Let_def intro!: evolve_same split: if_splits)

lemma evolve_sweep: "sessions_evolve db (sweepSessions cutoff n db)"
  unfolding sweepSessions_def sessions_evolve_def by simp (blast dest: subsetD [OF delete_some_subset])

interpretation evolve_statement: statement_relation sessions_evolve "\<lambda>_. True" "\<lambda>_. True"
  by unfold_locales (auto intro: sessions_evolve_refl sessions_evolve_trans evolve_session evolve_revoke evolve_same)

interpretation evolve: standing_relation sessions_evolve env now "\<lambda>_. True" "\<lambda>_. True" "\<lambda>_. True" "\<lambda>_ _. True"
  for env :: auth_env and now :: int
  by unfold_locales
    ((erule evolve_identity | simp add: update_login_def recordAudit_def evolve_same evolve_revoke evolve_sweep evolve_statement.R_issueSession)+)

lemma evolve_steps: "auth_steps env admits s s' \<Longrightarrow> sessions_evolve (snd s) (snd s')"
proof (induction rule: auth_steps.induct)
  case (auth_request s t db req rnd)
  then show ?case using evolve.R_perform sessions_evolve_trans by fastforce
qed (simp_all add: sessions_evolve_refl)

lemma live_session:
  "findLiveByTokenHash t h db = Some s \<Longrightarrow> s \<in> set (sessions db) \<and> se_refreshTokenHash s = h \<and> se_live t s"
  unfolding findLiveByTokenHash_def by (rule find_Some_iff_mem)

text \<open>
  C8: After "sign out everywhere" no session that existed then is ever live again: whatever anybody
  requests later, a live session of that person was opened after it.
\<close>
theorem sign_out_is_final:
  assumes "auth_steps env anything (now, snd (signOutEverywhere now i db)) (t, db')"
    and "findLiveByTokenHash t h db' = Some s" and "se_identityId s = i"
  shows "nextSession db \<le> se_id s"
proof (rule ccontr)
  let ?out = "snd (signOutEverywhere now i db)"
  have out: "sessions ?out = update_where (of_identity i) (\<lambda>s. s\<lparr>se_revokedAt := Some now\<rparr>) (sessions db)"
    "nextSession ?out = nextSession db"
    by (simp_all add: signOutEverywhere_def req_defs revokeAllForIdentity_def revoke_where_def recordAudit_def)
  assume "\<not> nextSession db \<le> se_id s"
  then have lt: "se_id s < nextSession ?out" by (simp only: out(2) not_le)
  have s:  "s \<in> set (sessions db')" "se_revokedAt s = None"
    using live_session [OF assms(2)] by (simp_all add: se_live_def)
  have "sessions_evolve ?out db'" using evolve_steps [OF assms(1)] by simp
  from evolve_row [OF this s(1) lt] obtain x where x: "x \<in> set (sessions ?out)" "se_identityId x = se_identityId s"
    "se_revokedAt x \<noteq> None \<longrightarrow> se_revokedAt s \<noteq> None" by blast
  have "of_identity i x" using x(2,3) s(2) assms(3) by (auto simp: of_identity_def)
  moreover obtain y where "x = (if of_identity i y then y\<lparr>se_revokedAt := Some now\<rparr> else y)"
    using x(1) unfolding out(1) set_update_where by blast
  then have "\<not> of_identity i x" by (simp add: of_identity_def)
  ultimately show False by blast
qed

definition demo_signed_out :: auth_db where
  "demo_signed_out = snd (signOutEverywhere 10 7 demo_signed_in)"

definition demo_back :: auth_db where
  "demo_back = perform demo_auth 20 (demo_draws ''r2'') (Login (demo_sign_in ''s3cret'')) demo_signed_out"

lemma sign_out_is_final_witness:
  "findLiveByTokenHash 20 (rev ''r1'') demo_back = None
   \<and> nextSession demo_signed_in \<le> se_id (the (findLiveByTokenHash 20 (rev ''r2'') demo_back))"
proof
  show "findLiveByTokenHash 20 (rev ''r1'') demo_back = None" by code_simp
  let ?s = "the (findLiveByTokenHash 20 (rev ''r2'') demo_back)"
  have "auth_steps demo_auth anything (10, demo_signed_out) (20, demo_signed_out)"
    by (rule auth_tick [OF auth_stay]) simp
  moreover have "unforged demo_auth 20 (Login (demo_sign_in ''s3cret'')) demo_signed_out" by (simp add: unforged_def)
  ultimately have run: "auth_steps demo_auth anything (10, demo_signed_out) (20, demo_back)"
    unfolding demo_back_def by (rule auth_request) simp
  have "findLiveByTokenHash 20 (rev ''r2'') demo_back \<noteq> None" and own: "se_identityId ?s = 7"
    by code_simp+
  then have found: "findLiveByTokenHash 20 (rev ''r2'') demo_back = Some ?s" by simp
  from sign_out_is_final [OF run [unfolded demo_signed_out_def] found own]
  show "nextSession demo_signed_in \<le> se_id ?s" .
qed

lemma demo_fresh: "fresh_auth demo_auth demo_start" 
  by code_simp

end
