(* ===== verification/Auth_Safety.thy ===== *)
theory Auth_Safety
  imports Auth_Runs
begin

text \<open>
  What holds of every state the authentication service can reach: at most ten live sessions per
  person, and the newest is never the one that goes; a session only for somebody who proved an
  address; a token that reaches into a business from outside always says so and is on record.
\<close>

section \<open>The session cap\<close>

definition live_of :: "int \<Rightarrow> int \<Rightarrow> auth_db \<Rightarrow> session_row list" where
  "live_of t i db = filter (\<lambda>s. se_identityId s = i \<and> se_live t s) (sessions db)"

definition capped :: "int \<Rightarrow> auth_db \<Rightarrow> bool" where
  "capped t db \<longleftrightarrow> distinct (map se_id (sessions db))
     \<and> (\<forall>s\<in>set (sessions db). se_id s < nextSession db \<and> se_createdAt s \<le> t)
     \<and> (\<forall>i. length (live_of t i db) \<le> MAX_SESSIONS_PER_IDENTITY)"

lemma capped_fewer:
  assumes "capped t db" and "distinct (map se_id (sessions db'))" and "nextSession db' = nextSession db"
    and "\<And>s. s \<in> set (sessions db') \<Longrightarrow> \<exists>r\<in>set (sessions db). se_id r = se_id s \<and> se_createdAt r = se_createdAt s"
    and "\<And>i. length (live_of t i db') \<le> length (live_of t i db)"
  shows "capped t db'"
  unfolding capped_def
proof (intro conjI ballI allI)
  show "se_id s < nextSession db'" "se_createdAt s \<le> t" if s: "s \<in> set (sessions db')" for s
  proof -
    from assms(4) [OF s] obtain r where "r \<in> set (sessions db)" "se_id r = se_id s" "se_createdAt r = se_createdAt s"
      by blast
    then show "se_id s < nextSession db'" "se_createdAt s \<le> t" using assms(1,3) by (auto simp: capped_def)
  qed
  show "length (live_of t i db') \<le> MAX_SESSIONS_PER_IDENTITY" for i
    using assms(1) assms(5) [of i] unfolding capped_def by (meson le_trans)
qed (rule assms(2))

lemma capped_later:
  assumes "capped t db" and "t \<le> t'"
  shows "capped t' db"
proof -
  have "length (live_of t' i db) \<le> length (live_of t i db)" for i
    unfolding live_of_def by (rule length_filter_mono) (use assms(2) in \<open>auto simp: se_live_def\<close>)
  with assms show ?thesis unfolding capped_def by (meson le_trans order_trans)
qed

lemma capped_same: "sessions db' = sessions db \<Longrightarrow> nextSession db' = nextSession db \<Longrightarrow> capped t db' = capped t db"
  by (simp add: capped_def live_of_def)

lemma length_filter_update:
  assumes "\<And>x. P (f x) \<Longrightarrow> P x"
  shows "length (filter P (update_where Q f xs)) \<le> length (filter P xs)"
proof -
  have "length (filter P (update_where Q f xs)) = length (filter (\<lambda>x. P (if Q x then f x else x)) xs)"
    by (simp add: update_where_def filter_map o_def)
  also have "\<dots> \<le> length (filter P xs)"
    by (rule length_filter_mono) (use assms in \<open>auto split: if_splits\<close>)
  finally show ?thesis .
qed

lemma live_revoke_le: "length (live_of t i (revoke_where P now db)) \<le> length (live_of t i db)"
proof -
  have "sessions (revoke_where P now db) = update_where P (\<lambda>s. s\<lparr>se_revokedAt := Some now\<rparr>) (sessions db)"
    by (simp add: revoke_where_def)
  then show ?thesis unfolding live_of_def by (simp only:) (rule length_filter_update, simp add: se_live_def)
qed

lemma capped_revoke:
  assumes "capped t db"
  shows "capped t (revoke_where P now db)"
proof (rule capped_fewer [OF assms])
  let ?f = "\<lambda>s :: session_row. s\<lparr>se_revokedAt := Some now\<rparr>"
  have new: "sessions (revoke_where P now db) = update_where P ?f (sessions db)" by (simp add: revoke_where_def)
  show "length (live_of t i (revoke_where P now db)) \<le> length (live_of t i db)" for i
    by (rule live_revoke_le)
  show "distinct (map se_id (sessions (revoke_where P now db)))"
    using assms by (simp add: new map_update_where capped_def)
  show "\<exists>r\<in>set (sessions db). se_id r = se_id s \<and> se_createdAt r = se_createdAt s"
    if "s \<in> set (sessions (revoke_where P now db))" for s
    using that unfolding new set_update_where by fastforce
qed (simp add: revoke_where_def)

lemma length_filter_delete: "length (filter P (delete_some Q n xs)) \<le> length (filter P xs)"
proof -
  obtain R where R: "delete_some Q n xs = filter R xs" using delete_some_filter by blast
  show ?thesis unfolding R by (induction xs) (auto simp: le_SucI)
qed

lemma capped_sweep:
  assumes "capped t db"
  shows "capped t (sweepSessions cutoff n db)"
proof (rule capped_fewer [OF assms])
  show "distinct (map se_id (sessions (sweepSessions cutoff n db)))"
    using assms unfolding capped_def sweepSessions_def by (simp add: distinct_map_delete_some)
  show "\<exists>r\<in>set (sessions db). se_id r = se_id s \<and> se_createdAt r = se_createdAt s"
    if "s \<in> set (sessions (sweepSessions cutoff n db))" for s
    using that unfolding sweepSessions_def by simp (blast dest: subsetD [OF delete_some_subset])
  show "length (live_of t i (sweepSessions cutoff n db)) \<le> length (live_of t i db)" for i
    unfolding live_of_def sweepSessions_def by simp (meson length_filter_delete order_trans)
qed (simp add: sweepSessions_def)

text \<open>The insert and the eviction together: all but the newest ten go, and the new row is the newest.\<close>

lemma newest_first_set [simp]: "set (newest_first ss) = set ss" "length (newest_first ss) = length ss"
  "distinct (map f (newest_first ss)) = distinct (map f ss)"
  by (simp_all add: newest_first_def distinct_map)

lemma sort_key_append_least:
  assumes "\<And>x. x \<in> set xs \<Longrightarrow> k y < k x"
  shows "sort_key k (xs @ [y]) = y # sort_key k xs"
  using assms
proof (induction xs)
  case (Cons a xs)
  then have "\<not> k a \<le> k y" by (simp add: not_le)
  with Cons show ?case by simp
qed simp

lemma newest_first_append:
  assumes "\<And>x. x \<in> set xs \<Longrightarrow> se_id x < se_id y \<and> se_createdAt x \<le> se_createdAt y"
  shows "newest_first (xs @ [y]) = y # newest_first xs"
proof -
  have "sort_key (\<lambda>s. - se_id s) (xs @ [y]) = y # sort_key (\<lambda>s. - se_id s) xs"
    by (rule sort_key_append_least) (use assms in simp)
  moreover have "insort_key (\<lambda>s. - se_createdAt s) y zs = y # zs" if "set zs \<subseteq> set xs" for zs
    using that assms by (intro insort_is_Cons) fastforce
  ultimately show ?thesis by (simp add: newest_first_def)
qed

lemma live_revoked:
  "map se_id (filter (\<lambda>s. se_identityId s = i \<and> se_live t s)
      (update_where (\<lambda>s. se_id s \<in> out) (\<lambda>s. s\<lparr>se_revokedAt := Some now\<rparr>) xs))
   = map se_id (filter (\<lambda>s. se_id s \<notin> out) (filter (\<lambda>s. se_identityId s = i \<and> se_live t s) xs))"
  unfolding update_where_def by (induction xs) (auto simp: se_live_def)

lemma live_after_eviction:
  assumes "distinct (map se_id (sessions db))"
  shows "length (live_of now i (revokeBeyondNewest now i keep db)) \<le> keep"
proof -
  let ?L = "newest_first (live_of now i db)" and ?out = "set (map se_id (beyond_newest now i keep db))"
  have b: "beyond_newest now i keep db = drop keep ?L" by (simp add: beyond_newest_def live_of_def)
  have dL: "distinct (map se_id ?L)" using assms by (simp add: live_of_def distinct_map_filter)
  have rest: "map se_id (live_of now i (revokeBeyondNewest now i keep db))
    = map se_id (filter (\<lambda>s. se_id s \<notin> ?out) (live_of now i db))"
    unfolding live_of_def revokeBeyondNewest_def revoke_where_def by (simp add: live_revoked del: filter_filter set_map)
  have "set (map se_id (filter (\<lambda>s. se_id s \<notin> ?out) (live_of now i db))) \<subseteq> set (map se_id (take keep ?L))"
  proof
    fix x assume "x \<in> set (map se_id (filter (\<lambda>s. se_id s \<notin> ?out) (live_of now i db)))"
    then obtain s where s: "s \<in> set ?L" "x = se_id s" "se_id s \<notin> ?out" by auto
    then have "s \<notin> set (drop keep ?L)" by (auto simp: b)
    with s(1) have "s \<in> set (take keep ?L)" by (metis append_take_drop_id Un_iff set_append)
    with s(2) show "x \<in> set (map se_id (take keep ?L))" by simp
  qed
  moreover have "distinct (map se_id (filter (\<lambda>s. se_id s \<notin> ?out) (live_of now i db)))"
    using assms by (simp add: live_of_def distinct_map_filter)
  ultimately have "length (map se_id (filter (\<lambda>s. se_id s \<notin> ?out) (live_of now i db))) \<le> length (map se_id (take keep ?L))"
    by (metis card_mono distinct_card finite_set card_length order_trans)
  then show ?thesis using rest by (metis length_map length_take min.cobounded2 order_trans)
qed

lemma issueSession_sessions:
  "(case insert_session now i (hashOpaqueToken env (dr_refresh rnd)) (refreshTokenExpiry env now) db of
      Inl e \<Rightarrow> issueSession env now rnd i m staff db = (Inl e, db)
    | Inr (u, db') \<Rightarrow>
        sessions (snd (issueSession env now rnd i m staff db)) = sessions (revokeBeyondNewest now i MAX_SESSIONS_PER_IDENTITY db')
        \<and> nextSession (snd (issueSession env now rnd i m staff db)) = nextSession db')"
  by (auto simp: issueSession_def req_defs inTransaction_def issueAccessToken_def sign_def touchLastActive_def
      revokeBeyondNewest_def revoke_where_def Let_def split: sum.split prod.split option.split)

lemma capped_issueSession:
  assumes ok: "capped now db"
  shows "capped now (snd (issueSession env now rnd i m staff db))"
proof (cases "insert_session now i (hashOpaqueToken env (dr_refresh rnd)) (refreshTokenExpiry env now) db")
  case (Inl e)
  then show ?thesis using issueSession_sessions [of env now rnd i m staff db] ok by simp
next
  case (Inr r)
  obtain u db1 where r: "r = (u, db1)" by (cases r)
  define new where "new = \<lparr>se_id = nextSession db, se_identityId = i,
      se_refreshTokenHash = hashOpaqueToken env (dr_refresh rnd), se_createdAt = now,
      se_expiresAt = refreshTokenExpiry env now, se_revokedAt = None\<rparr>"
  have db1: "sessions db1 = sessions db @ [new]" "nextSession db1 = nextSession db + 1"
    using Inr r by (auto simp: insert_session_def new_def split: if_splits)
  let ?db2 = "revokeBeyondNewest now i MAX_SESSIONS_PER_IDENTITY db1"
  have d1: "distinct (map se_id (sessions db1))" using ok by (auto simp: db1 new_def capped_def)
  have "capped now ?db2"
    unfolding capped_def
  proof (intro conjI allI ballI)
    have ids: "map se_id (sessions ?db2) = map se_id (sessions db1)"
      by (simp add: revokeBeyondNewest_def revoke_where_def map_update_where)
    show "distinct (map se_id (sessions ?db2))" using d1 ids by simp
    show "se_id s < nextSession ?db2" "se_createdAt s \<le> now" if s: "s \<in> set (sessions ?db2)" for s
    proof -
      obtain x where x: "x \<in> set (sessions db1)" "se_id s = se_id x" "se_createdAt s = se_createdAt x"
        using s by (auto simp: revokeBeyondNewest_def revoke_where_def set_update_where)
      have "se_id x < nextSession db1 \<and> se_createdAt x \<le> now"
        using x(1) ok by (auto simp: db1 new_def capped_def)
      then show "se_id s < nextSession ?db2" "se_createdAt s \<le> now"
        using x by (simp_all add: revokeBeyondNewest_def revoke_where_def)
    qed
    show "length (live_of now j ?db2) \<le> MAX_SESSIONS_PER_IDENTITY" for j
    proof (cases "j = i")
      case True
      then show ?thesis using live_after_eviction [OF d1] by simp
    next
      case False
      have "length (live_of now j ?db2) \<le> length (live_of now j db1)"
        unfolding revokeBeyondNewest_def by (rule live_revoke_le)
      also have "live_of now j db1 = live_of now j db" using False by (simp add: live_of_def db1 new_def)
      finally show ?thesis using ok unfolding capped_def by (meson le_trans)
    qed
  qed
  moreover have "sessions (snd (issueSession env now rnd i m staff db)) = sessions ?db2"
    "nextSession (snd (issueSession env now rnd i m staff db)) = nextSession ?db2"
    using issueSession_sessions [of env now rnd i m staff db] Inr r
    by (simp_all add: revokeBeyondNewest_def revoke_where_def)
  ultimately show ?thesis using capped_same by blast
qed

lemma capped_identity: "insert_identity env e m h db = Inr (i, db') \<Longrightarrow> capped t db' = capped t db"
  by (auto simp: insert_identity_def Let_def intro!: capped_same split: if_splits)

interpretation capped: standing_relation "\<lambda>db db'. capped now db \<longrightarrow> capped now db'" env now "\<lambda>_. True" "\<lambda>_. True"
  "\<lambda>_. True" "\<lambda>_ _. True" for env :: auth_env and now :: int
  by unfold_locales
    ((simp add: capped_issueSession capped_revoke capped_sweep; fail)
      | (drule capped_identity [where t = now], simp) | (simp add: capped_def live_of_def update_login_def recordAudit_def))+

lemma capped_steps: "auth_steps env admits s s' \<Longrightarrow> capped (fst s) (snd s) \<Longrightarrow> capped (fst s') (snd s')"
proof (induction rule: auth_steps.induct)
  case (auth_tick s t db t')
  then show ?case using capped_later by simp
next
  case (auth_request s t db req rnd)
  then show ?case using capped.R_perform [of t db env rnd req] by simp
qed simp

lemma capped_reachable: "auth_reachable env admits t db \<Longrightarrow> capped t db"
  unfolding auth_reachable_def using capped_steps by (fastforce simp: fresh_auth_def capped_def live_of_def)

lemma newest_survives:
  assumes "capped now db" and "fst (issueSession env now rnd i m staff db) = Inr (Authenticated token dto refreshToken expiry)"
    and "now < refreshTokenExpiry env now"
  shows "\<exists>s. findLiveByTokenHash now (hashOpaqueToken env refreshToken) (snd (issueSession env now rnd i m staff db)) = Some s
     \<and> se_identityId s = i \<and> se_id s = nextSession db"
proof -
  have tok: "refreshToken = dr_refresh rnd"
    using assms(2) by (auto simp: issueSession_def req_defs Let_def inTransaction_def split: sum.splits option.splits prod.splits)
  define h where "h = hashOpaqueToken env (dr_refresh rnd)"
  obtain u db1 where ins: "insert_session now i h (refreshTokenExpiry env now) db = Inr (u, db1)"
    using issueSession_sessions [of env now rnd i m staff db] assms(2)
    by (cases "insert_session now i h (refreshTokenExpiry env now) db") (auto simp: h_def)
  define new where "new = \<lparr>se_id = nextSession db, se_identityId = i, se_refreshTokenHash = h, se_createdAt = now,
      se_expiresAt = refreshTokenExpiry env now, se_revokedAt = None\<rparr>"
  have db1: "sessions db1 = sessions db @ [new]" and unique: "\<And>s. s \<in> set (sessions db) \<Longrightarrow> se_refreshTokenHash s \<noteq> h"
    using ins by (auto simp: insert_session_def new_def list_ex_iff split: if_splits)
  let ?out = "beyond_newest now i MAX_SESSIONS_PER_IDENTITY db1"
  have "newest_first (filter (\<lambda>s. se_identityId s = i \<and> se_live now s) (sessions db1))
      = new # newest_first (filter (\<lambda>s. se_identityId s = i \<and> se_live now s) (sessions db))"
    using assms(1,3) newest_first_append [of "filter (\<lambda>s. se_identityId s = i \<and> se_live now s) (sessions db)" new]
    by (auto simp: db1 new_def se_live_def capped_def)
  then have "set ?out \<subseteq> set (sessions db)"
    by (auto simp: beyond_newest_def MAX_SESSIONS_PER_IDENTITY_def dest: in_set_dropD)
  then have stays: "se_id new \<notin> set (map se_id ?out)"
    using assms(1) by (fastforce simp: new_def capped_def)
  have fresh: "sessions (snd (issueSession env now rnd i m staff db))
      = update_where (\<lambda>s. se_id s \<in> set (map se_id ?out)) (\<lambda>s. s\<lparr>se_revokedAt := Some now\<rparr>) (sessions db @ [new])"
    using issueSession_sessions [of env now rnd i m staff db] ins
    by (simp add: h_def [symmetric] db1 revokeBeyondNewest_def revoke_where_def)
  have old: "find (\<lambda>s. se_refreshTokenHash s = h \<and> se_live now s)
      (update_where (\<lambda>s. se_id s \<in> set (map se_id ?out)) (\<lambda>s. s\<lparr>se_revokedAt := Some now\<rparr>) (sessions db)) = None"
    using unique by (auto simp: find_None_all set_update_where se_live_def)
  have "find (\<lambda>s. se_refreshTokenHash s = h \<and> se_live now s)
      (update_where (\<lambda>s. se_id s \<in> set (map se_id ?out)) (\<lambda>s. s\<lparr>se_revokedAt := Some now\<rparr>) (sessions db @ [new])) = Some new"
    using stays old assms(3) by (simp add: update_where_def find_append new_def se_live_def)
  then show ?thesis by (auto simp: findLiveByTokenHash_def fresh tok h_def [symmetric] new_def)
qed


section \<open>The last platform admin\<close>

definition staff_later :: "auth_db \<Rightarrow> auth_db \<Rightarrow> bool" where
  "staff_later db db' \<longleftrightarrow> staff_stays (staffMembers db) (staffMembers db')"

definition platform_admin :: "staff_row \<Rightarrow> bool" where
  "platform_admin s \<longleftrightarrow> sf_allEnterprises s \<and> sf_status s = ActiveEmployment"

lemma staff_stays_refl: "staff_stays ss ss"
  by (auto simp: staff_stays_def staff_kept_def)

lemma staff_kept_trans: "staff_kept a b \<Longrightarrow> staff_kept b c \<Longrightarrow> staff_kept a c"
  unfolding staff_kept_def by metis

lemma staff_later_trans:
  assumes "staff_later a b" and "staff_later b c"
  shows "staff_later a c"
proof -
  let ?on = "\<lambda>s s'. sf_id s' = sf_id s \<and> sf_allEnterprises s' = sf_allEnterprises s \<and> sf_status s' = ActiveEmployment"
  have "\<exists>z\<in>set (staffMembers c). ?on x z" if x: "x \<in> set (staffMembers a)" "sf_status x = ActiveEmployment" for x
  proof -
    obtain y where y: "y \<in> set (staffMembers b)" "?on x y"
      using assms(1) x unfolding staff_later_def staff_stays_def by blast
    then obtain z where "z \<in> set (staffMembers c)" "?on y z"
      using assms(2) unfolding staff_later_def staff_stays_def by blast
    with y show ?thesis by auto
  qed
  with assms show ?thesis
    unfolding staff_later_def staff_stays_def using staff_kept_trans by blast
qed

lemma staff_later_same: "staffMembers db' = staffMembers db \<Longrightarrow> staff_later db db'"
  by (simp add: staff_later_def staff_stays_refl)

interpretation later_statement: statement_relation staff_later "\<lambda>_. True" "\<lambda>_. True"
proof
  show "staff_later db db'" if "staff_later db x" "staff_later x db'" for db x db' using staff_later_trans [OF that] .
qed (auto simp: insert_session_def revoke_where_def intro!: staff_later_same split: if_splits)

interpretation later: open_relation staff_later env now "\<lambda>_. True" "\<lambda>_. True" "\<lambda>_. True" "\<lambda>_ _. True"
  for env :: auth_env and now :: int
  by unfold_locales
    ((simp add: later_statement.R_issueSession; fail)
      | (auto simp: update_login_def revoke_where_def recordAudit_def sweepSessions_def
          insert_identity_def Let_def staff_later_def staff_stays_refl split: if_splits) [1])+

lemma setStaffStatus_admin:
  assumes "distinct (map sf_id (staffMembers db))" and "x \<in> set (staffMembers db)" and "platform_admin x" and "st \<noteq> Invited"
  shows "\<exists>y\<in>set (staffMembers (snd (setStaffStatus now a target st db))). platform_admin y"
proof -
  have revoke: "staffMembers (snd (revokeAllForIdentity now i d)) = staffMembers d" for i d
    by (simp add: revokeAllForIdentity_def revoke_where_def)
  have written: "\<exists>y\<in>set (staffMembers db'). platform_admin y"
    if s: "find (\<lambda>s. sf_id s = target) (staffMembers db) = Some s" and w: "write_staff_status s st db = Inr ((), db')"
      and ok: "mayChangeStatus (sf_status s) st acc = None" for s db' acc
  proof -
    let ?f = "\<lambda>x. x\<lparr>sf_status := st\<rparr>" and ?P = "\<lambda>x. sf_id x = sf_id s \<and> sf_status x = sf_status s"
    have mem: "s \<in> set (staffMembers db)" using find_Some_iff_mem [OF s] by simp
    have new: "staffMembers db' = update_where ?P ?f (staffMembers db)"
      and guard: "st = Suspended \<Longrightarrow> sf_allEnterprises s \<Longrightarrow> countOtherActivePlatformAdmins (sf_id s) db \<noteq> 0"
      using w by (auto simp: write_staff_status_def bnd_def reads_def modifies_def throw_def split: if_splits)
    have keep: "y \<in> set (staffMembers db')" if "y \<in> set (staffMembers db)" "sf_id y \<noteq> sf_id s" for y
      using that by (force simp: new set_update_where)
    show ?thesis
    proof (cases "sf_id x = sf_id s")
      case False
      then show ?thesis using keep assms(2,3) by blast
    next
      case True
      then have "x = s" using distinct_map_eq [OF assms(1,2) mem] by simp
      then have "st = Suspended" using ok assms(3,4) by (cases st) (auto simp: mayChangeStatus_def platform_admin_def split: if_splits LifecycleStatus.splits)
      with guard assms(3) \<open>x = s\<close> have "countOtherActivePlatformAdmins (sf_id s) db \<noteq> 0" by (simp add: platform_admin_def)
      then obtain y where "y \<in> set (staffMembers db)" "sf_id y \<noteq> sf_id s" "platform_admin y"
        by (auto simp: countOtherActivePlatformAdmins_def platform_admin_def filter_empty_conv)
      then show ?thesis using keep by blast
    qed
  qed
  show ?thesis
  proof (cases "findStaffTarget target db")
    case None
    then show ?thesis using assms(2,3) by (auto simp: setStaffStatus_def rbnd_rreads rthrow_def)
  next
    case (Some y)
    obtain s i where y: "y = (s, i)" by (cases y)
    have s: "find (\<lambda>s. sf_id s = target) (staffMembers db) = Some s"
      using Some y by (auto simp: findStaffTarget_def bind_eq_Some_conv)
    show ?thesis
    proof (cases "sf_id s = a \<or> mayChangeStatus (sf_status s) st (everAccepted i) \<noteq> None")
      case True
      then show ?thesis using Some y assms(2,3) by (auto simp: setStaffStatus_def rbnd_rreads rthrow_def split: option.split)
    next
      case False
      then have ok: "mayChangeStatus (sf_status s) st (everAccepted i) = None" by simp
      show ?thesis
        using Some y False assms(2,3) written [OF s _ ok]
        by (cases "write_staff_status s st db")
          (auto simp: setStaffStatus_def rreads_def rthen_def rbnd_def inTransaction_def rret_def rwrites_def revoke)
    qed
  qed
qed

text \<open>What the contract of the endpoint admits: a staff status is set to active or suspended.\<close>

definition contracted :: "auth_request \<Rightarrow> auth_db \<Rightarrow> bool" where
  "contracted req db \<longleftrightarrow> (case req of ChangeStaff a i st \<Rightarrow> st \<noteq> Invited | _ \<Rightarrow> True)"

interpretation staff_ids: preorder_rel "\<lambda>d d' :: auth_db. map sf_id (staffMembers d') = map sf_id (staffMembers d)"
  by unfold_locales simp_all

lemma setStaffStatus_ids: "map sf_id (staffMembers (snd (setStaffStatus now a i st db))) = map sf_id (staffMembers db)"
proof -
  have "leads (\<lambda>d d'. map sf_id (staffMembers d') = map sf_id (staffMembers d)) (setStaffStatus now a i st)"
    unfolding setStaffStatus_def write_staff_status_def
    by (auto intro!: staff_ids.leads_rules staff_ids.steps_rules simp: map_update_where revokeAllForIdentity_def revoke_where_def
        split: option.split prod.split)
  then show ?thesis by (simp add: leads_def)
qed

lemma admin_step:
  assumes "distinct (map sf_id (staffMembers db)) \<and> (\<exists>x\<in>set (staffMembers db). platform_admin x)" and "contracted req db"
  shows "distinct (map sf_id (staffMembers (perform env now rnd req db)))
     \<and> (\<exists>x\<in>set (staffMembers (perform env now rnd req db)). platform_admin x)"
proof (cases "\<exists>a i st. req = ChangeStaff a i st")
  case True
  then obtain a i st where "req = ChangeStaff a i st" "st \<noteq> Invited" using assms(2) by (auto simp: contracted_def)
  then show ?thesis using assms(1) setStaffStatus_admin by (auto simp: setStaffStatus_ids)
next
  case False
  then have "staff_later db (perform env now rnd req db)" by (intro later.R_perform_other) blast
  then show ?thesis using assms(1) unfolding staff_later_def staff_stays_def platform_admin_def by metis
qed

lemma admin_steps:
  "auth_steps env contracted s s' \<Longrightarrow>
   distinct (map sf_id (staffMembers (snd s))) \<and> (\<exists>x\<in>set (staffMembers (snd s)). platform_admin x) \<Longrightarrow>
   distinct (map sf_id (staffMembers (snd s'))) \<and> (\<exists>x\<in>set (staffMembers (snd s')). platform_admin x)"
  by (induction rule: auth_steps.induct) (simp_all add: admin_step)

text \<open>
  C10: The console is never locked out of: once there is an active platform admin, no sequence of
  requests, the suspensions of staff by each other included, leaves the platform without one.
\<close>
theorem platform_admin_remains:
  assumes "auth_steps env contracted (t, db) (t', db')" and "distinct (map sf_id (staffMembers db))"
    and "s \<in> set (staffMembers db)" and "sf_allEnterprises s" and "sf_status s = ActiveEmployment"
  shows "\<exists>s'\<in>set (staffMembers db'). sf_allEnterprises s' \<and> sf_status s' = ActiveEmployment"
  using admin_steps [OF assms(1)] assms(2-5) by (auto simp: platform_admin_def)

definition demo_staff :: auth_db where
  "demo_staff = demo_start\<lparr>staffMembers :=
     [\<lparr>sf_id = 21, sf_identityId = 7, sf_allEnterprises = True, sf_status = ActiveEmployment\<rparr>,
      \<lparr>sf_id = 22, sf_identityId = 7, sf_allEnterprises = True, sf_status = ActiveEmployment\<rparr>]\<rparr>"

text \<open>Two admins suspend each other: the first succeeds, the second is refused.\<close>

lemma platform_admin_remains_witness:
  "\<exists>s'\<in>set (staffMembers (perform demo_auth 0 (demo_draws ''r'') (ChangeStaff 22 21 Suspended)
       (perform demo_auth 0 (demo_draws ''r'') (ChangeStaff 21 22 Suspended) demo_staff))).
     sf_allEnterprises s' \<and> sf_status s' = ActiveEmployment"
proof (rule platform_admin_remains)
  let ?one = "perform demo_auth 0 (demo_draws ''r'') (ChangeStaff 21 22 Suspended) demo_staff"
  have "auth_steps demo_auth contracted (0, demo_staff) (0, ?one)"
    by (rule auth_request [OF auth_stay]) (simp_all add: unforged_def contracted_def)
  then show "auth_steps demo_auth contracted (0, demo_staff) (0, perform demo_auth 0 (demo_draws ''r'') (ChangeStaff 22 21 Suspended) ?one)"
    by (rule auth_request) (simp_all add: unforged_def contracted_def)
  show "hd (staffMembers demo_staff) \<in> set (staffMembers demo_staff)" by code_simp
qed code_simp+

end
