(* ===== verification/Auth_Login.thy ===== *)
theory Auth_Login
  imports Auth_Safety
begin

text \<open>
  What signing in with a password tells and does: every failure looks the same, a lock ends by
  itself, and what a lock does not do.
\<close>

section \<open>Failures\<close>

lemma resolve_state: "snd (resolveCredential env req db) = db"
  by (simp add: resolveCredential_def rret_def rthrow_def split: option.split)

lemma login_found:
  assumes "fst (resolveCredential env req db) = Inr c"
  shows "login env now rnd req db =
    (case identityByCredential env c db of
       None \<Rightarrow> (Inl AuthInvalidCredentials, recordAudit (LoginFailed None NoSuchCredential) db)
     | Some i \<Rightarrow>
         if verifyPassword env (li_passwordHash i) (lr_password req)
         then rthen (assertLoginable now i)
           (if needsVerification i c
            then rbnd (at_challenges (issueVerification (secrets env) now (dr_secret rnd)
                   (identity_challenge (li_id i) None FirstLogin c)))
                 (\<lambda>issued. rret (VerificationRequired issued))
            else completeLogin env now rnd (li_id i)) db
         else if is_locked now i
         then (Inl AuthInvalidCredentials, recordAudit (LoginFailed (Some (li_id i)) AccountLocked) db)
         else (Inl AuthInvalidCredentials, recordAudit (LoginFailed (Some (li_id i)) BadPassword)
            (recordFailedLogin now (li_id i) MAX_FAILED_LOGINS LOGIN_LOCK_DURATION_MS db)))"
proof -
  have "resolveCredential env req db = (Inr c, db)" using assms resolve_state by (metis prod.collapse)
  then show ?thesis
    by (auto simp: login_def rbnd_def [of "resolveCredential env req"] rbnd_rreads rthen_rwrites rthrow_def Let_def
        split: option.split)
qed

lemma assertLoginable_answer: "fst (assertLoginable now i s) \<noteq> Inl AuthInvalidCredentials"
  by (simp add: assertLoginable_def rthrow_def rret_def split: option.split)

lemma issueSession_answer: "fst (issueSession env now rnd i m staff s) \<noteq> Inl AuthInvalidCredentials"
  by (auto simp: issueSession_def req_defs inTransaction_def insert_session_def issueAccessToken_def sign_def Let_def
      split: option.split)

lemma completeLogin_answer: "fst (completeLogin env now rnd i s) \<noteq> Inl AuthInvalidCredentials"
  using issueSession_answer
  by (auto simp: completeLogin_def rbnd_rreads rthen_rwrites rthrow_def issueSelectionToken_def sign_def
      rbnd_def [of "rthen f g" for f g] rret_def split: option.split list.split)

lemma challenge_answer:
  "fst (rbnd (at_challenges (issueVerification (secrets env) now r inp)) (\<lambda>x. rret (VerificationRequired x)) s)
     \<noteq> Inl AuthInvalidCredentials"
  by (auto simp: at_challenges_def zoom_def req_defs issueVerification_def assertWithinDestinationCap_def inTransaction_def
      replace_live_def andThen_def bnd_def modifies_def insert_verification_def Let_def split: prod.splits sum.splits if_splits)

text \<open>No account, a wrong password, and a wrong password for a locked account give one and the same
  error, and nothing else gives it; such an attempt opens no session, issues no code and signs no
  token.
\<close>
theorem login_failures_look_alike:
  assumes "fst (resolveCredential env req db) = Inr c"
  shows "(fst (login env now rnd req db) = Inl AuthInvalidCredentials \<longleftrightarrow>
      (case identityByCredential env c db of
         None \<Rightarrow> True | Some i \<Rightarrow> \<not> verifyPassword env (li_passwordHash i) (lr_password req)))
    \<and> (fst (login env now rnd req db) = Inl AuthInvalidCredentials \<longrightarrow>
      sessions (snd (login env now rnd req db)) = sessions db
      \<and> challenges (snd (login env now rnd req db)) = challenges db
      \<and> signedPayloads (snd (login env now rnd req db)) = signedPayloads db)"
proof -
  have no: "fst (rthen (assertLoginable now i) m db) \<noteq> Inl AuthInvalidCredentials"
    if "\<And>s. fst (m s) \<noteq> Inl AuthInvalidCredentials" for i and m :: "login_outcome auth_req"
    using that assertLoginable_answer [of now i db] by (auto simp: rthen_def rbnd_def split: prod.splits sum.splits)
  note complete = no [where m = "completeLogin env now rnd j" for j, OF completeLogin_answer]
  note challenge = no [where m = "rbnd (at_challenges (issueVerification (secrets env) now (dr_secret rnd) inp))
    (\<lambda>x. rret (VerificationRequired x))" for inp, OF challenge_answer]
  show ?thesis
    by (simp add: complete challenge login_found [OF assms] recordAudit_def recordFailedLogin_def update_login_def split: option.split)
qed

lemma login_failures_look_alike_witness:
  "fst (login demo_auth 0 (demo_draws ''r1'') (demo_sign_in ''guess'') demo_start) = Inl AuthInvalidCredentials
    \<and> sessions (snd (login demo_auth 0 (demo_draws ''r1'') (demo_sign_in ''guess'') demo_start)) = sessions demo_start"
proof -
  let ?c = "ByEmail ''ann@x.org''"
  have "fst (resolveCredential demo_auth (demo_sign_in ''guess'') demo_start) = Inr ?c" by code_simp
  note alike = login_failures_look_alike [OF this, where now = 0 and rnd = "demo_draws ''r1''"]
  have "\<not> verifyPassword demo_auth (li_passwordHash (the (identityByCredential demo_auth ?c demo_start)))
      (lr_password (demo_sign_in ''guess''))" by code_simp
  then show ?thesis using alike by (auto split: option.splits)
qed

section \<open>The lock\<close>

text \<open>Anybody with the right password learns so from a locked account: the answer to it is another
  one than to a wrong password, and neither answer counts as an attempt. A lock therefore does not
  bound guessing; it only delays the use of a right guess.
\<close>
theorem lock_confirms_password:
  assumes "fst (resolveCredential env req db) = Inr c" and "identityByCredential env c db = Some i"
    and "is_locked now i" and "\<not> li_disabled i"
  shows "(fst (login env now rnd req db) = Inl AuthInvalidCredentials \<longleftrightarrow>
      \<not> verifyPassword env (li_passwordHash i) (lr_password req))
    \<and> ((\<exists>s. fst (login env now rnd req db) = Inl (AuthAccountLocked s)) \<longleftrightarrow>
      verifyPassword env (li_passwordHash i) (lr_password req))
    \<and> logins (snd (login env now rnd req db)) = logins db"
proof -
  have "assertLoginable now i db = (Inl (AuthAccountLocked (- ((now - the (li_lockedUntil i)) div 1000))), db)"
    using assms(3,4) by (auto simp: assertLoginable_def is_locked_def rthrow_def split: option.splits)
  then show ?thesis
    using assms(2,3) by (simp add: login_found [OF assms(1)] rthen_def rbnd_def recordAudit_def)
qed

definition demo_locked :: auth_db where
  "demo_locked = demo_auth_db [demo_identity 7 ''ann@x.org'' ''+911''\<lparr>li_failedLoginCount := 5, li_lockedUntil := Some 900000\<rparr>]"

lemma lock_confirms_password_witness:
  "fst (login demo_auth 1000 (demo_draws ''r1'') (demo_sign_in ''guess'') demo_locked) = Inl AuthInvalidCredentials
   \<and> (\<exists>s. fst (login demo_auth 1000 (demo_draws ''r1'') (demo_sign_in ''s3cret'') demo_locked) = Inl (AuthAccountLocked s))"
proof -
  let ?c = "ByEmail ''ann@x.org''"
  let ?i = "demo_identity 7 ''ann@x.org'' ''+911''\<lparr>li_failedLoginCount := 5, li_lockedUntil := Some 900000\<rparr>"
  have c: "fst (resolveCredential demo_auth (demo_sign_in pw) demo_locked) = Inr ?c" for pw by code_simp
  have i: "identityByCredential demo_auth ?c demo_locked = Some ?i" "is_locked 1000 ?i" "\<not> li_disabled ?i" by code_simp+
  have v: "\<not> verifyPassword demo_auth (li_passwordHash ?i) (lr_password (demo_sign_in ''guess''))"
    "verifyPassword demo_auth (li_passwordHash ?i) (lr_password (demo_sign_in ''s3cret''))" by code_simp+
  from lock_confirms_password [OF c i] v show ?thesis by blast
qed

text \<open>In every state a run can reach, no lock lasts longer than the fifteen minutes it was set for.\<close>

definition locks_end :: "int \<Rightarrow> auth_db \<Rightarrow> bool" where
  "locks_end t db \<longleftrightarrow> (\<forall>r\<in>set (logins db). \<forall>u. li_lockedUntil r = Some u \<longrightarrow> u \<le> t + LOGIN_LOCK_DURATION_MS)"

lemma locks_same: "logins db' = logins db \<Longrightarrow> locks_end t db \<Longrightarrow> locks_end t db'"
  by (simp add: locks_end_def)

lemma locks_login: "(\<And>r. login_kept t r (f r)) \<Longrightarrow> locks_end t db \<Longrightarrow> locks_end t (update_login i f db)"
proof -
  assume f: "\<And>r. login_kept t r (f r)" and ok: "locks_end t db"
  have "u \<le> t + LOGIN_LOCK_DURATION_MS" if "li_lockedUntil (f r) = Some u" "r \<in> set (logins db)" for r u
    using f [of r] ok that by (auto simp: login_kept_def locks_end_def)
  with ok show "locks_end t (update_login i f db)"
    by (auto simp: locks_end_def update_login_def set_update_where)
qed

lemma locks_new: "insert_identity env e n h db = Inr (i, db') \<Longrightarrow> locks_end t db \<Longrightarrow> locks_end t db'"
  by (auto simp: insert_identity_def locks_end_def Let_def split: if_splits)

lemma insert_session_logins: "insert_session now i h x db = Inr (u, db') \<Longrightarrow> logins db' = logins db"
  by (auto simp: insert_session_def split: if_splits)

interpretation locks_statement: statement_relation "\<lambda>db db'. locks_end now db \<longrightarrow> locks_end now db'" "\<lambda>_. True" "\<lambda>_. True"
  for now :: int
  by unfold_locales (simp_all add: locks_end_def insert_session_logins revoke_where_def)

interpretation locks: standing_relation "\<lambda>db db'. locks_end now db \<longrightarrow> locks_end now db'" env now "\<lambda>_. True" "\<lambda>_. True"
  "\<lambda>_. True" "\<lambda>_ _. True" for env :: auth_env and now :: int
  by unfold_locales
    (blast intro: locks_login locks_new
      | simp add: locks_statement.R_issueSession; fail
      | simp add: locks_end_def revoke_where_def recordAudit_def sweepSessions_def)+

lemma locks_steps: "auth_steps env admits s s' \<Longrightarrow> locks_end (fst s) (snd s) \<Longrightarrow> locks_end (fst s') (snd s')"
proof (induction rule: auth_steps.induct)
  case (auth_tick s t db t')
  then show ?case by (auto simp: locks_end_def)
next
  case (auth_request s t db req rnd)
  then show ?case using locks.R_perform [of t db env rnd req] by simp
qed simp

lemma locks_reachable: "auth_reachable env admits t db \<Longrightarrow> locks_end t db"
  unfolding auth_reachable_def using locks_steps by (fastforce simp: fresh_auth_def locks_end_def list_all_iff)

definition guess_all :: "auth_env \<Rightarrow> (int \<times> draws \<times> login_request) list \<Rightarrow> auth_db \<Rightarrow> auth_db" where
  "guess_all env = fold (\<lambda>(t, rnd, req) db. snd (login env t rnd req db))"

lemma credential_anywhere: "fst (resolveCredential env req db) = fst (resolveCredential env req db')"
  by (simp add: resolveCredential_def rret_def rthrow_def split: option.split)

lemma identity_trail: "identityByCredential env c (db\<lparr>auditTrail := tr\<rparr>) = identityByCredential env c db"
  by (cases c) simp_all

lemma wrong_guesses_in_vain:
  assumes "identityByCredential env c db = Some i"
    and "\<forall>(u, r, g)\<in>set guesses. is_locked u i \<and> fst (resolveCredential env g db) = Inr c
          \<and> \<not> verifyPassword env (li_passwordHash i) (lr_password g)"
  shows "\<exists>tr. guess_all env guesses db = db\<lparr>auditTrail := tr\<rparr>"
  using assms
proof (induction guesses arbitrary: db)
  case Nil
  have "guess_all env [] db = db\<lparr>auditTrail := auditTrail db\<rparr>" by (simp add: guess_all_def)
  then show ?case by blast
next
  case (Cons a guesses)
  obtain u r g where a: "a = (u, r, g)" by (cases a)
  have c: "fst (resolveCredential env g db) = Inr c" using Cons.prems(2) a by simp
  have step: "snd (login env u r g db) = recordAudit (LoginFailed (Some (li_id i)) AccountLocked) db"
    using Cons.prems a by (simp add: login_found [OF c])
  let ?db = "recordAudit (LoginFailed (Some (li_id i)) AccountLocked) db"
  have "identityByCredential env c ?db = Some i"
    using Cons.prems(1) by (simp add: recordAudit_def identity_trail)
  moreover have "\<forall>(u, r, g)\<in>set guesses. is_locked u i \<and> fst (resolveCredential env g ?db) = Inr c
      \<and> \<not> verifyPassword env (li_passwordHash i) (lr_password g)"
    using Cons.prems(2) unfolding credential_anywhere [of env _ ?db db] by simp
  ultimately obtain tr where "guess_all env guesses ?db = ?db\<lparr>auditTrail := tr\<rparr>"
    using Cons.IH by blast
  then show ?case using step a by (auto simp: guess_all_def recordAudit_def)
qed

lemma issueSession_succeeds:
  assumes "parseDuration (accessTtl env) = Some n"
    and "hashOpaqueToken env (dr_refresh rnd) \<notin> set (map se_refreshTokenHash (sessions db))"
  shows "\<exists>token dto expiry. fst (issueSession env now rnd i m staff db) = Inr (Authenticated token dto (dr_refresh rnd) expiry)"
proof -
  have "\<not> list_ex (\<lambda>s. se_refreshTokenHash s = hashOpaqueToken env (dr_refresh rnd)) (sessions db)"
    using assms(2) by (force simp: list_ex_iff)
  with assms(1) show ?thesis
    by (cases m) (simp_all add: issueSession_def req_defs inTransaction_def insert_session_def issueAccessToken_def sign_def Let_def)
qed


text \<open>Five wrong passwords lock the demonstration account; ten more change nothing.\<close>

definition demo_guess :: "int \<Rightarrow> int \<times> draws \<times> login_request" where
  "demo_guess t = (t, demo_draws ''x'', demo_sign_in ''guess'')"

definition demo_after_five :: auth_db where
  "demo_after_five = guess_all demo_auth (replicate 5 (demo_guess 0)) demo_start"

lemma demo_after_five_reachable: "auth_reachable demo_auth anything 0 demo_after_five"
proof -
  let ?db = "\<lambda>n. guess_all demo_auth (replicate n (demo_guess 0)) demo_start"
  have next_db: "?db (Suc n) = perform demo_auth 0 (demo_draws ''x'') (Login (demo_sign_in ''guess'')) (?db n)" for n
    by (simp add: guess_all_def demo_guess_def replicate_append_same [symmetric] del: replicate_Suc)
  have "auth_steps demo_auth anything (0, demo_start) (0, ?db n)" for n
  proof (induction n)
    case 0
    show ?case by (simp add: guess_all_def auth_stay)
  next
    case (Suc n)
    show ?case unfolding next_db by (rule auth_request [OF Suc.IH]) (simp_all add: unforged_def)
  qed
  then show ?thesis unfolding auth_reachable_def demo_after_five_def using demo_fresh by blast
qed


end
