(* ===== verification/Verification_Race.thy ===== *)
theory Verification_Race
  imports Verification_Store
begin

text \<open>
  Concurrent submissions of codes. \<open>verifySubmitted\<close> is three database round trips, and any number
  of requests may be between them: \<open>verify_step\<close> is one round trip of one request, or an issue, a
  resend, the sweep, a lost request, or time passing. Three ghost fields record every code issued,
  every comparison made and every acceptance.
\<close>

section \<open>Requests in flight\<close>

text \<open>\<open>Looked\<close>: the live row was read at the given time and is not expired. \<open>Matched\<close>: an attempt was
  spent and the submitted secret is the row's.\<close>

datatype verify_call =
    Looked verification string VerificationKind int
  | Matched verification string VerificationKind int

record verify_world =
  w_table :: verification_table
  w_clock :: int
  w_calls :: "verify_call list"
  w_issued :: "verification list"
  w_compared :: "(int \<times> string) list"
  w_accepted :: "(verification \<times> string \<times> VerificationKind \<times> int) list"

definition after_spending :: "secret_env \<Rightarrow> verification \<Rightarrow> string \<Rightarrow> VerificationKind \<Rightarrow> int \<Rightarrow> verify_call list" where
  "after_spending env v g k at_time = (if verifySecret env (v_secretHash v) g then [Matched v g k at_time] else [])"

inductive verify_step :: "secret_env \<Rightarrow> verify_world \<Rightarrow> verify_world \<Rightarrow> bool" for env :: secret_env where
  passes: "0 \<le> d \<Longrightarrow> verify_step env w (w\<lparr>w_clock := w_clock w + d\<rparr>)"
| issues: "replace_live (w_clock w) inp (hashSecret env secret) (w_clock w + c_expiryMs (VERIFICATION_CONFIG (n_kind inp)))
      (c_maxAttempts (VERIFICATION_CONFIG (n_kind inp))) (w_table w) = Inr (v, t) \<Longrightarrow>
    verify_step env w (w\<lparr>w_table := t, w_issued := v # w_issued w\<rparr>)"
| looks: "findLiveByRefId r k (w_table w) = Some v \<Longrightarrow> w_clock w < v_expiresAt v \<Longrightarrow>
    verify_step env w (w\<lparr>w_calls := Looked v g k (w_clock w) # w_calls w\<rparr>)"
| spends: "w_calls w = cs @ Looked v g k at_time # cs' \<Longrightarrow> spendAttempt (v_id v) (w_table w) = (Some n, t) \<Longrightarrow>
    verify_step env w (w\<lparr>w_table := t, w_compared := (v_id v, g) # w_compared w,
      w_calls := cs @ after_spending env v g k at_time @ cs'\<rparr>)"
| refused: "w_calls w = cs @ Looked v g k at_time # cs' \<Longrightarrow> spendAttempt (v_id v) (w_table w) = (None, t) \<Longrightarrow>
    verify_step env w (w\<lparr>w_table := t, w_calls := cs @ cs'\<rparr>)"
| accepts: "w_calls w = cs @ Matched v g k at_time # cs' \<Longrightarrow> consume (w_clock w) (v_id v) (w_table w) = (True, t) \<Longrightarrow>
    verify_step env w (w\<lparr>w_table := t, w_accepted := (v, g, k, at_time) # w_accepted w, w_calls := cs @ cs'\<rparr>)"
| too_late: "w_calls w = cs @ Matched v g k at_time # cs' \<Longrightarrow> consume (w_clock w) (v_id v) (w_table w) = (False, t) \<Longrightarrow>
    verify_step env w (w\<lparr>w_table := t, w_calls := cs @ cs'\<rparr>)"
| lost: "w_calls w = cs @ c # cs' \<Longrightarrow> verify_step env w (w\<lparr>w_calls := cs @ cs'\<rparr>)"
| resends: "verify_step env w (w\<lparr>w_table := recordResend (w_clock w) i (w_table w)\<rparr>)"
| sweeps: "verify_step env w (w\<lparr>w_table := sweepVerifications cutoff limit (w_table w)\<rparr>)"

definition empty_world :: verify_world where
  "empty_world = \<lparr>w_table = \<lparr>v_rows = [], v_next = 1\<rparr>, w_clock = 0, w_calls = [], w_issued = [],
     w_compared = [], w_accepted = []\<rparr>"

inductive verify_run :: "secret_env \<Rightarrow> verify_world \<Rightarrow> bool" for env :: secret_env where
  verify_init: "verify_run env empty_world"
| verify_next: "verify_run env w \<Longrightarrow> verify_step env w w' \<Longrightarrow> verify_run env w'"

section \<open>The invariant\<close>

text \<open>What never changes of a row.\<close>

definition same_code :: "verification \<Rightarrow> verification \<Rightarrow> bool" where
  "same_code u v \<longleftrightarrow> v_id v = v_id u \<and> live_key v = live_key u \<and> v_secretHash v = v_secretHash u
     \<and> v_expiresAt v = v_expiresAt u \<and> v_maxAttempts v = v_maxAttempts u"

definition was_issued :: "verify_world \<Rightarrow> verification \<Rightarrow> bool" where
  "was_issued w v \<longleftrightarrow> (\<exists>u\<in>set (w_issued w). same_code u v)"

definition compared_with :: "verify_world \<Rightarrow> int \<Rightarrow> nat" where
  "compared_with w i = length (filter (\<lambda>c. fst c = i) (w_compared w))"

definition accepted_ids :: "verify_world \<Rightarrow> int list" where
  "accepted_ids w = map (\<lambda>a. v_id (fst a)) (w_accepted w)"

definition within_budget :: "verify_world \<Rightarrow> verification \<Rightarrow> bool" where
  "within_budget w u \<longleftrightarrow> compared_with w (v_id u) \<le> v_maxAttempts u
     \<and> (case vrow (w_table w) (v_id u) of
          None \<Rightarrow> True
        | Some v \<Rightarrow> same_code u v \<and> v_attemptCount v = compared_with w (v_id u)
            \<and> (v_id u \<in> set (accepted_ids w) \<longrightarrow> v_consumedAt v \<noteq> None)
            \<and> (v_unsettled v \<longrightarrow> (\<forall>x\<in>set (w_issued w). live_key x = live_key v \<longrightarrow> v_id x \<le> v_id v)))"

fun call_ok :: "secret_env \<Rightarrow> verify_world \<Rightarrow> verify_call \<Rightarrow> bool" where
  "call_ok env w (Looked v g k at_time) \<longleftrightarrow> was_issued w v \<and> v_kind v = k \<and> at_time < v_expiresAt v"
| "call_ok env w (Matched v g k at_time) \<longleftrightarrow> was_issued w v \<and> v_kind v = k \<and> at_time < v_expiresAt v
     \<and> verifySecret env (v_secretHash v) g"

definition acceptance_ok :: "secret_env \<Rightarrow> verify_world \<Rightarrow> verification \<times> string \<times> VerificationKind \<times> int \<Rightarrow> bool" where
  "acceptance_ok env w = (\<lambda>(v, g, k, at_time). was_issued w v \<and> v_kind v = k \<and> at_time < v_expiresAt v
     \<and> verifySecret env (v_secretHash v) g)"

definition codes_ok :: "secret_env \<Rightarrow> verify_world \<Rightarrow> bool" where
  "codes_ok env w \<longleftrightarrow> vtable_ok (w_table w)
     \<and> (\<forall>v\<in>set (v_rows (w_table w)). was_issued w v)
     \<and> distinct (map v_id (w_issued w)) \<and> (\<forall>u\<in>set (w_issued w). v_id u < v_next (w_table w))
     \<and> (\<forall>u\<in>set (w_issued w). within_budget w u)
     \<and> (\<forall>c\<in>set (w_calls w). call_ok env w c)
     \<and> distinct (accepted_ids w) \<and> (\<forall>a\<in>set (w_accepted w). acceptance_ok env w a)
     \<and> (\<forall>c\<in>set (w_compared w). fst c < v_next (w_table w))"

lemma same_code_refl [simp]: "same_code v v"
  by (simp add: same_code_def)

lemma same_code_trans: "same_code u v \<Longrightarrow> same_code v x \<Longrightarrow> same_code u x"
  by (auto simp: same_code_def)

text \<open>What every statement but spending and inserting does to a row: the code and its count stay,
  marks are only added.\<close>

definition row_kept :: "verification \<Rightarrow> verification \<Rightarrow> bool" where
  "row_kept v v' \<longleftrightarrow> same_code v v' \<and> v_attemptCount v' = v_attemptCount v
     \<and> (v_consumedAt v \<noteq> None \<longrightarrow> v_consumedAt v' \<noteq> None) \<and> (v_unsettled v' \<longrightarrow> v_unsettled v)"

lemma row_kept_refl [simp]: "row_kept v v"
  by (simp add: row_kept_def)

definition table_kept :: "verification_table \<Rightarrow> verification_table \<Rightarrow> bool" where
  "table_kept t t' \<longleftrightarrow> vtable_ok t' \<and> v_next t \<le> v_next t'
     \<and> (\<forall>i v'. vrow t' i = Some v' \<longrightarrow> (\<exists>v. vrow t i = Some v \<and> row_kept v v'))"

lemma table_kept_update_rows:
  assumes "vtable_ok (update_rows P f t)" and "\<And>v. row_kept v (f v)"
  shows "table_kept t (update_rows P f t)"
proof -
  have "v_id (f v) = v_id v" for v using assms(2) [of v] by (simp add: row_kept_def same_code_def)
  note r = vrow_update_rows [of f P t, OF this]
  have "v_next (update_rows P f t) = v_next t" by (simp add: update_rows_def)
  moreover have "\<exists>v. vrow t i = Some v \<and> row_kept v v'" if "vrow (update_rows P f t) i = Some v'" for i v'
    using that assms(2) by (auto simp: r split: if_splits)
  ultimately show ?thesis using assms(1) by (simp add: table_kept_def)
qed

lemma table_kept_supersede: "vtable_ok t \<Longrightarrow> table_kept t (supersedeLive now i c k d t)"
  using vtable_ok_supersede [of t now i c k d] unfolding supersedeLive_def
  by (rule table_kept_update_rows) (auto simp: row_kept_def same_code_def live_key_def v_unsettled_def)

lemma table_kept_resend: "vtable_ok t \<Longrightarrow> table_kept t (recordResend now i t)"
  using vtable_ok_resend [of t now i] unfolding recordResend_def
  by (rule table_kept_update_rows) (auto simp: row_kept_def same_code_def live_key_def v_unsettled_def)

lemma table_kept_consume: "vtable_ok t \<Longrightarrow> table_kept t (snd (consume now i t))"
  using vtable_ok_consume [of t now i] unfolding consume_def snd_conv
  by (rule table_kept_update_rows) (auto simp: row_kept_def same_code_def live_key_def v_unsettled_def)

lemma table_kept_sweep:
  assumes "vtable_ok t"
  shows "table_kept t (sweepVerifications cutoff limit t)"
proof -
  let ?t = "sweepVerifications cutoff limit t"
  have sub: "set (v_rows ?t) \<subseteq> set (v_rows t)"
    by (simp add: sweepVerifications_def) (blast dest: subsetD [OF delete_some_subset])
  have "vrow t i = Some v" if "vrow ?t i = Some v" for i v
    using vrow_mem [OF that] sub vrow_of_mem [OF assms, of v] by auto
  then show ?thesis
    using vtable_ok_sweep [OF assms, of cutoff limit]
    by (auto simp: table_kept_def) (auto simp: sweepVerifications_def)
qed

lemma budget_kept:
  assumes "within_budget w u" and "table_kept (w_table w) (w_table w')"
    and "w_issued w' = w_issued w" and "w_compared w' = w_compared w" and "w_accepted w' = w_accepted w"
  shows "within_budget w' u"
proof -
  have c: "compared_with w' i = compared_with w i" "accepted_ids w' = accepted_ids w" for i
    using assms(4,5) by (simp_all add: compared_with_def accepted_ids_def)
  show ?thesis
  proof (cases "vrow (w_table w') (v_id u)")
    case None
    with assms(1) c show ?thesis by (simp add: within_budget_def)
  next
    case (Some v')
    with assms(2) obtain v where v: "vrow (w_table w) (v_id u) = Some v" "row_kept v v'"
      by (auto simp: table_kept_def)
    with assms(1) have "same_code u v" "v_attemptCount v = compared_with w (v_id u)"
      "v_id u \<in> set (accepted_ids w) \<longrightarrow> v_consumedAt v \<noteq> None"
      "v_unsettled v \<longrightarrow> (\<forall>x\<in>set (w_issued w). live_key x = live_key v \<longrightarrow> v_id x \<le> v_id v)"
      "compared_with w (v_id u) \<le> v_maxAttempts u"
      by (simp_all add: within_budget_def)
    moreover have "live_key v' = live_key v" "v_id v' = v_id v"
      using v(2) by (simp_all add: row_kept_def same_code_def)
    ultimately show ?thesis
      using v(2) Some c assms(3) same_code_trans [of u v v']
      by (simp add: within_budget_def row_kept_def)
  qed
qed

text \<open>A step that keeps the table and the ghosts, and whose calls were there or are sound, keeps the
  invariant.\<close>

lemma was_issued_kept:
  assumes "was_issued w v" and "same_code v v'" and "set (w_issued w) \<subseteq> set (w_issued w')"
  shows "was_issued w' v'"
  using assms same_code_trans unfolding was_issued_def by blast

lemma call_ok_kept: "call_ok env w c \<Longrightarrow> set (w_issued w) \<subseteq> set (w_issued w') \<Longrightarrow> call_ok env w' c"
  using was_issued_kept [OF _ same_code_refl] by (cases c) auto

lemma acceptance_ok_kept: "acceptance_ok env w a \<Longrightarrow> set (w_issued w) \<subseteq> set (w_issued w') \<Longrightarrow> acceptance_ok env w' a"
  using was_issued_kept [OF _ same_code_refl] by (auto simp: acceptance_ok_def)

lemma rows_issued_kept:
  assumes "table_kept t t'" and "vtable_ok t" and "\<And>v. v \<in> set (v_rows t) \<Longrightarrow> was_issued w v"
    and "set (w_issued w) \<subseteq> set (w_issued w')" and "v' \<in> set (v_rows t')"
  shows "was_issued w' v'"
proof -
  have "vrow t' (v_id v') = Some v'" using assms(1,5) by (auto simp: table_kept_def intro: vrow_of_mem)
  then obtain v where "vrow t (v_id v') = Some v" "row_kept v v'" using assms(1) by (auto simp: table_kept_def)
  then show ?thesis
    using assms(3) [of v] vrow_mem [of t] was_issued_kept [OF _ _ assms(4), of v v']
    by (simp add: row_kept_def)
qed

lemma codes_ok_frame:
  assumes ok: "codes_ok env w" and t: "table_kept (w_table w) (w_table w')"
    and same: "w_issued w' = w_issued w" "w_compared w' = w_compared w" "w_accepted w' = w_accepted w"
    and calls: "set (w_calls w') \<subseteq> set (w_calls w) \<union> {c. call_ok env w c}"
  shows "codes_ok env w'"
proof -
  have sub: "set (w_issued w) \<subseteq> set (w_issued w')" using same(1) by simp
  have next_le: "v_next (w_table w) \<le> v_next (w_table w')" using t by (simp add: table_kept_def)
  have "was_issued w' v" if "v \<in> set (v_rows (w_table w'))" for v
    using rows_issued_kept [OF t _ _ sub that] ok by (simp add: codes_ok_def)
  moreover have "call_ok env w' c" if "c \<in> set (w_calls w')" for c
  proof -
    have "call_ok env w c" using calls that ok unfolding codes_ok_def by blast
    then show ?thesis using sub by (rule call_ok_kept)
  qed
  moreover have "within_budget w' u" if "u \<in> set (w_issued w')" for u
    using budget_kept [OF _ t same] that ok same(1) by (simp add: codes_ok_def)
  moreover have "acceptance_ok env w' a" if "a \<in> set (w_accepted w')" for a
    using acceptance_ok_kept [OF _ sub] that ok same(3) by (simp add: codes_ok_def)
  moreover have "\<forall>u\<in>set (w_issued w'). v_id u < v_next (w_table w')"
    "\<forall>c\<in>set (w_compared w'). fst c < v_next (w_table w')"
    using ok next_le same by (force simp: codes_ok_def)+
  moreover have "vtable_ok (w_table w')" using t by (simp add: table_kept_def)
  ultimately show ?thesis using ok same by (simp add: codes_ok_def accepted_ids_def)
qed

lemma table_kept_refl: "vtable_ok t \<Longrightarrow> table_kept t t"
  by (auto simp: table_kept_def)

lemma within_budget_cong:
  "compared_with w' (v_id u) = compared_with w (v_id u) \<Longrightarrow> vrow (w_table w') (v_id u) = vrow (w_table w) (v_id u) \<Longrightarrow>
   accepted_ids w' = accepted_ids w \<Longrightarrow> w_issued w' = w_issued w \<Longrightarrow> within_budget w' u = within_budget w u"
  by (simp add: within_budget_def split: option.split)

subsection \<open>The three steps that matter\<close>

lemma vrow_append:
  "vrow (t\<lparr>v_rows := v_rows t @ [v], v_next := n\<rparr>) i =
     (case vrow t i of None \<Rightarrow> if v_id v = i then Some v else None | Some x \<Rightarrow> Some x)"
  by (simp add: vrow_def find_append split: option.split)

lemma supersedeLive_settles:
  assumes "vrow (supersedeLive now i c k d t) j = Some x" and "live_key x = (coalesce0 i, coalesce0 c, k, d)"
  shows "\<not> v_unsettled x"
proof -
  let ?P = "\<lambda>v. live_key v = (coalesce0 i, coalesce0 c, k, d) \<and> v_unsettled v"
  let ?f = "\<lambda>v :: verification. v\<lparr>v_supersededAt := Some now\<rparr>"
  from assms(1) obtain v where "x = (if ?P v then ?f v else v)"
    unfolding supersedeLive_def by (auto simp: vrow_update_rows [of ?f])
  with assms(2) show ?thesis by (auto simp: v_unsettled_def live_key_def split: if_splits)
qed

lemma codes_ok_issue:
  assumes ok: "codes_ok env w"
    and run: "replace_live now inp h e m (w_table w) = Inr (v, t)"
  shows "codes_ok env (w\<lparr>w_table := t, w_issued := v # w_issued w\<rparr>)" (is "codes_ok env ?w")
proof -
  let ?s = "supersedeLive now (n_identityId inp) (n_customerId inp) (n_kind inp) (n_destination inp) (w_table w)"
  have vt: "vtable_ok (w_table w)" using ok by (simp add: codes_ok_def)
  note r = replace_live_Inr [OF vt run]
  have nx: "v_next ?s = v_next (w_table w)" by (simp add: supersedeLive_def update_rows_def)
  have t: "t = ?s\<lparr>v_rows := v_rows ?s @ [v], v_next := v_next (w_table w) + 1\<rparr>" using r by simp
  have id: "v_id v = v_next (w_table w)" and v0: "v_attemptCount v = 0" using r(1) by simp_all
  have ks: "table_kept (w_table w) ?s" using vt by (rule table_kept_supersede)
  have row: "vrow t i = (case vrow ?s i of None \<Rightarrow> if v_id v = i then Some v else None | Some x \<Rightarrow> Some x)" for i
    unfolding t by (rule vrow_append)
  have fresh: "vrow ?s (v_next (w_table w)) = None"
    using vrow_fresh [OF vtable_ok_supersede [OF vt]] nx by metis
  have sub: "set (w_issued w) \<subseteq> set (w_issued ?w)" by auto
  have issued_lt: "v_id u < v_id v" if "u \<in> set (w_issued w)" for u
    using ok that id by (simp add: codes_ok_def)
  have none_compared: "compared_with w (v_id v) = 0"
    using ok id by (fastforce simp: codes_ok_def compared_with_def filter_empty_conv)
  have not_accepted: "v_id v \<notin> set (accepted_ids w)"
    using ok issued_lt unfolding codes_ok_def acceptance_ok_def was_issued_def accepted_ids_def same_code_def
    by fastforce
  have same: "compared_with ?w i = compared_with w i" "accepted_ids ?w = accepted_ids w" for i
    by (simp_all add: compared_with_def accepted_ids_def)
  have "within_budget ?w v"
    using none_compared not_accepted fresh issued_lt v0 by (auto simp: within_budget_def same row id less_imp_le)
  moreover have "within_budget ?w u" if u: "u \<in> set (w_issued w)" for u
  proof -
    have kept: "within_budget (w\<lparr>w_table := ?s\<rparr>) u"
      using ok u ks by - (rule budget_kept [of w], simp_all add: codes_ok_def)
    have eq: "vrow t (v_id u) = vrow ?s (v_id u)"
      using issued_lt [OF u] by (simp add: row split: option.split)
    have "\<not> v_unsettled x" if "vrow ?s (v_id u) = Some x" "live_key v = live_key x" for x
      using supersedeLive_settles [OF that(1)] that(2) r(1) by simp
    with kept show ?thesis
      by (auto simp: within_budget_def eq compared_with_def accepted_ids_def split: option.splits)
  qed
  moreover have "was_issued ?w x" if "x \<in> set (v_rows t)" for x
  proof (cases "x = v")
    case True
    then show ?thesis by (auto simp: was_issued_def)
  next
    case False
    with that have "x \<in> set (v_rows ?s)" by (simp add: t)
    then show ?thesis using rows_issued_kept [OF ks vt _ sub] ok by (simp add: codes_ok_def)
  qed
  moreover have "call_ok env ?w c" if "c \<in> set (w_calls w)" for c
    using call_ok_kept [OF _ sub] ok that by (simp add: codes_ok_def)
  moreover have "acceptance_ok env ?w a" if "a \<in> set (w_accepted w)" for a
    using acceptance_ok_kept [OF _ sub] ok that by (simp add: codes_ok_def)
  moreover have "\<forall>u\<in>set (v # w_issued w). v_id u < v_next t" "\<forall>c\<in>set (w_compared w). fst c < v_next t"
    using ok id by (auto simp: codes_ok_def t)
  moreover have "v_id v \<notin> v_id ` set (w_issued w)" using issued_lt by force
  ultimately show ?thesis using ok r(2) by (simp add: codes_ok_def accepted_ids_def)
qed

lemma codes_ok_spend:
  assumes ok: "codes_ok env w" and v: "was_issued w v"
    and run: "spendAttempt (v_id v) (w_table w) = (Some n, t)"
    and calls: "\<forall>c\<in>set cs. call_ok env w c"
  shows "codes_ok env (w\<lparr>w_table := t, w_compared := (v_id v, g) # w_compared w, w_calls := cs\<rparr>)" (is "codes_ok env ?w")
proof -
  let ?i = "v_id v" and ?f = "\<lambda>x :: verification. x\<lparr>v_attemptCount := v_attemptCount x + 1\<rparr>"
  have vt: "vtable_ok (w_table w)" using ok by (simp add: codes_ok_def)
  have t: "t = update_rows (spendable ?i) ?f (w_table w)" using run by (simp add: spendAttempt_def)
  from run obtain x where x: "vrow (w_table w) ?i = Some x" "v_attemptCount x < v_maxAttempts x"
    using find_spendable [OF vt, of ?i] by (auto simp: spendAttempt_def split: option.splits if_splits)
  have row: "vrow t j = map_option (\<lambda>y. if spendable ?i y then ?f y else y) (vrow (w_table w) j)" for j
    unfolding t by (rule vrow_update_rows) simp
  have vt': "vtable_ok t" using vtable_ok_spend [OF vt, of ?i] run by simp
  have nx: "v_next t = v_next (w_table w)" by (simp add: t update_rows_def)
  have cmp: "compared_with ?w j = (if j = ?i then 1 else 0) + compared_with w j" for j
    by (simp add: compared_with_def)
  have "within_budget ?w u" if u: "u \<in> set (w_issued w)" for u
  proof -
    have b: "within_budget w u" using ok u by (simp add: codes_ok_def)
    show ?thesis
    proof (cases "v_id u = ?i")
      case True
      have "spendable ?i x" using x vrow_mem [OF x(1)] by (simp add: spendable_def)
      with b x True show ?thesis
        by (auto simp: within_budget_def cmp row accepted_ids_def same_code_def live_key_def v_unsettled_def)
    next
      case False
      have "\<not> spendable ?i y" if "vrow (w_table w) (v_id u) = Some y" for y
        using False vrow_mem [OF that] by (simp add: spendable_def)
      then have "vrow t (v_id u) = vrow (w_table w) (v_id u)"
        unfolding row by (cases "vrow (w_table w) (v_id u)") simp_all
      moreover have "compared_with ?w (v_id u) = compared_with w (v_id u)" using False by (simp add: cmp)
      ultimately show ?thesis using b within_budget_cong [of ?w u w] by (simp add: accepted_ids_def)
    qed
  qed
  moreover have "was_issued ?w y" if "y \<in> set (v_rows t)" for y
  proof -
    from that obtain z where z: "z \<in> set (v_rows (w_table w))" "y = (if spendable ?i z then ?f z else z)"
      by (auto simp: t update_rows_def set_update_where)
    then have "same_code z y" by (simp add: same_code_def live_key_def)
    with z(1) ok show ?thesis using was_issued_kept [of w z y ?w] by (simp add: codes_ok_def)
  qed
  moreover have "?i < v_next t" using v ok nx by (auto simp: was_issued_def same_code_def codes_ok_def)
  moreover have "was_issued ?w y = was_issued w y" for y by (simp add: was_issued_def)
  moreover have "call_ok env ?w c" if "c \<in> set cs" for c using calls that call_ok_kept [of env w c ?w] by simp
  moreover have "acceptance_ok env ?w a" if "a \<in> set (w_accepted w)" for a
    using acceptance_ok_kept [of env w a ?w] ok that by (simp add: codes_ok_def)
  ultimately show ?thesis using ok vt' nx by (simp add: codes_ok_def accepted_ids_def)
qed

lemma codes_ok_accept:
  assumes ok: "codes_ok env w" and call: "call_ok env w (Matched v g k at_time)"
    and run: "consume now (v_id v) (w_table w) = (True, t)"
    and calls: "\<forall>c\<in>set cs. call_ok env w c"
  shows "codes_ok env (w\<lparr>w_table := t, w_accepted := (v, g, k, at_time) # w_accepted w, w_calls := cs\<rparr>)"
    (is "codes_ok env ?w")
proof -
  let ?i = "v_id v"
  have vt: "vtable_ok (w_table w)" using ok by (simp add: codes_ok_def)
  have kept: "table_kept (w_table w) t" using table_kept_consume [OF vt, of now ?i] run by simp
  let ?m = "w\<lparr>w_table := t, w_calls := cs\<rparr>"
  have mid: "codes_ok env ?m" using calls by - (rule codes_ok_frame [OF ok], simp_all add: kept subset_iff)
  from run consume_ok [OF vt, of now ?i] obtain x where x: "vrow (w_table w) ?i = Some x" "v_unsettled x"
    by (auto split: option.splits)
  have row: "vrow t j = map_option (\<lambda>y. if consumable ?i y then y\<lparr>v_consumedAt := Some now\<rparr> else y) (vrow (w_table w) j)" for j
    using run vrow_update_rows [of "\<lambda>y. y\<lparr>v_consumedAt := Some now\<rparr>" "consumable ?i" "w_table w" j]
    by (auto simp: consume_def)
  have settled: "\<exists>y. vrow t ?i = Some y \<and> v_consumedAt y \<noteq> None"
    using x vrow_mem [OF x(1)] by (simp add: row consumable_def)
  from call obtain u where u: "u \<in> set (w_issued w)" "v_id u = ?i" by (auto simp: was_issued_def same_code_def)
  have fresh: "?i \<notin> set (accepted_ids w)"
    using ok u x by (force simp: codes_ok_def within_budget_def v_unsettled_def)
  have "within_budget ?w y" if "y \<in> set (w_issued w)" for y
  proof -
    have "within_budget ?m y" using mid that by (simp add: codes_ok_def)
    then show ?thesis using settled by (auto simp: within_budget_def compared_with_def accepted_ids_def split: option.splits)
  qed
  moreover have "acceptance_ok env ?w a" if "a \<in> set (w_accepted ?w)" for a
    using that ok call acceptance_ok_kept [of env w a ?w]
    by (auto simp: codes_ok_def acceptance_ok_def was_issued_def)
  moreover have "was_issued ?w y = was_issued ?m y" for y by (simp add: was_issued_def)
  moreover have "call_ok env ?w c" if "c \<in> set cs" for c using calls that call_ok_kept [of env w c ?w] by simp
  ultimately show ?thesis using mid fresh by (simp add: codes_ok_def accepted_ids_def)
qed

lemma codes_ok_step:
  assumes "verify_step env w w'" and "codes_ok env w"
  shows "codes_ok env w'"
  using assms
proof (induction rule: verify_step.induct)
  case (passes d w)
  then have "vtable_ok (w_table w)" by (simp add: codes_ok_def)
  with passes(2) show ?case by - (rule codes_ok_frame [of env w], auto intro: table_kept_refl)
next
  case (issues w inp secret v t)
  from codes_ok_issue [OF issues(2,1)] show ?case .
next
  case (looks r k w v g)
  then have vt: "vtable_ok (w_table w)" by (simp add: codes_ok_def)
  note f = findLiveByRefId_row [OF vt looks(1)]
  have "call_ok env w (Looked v g k (w_clock w))"
    using looks f vrow_mem [OF f(1)] by (auto simp: codes_ok_def)
  with looks(3) vt show ?case by - (rule codes_ok_frame [of env w], auto intro: table_kept_refl)
next
  case (spends w cs v g k at_time cs' n t)
  have calls: "\<forall>c\<in>set (w_calls w). call_ok env w c" using spends(3) by (simp add: codes_ok_def)
  then have "\<forall>c\<in>set (cs @ after_spending env v g k at_time @ cs'). call_ok env w c"
    by (auto simp: spends(1) after_spending_def)
  moreover have "was_issued w v" using calls spends(1) by simp
  ultimately show ?case using codes_ok_spend [OF spends(3) _ spends(2)] by blast
next
  case (refused w cs v g k at_time cs' t)
  have vt: "vtable_ok (w_table w)" using refused(3) by (simp add: codes_ok_def)
  have "table_kept (w_table w) t"
  proof -
    have "find (spendable (v_id v)) (v_rows (w_table w)) = None" using refused(2) by (simp add: spendAttempt_def)
    then have "t = w_table w"
      using refused(2) by (auto simp: spendAttempt_def update_rows_def find_None_all update_where_none)
    with vt show ?thesis by (simp add: table_kept_refl)
  qed
  then show ?case using refused by - (rule codes_ok_frame [of env w], auto)
next
  case (accepts w cs v g k at_time cs' t)
  have calls: "\<forall>c\<in>set (w_calls w). call_ok env w c" using accepts(3) by (simp add: codes_ok_def)
  then show ?case using codes_ok_accept [OF accepts(3) _ accepts(2), of g k at_time "cs @ cs'"] accepts(1) by auto
next
  case (too_late w cs v g k at_time cs' t)
  have "table_kept (w_table w) t"
    using table_kept_consume [of "w_table w" "w_clock w" "v_id v"] too_late by (simp add: codes_ok_def)
  then show ?case using too_late by - (rule codes_ok_frame [of env w], auto)
next
  case (lost w cs c cs')
  then show ?case by - (rule codes_ok_frame [of env w], auto intro: table_kept_refl simp: codes_ok_def)
next
  case (resends w i)
  then show ?case by - (rule codes_ok_frame [of env w], auto intro: table_kept_resend simp: codes_ok_def)
next
  case (sweeps w cutoff limit)
  then show ?case by - (rule codes_ok_frame [of env w], auto intro: table_kept_sweep simp: codes_ok_def)
qed

lemma codes_ok_run: "verify_run env w \<Longrightarrow> codes_ok env w"
proof (induction rule: verify_run.induct)
  case verify_init
  show ?case by (simp add: empty_world_def codes_ok_def vtable_ok_def accepted_ids_def)
next
  case (verify_next w w')
  then show ?case by (blast intro: codes_ok_step)
qed

section \<open>What an attacker can do with codes\<close>

text \<open>
  C6: However requests for one code interleave with each other, with resends, sweeps and crashes, at
  most \<open>maxAttempts\<close> submissions are compared with it; at most one is accepted, and that one is the
  code itself, submitted for the kind it was issued for and looked up before it expired.
\<close>
theorem guesses_bounded:
  assumes "verify_run env w"
  shows "(\<forall>u\<in>set (w_issued w). length (filter (\<lambda>c. fst c = v_id u) (w_compared w)) \<le> v_maxAttempts u)
    \<and> distinct (map (\<lambda>a. v_id (fst a)) (w_accepted w))
    \<and> (\<forall>(v, g, k, at_time)\<in>set (w_accepted w). (\<exists>u\<in>set (w_issued w). same_code u v) \<and> v_kind v = k
        \<and> verifySecret env (v_secretHash v) g \<and> at_time < v_expiresAt v)"
proof -
  have ok: "codes_ok env w" using assms by (rule codes_ok_run)
  have "\<forall>u\<in>set (w_issued w). compared_with w (v_id u) \<le> v_maxAttempts u"
    using ok by (auto simp: codes_ok_def within_budget_def)
  moreover have "\<forall>a\<in>set (w_accepted w). acceptance_ok env w a" using ok by (simp add: codes_ok_def)
  ultimately show ?thesis
    using ok by (auto simp: compared_with_def codes_ok_def accepted_ids_def acceptance_ok_def was_issued_def)
qed

text \<open>A code is accepted only while it is the newest of its subject, kind and destination.\<close>

theorem newest_code_only:
  assumes "verify_run env w" and "consume now i (w_table w) = (True, t)"
    and "vrow (w_table w) i = Some v" and "u \<in> set (w_issued w)" and "live_key u = live_key v"
  shows "v_id u \<le> i"
proof -
  have ok: "codes_ok env w" using assms(1) by (rule codes_ok_run)
  then have vt: "vtable_ok (w_table w)" by (simp add: codes_ok_def)
  have i: "v_id v = i" "v \<in> set (v_rows (w_table w))" using vrow_mem [OF assms(3)] by simp_all
  have live: "v_unsettled v" using consume_ok [OF vt, of now i] assms(2,3) by simp
  from ok i(2) obtain x where x: "x \<in> set (w_issued w)" "same_code x v" by (auto simp: codes_ok_def was_issued_def)
  then have "within_budget w x" "v_id x = i" using ok i by (simp_all add: codes_ok_def same_code_def)
  with assms(3,4,5) live i show ?thesis by (auto simp: within_budget_def)
qed

text \<open>A code is issued, guessed wrongly once, and then submitted correctly by two requests at once.\<close>

definition demo_secrets :: secret_env where
  "demo_secrets = \<lparr>hashSecret = rev, realtimeEnabled = True, staticCode = ''000000''\<rparr>"

definition demo_challenge :: new_verification where
  "demo_challenge = \<lparr>n_subjectKind = IdentitySubject, n_identityId = Some 7, n_enterpriseId = None,
     n_customerId = None, n_customerIdentifierId = None, n_kind = FirstLogin, n_channel = EmailChannel,
     n_destination = ''ann@x.org''\<rparr>"

definition demo_code :: verification where
  "demo_code = new_row 0 demo_challenge (rev ''314159'') 600000 5 1"

definition demo_table :: "nat \<Rightarrow> int option \<Rightarrow> verification_table" where
  "demo_table n at_time = \<lparr>v_rows = [demo_code\<lparr>v_attemptCount := n, v_consumedAt := at_time\<rparr>], v_next = 2\<rparr>"

definition demo_world :: "verify_call list \<Rightarrow> nat \<Rightarrow> int option \<Rightarrow> (int \<times> string) list \<Rightarrow>
    (verification \<times> string \<times> VerificationKind \<times> int) list \<Rightarrow> verify_world" where
  "demo_world calls n at_time compared accepted = \<lparr>w_table = demo_table n at_time, w_clock = 0, w_calls = calls,
     w_issued = [demo_code], w_compared = compared, w_accepted = accepted\<rparr>"

lemmas demo_defs = demo_secrets_def demo_challenge_def demo_code_def demo_table_def demo_world_def empty_world_def
  new_row_def replace_live_def andThen_def bnd_def modifies_def supersedeLive_def update_rows_def update_where_def
  insert_verification_def Let_def VERIFICATION_CONFIG.simps code_config_def MINUTE_def findLiveByRefId_def
  v_unsettled_def spendAttempt_def spendable_def consume_def consumable_def after_spending_def verifySecret_def

lemma demo_runs:
  defines "W \<equiv> demo_world"
  shows "verify_run demo_secrets (W [] 3 (Some 0) [(1, ''314159''), (1, ''314159''), (1, ''111111'')]
    [(demo_code\<lparr>v_attemptCount := 1\<rparr>, ''314159'', FirstLogin, 0)])"
proof -
  let ?ok = "''314159''" and ?no = "''111111''"
  let ?c = "demo_code" and ?d = "demo_code\<lparr>v_attemptCount := 1\<rparr>"
  let ?right = "Looked ?d ?ok FirstLogin 0" and ?sure = "Matched ?d ?ok FirstLogin 0"
  note go = verify_next [where env = demo_secrets]
  have r1: "verify_run demo_secrets (W [] 0 None [] [])"
    by (rule go [OF verify_init])
      (use issues [of empty_world demo_challenge demo_secrets ?ok demo_code "demo_table 0 None"]
        in \<open>simp add: demo_defs W_def\<close>)
  have r2: "verify_run demo_secrets (W [Looked ?c ?no FirstLogin 0] 0 None [] [])"
    by (rule go [OF r1]) (use looks [of 1 FirstLogin "W [] 0 None [] []" ?c demo_secrets ?no]
        in \<open>simp add: demo_defs W_def\<close>)
  have r3: "verify_run demo_secrets (W [] 1 None [(1, ?no)] [])"
    by (rule go [OF r2]) (use spends [of "W [Looked ?c ?no FirstLogin 0] 0 None [] []" "[]" ?c ?no
          FirstLogin 0 "[]" 1 "demo_table 1 None" demo_secrets] in \<open>simp add: demo_defs W_def\<close>)
  have r4: "verify_run demo_secrets (W [?right] 1 None [(1, ?no)] [])"
    by (rule go [OF r3]) (use looks [of 1 FirstLogin "W [] 1 None [(1, ?no)] []" ?d demo_secrets ?ok]
        in \<open>simp add: demo_defs W_def\<close>)
  have r5: "verify_run demo_secrets (W [?right, ?right] 1 None [(1, ?no)] [])"
    by (rule go [OF r4]) (use looks [of 1 FirstLogin "W [?right] 1 None [(1, ?no)] []" ?d demo_secrets ?ok]
        in \<open>simp add: demo_defs W_def\<close>)
  have r6: "verify_run demo_secrets (W [?sure, ?right] 2 None [(1, ?ok), (1, ?no)] [])"
    by (rule go [OF r5]) (use spends [of "W [?right, ?right] 1 None [(1, ?no)] []" "[]" ?d ?ok
          FirstLogin 0 "[?right]" 2 "demo_table 2 None" demo_secrets] in \<open>simp add: demo_defs W_def\<close>)
  have r7: "verify_run demo_secrets (W [?sure, ?sure] 3 None [(1, ?ok), (1, ?ok), (1, ?no)] [])"
    by (rule go [OF r6]) (use spends [of "W [?sure, ?right] 2 None [(1, ?ok), (1, ?no)] []" "[?sure]" ?d
          ?ok FirstLogin 0 "[]" 3 "demo_table 3 None" demo_secrets] in \<open>simp add: demo_defs W_def\<close>)
  have r8: "verify_run demo_secrets (W [?sure] 3 (Some 0) [(1, ?ok), (1, ?ok), (1, ?no)]
      [(?d, ?ok, FirstLogin, 0)])"
    by (rule go [OF r7]) (use accepts [of "W [?sure, ?sure] 3 None [(1, ?ok), (1, ?ok), (1, ?no)] []"
          "[]" ?d ?ok FirstLogin 0 "[?sure]" "demo_table 3 (Some 0)" demo_secrets] in \<open>simp add: demo_defs W_def\<close>)
  show ?thesis
    by (rule go [OF r8]) (use too_late [of "W [?sure] 3 (Some 0) [(1, ?ok), (1, ?ok), (1, ?no)]
          [(?d, ?ok, FirstLogin, 0)]" "[]" ?d ?ok FirstLogin 0 "[]" "demo_table 3 (Some 0)" demo_secrets]
        in \<open>simp add: demo_defs W_def\<close>)
qed

theorem guesses_bounded_witness:
  "verify_run demo_secrets (demo_world [] 3 (Some 0) [(1, ''314159''), (1, ''314159''), (1, ''111111'')]
      [(demo_code\<lparr>v_attemptCount := 1\<rparr>, ''314159'', FirstLogin, 0)])
   \<and> length (filter (\<lambda>c. fst c = 1) [(1 :: int, ''314159''), (1, ''314159''), (1, ''111111'')]) \<le> 5"
proof (rule conjI)
  show "length (filter (\<lambda>c. fst c = 1) [(1 :: int, ''314159''), (1, ''314159''), (1, ''111111'')]) \<le> 5"
    using guesses_bounded [OF demo_runs] by (simp add: demo_world_def demo_code_def new_row_def)
qed (rule demo_runs)

end
