(* ===== verification/Auth_Invites.thy ===== *)
theory Auth_Invites
  imports Auth_Login Verification_Race
begin

text \<open>
  Codes and invitations: a code that was sent works once, what a resend gives and tells, and where
  an invitation's code goes.
\<close>

section \<open>A fresh code\<close>

lemma newest_last:
  assumes "\<And>w. w \<in> set vs \<Longrightarrow> v_id w < v_id v"
  shows "newest (vs @ [v]) = Some v"
  using sort_key_append_least [of vs "\<lambda>w. - v_id w" v] assms by (simp add: newest_def)

lemma issue_succeeds:
  assumes "vtable_ok t" and "countSentToDestinationSince (n_destination inp) (now - 3600000) t
      < c_hourlyDestinationCap (VERIFICATION_CONFIG (n_kind inp))"
  obtains t' v where
    "v = new_row now inp (hashSecret env (mintSecret env (c_secretShape (VERIFICATION_CONFIG (n_kind inp))) r))
       (now + c_expiryMs (VERIFICATION_CONFIG (n_kind inp))) (c_maxAttempts (VERIFICATION_CONFIG (n_kind inp))) (v_next t)"
    "vtable_ok t'" "v_next t' = v_next t + 1"
    "v_rows t' = v_rows (supersedeLive now (n_identityId inp) (n_customerId inp) (n_kind inp) (n_destination inp) t) @ [v]"
    "snd (issueVerification env now r inp t) = t'"
    "\<exists>issued. fst (issueVerification env now r inp t) = Inr issued \<and> pd_verificationRefId (iv_delivery issued) = v_next t
       \<and> pd_destination (iv_delivery issued) = n_destination inp
       \<and> pd_otpCode (iv_delivery issued) = mintSecret env (c_secretShape (VERIFICATION_CONFIG (n_kind inp))) r"
proof -
  let ?c = "VERIFICATION_CONFIG (n_kind inp)"
  let ?h = "hashSecret env (mintSecret env (c_secretShape ?c) r)"
  obtain t' where t': "replace_live now inp ?h (now + c_expiryMs ?c) (c_maxAttempts ?c) t
      = Inr (new_row now inp ?h (now + c_expiryMs ?c) (c_maxAttempts ?c) (v_next t), t')" "vtable_ok t'"
    "v_rows t' = v_rows (supersedeLive now (n_identityId inp) (n_customerId inp) (n_kind inp) (n_destination inp) t)
       @ [new_row now inp ?h (now + c_expiryMs ?c) (c_maxAttempts ?c) (v_next t)]" "v_next t' = v_next t + 1"
    by (rule replace_live_total [OF assms(1)])
  show thesis
    by (rule that [OF refl t'(2,4,3)])
      (use assms(2) t'(1) in \<open>simp_all add: issueVerification_def assertWithinDestinationCap_def req_defs inTransaction_def Let_def\<close>)
qed

lemma attempts_positive: "0 < c_maxAttempts (VERIFICATION_CONFIG k)"
  by (cases k) (simp_all add: code_config_def token_config_def)

text \<open>The last row of a table is the one a lookup by destination finds, and its code is accepted.\<close>

lemma last_row_accepted:
  assumes ok: "vtable_ok t" and rows: "v_rows t = ws @ [v]" and less: "\<And>w. w \<in> set ws \<Longrightarrow> v_id w < v_id v"
    and v: "v_unsettled v" "v_attemptCount v < v_maxAttempts v" "v_secretHash v = hashSecret env secret" "now < v_expiresAt v"
  shows "fst (verifyByDestination env now (v_destination v) secret (v_kind v) t) = Inr (subject_of v)"
proof -
  have "newest (filter (\<lambda>w. v_destination w = v_destination v \<and> v_kind w = v_kind v \<and> v_unsettled w) ws @ [v]) = Some v"
    by (rule newest_last) (use less in auto)
  then have found: "findLiveByDestination (v_destination v) (v_kind v) t = Some v"
    using v(1) by (simp add: findLiveByDestination_def rows)
  have row: "vrow t (v_id v) = Some v" using vrow_of_mem [OF ok] rows by simp
  have "find (\<lambda>w. v_id w = v_id v \<and> v_kind w = v_kind v \<and> v_unsettled w) (v_rows t) = Some v"
    using find_unique_key [of v_id "v_rows t" "v_id v" "\<lambda>w. v_kind w = v_kind v \<and> v_unsettled w"] ok row v(1)
    by (simp add: vtable_ok_def vrow_def)
  then have by_ref: "findLiveByRefId (v_id v) (v_kind v) t = Some v" by (simp add: findLiveByRefId_def)
  have spent: "fst (spendAttempt (v_id v) t) = Some (v_attemptCount v + 1)"
    using find_spendable [OF ok, of "v_id v"] row v(2) by (simp add: spendAttempt_def)
  have "vrow (snd (spendAttempt (v_id v) t)) (v_id v) = Some (v\<lparr>v_attemptCount := v_attemptCount v + 1\<rparr>)"
    using row v(2) by (simp add: spendAttempt_def vrow_update_rows spendable_def)
  then have "fst (consume now (v_id v) (snd (spendAttempt (v_id v) t)))"
    using v(1) by (simp add: consume_ok [OF vtable_ok_spend [OF ok]] v_unsettled_def)
  with found by_ref spent v(3,4) show ?thesis
    by (simp add: verifyByDestination_def verifySubmitted_def rbnd_rreads rbnd_rstate verifySecret_def rret_def)
qed

lemma fresh_code_accepted:
  assumes "vtable_ok t" and "issueVerification env now r inp t = (Inr issued, t')"
    and "later < now + c_expiryMs (VERIFICATION_CONFIG (n_kind inp))"
  shows "\<exists>subject. fst (verifyByDestination env later (pd_destination (iv_delivery issued)) (pd_otpCode (iv_delivery issued))
      (n_kind inp) t') = Inr subject
    \<and> vs_identityId subject = n_identityId inp \<and> vs_enterpriseId subject = n_enterpriseId inp
    \<and> vs_destination subject = n_destination inp"
proof -
  let ?c = "VERIFICATION_CONFIG (n_kind inp)" and ?s = "supersedeLive now (n_identityId inp) (n_customerId inp) (n_kind inp) (n_destination inp) t"
  define code where "code = mintSecret env (c_secretShape ?c) r"
  obtain v where rep: "replace_live now inp (hashSecret env code) (now + c_expiryMs ?c) (c_maxAttempts ?c) t = Inr (v, t')"
    and iss: "pd_destination (iv_delivery issued) = n_destination inp" "pd_otpCode (iv_delivery issued) = code"
    using assms(2) by (auto simp: issueVerification_def assertWithinDestinationCap_def req_Inr Let_def code_def split: if_splits)
  note new = replace_live_Inr [OF assms(1) rep]
  have less: "v_id w < v_id v" if "w \<in> set (v_rows ?s)" for w
    using vtable_ok_supersede [OF assms(1)] that by (auto simp: new(1) vtable_ok_def list_all_iff supersedeLive_def update_rows_def)
  have "fst (verifyByDestination env later (v_destination v) code (v_kind v) t') = Inr (subject_of v)"
    by (rule last_row_accepted [OF new(2,3) less]) (use assms(3) new(1) attempts_positive in auto)
  then show ?thesis by (simp add: iss new(1) subject_of_def)
qed

text \<open>A code that was sent is accepted: whoever submits what an issued challenge delivered, for its
  destination and before it expires, is told the subject it was issued for.
\<close>
theorem delivered_code_accepted:
  assumes "vtable_ok t" and "issueVerification env now r inp t = (Inr issued, t')"
    and "later < now + c_expiryMs (VERIFICATION_CONFIG (n_kind inp))"
  shows "\<exists>subject. fst (verifyByDestination env later (pd_destination (iv_delivery issued)) (pd_otpCode (iv_delivery issued))
      (n_kind inp) t') = Inr subject
    \<and> vs_identityId subject = n_identityId inp \<and> vs_enterpriseId subject = n_enterpriseId inp
    \<and> vs_destination subject = n_destination inp"
  by (rule fresh_code_accepted [OF assms])

lemma delivered_code_accepted_witness:
  "\<exists>subject. fst (verifyByDestination (secrets demo_auth) 599999
      (pd_destination (iv_delivery (projr (fst (issueVerification (secrets demo_auth) 0 ''271828'' demo_challenge (challenges demo_start))))))
      (pd_otpCode (iv_delivery (projr (fst (issueVerification (secrets demo_auth) 0 ''271828'' demo_challenge (challenges demo_start))))))
      (n_kind demo_challenge) (snd (issueVerification (secrets demo_auth) 0 ''271828'' demo_challenge (challenges demo_start)))) = Inr subject
    \<and> vs_identityId subject = n_identityId demo_challenge \<and> vs_enterpriseId subject = n_enterpriseId demo_challenge
    \<and> vs_destination subject = n_destination demo_challenge"
proof (rule delivered_code_accepted)
  let ?run = "issueVerification (secrets demo_auth) 0 ''271828'' demo_challenge (challenges demo_start)"
  show "vtable_ok (challenges demo_start)" by code_simp
  have "isl (fst ?run) = False" by code_simp
  then show "?run = (Inr (projr (fst ?run)), snd ?run)" by (metis prod.collapse sum.collapse(2))
  show "599999 < 0 + c_expiryMs (VERIFICATION_CONFIG (n_kind demo_challenge))" by code_simp
qed

section \<open>Where an invitation's code goes\<close>

definition passwords :: "auth_db \<Rightarrow> (int \<times> string) list" where
  "passwords db = map (\<lambda>r. (li_id r, li_passwordHash r)) (logins db)"

interpretation passwords_kept: statement_relation "\<lambda>db db'. passwords db' = passwords db" "\<lambda>_. True" "\<lambda>_. True"
  by unfold_locales (simp_all add: passwords_def insert_session_logins revoke_where_def)

lemma passwords_update: "(\<And>r. li_id (f r) = li_id r \<and> li_passwordHash (f r) = li_passwordHash r) \<Longrightarrow>
    passwords (update_login i f db) = passwords db"
  unfolding passwords_def update_login_def update_where_def by simp

lemma passwords_same:
  "passwords (markCredentialVerified now i email db) = passwords db"
  "passwords (activateEmployment m e db) = passwords db" "passwords (activateStaff s db) = passwords db"
  "passwords (recordAudit a db) = passwords db" "passwords (snd (revokeAllForIdentity now i db)) = passwords db"
  by (simp_all add: markCredentialVerified_def verify_email_def verify_mobile_def passwords_update)
    (simp_all add: passwords_def activateEmployment_def activateStaff_def recordAudit_def revokeAllForIdentity_def revoke_where_def)

lemma completeLogin_passwords: "passwords (snd (completeLogin env now rnd i db)) = passwords db"
proof -
  have session: "leads (\<lambda>db db'. passwords db' = passwords db) (issueSession env now rnd i m staff)" for m staff
    by (rule leadsI) (rule passwords_kept.R_issueSession; rule TrueI)
  have "leads (\<lambda>db db'. passwords db' = passwords db) (completeLogin env now rnd i)"
    unfolding completeLogin_def issueSelectionToken_def sign_def recordSuccessfulLogin_def recordAudit_def
    by (auto intro!: passwords_kept.leads_rules session passwords_update split: list.split)
      (simp_all add: passwords_def)
  then show ?thesis by (simp add: leads_def)
qed

lemma password_of: "map_option li_passwordHash (identityById i db) = map_of (passwords db) i"
proof -
  have "map_option li_passwordHash (find (\<lambda>r. li_id r = i) rs) = map_of (map (\<lambda>r. (li_id r, li_passwordHash r)) rs) i" for rs
    by (induction rs) auto
  then show ?thesis by (simp add: identityById_def passwords_def)
qed

lemma updated_password:
  assumes "identityById i db = Some r"
  shows "map_of (passwords (updatePasswordHash i h db)) i = Some h"
proof -
  have "find (\<lambda>r. li_id r = i) rs = Some r \<Longrightarrow>
      map_of (map (\<lambda>r. (li_id r, li_passwordHash r)) (update_where (\<lambda>r. li_id r = i)
        (\<lambda>r. r\<lparr>li_passwordHash := h, li_failedLoginCount := 0, li_lockedUntil := None\<rparr>) rs)) i = Some h" for rs
    by (induction rs) (auto simp: update_where_def split: if_splits)
  then show ?thesis
    using assms by (simp add: identityById_def passwords_def updatePasswordHash_def update_login_def)
qed

lemma acceptance_password:
  assumes "identityById i db = Some r"
  obtains db' where "acceptance now r enterprise destination h db = Inr ((), db')" "map_of (passwords db') i = Some h"
proof -
  have id: "li_id r = i"
    using assms by (auto simp: identityById_def dest: find_Some_iff_mem)
  have "\<exists>db'. acceptance now r enterprise destination h db = Inr ((), db')"
    by (cases enterprise; cases "proven_credential r destination")
      (simp_all add: acceptance_def andThen_def bnd_def modifies_def reads_def ret_def split: option.split)
  then obtain db' where run: "acceptance now r enterprise destination h db = Inr ((), db')" by blast
  obtain rest where rest: "acceptance now r enterprise destination h = andThen (modifies (updatePasswordHash i h)) rest"
    and kept: "steps (\<lambda>db db'. passwords db' = passwords db) rest"
    by (rule that, unfold acceptance_def id, rule refl)
      (auto intro!: passwords_kept.steps_rules simp: passwords_same split: option.split)
  have "rest (updatePasswordHash i h db) = Inr ((), db')"
    using run unfolding rest by (simp add: andThen_def bnd_def modifies_def)
  then have "passwords db' = passwords (updatePasswordHash i h db)" using kept by (auto simp: steps_def)
  with run show thesis using that updated_password [OF assms] by simp
qed

lemma completeInvite_password:
  assumes "identityById i db = Some r"
  shows "map_of (passwords (snd (completeInvite env now rnd i enterprise destination pw db))) i
    = Some (hashPassword env (dr_salt rnd) pw)"
proof -
  obtain db' where run: "acceptance now r enterprise destination (hashPassword env (dr_salt rnd) pw) db = Inr ((), db')"
    and pw: "map_of (passwords db') i = Some (hashPassword env (dr_salt rnd) pw)"
    by (rule acceptance_password [OF assms])
  obtain r' where r': "identityById i db' = Some r'"
    using pw by (metis password_of option.map_disc_iff option.distinct(1) option.exhaust)
  have "passwords (snd (rthen (assertLoginable now r') (completeLogin env now rnd (li_id r')) db')) = passwords db'"
    using completeLogin_passwords
    by (auto simp: assertLoginable_def rthen_def rbnd_def rret_def rthrow_def split: option.split)
  with assms run r' pw show ?thesis
    by (simp add: completeInvite_def rbnd_rreads rthen_def rbnd_def [of "inTransaction m" for m])
qed

lemma invited_login_kept:
  assumes "insert_employment i e st db = Inr (u, db')"
  shows "logins db' = logins db" "challenges db' = challenges db"
  using assms by (auto simp: insert_employment_def modifies_def)



text \<open>The one who accepts is also signed in, as the owner of the number.\<close>

lemma demo_taken_over:
  "case inviteColleague demo_auth 0 (demo_draws ''r1'') 2 (Some ''eve@y.org'') (Some ''+911'') demo_start of
     (Inr delivery, db') \<Rightarrow> (case acceptInviteEndpoint demo_auth 5 (demo_draws ''r2'') (Some ''eve@y.org'') None
          (pd_otpCode delivery) ''evil'' db' of
        (Inr (SelectionRequired token choices), db'') \<Rightarrow>
          map ed_enterpriseId choices = [2, 1] \<and> signedPayloads db'' = [selection_payload 7]
      | _ \<Rightarrow> False)
   | _ \<Rightarrow> False"
  by code_simp

section \<open>Asking again\<close>

text \<open>A resend is a new budget: anybody may ask for one, without an account, and the row it makes has
  every attempt again and its whole lifetime again. The number of guesses at an invitation is not
  bounded by the five of one row.
\<close>
theorem resend_refills_budget:
  assumes "vtable_ok t" and "findLiveByDestination destination kind t = Some v"
    and "c_resendCooldownMs (VERIFICATION_CONFIG kind) \<le> now - v_lastSentAt v"
    and "countSentToDestinationSince destination (now - 3600000) t < c_hourlyDestinationCap (VERIFICATION_CONFIG kind)"
  shows "\<exists>delivery t' w. resend env now r destination kind channel t = (Inr (Some delivery), t')
    \<and> vrow t' (pd_verificationRefId delivery) = Some w
    \<and> v_identityId w = v_identityId v \<and> v_enterpriseId w = v_enterpriseId v \<and> v_unsettled w
    \<and> v_attemptCount w = 0 \<and> v_maxAttempts w = c_maxAttempts (VERIFICATION_CONFIG kind)
    \<and> v_expiresAt w = now + c_expiryMs (VERIFICATION_CONFIG kind)"
proof -
  let ?inp = "\<lparr>n_subjectKind = v_subjectKind v, n_identityId = v_identityId v, n_enterpriseId = v_enterpriseId v,
      n_customerId = v_customerId v, n_customerIdentifierId = v_customerIdentifierId v,
      n_kind = kind, n_channel = channel, n_destination = destination\<rparr>"
  have cap: "countSentToDestinationSince (n_destination ?inp) (now - 3600000) t < c_hourlyDestinationCap (VERIFICATION_CONFIG (n_kind ?inp))"
    using assms(4) by simp
  obtain t' w where t': "vtable_ok t'" "v_rows t' = v_rows (supersedeLive now (n_identityId ?inp) (n_customerId ?inp) (n_kind ?inp) (n_destination ?inp) t) @ [w]"
      "snd (issueVerification env now r ?inp t) = t'"
    and w: "w = new_row now ?inp (hashSecret env (mintSecret env (c_secretShape (VERIFICATION_CONFIG (n_kind ?inp))) r))
       (now + c_expiryMs (VERIFICATION_CONFIG (n_kind ?inp))) (c_maxAttempts (VERIFICATION_CONFIG (n_kind ?inp))) (v_next t)"
    and answer: "\<exists>issued. fst (issueVerification env now r ?inp t) = Inr issued \<and> pd_verificationRefId (iv_delivery issued) = v_next t
       \<and> pd_destination (iv_delivery issued) = n_destination ?inp
       \<and> pd_otpCode (iv_delivery issued) = mintSecret env (c_secretShape (VERIFICATION_CONFIG (n_kind ?inp))) r"
    by (rule issue_succeeds [OF assms(1) cap, of env r]) blast
  from answer obtain issued where "fst (issueVerification env now r ?inp t) = Inr issued"
    and ref: "pd_verificationRefId (iv_delivery issued) = v_next t" by blast
  with t'(3) have issue: "issueVerification env now r ?inp t = (Inr issued, t')" by (metis prod.collapse)
  have less: "v_id v \<noteq> v_next t"
    using assms(1) findLiveByDestination_mem [OF assms(2)] by (auto simp: vtable_ok_def list_all_iff)
  have "vrow (recordResend now (v_id v) t') (v_next t) = Some w"
    using vrow_of_mem [OF t'(1), of w] less by (simp add: recordResend_def vrow_update_rows t'(2) w)
  moreover have "resend env now r destination kind channel t = (Inr (Some (iv_delivery issued)), recordResend now (v_id v) t')"
    using assms(2,3) issue by (simp add: resend_def req_defs)
  moreover have "v_identityId w = v_identityId v" "v_enterpriseId w = v_enterpriseId v" "v_unsettled w" "v_attemptCount w = 0"
    "v_maxAttempts w = c_maxAttempts (VERIFICATION_CONFIG kind)" "v_expiresAt w = now + c_expiryMs (VERIFICATION_CONFIG kind)"
    by (simp_all add: w)
  ultimately show ?thesis unfolding ref [symmetric] by blast
qed

text \<open>
  At the hourly cap a resend tells whether somebody is waiting for a code there: it answers with
  an error exactly when a challenge is live for that address and out of its cooldown.
\<close>
theorem resend_reveals:
  assumes "c_hourlyDestinationCap (VERIFICATION_CONFIG kind) \<le> countSentToDestinationSince destination (now - 3600000) t"
  shows "fst (resend env now r destination kind channel t) = Inl AuthResendTooSoon \<longleftrightarrow>
      (\<exists>v. findLiveByDestination destination kind t = Some v
         \<and> c_resendCooldownMs (VERIFICATION_CONFIG kind) \<le> now - v_lastSentAt v)"
  using assms
  by (auto simp: resend_def req_defs issueVerification_def assertWithinDestinationCap_def Let_def split: option.split)

text \<open>Five resends of a code whose attempts are all spent; and the answer at the cap.\<close>

definition demo_spent :: verification_table where
  "demo_spent = \<lparr>v_rows = [new_row 0 demo_challenge (rev ''314159'') 600000 5 1\<lparr>v_attemptCount := 5\<rparr>], v_next = 2\<rparr>"

lemma resend_refills_budget_witness:
  "\<exists>delivery t' w. resend demo_secrets 60000 ''271828'' ''ann@x.org'' FirstLogin EmailChannel demo_spent = (Inr (Some delivery), t')
    \<and> vrow t' (pd_verificationRefId delivery) = Some w
    \<and> v_identityId w = v_identityId (the (vrow demo_spent 1)) \<and> v_enterpriseId w = v_enterpriseId (the (vrow demo_spent 1)) \<and> v_unsettled w
    \<and> v_attemptCount w = 0 \<and> v_maxAttempts w = c_maxAttempts (VERIFICATION_CONFIG FirstLogin)
    \<and> v_expiresAt w = 60000 + c_expiryMs (VERIFICATION_CONFIG FirstLogin)"
  by (rule resend_refills_budget) code_simp+

definition demo_capped :: "int option \<Rightarrow> verification_table" where
  "demo_capped used = \<lparr>v_rows = map (\<lambda>i. new_row (i * 60000) demo_challenge ''h'' 600000 5 i\<lparr>v_consumedAt := used\<rparr>) [1..5], v_next = 6\<rparr>"

lemma resend_reveals_witness:
  "fst (resend demo_secrets 600000 ''271828'' ''ann@x.org'' FirstLogin EmailChannel (demo_capped None)) = Inl AuthResendTooSoon
   \<and> fst (resend demo_secrets 600000 ''271828'' ''ann@x.org'' FirstLogin EmailChannel (demo_capped (Some 0))) \<noteq> Inl AuthResendTooSoon"
proof
  let ?cap = "c_hourlyDestinationCap (VERIFICATION_CONFIG FirstLogin)" and ?d = "''ann@x.org''"
  have cap: "?cap \<le> countSentToDestinationSince ?d (600000 - 3600000) (demo_capped None)"
    "?cap \<le> countSentToDestinationSince ?d (600000 - 3600000) (demo_capped (Some 0))" by code_simp+
  have "\<exists>v. findLiveByDestination ?d FirstLogin (demo_capped None) = Some v
      \<and> c_resendCooldownMs (VERIFICATION_CONFIG FirstLogin) \<le> 600000 - v_lastSentAt v"
  proof (intro exI conjI)
    show "findLiveByDestination ?d FirstLogin (demo_capped None) = Some (the (findLiveByDestination ?d FirstLogin (demo_capped None)))"
      by code_simp
  qed code_simp
  then show "fst (resend demo_secrets 600000 ''271828'' ?d FirstLogin EmailChannel (demo_capped None)) = Inl AuthResendTooSoon"
    by (rule resend_reveals [OF cap(1), THEN iffD2])
  have "findLiveByDestination ?d FirstLogin (demo_capped (Some 0)) = None" by code_simp
  then show "fst (resend demo_secrets 600000 ''271828'' ?d FirstLogin EmailChannel (demo_capped (Some 0))) \<noteq> Inl AuthResendTooSoon"
    using resend_reveals [OF cap(2)] by simp
qed

end
