(* ===== verification/Auth_Guards.thy ===== *)
theory Auth_Guards
  imports Auth_Safety
begin

text \<open>
  Who may call a route: the permission queries (\<open>database/repositories/permission.repository.ts\<close>,
  \<open>modules/auth/permission.service.ts\<close>) and the guards of \<open>shared/guards\<close>, in the order
  \<open>app.module.ts\<close> applies them. The tables hold the rows that are not deleted. Rate limiting, which
  comes first and is a library's, is left out.
\<close>

section \<open>Tokens\<close>

lemma readNullable_jsonNullable: "readNullable (Some (jsonNullable x)) = Some x"
  by (cases x) (simp_all add: readNullable_def jsonNullable_def)

lemma readActorKind_text: "readActorKind (actorKindText k) = Some k"
  by (cases k) (simp_all add: readActorKind_def)

lemma access_payload_read: "readAccessClaims (access_payload c) = Some c"
  by (cases c) (simp add: readAccessClaims_def access_payload_def readNullable_jsonNullable readActorKind_text)

lemma selection_payload_read: "readAccessClaims (selection_payload i) = None"
  by (simp add: readAccessClaims_def selection_payload_def)

text \<open>
  A token says what its claims say: reading back a signed access payload gives exactly the claims
  it was made from; a selection payload is never read as access, nor an access payload as a choice
  of business.
\<close>
theorem token_payloads_separate:
  "readAccessClaims (access_payload c) = Some c \<and> readAccessClaims (selection_payload i) = None
   \<and> map_of (access_payload c) ''purpose'' \<noteq> Some (JStr ''enterprise_selection'')
   \<and> map_of (selection_payload i) ''purpose'' = Some (JStr ''enterprise_selection'')"
  by (simp add: access_payload_read selection_payload_read)
    (simp add: access_payload_def selection_payload_def)

section \<open>Permissions\<close>

datatype PermissionScope = EnterprisePermission | StaffPermission | BothScopes

datatype RoleScope = EnterpriseRole | StaffRoleScope

record permission_row =
  pm_id :: int
  pm_code :: string
  pm_featureId :: "int option"
  pm_scope :: PermissionScope
  pm_active :: bool

record access_role =
  ar_id :: int
  ar_enterpriseId :: "int option"
  ar_scope :: RoleScope
  ar_active :: bool

record employee_grant =
  eg_employeeId :: int
  eg_enterpriseId :: int
  eg_roleId :: int

record staff_grant =
  sg_staffId :: int
  sg_roleId :: int
  sg_roleScope :: RoleScope

record business_feature =
  bf_enterpriseId :: int
  bf_featureId :: int
  bf_active :: bool

record grant_db =
  permissions :: "permission_row list"
  features :: "(int \<times> string) list"
  accessRoles :: "access_role list"
  rolePermissions :: "(int \<times> int) list"
  employeeGrants :: "employee_grant list"
  staffGrants :: "staff_grant list"
  businessFeatures :: "business_feature list"

definition requireEnterprise :: "int \<Rightarrow> auth_error + unit" where
  "requireEnterprise e = (if e \<le> 0 then Inl AuthEnterpriseNotSelected else Inr ())"

definition feature_on :: "grant_db \<Rightarrow> int \<Rightarrow> permission_row \<Rightarrow> bool" where
  "feature_on gr e p \<longleftrightarrow> (case pm_featureId p of None \<Rightarrow> True
     | Some f \<Rightarrow> list_ex (\<lambda>b. bf_featureId b = f \<and> bf_enterpriseId b = e \<and> bf_active b) (businessFeatures gr))"

definition role_gives :: "grant_db \<Rightarrow> int \<Rightarrow> permission_row \<Rightarrow> bool" where
  "role_gives gr r p \<longleftrightarrow> (r, pm_id p) \<in> set (rolePermissions gr) \<and> pm_active p"

text \<open>The joins of the query: the grant, the employment, the role on both sides of the tenant.\<close>

definition employee_grant_counts :: "grant_db \<Rightarrow> auth_db \<Rightarrow> int \<Rightarrow> int \<Rightarrow> employee_grant \<Rightarrow> bool" where
  "employee_grant_counts gr db m e g \<longleftrightarrow> eg_employeeId g = m \<and> eg_enterpriseId g = e
     \<and> list_ex (\<lambda>x. ey_id x = eg_employeeId g \<and> ey_enterpriseId x = eg_enterpriseId g \<and> ey_status x = ActiveEmployment) (employments db)
     \<and> list_ex (\<lambda>r. ar_id r = eg_roleId g \<and> ar_enterpriseId r = Some (eg_enterpriseId g) \<and> ar_active r) (accessRoles gr)"

definition listEffectivePermissions :: "grant_db \<Rightarrow> auth_db \<Rightarrow> int \<Rightarrow> int \<Rightarrow> auth_error + string list" where
  "listEffectivePermissions gr db m e = (case requireEnterprise e of Inl x \<Rightarrow> Inl x | Inr _ \<Rightarrow>
     Inr (remdups (concat (map (\<lambda>g. map pm_code (filter (\<lambda>p. role_gives gr (eg_roleId g) p \<and> feature_on gr e p) (permissions gr)))
       (filter (employee_grant_counts gr db m e) (employeeGrants gr))))))"

definition staffStanding :: "auth_db \<Rightarrow> int \<Rightarrow> bool \<times> bool" where
  "staffStanding db i = (case find (\<lambda>s. sf_id s = i \<and> sf_status s = ActiveEmployment) (staffMembers db) of
     None \<Rightarrow> (False, False) | Some s \<Rightarrow> (True, sf_allEnterprises s))"

definition applies :: "grant_db \<Rightarrow> int option \<Rightarrow> permission_row \<Rightarrow> bool" where
  "applies gr enterprise p \<longleftrightarrow> (case enterprise of None \<Rightarrow> pm_featureId p = None | Some e \<Rightarrow> feature_on gr e p)"

definition listStaffRolePermissions :: "grant_db \<Rightarrow> int \<Rightarrow> int option \<Rightarrow> string list" where
  "listStaffRolePermissions gr i enterprise =
     remdups (concat (map (\<lambda>g. map pm_code (filter (\<lambda>p. role_gives gr (sg_roleId g) p \<and> applies gr enterprise p) (permissions gr)))
       (filter (\<lambda>g. sg_staffId g = i
          \<and> list_ex (\<lambda>r. ar_id r = sg_roleId g \<and> ar_scope r = sg_roleScope g \<and> ar_active r) (accessRoles gr)) (staffGrants gr))))"

definition listStaffPermissions :: "grant_db \<Rightarrow> auth_db \<Rightarrow> int \<Rightarrow> int option \<Rightarrow> auth_error + string list" where
  "listStaffPermissions gr db i enterprise =
     (let (active, everywhere) = staffStanding db i;
          all_staff = map pm_code (filter (\<lambda>p. pm_active p \<and> pm_scope p \<noteq> EnterprisePermission \<and> applies gr enterprise p) (permissions gr))
      in if \<not> active then Inr []
         else if \<not> everywhere then Inr (listStaffRolePermissions gr i enterprise)
         else case enterprise of
             None \<Rightarrow> Inr all_staff
           | Some e \<Rightarrow> (case requireEnterprise e of Inl x \<Rightarrow> Inl x | Inr _ \<Rightarrow> Inr all_staff))"

definition featureBlocking :: "grant_db \<Rightarrow> int \<Rightarrow> string list \<Rightarrow> string option" where
  "featureBlocking gr e codes =
     (case List.find (\<lambda>p. pm_code p \<in> set codes \<and> pm_featureId p \<noteq> None \<and> \<not> feature_on gr e p
          \<and> map_of (features gr) (the (pm_featureId p)) \<noteq> None) (permissions gr) of
        None \<Rightarrow> None
      | Some p \<Rightarrow> map_of (features gr) (the (pm_featureId p)))"

text \<open>\<open>PermissionService.resolve\<close>.\<close>

definition resolvePermissions :: "grant_db \<Rightarrow> auth_db \<Rightarrow> access_claims \<Rightarrow> auth_error + string list" where
  "resolvePermissions gr db c =
     (case (ac_employeeId c, ac_enterpriseId c) of
        (Some m, Some e) \<Rightarrow> listEffectivePermissions gr db m e
      | _ \<Rightarrow> (case (ac_actorKind c, ac_staffId c) of
          (ActorStaff, Some i) \<Rightarrow> listStaffPermissions gr db i (ac_enterpriseId c)
        | _ \<Rightarrow> Inr []))"

section \<open>Guards\<close>

record route =
  rt_public :: bool
  rt_permissions :: "string list"
  rt_anyPermission :: "string list"
  rt_platformAdmin :: bool

record actor_context =
  act_claims :: access_claims
  act_permissions :: "string list"

definition declaresPermission :: "route \<Rightarrow> bool" where
  "declaresPermission r \<longleftrightarrow> rt_permissions r \<noteq> [] \<or> rt_anyPermission r \<noteq> []"

definition lower_ascii :: "char \<Rightarrow> char" where
  "lower_ascii c = (if 65 \<le> (of_char c :: nat) \<and> of_char c \<le> (90 :: nat) then char_of (of_char c + 32 :: nat) else c)"

definition extractBearerToken :: "string option \<Rightarrow> string option" where
  "extractBearerToken header =
     (case given header of
        None \<Rightarrow> None
      | Some h \<Rightarrow> (case split_on (CHR '' '') h of
          scheme # value # _ \<Rightarrow>
            if map lower_ascii scheme \<noteq> ''bearer'' then None else given (Some (trim_blanks value))
        | _ \<Rightarrow> None))"

definition jwtAuthGuard :: "auth_env \<Rightarrow> int \<Rightarrow> grant_db \<Rightarrow> auth_db \<Rightarrow> route \<Rightarrow> string option \<Rightarrow>
    auth_error + actor_context option" where
  "jwtAuthGuard env now gr db r header =
     (if rt_public r then Inr None
      else case extractBearerToken header of
        None \<Rightarrow> Inl AuthTokenInvalid
      | Some token \<Rightarrow> (case verifyAccessToken env now token of
          Inl e \<Rightarrow> Inl e
        | Inr c \<Rightarrow> (case resolvePermissions gr db c of
            Inl e \<Rightarrow> Inl e
          | Inr codes \<Rightarrow> Inr (Some \<lparr>act_claims = c, act_permissions = codes\<rparr>))))"

definition enterpriseScopeGuard :: "route \<Rightarrow> actor_context option \<Rightarrow> auth_error + unit" where
  "enterpriseScopeGuard r actor =
     (if rt_public r \<or> \<not> declaresPermission r then Inr ()
      else case actor of
        None \<Rightarrow> Inl AuthTokenInvalid
      | Some a \<Rightarrow>
          if ac_enterpriseId (act_claims a) = None then Inl AuthEnterpriseNotSelected
          else if ac_employeeId (act_claims a) = None \<and> ac_actorKind (act_claims a) \<noteq> ActorStaff then Inl AuthNoActiveEmployment
          else Inr ())"

definition enterpriseActiveGuard :: "auth_db \<Rightarrow> route \<Rightarrow> actor_context option \<Rightarrow> auth_error + unit" where
  "enterpriseActiveGuard db r actor =
     (if rt_public r \<or> \<not> declaresPermission r then Inr ()
      else case actor of
        None \<Rightarrow> Inl AuthTokenInvalid
      | Some a \<Rightarrow> (case ac_enterpriseId (act_claims a) of
          None \<Rightarrow> Inr ()
        | Some e \<Rightarrow>
            if ac_actorKind (act_claims a) = ActorStaff then Inr ()
            else case map_option bu_status (businessById e db) of
              None \<Rightarrow> Inl UnknownEnterprise
            | Some PendingBusiness \<Rightarrow> Inl EnterprisePendingActivation
            | Some SuspendedBusiness \<Rightarrow> Inl EnterpriseSuspended
            | Some ActiveBusiness \<Rightarrow> Inr ()))"

definition refusal :: "grant_db \<Rightarrow> int option \<Rightarrow> string list \<Rightarrow> auth_error" where
  "refusal gr enterprise codes =
     (case Option.bind enterprise (\<lambda>e. if codes = [] then None else featureBlocking gr e codes) of
        Some feature \<Rightarrow> FeatureNotEnabled feature
      | None \<Rightarrow> RequestDenied codes)"

definition permissionsGuard :: "grant_db \<Rightarrow> route \<Rightarrow> actor_context option \<Rightarrow> auth_error + unit" where
  "permissionsGuard gr r actor =
     (if rt_public r \<or> rt_permissions r = [] \<and> rt_anyPermission r = [] then Inr ()
      else case actor of
        None \<Rightarrow> Inl AuthTokenInvalid
      | Some a \<Rightarrow>
          let holds = (\<lambda>p. p \<in> set (act_permissions a)); missing = filter (\<lambda>p. \<not> holds p) (rt_permissions r) in
          if rt_anyPermission r \<noteq> [] \<and> \<not> list_ex holds (rt_anyPermission r)
          then Inl (refusal gr (ac_enterpriseId (act_claims a)) (rt_anyPermission r))
          else if missing \<noteq> [] then Inl (refusal gr (ac_enterpriseId (act_claims a)) missing)
          else Inr ())"

definition platformAdminGuard :: "auth_db \<Rightarrow> route \<Rightarrow> actor_context option \<Rightarrow> auth_error + unit" where
  "platformAdminGuard db r actor =
     (if rt_public r \<or> \<not> rt_platformAdmin r then Inr ()
      else case actor of
        None \<Rightarrow> Inl AuthTokenInvalid
      | Some a \<Rightarrow>
          if ac_staffId (act_claims a) = None then Inl (RequestDenied [])
          else case staffActiveByIdentity (ac_identityId (act_claims a)) db of
            None \<Rightarrow> Inl (RequestDenied [])
          | Some s \<Rightarrow>
              if Some (sf_id s) \<noteq> ac_staffId (act_claims a) \<or> \<not> sf_allEnterprises s then Inl (RequestDenied [])
              else Inr ())"

definition admit :: "auth_env \<Rightarrow> int \<Rightarrow> grant_db \<Rightarrow> auth_db \<Rightarrow> route \<Rightarrow> string option \<Rightarrow>
    auth_error + actor_context option" where
  "admit env now gr db r header =
     (case jwtAuthGuard env now gr db r header of Inl e \<Rightarrow> Inl e | Inr actor \<Rightarrow>
      (case enterpriseScopeGuard r actor of Inl e \<Rightarrow> Inl e | Inr _ \<Rightarrow>
      (case enterpriseActiveGuard db r actor of Inl e \<Rightarrow> Inl e | Inr _ \<Rightarrow>
      (case permissionsGuard gr r actor of Inl e \<Rightarrow> Inl e | Inr _ \<Rightarrow>
      (case platformAdminGuard db r actor of Inl e \<Rightarrow> Inl e | Inr _ \<Rightarrow> Inr actor)))))"

section \<open>What an admitted request is entitled to\<close>

text \<open>The rule the queries are meant to compute: an active employment in this business, an active role
  of this business granted to it, the permission in that role, and the feature of the permission held
  by the business; for our own people an active row, and either the flag or a staff role.\<close>

definition employee_may :: "grant_db \<Rightarrow> auth_db \<Rightarrow> int \<Rightarrow> int \<Rightarrow> string \<Rightarrow> bool" where
  "employee_may gr db m e code \<longleftrightarrow>
     (\<exists>x\<in>set (employments db). ey_id x = m \<and> ey_enterpriseId x = e \<and> ey_status x = ActiveEmployment)
     \<and> (\<exists>g\<in>set (employeeGrants gr). \<exists>role\<in>set (accessRoles gr). \<exists>p\<in>set (permissions gr).
          eg_employeeId g = m \<and> eg_enterpriseId g = e \<and> eg_roleId g = ar_id role \<and> ar_enterpriseId role = Some e
          \<and> ar_active role \<and> (ar_id role, pm_id p) \<in> set (rolePermissions gr) \<and> pm_code p = code \<and> pm_active p
          \<and> feature_on gr e p)"

definition staff_may :: "grant_db \<Rightarrow> auth_db \<Rightarrow> int \<Rightarrow> int \<Rightarrow> string \<Rightarrow> bool" where
  "staff_may gr db i e code \<longleftrightarrow>
     (\<exists>s\<in>set (staffMembers db). sf_id s = i \<and> sf_status s = ActiveEmployment
        \<and> (\<exists>p\<in>set (permissions gr). pm_code p = code \<and> pm_active p \<and> feature_on gr e p
            \<and> (if sf_allEnterprises s then pm_scope p \<noteq> EnterprisePermission
               else \<exists>g\<in>set (staffGrants gr). sg_staffId g = i \<and> (sg_roleId g, pm_id p) \<in> set (rolePermissions gr))))"

definition may_now :: "grant_db \<Rightarrow> auth_db \<Rightarrow> access_claims \<Rightarrow> int \<Rightarrow> string \<Rightarrow> bool" where
  "may_now gr db c e code \<longleftrightarrow> (case ac_employeeId c of
     Some m \<Rightarrow> employee_may gr db m e code
   | None \<Rightarrow> ac_actorKind c = ActorStaff \<and> (\<exists>i. ac_staffId c = Some i \<and> staff_may gr db i e code))"

lemma effective_iff:
  assumes "listEffectivePermissions gr db m e = Inr codes"
  shows "code \<in> set codes \<longleftrightarrow> employee_may gr db m e code"
proof -
  have codes: "codes = remdups (concat (map (\<lambda>g. map pm_code (filter (\<lambda>p. role_gives gr (eg_roleId g) p \<and> feature_on gr e p) (permissions gr)))
       (filter (employee_grant_counts gr db m e) (employeeGrants gr))))"
    using assms by (auto simp: listEffectivePermissions_def split: sum.splits)
  show ?thesis
    unfolding codes employee_may_def employee_grant_counts_def role_gives_def list_ex_iff
    by (auto simp: image_iff) metis+
qed

lemma staff_codes:
  assumes "listStaffPermissions gr db i (Some e) = Inr codes" and "code \<in> set codes"
  shows "staff_may gr db i e code"
proof -
  obtain s where s: "find (\<lambda>s. sf_id s = i \<and> sf_status s = ActiveEmployment) (staffMembers db) = Some s"
    using assms by (auto simp: listStaffPermissions_def staffStanding_def split: option.splits)
  from find_Some_iff_mem [OF this] have row: "s \<in> set (staffMembers db)" "sf_id s = i" "sf_status s = ActiveEmployment" by auto
  show ?thesis
  proof (cases "sf_allEnterprises s")
    case True
    then have "code \<in> set (map pm_code (filter (\<lambda>p. pm_active p \<and> pm_scope p \<noteq> EnterprisePermission \<and> applies gr (Some e) p) (permissions gr)))"
      using assms s by (auto simp: listStaffPermissions_def staffStanding_def split: sum.splits)
    with True row show ?thesis by (auto simp: staff_may_def applies_def)
  next
    case False
    then have "code \<in> set (listStaffRolePermissions gr i (Some e))"
      using assms s by (auto simp: listStaffPermissions_def staffStanding_def)
    with False row show ?thesis
      by (auto simp: staff_may_def listStaffRolePermissions_def applies_def role_gives_def)
  qed
qed

lemma resolved:
  assumes "resolvePermissions gr db c = Inr codes" and "ac_enterpriseId c = Some e" and "code \<in> set codes"
  shows "may_now gr db c e code"
proof (cases "ac_employeeId c")
  case None
  then show ?thesis
    using assms staff_codes by (auto simp: resolvePermissions_def may_now_def split: ActorKind.splits option.splits)
next
  case (Some m)
  then show ?thesis using assms effective_iff by (auto simp: resolvePermissions_def may_now_def)
qed


section \<open>Reaching into a business from outside\<close>

definition vouched :: "auth_db \<Rightarrow> jwt_payload \<Rightarrow> bool" where
  "vouched db p \<longleftrightarrow> (\<forall>c. readAccessClaims p = Some c \<longrightarrow>
     (ac_actorKind c = ActorStaff \<longrightarrow> ac_employeeId c = None)
     \<and> (ac_isImpersonated c \<longleftrightarrow> ac_enterpriseId c \<noteq> None \<and> ac_employeeId c = None)
     \<and> (ac_isImpersonated c \<longrightarrow> ac_actorKind c = ActorStaff
         \<and> (\<exists>s\<in>set (staffMembers db). sf_allEnterprises s \<and> ac_staffId c = Some (sf_id s)
             \<and> Impersonated (the (ac_enterpriseId c)) (sf_id s) \<in> set (auditTrail db))))"

definition all_vouched :: "auth_db \<Rightarrow> bool" where
  "all_vouched db \<longleftrightarrow> (\<forall>p\<in>set (signedPayloads db). vouched db p)"

lemma vouched_mono:
  assumes "vouched db p" and "staff_kept (staffMembers db) (staffMembers db')"
    and "set (auditTrail db) \<subseteq> set (auditTrail db')"
  shows "vouched db' p"
proof -
  have "\<exists>s\<in>set (staffMembers db'). sf_allEnterprises s \<and> i = Some (sf_id s) \<and> Impersonated e (sf_id s) \<in> set (auditTrail db')"
    if "\<exists>s\<in>set (staffMembers db). sf_allEnterprises s \<and> i = Some (sf_id s) \<and> Impersonated e (sf_id s) \<in> set (auditTrail db)" for i e
    using that assms(2,3) unfolding staff_kept_def by (metis subsetD)
  with assms(1) show ?thesis unfolding vouched_def by blast
qed

lemma staff_kept_refl: "staff_kept ss ss"
  by (auto simp: staff_kept_def)

lemma all_vouched_mono:
  assumes "all_vouched db" and "set (signedPayloads db') \<subseteq> set (signedPayloads db)"
    and "staff_kept (staffMembers db) (staffMembers db')" and "set (auditTrail db) \<subseteq> set (auditTrail db')"
  shows "all_vouched db'"
  using assms vouched_mono unfolding all_vouched_def by blast

lemma all_vouched_same:
  "all_vouched db \<Longrightarrow> signedPayloads db' = signedPayloads db \<Longrightarrow> staffMembers db' = staffMembers db \<Longrightarrow>
   auditTrail db' = auditTrail db \<Longrightarrow> all_vouched db'"
  by (rule all_vouched_mono [of db db']) (simp_all add: staff_kept_refl)

lemma session_claims_vouched: "vouched db (access_payload (session_claims i m staff))"
  by (cases m) (simp_all add: vouched_def access_payload_read session_claims_def resolveActorKind_def isImpersonated_def)

lemma selection_vouched: "vouched db (selection_payload i)"
  by (simp add: vouched_def selection_payload_read)

lemma sign_vouched: "(\<And>d. vouched d p) \<Longrightarrow> all_vouched db \<Longrightarrow> all_vouched (db\<lparr>signedPayloads := p # signedPayloads db\<rparr>)"
  unfolding all_vouched_def by (auto intro: vouched_mono simp: staff_kept_refl)

lemma reach_vouched:
  assumes "s \<in> set (staffMembers db)" and "sf_allEnterprises s" and "all_vouched db"
  shows "all_vouched (recordAudit (Impersonated e (sf_id s)) (db\<lparr>signedPayloads := access_payload (reach_claims i e s) # signedPayloads db\<rparr>))"
proof -
  let ?db = "recordAudit (Impersonated e (sf_id s)) (db\<lparr>signedPayloads := access_payload (reach_claims i e s) # signedPayloads db\<rparr>)"
  have "vouched ?db (access_payload (reach_claims i e s))"
    using assms(1,2) by (auto simp: vouched_def access_payload_read reach_claims_def recordAudit_def)
  moreover have "vouched ?db p" if "p \<in> set (signedPayloads db)" for p
    by (rule vouched_mono [of db]) (use that assms(3) in \<open>auto simp: all_vouched_def recordAudit_def staff_kept_refl\<close>)
  ultimately show ?thesis by (simp add: all_vouched_def recordAudit_def)
qed

lemma identity_vouched: "insert_identity env e m h db = Inr (i, db') \<Longrightarrow> all_vouched db \<Longrightarrow> all_vouched db'"
  by (auto simp: insert_identity_def Let_def elim!: all_vouched_same split: if_splits)

lemma insert_session_vouched: "insert_session now i h x db = Inr (u, db') \<Longrightarrow> all_vouched db \<Longrightarrow> all_vouched db'"
  by (auto simp: insert_session_def elim!: all_vouched_same split: if_splits)

lemma rest_vouched:
  assumes "all_vouched db"
  shows "all_vouched (update_login j f db)" "all_vouched (revoke_where P now db)" "all_vouched (db\<lparr>challenges := t\<rparr>)"
    "all_vouched (db\<lparr>employments := ms\<rparr>)" "all_vouched (db\<lparr>businesses := bs\<rparr>)"
    "all_vouched (db\<lparr>auditTrail := auditTrail db @ [a]\<rparr>)" "all_vouched (sweepSessions cutoff n db)"
    "staff_kept (staffMembers db) ss \<Longrightarrow> all_vouched (db\<lparr>staffMembers := ss\<rparr>)"
  by (rule all_vouched_mono [OF assms]; simp add: update_login_def revoke_where_def sweepSessions_def staff_kept_refl subset_insertI2; fail)+

interpretation vouch_statement: statement_relation "\<lambda>db db'. all_vouched db \<longrightarrow> all_vouched db'" "\<lambda>_. True" "\<lambda>p. \<forall>db. vouched db p"
  by unfold_locales (simp_all add: insert_session_vouched rest_vouched sign_vouched)

interpretation vouch: standing_relation "\<lambda>db db'. all_vouched db \<longrightarrow> all_vouched db'" env now "\<lambda>_. True" "\<lambda>_. True"
  "\<lambda>p. \<forall>db. vouched db p" "\<lambda>_ _. True" for env :: auth_env and now :: int
  by unfold_locales
    (simp_all add: staff_stays_def identity_vouched rest_vouched sign_vouched reach_vouched session_claims_vouched selection_vouched
      vouch_statement.R_issueSession)

lemma vouched_steps: "auth_steps env admits s s' \<Longrightarrow> all_vouched (snd s) \<Longrightarrow> all_vouched (snd s')"
proof (induction rule: auth_steps.induct)
  case (auth_request s t db req rnd)
  then show ?case using vouch.R_perform [of db env t rnd req] by simp
qed simp_all

lemma vouched_reachable: "auth_reachable env admits t db \<Longrightarrow> all_vouched db"
  unfolding auth_reachable_def using vouched_steps by (fastforce simp: fresh_auth_def all_vouched_def)


text \<open>One of our people without the platform flag gets through the guards to no route that declares
  a permission, nor to one for platform admins, whatever their staff roles grant: their tokens never
  name a business, and without one the scope guard refuses.
\<close>
theorem scoped_staff_reach_nothing:
  assumes "auth_reachable env admits t db" and "distinct (map sf_id (staffMembers db))"
    and "s \<in> set (staffMembers db)" and "\<not> sf_allEnterprises s"
    and "extractBearerToken header = Some token" and "verifyJwt env now token = Inr p" and "p \<in> set (signedPayloads db)"
    and "readAccessClaims p = Some c" and "ac_actorKind c = ActorStaff" and "ac_staffId c = Some (sf_id s)"
    and "\<not> rt_public r" and "declaresPermission r \<or> rt_platformAdmin r"
  shows "\<exists>e. admit env now gr db r header = Inl e"
proof -
  have flag: "\<not> sf_allEnterprises x" if "x \<in> set (staffMembers db)" "sf_id x = sf_id s" for x
    using distinct_map_eq [OF assms(2) that(1) assms(3) that(2)] assms(4) by simp
  have "vouched db p" using vouched_reachable [OF assms(1)] assms(7) by (simp add: all_vouched_def)
  then have "ac_enterpriseId c = None"
    using assms(8-10) flag by (fastforce simp: vouched_def)
  then have scope: "declaresPermission r \<Longrightarrow> \<exists>e. enterpriseScopeGuard r (Some a) = Inl e" if "act_claims a = c" for a
    using that assms(11) by (simp add: enterpriseScopeGuard_def)
  have platform: "\<exists>e. platformAdminGuard db r (Some a) = Inl e" if a: "act_claims a = c" and r: "rt_platformAdmin r" for a
  proof (cases "staffActiveByIdentity (ac_identityId c) db")
    case (Some x)
    then have "x \<in> set (staffMembers db)" unfolding staffActiveByIdentity_def by (metis find_Some_iff_mem)
    with flag [of x] Some a r assms(10,11) show ?thesis by (auto simp: platformAdminGuard_def)
  qed (use a r assms(10,11) in \<open>simp add: platformAdminGuard_def\<close>)
  have token: "verifyAccessToken env now token = Inr c" using assms(6,8) by (simp add: verifyAccessToken_def)
  show ?thesis
  proof (cases "resolvePermissions gr db c")
    case (Inl e)
    then show ?thesis using assms(5,11) token by (simp add: admit_def jwtAuthGuard_def)
  next
    case (Inr codes)
    let ?a = "\<lparr>act_claims = c, act_permissions = codes\<rparr>"
    have jwt: "jwtAuthGuard env now gr db r header = Inr (Some ?a)"
      using Inr assms(5,11) token by (simp add: jwtAuthGuard_def)
    show ?thesis
    proof (cases "declaresPermission r")
      case True
      with scope [of ?a] jwt show ?thesis by (auto simp: admit_def)
    next
      case False
      then have "\<exists>e. platformAdminGuard db r (Some ?a) = Inl e" using assms(12) by (intro platform) simp_all
      with jwt show ?thesis by (auto simp: admit_def split: sum.split)
    qed
  qed
qed

text \<open>
  Refreshing drops the business of somebody who reaches into it: the request names it, is not
  refused, and is answered with a token that names none.
\<close>
theorem refresh_drops_reach:
  assumes "findLiveByTokenHash now (hashOpaqueToken env token) db = Some session"
    and "identityById (se_identityId session) db = Some i" and "\<not> li_disabled i" and "\<not> is_locked now i"
    and "staffActiveByIdentity (li_id i) db = Some s" and "sf_allEnterprises s"
    and "businessById e db \<noteq> None" and "findActiveEmployment (li_id i) e db = None"
    and "parseDuration (accessTtl env) = Some n"
  shows "\<exists>access db' c. refresh env now token (Some e) db = (Inr (access, None), db')
    \<and> signedPayloads db' = access_payload c # signedPayloads db \<and> ac_enterpriseId c = None"
proof -
  have "assertLoginable now i = rret ()"
    using assms(3,4) by (auto simp: assertLoginable_def is_locked_def fun_eq_iff split: option.splits)
  moreover have "named_employment (li_id i) (Some e) (Some s) db = (Inr None, db)"
    using assms(6-8) by (auto simp: named_employment_def rbnd_rreads has_reach_def rret_def)
  moreover have "assertStandingNotRevoked now (li_id i) (has_reach (Some s)) = rret ()"
    using assms(6) by (simp add: assertStandingNotRevoked_def has_reach_def)
  ultimately show ?thesis
    using assms(1,2,5,9)
    by (auto simp: refresh_def rbnd_rreads issueAccessToken_def sign_def rthen_def rbnd_def rret_def rwrites_def rreads_def
        session_claims_def intro!: exI)
qed

section \<open>Examples\<close>

text \<open>The owner of the cafe may read its conversations; a support person has a staff role for it, a
  platform admin the flag. Tokens are written \<open>s\<close> and \<open>a\<close>.\<close>

definition demo_grants :: grant_db where
  "demo_grants = \<lparr>permissions = [\<lparr>pm_id = 1, pm_code = ''conversations.view'', pm_featureId = Some 3, pm_scope = BothScopes, pm_active = True\<rparr>],
     features = [(3, ''inbox'')],
     accessRoles = [\<lparr>ar_id = 11, ar_enterpriseId = Some 1, ar_scope = EnterpriseRole, ar_active = True\<rparr>,
                    \<lparr>ar_id = 12, ar_enterpriseId = None, ar_scope = StaffRoleScope, ar_active = True\<rparr>],
     rolePermissions = [(11, 1), (12, 1)],
     employeeGrants = [\<lparr>eg_employeeId = 5, eg_enterpriseId = 1, eg_roleId = 11\<rparr>],
     staffGrants = [\<lparr>sg_staffId = 21, sg_roleId = 12, sg_roleScope = StaffRoleScope\<rparr>],
     businessFeatures = [\<lparr>bf_enterpriseId = 1, bf_featureId = 3, bf_active = True\<rparr>]\<rparr>"

definition demo_staff_db :: auth_db where
  "demo_staff_db = (demo_auth_db [demo_identity 7 ''ann@x.org'' ''+911'', demo_identity 8 ''sue@w.org'' ''+912'', demo_identity 9 ''pat@w.org'' ''+913''])
     \<lparr>staffMembers := [\<lparr>sf_id = 21, sf_identityId = 8, sf_allEnterprises = False, sf_status = ActiveEmployment\<rparr>,
                       \<lparr>sf_id = 22, sf_identityId = 9, sf_allEnterprises = True, sf_status = ActiveEmployment\<rparr>]\<rparr>"

definition demo_support_claims :: access_claims where
  "demo_support_claims = session_claims 8 None (Some 21)"

definition demo_owner_claims :: access_claims where
  "demo_owner_claims = session_claims 7 (Some (demo_employment 5 7 1)) None"

definition demo_tokens :: auth_env where
  "demo_tokens = demo_auth\<lparr>verifyJwt := (\<lambda>now t. if t = ''s'' then Inr (access_payload demo_support_claims)
     else if t = ''o'' then Inr (access_payload demo_owner_claims) else Inl JwtInvalid)\<rparr>"

definition inbox_route :: route where
  "inbox_route = \<lparr>rt_public = False, rt_permissions = [], rt_anyPermission = [''conversations.view''], rt_platformAdmin = False\<rparr>"

definition demo_login :: "string \<Rightarrow> string \<Rightarrow> login_request" where
  "demo_login email pw = \<lparr>lr_email = Some email, lr_mobile = None, lr_password = pw\<rparr>"

definition demo_support_in :: auth_db where
  "demo_support_in = perform demo_tokens 0 (demo_draws ''r1'') (Login (demo_login ''sue@w.org'' ''s3cret'')) demo_staff_db"

lemma demo_support_reachable: "auth_reachable demo_tokens anything 0 demo_support_in"
proof -
  have "fresh_auth demo_tokens demo_staff_db" by code_simp
  moreover have "auth_steps demo_tokens anything (0, demo_staff_db) (0, demo_support_in)"
    unfolding demo_support_in_def by (rule auth_request [OF auth_stay]) (simp_all add: unforged_def)
  ultimately show ?thesis unfolding auth_reachable_def by blast
qed

lemma scoped_staff_reach_nothing_witness:
  "listStaffPermissions demo_grants demo_support_in 21 (Some 1) = Inr [''conversations.view'']
   \<and> (\<exists>e. admit demo_tokens 5 demo_grants demo_support_in inbox_route (Some ''Bearer s'') = Inl e)"
proof
  show "listStaffPermissions demo_grants demo_support_in 21 (Some 1) = Inr [''conversations.view'']" by code_simp
  let ?s = "\<lparr>sf_id = 21, sf_identityId = 8, sf_allEnterprises = False, sf_status = ActiveEmployment\<rparr>"
  show "\<exists>e. admit demo_tokens 5 demo_grants demo_support_in inbox_route (Some ''Bearer s'') = Inl e"
  proof (rule scoped_staff_reach_nothing [OF demo_support_reachable])
    show "?s \<in> set (staffMembers demo_support_in)" by code_simp
    show "verifyJwt demo_tokens 5 ''s'' = Inr (access_payload demo_support_claims)" by code_simp
  qed code_simp+
qed


definition demo_switched :: auth_db where
  "demo_switched = perform demo_tokens 5 (demo_draws ''r2'') (Switch 9 2) demo_staff_db"


definition demo_admin_in :: auth_db where
  "demo_admin_in = perform demo_tokens 0 (demo_draws ''r1'') (Login (demo_login ''pat@w.org'' ''s3cret'')) demo_staff_db"

lemma refresh_drops_reach_witness:
  "\<exists>access db' c. refresh demo_tokens 5 ''r1'' (Some 2) demo_admin_in = (Inr (access, None), db')
    \<and> signedPayloads db' = access_payload c # signedPayloads demo_admin_in \<and> ac_enterpriseId c = None"
proof (rule refresh_drops_reach)
  let ?s = "the (findLiveByTokenHash 5 (hashOpaqueToken demo_tokens ''r1'') demo_admin_in)"
  let ?i = "the (identityById (se_identityId ?s) demo_admin_in)"
  show "findLiveByTokenHash 5 (hashOpaqueToken demo_tokens ''r1'') demo_admin_in = Some ?s" by code_simp
  show "identityById (se_identityId ?s) demo_admin_in = Some ?i" by code_simp
  show "\<not> li_disabled ?i" "\<not> is_locked 5 ?i" by code_simp+
  show "staffActiveByIdentity (li_id ?i) demo_admin_in = Some \<lparr>sf_id = 22, sf_identityId = 9, sf_allEnterprises = True, sf_status = ActiveEmployment\<rparr>"
    by code_simp
  show "findActiveEmployment (li_id ?i) 2 demo_admin_in = None" by code_simp
  show "parseDuration (accessTtl demo_tokens) = Some 900" by code_simp
  show "businessById 2 demo_admin_in \<noteq> None" by code_simp
qed simp

end
