(* ===== verification/Auth_Proof.thy ===== *)
theory Auth_Proof
  imports Auth_Invites Auth_Guards
begin

text \<open>
  No session without proof: as long as nobody sends an invitation to an address that is not the
  invited login's own, every session, every selection token and every code belongs to a login that
  has proved an address or will prove that address with it.
\<close>

section \<open>What a request may add\<close>

definition proven :: "auth_db \<Rightarrow> int \<Rightarrow> bool" where
  "proven db i \<longleftrightarrow> (\<exists>r\<in>set (logins db). li_id r = i \<and> (li_emailVerifiedAt r \<noteq> None \<or> li_mobileVerifiedAt r \<noteq> None))"

definition holds_address :: "auth_db \<Rightarrow> int \<Rightarrow> string \<Rightarrow> bool" where
  "holds_address db i d \<longleftrightarrow> (\<exists>r\<in>set (logins db). li_id r = i \<and> proven_credential r d \<noteq> None)"

definition is_selection :: "jwt_payload \<Rightarrow> bool" where
  "is_selection p \<longleftrightarrow> map_of p ''purpose'' = Some (JStr ''enterprise_selection'')"

definition chooses_for :: "(int \<Rightarrow> bool) \<Rightarrow> jwt_payload \<Rightarrow> bool" where
  "chooses_for K p \<longleftrightarrow> \<not> is_selection p \<or> (\<exists>i. p = selection_payload i \<and> K i)"

definition same_login :: "login_identity \<Rightarrow> login_identity \<Rightarrow> bool" where
  "same_login r r' \<longleftrightarrow> li_id r' = li_id r \<and> li_email r' = li_email r \<and> li_mobile r' = li_mobile r
     \<and> (li_emailVerifiedAt r \<noteq> None \<longrightarrow> li_emailVerifiedAt r' \<noteq> None)
     \<and> (li_mobileVerifiedAt r \<noteq> None \<longrightarrow> li_mobileVerifiedAt r' \<noteq> None)"

definition logins_ok :: "auth_env \<Rightarrow> auth_db \<Rightarrow> bool" where
  "logins_ok env db \<longleftrightarrow> distinct (map li_id (logins db))
     \<and> (\<forall>r\<in>set (logins db). map_option (sqlLower env) (li_email r) = li_email r)"

definition grows :: "auth_env \<Rightarrow> (int \<Rightarrow> bool) \<Rightarrow> (int option \<Rightarrow> string \<Rightarrow> bool) \<Rightarrow> auth_db \<Rightarrow> auth_db \<Rightarrow> bool" where
  "grows env K H db db' \<longleftrightarrow> (\<forall>r\<in>set (logins db). \<exists>r'\<in>set (logins db'). same_login r r')
     \<and> (logins_ok env db \<longrightarrow> logins_ok env db')
     \<and> (\<forall>s'\<in>set (sessions db'). (\<exists>s\<in>set (sessions db). se_identityId s' = se_identityId s) \<or> K (se_identityId s'))
     \<and> (\<forall>p\<in>set (signedPayloads db'). p \<in> set (signedPayloads db) \<or> chooses_for K p)
     \<and> code_from H (challenges db) (challenges db')"

lemma same_login_refl: "same_login r r"
  by (simp add: same_login_def)

lemma same_login_trans: "same_login a b \<Longrightarrow> same_login b c \<Longrightarrow> same_login a c"
  by (auto simp: same_login_def)

lemma code_from_same: "code_from H t t"
  by (auto simp: code_from_def)

lemma code_from_compose: "code_from H t u \<Longrightarrow> code_from H u x \<Longrightarrow> code_from H t x"
  by (fastforce simp: code_from_def)

lemma grows_refl: "grows env K H db db"
  using same_login_refl by (auto simp: grows_def code_from_same)

lemma grows_trans:
  assumes "grows env K H a b" and "grows env K H b c"
  shows "grows env K H a c"
proof -
  have "\<exists>z\<in>set (logins c). same_login x z" if "x \<in> set (logins a)" for x
    using assms that unfolding grows_def by (meson same_login_trans)
  moreover have "(\<exists>s\<in>set (sessions a). se_identityId x = se_identityId s) \<or> K (se_identityId x)" if "x \<in> set (sessions c)" for x
    using assms that unfolding grows_def by metis
  moreover have "code_from H (challenges a) (challenges c)"
    using assms code_from_compose unfolding grows_def by blast
  ultimately show ?thesis using assms unfolding grows_def by blast
qed

lemma grows_same: "logins db' = logins db \<Longrightarrow> sessions db' = sessions db \<Longrightarrow> signedPayloads db' = signedPayloads db \<Longrightarrow>
    challenges db' = challenges db \<Longrightarrow> grows env K H db db'"
  using same_login_refl by (auto simp: grows_def code_from_same logins_ok_def)

lemma grows_login:
  assumes "\<And>r. login_kept now r (f r)"
  shows "grows env K H db (update_login i f db)"
proof -
  have f: "li_id (f r) = li_id r" "li_email (f r) = li_email r" "same_login r (f r)" for r
    using assms [of r] by (auto simp: login_kept_def same_login_def)
  have "\<exists>r'\<in>set (logins (update_login i f db)). same_login r r'" if "r \<in> set (logins db)" for r
  proof -
    have "(if li_id r = i then f r else r) \<in> set (logins (update_login i f db))"
      using that by (auto simp: update_login_def set_update_where)
    moreover have "same_login r (if li_id r = i then f r else r)" using f(3) same_login_refl by simp
    ultimately show ?thesis by blast
  qed
  moreover have "logins_ok env db \<longrightarrow> logins_ok env (update_login i f db)"
    using f(1,2) by (auto simp: logins_ok_def update_login_def map_update_where set_update_where)
  ultimately show ?thesis
    by (auto simp: grows_def update_login_def code_from_same)
qed

lemma growsI:
  assumes "set (logins db) \<subseteq> set (logins db')" and "logins_ok env db \<Longrightarrow> logins_ok env db'"
    and "\<And>s'. s' \<in> set (sessions db') \<Longrightarrow> (\<exists>s\<in>set (sessions db). se_identityId s' = se_identityId s) \<or> K (se_identityId s')"
    and "\<And>p. p \<in> set (signedPayloads db') \<Longrightarrow> p \<in> set (signedPayloads db) \<or> chooses_for K p"
    and "code_from H (challenges db) (challenges db')"
  shows "grows env K H db db'"
  using assms same_login_refl unfolding grows_def by blast

lemma grows_new_login:
  assumes "map_option (sqlLower env) e = e" and "insert_identity env e m h db = Inr (i, db')"
  shows "grows env K H db db'"
  using assms(2)
  by (intro growsI) (auto simp: insert_identity_def Let_def code_from_same logins_ok_def assms(1) split: if_splits)

lemma grows_revoke: "grows env K H db (revoke_where P now db)"
  by (rule growsI) (auto simp: revoke_where_def set_update_where code_from_same logins_ok_def)

lemma grows_session: "K i \<Longrightarrow> insert_session now i h x db = Inr (u, db') \<Longrightarrow> grows env K H db db'"
  by (rule growsI) (auto simp: insert_session_def code_from_same logins_ok_def split: if_splits)

lemma grows_sign: "chooses_for K p \<Longrightarrow> grows env K H db (db\<lparr>signedPayloads := p # signedPayloads db\<rparr>)"
  by (rule growsI) (auto simp: code_from_same logins_ok_def)

lemma grows_codes: "code_from H (challenges db) t \<Longrightarrow> grows env K H db (db\<lparr>challenges := t\<rparr>)"
  by (rule growsI) (auto simp: logins_ok_def)

lemma access_no_choice: "chooses_for K (access_payload c)"
  by (simp add: chooses_for_def is_selection_def access_payload_def)

lemma grows_sweep: "grows env K H db (sweepSessions cutoff n db)"
proof (rule growsI)
  show "(\<exists>s\<in>set (sessions db). se_identityId x = se_identityId s) \<or> K (se_identityId x)"
    if "x \<in> set (sessions (sweepSessions cutoff n db))" for x
    using that unfolding sweepSessions_def by simp (blast dest: subsetD [OF delete_some_subset])
qed (simp_all add: sweepSessions_def code_from_same logins_ok_def)

lemma grows_reach: "grows env K H db (recordAudit a (db\<lparr>signedPayloads := access_payload c # signedPayloads db\<rparr>))"
  by (rule grows_trans [OF grows_sign [OF access_no_choice] grows_same]) (simp_all add: recordAudit_def)

interpretation grow_statement: statement_relation "grows env K H" K "chooses_for K" for env :: auth_env and K H
proof
  show "grows env K H db db'" if "grows env K H db x" "grows env K H x db'" for db x db' using grows_trans [OF that] .
qed (simp_all add: grows_refl grows_session grows_revoke grows_sign grows_same)

interpretation grow: auth_relation "grows env K H" env now "\<lambda>e. map_option (sqlLower env) e = e" K "chooses_for K" H
  for env :: auth_env and now :: int and K H
  by unfold_locales
    (erule (1) grows_new_login | (rule grows_login, blast) | simp add: grows_revoke grows_sign grows_codes grows_same grows_sweep grows_reach
      grow_statement.R_issueSession)+

section \<open>The invariant\<close>

definition grounded :: "auth_env \<Rightarrow> auth_db \<Rightarrow> bool" where
  "grounded env db \<longleftrightarrow> logins_ok env db
     \<and> (\<forall>v\<in>set (v_rows (challenges db)). \<forall>i. v_identityId v = Some i \<longrightarrow> holds_address db i (v_destination v))
     \<and> (\<forall>s\<in>set (sessions db). proven db (se_identityId s))
     \<and> (\<forall>p\<in>set (signedPayloads db). is_selection p \<longrightarrow> (\<exists>i. p = selection_payload i \<and> proven db i))"

lemma proven_grows: "grows env K H db db' \<Longrightarrow> proven db i \<Longrightarrow> proven db' i"
  unfolding grows_def proven_def same_login_def by metis

lemma holds_grows: "grows env K H db db' \<Longrightarrow> holds_address db i d \<Longrightarrow> holds_address db' i d"
  unfolding grows_def holds_address_def proven_credential_def same_login_def by metis

lemma grounded_grows:
  assumes "grounded env db" and "grows env K H db db'" and "\<And>i. K i \<Longrightarrow> proven db' i"
    and "\<And>i d. H (Some i) d \<Longrightarrow> holds_address db' i d"
  shows "grounded env db'"
  unfolding grounded_def
proof (intro conjI ballI allI impI)
  show "logins_ok env db'" using assms(1,2) by (simp add: grounded_def grows_def)
  show "holds_address db' i (v_destination v)" if v: "v \<in> set (v_rows (challenges db'))" "v_identityId v = Some i" for v i
  proof -
    have "(\<exists>u\<in>set (v_rows (challenges db)). v_identityId v = v_identityId u \<and> v_destination v = v_destination u)
        \<or> H (v_identityId v) (v_destination v)"
      using assms(2) v(1) by (simp add: grows_def code_from_def)
    then show ?thesis
      using assms(1,4) v(2) holds_grows [OF assms(2)] unfolding grounded_def by metis
  qed
  show "proven db' (se_identityId s)" if "s \<in> set (sessions db')" for s
    using assms that proven_grows [OF assms(2)] unfolding grounded_def grows_def by metis
  show "\<exists>i. p = selection_payload i \<and> proven db' i" if "p \<in> set (signedPayloads db')" "is_selection p" for p
    using assms that proven_grows [OF assms(2)] unfolding grounded_def grows_def chooses_for_def by metis
qed

abbreviation nobody :: "int \<Rightarrow> bool" where "nobody \<equiv> \<lambda>_. False"
abbreviation nowhere :: "int option \<Rightarrow> string \<Rightarrow> bool" where "nowhere \<equiv> \<lambda>_ _. False"

lemma quiet_grounded: "leads (grows env nobody nowhere) m \<Longrightarrow> grounded env db \<Longrightarrow> grounded env (snd (m db))"
  using grounded_grows [where K = nobody and H = nowhere] by (auto simp: leads_def)

lemma completeLogin_grounded:
  assumes "grounded env db" and "proven db i"
  shows "grounded env (snd (completeLogin env now rnd i db))"
proof -
  have "leads (grows env (\<lambda>j. j = i) nowhere) (completeLogin env now rnd i)"
    by (rule grow.leads_completeLogin) (simp_all add: access_no_choice, simp add: chooses_for_def)
  then have g: "grows env (\<lambda>j. j = i) nowhere db (snd (completeLogin env now rnd i db))" by (simp add: leads_def)
  show ?thesis by (rule grounded_grows [OF assms(1) g]) (use proven_grows [OF g assms(2)] in auto)
qed

lemma after_check:
  assumes "grounded env db" and "grounded env (snd (m db))"
  shows "grounded env (snd (rthen (assertLoginable now r) m db))"
  using assms by (auto simp: rthen_def rbnd_def assertLoginable_def rret_def rthrow_def split: option.split)

lemma loginable_complete:
  assumes "grounded env db" and "proven db i"
  shows "grounded env (snd (rthen (assertLoginable now r) (completeLogin env now rnd i) db))"
  by (rule after_check [OF assms(1)]) (rule completeLogin_grounded [OF assms])

lemma issue_grounded:
  assumes "grounded env db" and "n_identityId inp = Some i" and "holds_address db i (n_destination inp)"
  shows "grounded env (snd (at_challenges (issueVerification s now r inp) db))"
proof -
  let ?H = "\<lambda>j d. j = Some i \<and> d = n_destination inp"
  have "leads (grows env nobody ?H) (at_challenges (issueVerification s now r inp))"
    by (rule grow.leads_at, rule grow.code_from_issue) (simp add: assms(2))
  then have g: "grows env nobody ?H db (snd (at_challenges (issueVerification s now r inp) db))" by (simp add: leads_def)
  show ?thesis by (rule grounded_grows [OF assms(1) g]) (use holds_grows [OF g assms(3)] in auto)
qed

lemma snd_then_ret: "snd (rbnd m (\<lambda>x. rret (f x)) db) = snd (m db)"
  by (auto simp: rbnd_def rret_def split: prod.split sum.split)

lemma found_holds:
  assumes "logins_ok env db" and "identityByCredential env c db = Some r"
  shows "r \<in> set (logins db) \<and> proven_credential r (credential_value c) \<noteq> None"
proof (cases c)
  case (ByEmail v)
  with assms(2) have r: "r \<in> set (logins db)" and "\<exists>e. li_email r = Some e \<and> sqlLower env e = v"
    by (auto dest!: find_Some_iff_mem split: option.splits)
  then show ?thesis using assms(1) ByEmail by (fastforce simp: logins_ok_def proven_credential_def)
next
  case (ByMobile v)
  with assms(2) show ?thesis by (auto simp: proven_credential_def dest!: find_Some_iff_mem)
qed

lemma login_grounded:
  assumes "grounded env db"
  shows "grounded env (snd (login env now rnd req db))"
proof (cases "fst (resolveCredential env req db)")
  case (Inl e)
  then have "login env now rnd req db = (Inl e, db)"
    using resolve_state [of env req db] by (simp add: login_def rbnd_def split_def)
  then show ?thesis using assms by simp
next
  case (Inr c)
  note L = login_found [OF Inr]
  have trail: "grounded env (recordAudit a db)" for a
    using quiet_grounded [OF grow.leads_audit [of env nobody nowhere a] assms] by (simp add: rwrites_def)
  have failed: "grounded env (recordAudit a (recordFailedLogin now i n LOGIN_LOCK_DURATION_MS db))" for a i n
    using quiet_grounded [OF grow_statement.leads_rthen [OF grow.leads_failed [of env nobody nowhere now i n] grow.leads_audit [of env nobody nowhere a]] assms]
    by (simp add: rthen_rwrites) (simp add: rwrites_def)
  show ?thesis
  proof (cases "identityByCredential env c db")
    case None
    then show ?thesis using L trail by simp
  next
    case (Some i)
    have i: "i \<in> set (logins db)" "proven_credential i (credential_value c) \<noteq> None"
      using found_holds [OF _ Some] assms by (auto simp: grounded_def)
    let ?inp = "identity_challenge (li_id i) None FirstLogin c"
    have challenge: "grounded env (snd (rthen (assertLoginable now i)
        (rbnd (at_challenges (issueVerification (secrets env) now (dr_secret rnd) ?inp)) (\<lambda>x. rret (VerificationRequired x))) db))"
    proof -
      have "grounded env (snd (at_challenges (issueVerification (secrets env) now (dr_secret rnd) ?inp) db))"
        by (rule issue_grounded [OF assms]) (use i in \<open>auto simp: identity_challenge_def holds_address_def\<close>)
      then show ?thesis by (intro after_check [OF assms]) (simp only: snd_then_ret)
    qed
    have complete: "grounded env (snd (rthen (assertLoginable now i) (completeLogin env now rnd (li_id i)) db))"
      if "\<not> needsVerification i c"
      by (rule loginable_complete [OF assms]) (use that i(1) in \<open>cases c; auto simp: proven_def\<close>)
    show ?thesis using Some trail failed challenge complete by (auto simp: L)
  qed
qed

lemma submitted_row:
  assumes "verifySubmitted s now r g k t = (Inr subject, t')"
  shows "\<exists>v\<in>set (v_rows t). subject = subject_of v"
proof -
  obtain v where "findLiveByRefId r k t = Some v" "subject = subject_of v"
    using assms by (auto simp: verifySubmitted_def rbnd_Inr rreads_Inr rthrow_Inr rret_Inr split: option.splits if_splits)
  then show ?thesis unfolding findLiveByRefId_def by (metis find_Some_iff_mem)
qed

lemma by_destination_row:
  "verifyByDestination s now d g k t = (Inr subject, t') \<Longrightarrow> \<exists>v\<in>set (v_rows t). subject = subject_of v"
  by (auto simp: verifyByDestination_def rbnd_rreads rthrow_def dest: submitted_row split: option.splits)

lemma subject_holds:
  assumes "grounded env db" and "v \<in> set (v_rows (challenges db))" and "vs_identityId (subject_of v) = Some i"
  shows "holds_address db i (vs_destination (subject_of v))"
  using assms by (simp add: grounded_def subject_of_def)

lemma the_login:
  assumes "grounded env db" and "identityById i db = Some r" and "holds_address db i d"
  shows "r \<in> set (logins db) \<and> li_id r = i \<and> proven_credential r d \<noteq> None"
proof -
  have r: "r \<in> set (logins db)" "li_id r = i" using assms(2) by (auto simp: identityById_def dest: find_Some_iff_mem)
  moreover obtain x where x: "x \<in> set (logins db)" "li_id x = i" "proven_credential x d \<noteq> None"
    using assms(3) by (auto simp: holds_address_def)
  moreover have "x = r"
    using distinct_map_eq [of li_id "logins db" x r] assms(1) r x by (auto simp: grounded_def logins_ok_def)
  ultimately show ?thesis by simp
qed

lemma marked_proven:
  assumes "r \<in> set (logins db)" and "li_id r = i"
  shows "proven (markCredentialVerified now i email db) i"
proof -
  let ?f = "if email then verify_email now else verify_mobile now"
  have "?f r \<in> set (logins (markCredentialVerified now i email db))"
    using assms by (auto simp: markCredentialVerified_def update_login_def set_update_where)
  moreover have "li_id (?f r) = i \<and> (li_emailVerifiedAt (?f r) \<noteq> None \<or> li_mobileVerifiedAt (?f r) \<noteq> None)"
    using assms(2) by (simp add: verify_email_def verify_mobile_def)
  ultimately show ?thesis unfolding proven_def by blast
qed

lemma recordAudit_proven [simp]: "proven (recordAudit a db) i = proven db i"
  by (simp add: proven_def recordAudit_def)

lemma completeVerifiedLogin_grounded:
  assumes "grounded env db" and "holds_address db i d"
  shows "grounded env (snd (completeVerifiedLogin env now rnd i d db))"
proof (cases "identityById i db")
  case None
  then show ?thesis using assms by (simp add: completeVerifiedLogin_def rbnd_rreads rthrow_def)
next
  case (Some r)
  note r = the_login [OF assms(1) Some assms(2)]
  then obtain email where email: "proven_credential r d = Some email" by blast
  let ?mark = "recordAudit (CredentialVerified i email) (markCredentialVerified now i email db)"
  have "leads (grows env nobody nowhere) (rthen (rwrites (markCredentialVerified now i email)) (rwrites (recordAudit (CredentialVerified i email))))"
    by (auto intro!: grow_statement.leads_rules grow.leads_audit simp: grow.R_mark)
  from quiet_grounded [OF this assms(1)] have mark: "grounded env ?mark" by (simp add: rthen_rwrites) (simp add: rwrites_def)
  have "proven ?mark i" using marked_proven [of r db i] r by simp
  then have "grounded env (snd (completeLogin env now rnd i ?mark))" using completeLogin_grounded mark by blast
  then have "grounded env (snd (rthen (rthen (rwrites (markCredentialVerified now i email)) (rwrites (recordAudit (CredentialVerified i email))))
      (completeLogin env now rnd i) db))"
    by (simp add: req_defs)
  then have "grounded env (snd (rthen (assertLoginable now r) (rthen (rthen (rwrites (markCredentialVerified now i email))
      (rwrites (recordAudit (CredentialVerified i email)))) (completeLogin env now rnd i)) db))"
    by (rule after_check [OF assms(1)])
  then show ?thesis using Some r email by (simp add: completeVerifiedLogin_def rbnd_rreads)
qed

lemma submit_grounded:
  assumes "grounded env db"
  shows "grounded env (snd (verifyEndpoint env now rnd refId code db))"
proof -
  let ?m = "at_challenges (verifySubmitted (secrets env) now refId code FirstLogin)"
  have "leads (grows env nobody nowhere) ?m" by (rule grow.leads_at) (rule grow.code_from_submit)
  from quiet_grounded [OF this assms] have g: "grounded env (snd (?m db))" .
  show ?thesis
  proof (cases "?m db")
    case (Pair res db1)
    show ?thesis
    proof (cases res)
      case (Inr subject)
      obtain t where "verifySubmitted (secrets env) now refId code FirstLogin (challenges db) = (Inr subject, t)" and db1: "db1 = db\<lparr>challenges := t\<rparr>"
        using Pair Inr by (auto simp: at_challenges_def zoom_Inr)
      from submitted_row [OF this(1)] obtain v where v: "v \<in> set (v_rows (challenges db))" "subject = subject_of v" by blast
      have "holds_address db1 i (vs_destination subject)" if "vs_identityId subject = Some i" for i
        using subject_holds [OF assms v(1)] that v(2) by (simp add: holds_address_def db1)
      then show ?thesis
        using Pair Inr g completeVerifiedLogin_grounded
        by (auto simp: verifyEndpoint_def rbnd_def rthrow_def split: option.split)
    qed (use g Pair in \<open>simp add: verifyEndpoint_def rbnd_def\<close>)
  qed
qed

text \<open>Accepting an invitation: the address the code went to is marked in the same transaction.\<close>

lemma acceptance_grounded:
  assumes "grounded env db" and "identityById i db = Some r" and "holds_address db i d"
    and "acceptance now r enterprise d h db = Inr ((), db')"
  shows "grounded env db' \<and> proven db' i"
proof -
  note r = the_login [OF assms(1,2,3)]
  then obtain email where email: "proven_credential r d = Some email" by blast
  have "steps (grows env nobody nowhere) (acceptance now r enterprise d h)" by (rule grow.steps_acceptance)
  then have g: "grows env nobody nowhere db db'" using assms(4) by (simp add: steps_def)
  let ?db1 = "updatePasswordHash i h db"
  let ?rest = "(andThen (case enterprise of
         Some e \<Rightarrow> bnd (reads (employmentByIdentity e i)) (\<lambda>m. case m of
             None \<Rightarrow> ret ()
           | Some m \<Rightarrow> if ey_status m = Invited then modifies (activateEmployment (ey_id m) e) else ret ())
       | None \<Rightarrow> bnd (reads (staffAnyByIdentity i)) (\<lambda>s. case s of
             None \<Rightarrow> ret ()
           | Some s \<Rightarrow> if sf_status s = Invited then modifies (activateStaff (sf_id s)) else ret ()))
     (bnd (reads (\<lambda>db. fst (revokeAllForIdentity now i db))) (\<lambda>revoked.
      andThen (modifies (\<lambda>db. snd (revokeAllForIdentity now i db)))
       (modifies (recordAudit (InvitationAccepted i enterprise revoked))))) :: (auth_error, auth_db, unit) act)"
  have rest: "?rest (markCredentialVerified now i email ?db1) = Inr ((), db')"
    using assms(4) email unfolding acceptance_def conjunct1 [OF conjunct2 [OF r]]
    by (simp add: andThen_def bnd_def modifies_def)
  have "steps (grows env nobody nowhere) ?rest"
    unfolding activateEmployment_def activateStaff_def recordAudit_def
    by (auto intro!: grow_statement.steps_rules grow.R_employments grow.R_staff grow.R_audit grow.R_revoke_all staff_stays_activate split: option.split)
  with rest have after: "grows env nobody nowhere (markCredentialVerified now i email ?db1) db'" by (simp add: steps_def)
  have "grows env nobody nowhere db ?db1" by (rule grow.R_password)
  then obtain x where "x \<in> set (logins ?db1)" "li_id x = i"
    using r by (auto simp: grows_def same_login_def)
  then have "proven db' i" using proven_grows [OF after] marked_proven by blast
  moreover have "grounded env db'" using grounded_grows [OF assms(1) g] by simp
  ultimately show ?thesis by simp
qed

lemma completeInvite_grounded:
  assumes "grounded env db" and "holds_address db i d"
  shows "grounded env (snd (completeInvite env now rnd i enterprise d pw db))"
proof (cases "identityById i db")
  case None
  then show ?thesis using assms(1) by (simp add: completeInvite_def rbnd_rreads rthrow_def)
next
  case (Some r)
  obtain db1 where run: "acceptance now r enterprise d (hashPassword env (dr_salt rnd) pw) db = Inr ((), db1)"
    using acceptance_password [OF Some] .
  from acceptance_grounded [OF assms(1) Some assms(2) run] have g: "grounded env db1" "proven db1 i" by auto
  have "li_id x = i" if "identityById i db1 = Some x" for x
    using that by (auto simp: identityById_def dest: find_Some_iff_mem)
  then show ?thesis
    using Some run g loginable_complete [OF g]
    by (auto simp: completeInvite_def rbnd_rreads rthen_def [of "inTransaction m" for m] rbnd_def [of "inTransaction m" for m]
        rthrow_def split: option.split)
qed

lemma acceptInvite_grounded:
  assumes "grounded env db"
  shows "grounded env (snd (acceptInviteEndpoint env now rnd email mobile code pw db))"
proof -
  have main: "grounded env (snd (rbnd (at_challenges (verifyByDestination (secrets env) now destination code EmployeeInvite))
      (\<lambda>subject. case vs_identityId subject of None \<Rightarrow> rthrow VerificationNotFound
        | Some i \<Rightarrow> completeInvite env now rnd i (vs_enterpriseId subject) (vs_destination subject) pw) db))" for destination
  proof -
    let ?m = "at_challenges (verifyByDestination (secrets env) now destination code EmployeeInvite)"
    have "leads (grows env nobody nowhere) ?m" by (rule grow.leads_at) (rule grow.code_from_by_destination)
    from quiet_grounded [OF this assms] have g: "grounded env (snd (?m db))" .
    show ?thesis
    proof (cases "?m db")
      case (Pair res db1)
      show ?thesis
      proof (cases res)
        case (Inr subject)
        obtain t where "verifyByDestination (secrets env) now destination code EmployeeInvite (challenges db) = (Inr subject, t)"
          and db1: "db1 = db\<lparr>challenges := t\<rparr>"
          using Pair Inr by (auto simp: at_challenges_def zoom_Inr)
        from by_destination_row [OF this(1)] obtain v where v: "v \<in> set (v_rows (challenges db))" "subject = subject_of v" by blast
        have "holds_address db1 i (vs_destination subject)" if "vs_identityId subject = Some i" for i
          using subject_holds [OF assms v(1)] that v(2) by (simp add: holds_address_def db1)
        then show ?thesis
          using Pair Inr g completeInvite_grounded by (auto simp: rbnd_def rthrow_def split: option.split)
      qed (use g Pair in \<open>simp add: rbnd_def\<close>)
    qed
  qed
  show ?thesis using main assms by (auto simp: acceptInviteEndpoint_def rthrow_def split: option.split)
qed

lemma select_grounded:
  assumes "grounded env db" and "unforged env now (Select token e) db"
  shows "grounded env (snd (selectEnterprise env now rnd token e db))"
proof (cases "\<exists>i. verifySelectionToken env now token = Inr (Some i)")
  case False
  then show ?thesis
    using assms(1) by (auto simp: selectEnterprise_def rbnd_rreads rthrow_def split: sum.split option.split)
next
  case True
  then obtain i where i: "verifySelectionToken env now token = Inr (Some i)" by blast
  then obtain p where p: "verifyJwt env now token = Inr p" "is_selection p" "map_of p ''identityId'' = Some (JNum i)"
    by (auto simp: verifySelectionToken_def is_selection_def split: sum.splits jwt_failure.splits if_splits option.splits json.splits)
  then have "p \<in> set (signedPayloads db)" using assms(2) by (simp add: unforged_def)
  with assms(1) p(2) obtain j where "p = selection_payload j" "proven db j" by (auto simp: grounded_def)
  with p(3) have proven: "proven db i" by (simp add: selection_payload_def)
  have "leads (grows env (\<lambda>j. j = i) nowhere) (issueSession env now rnd i m staff)" for m staff
    by (rule grow.leads_issueSession) (simp_all add: access_no_choice)
  then have g: "grows env (\<lambda>j. j = i) nowhere db (snd (issueSession env now rnd i m staff db))" for m staff
    by (simp add: leads_def)
  have session: "grounded env (snd (issueSession env now rnd i m staff db))" for m staff
    by (rule grounded_grows [OF assms(1) g]) (use proven_grows [OF g proven] in auto)
  have id: "li_id x = i" if "identityById i db = Some x" for x
    using that by (auto simp: identityById_def dest: find_Some_iff_mem)
  have "grounded env (snd (rthen (assertLoginable now x) m db))" if "grounded env (snd (m db))" for x and m :: "login_outcome auth_req"
    by (rule after_check [OF assms(1)]) (rule that)
  then show ?thesis
    using i id session assms(1)
    by (auto simp: selectEnterprise_def rbnd_rreads rthrow_def split: option.split)
qed

section \<open>New logins\<close>

text \<open>A transaction that makes or finds the login \<open>i\<close> an invitation is for, then its code.\<close>

lemma invited_grounded:
  assumes "grounded env db" and "steps (grows env nobody nowhere) m"
    and "\<And>x i db'. m db = Inr (x, db') \<Longrightarrow> holds_address db' (who x) (n_destination (inp x)) \<and> n_identityId (inp x) = Some (who x)"
  shows "grounded env (snd (rbnd (inTransaction m) (\<lambda>x. at_challenges (issueVerification s now r (inp x))) db))"
proof (cases "m db")
  case (Inl e)
  then show ?thesis using assms(1) by (simp add: rbnd_def)
next
  case (Inr y)
  obtain x db' where y: "y = (x, db')" by (cases y)
  have "grows env nobody nowhere db db'" using assms(2) Inr y by (simp add: steps_def)
  then have g: "grounded env db'" using grounded_grows [OF assms(1)] by blast
  show ?thesis using Inr y issue_grounded [OF g] assms(3) by (simp add: rbnd_def)
qed

lemma new_login_holds:
  assumes "insert_identity env email mobile h db = Inr (i, db')" and "first_address email mobile = Some c"
  shows "holds_address db' i (credential_value c)"
  using assms
  by (auto simp: insert_identity_def Let_def holds_address_def first_address_def proven_credential_def split: if_splits option.splits)

lemma rbnd_ret_assoc: "rbnd m (\<lambda>x. rbnd (f x) (\<lambda>y. rret (g y))) db = rbnd (rbnd m f) (\<lambda>y. rret (g y)) db"
  by (auto simp: rbnd_def rret_def split: prod.split sum.split)

definition careful :: "auth_env \<Rightarrow> auth_request \<Rightarrow> auth_db \<Rightarrow> bool" where
  "careful env req db \<longleftrightarrow> (case req of
     Invite enterprise email mobile \<Rightarrow>
       (let e = given (map_option (normalizedEmail env) email); m = Option.bind mobile (canonicalMobile env)
        in case (existing_login env e m db, first_address e m) of
          (Some x, Some c) \<Rightarrow> proven_credential x (credential_value c) \<noteq> None | _ \<Rightarrow> True)
   | _ \<Rightarrow> True)"

lemma existing_mem: "existing_login env e m db = Some x \<Longrightarrow> x \<in> set (logins db)"
  by (auto simp: existing_login_def bind_eq_Some_conv split: option.splits dest: find_Some_iff_mem)

lemma invite_grounded:
  assumes "grounded env db" and "careful env (Invite enterprise email mobile) db"
    and "\<And>x. sqlLower env (normalizedEmail env x) = normalizedEmail env x"
  shows "grounded env (snd (inviteColleague env now rnd enterprise email mobile db))"
proof -
  let ?e = "given (map_option (normalizedEmail env) email)" and ?m = "Option.bind mobile (canonicalMobile env)"
  have lower: "map_option (sqlLower env) ?e = ?e" using assms(3) by (cases email) (auto simp: given_def assms)
  have main: "grounded env (snd (rbnd (inTransaction (create_invited env rnd enterprise ?e ?m))
      (\<lambda>i. at_challenges (issueVerification (secrets env) now (dr_secret rnd)
        (identity_challenge i (Some enterprise) EmployeeInvite c))) db))"
    if c: "first_address ?e ?m = Some c" for c
  proof (rule invited_grounded [OF assms(1), where who = "\<lambda>i. i"])
    show "steps (grows env nobody nowhere) (create_invited env rnd enterprise ?e ?m)" by (rule grow.steps_invited [OF lower])
    fix i db' assume run: "create_invited env rnd enterprise ?e ?m db = Inr (i, db')"
    have "holds_address db' i (credential_value c)"
    proof (cases "existing_login env ?e ?m db")
      case None
      with run obtain db1 where "insert_identity env ?e ?m (hashPassword env (dr_salt rnd) (dr_refresh rnd)) db = Inr (i, db1)"
        "logins db' = logins db1"
        by (auto simp: create_invited_def act_simps throw_def insert_employment_def split: if_splits)
      then show ?thesis using new_login_holds [OF _ c] by (simp add: holds_address_def)
    next
      case (Some x)
      with run have "i = li_id x" "logins db' = logins db"
        by (auto simp: create_invited_def act_simps throw_def insert_employment_def split: if_splits)
      with Some c assms(2) existing_mem [OF Some] show ?thesis
        by (auto simp: careful_def holds_address_def Let_def)
    qed
    then show "holds_address db' i (n_destination (identity_challenge i (Some enterprise) EmployeeInvite c))
        \<and> n_identityId (identity_challenge i (Some enterprise) EmployeeInvite c) = Some i"
      by (simp add: identity_challenge_def)
  qed
  show ?thesis
    using main assms(1)
    by (auto simp: inviteColleague_def Let_def rthrow_def rbnd_ret_assoc snd_then_ret split: option.split)
qed

lemma inviteStaff_grounded:
  assumes "grounded env db" and "\<And>x. sqlLower env (normalizedEmail env x) = normalizedEmail env x"
  shows "grounded env (snd (inviteStaff env now rnd email mobile db))"
proof -
  let ?e = "given (map_option (normalizedEmail env) email)" and ?m = "Option.bind mobile (canonicalMobile env)"
  have lower: "map_option (sqlLower env) ?e = ?e" using assms(2) by (cases email) (auto simp: given_def assms)
  have main: "grounded env (snd (rbnd (inTransaction (create_staff env rnd ?e ?m))
      (\<lambda>i. at_challenges (issueVerification (secrets env) now (dr_secret rnd) (identity_challenge i None EmployeeInvite c))) db))"
    if c: "first_address ?e ?m = Some c" for c
  proof (rule invited_grounded [OF assms(1), where who = "\<lambda>i. i"])
    show "steps (grows env nobody nowhere) (create_staff env rnd ?e ?m)" by (rule grow.steps_staff [OF lower])
    fix i db' assume run: "create_staff env rnd ?e ?m db = Inr (i, db')"
    then obtain db1 where "insert_identity env ?e ?m (hashPassword env (dr_salt rnd) (dr_refresh rnd)) db = Inr (i, db1)"
      "logins db' = logins db1"
      by (auto simp: create_staff_def act_simps throw_def split: if_splits)
    then show "holds_address db' i (n_destination (identity_challenge i None EmployeeInvite c))
        \<and> n_identityId (identity_challenge i None EmployeeInvite c) = Some i"
      using new_login_holds [OF _ c] by (simp add: identity_challenge_def holds_address_def)
  qed
  show ?thesis
    using main assms(1) by (auto simp: inviteStaff_def Let_def rthrow_def rbnd_ret_assoc snd_then_ret split: option.split)
qed

lemma signup_grounded:
  assumes "grounded env db" and "\<And>x. sqlLower env (normalizedEmail env x) = normalizedEmail env x"
  shows "grounded env (snd (signup env now rnd name email mobile password db))"
proof -
  let ?e = "map_option (normalizedEmail env) email" and ?m = "Option.bind mobile (canonicalMobile env)"
  have lower: "map_option (sqlLower env) ?e = ?e" using assms(2) by (cases email) auto
  have main: "grounded env (snd (rbnd (inTransaction (create_owner env rnd name ?e ?m password))
      (\<lambda>x. at_challenges (issueVerification (secrets env) now (dr_secret rnd) (identity_challenge (snd x) (Some (fst x)) FirstLogin c))) db))"
    if c: "first_address ?e ?m = Some c" for c
  proof (rule invited_grounded [OF assms(1), where who = snd])
    show "steps (grows env nobody nowhere) (create_owner env rnd name ?e ?m password)" by (rule grow.steps_owner [OF lower])
    fix x db' assume run: "create_owner env rnd name ?e ?m password db = Inr (x, db')"
    then obtain db0 db1 where "insert_identity env ?e ?m (hashPassword env (dr_salt rnd) password) db0 = Inr (snd x, db1)"
      "logins db' = logins db1"
      by (auto simp: create_owner_def act_simps insert_employment_def)
    then show "holds_address db' (snd x) (n_destination (identity_challenge (snd x) (Some (fst x)) FirstLogin c))
        \<and> n_identityId (identity_challenge (snd x) (Some (fst x)) FirstLogin c) = Some (snd x)"
      using new_login_holds [OF _ c] by (simp add: identity_challenge_def holds_address_def)
  qed
  show ?thesis
    using main assms(1) by (auto simp: signup_def Let_def rthrow_def split_def split: option.split)
qed

section \<open>Runs\<close>

lemma resend_grounded:
  assumes "grounded env db"
  shows "grounded env (snd (resendEndpoint env now rnd email mobile kind db))"
proof -
  have "leads (grows env nobody nowhere) (resendEndpoint env now rnd email mobile kind)"
    unfolding resendEndpoint_def
    by (auto intro!: grow_statement.leads_rules grow.leads_at grow.code_from_resend split: option.split)
  then show ?thesis using quiet_grounded assms by blast
qed

lemma perform_grounded:
  assumes "grounded env db" and "unforged env now req db" and "careful env req db"
    and "\<And>x. sqlLower env (normalizedEmail env x) = normalizedEmail env x"
  shows "grounded env (perform env now rnd req db)"
proof (cases req)
  case (Select token e)
  then show ?thesis using select_grounded assms(1,2) by simp
next
  case (Invite e m n)
  then show ?thesis using invite_grounded assms(1,3,4) by simp
next
  case (SweepCodes cutoff n)
  have "code_from nowhere (challenges db) (sweepVerifications cutoff n (challenges db))"
    unfolding sweepVerifications_def code_from_def by simp (blast dest: subsetD [OF delete_some_subset])
  then have "grows env nobody nowhere db (perform env now rnd req db)" using SweepCodes by (simp add: grows_codes)
  then show ?thesis using grounded_grows [OF assms(1)] by blast
next
  case (SweepSessions cutoff n)
  then show ?thesis using grounded_grows [OF assms(1) grows_sweep [where K = nobody and H = nowhere]] by simp
next
  case (ChangeStaff a i st)
  have "leads (grows env nobody nowhere) (setStaffStatus now a i st)"
    unfolding setStaffStatus_def write_staff_status_def
    by (auto intro!: grow_statement.leads_rules grow_statement.steps_rules grows_same grow.R_revoke_all split: option.split prod.split)
  then show ?thesis using quiet_grounded [OF _ assms(1)] ChangeStaff by simp
next
  case (Switch i e)
  then show ?thesis using quiet_grounded [OF grow.leads_switch assms(1)] by (simp add: access_no_choice)
next
  case (Refresh token e)
  then show ?thesis using quiet_grounded [OF grow.leads_refresh assms(1)] by (simp add: access_no_choice)
qed (use assms quiet_grounded [OF grow.leads_logout] quiet_grounded [OF grow.leads_signOut] quiet_grounded [OF grow.leads_change] quiet_grounded [OF grow.leads_business]
    in \<open>simp_all add: login_grounded submit_grounded acceptInvite_grounded resend_grounded inviteStaff_grounded signup_grounded\<close>)

lemma grounded_steps:
  assumes "\<And>x. sqlLower env (normalizedEmail env x) = normalizedEmail env x"
  shows "auth_steps env (careful env) s s' \<Longrightarrow> grounded env (snd s) \<Longrightarrow> grounded env (snd s')"
  by (induction rule: auth_steps.induct) (simp_all add: perform_grounded assms)

lemma fresh_grounded: "fresh_auth env db \<Longrightarrow> grounded env db"
  by (simp add: fresh_auth_def grounded_def logins_ok_def list_all_iff)

text \<open>
  C5: Nobody is signed in without proof: if every invitation goes to an address of the login it is
  for, then in every run each session belongs to a login with a verified address, and each code to
  a login whose address it was sent to.
\<close>
theorem sessions_are_proven:
  assumes "\<And>x. sqlLower env (normalizedEmail env x) = normalizedEmail env x"
    and "auth_reachable env (careful env) t db"
  shows "(\<forall>s\<in>set (sessions db). \<exists>r\<in>set (logins db). li_id r = se_identityId s
       \<and> (li_emailVerifiedAt r \<noteq> None \<or> li_mobileVerifiedAt r \<noteq> None))
    \<and> (\<forall>v\<in>set (v_rows (challenges db)). \<forall>i. v_identityId v = Some i \<longrightarrow>
        (\<exists>r\<in>set (logins db). li_id r = i \<and> (li_email r = Some (v_destination v) \<or> li_mobile r = Some (v_destination v))))"
proof -
  have "grounded env db"
    using assms(2) grounded_steps [OF assms(1)] fresh_grounded unfolding auth_reachable_def by fastforce
  then have "proven db (se_identityId s)" if "s \<in> set (sessions db)" for s using that by (simp add: grounded_def)
  moreover have "holds_address db i (v_destination v)" if "v \<in> set (v_rows (challenges db))" "v_identityId v = Some i" for v i
    using \<open>grounded env db\<close> that by (simp add: grounded_def)
  ultimately show ?thesis
    unfolding proven_def holds_address_def proven_credential_def by (metis option.distinct(1))
qed

text \<open>Signing up with a number, and submitting the code it is sent.\<close>

definition demo_new :: auth_db where
  "demo_new = perform demo_auth 5 (demo_draws ''r2'') (SubmitCode 1 ''314159'')
     (perform demo_auth 0 (demo_draws ''r1'') (Signup ''Shop'' None (Some ''+914'') ''pw'') demo_start)"

lemma sessions_are_proven_witness:
  "map se_identityId (sessions demo_new) = [8] \<and> li_mobileVerifiedAt (the (identityById 8 demo_new)) = Some 5
   \<and> (\<exists>r\<in>set (logins demo_new). li_id r = se_identityId (hd (sessions demo_new))
       \<and> (li_emailVerifiedAt r \<noteq> None \<or> li_mobileVerifiedAt r \<noteq> None))"
proof (intro conjI)
  show "map se_identityId (sessions demo_new) = [8]" by code_simp
  show "li_mobileVerifiedAt (the (identityById 8 demo_new)) = Some 5" by code_simp
  let ?db = "perform demo_auth 0 (demo_draws ''r1'') (Signup ''Shop'' None (Some ''+914'') ''pw'') demo_start"
  have one: "auth_steps demo_auth (careful demo_auth) (0, demo_start) (0, ?db)"
    by (rule auth_request [OF auth_stay]) (simp_all add: unforged_def careful_def)
  have "auth_steps demo_auth (careful demo_auth) (0, demo_start) (5, demo_new)"
    unfolding demo_new_def by (rule auth_request [OF auth_tick [OF one]]) (simp_all add: unforged_def careful_def)
  then have "auth_reachable demo_auth (careful demo_auth) 5 demo_new" unfolding auth_reachable_def using demo_fresh by blast
  moreover have "sqlLower demo_auth (normalizedEmail demo_auth x) = normalizedEmail demo_auth x" for x
    by (simp add: demo_auth_def)
  moreover have "hd (sessions demo_new) \<in> set (sessions demo_new)" by code_simp
  ultimately show "\<exists>r\<in>set (logins demo_new). li_id r = se_identityId (hd (sessions demo_new))
       \<and> (li_emailVerifiedAt r \<noteq> None \<or> li_mobileVerifiedAt r \<noteq> None)"
    using sessions_are_proven by blast
qed

end
