(* ===== verification/Sync_Jobs.thy ===== *)
theory Sync_Jobs
  imports Outbox_Relay
begin

text \<open>
  The queue of backfills and refreshes: the table \<open>sync_jobs\<close>
  (\<open>database/repositories/sync-job.repository.ts\<close>), the worker that empties it
  (\<open>workers/backfill.worker.ts\<close>), the scheduler that fills it
  (\<open>workers/refresh-scheduler.worker.ts\<close>) and the reaper's part on it.

  A job is due when its status is claimable; it occupies the one slot of its channel, kind and
  target when its status is live. The two lists differ in \<open>failed\<close>, which is claimable and not
  live. The index \<open>sync_jobs_live_uniq\<close> is \<open>live_uniq\<close>, and a statement that would break it
  throws \<open>SyncAlreadyRunning\<close> and changes nothing.

  What a worker reads from the platform, and what the rest of the system does to the table
  meanwhile, is the record \<open>sync_env\<close>.
\<close>

section \<open>The table\<close>

datatype SyncJobKind =
  BackfillPosts | BackfillComments | BackfillConversations | BackfillMentions | ResyncConversation | RefreshProfile
  | RefreshPostMetrics

datatype SyncTriggerKind = InitialConnect | Scheduled | Manual | Reconnect

datatype SyncJobStatus =
  JobPending | JobRunning | JobPaused | JobRateLimited | JobCompleted | JobFailed | JobDeadLetter | JobCancelled

definition CLAIMABLE_SYNC_JOB_STATUSES :: "SyncJobStatus list" where
  "CLAIMABLE_SYNC_JOB_STATUSES = [JobPending, JobFailed, JobRateLimited]"

definition LIVE_SYNC_JOB_STATUSES :: "SyncJobStatus list" where
  "LIVE_SYNC_JOB_STATUSES = [JobPending, JobRunning, JobPaused, JobRateLimited]"

record sync_job =
  j_id :: int
  j_enterprise :: int
  j_channel :: int
  j_kind :: SyncJobKind
  j_trigger :: SyncTriggerKind
  j_status :: SyncJobStatus
  j_target :: "string option"
  j_cursor :: "string option"
  j_items :: int
  j_attempts :: int
  j_next_attempt :: "int option"
  j_rate_limited_until :: "int option"
  j_lease_owner :: "string option"
  j_lease_expires :: "int option"
  j_started :: "int option"
  j_completed :: "int option"
  j_dead_lettered :: "int option"
  j_last_error :: "string option"
  j_created :: int
  j_deleted :: bool

datatype sync_error = SyncAlreadyRunning

record EnqueueSyncInput =
  es_enterprise :: int
  es_channel :: int
  es_kind :: SyncJobKind
  es_trigger :: SyncTriggerKind
  es_target :: "string option"

definition slot_of :: "int \<Rightarrow> SyncJobKind \<Rightarrow> string option \<Rightarrow> int \<times> SyncJobKind \<times> string" where
  "slot_of channel kind target = (channel, kind, (case target of None \<Rightarrow> [] | Some t \<Rightarrow> t))"

definition job_slot :: "sync_job \<Rightarrow> int \<times> SyncJobKind \<times> string" where
  "job_slot j = slot_of (j_channel j) (j_kind j) (j_target j)"

definition occupies :: "sync_job \<Rightarrow> bool" where
  "occupies j \<longleftrightarrow> \<not> j_deleted j \<and> j_status j \<in> set LIVE_SYNC_JOB_STATUSES"

definition live_uniq :: "sync_job list \<Rightarrow> bool" where
  "live_uniq js \<longleftrightarrow> distinct (map job_slot (filter occupies js))"

text \<open>\<open>COALESCE(next_attempt_at, rate_limited_until, created_at)\<close>.\<close>

definition job_due_at :: "sync_job \<Rightarrow> int" where
  "job_due_at j = (case j_next_attempt j of Some t \<Rightarrow> t
     | None \<Rightarrow> (case j_rate_limited_until j of Some t \<Rightarrow> t | None \<Rightarrow> j_created j))"

definition claimable :: "sync_job \<Rightarrow> bool" where
  "claimable j \<longleftrightarrow> \<not> j_deleted j \<and> j_status j \<in> set CLAIMABLE_SYNC_JOB_STATUSES"

definition job_due :: "int \<Rightarrow> sync_job \<Rightarrow> bool" where
  "job_due now j \<longleftrightarrow> claimable j \<and> job_due_at j \<le> now"

definition job_order :: "sync_job \<Rightarrow> int \<times> int" where
  "job_order j = (job_due_at j, j_id j)"

definition grab_job :: "string \<Rightarrow> int \<Rightarrow> int \<Rightarrow> sync_job \<Rightarrow> sync_job" where
  "grab_job owner now expires j =
     j\<lparr>j_status := JobRunning, j_lease_owner := Some owner, j_lease_expires := Some expires,
       j_attempts := j_attempts j + 1,
       j_started := (case j_started j of None \<Rightarrow> Some now | Some t \<Rightarrow> Some t)\<rparr>"

section \<open>The repository\<close>

text \<open>\<open>fid\<close> and \<open>left\<close>: the next value of the primary key, and the first characters of a text.\<close>

definition fresh_job :: "int \<Rightarrow> int \<Rightarrow> EnqueueSyncInput \<Rightarrow> sync_job" where
  "fresh_job fid now inp =
     \<lparr> j_id = fid, j_enterprise = es_enterprise inp, j_channel = es_channel inp, j_kind = es_kind inp,
       j_trigger = es_trigger inp, j_status = JobPending, j_target = es_target inp, j_cursor = None, j_items = 0,
       j_attempts = 0, j_next_attempt = Some now, j_rate_limited_until = None, j_lease_owner = None,
       j_lease_expires = None, j_started = None, j_completed = None, j_dead_lettered = None, j_last_error = None,
       j_created = now, j_deleted = False \<rparr>"

definition revive_job :: "int \<Rightarrow> EnqueueSyncInput \<Rightarrow> sync_job \<Rightarrow> sync_job" where
  "revive_job now inp j =
     j\<lparr>j_status := JobPending, j_trigger := es_trigger inp, j_next_attempt := Some now, j_attempts := 0,
       j_last_error := None\<rparr>"

definition enqueueIfAbsent :: "int \<Rightarrow> EnqueueSyncInput \<Rightarrow> sync_job list \<Rightarrow> bool \<times> sync_job list" where
  "enqueueIfAbsent now inp js =
     (case find (\<lambda>j. occupies j \<and> job_slot j = slot_of (es_channel inp) (es_kind inp) (es_target inp)) js of
        None \<Rightarrow> (True, js @ [fresh_job (fresh_id (map j_id js)) now inp])
      | Some j \<Rightarrow>
          if j_status j = JobPaused
          then (True, update_where (\<lambda>k. j_id k = j_id j) (revive_job now inp) js)
          else (False, js))"

definition claimSyncBatch :: "string \<Rightarrow> nat \<Rightarrow> int \<Rightarrow> int \<Rightarrow> (sync_error, sync_job list, sync_job list) act" where
  "claimSyncBatch owner limit leaseSeconds now js =
     (let grab = grab_job owner now (now + leaseSeconds * 1000);
          after = claim_rows j_id (job_due now) job_order limit grab js
      in if live_uniq after then Inr (claimed_rows j_id (job_due now) job_order limit grab js, after)
         else Inl SyncAlreadyRunning)"

definition held_by :: "int \<Rightarrow> string \<Rightarrow> sync_job \<Rightarrow> bool" where
  "held_by i owner j \<longleftrightarrow> j_id j = i \<and> j_lease_owner j = Some owner"

definition extendJobLease :: "int \<Rightarrow> string \<Rightarrow> int \<Rightarrow> int \<Rightarrow> sync_job list \<Rightarrow> bool \<times> sync_job list" where
  "extendJobLease i owner leaseSeconds now js =
     (let hit = (\<lambda>j. held_by i owner j \<and> \<not> j_deleted j \<and> j_status j = JobRunning)
      in (list_ex hit js, update_where hit (\<lambda>j. j\<lparr>j_lease_expires := Some (now + leaseSeconds * 1000)\<rparr>) js))"

definition saveProgress ::
    "int \<Rightarrow> string \<Rightarrow> string option \<Rightarrow> int \<Rightarrow> int \<Rightarrow> int \<Rightarrow> sync_job list \<Rightarrow> bool \<times> sync_job list" where
  "saveProgress i owner cursor added leaseSeconds now js =
     (let hit = (\<lambda>j. held_by i owner j \<and> j_status j = JobRunning)
      in (list_ex hit js,
          update_where hit (\<lambda>j. j\<lparr>j_cursor := cursor, j_items := j_items j + added, j_attempts := 0,
            j_lease_expires := Some (now + leaseSeconds * 1000)\<rparr>) js))"

definition markSyncCompleted :: "int \<Rightarrow> string \<Rightarrow> int \<Rightarrow> int \<Rightarrow> sync_job list \<Rightarrow> sync_job list" where
  "markSyncCompleted i owner added now =
     update_where (held_by i owner)
       (\<lambda>j. j\<lparr>j_status := JobCompleted, j_items := j_items j + added, j_completed := Some now, j_lease_owner := None,
          j_lease_expires := None, j_next_attempt := None, j_last_error := None\<rparr>)"

definition markSyncFailed :: "int \<Rightarrow> string \<Rightarrow> string \<Rightarrow> int option \<Rightarrow> int \<Rightarrow> sync_job list \<Rightarrow> sync_job list" where
  "markSyncFailed i owner err next now =
     update_where (held_by i owner)
       (\<lambda>j. j\<lparr>j_status := (if next = None then JobDeadLetter else JobFailed), j_last_error := Some (take 1000 err),
          j_next_attempt := next, j_dead_lettered := (if next = None then Some now else None), j_lease_owner := None,
          j_lease_expires := None\<rparr>)"

definition markSyncRateLimited :: "int \<Rightarrow> string \<Rightarrow> int \<Rightarrow> string \<Rightarrow> sync_job list \<Rightarrow> sync_job list" where
  "markSyncRateLimited i owner until err =
     update_where (held_by i owner)
       (\<lambda>j. j\<lparr>j_status := JobRateLimited, j_rate_limited_until := Some until, j_next_attempt := None,
          j_last_error := Some (take 1000 err), j_lease_owner := None, j_lease_expires := None\<rparr>)"

definition markSyncPaused :: "int \<Rightarrow> string \<Rightarrow> string \<Rightarrow> sync_job list \<Rightarrow> sync_job list" where
  "markSyncPaused i owner reason =
     update_where (held_by i owner)
       (\<lambda>j. j\<lparr>j_status := JobPaused, j_last_error := Some (take 1000 reason), j_next_attempt := None,
          j_lease_owner := None, j_lease_expires := None\<rparr>)"

text \<open>The reaper takes the leases that ended first.\<close>

definition job_lapsed :: "int \<Rightarrow> sync_job \<Rightarrow> bool" where
  "job_lapsed now j \<longleftrightarrow> j_status j = JobRunning \<and> (case j_lease_expires j of None \<Rightarrow> False | Some t \<Rightarrow> t < now)"

definition lease_end :: "sync_job \<Rightarrow> int" where
  "lease_end j = (case j_lease_expires j of None \<Rightarrow> 0 | Some t \<Rightarrow> t)"

definition release_job :: "int \<Rightarrow> sync_job \<Rightarrow> sync_job" where
  "release_job now j =
     j\<lparr>j_status := JobPending, j_lease_owner := None, j_lease_expires := None, j_next_attempt := Some now\<rparr>"

definition reclaimJobLeases :: "nat \<Rightarrow> int \<Rightarrow> sync_job list \<Rightarrow> sync_job list" where
  "reclaimJobLeases limit now = claim_rows j_id (job_lapsed now) lease_end limit (release_job now)"

definition deleteSettledJobs :: "int \<Rightarrow> nat \<Rightarrow> sync_job list \<Rightarrow> sync_job list" where
  "deleteSettledJobs cutoff limit =
     delete_rows j_id (\<lambda>j. \<not> j_deleted j \<and> j_status j \<in> {JobCompleted, JobCancelled} \<and> j_created j < cutoff)
       j_created limit"

definition listForChannel :: "int \<Rightarrow> int \<Rightarrow> sync_job list \<Rightarrow> (int \<times> SyncJobKind \<times> SyncJobStatus \<times> int) list" where
  "listForChannel enterprise channel js =
     map (\<lambda>j. (j_id j, j_kind j, j_status j, j_items j))
       (take 50 (sort_key (\<lambda>j. - j_created j)
         (filter (\<lambda>j. j_enterprise j = enterprise \<and> j_channel j = channel \<and> \<not> j_deleted j) js)))"


section \<open>The worker\<close>

definition SYNC_MAX_PAGES_PER_RUN :: nat where "SYNC_MAX_PAGES_PER_RUN = 5"

definition SYNC_MAX_ATTEMPTS :: int where "SYNC_MAX_ATTEMPTS = 5"

definition SYNC_RATE_LIMIT_PARK_MS :: int where "SYNC_RATE_LIMIT_PARK_MS = 15 * 60 * 1000"

record ChannelBackfillContext =
  b_channel :: int
  b_platform :: Platform
  b_platform_id :: string
  b_parent_platform_id :: "string option"
  b_token :: "string option"
  b_reauth :: bool

definition findBackfillContext :: "'a channel_scheme list \<Rightarrow> int \<Rightarrow> int \<Rightarrow> ChannelBackfillContext option" where
  "findBackfillContext cs enterprise i =
     (case find (\<lambda>c. ch_enterprise c = enterprise \<and> ch_id c = i \<and> \<not> ch_deleted c
                   \<and> ch_status c \<noteq> ChannelDisconnected) cs of
        None \<Rightarrow> None
      | Some c \<Rightarrow>
          let parent = (case ch_parent c of None \<Rightarrow> None
                        | Some p \<Rightarrow> find (\<lambda>d. ch_id d = p \<and> ch_enterprise d = ch_enterprise c) cs)
          in Some \<lparr> b_channel = ch_id c, b_platform = ch_platform c, b_platform_id = ch_platform_id c,
                    b_parent_platform_id = map_option ch_platform_id parent,
                    b_token = (case ch_token c of Some t \<Rightarrow> Some t
                               | None \<Rightarrow> (case parent of None \<Rightarrow> None | Some d \<Rightarrow> ch_token d)),
                    b_reauth = (ch_reauth c \<or> (case parent of None \<Rightarrow> False | Some d \<Rightarrow> ch_reauth d)) \<rparr>)"

record SliceResult =
  sl_items :: int
  sl_next :: "string option"
  sl_finished :: bool

text \<open>Which edge a page is read from: \<open>Posts\<close> tells the two walks over posts apart from those over
  their comments.\<close>

datatype walk_route =
  InstagramTagPage | InstagramConversationPage string | InstagramMediaPage bool | ConversationPage
| NothingToRead | CommentPage bool

definition IMPLEMENTED_JOB_KINDS :: "SyncJobKind list" where
  "IMPLEMENTED_JOB_KINDS =
     [BackfillPosts, BackfillComments, BackfillConversations, ResyncConversation, BackfillMentions, RefreshProfile,
      RefreshPostMetrics]"

definition CONVERSATION_KINDS :: "SyncJobKind list" where
  "CONVERSATION_KINDS = [BackfillConversations, ResyncConversation]"

definition page_route :: "SyncJobKind \<Rightarrow> ChannelBackfillContext \<Rightarrow> walk_route" where
  "page_route kind ctx =
     (let posts = (kind = BackfillPosts \<or> kind = RefreshPostMetrics)
      in if b_platform ctx = Instagram then
           (if kind = BackfillMentions then InstagramTagPage
            else if kind \<in> set CONVERSATION_KINDS
            then InstagramConversationPage (case b_parent_platform_id ctx of None \<Rightarrow> [] | Some p \<Rightarrow> p)
            else InstagramMediaPage posts)
         else if kind \<in> set CONVERSATION_KINDS then ConversationPage
         else if kind = BackfillMentions then NothingToRead
         else CommentPage posts)"

record 'a sync_db =
  sjobs :: "sync_job list"
  schannels :: "'a channel_scheme list"
  sclock :: int

text \<open>\<open>sy_read\<close> reads one page, appends what it holds to the inbound ledger, and returns with the
  table as it is by then; \<open>sy_refresh\<close> does the same for a channel's profile. \<open>sy_draw\<close> is what
  \<open>Math.random()\<close> gives, \<open>sy_pressure\<close> how full the platform's usage pools are, in percent.\<close>

record 'a sync_env =
  sy_pressure :: rat
  sy_draw :: rat
  sy_decrypt :: "string \<Rightarrow> string option"
  sy_read :: "walk_route \<Rightarrow> sync_job \<Rightarrow> ChannelBackfillContext \<Rightarrow> string \<Rightarrow> string option \<Rightarrow> 'a sync_db
    \<Rightarrow> (send_failure + SliceResult) \<times> 'a sync_db"
  sy_refresh :: "sync_job \<Rightarrow> ChannelBackfillContext \<Rightarrow> string \<Rightarrow> 'a sync_db
    \<Rightarrow> (send_failure + unit) \<times> 'a sync_db"

definition page :: "'a sync_env \<Rightarrow> sync_job \<Rightarrow> ChannelBackfillContext \<Rightarrow> string \<Rightarrow> string option \<Rightarrow> 'a sync_db
    \<Rightarrow> (send_failure + SliceResult) \<times> 'a sync_db" where
  "page env job ctx token cursor db =
     (case page_route (j_kind job) ctx of
        NothingToRead \<Rightarrow> (Inr \<lparr> sl_items = 0, sl_next = None, sl_finished = True \<rparr>, db)
      | r \<Rightarrow> sy_read env r job ctx token cursor db)"

primrec walk :: "'a sync_env \<Rightarrow> string \<Rightarrow> int \<Rightarrow> sync_job \<Rightarrow> ChannelBackfillContext \<Rightarrow> string \<Rightarrow> nat \<Rightarrow> string option
    \<Rightarrow> 'a sync_db \<Rightarrow> (send_failure + SliceResult) \<times> 'a sync_db" where
  "walk env owner leaseSeconds job ctx token 0 cursor db =
     (Inr \<lparr> sl_items = 0, sl_next = cursor, sl_finished = False \<rparr>, db)"
| "walk env owner leaseSeconds job ctx token (Suc pages) cursor db =
     (case page env job ctx token cursor db of
        (Inl f, db') \<Rightarrow> (Inl f, db')
      | (Inr slice, db') \<Rightarrow>
          if sl_finished slice
          then (Inr \<lparr> sl_items = sl_items slice, sl_next = None, sl_finished = True \<rparr>, db')
          else case saveProgress (j_id job) owner (sl_next slice) (sl_items slice) leaseSeconds (sclock db') (sjobs db') of
            (held, js) \<Rightarrow>
              if \<not> held
              then (Inr \<lparr> sl_items = sl_items slice, sl_next = sl_next slice, sl_finished = False \<rparr>, db'\<lparr>sjobs := js\<rparr>)
              else walk env owner leaseSeconds job ctx token pages (sl_next slice) (db'\<lparr>sjobs := js\<rparr>))"

definition graph_message :: "send_failure \<Rightarrow> string" where
  "graph_message f = (case f of Thrown m \<Rightarrow> m | GraphFailure e \<Rightarrow> g_message e)"

definition handleFailure :: "'a sync_env \<Rightarrow> string \<Rightarrow> sync_job \<Rightarrow> send_failure \<Rightarrow> 'a sync_db \<Rightarrow> 'a sync_db" where
  "handleFailure env owner job f db =
     (let now = sclock db; retry = scheduleRetry (sy_draw env) (j_attempts job) SYNC_MAX_ATTEMPTS now;
          set = (\<lambda>g. db\<lparr>sjobs := g (sjobs db)\<rparr>)
      in case f of
        Thrown m \<Rightarrow> set (markSyncFailed (j_id job) owner m retry now)
      | GraphFailure e \<Rightarrow>
          let mapped = mapGraphError e in
          if mapped_code mapped = UpstreamRateLimited
          then set (markSyncRateLimited (j_id job) owner (now + SYNC_RATE_LIMIT_PARK_MS) (g_message e))
          else if requiresReauth mapped then set (markSyncPaused (j_id job) owner (g_message e))
          else if mapped_code mapped = GraphPermissionDenied then set (markSyncPaused (j_id job) owner (g_message e))
          else set (markSyncFailed (j_id job) owner (g_message e) (if retryable mapped then retry else None) now))"

definition pause_reason :: "'a sync_env \<Rightarrow> sync_job \<Rightarrow> 'a sync_db \<Rightarrow> string + (ChannelBackfillContext \<times> string)" where
  "pause_reason env job db =
     (case findBackfillContext (schannels db) (j_enterprise job) (j_channel job) of
        None \<Rightarrow> Inl ''the channel no longer exists''
      | Some ctx \<Rightarrow>
          if b_reauth ctx then Inl ''the channel needs re-authorisation before its history can be read''
          else case b_token ctx of
            None \<Rightarrow> Inl ''the channel has no usable token''
          | Some t \<Rightarrow>
              if t = [] then Inl ''the channel has no usable token''
              else if j_kind job \<notin> set IMPLEMENTED_JOB_KINDS then Inl ''sync kind is not implemented yet''
              else if b_platform ctx = Instagram \<and> b_parent_platform_id ctx \<in> {None, Some []}
              then Inl ''the instagram channel is not linked to a facebook page''
              else case sy_decrypt env t of
                None \<Rightarrow> Inl ''the channel token could not be decrypted''
              | Some token \<Rightarrow> Inr (ctx, token))"

definition runJob :: "'a sync_env \<Rightarrow> string \<Rightarrow> int \<Rightarrow> sync_job \<Rightarrow> 'a sync_db \<Rightarrow> 'a sync_db" where
  "runJob env owner leaseSeconds job db =
     (case pause_reason env job db of
        Inl reason \<Rightarrow> db\<lparr>sjobs := markSyncPaused (j_id job) owner reason (sjobs db)\<rparr>
      | Inr (ctx, token) \<Rightarrow>
          if j_kind job = RefreshProfile then
            (case sy_refresh env job ctx token db of
               (Inl f, db') \<Rightarrow> handleFailure env owner job f db'
             | (Inr _, db') \<Rightarrow> db'\<lparr>sjobs := markSyncCompleted (j_id job) owner 1 (sclock db') (sjobs db')\<rparr>)
          else
            (case walk env owner leaseSeconds job ctx token SYNC_MAX_PAGES_PER_RUN (j_cursor job) db of
               (Inl f, db') \<Rightarrow> handleFailure env owner job f db'
             | (Inr r, db') \<Rightarrow>
                 if sl_finished r
                 then db'\<lparr>sjobs := markSyncCompleted (j_id job) owner (sl_items r) (sclock db') (sjobs db')\<rparr>
                 else db'))"

primrec run_claimed :: "'a sync_env \<Rightarrow> string \<Rightarrow> int \<Rightarrow> sync_job list \<Rightarrow> 'a sync_db \<Rightarrow> 'a sync_db" where
  "run_claimed env owner leaseSeconds [] db = db"
| "run_claimed env owner leaseSeconds (job # js) db =
     (case extendJobLease (j_id job) owner leaseSeconds (sclock db) (sjobs db) of
        (held, rows) \<Rightarrow>
          run_claimed env owner leaseSeconds js
            (if held then runJob env owner leaseSeconds job (db\<lparr>sjobs := rows\<rparr>) else db\<lparr>sjobs := rows\<rparr>))"

definition pollBackfill :: "'a sync_env \<Rightarrow> string \<Rightarrow> nat \<Rightarrow> int \<Rightarrow> 'a sync_db \<Rightarrow> sync_error + (nat \<times> 'a sync_db)" where
  "pollBackfill env owner batchSize leaseSeconds db =
     (if META_USAGE_SOFT_LIMIT_PCT \<le> sy_pressure env then Inr (0, db)
      else case claimSyncBatch owner batchSize leaseSeconds (sclock db) (sjobs db) of
        Inl e \<Rightarrow> Inl e
      | Inr (claimed, js) \<Rightarrow>
          Inr (length claimed, run_claimed env owner leaseSeconds claimed (db\<lparr>sjobs := js\<rparr>)))"

section \<open>The scheduler and the sweeper\<close>

record synced_channel = channel +
  ch_profile_synced :: "int option"

definition CHANNELS_PER_TICK :: nat where "CHANNELS_PER_TICK = 200"

definition listAllForRefresh :: "nat \<Rightarrow> synced_channel list \<Rightarrow> (int \<times> int) list" where
  "listAllForRefresh limit cs =
     map (\<lambda>c. (ch_id c, ch_enterprise c))
       (take limit (sort_key (\<lambda>c. (case ch_profile_synced c of None \<Rightarrow> 0 | Some t \<Rightarrow> t, ch_id c))
         (filter (\<lambda>c. \<not> ch_deleted c \<and> ch_managed c \<and> \<not> ch_reauth c \<and> ch_status c = ChannelActive) cs)))"

primrec enqueue_each :: "SyncJobKind \<Rightarrow> int \<Rightarrow> (int \<times> int) list \<Rightarrow> sync_job list \<Rightarrow> nat \<times> sync_job list" where
  "enqueue_each kind now [] js = (0, js)"
| "enqueue_each kind now (c # cs) js =
     (case enqueueIfAbsent now \<lparr> es_enterprise = snd c, es_channel = fst c, es_kind = kind, es_trigger = Scheduled,
                              es_target = None \<rparr> js of
        (created, js') \<Rightarrow>
          (case enqueue_each kind now cs js' of (n, js'') \<Rightarrow> ((if created then 1 else 0) + n, js'')))"

definition scheduleRefresh :: "SyncJobKind \<Rightarrow> int \<Rightarrow> synced_channel list \<Rightarrow> sync_job list \<Rightarrow> nat \<times> sync_job list" where
  "scheduleRefresh kind now cs js = enqueue_each kind now (listAllForRefresh CHANNELS_PER_TICK cs) js"

text \<open>\<open>drain\<close> of \<open>workers/sweeper.worker.ts\<close>: batches until one comes back short.\<close>

definition SWEEP_BATCH :: nat where "SWEEP_BATCH = 500"

definition MAX_SWEEP_PASSES :: nat where "MAX_SWEEP_PASSES = 200"

primrec drain_passes :: "(nat \<Rightarrow> 's \<Rightarrow> 's) \<Rightarrow> ('s \<Rightarrow> nat) \<Rightarrow> nat \<Rightarrow> nat \<Rightarrow> 's \<Rightarrow> nat \<times> 's" where
  "drain_passes delete size_of batch 0 s = (0, s)"
| "drain_passes delete size_of batch (Suc passes) s =
     (let s' = delete batch s; deleted = size_of s - size_of s'
      in if deleted < batch then (deleted, s')
         else case drain_passes delete size_of batch passes s' of (n, s'') \<Rightarrow> (deleted + n, s''))"

definition sweepJobs :: "int \<Rightarrow> sync_job list \<Rightarrow> nat \<times> sync_job list" where
  "sweepJobs cutoff = drain_passes (deleteSettledJobs cutoff) length SWEEP_BATCH MAX_SWEEP_PASSES"

end
