(* ===== verification/Sync_Runs.thy ===== *)
theory Sync_Runs
  imports Sync_Jobs
begin

text \<open>
  What holds of \<open>sync_jobs\<close> however the scheduler, the workers, the reaper and the sweeper
  interleave. \<open>sync_step\<close> has one rule per statement of the repository, by any caller at any time;
  \<open>sync_reach\<close> is what they reach from an empty table. The worker of \<open>Sync_Jobs\<close> moves along these
  steps (\<open>poll_is_run\<close>), so what holds of every step holds of every poll.
\<close>

section \<open>Steps\<close>

inductive sync_step :: "nat \<Rightarrow> 'a sync_db \<Rightarrow> 'a sync_db \<Rightarrow> bool" for limit where
  time_passes: "sclock db \<le> t \<Longrightarrow> sync_step limit db (db\<lparr>sclock := t\<rparr>)"
| channels_change: "sync_step limit db (db\<lparr>schannels := cs\<rparr>)"
| enqueued: "enqueueIfAbsent (sclock db) inp (sjobs db) = (created, js) \<Longrightarrow> sync_step limit db (db\<lparr>sjobs := js\<rparr>)"
| claimed: "claimSyncBatch owner limit secs (sclock db) (sjobs db) = Inr (batch, js) \<Longrightarrow> sync_step limit db (db\<lparr>sjobs := js\<rparr>)"
| extended: "extendJobLease i owner secs (sclock db) (sjobs db) = (held, js) \<Longrightarrow> sync_step limit db (db\<lparr>sjobs := js\<rparr>)"
| saved: "saveProgress i owner cursor n secs (sclock db) (sjobs db) = (held, js) \<Longrightarrow> sync_step limit db (db\<lparr>sjobs := js\<rparr>)"
| completed: "sync_step limit db (db\<lparr>sjobs := markSyncCompleted i owner n (sclock db) (sjobs db)\<rparr>)"
| failed: "(\<And>t. next = Some t \<Longrightarrow> sclock db < t)
    \<Longrightarrow> sync_step limit db (db\<lparr>sjobs := markSyncFailed i owner err next (sclock db) (sjobs db)\<rparr>)"
| limited: "sclock db < until \<Longrightarrow> sync_step limit db (db\<lparr>sjobs := markSyncRateLimited i owner until err (sjobs db)\<rparr>)"
| paused: "sync_step limit db (db\<lparr>sjobs := markSyncPaused i owner err (sjobs db)\<rparr>)"
| reaped: "sync_step limit db (db\<lparr>sjobs := reclaimJobLeases n (sclock db) (sjobs db)\<rparr>)"
| swept: "sync_step limit db (db\<lparr>sjobs := deleteSettledJobs cutoff n (sjobs db)\<rparr>)"

definition no_jobs :: "'a channel_scheme list \<Rightarrow> 'a sync_db" where
  "no_jobs cs = \<lparr> sjobs = [], schannels = cs, sclock = 0 \<rparr>"

definition sync_reach :: "nat \<Rightarrow> 'a sync_db \<Rightarrow> bool" where
  "sync_reach limit db \<longleftrightarrow> (\<exists>cs. (sync_step limit)\<^sup>*\<^sup>* (no_jobs cs) db)"

interpretation jobs: lease_table j_id job_due job_order j_lease_owner "\<lambda>w t. grab_job w now t" for now :: int
  by unfold_locales (simp_all add: grab_job_def job_due_def claimable_def CLAIMABLE_SYNC_JOB_STATUSES_def)

section \<open>The invariant\<close>

text \<open>A row runs exactly when somebody holds it, and then its lease ends.\<close>

definition job_lease_ok :: "sync_job \<Rightarrow> bool" where
  "job_lease_ok j \<longleftrightarrow> (if j_status j = JobRunning then j_lease_owner j \<noteq> None \<and> j_lease_expires j \<noteq> None
                  else j_lease_owner j = None \<and> j_lease_expires j = None) \<and> \<not> j_deleted j"

definition jobs_ok :: "sync_job list \<Rightarrow> bool" where
  "jobs_ok js \<longleftrightarrow> distinct (map j_id js) \<and> live_uniq js \<and> list_all job_lease_ok js"

lemmas live_simps = occupies_def claimable_def LIVE_SYNC_JOB_STATUSES_def CLAIMABLE_SYNC_JOB_STATUSES_def

lemma live_uniq_map:
  assumes "live_uniq js" and "\<And>j. j \<in> set js \<Longrightarrow> job_slot (f j) = job_slot j"
    and "\<And>j. j \<in> set js \<Longrightarrow> occupies (f j) \<Longrightarrow> occupies j"
  shows "live_uniq (map f js)"
  using assms unfolding live_uniq_def
proof (induction js)
  case (Cons a js)
  then have ih: "distinct (map job_slot (filter occupies (map f js)))" by (simp split: if_splits)
  have "job_slot (f a) \<notin> job_slot ` set (filter occupies (map f js))" if "occupies (f a)"
  proof
    assume "job_slot (f a) \<in> job_slot ` set (filter occupies (map f js))"
    then obtain k where k: "k \<in> set js" "occupies k" "job_slot k = job_slot a" using Cons.prems by auto
    have "job_slot k \<in> job_slot ` set (filter occupies js)" using k(1,2) by simp
    then have "job_slot a \<in> job_slot ` set (filter occupies js)" by (simp only: k(3))
    moreover have "occupies a" using Cons.prems that by auto
    then have "job_slot a \<notin> job_slot ` set (filter occupies js)" using Cons.prems(1) by simp
    ultimately show False by blast
  qed
  with ih show ?case by simp
qed simp

lemma live_uniq_filter: "live_uniq js \<Longrightarrow> live_uniq (filter P js)"
  unfolding live_uniq_def by (induction js) auto

lemma live_uniq_append:
  assumes "live_uniq js" and "\<And>k. k \<in> set js \<Longrightarrow> occupies k \<Longrightarrow> job_slot k \<noteq> job_slot j"
  shows "live_uniq (js @ [j])"
  using assms unfolding live_uniq_def by (auto simp: image_iff) metis

text \<open>What an update of rows has to keep for the invariant to survive it.\<close>

lemma jobs_ok_update:
  assumes ok: "jobs_ok js"
    and keep: "\<And>j. j \<in> set js \<Longrightarrow> P j \<Longrightarrow> j_id (f j) = j_id j \<and> job_slot (f j) = job_slot j \<and> job_lease_ok (f j)
                 \<and> (occupies (f j) \<longrightarrow> occupies j)"
  shows "jobs_ok (update_where P f js)"
proof -
  let ?g = "\<lambda>j. if P j then f j else j"
  have "map j_id (map ?g js) = map j_id js" using keep by simp
  then have "distinct (map j_id (map ?g js))" using ok unfolding jobs_ok_def by metis
  moreover have "live_uniq (map ?g js)"
    by (rule live_uniq_map) (use ok keep in \<open>auto simp: jobs_ok_def split: if_splits\<close>)
  moreover have "list_all job_lease_ok (map ?g js)" using ok keep by (auto simp: jobs_ok_def list_all_iff)
  ultimately show ?thesis by (simp add: jobs_ok_def update_where_def del: map_map)
qed

lemma job_lease_okD: "job_lease_ok j \<Longrightarrow> j_lease_owner j = Some w \<Longrightarrow> j_status j = JobRunning \<and> \<not> j_deleted j"
  by (auto simp: job_lease_ok_def split: if_splits)

lemma jobs_ok_row: "jobs_ok js \<Longrightarrow> j \<in> set js \<Longrightarrow> job_lease_ok j"
  by (auto simp: jobs_ok_def list_all_iff)

lemma job_slot_update [simp]:
  "job_slot (j\<lparr>j_status := a\<rparr>) = job_slot j" "job_slot (j\<lparr>j_lease_owner := b\<rparr>) = job_slot j"
  "job_slot (j\<lparr>j_lease_expires := c\<rparr>) = job_slot j" "job_slot (j\<lparr>j_items := d\<rparr>) = job_slot j"
  "job_slot (j\<lparr>j_attempts := d\<rparr>) = job_slot j" "job_slot (j\<lparr>j_next_attempt := c\<rparr>) = job_slot j"
  "job_slot (j\<lparr>j_rate_limited_until := c\<rparr>) = job_slot j" "job_slot (j\<lparr>j_started := c\<rparr>) = job_slot j"
  "job_slot (j\<lparr>j_completed := c\<rparr>) = job_slot j" "job_slot (j\<lparr>j_dead_lettered := c\<rparr>) = job_slot j"
  "job_slot (j\<lparr>j_last_error := b\<rparr>) = job_slot j" "job_slot (j\<lparr>j_cursor := b\<rparr>) = job_slot j"
  "job_slot (j\<lparr>j_trigger := e\<rparr>) = job_slot j"
  by (simp_all add: job_slot_def)

lemma held_job:
  assumes "jobs_ok js" and "j \<in> set js" and "held_by i owner j"
  shows "j_status j = JobRunning" and "\<not> j_deleted j" and "occupies j"
  using job_lease_okD [OF jobs_ok_row [OF assms(1,2)]] assms(3)
  by (auto simp: held_by_def occupies_def LIVE_SYNC_JOB_STATUSES_def)

lemmas mark_defs = markSyncCompleted_def markSyncFailed_def markSyncRateLimited_def markSyncPaused_def

lemma jobs_ok_marks:
  assumes "jobs_ok js"
  shows "jobs_ok (markSyncCompleted i owner n now js)" "jobs_ok (markSyncFailed i owner err next now js)"
    "jobs_ok (markSyncRateLimited i owner until err js)" "jobs_ok (markSyncPaused i owner err js)"
  unfolding mark_defs
  by (intro jobs_ok_update [OF assms]; use held_job [OF assms] in \<open>simp add: job_lease_ok_def held_by_def\<close>)+

lemma jobs_ok_extend: "jobs_ok js \<Longrightarrow> jobs_ok (snd (extendJobLease i owner secs now js))"
  unfolding extendJobLease_def Let_def snd_conv
  by (rule jobs_ok_update, assumption)
    (auto simp: job_lease_ok_def occupies_def dest: jobs_ok_row held_job split: if_splits)

lemma jobs_ok_save: "jobs_ok js \<Longrightarrow> jobs_ok (snd (saveProgress i owner cursor n secs now js))"
  unfolding saveProgress_def Let_def snd_conv
  by (rule jobs_ok_update, assumption)
    (auto simp: job_lease_ok_def occupies_def dest: jobs_ok_row held_job split: if_splits)

lemma jobs_ok_enqueue:
  assumes ok: "jobs_ok js"
  shows "jobs_ok (snd (enqueueIfAbsent now inp js))"
proof (cases "find (\<lambda>j. occupies j \<and> job_slot j = slot_of (es_channel inp) (es_kind inp) (es_target inp)) js")
  case None
  then have free: "k \<in> set js \<Longrightarrow> occupies k \<Longrightarrow> job_slot k \<noteq> slot_of (es_channel inp) (es_kind inp) (es_target inp)" for k
    by (auto simp: find_None_all)
  have "live_uniq (js @ [fresh_job (fresh_id (map j_id js)) now inp])"
    by (rule live_uniq_append) (use ok free in \<open>auto simp: jobs_ok_def fresh_job_def job_slot_def\<close>)
  then show ?thesis using ok None by (simp add: enqueueIfAbsent_def jobs_ok_def fresh_job_def job_lease_ok_def)
next
  case (Some j)
  then have j: "j \<in> set js" "occupies j" by (auto dest: find_Some_iff_mem)
  have "j_status j = JobPaused \<Longrightarrow> jobs_ok (update_where (\<lambda>k. j_id k = j_id j) (revive_job now inp) js)"
  proof (rule jobs_ok_update [OF ok])
    fix k assume p: "j_status j = JobPaused" and k: "k \<in> set js" "j_id k = j_id j"
    have "distinct (map j_id js)" using ok by (simp add: jobs_ok_def)
    then have "k = j" using k j(1) distinct_map_eq by metis
    then show "j_id (revive_job now inp k) = j_id k \<and> job_slot (revive_job now inp k) = job_slot k
        \<and> job_lease_ok (revive_job now inp k) \<and> (occupies (revive_job now inp k) \<longrightarrow> occupies k)"
      using p j jobs_ok_row [OF ok j(1)] by (simp add: revive_job_def job_lease_ok_def)
  qed
  then show ?thesis using ok Some by (simp add: enqueueIfAbsent_def)
qed


lemma release_ok:
  assumes "jobs_ok js" and "j \<in> set js" and "job_lapsed now j"
  shows "job_lease_ok (release_job now j) \<and> occupies j"
  using jobs_ok_row [OF assms(1,2)] assms(3)
  by (auto simp: release_job_def job_lapsed_def job_lease_ok_def live_simps)

lemma first_ids_unique:
  assumes "distinct (map rid js)" and "j \<in> set js" and "rid j \<in> set (first_ids rid due order n js)"
  shows "due j"
proof -
  obtain k where "k \<in> set js" "rid k = rid j" "due k" using first_ids_sub [OF assms(3)] by blast
  then show ?thesis using distinct_map_eq [OF assms(1)] assms(2) by metis
qed

lemma jobs_ok_reap:
  assumes ok: "jobs_ok js"
  shows "jobs_ok (reclaimJobLeases n now js)"
  unfolding reclaimJobLeases_def claim_rows_def Let_def
proof (rule jobs_ok_update [OF ok])
  fix j assume j: "j \<in> set js" and hit: "j_id j \<in> set (first_ids j_id (job_lapsed now) lease_end n js)"
  have "distinct (map j_id js)" using ok by (simp add: jobs_ok_def)
  then have "job_lapsed now j" using j hit by (rule first_ids_unique)
  from release_ok [OF ok j this] show "j_id (release_job now j) = j_id j
      \<and> job_slot (release_job now j) = job_slot j \<and> job_lease_ok (release_job now j)
      \<and> (occupies (release_job now j) \<longrightarrow> occupies j)"
    by (simp add: release_job_def)
qed

lemma jobs_ok_delete: "jobs_ok js \<Longrightarrow> jobs_ok (deleteSettledJobs cutoff n js)"
  by (auto simp: deleteSettledJobs_def delete_rows_def Let_def jobs_ok_def live_uniq_filter list_all_iff
      distinct_map_filter)

lemma jobs_ok_claim:
  assumes ok: "jobs_ok js" and "claimSyncBatch owner limit secs now js = Inr (batch, js')"
  shows "jobs_ok js'"
proof -
  have js': "js' = claim_rows j_id (job_due now) job_order limit (grab_job owner now (now + secs * 1000)) js"
    and u: "live_uniq js'"
    using assms(2) by (auto simp: claimSyncBatch_def Let_def split: if_splits)
  have ids: "map j_id js' = map j_id js"
    unfolding js' claim_rows_def Let_def by (rule map_update_where) (simp add: grab_job_def)
  have "job_lease_ok (grab_job owner now t j)" if "j \<in> set js" for t j
    using jobs_ok_row [OF ok that] by (simp add: grab_job_def job_lease_ok_def split: if_splits)
  then have "list_all job_lease_ok js'"
    using ok unfolding js' claim_rows_def Let_def by (auto simp: list_all_iff set_update_where jobs_ok_def)
  then show ?thesis using u ids ok by (simp add: jobs_ok_def)
qed

lemma jobs_ok_step: "sync_step limit db db' \<Longrightarrow> jobs_ok (sjobs db) \<Longrightarrow> jobs_ok (sjobs db')"
proof (induction rule: sync_step.induct)
  case (enqueued db inp created js)
  then show ?case using jobs_ok_enqueue [of "sjobs db" "sclock db" inp] by simp
next
  case (claimed owner secs db batch js)
  from jobs_ok_claim [OF claimed(2) claimed(1)] show ?case by simp
next
  case (extended i owner secs db held js)
  then show ?case using jobs_ok_extend [of "sjobs db" i owner secs "sclock db"] by simp
next
  case (saved i owner cursor n secs db held js)
  then show ?case using jobs_ok_save [of "sjobs db" i owner cursor n secs "sclock db"] by simp
qed (simp_all add: jobs_ok_marks jobs_ok_reap jobs_ok_delete)

lemma jobs_ok_run: "(sync_step limit)\<^sup>*\<^sup>* db db' \<Longrightarrow> jobs_ok (sjobs db) \<Longrightarrow> jobs_ok (sjobs db')"
  by (induction rule: rtranclp_induct) (auto intro: jobs_ok_step)

lemma reach_ok: "sync_reach limit db \<Longrightarrow> jobs_ok (sjobs db)"
  unfolding sync_reach_def using jobs_ok_run
  by (force simp: no_jobs_def jobs_ok_def live_uniq_def)

text \<open>C38: At most one live job of a kind and target per channel, a job runs exactly when a worker holds it, and no
  lease is open-ended, whatever the order of enqueues, claims, saves, failures, reaps and sweeps.\<close>

theorem one_live_job_per_slot:
  assumes "sync_reach limit db"
  shows "distinct (map job_slot (filter (\<lambda>j. j_status j \<in> set LIVE_SYNC_JOB_STATUSES) (sjobs db)))
    \<and> (\<forall>j \<in> set (sjobs db). (j_status j = JobRunning) = (j_lease_owner j \<noteq> None)
         \<and> (j_lease_owner j \<noteq> None) = (j_lease_expires j \<noteq> None))"
proof -
  note ok = reach_ok [OF assms]
  have "filter (\<lambda>j. j_status j \<in> set LIVE_SYNC_JOB_STATUSES) (sjobs db) = filter occupies (sjobs db)"
    by (rule filter_cong) (use jobs_ok_row [OF ok] in \<open>auto simp: occupies_def job_lease_ok_def\<close>)
  moreover have "distinct (map job_slot (filter occupies (sjobs db)))" using ok by (simp add: jobs_ok_def live_uniq_def)
  moreover have "(j_status j = JobRunning) = (j_lease_owner j \<noteq> None) \<and> (j_lease_owner j \<noteq> None) = (j_lease_expires j \<noteq> None)"
    if "j \<in> set (sjobs db)" for j
    using jobs_ok_row [OF ok that] by (simp add: job_lease_ok_def split: if_splits)
  ultimately show ?thesis by simp
qed


section \<open>A poll is a run\<close>

text \<open>While a page is read the others may do anything the steps allow.\<close>

definition honest :: "nat \<Rightarrow> 'a sync_env \<Rightarrow> bool" where
  "honest limit env \<longleftrightarrow> 0 \<le> sy_draw env \<and> sy_draw env < 1
     \<and> (\<forall>r job ctx token cursor db. (sync_step limit)\<^sup>*\<^sup>* db (snd (sy_read env r job ctx token cursor db)))
     \<and> (\<forall>job ctx token db. (sync_step limit)\<^sup>*\<^sup>* db (snd (sy_refresh env job ctx token db)))"

lemma honest_page: "honest limit env \<Longrightarrow> (sync_step limit)\<^sup>*\<^sup>* db (snd (page env job ctx token cursor db))"
  by (auto simp: honest_def page_def split: walk_route.split)

lemma walk_is_run:
  assumes h: "honest limit env"
  shows "(sync_step limit)\<^sup>*\<^sup>* db (snd (walk env owner secs job ctx token pages cursor db))"
proof (induction pages arbitrary: cursor db)
  case (Suc pages)
  obtain r db1 where p: "page env job ctx token cursor db = (r, db1)" by fastforce
  have to1: "(sync_step limit)\<^sup>*\<^sup>* db db1" using honest_page [OF h, of db job ctx token cursor] p by simp
  show ?case
  proof (cases r)
    case (Inl f)
    then show ?thesis using p to1 by simp
  next
    case (Inr slice)
    obtain held js where s: "saveProgress (j_id job) owner (sl_next slice) (sl_items slice) secs (sclock db1) (sjobs db1) = (held, js)"
      by fastforce
    have to2: "(sync_step limit)\<^sup>*\<^sup>* db (db1\<lparr>sjobs := js\<rparr>)"
      using to1 sync_step.saved [OF s] by (rule rtranclp.rtrancl_into_rtrancl)
    show ?thesis
      using to1 to2 Suc.IH [of "db1\<lparr>sjobs := js\<rparr>" "sl_next slice"]
      by (auto simp: p Inr s intro: rtranclp_trans)
  qed
qed simp

lemma scheduled_later:
  assumes "0 \<le> r" and "r < 1" and "scheduleRetry r n m now = Some t"
  shows "now < t"
proof -
  have "exponential_ms n \<le> 2 * nextAttemptDelayMs r n + 1"
    unfolding nextAttemptDelayMs_def using exponential_ms_bounds(3) [of n] jittered_bounds(1) [OF assms(1,2)] by simp
  then have "0 < nextAttemptDelayMs r n" using exponential_ms_bounds(3) [of n] by linarith
  then show ?thesis using assms(3) by (auto simp: scheduleRetry_def nextAttemptAt_def split: if_splits)
qed

lemma handleFailure_is_run:
  assumes h: "honest limit env"
  shows "sync_step limit db (handleFailure env owner job f db)"
proof -
  have later: "scheduleRetry (sy_draw env) n m now = Some t \<Longrightarrow> now < t" for n m now t
    using h scheduled_later [of "sy_draw env" n m now t] by (simp add: honest_def)
  have f: "sync_step limit db (db\<lparr>sjobs := markSyncFailed (j_id job) owner e
      (if b then scheduleRetry (sy_draw env) n m (sclock db) else None) (sclock db) (sjobs db)\<rparr>)" for e b n m
    by (rule sync_step.failed) (auto dest: later split: if_splits)
  note f' = f [where b = True, simplified]
  have l: "sync_step limit db (db\<lparr>sjobs := markSyncRateLimited (j_id job) owner (sclock db + SYNC_RATE_LIMIT_PARK_MS) e (sjobs db)\<rparr>)" for e
    by (rule sync_step.limited) (simp add: SYNC_RATE_LIMIT_PARK_MS_def)
  show ?thesis
    unfolding handleFailure_def Let_def
    by (cases f) (simp_all add: f f' l sync_step.paused)
qed

lemma runJob_is_run:
  assumes h: "honest limit env"
  shows "(sync_step limit)\<^sup>*\<^sup>* db (runJob env owner secs job db)"
proof (cases "pause_reason env job db")
  case (Inl reason)
  then show ?thesis by (simp add: runJob_def r_into_rtranclp sync_step.paused)
next
  case (Inr x)
  obtain ctx token where x: "x = (ctx, token)" by fastforce
  obtain r db1 where w: "walk env owner secs job ctx token SYNC_MAX_PAGES_PER_RUN (j_cursor job) db = (r, db1)" by fastforce
  obtain q db2 where f: "sy_refresh env job ctx token db = (q, db2)" by fastforce
  have "(sync_step limit)\<^sup>*\<^sup>* db db1" using walk_is_run [OF h, of db owner secs job ctx token] w by (metis snd_conv)
  moreover have "(sync_step limit)\<^sup>*\<^sup>* db db2" using h f unfolding honest_def by (metis snd_conv)
  ultimately show ?thesis
    by (auto simp: runJob_def Inr x w f split: sum.split intro: handleFailure_is_run [OF h] sync_step.completed
        rtranclp.rtrancl_into_rtrancl)
qed

lemma run_claimed_is_run:
  assumes h: "honest limit env"
  shows "(sync_step limit)\<^sup>*\<^sup>* db (run_claimed env owner secs js db)"
proof (induction js arbitrary: db)
  case (Cons job js)
  obtain held rows where e: "extendJobLease (j_id job) owner secs (sclock db) (sjobs db) = (held, rows)" by fastforce
  have "(sync_step limit)\<^sup>*\<^sup>* db (db\<lparr>sjobs := rows\<rparr>)" using sync_step.extended [OF e] by (rule r_into_rtranclp)
  then have "(sync_step limit)\<^sup>*\<^sup>* db (if held then runJob env owner secs job (db\<lparr>sjobs := rows\<rparr>) else db\<lparr>sjobs := rows\<rparr>)"
    using runJob_is_run [OF h, of "db\<lparr>sjobs := rows\<rparr>"] by (auto intro: rtranclp_trans)
  then show ?case using Cons by (auto simp: e intro: rtranclp_trans)
qed simp

lemma poll_is_run:
  assumes "honest limit env" and "pollBackfill env owner limit secs db = Inr (n, db')"
  shows "(sync_step limit)\<^sup>*\<^sup>* db db'"
proof (cases "META_USAGE_SOFT_LIMIT_PCT \<le> sy_pressure env")
  case False
  then obtain batch js where c: "claimSyncBatch owner limit secs (sclock db) (sjobs db) = Inr (batch, js)"
    and db': "db' = run_claimed env owner secs batch (db\<lparr>sjobs := js\<rparr>)"
    using assms(2) by (auto simp: pollBackfill_def split: sum.splits)
  from sync_step.claimed [OF c] have "(sync_step limit)\<^sup>*\<^sup>* db (db\<lparr>sjobs := js\<rparr>)" by (rule r_into_rtranclp)
  then show ?thesis unfolding db' by (rule rtranclp_trans) (rule run_claimed_is_run [OF assms(1)])
qed (use assms(2) in \<open>simp add: pollBackfill_def\<close>)


section \<open>When a claim fails\<close>

lemma live_uniqI:
  assumes "distinct js" and "\<And>j k. j \<in> set js \<Longrightarrow> k \<in> set js \<Longrightarrow> occupies j \<Longrightarrow> occupies k \<Longrightarrow> job_slot j = job_slot k \<Longrightarrow> j = k"
  shows "live_uniq js"
  using assms unfolding live_uniq_def by (auto simp: distinct_map intro: inj_onI)

lemma not_live_uniq:
  assumes "x \<in> set js" "y \<in> set js" "x \<noteq> y" "occupies x" "occupies y" "job_slot x = job_slot y"
  shows "\<not> live_uniq js"
  using assms distinct_map_eq [of job_slot "filter occupies js" x y] unfolding live_uniq_def by auto

text \<open>Two due rows of one slot, both within the batch. Neither is held.\<close>

definition waiting :: "int \<Rightarrow> sync_job list \<Rightarrow> sync_job \<Rightarrow> bool" where
  "waiting now js x \<longleftrightarrow> x \<in> set js \<and> claimable x \<and> j_lease_owner x = None \<and> job_due_at x < now"

definition jammed :: "nat \<Rightarrow> sync_job \<Rightarrow> sync_job \<Rightarrow> 'a sync_db \<Rightarrow> bool" where
  "jammed limit x y db \<longleftrightarrow>
     waiting (sclock db) (sjobs db) x \<and> waiting (sclock db) (sjobs db) y \<and> j_id x < j_id y \<and> job_slot x = job_slot y
     \<and> length (filter (\<lambda>z. claimable z \<and> job_order z \<le> max (job_order x) (job_order y)) (sjobs db)) \<le> limit"

lemma few_due:
  assumes "length (filter (\<lambda>z. claimable z \<and> job_order z \<le> m) js) \<le> limit" and "job_order x \<le> m"
  shows "length (filter (\<lambda>z. job_due now z \<and> job_order z \<le> job_order x) js) \<le> limit"
proof -
  have "job_order z \<le> m" if "job_order z \<le> job_order x" for z using that assms(2) by (rule order_trans)
  then have "length (filter (\<lambda>z. job_due now z \<and> job_order z \<le> job_order x) js)
      \<le> length (filter (\<lambda>z. claimable z \<and> job_order z \<le> m) js)"
    by (intro length_filter_mono) (simp add: job_due_def)
  then show ?thesis using assms(1) by (rule le_trans)
qed

lemma jammed_claim_fails:
  assumes j: "jammed limit x y db"
  shows "claimSyncBatch owner limit secs (sclock db) (sjobs db) = Inl SyncAlreadyRunning"
proof -
  let ?now = "sclock db" and ?js = "sjobs db"
  let ?g = "grab_job owner ?now (?now + secs * 1000)"
  let ?ids = "first_ids j_id (job_due ?now) job_order limit ?js"
  let ?m = "max (job_order x) (job_order y)"
  have few: "length (filter (\<lambda>z. claimable z \<and> job_order z \<le> ?m) ?js) \<le> limit" using j by (simp add: jammed_def)
  have in_batch: "j_id z \<in> set ?ids" if "waiting ?now ?js z" "job_order z \<le> ?m" for z
    by (rule first_ids_within) (use that few_due [OF few] in \<open>auto simp: waiting_def job_due_def\<close>)
  have x: "j_id x \<in> set ?ids" and y: "j_id y \<in> set ?ids" using in_batch j by (auto simp: jammed_def)
  have mem: "z \<in> set ?js \<Longrightarrow> j_id z \<in> set ?ids \<Longrightarrow> ?g z \<in> set (claim_rows j_id (job_due ?now) job_order limit ?g ?js)" for z
    by (force simp: claim_rows_def Let_def set_update_where)
  have "\<not> live_uniq (claim_rows j_id (job_due ?now) job_order limit ?g ?js)"
  proof (rule not_live_uniq [of "?g x" _ "?g y"])
    show "?g x \<in> set (claim_rows j_id (job_due ?now) job_order limit ?g ?js)"
      and "?g y \<in> set (claim_rows j_id (job_due ?now) job_order limit ?g ?js)"
      using mem x y j by (auto simp: jammed_def waiting_def)
    have "j_id (?g x) \<noteq> j_id (?g y)" using j by (simp add: grab_job_def jammed_def)
    then show "?g x \<noteq> ?g y" by metis
    show "occupies (?g x)" "occupies (?g y)" "job_slot (?g x) = job_slot (?g y)"
      using j by (simp_all add: jammed_def waiting_def grab_job_def live_simps)
  qed
  then show ?thesis by (simp add: claimSyncBatch_def Let_def)
qed

text \<open>What an update keeps of a jam: the two rows stay, and every row it makes claimable is due later.\<close>

lemma length_filter_map_le:
  "(\<And>z. z \<in> set xs \<Longrightarrow> Q (f z) \<Longrightarrow> P z) \<Longrightarrow> length (filter Q (map f xs)) \<le> length (filter P xs)"
  by (induction xs) (auto simp: le_SucI)

lemma jammed_update:
  assumes j: "jammed limit x y db"
    and keep: "\<And>z. z \<in> set (sjobs db) \<Longrightarrow> P z \<Longrightarrow> claimable z \<Longrightarrow> j_lease_owner z = None \<Longrightarrow> False"
    and later: "\<And>z. z \<in> set (sjobs db) \<Longrightarrow> P z \<Longrightarrow> claimable (f z) \<Longrightarrow> sclock db \<le> job_due_at (f z)"
  shows "jammed limit x y (db\<lparr>sjobs := update_where P f (sjobs db)\<rparr>)"
proof -
  let ?m = "max (job_order x) (job_order y)"
  have m: "fst ?m < sclock db" using j by (auto simp: jammed_def waiting_def job_order_def max_def)
  have stay: "waiting (sclock db) (update_where P f (sjobs db)) z" if "waiting (sclock db) (sjobs db) z" for z
  proof -
    have "\<not> P z" using that keep by (auto simp: waiting_def)
    then show ?thesis using that by (force simp: waiting_def set_update_where)
  qed
  have "length (filter (\<lambda>z. claimable z \<and> job_order z \<le> ?m) (update_where P f (sjobs db)))
      \<le> length (filter (\<lambda>z. claimable z \<and> job_order z \<le> ?m) (sjobs db))"
    unfolding update_where_def
  proof (rule length_filter_map_le)
    fix z assume z: "z \<in> set (sjobs db)"
      and q: "claimable (if P z then f z else z) \<and> job_order (if P z then f z else z) \<le> ?m"
    have "\<not> P z"
    proof
      assume p: "P z"
      then have "sclock db \<le> job_due_at (f z)" using q later [OF z] by simp
      moreover have "job_due_at (f z) \<le> fst ?m" using q p by (auto simp: job_order_def less_eq_prod_def)
      ultimately show False using m by simp
    qed
    then show "claimable z \<and> job_order z \<le> ?m" using q by simp
  qed
  then show ?thesis using j stay by (auto simp: jammed_def)
qed


lemma jammed_marks:
  assumes "jammed limit x y db"
  shows "jammed limit x y (db\<lparr>sjobs := markSyncCompleted i owner n (sclock db) (sjobs db)\<rparr>)"
    "(\<And>t. next = Some t \<Longrightarrow> sclock db < t)
      \<Longrightarrow> jammed limit x y (db\<lparr>sjobs := markSyncFailed i owner err next (sclock db) (sjobs db)\<rparr>)"
    "sclock db < until \<Longrightarrow> jammed limit x y (db\<lparr>sjobs := markSyncRateLimited i owner until err (sjobs db)\<rparr>)"
    "jammed limit x y (db\<lparr>sjobs := markSyncPaused i owner err (sjobs db)\<rparr>)"
  unfolding mark_defs
  by (rule jammed_update [OF assms]; force simp: held_by_def claimable_def CLAIMABLE_SYNC_JOB_STATUSES_def job_due_at_def)+

lemma jammed_extend: "jammed limit x y db \<Longrightarrow> jammed limit x y (db\<lparr>sjobs := snd (extendJobLease i owner secs (sclock db) (sjobs db))\<rparr>)"
  unfolding extendJobLease_def Let_def snd_conv
  by (rule jammed_update) (auto simp: held_by_def claimable_def CLAIMABLE_SYNC_JOB_STATUSES_def)

lemma jammed_save: "jammed limit x y db \<Longrightarrow> jammed limit x y (db\<lparr>sjobs := snd (saveProgress i owner c n secs (sclock db) (sjobs db))\<rparr>)"
  unfolding saveProgress_def Let_def snd_conv
  by (rule jammed_update) (auto simp: held_by_def claimable_def CLAIMABLE_SYNC_JOB_STATUSES_def)

lemma jammed_reap:
  assumes j: "jammed limit x y db" and ids: "distinct (map j_id (sjobs db))"
  shows "jammed limit x y (db\<lparr>sjobs := reclaimJobLeases n (sclock db) (sjobs db)\<rparr>)"
  unfolding reclaimJobLeases_def claim_rows_def Let_def
proof (rule jammed_update [OF j])
  fix z assume z: "z \<in> set (sjobs db)" "j_id z \<in> set (first_ids j_id (job_lapsed (sclock db)) lease_end n (sjobs db))"
  from first_ids_unique [OF ids z] show "claimable z \<Longrightarrow> False"
    by (simp add: job_lapsed_def claimable_def CLAIMABLE_SYNC_JOB_STATUSES_def)
  show "sclock db \<le> job_due_at (release_job (sclock db) z)" by (simp add: release_job_def job_due_at_def)
qed

lemma jammed_enqueue:
  assumes j: "jammed limit x y db" and ids: "distinct (map j_id (sjobs db))"
  shows "jammed limit x y (db\<lparr>sjobs := snd (enqueueIfAbsent (sclock db) inp (sjobs db))\<rparr>)"
proof (cases "find (\<lambda>j. occupies j \<and> job_slot j = slot_of (es_channel inp) (es_kind inp) (es_target inp)) (sjobs db)")
  case None
  let ?new = "fresh_job (fresh_id (map j_id (sjobs db))) (sclock db) inp"
  have "fst (max (job_order x) (job_order y)) < sclock db"
    using j by (auto simp: jammed_def waiting_def job_order_def max_def)
  then have "\<not> job_order ?new \<le> max (job_order x) (job_order y)"
    by (auto simp: job_order_def less_eq_prod_def fresh_job_def job_due_at_def)
  then show ?thesis using j None by (auto simp: enqueueIfAbsent_def jammed_def waiting_def)
next
  case (Some k)
  then have k: "k \<in> set (sjobs db)" by (auto dest: find_Some_iff_mem)
  have "jammed limit x y (db\<lparr>sjobs := update_where (\<lambda>z. j_id z = j_id k) (revive_job (sclock db) inp) (sjobs db)\<rparr>)"
    if p: "j_status k = JobPaused"
  proof (rule jammed_update [OF j])
    fix z assume z: "z \<in> set (sjobs db)" "j_id z = j_id k"
    then have "z = k" using k distinct_map_eq [OF ids] by metis
    then show "claimable z \<Longrightarrow> False" using p by (simp add: claimable_def CLAIMABLE_SYNC_JOB_STATUSES_def)
    show "sclock db \<le> job_due_at (revive_job (sclock db) inp z)" by (simp add: revive_job_def job_due_at_def)
  qed
  then show ?thesis using j Some by (simp add: enqueueIfAbsent_def)
qed

lemma jammed_delete:
  assumes j: "jammed limit x y db" and ids: "distinct (map j_id (sjobs db))"
  shows "jammed limit x y (db\<lparr>sjobs := deleteSettledJobs cutoff n (sjobs db)\<rparr>)"
proof -
  let ?old = "\<lambda>j. \<not> j_deleted j \<and> j_status j \<in> {JobCompleted, JobCancelled} \<and> j_created j < cutoff"
  let ?ids = "first_ids j_id ?old j_created n (sjobs db)"
  have stay: "waiting (sclock db) (sjobs db) z \<Longrightarrow> j_id z \<notin> set ?ids" for z
    using first_ids_unique [OF ids, of z ?old j_created n] by (auto simp: waiting_def live_simps)
  have "length (filter Q (filter P xs)) \<le> length (filter Q xs)" for P Q and xs :: "sync_job list"
    by (induction xs) auto
  then have le: "length (filter Q (deleteSettledJobs cutoff n (sjobs db))) \<le> length (filter Q (sjobs db))" for Q
    by (simp only: deleteSettledJobs_def delete_rows_def Let_def)
  from le [of "\<lambda>z. claimable z \<and> job_order z \<le> max (job_order x) (job_order y)"]
  show ?thesis using j stay [of x] stay [of y]
    by (simp add: jammed_def waiting_def deleteSettledJobs_def delete_rows_def Let_def)
qed

lemma jammed_step:
  assumes "sync_step limit db db'" and "jammed limit x y db" and "jobs_ok (sjobs db)"
  shows "jammed limit x y db'"
  using assms
proof (induction rule: sync_step.induct)
  case (time_passes db t)
  then show ?case by (auto simp: jammed_def waiting_def)
next
  case (channels_change db cs)
  then show ?case by (simp add: jammed_def)
next
  case (enqueued db inp created js)
  then show ?case using jammed_enqueue [of limit x y db inp] by (simp add: jobs_ok_def)
next
  case (claimed owner secs db batch js)
  then show ?case using jammed_claim_fails [of limit x y db owner secs] by simp
next
  case (extended i owner secs db held js)
  then show ?case using jammed_extend [of limit x y db i owner secs] by simp
next
  case (saved i owner cursor n secs db held js)
  then show ?case using jammed_save [of limit x y db i owner cursor n secs] by simp
qed (simp_all add: jammed_marks jammed_reap jammed_delete jobs_ok_def)

lemma jammed_run:
  assumes "(sync_step limit)\<^sup>*\<^sup>* db db'" and "jammed limit x y db" and "jobs_ok (sjobs db)"
  shows "jammed limit x y db' \<and> jobs_ok (sjobs db')"
  using assms by (induction rule: rtranclp_induct) (auto intro: jammed_step jobs_ok_step)



text \<open>How one gets there: a resync fails, is asked for again while it waits for its retry, and the second one
  is parked by a rate limit.\<close>

definition demo_request :: EnqueueSyncInput where
  "demo_request = \<lparr> es_enterprise = 1, es_channel = 7, es_kind = ResyncConversation, es_trigger = Manual,
     es_target = Some ''u'' \<rparr>"

definition demo_asked :: "unit sync_db" where
  "demo_asked = (no_jobs [])\<lparr>sjobs := snd (enqueueIfAbsent 0 demo_request [])\<rparr>"

definition demo_taken :: "unit sync_db \<Rightarrow> unit sync_db" where
  "demo_taken db = (case claimSyncBatch ''w'' 10 60 (sclock db) (sjobs db) of Inl e \<Rightarrow> db | Inr (c, js) \<Rightarrow> db\<lparr>sjobs := js\<rparr>)"

definition demo_job_failed :: "unit sync_db" where
  "demo_job_failed = (let db = demo_taken demo_asked in db\<lparr>sjobs := markSyncFailed 1 ''w'' ''timeout'' (Some 1000) 0 (sjobs db)\<rparr>)"

definition demo_again :: "unit sync_db" where
  "demo_again = (let db = demo_job_failed\<lparr>sclock := 500\<rparr> in db\<lparr>sjobs := snd (enqueueIfAbsent 500 demo_request (sjobs db))\<rparr>)"

definition demo_jam :: "unit sync_db" where
  "demo_jam = (let db = demo_taken demo_again
     in db\<lparr>sjobs := markSyncRateLimited 2 ''w'' (500 + SYNC_RATE_LIMIT_PARK_MS) ''limit'' (sjobs db), sclock := 900501\<rparr>)"

lemma demo_taken_step:
  assumes "sync_reach 10 db"
  shows "sync_reach 10 (demo_taken db)"
  using assms sync_step.claimed [of "''w''" 10 60 db]
  by (auto simp: demo_taken_def sync_reach_def split: sum.split intro: rtranclp.rtrancl_into_rtrancl)

lemma enqueue_step: "sync_step n db (db\<lparr>sjobs := snd (enqueueIfAbsent (sclock db) inp (sjobs db))\<rparr>)"
  by (rule sync_step.enqueued) (rule prod.collapse [symmetric])

lemma sync_reach_step: "sync_reach n db \<Longrightarrow> sync_step n db db' \<Longrightarrow> sync_reach n db'"
  unfolding sync_reach_def by (blast intro: rtranclp.rtrancl_into_rtrancl)

lemma demo_clocks: "sclock demo_asked = 0" "sclock (demo_taken demo_asked) = 0" "sclock demo_job_failed = 0"
  "sclock demo_again = 500" "sclock (demo_taken demo_again) = 500"
  by code_simp+

lemma demo_jam_reached: "sync_reach 10 demo_jam"
proof -
  have 0: "sync_reach 10 (no_jobs [] :: unit sync_db)" by (auto simp: sync_reach_def)
  then have 1: "sync_reach 10 demo_asked"
    unfolding demo_asked_def using sync_reach_step [OF 0 enqueue_step, of demo_request] by (simp add: no_jobs_def)
  have 2: "sync_reach 10 demo_job_failed"
    unfolding demo_job_failed_def Let_def
    by (rule sync_reach_step [OF demo_taken_step [OF 1]])
      (use sync_step.failed [of "Some 1000" "demo_taken demo_asked"] demo_clocks(2) in simp)
  have 3: "sync_reach 10 (demo_job_failed\<lparr>sclock := 500\<rparr>)"
    by (rule sync_reach_step [OF 2]) (rule sync_step.time_passes, simp add: demo_clocks)
  have 4: "sync_reach 10 demo_again"
    unfolding demo_again_def Let_def
    using sync_reach_step [OF 3 enqueue_step, of demo_request] by simp
  have 5: "sync_reach 10 ((demo_taken demo_again)\<lparr>sjobs := markSyncRateLimited 2 ''w'' (500 + SYNC_RATE_LIMIT_PARK_MS) ''limit'' (sjobs (demo_taken demo_again))\<rparr>)"
    by (rule sync_reach_step [OF demo_taken_step [OF 4]])
      (rule sync_step.limited, simp add: demo_clocks SYNC_RATE_LIMIT_PARK_MS_def)
  show ?thesis unfolding demo_jam_def Let_def
    by (rule sync_reach_step [OF 5]) (rule sync_step.time_passes, simp add: demo_clocks)
qed

theorem one_live_job_per_slot_witness:
  "distinct (map job_slot (filter (\<lambda>j. j_status j \<in> set LIVE_SYNC_JOB_STATUSES) (sjobs demo_jam))) \<and> length (sjobs demo_jam) = 2"
proof
  show "distinct (map job_slot (filter (\<lambda>j. j_status j \<in> set LIVE_SYNC_JOB_STATUSES) (sjobs demo_jam)))"
    using one_live_job_per_slot [OF demo_jam_reached] by simp
qed code_simp

lemma demo_jammed: "jammed 10 (sjobs demo_jam ! 0) (sjobs demo_jam ! 1) demo_jam"
  unfolding jammed_def waiting_def by code_simp

definition demo_sync_env :: "unit sync_env" where
  "demo_sync_env = \<lparr> sy_pressure = 0, sy_draw = 0, sy_decrypt = Some,
     sy_read = (\<lambda>r job ctx token cursor db. (Inr \<lparr> sl_items = 0, sl_next = None, sl_finished = True \<rparr>, db)),
     sy_refresh = (\<lambda>job ctx token db. (Inr (), db)) \<rparr>"


text \<open>Nothing else stops a claim: one fails only because a due \<open>failed\<close> row shares its slot with a row that
  is live, or with another due one.\<close>

theorem claim_fails_on_failed_twin:
  assumes "sync_reach limit db" and "claimSyncBatch owner n secs (sclock db) (sjobs db) = Inl e"
  shows "\<exists>j \<in> set (sjobs db). \<exists>k \<in> set (sjobs db). j_id j \<noteq> j_id k \<and> job_slot j = job_slot k
    \<and> j_status j = JobFailed \<and> job_due (sclock db) j \<and> (occupies k \<or> job_due (sclock db) k)"
proof (rule ccontr)
  assume no: "\<not> ?thesis"
  let ?now = "sclock db" and ?js = "sjobs db"
  let ?g = "grab_job owner ?now (?now + secs * 1000)"
  let ?ids = "first_ids j_id (job_due ?now) job_order n ?js"
  let ?f = "\<lambda>j. if j_id j \<in> set ?ids then ?g j else j"
  note ok = reach_ok [OF assms(1)]
  have ids: "distinct (map j_id ?js)" and u: "live_uniq ?js" using ok by (auto simp: jobs_ok_def)
  have slot: "job_slot (?f j) = job_slot j" for j by (simp add: grab_job_def)
  have live: "occupies j \<or> j_status j = JobFailed \<and> job_due ?now j" if "j \<in> set ?js" "occupies (?f j)" for j
    using first_ids_unique [OF ids that(1), of "job_due ?now" job_order n] that(2)
    by (auto simp: job_due_def live_simps split: if_splits)
  have one: "j = k" if jk: "j \<in> set ?js" "k \<in> set ?js" "occupies (?f j)" "occupies (?f k)" "job_slot j = job_slot k" for j k
  proof (rule ccontr)
    assume "j \<noteq> k"
    then have "j_id j \<noteq> j_id k" using distinct_map_eq [OF ids] jk(1,2) by metis
    moreover have "\<not> (occupies j \<and> occupies k)" using not_live_uniq jk u \<open>j \<noteq> k\<close> by metis
    ultimately show False using no live [OF jk(1,3)] live [OF jk(2,4)] jk(1,2,5) by metis
  qed
  have "j_id (?f j) = j_id j" for j by (simp add: grab_job_def)
  then have "map j_id (map ?f ?js) = map j_id ?js" by simp
  with ids have "distinct (map j_id (map ?f ?js))" by (simp only:)
  then have d: "distinct (map ?f ?js)" by (rule distinct_map [THEN iffD1, THEN conjunct1])
  have "live_uniq (map ?f ?js)"
  proof (rule live_uniqI [OF d])
    fix a b assume ab: "a \<in> set (map ?f ?js)" "b \<in> set (map ?f ?js)" "occupies a" "occupies b" "job_slot a = job_slot b"
    obtain j where j: "j \<in> set ?js" "a = ?f j" using ab(1) unfolding set_map by (elim imageE)
    obtain k where k: "k \<in> set ?js" "b = ?f k" using ab(2) unfolding set_map by (elim imageE)
    have "j = k" using ab(3-5) j k by (intro one) (simp_all only: slot)
    then show "a = b" using j k by simp
  qed
  then show False using assms(2) by (simp add: claimSyncBatch_def Let_def claim_rows_def update_where_def split: if_splits)
qed

text \<open>The witness: the resync that failed and the one that is parked, one millisecond after the first came due.\<close>

theorem claim_fails_on_failed_twin_witness:
  "\<exists>j \<in> set (sjobs demo_jam). \<exists>k \<in> set (sjobs demo_jam). j_id j \<noteq> j_id k \<and> job_slot j = job_slot k
    \<and> j_status j = JobFailed \<and> job_due (sclock demo_jam) j \<and> (occupies k \<or> job_due (sclock demo_jam) k)"
  by (rule claim_fails_on_failed_twin [OF demo_jam_reached jammed_claim_fails [OF demo_jammed]])

section \<open>What a run banks\<close>

text \<open>A history is a list of pages, each with so many new items; the cursor names the next page. Reading changes
  nothing in the table.\<close>

definition reads_history :: "'a sync_env \<Rightarrow> (nat \<Rightarrow> string option) \<Rightarrow> int list \<Rightarrow> bool" where
  "reads_history env cur pages \<longleftrightarrow> (\<forall>r job ctx token db k. k < length pages \<longrightarrow>
     sy_read env r job ctx token (cur k) db =
       (Inr \<lparr> sl_items = pages ! k, sl_next = cur (k + 1), sl_finished = (k + 1 = length pages) \<rparr>, db))"

definition progressed :: "string option \<Rightarrow> int \<Rightarrow> int \<Rightarrow> sync_job \<Rightarrow> sync_job" where
  "progressed cursor added expires j =
     j\<lparr>j_cursor := cursor, j_items := j_items j + added, j_attempts := 0, j_lease_expires := Some expires\<rparr>"

lemma saveProgress_held:
  assumes "j \<in> set js" and "held_by i owner j" and "j_status j = JobRunning"
  shows "saveProgress i owner cursor n secs now js
    = (True, update_where (\<lambda>j. held_by i owner j \<and> j_status j = JobRunning) (progressed cursor n (now + secs * 1000)) js)"
  using assms by (auto simp: saveProgress_def Let_def progressed_def [abs_def] list_ex_iff)

text \<open>The held row after some pages, and after the run.\<close>

abbreviation held_running :: "int \<Rightarrow> string \<Rightarrow> sync_job \<Rightarrow> bool" where
  "held_running i owner \<equiv> (\<lambda>j. held_by i owner j \<and> j_status j = JobRunning)"

lemma held_progressed [simp]:
  "held_by i owner (progressed c n t j) = held_by i owner j" "j_status (progressed c n t j) = j_status j"
  by (simp_all add: held_by_def progressed_def)

lemma progressed_twice: "progressed c n t (progressed c' n' t' j) = progressed c (n' + n) t j"
  by (simp add: progressed_def)

lemma update_where_twice:
  assumes "\<And>x. P x \<Longrightarrow> P (f x)"
  shows "update_where P g (update_where P f xs) = update_where P (\<lambda>x. g (f x)) xs"
  using assms by (auto simp: update_where_def)

lemma walk_history:
  assumes h: "reads_history env cur pages" and "page_route (j_kind job) ctx \<noteq> NothingToRead"
    and "j \<in> set (sjobs db)" "held_running (j_id job) owner j" and "k < length pages"
  shows "walk env owner secs job ctx token n (cur k) db =
    (if k + n < length pages
     then (Inr \<lparr> sl_items = 0, sl_next = cur (k + n), sl_finished = False \<rparr>,
           if n = 0 then db else db\<lparr>sjobs := update_where (held_running (j_id job) owner)
             (progressed (cur (k + n)) (sum_list (take n (drop k pages))) (sclock db + secs * 1000)) (sjobs db)\<rparr>)
     else (Inr \<lparr> sl_items = last pages, sl_next = None, sl_finished = True \<rparr>,
           if k + 1 = length pages then db else db\<lparr>sjobs := update_where (held_running (j_id job) owner)
             (progressed (cur (length pages - 1)) (sum_list (butlast (drop k pages))) (sclock db + secs * 1000)) (sjobs db)\<rparr>))"
  using assms(3-5)
proof (induction n arbitrary: k db j)
  case (Suc n)
  let ?hit = "held_running (j_id job) owner"
  have read: "page env job ctx token (cur k) db
      = (Inr \<lparr> sl_items = pages ! k, sl_next = cur (Suc k), sl_finished = (k + 1 = length pages) \<rparr>, db)"
    using h Suc.prems(3) assms(2) by (simp add: page_def reads_history_def split: walk_route.split)
  show ?case
  proof (cases "k + 1 = length pages")
    case True
    then have "last pages = pages ! k" using Suc.prems(3) by (metis add_diff_cancel_right' last_conv_nth list.size(3) not_less0)
    with True show ?thesis by (simp add: read)
  next
    case False
    let ?t = "sclock db + secs * 1000"
    let ?js = "update_where ?hit (progressed (cur (Suc k)) (pages ! k) ?t) (sjobs db)"
    let ?db = "db\<lparr>sjobs := ?js\<rparr>"
    have s: "saveProgress (j_id job) owner (cur (Suc k)) (pages ! k) secs (sclock db) (sjobs db) = (True, ?js)"
      using saveProgress_held Suc.prems(1,2) by blast
    have next_page: "walk env owner secs job ctx token (Suc n) (cur k) db = walk env owner secs job ctx token n (cur (Suc k)) ?db"
      using False by (simp add: read s)
    have row: "progressed (cur (Suc k)) (pages ! k) ?t j \<in> set (sjobs ?db)"
      using Suc.prems(1,2) by (force simp: set_update_where)
    have d: "drop k pages = pages ! k # drop (Suc k) pages" using Suc.prems(3) by (simp add: Cons_nth_drop_Suc)
    have "drop (Suc k) pages \<noteq> []" using False Suc.prems(3) by simp
    note sums = d this
    have twice: "update_where ?hit (progressed c m ?t) ?js = update_where ?hit (progressed c (pages ! k + m) ?t) (sjobs db)" for c m
      by (simp add: update_where_twice progressed_twice)
    note ih = Suc.IH [OF row, of "Suc k"]
    have end_one: "butlast (drop (Suc k) pages) = []" "length pages - 1 = Suc k" if "Suc (Suc k) = length pages"
    proof -
      have "length (butlast (drop (Suc k) pages)) = 0" using that by simp
      then show "butlast (drop (Suc k) pages) = []" by (simp only: length_0_conv)
      show "length pages - 1 = Suc k" using that by simp
    qed
    show ?thesis unfolding next_page
      using ih False Suc.prems sums(2) end_one
      by (auto simp: twice sums(1) Suc_lessI)
  qed
qed simp


lemma sum_history: "k < length pages \<Longrightarrow> sum_list (butlast (drop k pages)) + last pages = sum_list (drop k (pages :: int list))"
proof -
  assume k: "k < length pages"
  then have "drop k pages \<noteq> []" and "last (drop k pages) = last pages" by simp_all
  then have "drop k pages = butlast (drop k pages) @ [last pages]" by (metis append_butlast_last_id)
  then show ?thesis by (metis sum_list.append sum_list.Cons sum_list.Nil add.right_neutral)
qed

lemma one_page: "Suc k = length pages \<Longrightarrow> butlast (drop k pages) = []"
proof -
  assume "Suc k = length pages"
  then have "length (butlast (drop k pages)) = 0" by simp
  then show "butlast (drop k pages) = []" by (simp only: length_0_conv)
qed

lemma row_after: "x \<in> set js \<Longrightarrow> (if P x then f x else x) \<in> set (update_where P f js)"
  by (auto simp: set_update_where)

lemma completes:
  assumes "b \<in> set bs" and "held_by i owner b"
  shows "\<exists>j'. j' \<in> set (markSyncCompleted i owner n t bs) \<and> j_id j' = j_id b \<and> j_status j' = JobCompleted
    \<and> j_lease_owner j' = None \<and> j_items j' = j_items b + n"
  using row_after [OF assms(1), of "held_by i owner"] assms(2) unfolding markSyncCompleted_def
  by (intro exI [of _ "b\<lparr>j_status := JobCompleted, j_items := j_items b + n, j_completed := Some t, j_lease_owner := None,
    j_lease_expires := None, j_next_attempt := None, j_last_error := None\<rparr>"]) simp


definition demo_pages :: "nat \<Rightarrow> string option" where
  "demo_pages k = (if k = 0 then None else Some (replicate k CHR ''c''))"

definition demo_history_env :: "unit sync_env" where
  "demo_history_env = demo_sync_env\<lparr>sy_read := (\<lambda>r job ctx token cursor db.
     (let k = (case cursor of None \<Rightarrow> 0 | Some c \<Rightarrow> length c)
      in (Inr \<lparr> sl_items = [3, 2, 4] ! k, sl_next = demo_pages (Suc k), sl_finished = (Suc k = 3) \<rparr>, db)))\<rparr>"

definition demo_walk :: "unit sync_db" where
  "demo_walk = demo_taken ((no_jobs [\<lparr> ch_id = 7, ch_enterprise = 1, ch_connection = 1, ch_parent = None,
       ch_platform = Facebook, ch_platform_id = ''page'', ch_token = Some ''t'', ch_token_status = TokenValid,
       ch_reauth = False, ch_managed = True, ch_deleted = False, ch_status = ChannelActive \<rparr>])
     \<lparr>sjobs := snd (enqueueIfAbsent 0 demo_request [])\<rparr>)"

lemma demo_walk_reached: "sync_reach 10 demo_walk"
  unfolding demo_walk_def
proof (rule demo_taken_step)
  have "sync_reach 10 (no_jobs cs :: unit sync_db)" for cs by (auto simp: sync_reach_def)
  from sync_reach_step [OF this enqueue_step, of _ demo_request]
  show "sync_reach 10 ((no_jobs cs)\<lparr>sjobs := snd (enqueueIfAbsent 0 demo_request [])\<rparr> :: unit sync_db)" for cs
    by (simp add: no_jobs_def)
qed



section \<open>Leases that moved on\<close>

definition quiet :: "'a sync_env \<Rightarrow> bool" where
  "quiet env \<longleftrightarrow> (\<forall>r job ctx token cursor db. snd (sy_read env r job ctx token cursor db) = db)
     \<and> (\<forall>job ctx token db. snd (sy_refresh env job ctx token db) = db)"

definition not_held :: "int \<Rightarrow> string \<Rightarrow> sync_job list \<Rightarrow> bool" where
  "not_held i owner js \<longleftrightarrow> (\<forall>j \<in> set js. \<not> held_by i owner j)"

lemma not_held_same:
  assumes "not_held i owner js"
  shows "markSyncCompleted i owner n now js = js" "markSyncFailed i owner err next now js = js"
    "markSyncRateLimited i owner until err js = js" "markSyncPaused i owner err js = js"
    "saveProgress i owner c n secs now js = (False, js)"
  using assms unfolding mark_defs saveProgress_def Let_def not_held_def
  by (auto simp: list_ex_iff intro!: update_where_none)

lemma not_held_handleFailure: "not_held (j_id job) owner (sjobs db) \<Longrightarrow> handleFailure env owner job f db = db"
  by (auto simp: handleFailure_def Let_def not_held_same split: send_failure.split)

lemma not_held_walk:
  assumes q: "quiet env" and n: "not_held (j_id job) owner (sjobs db)"
  shows "snd (walk env owner secs job ctx token pages cursor db) = db"
proof (cases pages)
  case (Suc m)
  have "snd (page env job ctx token cursor db) = db"
    using q by (auto simp: page_def quiet_def split: walk_route.split)
  then obtain r where p: "page env job ctx token cursor db = (r, db)" by (metis prod.collapse)
  show ?thesis by (cases r) (simp_all add: Suc p not_held_same [OF n])
qed simp

text \<open>A worker whose lease on a job has moved on changes nothing by running it: neither the new owner's
  progress nor the job's state, whether its reads succeed or fail.\<close>

theorem lapsed_worker_changes_nothing:
  assumes "quiet env" and "\<forall>j \<in> set (sjobs db). j_id j = j_id job \<longrightarrow> j_lease_owner j \<noteq> Some owner"
  shows "runJob env owner secs job db = db"
proof -
  have n: "not_held (j_id job) owner (sjobs db)" using assms(2) by (auto simp: not_held_def held_by_def)
  have read: "snd (sy_refresh env job ctx token db) = db" for ctx token using assms(1) by (simp add: quiet_def)
  show ?thesis
  proof (cases "pause_reason env job db")
    case (Inr x)
    obtain ctx token where x: "x = (ctx, token)" by fastforce
    obtain r where w: "walk env owner secs job ctx token SYNC_MAX_PAGES_PER_RUN (j_cursor job) db = (r, db)"
      using not_held_walk [OF assms(1) n] by (metis prod.collapse)
    obtain q where f: "sy_refresh env job ctx token db = (q, db)" using read by (metis prod.collapse)
    show ?thesis
      by (simp add: runJob_def Inr x w f not_held_same [OF n] not_held_handleFailure [OF n] split: sum.split)
  qed (simp add: runJob_def not_held_same [OF n])
qed

theorem lapsed_worker_changes_nothing_witness:
  "runJob demo_history_env ''late'' 60 (hd (sjobs demo_walk)) demo_walk = demo_walk"
proof (rule lapsed_worker_changes_nothing)
  show "quiet demo_history_env" by (simp add: quiet_def demo_history_env_def demo_sync_env_def Let_def)
  show "\<forall>j \<in> set (sjobs demo_walk). j_id j = j_id (hd (sjobs demo_walk)) \<longrightarrow> j_lease_owner j \<noteq> Some ''late''"
    by code_simp
qed

text \<open>A job whose worker died comes back: once its lease is over, a reaper whose batch holds every lapsed lease
  makes it due at once, with the cursor and the count of the last page that was saved.\<close>

theorem dead_workers_jobs_return:
  assumes "sync_reach limit db" and j: "j \<in> set (sjobs db)" "job_lapsed (sclock db) j"
    and batch: "length (filter (job_lapsed (sclock db)) (sjobs db)) \<le> n"
  shows "\<exists>j' \<in> set (reclaimJobLeases n (sclock db) (sjobs db)). j_id j' = j_id j \<and> job_due (sclock db) j'
    \<and> j_cursor j' = j_cursor j \<and> j_items j' = j_items j \<and> j_lease_owner j' = None"
proof -
  have hit: "j_id j \<in> set (first_ids j_id (job_lapsed (sclock db)) lease_end n (sjobs db))"
  proof (rule first_ids_within)
    show "j \<in> set (sjobs db)" and "job_lapsed (sclock db) j" by (rule j)+
    have "length (filter (\<lambda>z. job_lapsed (sclock db) z \<and> lease_end z \<le> lease_end j) (sjobs db))
        \<le> length (filter (job_lapsed (sclock db)) (sjobs db))"
      by (rule length_filter_mono) simp
    with batch show "length (filter (\<lambda>z. job_lapsed (sclock db) z \<and> lease_end z \<le> lease_end j) (sjobs db)) \<le> n" by simp
  qed
  have "\<not> j_deleted j" using jobs_ok_row [OF reach_ok [OF assms(1)] j(1)] by (simp add: job_lease_ok_def)
  then have "job_due (sclock db) (release_job (sclock db) j)"
    by (simp add: job_due_def release_job_def job_due_at_def live_simps)
  moreover have "release_job (sclock db) j \<in> set (reclaimJobLeases n (sclock db) (sjobs db))"
    using row_after [OF j(1), of "\<lambda>j. j_id j \<in> set (first_ids j_id (job_lapsed (sclock db)) lease_end n (sjobs db))"] hit
    by (simp add: reclaimJobLeases_def claim_rows_def Let_def)
  ultimately show ?thesis by (intro bexI) (auto simp: release_job_def)
qed

theorem dead_workers_jobs_return_witness:
  "\<exists>j' \<in> set (reclaimJobLeases 200 60001 (sjobs demo_walk)). j_id j' = 1 \<and> job_due 60001 j' \<and> j_cursor j' = None"
proof -
  have "sync_reach 10 (demo_walk\<lparr>sclock := 60001\<rparr>)"
    by (rule sync_reach_step [OF demo_walk_reached], rule sync_step.time_passes) code_simp
  note dead_workers_jobs_return [OF this, of "hd (sjobs demo_walk)" 200]
  moreover have "hd (sjobs demo_walk) \<in> set (sjobs demo_walk)" by code_simp
  moreover have "job_lapsed 60001 (hd (sjobs demo_walk))" by code_simp
  moreover have "length (filter (job_lapsed 60001) (sjobs demo_walk)) \<le> 200" by code_simp
  moreover have "j_id (hd (sjobs demo_walk)) = 1" "j_cursor (hd (sjobs demo_walk)) = None" by code_simp+
  ultimately show ?thesis by auto
qed

end
