(* ===== verification/Inbox_Normalize.thy ===== *)
theory Inbox_Normalize
  imports Outbox_Reconcile Rbac_Authority Reward_Types
begin

text \<open>
  What the platforms deliver, read into one shape (\<open>modules/inbox/comment-normalizer.ts\<close>,
  \<open>attachment-normalizer.ts\<close>, the readers of \<open>direct-message-projector.service.ts\<close> and
  \<open>post-projector.service.ts\<close>), and what a thread's reply window allows
  (\<open>modules/inbox/reply-window.ts\<close>).

  A payload is cast to an interface whose every field is optional, so it is a record of options
  here; a nested object that is absent is the same as one whose fields all are. A field that the
  code tests for truth is tested with \<open>truthy_text\<close>, one it tests with \<open>??\<close> by a case on the option.
  The host's text normalization, date and URL parsing are the record \<open>platform_host\<close>. A media type
  is looked up in a plain object; the names every object inherits (\<open>constructor\<close>, \<open>__proto__\<close>) are
  left out.
\<close>

record platform_host =
  normalizeText :: "string \<Rightarrow> string"
  parse_instant :: "string \<Rightarrow> int option"
  iso_text :: "int \<Rightarrow> string"
  url_host :: "string \<Rightarrow> string option"
  url_path :: "string \<Rightarrow> string"
  url_query :: "string \<Rightarrow> string \<Rightarrow> string option"

definition normalizeOptionalText :: "platform_host \<Rightarrow> string option \<Rightarrow> string option" where
  "normalizeOptionalText h v =
     (case v of None \<Rightarrow> None | Some s \<Rightarrow> let n = normalizeText h s in if n = [] then None else Some n)"

text \<open>\<open>{ ...(truthy ? { key: value } : {}) }\<close>.\<close>

definition field_if :: "string \<Rightarrow> string option \<Rightarrow> config" where
  "field_if key v = (if truthy_text v then [(key, JStr (text_of v))] else [])"

section \<open>Comments\<close>

datatype IdentifierKind =
  EmailIdentifier | MobileIdentifier | InstagramUserId | InstagramUsername | FacebookUserId | WhatsAppNumber | ExternalRef

datatype MentionKind = CaptionMention | CommentMention | TaggedMention

fun mention_kind_text :: "MentionKind \<Rightarrow> string" where
  "mention_kind_text CaptionMention = ''caption''"
| "mention_kind_text CommentMention = ''comment''"
| "mention_kind_text TaggedMention = ''tagged''"

record facebook_comment =
  fc_item :: "string option"
  fc_verb :: "string option"
  fc_comment_id :: "string option"
  fc_parent_id :: "string option"
  fc_post_id :: "string option"
  fc_message :: "string option"
  fc_created_time :: "int option"
  fc_from_id :: "string option"
  fc_from_name :: "string option"

datatype instagram_time = TimeNumber int | TimeText string

text \<open>\<open>ic_text\<close> is \<open>None\<close> when the payload has no such key, which is not the same as a null there.\<close>

record instagram_comment =
  ic_id :: "string option"
  ic_text :: "string option option"
  ic_parent_id :: "string option"
  ic_timestamp :: "instagram_time option"
  ic_media_id :: "string option"
  ic_product_type :: "string option"
  ic_from_id :: "string option"
  ic_from_username :: "string option"
  ic_self_scoped_id :: "string option"
  ic_username :: "string option"
  ic_verb :: "string option"

record CanonicalComment =
  cc_comment :: string
  cc_root :: string
  cc_parent :: "string option"
  cc_post :: "string option"
  cc_text :: "string option"
  cc_created :: "int option"
  cc_author :: string
  cc_author_name :: "string option"
  cc_author_handle :: "string option"
  cc_author_kind :: "IdentifierKind option"
  cc_metadata :: "config option"

datatype ModerationAction = ModEdited | ModRemoved | ModHidden | ModUnhidden

record CommentModeration =
  cm_comment :: string
  cm_action :: ModerationAction
  cm_text :: "string option"

datatype NormalizedComment = NComment CanonicalComment | NModeration CommentModeration | NSkip string

definition moderationAction :: "string option \<Rightarrow> ModerationAction option" where
  "moderationAction verb =
     (if verb \<in> {Some ''edited'', Some ''edit''} then Some ModEdited
      else if verb \<in> {Some ''remove'', Some ''removed''} then Some ModRemoved
      else if verb = Some ''hide'' then Some ModHidden
      else if verb = Some ''unhide'' then Some ModUnhidden
      else None)"

definition unix_seconds :: "int option \<Rightarrow> int option" where
  "unix_seconds t = (case t of None \<Rightarrow> None | Some n \<Rightarrow> if n = 0 then None else Some (n * 1000))"

definition normalizeFacebook :: "facebook_comment \<Rightarrow> NormalizedComment" where
  "normalizeFacebook v =
     (if fc_item v \<noteq> Some ''comment'' \<or> \<not> truthy_text (fc_comment_id v)
      then NSkip (''not a comment (item=\"'' @ (case fc_item v of None \<Rightarrow> ''none'' | Some i \<Rightarrow> i) @ ''\")'')
      else let comment = text_of (fc_comment_id v) in
        case moderationAction (fc_verb v) of
          Some a \<Rightarrow> NModeration \<lparr> cm_comment = comment, cm_action = a, cm_text = fc_message v \<rparr>
        | None \<Rightarrow>
            if \<not> truthy_text (fc_from_id v) then NSkip ''the comment names no author''
            else let parent = (if truthy_text (fc_parent_id v) \<and> fc_parent_id v \<noteq> fc_post_id v then fc_parent_id v else None)
              in NComment \<lparr> cc_comment = comment,
                   cc_root = (case parent of None \<Rightarrow> comment | Some p \<Rightarrow> p), cc_parent = parent,
                   cc_post = fc_post_id v, cc_text = fc_message v, cc_created = unix_seconds (fc_created_time v),
                   cc_author = text_of (fc_from_id v), cc_author_name = fc_from_name v, cc_author_handle = None,
                   cc_author_kind = None, cc_metadata = None \<rparr>)"

definition parseInstagramTimestamp :: "platform_host \<Rightarrow> instagram_time option \<Rightarrow> int option" where
  "parseInstagramTimestamp h t =
     (case t of None \<Rightarrow> None
      | Some (TimeNumber n) \<Rightarrow> Some (n * 1000)
      | Some (TimeText s) \<Rightarrow> if s = [] then None else parse_instant h s)"

definition orElse :: "'a option \<Rightarrow> 'a option \<Rightarrow> 'a option" where
  "orElse a b = (case a of None \<Rightarrow> b | Some x \<Rightarrow> Some x)"

definition normalizeInstagram :: "platform_host \<Rightarrow> instagram_comment \<Rightarrow> NormalizedComment" where
  "normalizeInstagram h v =
     (if \<not> truthy_text (ic_id v) then NSkip ''the instagram comment carries no id''
      else let comment = text_of (ic_id v); txt = (case ic_text v of None \<Rightarrow> None | Some t \<Rightarrow> t) in
        case moderationAction (ic_verb v) of
          Some a \<Rightarrow> NModeration \<lparr> cm_comment = comment, cm_action = a, cm_text = txt \<rparr>
        | None \<Rightarrow>
            if \<not> truthy_text (ic_from_id v) then NSkip ''the instagram comment names no author id''
            else let facts = (if ic_text v = None then [(''platformSentNoText'', JBool True)] else [])
                    @ field_if ''postProductType'' (ic_product_type v)
                    @ field_if ''authorSelfScopedId'' (ic_self_scoped_id v);
                  name = orElse (ic_from_username v) (ic_username v)
              in NComment \<lparr> cc_comment = comment,
                   cc_root = (case ic_parent_id v of None \<Rightarrow> comment | Some p \<Rightarrow> p), cc_parent = ic_parent_id v,
                   cc_post = ic_media_id v, cc_text = txt, cc_created = parseInstagramTimestamp h (ic_timestamp v),
                   cc_author = text_of (ic_from_id v), cc_author_name = name, cc_author_handle = name,
                   cc_author_kind = None, cc_metadata = (if facts = [] then None else Some facts) \<rparr>)"

datatype comment_payload = FacebookComment facebook_comment | InstagramComment instagram_comment

text \<open>The change is read by the channel's platform, not by its shape: the fields the other platform's
  reader looks for are absent.\<close>

definition no_facebook_comment :: facebook_comment where
  "no_facebook_comment = \<lparr> fc_item = None, fc_verb = None, fc_comment_id = None, fc_parent_id = None, fc_post_id = None,
     fc_message = None, fc_created_time = None, fc_from_id = None, fc_from_name = None \<rparr>"

definition no_instagram_comment :: instagram_comment where
  "no_instagram_comment = \<lparr> ic_id = None, ic_text = None, ic_parent_id = None, ic_timestamp = None, ic_media_id = None,
     ic_product_type = None, ic_from_id = None, ic_from_username = None, ic_self_scoped_id = None, ic_username = None,
     ic_verb = None \<rparr>"

definition normalizeComment :: "platform_host \<Rightarrow> Platform \<Rightarrow> comment_payload \<Rightarrow> NormalizedComment" where
  "normalizeComment h platform p =
     (if platform = Instagram
      then normalizeInstagram h (case p of InstagramComment v \<Rightarrow> v | _ \<Rightarrow> no_instagram_comment)
      else normalizeFacebook (case p of FacebookComment v \<Rightarrow> v | _ \<Rightarrow> no_facebook_comment))"

section \<open>Mentions\<close>

record facebook_mention =
  fm_verb :: "string option"
  fm_post_id :: "string option"
  fm_comment_id :: "string option"
  fm_sender_id :: "string option"
  fm_sender_name :: "string option"
  fm_message :: "string option"
  fm_created_time :: "int option"

record instagram_mention =
  im_media_id :: "string option"
  im_comment_id :: "string option"
  im_username :: "string option"
  im_caption :: "string option"
  im_permalink :: "string option"
  im_timestamp :: "string option"
  im_owner_username :: "string option"
  im_media :: "json option"
  im_kind :: "string option"
  im_replies :: "json list"
  im_parent :: "json option"
  im_parent_id :: "string option"
  im_like_count :: "int option"
  im_post_comments :: "json list"

datatype mention_payload = FacebookMention facebook_mention | InstagramMention instagram_mention

definition mention_metadata :: "platform_host \<Rightarrow> int \<Rightarrow> instagram_mention \<Rightarrow> config" where
  "mention_metadata h now v =
     field_if ''mentionedMediaId'' (im_media_id v)
     @ field_if ''mentionedCommentId'' (im_comment_id v)
     @ field_if ''postPermalink'' (im_permalink v)
     @ field_if ''postOwnerUsername'' (im_owner_username v)
     @ (case im_media v of None \<Rightarrow> [] | Some m \<Rightarrow> [(''postDetails'', m)])
     @ field_if ''mentionKind'' (im_kind v)
     @ (if im_replies v = [] then [] else [(''replyThread'', JArr (im_replies v))])
     @ (case im_parent v of None \<Rightarrow> [] | Some m \<Rightarrow> [(''mentionParent'', m)])
     @ field_if ''mentionParentId'' (im_parent_id v)
     @ (case im_like_count v of None \<Rightarrow> [] | Some n \<Rightarrow> [(''mentionLikeCount'', JNum n)])
     @ (if im_post_comments v = [] then []
        else [(''postComments'', JArr (im_post_comments v)), (''postCommentsReadAt'', JStr (iso_text h now))])"

definition normalizeInstagramMention :: "platform_host \<Rightarrow> int \<Rightarrow> instagram_mention \<Rightarrow> NormalizedComment" where
  "normalizeInstagramMention h now v =
     (let target = orElse (im_comment_id v) (im_media_id v) in
      if \<not> truthy_text target then NSkip ''the instagram mention names nothing''
      else if \<not> truthy_text (im_username v)
      then NSkip (''instagram mention '' @ text_of target
             @ '' carries no author - the webhook gives none, and only a /tags backfill can supply it'')
      else NComment \<lparr> cc_comment = text_of target, cc_root = text_of target, cc_parent = None, cc_post = im_media_id v,
             cc_text = normalizeOptionalText h (im_caption v),
             cc_created = parseInstagramTimestamp h (map_option TimeText (im_timestamp v)),
             cc_author = text_of (im_username v), cc_author_name = im_username v, cc_author_handle = im_username v,
             cc_author_kind = Some InstagramUsername, cc_metadata = Some (mention_metadata h now v) \<rparr>)"

definition normalizeFacebookMention :: "facebook_mention \<Rightarrow> NormalizedComment" where
  "normalizeFacebookMention v =
     (let mention = orElse (fm_comment_id v) (fm_post_id v) in
      if \<not> truthy_text mention then NSkip ''the mention names no post or comment''
      else case moderationAction (fm_verb v) of
          Some a \<Rightarrow> NModeration \<lparr> cm_comment = text_of mention, cm_action = a, cm_text = fm_message v \<rparr>
        | None \<Rightarrow>
            if \<not> truthy_text (fm_sender_id v) then NSkip ''the mention names no author''
            else NComment \<lparr> cc_comment = text_of mention, cc_root = text_of mention, cc_parent = None,
                   cc_post = fm_post_id v, cc_text = fm_message v, cc_created = unix_seconds (fm_created_time v),
                   cc_author = text_of (fm_sender_id v), cc_author_name = fm_sender_name v, cc_author_handle = None,
                   cc_author_kind = None, cc_metadata = None \<rparr>)"

definition no_facebook_mention :: facebook_mention where
  "no_facebook_mention = \<lparr> fm_verb = None, fm_post_id = None, fm_comment_id = None, fm_sender_id = None,
     fm_sender_name = None, fm_message = None, fm_created_time = None \<rparr>"

definition no_instagram_mention :: instagram_mention where
  "no_instagram_mention = \<lparr> im_media_id = None, im_comment_id = None, im_username = None, im_caption = None,
     im_permalink = None, im_timestamp = None, im_owner_username = None, im_media = None, im_kind = None, im_replies = [],
     im_parent = None, im_parent_id = None, im_like_count = None, im_post_comments = [] \<rparr>"

definition normalizeMention :: "platform_host \<Rightarrow> int \<Rightarrow> Platform \<Rightarrow> mention_payload \<Rightarrow> NormalizedComment" where
  "normalizeMention h now platform p =
     (if platform = Instagram
      then normalizeInstagramMention h now (case p of InstagramMention v \<Rightarrow> v
        | FacebookMention v \<Rightarrow> no_instagram_mention\<lparr>im_comment_id := fm_comment_id v\<rparr>)
      else normalizeFacebookMention (case p of FacebookMention v \<Rightarrow> v
        | InstagramMention v \<Rightarrow> no_facebook_mention\<lparr>fm_comment_id := im_comment_id v\<rparr>))"


section \<open>Attachments\<close>

datatype MediaKind = MediaImage | MediaVideo | MediaGif | MediaAudio | MediaDocument | MediaSticker

datatype MessageKind = KText | KImage | KVideo | KAudio | KSticker | KStoryReply | KFile

record platform_attachment =
  pa_type :: "string option"
  pa_url :: "string option"
  pa_story_url :: "string option"
  pa_story_id :: "string option"
  pa_sticker :: "string option"
  pa_title :: "string option"
  pa_mime :: "string option"
  pa_name :: "string option"
  pa_reel :: "string option"
  pa_post_media :: "string option"

record normalized_attachment =
  na_kind :: MediaKind
  na_url :: "string option"
  na_order :: nat
  na_metadata :: config

record normalized_media =
  nm_attachments :: "normalized_attachment list"
  nm_kind :: MessageKind
  nm_story_mention :: bool

definition MAX_ATTACHMENTS_PER_MESSAGE :: nat where "MAX_ATTACHMENTS_PER_MESSAGE = 10"

text \<open>\<open>trim\<close> is \<open>js_trim\<close> of \<open>Outbox_Reconcile\<close>; this is \<open>toLowerCase\<close>, on the characters up to 255.\<close>

definition js_lower_char :: "char \<Rightarrow> char" where
  "js_lower_char c = (let n = (of_char c :: nat)
     in if (65 \<le> n \<and> n \<le> 90) \<or> (192 \<le> n \<and> n \<le> 222 \<and> n \<noteq> 215) then char_of (n + 32) else c)"

definition trimmed_lower :: "string \<Rightarrow> string" where
  "trimmed_lower s = map js_lower_char (js_trim s)"

definition starts_with :: "string \<Rightarrow> string \<Rightarrow> bool" where
  "starts_with p s \<longleftrightarrow> take (length p) s = p"

definition ends_with :: "string \<Rightarrow> string \<Rightarrow> bool" where
  "ends_with p s \<longleftrightarrow> length p \<le> length s \<and> drop (length s - length p) s = p"

definition hostMatches :: "string \<Rightarrow> string list \<Rightarrow> bool" where
  "hostMatches host domains \<longleftrightarrow> list_ex (\<lambda>d. host = d \<or> ends_with (CHR ''.'' # d) host) domains"

definition EXPIRING_MEDIA_HOSTS :: "string list" where
  "EXPIRING_MEDIA_HOSTS = [''fbsbx.com'', ''fbcdn.net'', ''cdninstagram.com'']"

definition GIF_HOSTS :: "string list" where "GIF_HOSTS = [''giphy.com'', ''tenor.com'']"

definition hostOf :: "platform_host \<Rightarrow> string option \<Rightarrow> string option" where
  "hostOf h url = (if truthy_text url then map_option (map js_lower_char) (url_host h (text_of url)) else None)"

definition isExpiringMediaUrl :: "platform_host \<Rightarrow> string option \<Rightarrow> bool" where
  "isExpiringMediaUrl h url = (case hostOf h url of None \<Rightarrow> False | Some host \<Rightarrow> hostMatches host EXPIRING_MEDIA_HOSTS)"

definition isStableMediaUrl :: "platform_host \<Rightarrow> string option \<Rightarrow> bool" where
  "isStableMediaUrl h url \<longleftrightarrow> hostOf h url \<noteq> None \<and> \<not> isExpiringMediaUrl h url"

definition isAnimatedImageUrl :: "platform_host \<Rightarrow> string option \<Rightarrow> bool" where
  "isAnimatedImageUrl h url =
     (case hostOf h url of
        None \<Rightarrow> False
      | Some host \<Rightarrow> hostMatches host GIF_HOSTS \<or> ends_with ''.gif'' (map js_lower_char (url_path h (text_of url))))"

definition extractAssetId :: "platform_host \<Rightarrow> string option \<Rightarrow> string option" where
  "extractAssetId h url =
     (if truthy_text url \<and> url_host h (text_of url) \<noteq> None then url_query h (text_of url) ''asset_id'' else None)"

definition STORY_MENTION_TYPE :: string where "STORY_MENTION_TYPE = ''story_mention''"

definition SHARED_STORY_TYPE :: string where "SHARED_STORY_TYPE = ''ig_story''"

definition MEDIA_KIND_BY_TYPE :: "(string \<times> MediaKind) list" where
  "MEDIA_KIND_BY_TYPE =
     [(''image'', MediaImage), (STORY_MENTION_TYPE, MediaImage), (''ig_post'', MediaImage), (''ig_story'', MediaImage),
      (''video'', MediaVideo), (''ig_reel'', MediaVideo), (''reel'', MediaVideo), (''audio'', MediaAudio),
      (''voice'', MediaAudio), (''file'', MediaDocument), (''share'', MediaDocument), (''location'', MediaDocument),
      (''fallback'', MediaDocument), (''template'', MediaDocument)]"

fun MESSAGE_KIND_BY_MEDIA :: "MediaKind \<Rightarrow> MessageKind" where
  "MESSAGE_KIND_BY_MEDIA MediaImage = KImage"
| "MESSAGE_KIND_BY_MEDIA MediaGif = KImage"
| "MESSAGE_KIND_BY_MEDIA MediaVideo = KVideo"
| "MESSAGE_KIND_BY_MEDIA MediaAudio = KAudio"
| "MESSAGE_KIND_BY_MEDIA MediaSticker = KSticker"
| "MESSAGE_KIND_BY_MEDIA MediaDocument = KFile"

definition by_type :: "platform_host \<Rightarrow> platform_attachment \<Rightarrow> MediaKind" where
  "by_type h a =
     (let t = (case pa_type a of None \<Rightarrow> [] | Some t \<Rightarrow> trimmed_lower t);
          kind = (case map_of MEDIA_KIND_BY_TYPE t of None \<Rightarrow> MediaDocument | Some k \<Rightarrow> k)
      in if kind = MediaImage \<and> isAnimatedImageUrl h (pa_url a) then MediaGif else kind)"

definition toMediaKind :: "platform_host \<Rightarrow> platform_attachment \<Rightarrow> MediaKind" where
  "toMediaKind h a =
     (if pa_sticker a \<noteq> None then MediaSticker
      else let mime = (case pa_mime a of None \<Rightarrow> [] | Some m \<Rightarrow> trimmed_lower m) in
        if starts_with ''video/'' mime then MediaVideo
        else if starts_with ''audio/'' mime then MediaAudio
        else if mime = ''image/gif'' then MediaGif
        else if starts_with ''image/'' mime then (if isAnimatedImageUrl h (pa_url a) then MediaGif else MediaImage)
        else by_type h a)"

definition attachment_type :: "platform_attachment \<Rightarrow> string option" where
  "attachment_type a = map_option trimmed_lower (pa_type a)"

definition attachment_metadata :: "platform_host \<Rightarrow> nat option \<Rightarrow> nat \<Rightarrow> platform_attachment \<Rightarrow> config" where
  "attachment_metadata h truncatedFrom index a =
     (let t = attachment_type a; url = orElse (pa_url a) (pa_story_url a); mime = map_option trimmed_lower (pa_mime a)
      in field_if ''platformType'' t
         @ field_if ''assetId'' (extractAssetId h url)
         @ (case truncatedFrom of None \<Rightarrow> [] | Some n \<Rightarrow> if index = 0 then [(''truncatedFrom'', JNum (int n))] else [])
         @ (case pa_sticker a of None \<Rightarrow> [] | Some s \<Rightarrow> [(''stickerId'', JStr s)])
         @ field_if ''title'' (pa_title a)
         @ (if truthy_text url then [(''stableUrl'', JBool (isStableMediaUrl h url))] else [])
         @ field_if ''mimeType'' mime
         @ field_if ''fileName'' (pa_name a)
         @ (if t \<in> {Some STORY_MENTION_TYPE, Some SHARED_STORY_TYPE} \<and> \<not> truthy_text mime
            then [(''kindIsGuessed'', JBool True)] else [])
         @ field_if ''reelVideoId'' (pa_reel a)
         @ field_if ''postMediaId'' (pa_post_media a)
         @ field_if ''storyMediaId'' (pa_story_id a))"

definition normalizeAttachment :: "platform_host \<Rightarrow> nat option \<Rightarrow> nat \<Rightarrow> platform_attachment \<Rightarrow> normalized_attachment" where
  "normalizeAttachment h truncatedFrom index a =
     \<lparr> na_kind = toMediaKind h a, na_url = orElse (pa_url a) (pa_story_url a), na_order = index,
       na_metadata = attachment_metadata h truncatedFrom index a \<rparr>"

definition normalizeAttachments :: "platform_host \<Rightarrow> platform_attachment list \<Rightarrow> normalized_media" where
  "normalizeAttachments h as =
     (if as = [] then \<lparr> nm_attachments = [], nm_kind = KText, nm_story_mention = False \<rparr>
      else
        let kept = take MAX_ATTACHMENTS_PER_MESSAGE as;
            truncatedFrom = (if length kept < length as then Some (length as) else None);
            story = list_ex (\<lambda>a. attachment_type a = Some STORY_MENTION_TYPE) kept;
            normalized = map (\<lambda>(i, a). normalizeAttachment h truncatedFrom i a) (enumerate 0 kept)
        in \<lparr> nm_attachments = normalized,
             nm_kind = (if story then KStoryReply
                        else case normalized of [] \<Rightarrow> KText | a # _ \<Rightarrow> MESSAGE_KIND_BY_MEDIA (na_kind a)),
             nm_story_mention = story \<rparr>)"

text \<open>A message read back from the conversations edge, as the webhook would have carried it.\<close>

record graph_attachment =
  ga_mime :: "string option"
  ga_name :: "string option"
  ga_image_url :: "string option"
  ga_video_url :: "string option"
  ga_file_url :: "string option"

definition webhook_attachment :: "string \<Rightarrow> string \<Rightarrow> graph_attachment option \<Rightarrow> platform_attachment" where
  "webhook_attachment kind url g =
     \<lparr> pa_type = Some kind, pa_url = Some url, pa_story_url = None, pa_story_id = None, pa_sticker = None, pa_title = None,
       pa_mime = (case g of None \<Rightarrow> None | Some a \<Rightarrow> if truthy_text (ga_mime a) then ga_mime a else None),
       pa_name = (case g of None \<Rightarrow> None | Some a \<Rightarrow> if truthy_text (ga_name a) then ga_name a else None),
       pa_reel = None, pa_post_media = None \<rparr>"

definition toWebhookAttachment :: "graph_attachment \<Rightarrow> platform_attachment list" where
  "toWebhookAttachment g =
     (if truthy_text (ga_image_url g) then [webhook_attachment ''image'' (text_of (ga_image_url g)) (Some g)]
      else if truthy_text (ga_video_url g) then [webhook_attachment ''video'' (text_of (ga_video_url g)) (Some g)]
      else if truthy_text (ga_file_url g) then [webhook_attachment ''file'' (text_of (ga_file_url g)) (Some g)]
      else [])"

definition toWebhookAttachments :: "graph_attachment list \<Rightarrow> string option list \<Rightarrow> platform_attachment list" where
  "toWebhookAttachments gs shares =
     concat (map (\<lambda>l. if truthy_text l then [webhook_attachment ''share'' (text_of l) None] else []) shares)
     @ concat (map toWebhookAttachment gs)"


section \<open>Direct messages\<close>

record dm_message =
  dm_mid :: "string option"
  dm_text :: "string option"
  dm_echo :: bool
  dm_unsupported :: bool
  dm_deleted :: bool
  dm_attachments :: "platform_attachment list"
  dm_reply_mid :: "string option"
  dm_self_reply :: "bool option"
  dm_story_url :: "string option"
  dm_story_id :: "string option"
  dm_quick_reply :: "string option"

record dm_reaction =
  re_mid :: "string option"
  re_removing :: bool
  re_name :: "string option"
  re_emoji :: "string option"

record dm_postback =
  pb_mid :: "string option"
  pb_title :: "string option"
  pb_payload :: "string option"

record messaging_event =
  ev_sender :: "string option"
  ev_sender_name :: "string option"
  ev_sender_username :: "string option"
  ev_recipient :: "string option"
  ev_recovered :: bool
  ev_reaction :: "dm_reaction option"
  ev_read_mid :: "string option"
  ev_timestamp :: "int option"
  ev_message :: "dm_message option"
  ev_edit_mid :: "string option"
  ev_postback :: "dm_postback option"
  ev_optin :: bool
  ev_referral :: "json option"

definition bare_message :: dm_message where
  "bare_message = \<lparr> dm_mid = None, dm_text = None, dm_echo = False, dm_unsupported = False, dm_deleted = False,
     dm_attachments = [], dm_reply_mid = None, dm_self_reply = None, dm_story_url = None, dm_story_id = None,
     dm_quick_reply = None \<rparr>"

definition postbackAsMessage :: "dm_postback option \<Rightarrow> dm_message option" where
  "postbackAsMessage p =
     (case p of None \<Rightarrow> None
      | Some b \<Rightarrow> if \<not> truthy_text (pb_mid b) then None
                 else Some (bare_message\<lparr>dm_mid := pb_mid b,
                              dm_text := (if truthy_text (pb_title b) then pb_title b else None)\<rparr>))"

definition event_message :: "messaging_event \<Rightarrow> dm_message option" where
  "event_message e = orElse (ev_message e) (postbackAsMessage (ev_postback e))"

definition buildPlatformFacts :: "dm_message \<Rightarrow> messaging_event \<Rightarrow> bool \<Rightarrow> config" where
  "buildPlatformFacts m e story =
     (if story then [(''isStoryMention'', JBool True)] else [])
     @ field_if ''replyToPlatformMessageId'' (dm_reply_mid m)
     @ (case dm_self_reply m of None \<Rightarrow> [] | Some b \<Rightarrow> [(''replyIsSelfReply'', JBool b)])
     @ field_if ''replyToStoryId'' (dm_story_id m)
     @ field_if ''replyToStoryUrl'' (dm_story_url m)
     @ field_if ''quickReplyPayload'' (dm_quick_reply m)
     @ (case ev_postback e of None \<Rightarrow> [] | Some p \<Rightarrow>
          field_if ''postbackPayload'' (pb_payload p) @ (if truthy_text (pb_mid p) then [(''isPostback'', JBool True)] else []))
     @ (if dm_unsupported m then [(''isUnsupported'', JBool True)] else [])
     @ (case ev_referral e of None \<Rightarrow> [] | Some r \<Rightarrow> [(''referral'', r)])"

definition resolveDirectMessageTrigger :: "config \<Rightarrow> RewardTriggerKind" where
  "resolveDirectMessageTrigger facts =
     (if map_of facts ''isStoryMention'' = Some (JBool True) then StoryMention
      else if map_of facts ''replyToStoryId'' \<noteq> None then StoryReply
      else if map_of facts ''referral'' \<noteq> None then ReferralEntry
      else if map_of facts ''isPostback'' = Some (JBool True) \<or> map_of facts ''postbackPayload'' \<noteq> None
              \<or> map_of facts ''quickReplyPayload'' \<noteq> None
      then PostbackTapped
      else DirectMessageInbound)"

text \<open>When what the platform gave back holds nothing that could be shown.\<close>

definition content_unavailable :: "messaging_event \<Rightarrow> dm_message \<Rightarrow> normalized_media \<Rightarrow> bool" where
  "content_unavailable e m media \<longleftrightarrow>
     \<not> truthy_text (dm_text m)
     \<and> (ev_recovered e \<and> nm_attachments media = []
        \<or> nm_attachments media \<noteq> []
          \<and> list_all (\<lambda>a. \<not> truthy_text (na_url a) \<and> map_of (na_metadata a) ''title'' = None
                       \<and> map_of (na_metadata a) ''stickerId'' = None) (nm_attachments media))"

section \<open>Posts\<close>

datatype PostKind = PostImage | PostVideo | PostCarousel | PostReel | PostStory | PostText | PostLink

record post_payload =
  pp_item :: "string option"
  pp_message :: "string option"
  pp_created_time :: "int option"
  pp_link :: "string option"
  pp_post_id :: "string option"
  pp_caption :: "string option"
  pp_permalink :: "string option"
  pp_published_at :: "string option"
  pp_kind :: "string option"
  pp_comments :: "int option"
  pp_likes :: "int option"
  pp_shares :: "int option"
  pp_media :: "json option"

definition toPostKind :: "string option \<Rightarrow> Platform \<Rightarrow> PostKind" where
  "toPostKind raw platform =
     (let v = (case raw of None \<Rightarrow> [] | Some r \<Rightarrow> map js_lower_char r) in
      if platform = Instagram then
        (if v = ''image'' then PostImage else if v = ''video'' then PostVideo
         else if v = ''carousel_album'' then PostCarousel else if v = ''reels'' then PostReel
         else if v = ''story'' then PostStory else PostImage)
      else if v = ''added_photos'' then PostImage
      else if v = ''added_video'' then PostVideo
      else if v = ''shared_story'' then PostLink
      else if v \<in> {''mobile_status_update'', ''created_note'', ''published_story''} then PostText
      else if v = ''photo'' then PostImage
      else if v = ''video'' then PostVideo
      else if v \<in> {''share'', ''link''} then PostLink
      else PostText)"

definition parseTimestamp :: "platform_host \<Rightarrow> string option \<Rightarrow> int option" where
  "parseTimestamp h t = (if truthy_text t then parse_instant h (text_of t) else None)"

definition published_at :: "platform_host \<Rightarrow> post_payload \<Rightarrow> int option" where
  "published_at h v = orElse (parseTimestamp h (pp_published_at v)) (map_option (\<lambda>n. n * 1000) (pp_created_time v))"

section \<open>The reply window\<close>

datatype ConversationStatus = ConvOpen | ConvPending | ConvResolved | ConvClosed | ConvArchived

datatype MessageDirection = DirInbound | DirOutbound

definition CLOSED_TO_REPLIES :: "ConversationStatus list" where
  "CLOSED_TO_REPLIES = [ConvResolved, ConvClosed, ConvArchived]"

definition MESSAGING_WINDOW_MS :: int where "MESSAGING_WINDOW_MS = 24 * 60 * 60 * 1000"

fun replyEventTypeFor :: "ConversationKind \<Rightarrow> OutboundEventType option" where
  "replyEventTypeFor DirectMessage = Some OutDirectMessage"
| "replyEventTypeFor CommentThread = Some CommentReply"
| "replyEventTypeFor Mention = Some MentionReply"
| "replyEventTypeFor Review = None"

definition WINDOWED_KINDS :: "ConversationKind list" where "WINDOWED_KINDS = [DirectMessage]"

text \<open>Whether a reply may be written, without the sentence that says why not.\<close>

definition evaluateReplyWindow ::
    "ConversationKind \<Rightarrow> int option \<Rightarrow> json option \<Rightarrow> ConversationStatus option \<Rightarrow> int \<Rightarrow> bool" where
  "evaluateReplyWindow kind lastInboundAt mentionKind status now =
     (if (case status of None \<Rightarrow> False | Some s \<Rightarrow> s \<in> set CLOSED_TO_REPLIES) then False
      else if replyEventTypeFor kind = None then False
      else if kind = Mention \<and> mentionKind = Some (JStr (mention_kind_text TaggedMention)) then False
      else if kind \<notin> set WINDOWED_KINDS then True
      else case lastInboundAt of None \<Rightarrow> False | Some t \<Rightarrow> now - t \<le> MESSAGING_WINDOW_MS)"

fun THREAD_KEY_PREFIX :: "ConversationKind \<Rightarrow> string" where
  "THREAD_KEY_PREFIX DirectMessage = ''dm''"
| "THREAD_KEY_PREFIX CommentThread = ''comment''"
| "THREAD_KEY_PREFIX Mention = ''mention''"
| "THREAD_KEY_PREFIX Review = ''review''"

definition composeThreadKey :: "ConversationKind \<Rightarrow> string \<Rightarrow> string" where
  "composeThreadKey kind platformId = THREAD_KEY_PREFIX kind @ CHR '':'' # platformId"

end
