(* ===== verification/Inbox_Store.thy ===== *)
theory Inbox_Store
  imports Inbox_Normalize Sync_Jobs
begin

text \<open>
  The tables of the inbox and every statement that writes them: customers, their identifiers and
  engagements (\<open>customer.repository.ts\<close>), threads (\<open>conversation.repository.ts\<close>), messages
  (\<open>message.repository.ts\<close>), attachments and posts. A statement is an \<open>act\<close> on \<open>inbox_db\<close>: it throws
  when a unique index or a composite foreign key refuses it, and the transaction it belongs to is
  then undone.

  \<open>now()\<close> is \<open>ib_clock\<close>, in milliseconds, and is the process's clock too. A \<open>ref_id\<close> is the row's id.
  \<open>ib_employees\<close> is the id and the business of every active employment.
  Notifications, \<open>updated_at\<close> of tables other than messages, and columns nothing here reads are
  left out.
\<close>

section \<open>Tables\<close>

datatype CustomerFirstSource =
  SourceInstagramDm | SourceFacebookComment | SourceInstagramComment | SourceFacebookDm | SourceImport | SourceManual

record inbox_customer =
  cs_id :: int
  cs_enterprise :: int
  cs_name :: "string option"
  cs_first_name :: "string option"
  cs_last_name :: "string option"
  cs_avatar :: "string option"
  cs_source :: CustomerFirstSource
  cs_first_channel :: "int option"
  cs_last_channel :: "int option"
  cs_first_seen :: int
  cs_last_seen :: int
  cs_conversations :: int
  cs_metadata :: config
  cs_deleted :: bool

record identifier_row =
  idn_id :: int
  idn_enterprise :: int
  idn_customer :: int
  idn_kind :: IdentifierKind
  idn_value :: string
  idn_primary :: bool
  idn_active :: bool
  idn_deleted :: bool

record engagement_row =
  en_enterprise :: int
  en_customer :: int
  en_channel :: int
  en_platform :: Platform
  en_first :: int
  en_last :: int
  en_inbound :: int
  en_outbound :: int
  en_conversations :: int
  en_last_conversation :: "int option"
  en_deleted :: bool

record conversation_row =
  cv_id :: int
  cv_enterprise :: int
  cv_channel :: int
  cv_customer :: int
  cv_identifier :: "int option"
  cv_post :: "int option"
  cv_platform :: Platform
  cv_kind :: ConversationKind
  cv_thread :: string
  cv_subject :: "string option"
  cv_context :: config
  cv_status :: ConversationStatus
  cv_unread :: int
  cv_messages :: int
  cv_last_message :: "int option"
  cv_last_inbound :: "int option"
  cv_first_responded :: "int option"
  cv_assigned :: "int option"
  cv_assigned_at :: "int option"
  cv_resolved_at :: "int option"
  cv_deleted :: bool

record inbox_message =
  mg_id :: int
  mg_enterprise :: int
  mg_conversation :: int
  mg_direction :: MessageDirection
  mg_customer :: "int option"
  mg_employee :: "int option"
  mg_parent :: "int option"
  mg_inbound_event :: "int option"
  mg_outbound_event :: "int option"
  mg_platform_id :: "string option"
  mg_idempotency :: "string option"
  mg_kind :: MessageKind
  mg_body :: "string option"
  mg_has_attachments :: bool
  mg_metadata :: config
  mg_read :: bool
  mg_note :: bool
  mg_hidden :: bool
  mg_sent_at :: "int option"
  mg_deleted_at :: "int option"
  mg_status :: MessageStatus
  mg_created :: int
  mg_updated :: int
  mg_deleted :: bool

record attachment_row =
  at_enterprise :: int
  at_message :: int
  at_kind :: MediaKind
  at_url :: "string option"
  at_order :: nat
  at_metadata :: config

record post_row =
  po_id :: int
  po_enterprise :: int
  po_channel :: int
  po_platform :: Platform
  po_platform_id :: string
  po_kind :: PostKind
  po_caption :: "string option"
  po_permalink :: "string option"
  po_published :: "int option"
  po_comments :: int
  po_likes :: int
  po_shares :: int
  po_media :: "json option"
  po_deleted :: bool

record inbox_db =
  ib_customers :: "inbox_customer list"
  ib_identifiers :: "identifier_row list"
  ib_engagements :: "engagement_row list"
  ib_conversations :: "conversation_row list"
  ib_messages :: "inbox_message list"
  ib_attachments :: "attachment_row list"
  ib_posts :: "post_row list"
  ib_outbox :: outbox
  ib_sync :: "sync_job list"
  ib_channels :: "channel list"
  ib_employees :: "(int \<times> int) list"
  ib_clock :: int

datatype inbox_error =
  ConversationNotFound | InboxConversationClosed | IdempotencyKeyReused | ChannelNotFound | InboxReauthRequired
| ChannelNotManaged | ReplyWindowClosed | MessageNotFound | ReplyNotSupported | DuplicateMessage | InboxPermissionDenied
| InboxInvalidTransition | ResyncUnsupported | NoActiveEmployment | InboxEmployeeNotFound | ForeignKeyViolation
| IdentifierUnresolved | WaitingForOrphanEdit | MentionsApiUnreachable

type_synonym 'a inbox_act = "(inbox_error, inbox_db, 'a) act"

text \<open>\<open>a || b\<close> on JSON objects: the keys of \<open>b\<close> win.\<close>

definition merge_json :: "config \<Rightarrow> config \<Rightarrow> config" where
  "merge_json a b = filter (\<lambda>(k, v). map_of b k = None) a @ b"

lemma merge_json_map_of: "map_of (merge_json a b) k = (case map_of b k of None \<Rightarrow> map_of a k | Some v \<Rightarrow> Some v)"
proof -
  have "map_of (filter (\<lambda>(k, v). map_of b k = None) a) k = (if map_of b k = None then map_of a k else None)"
    by (induction a) auto
  then show ?thesis by (simp add: merge_json_def map_add_def split: option.split)
qed

section \<open>Customers\<close>

definition active_identifier :: "int \<Rightarrow> IdentifierKind \<Rightarrow> string \<Rightarrow> identifier_row \<Rightarrow> bool" where
  "active_identifier enterprise kind v i \<longleftrightarrow>
     idn_enterprise i = enterprise \<and> idn_kind i = kind \<and> idn_value i = v \<and> idn_active i \<and> \<not> idn_deleted i"

record CreateCustomerInput =
  in_customer_enterprise :: int
  in_customer_kind :: IdentifierKind
  in_customer_value :: string
  in_customer_name :: "string option"
  in_customer_source :: CustomerFirstSource
  in_customer_channel :: int

record CustomerResolution =
  res_customer :: int
  res_identifier :: int
  res_created :: bool

definition findByIdentifier :: "int \<Rightarrow> IdentifierKind \<Rightarrow> string \<Rightarrow> inbox_db \<Rightarrow> CustomerResolution option" where
  "findByIdentifier enterprise kind v db =
     map_option (\<lambda>i. \<lparr> res_customer = idn_customer i, res_identifier = idn_id i, res_created = False \<rparr>)
       (find (active_identifier enterprise kind v) (ib_identifiers db))"

definition insert_identifier :: "int \<Rightarrow> int \<Rightarrow> IdentifierKind \<Rightarrow> string \<Rightarrow> bool \<Rightarrow> int option inbox_act" where
  "insert_identifier enterprise customer kind v primary = (\<lambda>db.
     if list_ex (active_identifier enterprise kind v) (ib_identifiers db) then Inr (None, db)
     else let i = fresh_id (map idn_id (ib_identifiers db)) in
       Inr (Some i, db\<lparr>ib_identifiers := ib_identifiers db
         @ [\<lparr> idn_id = i, idn_enterprise = enterprise, idn_customer = customer, idn_kind = kind, idn_value = v,
              idn_primary = primary, idn_active = True, idn_deleted = False \<rparr>]\<rparr>))"

definition new_customer :: "int \<Rightarrow> int \<Rightarrow> CreateCustomerInput \<Rightarrow> inbox_customer" where
  "new_customer i now inp =
     \<lparr> cs_id = i, cs_enterprise = in_customer_enterprise inp, cs_name = in_customer_name inp, cs_first_name = None,
       cs_last_name = None, cs_avatar = None, cs_source = in_customer_source inp,
       cs_first_channel = Some (in_customer_channel inp), cs_last_channel = Some (in_customer_channel inp),
       cs_first_seen = now, cs_last_seen = now, cs_conversations = 0, cs_metadata = [], cs_deleted = False \<rparr>"

definition insert_customer :: "CreateCustomerInput \<Rightarrow> int inbox_act" where
  "insert_customer inp = (\<lambda>db.
     let i = fresh_id (map cs_id (ib_customers db)) in
     Inr (i, db\<lparr>ib_customers := ib_customers db @ [new_customer i (ib_clock db) inp]\<rparr>))"

definition update_customers :: "(inbox_customer \<Rightarrow> bool) \<Rightarrow> (inbox_customer \<Rightarrow> inbox_customer) \<Rightarrow> inbox_db \<Rightarrow> inbox_db" where
  "update_customers P f db = db\<lparr>ib_customers := update_where P f (ib_customers db)\<rparr>"

definition delete_customer :: "int \<Rightarrow> int \<Rightarrow> unit inbox_act" where
  "delete_customer enterprise i =
     modifies (\<lambda>db. db\<lparr>ib_customers := filter (\<lambda>c. \<not> (cs_id c = i \<and> cs_enterprise c = enterprise)) (ib_customers db)\<rparr>)"

definition backfill_name :: "int \<Rightarrow> int \<Rightarrow> string option \<Rightarrow> unit inbox_act" where
  "backfill_name enterprise customer name =
     (if truthy_text name
      then modifies (update_customers (\<lambda>c. cs_id c = customer \<and> cs_enterprise c = enterprise \<and> cs_name c = None)
             (\<lambda>c. c\<lparr>cs_name := name\<rparr>))
      else ret ())"

definition create_customer :: "CreateCustomerInput \<Rightarrow> CustomerResolution inbox_act" where
  "create_customer inp =
     bnd (insert_customer inp) (\<lambda>customer.
     bnd (insert_identifier (in_customer_enterprise inp) customer (in_customer_kind inp) (in_customer_value inp) True) (\<lambda>made.
       case made of
         Some i \<Rightarrow> ret \<lparr> res_customer = customer, res_identifier = i, res_created = True \<rparr>
       | None \<Rightarrow>
           andThen (delete_customer (in_customer_enterprise inp) customer)
           (bnd (reads (findByIdentifier (in_customer_enterprise inp) (in_customer_kind inp) (in_customer_value inp)))
             (\<lambda>winner. case winner of None \<Rightarrow> throw IdentifierUnresolved | Some r \<Rightarrow> ret r))))"

definition resolveOrCreate :: "CreateCustomerInput \<Rightarrow> CustomerResolution inbox_act" where
  "resolveOrCreate inp =
     bnd (reads (findByIdentifier (in_customer_enterprise inp) (in_customer_kind inp) (in_customer_value inp))) (\<lambda>found.
       case found of
         Some r \<Rightarrow> andThen (backfill_name (in_customer_enterprise inp) (res_customer r) (in_customer_name inp)) (ret r)
       | None \<Rightarrow> create_customer inp)"

definition linkIdentifier :: "int \<Rightarrow> int \<Rightarrow> IdentifierKind \<Rightarrow> string \<Rightarrow> bool inbox_act" where
  "linkIdentifier enterprise customer kind v =
     bnd (insert_identifier enterprise customer kind v False) (\<lambda>made. ret (made \<noteq> None))"

definition touchLastSeen :: "int \<Rightarrow> int \<Rightarrow> int option \<Rightarrow> unit inbox_act" where
  "touchLastSeen enterprise customer channel =
     modifies (\<lambda>db. update_customers (\<lambda>c. cs_id c = customer \<and> cs_enterprise c = enterprise)
       (\<lambda>c. c\<lparr>cs_last_seen := ib_clock db, cs_last_channel := orElse channel (cs_last_channel c)\<rparr>) db)"

definition has_identifier :: "inbox_db \<Rightarrow> int \<Rightarrow> int \<Rightarrow> IdentifierKind \<Rightarrow> string \<Rightarrow> bool" where
  "has_identifier db enterprise customer kind v \<longleftrightarrow>
     list_ex (\<lambda>i. idn_customer i = customer \<and> idn_enterprise i = enterprise \<and> idn_kind i = kind \<and> idn_value i = v
                \<and> \<not> idn_deleted i) (ib_identifiers db)"

definition nameByIdentifier ::
    "int \<Rightarrow> IdentifierKind \<Rightarrow> string \<Rightarrow> string \<Rightarrow> string option \<Rightarrow> string option \<Rightarrow> bool inbox_act" where
  "nameByIdentifier enterprise kind v name given family = (\<lambda>db.
     let hit = (\<lambda>c. cs_enterprise c = enterprise \<and> (cs_name c = None \<or> cs_first_name c = None) \<and> \<not> cs_deleted c
                   \<and> has_identifier db enterprise (cs_id c) kind v)
     in Inr (list_ex hit (ib_customers db),
          update_customers hit (\<lambda>c. c\<lparr>cs_name := orElse (cs_name c) (Some name),
            cs_first_name := orElse (cs_first_name c) given, cs_last_name := orElse (cs_last_name c) family\<rparr>) db))"

definition applyPlatformProfile ::
    "int \<Rightarrow> int \<Rightarrow> string option \<Rightarrow> string option \<Rightarrow> string option \<Rightarrow> string option \<Rightarrow> config \<Rightarrow> bool inbox_act" where
  "applyPlatformProfile enterprise customer name given family avatar profile = (\<lambda>db.
     let hit = (\<lambda>c. cs_id c = customer \<and> cs_enterprise c = enterprise \<and> \<not> cs_deleted c)
     in Inr (list_ex hit (ib_customers db),
          update_customers hit (\<lambda>c. c\<lparr>cs_name := orElse name (cs_name c), cs_first_name := orElse given (cs_first_name c),
            cs_last_name := orElse family (cs_last_name c), cs_avatar := orElse avatar (cs_avatar c),
            cs_metadata := merge_json (cs_metadata c) profile\<rparr>) db))"

record EngagementInput =
  eg_enterprise :: int
  eg_customer :: int
  eg_channel :: int
  eg_platform :: Platform
  eg_inbound :: bool
  eg_conversation :: "int option"
  eg_created :: bool

definition one_if :: "bool \<Rightarrow> int" where "one_if b = (if b then 1 else 0)"

definition recordEngagement :: "EngagementInput \<Rightarrow> unit inbox_act" where
  "recordEngagement g = modifies (\<lambda>db.
     let mine = (\<lambda>e. en_enterprise e = eg_enterprise g \<and> en_customer e = eg_customer g \<and> en_channel e = eg_channel g
                   \<and> \<not> en_deleted e)
     in db\<lparr>ib_engagements :=
          (if list_ex mine (ib_engagements db)
           then update_where mine (\<lambda>e. e\<lparr>en_last := ib_clock db, en_inbound := en_inbound e + one_if (eg_inbound g),
                  en_outbound := en_outbound e + one_if (\<not> eg_inbound g),
                  en_conversations := en_conversations e + one_if (eg_created g),
                  en_last_conversation := orElse (eg_conversation g) (en_last_conversation e)\<rparr>) (ib_engagements db)
           else ib_engagements db @
             [\<lparr> en_enterprise = eg_enterprise g, en_customer = eg_customer g, en_channel = eg_channel g,
                en_platform = eg_platform g, en_first = ib_clock db, en_last = ib_clock db,
                en_inbound = one_if (eg_inbound g), en_outbound = one_if (\<not> eg_inbound g),
                en_conversations = one_if (eg_created g), en_last_conversation = eg_conversation g, en_deleted = False \<rparr>])\<rparr>)"


section \<open>Threads\<close>

record UpsertConversationInput =
  up_enterprise :: int
  up_channel :: int
  up_customer :: int
  up_identifier :: "int option"
  up_post :: "int option"
  up_platform :: Platform
  up_kind :: ConversationKind
  up_thread :: string
  up_subject :: "string option"
  up_context :: config

record UpsertConversationResult =
  ur_id :: int
  ur_created :: bool

text \<open>The composite foreign keys: the channel and the customer are of the thread's business.\<close>

definition conversation_refs_ok :: "UpsertConversationInput \<Rightarrow> inbox_db \<Rightarrow> bool" where
  "conversation_refs_ok u db \<longleftrightarrow>
     list_ex (\<lambda>c. ch_id c = up_channel u \<and> ch_enterprise c = up_enterprise u) (ib_channels db)
     \<and> list_ex (\<lambda>c. cs_id c = up_customer u \<and> cs_enterprise c = up_enterprise u) (ib_customers db)"

definition new_conversation :: "int \<Rightarrow> UpsertConversationInput \<Rightarrow> conversation_row" where
  "new_conversation i u =
     \<lparr> cv_id = i, cv_enterprise = up_enterprise u, cv_channel = up_channel u, cv_customer = up_customer u,
       cv_identifier = up_identifier u, cv_post = up_post u, cv_platform = up_platform u, cv_kind = up_kind u,
       cv_thread = up_thread u, cv_subject = up_subject u, cv_context = up_context u, cv_status = ConvOpen, cv_unread = 0,
       cv_messages = 0, cv_last_message = None, cv_last_inbound = None, cv_first_responded = None, cv_assigned = None,
       cv_assigned_at = None, cv_resolved_at = None, cv_deleted = False \<rparr>"

definition rejoin :: "UpsertConversationInput \<Rightarrow> conversation_row \<Rightarrow> conversation_row" where
  "rejoin u c = c\<lparr>cv_status := (if cv_status c \<in> set CLOSED_TO_REPLIES then ConvOpen else cv_status c),
     cv_subject := orElse (up_subject u) (cv_subject c), cv_post := orElse (up_post u) (cv_post c),
     cv_context := merge_json (cv_context c) (up_context u), cv_deleted := False\<rparr>"

definition same_thread :: "UpsertConversationInput \<Rightarrow> conversation_row \<Rightarrow> bool" where
  "same_thread u c \<longleftrightarrow> cv_channel c = up_channel u \<and> cv_thread c = up_thread u"

definition upsertConversation :: "UpsertConversationInput \<Rightarrow> UpsertConversationResult inbox_act" where
  "upsertConversation u = (\<lambda>db.
     if \<not> conversation_refs_ok u db then Inl ForeignKeyViolation
     else case find (same_thread u) (ib_conversations db) of
       Some c \<Rightarrow> Inr (\<lparr> ur_id = cv_id c, ur_created = False \<rparr>,
                   db\<lparr>ib_conversations := update_where (same_thread u) (rejoin u) (ib_conversations db)\<rparr>)
     | None \<Rightarrow>
         let i = fresh_id (map cv_id (ib_conversations db)) in
         Inr (\<lparr> ur_id = i, ur_created = True \<rparr>,
           update_customers (\<lambda>c. cs_id c = up_customer u \<and> cs_enterprise c = up_enterprise u)
             (\<lambda>c. c\<lparr>cs_conversations := cs_conversations c + 1\<rparr>)
             (db\<lparr>ib_conversations := ib_conversations db @ [new_conversation i u]\<rparr>)))"

definition findConversation :: "int \<Rightarrow> int \<Rightarrow> inbox_db \<Rightarrow> conversation_row option" where
  "findConversation enterprise i db =
     find (\<lambda>c. cv_enterprise c = enterprise \<and> cv_id c = i \<and> \<not> cv_deleted c) (ib_conversations db)"

definition findResyncTarget :: "int \<Rightarrow> int \<Rightarrow> inbox_db \<Rightarrow> (conversation_row \<times> string option) option" where
  "findResyncTarget enterprise i db =
     map_option (\<lambda>c. (c, (case cv_identifier c of None \<Rightarrow> None
        | Some k \<Rightarrow> map_option idn_value (find (\<lambda>n. idn_id n = k \<and> idn_enterprise n = cv_enterprise c \<and> \<not> idn_deleted n)
                     (ib_identifiers db)))))
       (findConversation enterprise i db)"

definition update_conversations ::
    "(conversation_row \<Rightarrow> bool) \<Rightarrow> (conversation_row \<Rightarrow> conversation_row) \<Rightarrow> inbox_db \<Rightarrow> inbox_db" where
  "update_conversations P f db = db\<lparr>ib_conversations := update_where P f (ib_conversations db)\<rparr>"

text \<open>\<open>GREATEST(COALESCE(a, t), t)\<close>.\<close>

definition latest_of :: "int option \<Rightarrow> int \<Rightarrow> int option" where
  "latest_of a t = Some (case a of None \<Rightarrow> t | Some s \<Rightarrow> max s t)"

definition count_message :: "bool \<Rightarrow> int \<Rightarrow> conversation_row \<Rightarrow> conversation_row" where
  "count_message inbound t c = c\<lparr>cv_messages := cv_messages c + 1, cv_unread := cv_unread c + one_if inbound,
     cv_last_message := latest_of (cv_last_message c) t,
     cv_last_inbound := (if inbound then latest_of (cv_last_inbound c) t else cv_last_inbound c),
     cv_first_responded := (if inbound then cv_first_responded c else orElse (cv_first_responded c) (Some t))\<rparr>"

definition recordMessage :: "int \<Rightarrow> int \<Rightarrow> bool \<Rightarrow> int \<Rightarrow> unit inbox_act" where
  "recordMessage enterprise conversation inbound occurredAt =
     modifies (update_conversations (\<lambda>c. cv_id c = conversation \<and> cv_enterprise c = enterprise)
       (count_message inbound occurredAt))"

definition assignConversation :: "int \<Rightarrow> int \<Rightarrow> int option \<Rightarrow> unit inbox_act" where
  "assignConversation enterprise conversation employee =
     modifies (\<lambda>db. update_conversations (\<lambda>c. cv_id c = conversation \<and> cv_enterprise c = enterprise \<and> \<not> cv_deleted c)
       (\<lambda>c. c\<lparr>cv_assigned := employee, cv_assigned_at := (if employee = None then None else Some (ib_clock db))\<rparr>) db)"

definition setConversationStatus :: "int \<Rightarrow> int \<Rightarrow> ConversationStatus \<Rightarrow> unit inbox_act" where
  "setConversationStatus enterprise conversation status =
     modifies (\<lambda>db. update_conversations (\<lambda>c. cv_id c = conversation \<and> cv_enterprise c = enterprise \<and> \<not> cv_deleted c)
       (\<lambda>c. c\<lparr>cv_status := status,
          cv_resolved_at := (if status \<in> {ConvResolved, ConvClosed} then Some (ib_clock db) else None)\<rparr>) db)"

definition update_messages :: "(inbox_message \<Rightarrow> bool) \<Rightarrow> (inbox_message \<Rightarrow> inbox_message) \<Rightarrow> inbox_db \<Rightarrow> inbox_db" where
  "update_messages P f db = db\<lparr>ib_messages := update_where P f (ib_messages db)\<rparr>"

text \<open>The two statements of \<open>markRead\<close>, which no transaction encloses.\<close>

definition clear_badge :: "int \<Rightarrow> int \<Rightarrow> unit inbox_act" where
  "clear_badge enterprise conversation =
     modifies (update_conversations (\<lambda>c. cv_id c = conversation \<and> cv_enterprise c = enterprise) (\<lambda>c. c\<lparr>cv_unread := 0\<rparr>))"

definition mark_messages_read :: "int \<Rightarrow> int \<Rightarrow> unit inbox_act" where
  "mark_messages_read enterprise conversation =
     modifies (update_messages (\<lambda>m. mg_enterprise m = enterprise \<and> mg_conversation m = conversation
       \<and> mg_direction m = DirInbound \<and> \<not> mg_read m \<and> \<not> mg_deleted m) (\<lambda>m. m\<lparr>mg_read := True\<rparr>))"

definition markConversationRead :: "int \<Rightarrow> int \<Rightarrow> unit inbox_act" where
  "markConversationRead enterprise conversation =
     andThen (clear_badge enterprise conversation) (mark_messages_read enterprise conversation)"

definition mergeContextMetadata :: "int \<Rightarrow> int \<Rightarrow> config \<Rightarrow> unit inbox_act" where
  "mergeContextMetadata enterprise conversation patch =
     modifies (update_conversations (\<lambda>c. cv_enterprise c = enterprise \<and> cv_id c = conversation \<and> \<not> cv_deleted c)
       (\<lambda>c. c\<lparr>cv_context := merge_json (cv_context c) patch\<rparr>))"

definition findMentionByCommentId :: "int \<Rightarrow> string \<Rightarrow> inbox_db \<Rightarrow> (int \<times> string option) option" where
  "findMentionByCommentId enterprise comment db =
     map_option (\<lambda>c. (cv_id c, cv_subject c))
       (find (\<lambda>c. cv_enterprise c = enterprise \<and> cv_kind c = Mention
          \<and> map_of (cv_context c) ''mentionedCommentId'' = Some (JStr comment) \<and> \<not> cv_deleted c) (ib_conversations db))"

section \<open>Messages\<close>

record InboundMessageInput =
  mi_enterprise :: int
  mi_conversation :: int
  mi_customer :: int
  mi_event :: int
  mi_platform_id :: string
  mi_kind :: MessageKind
  mi_body :: "string option"
  mi_sent_at :: "int option"
  mi_parent :: "int option"
  mi_has_attachments :: bool
  mi_metadata :: config

definition message_refs_ok :: "int \<Rightarrow> int \<Rightarrow> inbox_db \<Rightarrow> bool" where
  "message_refs_ok enterprise conversation db \<longleftrightarrow>
     list_ex (\<lambda>c. cv_id c = conversation \<and> cv_enterprise c = enterprise) (ib_conversations db)"

definition inbound_message :: "int \<Rightarrow> int \<Rightarrow> InboundMessageInput \<Rightarrow> inbox_message" where
  "inbound_message i now inp =
     \<lparr> mg_id = i, mg_enterprise = mi_enterprise inp, mg_conversation = mi_conversation inp, mg_direction = DirInbound,
       mg_customer = Some (mi_customer inp), mg_employee = None, mg_parent = mi_parent inp,
       mg_inbound_event = Some (mi_event inp), mg_outbound_event = None, mg_platform_id = Some (mi_platform_id inp),
       mg_idempotency = None, mg_kind = mi_kind inp, mg_body = mi_body inp, mg_has_attachments = mi_has_attachments inp,
       mg_metadata = mi_metadata inp, mg_read = False, mg_note = False, mg_hidden = False, mg_sent_at = mi_sent_at inp,
       mg_deleted_at = None, mg_status = MsgDelivered, mg_created = now, mg_updated = now, mg_deleted = False \<rparr>"

text \<open>A reply read back from the platform: delivered, read, written by nobody here.\<close>

definition recovered_message :: "int \<Rightarrow> int \<Rightarrow> InboundMessageInput \<Rightarrow> inbox_message" where
  "recovered_message i now inp = (inbound_message i now inp)\<lparr>mg_direction := DirOutbound, mg_read := True, mg_parent := None\<rparr>"

definition has_platform_id :: "int \<Rightarrow> string \<Rightarrow> inbox_message \<Rightarrow> bool" where
  "has_platform_id enterprise pid m \<longleftrightarrow> mg_enterprise m = enterprise \<and> mg_platform_id m = Some pid"

definition insert_platform_message ::
    "(int \<Rightarrow> int \<Rightarrow> InboundMessageInput \<Rightarrow> inbox_message) \<Rightarrow> InboundMessageInput \<Rightarrow> int option inbox_act" where
  "insert_platform_message mk inp = (\<lambda>db.
     if list_ex (has_platform_id (mi_enterprise inp) (mi_platform_id inp)) (ib_messages db) then Inr (None, db)
     else if \<not> message_refs_ok (mi_enterprise inp) (mi_conversation inp) db then Inl ForeignKeyViolation
     else let i = fresh_id (map mg_id (ib_messages db)) in
       Inr (Some i, db\<lparr>ib_messages := ib_messages db @ [mk i (ib_clock db) inp]\<rparr>))"

definition insertInbound :: "InboundMessageInput \<Rightarrow> int option inbox_act" where
  "insertInbound = insert_platform_message inbound_message"

definition insertRecoveredOutbound :: "InboundMessageInput \<Rightarrow> int option inbox_act" where
  "insertRecoveredOutbound = insert_platform_message recovered_message"

record OutboundMessageInput =
  mo_enterprise :: int
  mo_conversation :: int
  mo_customer :: "int option"
  mo_employee :: int
  mo_body :: string
  mo_idempotency :: "string option"
  mo_parent :: "int option"
  mo_note :: bool

definition outbound_message :: "int \<Rightarrow> int \<Rightarrow> OutboundMessageInput \<Rightarrow> inbox_message" where
  "outbound_message i now inp =
     \<lparr> mg_id = i, mg_enterprise = mo_enterprise inp, mg_conversation = mo_conversation inp, mg_direction = DirOutbound,
       mg_customer = mo_customer inp, mg_employee = Some (mo_employee inp), mg_parent = mo_parent inp,
       mg_inbound_event = None, mg_outbound_event = None, mg_platform_id = None, mg_idempotency = mo_idempotency inp,
       mg_kind = KText, mg_body = Some (mo_body inp), mg_has_attachments = False, mg_metadata = [], mg_read = True,
       mg_note = mo_note inp, mg_hidden = False, mg_sent_at = None, mg_deleted_at = None,
       mg_status = (if mo_note inp then MsgDelivered else MsgPending), mg_created = now, mg_updated = now,
       mg_deleted = False \<rparr>"

definition has_idempotency :: "int \<Rightarrow> string option \<Rightarrow> inbox_message \<Rightarrow> bool" where
  "has_idempotency enterprise key m \<longleftrightarrow> key \<noteq> None \<and> mg_enterprise m = enterprise \<and> mg_idempotency m = key"

definition insertOutbound :: "OutboundMessageInput \<Rightarrow> int inbox_act" where
  "insertOutbound inp = (\<lambda>db.
     if list_ex (has_idempotency (mo_enterprise inp) (mo_idempotency inp)) (ib_messages db) then Inl DuplicateMessage
     else if \<not> message_refs_ok (mo_enterprise inp) (mo_conversation inp) db then Inl ForeignKeyViolation
     else let i = fresh_id (map mg_id (ib_messages db)) in
       Inr (i, db\<lparr>ib_messages := ib_messages db @ [outbound_message i (ib_clock db) inp]\<rparr>))"


text \<open>\<open>metadata->>'key'\<close>, where the value was written as text.\<close>

definition text_field :: "config \<Rightarrow> string \<Rightarrow> string option" where
  "text_field m k = (case map_of m k of Some (JStr s) \<Rightarrow> Some s | _ \<Rightarrow> None)"

definition applyReaction :: "platform_host \<Rightarrow> int \<Rightarrow> string \<Rightarrow> (string option \<times> string option \<times> int) option \<Rightarrow> bool inbox_act" where
  "applyReaction h enterprise pid reaction = (\<lambda>db.
     let hit = (\<lambda>m. has_platform_id enterprise pid m \<and> \<not> mg_deleted m);
         opt = (\<lambda>v. case v of None \<Rightarrow> JNull | Some s \<Rightarrow> JStr s)
     in Inr (list_ex hit (ib_messages db),
          update_messages hit (\<lambda>m. m\<lparr>mg_metadata :=
             (case reaction of
                None \<Rightarrow> filter (\<lambda>(k, v). k \<noteq> ''reaction'') (mg_metadata m)
              | Some (emoji, name, t) \<Rightarrow> merge_json (mg_metadata m)
                  [(''reaction'', JObj [(''emoji'', opt emoji), (''name'', opt name), (''at'', JStr (iso_text h t))])]),
             mg_updated := ib_clock db\<rparr>) db))"

definition markDeletedOnPlatform :: "int \<Rightarrow> string \<Rightarrow> int \<Rightarrow> bool inbox_act" where
  "markDeletedOnPlatform enterprise pid deletedAt = (\<lambda>db.
     let hit = (\<lambda>m. has_platform_id enterprise pid m \<and> \<not> mg_deleted m)
     in Inr (list_ex hit (ib_messages db),
          update_messages hit (\<lambda>m. m\<lparr>mg_deleted_at := orElse (mg_deleted_at m) (Some deletedAt), mg_updated := ib_clock db\<rparr>) db))"

text \<open>\<open>COALESCE(platform_sent_at, created_at)\<close>.\<close>

definition arrival :: "inbox_message \<Rightarrow> int" where
  "arrival m = (case mg_sent_at m of None \<Rightarrow> mg_created m | Some t \<Rightarrow> t)"

definition markSeenByCustomer :: "platform_host \<Rightarrow> int \<Rightarrow> string \<Rightarrow> int \<Rightarrow> nat inbox_act" where
  "markSeenByCustomer h enterprise pid seenAt = (\<lambda>db.
     let hit = (\<lambda>m. list_ex (\<lambda>t. has_platform_id enterprise pid t \<and> mg_enterprise m = mg_enterprise t
                    \<and> mg_conversation m = mg_conversation t \<and> mg_direction m = DirOutbound \<and> \<not> mg_deleted m
                    \<and> map_of (mg_metadata m) ''seenAt'' = None \<and> arrival m \<le> arrival t) (ib_messages db))
     in Inr (length (filter hit (ib_messages db)),
          update_messages hit (\<lambda>m. m\<lparr>mg_metadata := merge_json (mg_metadata m) [(''seenAt'', JStr (iso_text h seenAt))],
            mg_updated := ib_clock db\<rparr>) db))"

record ModerationTarget =
  mt_id :: int
  mt_platform_id :: "string option"
  mt_hidden :: bool
  mt_deleted_on_platform :: bool
  mt_updated :: int

definition in_conversation :: "int \<Rightarrow> int \<Rightarrow> int \<Rightarrow> inbox_message \<Rightarrow> bool" where
  "in_conversation enterprise conversation i m \<longleftrightarrow>
     mg_enterprise m = enterprise \<and> mg_conversation m = conversation \<and> mg_id m = i \<and> \<not> mg_deleted m"

definition lockModerationTarget :: "int \<Rightarrow> int \<Rightarrow> int \<Rightarrow> inbox_db \<Rightarrow> ModerationTarget option" where
  "lockModerationTarget enterprise conversation i db =
     map_option (\<lambda>m. \<lparr> mt_id = mg_id m, mt_platform_id = mg_platform_id m, mt_hidden = mg_hidden m,
         mt_deleted_on_platform = (mg_deleted_at m \<noteq> None), mt_updated = mg_updated m \<rparr>)
       (find (in_conversation enterprise conversation i) (ib_messages db))"

definition findReplyTarget :: "int \<Rightarrow> int \<Rightarrow> int \<Rightarrow> inbox_db \<Rightarrow> (int \<times> string option \<times> bool) option" where
  "findReplyTarget enterprise conversation i db =
     map_option (\<lambda>m. (mg_id m, mg_platform_id m, mg_deleted_at m \<noteq> None))
       (find (in_conversation enterprise conversation i) (ib_messages db))"

datatype OwnModeration = HideComment | UnhideComment | DeleteComment

definition applyOwnModeration :: "int \<Rightarrow> int \<Rightarrow> OwnModeration \<Rightarrow> unit inbox_act" where
  "applyOwnModeration enterprise i action = modifies (\<lambda>db.
     update_messages (\<lambda>m. mg_enterprise m = enterprise \<and> mg_id m = i \<and> \<not> mg_deleted m)
       (\<lambda>m. m\<lparr>mg_hidden := (case action of HideComment \<Rightarrow> True | UnhideComment \<Rightarrow> False | DeleteComment \<Rightarrow> mg_hidden m),
          mg_deleted_at := (if action = DeleteComment then orElse (mg_deleted_at m) (Some (ib_clock db)) else mg_deleted_at m),
          mg_metadata := (if action = DeleteComment then merge_json (mg_metadata m) [(''deletedByBusiness'', JBool True)]
                          else mg_metadata m),
          mg_updated := ib_clock db\<rparr>) db)"

definition applyPlatformModeration :: "int \<Rightarrow> CommentModeration \<Rightarrow> bool inbox_act" where
  "applyPlatformModeration enterprise cm = (\<lambda>db.
     let hit = has_platform_id enterprise (cm_comment cm); action = cm_action cm
     in Inr (list_ex hit (ib_messages db),
          update_messages hit (\<lambda>m. m\<lparr>mg_body := (if action = ModEdited then orElse (cm_text cm) (mg_body m) else mg_body m),
            mg_hidden := (case action of ModHidden \<Rightarrow> True | ModUnhidden \<Rightarrow> False | _ \<Rightarrow> mg_hidden m),
            mg_deleted_at := (if action = ModRemoved then orElse (mg_deleted_at m) (Some (ib_clock db)) else mg_deleted_at m),
            mg_updated := ib_clock db\<rparr>) db))"

definition body_text :: "string option \<Rightarrow> string" where
  "body_text b = (case b of None \<Rightarrow> [] | Some s \<Rightarrow> s)"

definition pending_echo :: "int \<Rightarrow> int \<Rightarrow> string option \<Rightarrow> inbox_message \<Rightarrow> bool" where
  "pending_echo enterprise conversation body m \<longleftrightarrow>
     mg_enterprise m = enterprise \<and> mg_conversation m = conversation \<and> mg_direction m = DirOutbound
     \<and> mg_platform_id m = None \<and> \<not> mg_note m \<and> \<not> mg_deleted m \<and> body_text (mg_body m) = body_text body"

definition claimPendingOutbound :: "int \<Rightarrow> int \<Rightarrow> string option \<Rightarrow> string \<Rightarrow> int option inbox_act" where
  "claimPendingOutbound enterprise conversation body pid = (\<lambda>db.
     case sort_key mg_id (filter (pending_echo enterprise conversation body) (ib_messages db)) of
       [] \<Rightarrow> Inr (None, db)
     | p # _ \<Rightarrow>
         if list_ex (has_platform_id enterprise pid) (ib_messages db) then Inl DuplicateMessage
         else Inr (Some (mg_id p),
           update_messages (\<lambda>m. mg_id m = mg_id p)
             (\<lambda>m. m\<lparr>mg_platform_id := Some pid,
                mg_status := (if mg_status m \<in> {MsgSent, MsgDelivered} then mg_status m else MsgSent),
                mg_sent_at := orElse (mg_sent_at m) (Some (ib_clock db)), mg_updated := ib_clock db\<rparr>) db))"

definition adoptOrphanReplies :: "int \<Rightarrow> int \<Rightarrow> string \<Rightarrow> unit inbox_act" where
  "adoptOrphanReplies enterprise parent pid = modifies (\<lambda>db.
     update_messages (\<lambda>m. mg_enterprise m = enterprise \<and> mg_parent m = None \<and> \<not> mg_deleted m
         \<and> text_field (mg_metadata m) ''replyToPlatformMessageId'' = Some pid \<and> mg_id m \<noteq> parent)
       (\<lambda>m. m\<lparr>mg_parent := Some parent, mg_updated := ib_clock db\<rparr>) db)"

definition findIdByPlatformMessageId :: "int \<Rightarrow> string \<Rightarrow> inbox_db \<Rightarrow> int option" where
  "findIdByPlatformMessageId enterprise pid db =
     map_option mg_id (find (\<lambda>m. has_platform_id enterprise pid m \<and> \<not> mg_deleted m) (ib_messages db))"

definition findIdByPlatformId :: "int \<Rightarrow> string \<Rightarrow> inbox_db \<Rightarrow> int option" where
  "findIdByPlatformId enterprise pid db = map_option mg_id (find (has_platform_id enterprise pid) (ib_messages db))"

definition findByIdempotencyKey :: "int \<Rightarrow> string \<Rightarrow> inbox_db \<Rightarrow> inbox_message option" where
  "findByIdempotencyKey enterprise key db = find (has_idempotency enterprise (Some key)) (ib_messages db)"

definition linkOutboundEvent :: "int \<Rightarrow> int \<Rightarrow> int \<Rightarrow> unit inbox_act" where
  "linkOutboundEvent enterprise i event =
     modifies (update_messages (\<lambda>m. mg_id m = i \<and> mg_enterprise m = enterprise) (\<lambda>m. m\<lparr>mg_outbound_event := Some event\<rparr>))"

text \<open>The delivery write-back, as \<open>Outbox_Relay\<close> has it on its own rows. A platform id that another
  message holds is refused by the index.\<close>

definition recordInboxDelivery :: "int \<Rightarrow> int \<Rightarrow> string option \<Rightarrow> MessageStatus \<Rightarrow> unit inbox_act" where
  "recordInboxDelivery enterprise event pid status = (\<lambda>db.
     let hit = (\<lambda>m. mg_enterprise m = enterprise \<and> mg_outbound_event m = Some event);
         rows = update_where hit (\<lambda>m. m\<lparr>mg_platform_id := orElse pid (mg_platform_id m), mg_status := status,
                  mg_sent_at := (if status = MsgSent then Some (ib_clock db) else mg_sent_at m)\<rparr>) (ib_messages db)
     in if distinct (map (\<lambda>m. (mg_enterprise m, mg_platform_id m)) (filter (\<lambda>m. mg_platform_id m \<noteq> None) rows))
        then Inr ((), db\<lparr>ib_messages := rows\<rparr>) else Inl DuplicateMessage)"

section \<open>Attachments and posts\<close>

definition insertAttachments :: "int \<Rightarrow> int \<Rightarrow> normalized_attachment list \<Rightarrow> unit inbox_act" where
  "insertAttachments enterprise i as =
     modifies (\<lambda>db. db\<lparr>ib_attachments := ib_attachments db
       @ map (\<lambda>a. \<lparr> at_enterprise = enterprise, at_message = i, at_kind = na_kind a, at_url = na_url a, at_order = na_order a,
                   at_metadata = na_metadata a \<rparr>) as\<rparr>)"

definition findIdByPlatformPostId :: "int \<Rightarrow> int \<Rightarrow> string \<Rightarrow> inbox_db \<Rightarrow> int option" where
  "findIdByPlatformPostId enterprise channel pid db =
     map_option po_id (find (\<lambda>p. po_enterprise p = enterprise \<and> po_channel p = channel \<and> po_platform_id p = pid) (ib_posts db))"

record UpsertPostInput =
  ps_enterprise :: int
  ps_channel :: int
  ps_platform :: Platform
  ps_platform_id :: string
  ps_kind :: PostKind
  ps_caption :: "string option"
  ps_permalink :: "string option"
  ps_published :: "int option"
  ps_comments :: "int option"
  ps_likes :: "int option"
  ps_shares :: "int option"
  ps_media :: "json option"

definition or_zero :: "int option \<Rightarrow> int" where "or_zero n = (case n of None \<Rightarrow> 0 | Some k \<Rightarrow> k)"

text \<open>\<open>media\<close> is \<open>{}\<close> when none is known, here \<open>None\<close>.\<close>

definition known_media :: "json option \<Rightarrow> json option" where
  "known_media m = (if m = Some (JObj []) then None else m)"

definition refresh_post :: "UpsertPostInput \<Rightarrow> post_row \<Rightarrow> post_row" where
  "refresh_post u p = p\<lparr>po_kind := ps_kind u, po_caption := orElse (ps_caption u) (po_caption p),
     po_permalink := orElse (ps_permalink u) (po_permalink p), po_published := orElse (ps_published u) (po_published p),
     po_comments := max (or_zero (ps_comments u)) (po_comments p), po_likes := max (or_zero (ps_likes u)) (po_likes p),
     po_shares := max (or_zero (ps_shares u)) (po_shares p), po_media := orElse (known_media (ps_media u)) (po_media p), po_deleted := False\<rparr>"

definition upsertPost :: "UpsertPostInput \<Rightarrow> (int \<times> bool) inbox_act" where
  "upsertPost u = (\<lambda>db.
     let same = (\<lambda>p. po_channel p = ps_channel u \<and> po_platform_id p = ps_platform_id u) in
     case find same (ib_posts db) of
       Some p \<Rightarrow> Inr ((po_id p, False), db\<lparr>ib_posts := update_where same (refresh_post u) (ib_posts db)\<rparr>)
     | None \<Rightarrow>
         let i = fresh_id (map po_id (ib_posts db)) in
         Inr ((i, True), db\<lparr>ib_posts := ib_posts db
           @ [\<lparr> po_id = i, po_enterprise = ps_enterprise u, po_channel = ps_channel u, po_platform = ps_platform u,
                po_platform_id = ps_platform_id u, po_kind = ps_kind u, po_caption = ps_caption u,
                po_permalink = ps_permalink u, po_published = ps_published u, po_comments = or_zero (ps_comments u),
                po_likes = or_zero (ps_likes u), po_shares = or_zero (ps_shares u), po_media = known_media (ps_media u),
                po_deleted = False \<rparr>]\<rparr>))"

end
