(* ===== verification/Inbox_Projectors.thy ===== *)
theory Inbox_Projectors
  imports Inbox_Store Inbound_Ledger
begin

text \<open>
  How a delivered event becomes rows: \<open>comment-projector.service.ts\<close> (comments, mentions and what
  the platform says of either later), \<open>direct-message-projector.service.ts\<close> (messages of both sides,
  reactions, receipts, removals and edits) and \<open>post-projector.service.ts\<close>. \<open>inbox_projection\<close> hands
  them to the projector worker of \<open>Inbound_Ledger\<close>.

  The Mentions API and the token cipher are the record \<open>projector_env\<close>. What \<open>runInTransaction\<close>
  encloses is one \<open>act\<close>: it happens whole or, when it throws, not at all.
\<close>

section \<open>What a projector reports\<close>

record trigger_facts =
  tf_enterprise :: int
  tf_customer :: int
  tf_channel :: "int option"
  tf_message :: int
  tf_occurred :: int
  tf_content :: "string option"
  tf_kind :: RewardTriggerKind

record reversal_facts =
  rf_enterprise :: int
  rf_message :: int
  rf_reason :: string

type_synonym inbox_outcome = "(trigger_facts, reversal_facts) projection_outcome"

definition skipped :: "string \<Rightarrow> inbox_outcome" where
  "skipped reason = \<lparr> projected = False, not_projected_because = Some reason, offered = None, withdrawn = None \<rparr>"

definition stored :: "trigger_facts option \<Rightarrow> reversal_facts option \<Rightarrow> inbox_outcome" where
  "stored trigger reversal = \<lparr> projected = True, not_projected_because = None, offered = trigger, withdrawn = reversal \<rparr>"

record mention_resolution =
  mr_author :: "string option"
  mr_text :: "string option"
  mr_timestamp :: "string option"
  mr_permalink :: "string option"
  mr_owner :: "string option"
  mr_media_id :: "string option"
  mr_media :: "json option"
  mr_replies :: "json list"
  mr_parent :: "json option"
  mr_parent_id :: "string option"
  mr_like_count :: "int option"
  mr_post_comments :: "json list"

record projector_env =
  pj_host :: platform_host
  pj_decrypt :: "string \<Rightarrow> string option"
  pj_mention :: "string \<Rightarrow> string option \<Rightarrow> string option \<Rightarrow> string \<Rightarrow> send_failure + mention_resolution option"

section \<open>Comments and mentions\<close>

definition MAX_CONVERSATION_SUBJECT_CHARS :: nat where "MAX_CONVERSATION_SUBJECT_CHARS = 500"

definition OWN_CONTENT_REASON :: string where
  "OWN_CONTENT_REASON = ''the comment is the business's own, not a customer's''"

definition isOwnAuthor :: "string \<Rightarrow> string list \<Rightarrow> bool" where
  "isOwnAuthor author own = list_ex (\<lambda>i. i = author) own"

definition userIdKind :: "Platform \<Rightarrow> IdentifierKind" where
  "userIdKind platform = (if platform = Instagram then InstagramUserId else FacebookUserId)"

definition commentSource :: "Platform \<Rightarrow> CustomerFirstSource" where
  "commentSource platform = (if platform = Instagram then SourceInstagramComment else SourceFacebookComment)"

definition dmSource :: "Platform \<Rightarrow> CustomerFirstSource" where
  "dmSource platform = (if platform = Instagram then SourceInstagramDm else SourceFacebookDm)"

definition comment_kind :: "Platform \<Rightarrow> CanonicalComment \<Rightarrow> IdentifierKind" where
  "comment_kind platform c = (case cc_author_kind c of Some k \<Rightarrow> k | None \<Rightarrow> userIdKind platform)"

definition now_act :: "int inbox_act" where "now_act = reads ib_clock"

definition find_post :: "int \<Rightarrow> int \<Rightarrow> string option \<Rightarrow> inbox_db \<Rightarrow> int option" where
  "find_post enterprise channel post db =
     (if truthy_text post then findIdByPlatformPostId enterprise channel (text_of post) db else None)"

definition store_customer :: "platform_host \<Rightarrow> int \<Rightarrow> int \<Rightarrow> Platform \<Rightarrow> CanonicalComment \<Rightarrow> CustomerResolution inbox_act" where
  "store_customer h enterprise channel platform c =
     bnd (resolveOrCreate \<lparr> in_customer_enterprise = enterprise, in_customer_kind = comment_kind platform c,
            in_customer_value = cc_author c, in_customer_name = normalizeOptionalText h (cc_author_name c),
            in_customer_source = commentSource platform, in_customer_channel = channel \<rparr>) (\<lambda>customer.
     andThen
       (if truthy_text (cc_author_handle c) \<and> comment_kind platform c \<noteq> InstagramUsername
        then bnd (linkIdentifier enterprise (res_customer customer) InstagramUsername (text_of (cc_author_handle c))) (\<lambda>_. ret ())
        else ret ())
       (ret customer))"

definition store_thread ::
    "platform_host \<Rightarrow> int \<Rightarrow> int \<Rightarrow> Platform \<Rightarrow> CanonicalComment \<Rightarrow> ConversationKind \<Rightarrow> CustomerResolution
      \<Rightarrow> UpsertConversationResult inbox_act" where
  "store_thread h enterprise channel platform c kind customer =
     bnd (reads (find_post enterprise channel (cc_post c))) (\<lambda>post.
     upsertConversation \<lparr> up_enterprise = enterprise, up_channel = channel, up_customer = res_customer customer,
       up_identifier = Some (res_identifier customer), up_post = post, up_platform = platform, up_kind = kind,
       up_thread = composeThreadKey kind (cc_root c),
       up_subject = map_option (take MAX_CONVERSATION_SUBJECT_CHARS) (normalizeOptionalText h (cc_text c)),
       up_context = (if kind = Mention then (case cc_metadata c of None \<Rightarrow> [] | Some m \<Rightarrow> m) else []) \<rparr>)"

definition store_message ::
    "int \<Rightarrow> int \<Rightarrow> CanonicalComment \<Rightarrow> CustomerResolution \<Rightarrow> UpsertConversationResult \<Rightarrow> int option inbox_act" where
  "store_message enterprise event c customer thread =
     bnd (reads (\<lambda>db. if truthy_text (cc_parent c) then findIdByPlatformId enterprise (text_of (cc_parent c)) db else None)) (\<lambda>parent.
     insertInbound \<lparr> mi_enterprise = enterprise, mi_conversation = ur_id thread, mi_customer = res_customer customer,
       mi_event = event, mi_platform_id = cc_comment c, mi_kind = KText, mi_body = cc_text c, mi_sent_at = cc_created c,
       mi_parent = parent, mi_has_attachments = False,
       mi_metadata = (case cc_metadata c of None \<Rightarrow> [] | Some m \<Rightarrow> m) \<rparr>)"

text \<open>The counters of a message that was stored, shared by comments and direct messages.\<close>

definition count_inbound ::
    "int \<Rightarrow> int \<Rightarrow> Platform \<Rightarrow> CustomerResolution \<Rightarrow> UpsertConversationResult \<Rightarrow> int \<Rightarrow> unit inbox_act" where
  "count_inbound enterprise channel platform customer thread occurredAt =
     andThen (recordMessage enterprise (ur_id thread) True occurredAt)
     (andThen (touchLastSeen enterprise (res_customer customer) (Some channel))
       (recordEngagement \<lparr> eg_enterprise = enterprise, eg_customer = res_customer customer, eg_channel = channel,
          eg_platform = platform, eg_inbound = True, eg_conversation = Some (ur_id thread), eg_created = ur_created thread \<rparr>))"

definition store ::
    "platform_host \<Rightarrow> int \<Rightarrow> int \<Rightarrow> Platform \<Rightarrow> int \<Rightarrow> CanonicalComment \<Rightarrow> ConversationKind \<Rightarrow> inbox_outcome inbox_act" where
  "store h enterprise channel platform event c kind =
     bnd (store_customer h enterprise channel platform c) (\<lambda>customer.
     bnd (store_thread h enterprise channel platform c kind customer) (\<lambda>thread.
     bnd (store_message enterprise event c customer thread) (\<lambda>inserted.
       case inserted of
         None \<Rightarrow> ret (skipped ''the comment was already projected'')
       | Some i \<Rightarrow>
           bnd now_act (\<lambda>now.
           let occurredAt = (case cc_created c of None \<Rightarrow> now | Some t \<Rightarrow> t) in
           andThen (count_inbound enterprise channel platform customer thread occurredAt)
             (ret (stored (Some \<lparr> tf_enterprise = enterprise, tf_customer = res_customer customer, tf_channel = Some channel,
                tf_message = i, tf_occurred = occurredAt, tf_content = cc_text c,
                tf_kind = (if kind = Mention then CommentOnMentionedPost else CommentOnOwnPost) \<rparr>) None))))))"

fun moderation_text :: "ModerationAction \<Rightarrow> string" where
  "moderation_text ModEdited = ''edited''"
| "moderation_text ModRemoved = ''removed''"
| "moderation_text ModHidden = ''hidden''"
| "moderation_text ModUnhidden = ''unhidden''"

definition reversal_reason :: "ModerationAction \<Rightarrow> string option" where
  "reversal_reason a = (case a of ModRemoved \<Rightarrow> Some ''content_removed'' | ModHidden \<Rightarrow> Some ''content_hidden'' | _ \<Rightarrow> None)"

definition applyModeration :: "int \<Rightarrow> CommentModeration \<Rightarrow> inbox_outcome inbox_act" where
  "applyModeration enterprise cm =
     bnd (applyPlatformModeration enterprise cm) (\<lambda>applied.
       if \<not> applied
       then ret (skipped (''nothing stored for comment '' @ cm_comment cm @ '' to '' @ moderation_text (cm_action cm)))
       else case reversal_reason (cm_action cm) of
           None \<Rightarrow> ret (stored None None)
         | Some reason \<Rightarrow>
             bnd (reads (findIdByPlatformId enterprise (cm_comment cm))) (\<lambda>found.
               ret (stored None (map_option (\<lambda>i. \<lparr> rf_enterprise = enterprise, rf_message = i, rf_reason = reason \<rparr>) found))))"

definition projectComment :: "projector_env \<Rightarrow> projector_input \<Rightarrow> comment_payload \<Rightarrow> inbox_outcome inbox_act" where
  "projectComment env inp payload =
     (case normalizeComment (pj_host env) (pi_platform inp) payload of
        NSkip reason \<Rightarrow> ret (skipped reason)
      | NModeration cm \<Rightarrow> applyModeration (pi_enterprise inp) cm
      | NComment c \<Rightarrow>
          if isOwnAuthor (cc_author c) (pi_own_ids inp) then ret (skipped OWN_CONTENT_REASON)
          else store (pj_host env) (pi_enterprise inp) (pi_channel inp) (pi_platform inp) (pi_event inp) c CommentThread)"

text \<open>\<open>None\<close> is a failure worth another try; otherwise the payload, filled in where the platform answered.\<close>

definition filled_in :: "instagram_mention \<Rightarrow> mention_resolution \<Rightarrow> instagram_mention" where
  "filled_in v r = v\<lparr>im_username := mr_author r, im_caption := mr_text r, im_timestamp := mr_timestamp r,
     im_permalink := mr_permalink r, im_owner_username := mr_owner r, im_media_id := orElse (mr_media_id r) (im_media_id v),
     im_kind := Some (mention_kind_text (if truthy_text (im_comment_id v) then CommentMention else CaptionMention)),
     im_media := mr_media r, im_replies := mr_replies r, im_parent := mr_parent r, im_parent_id := mr_parent_id r,
     im_like_count := mr_like_count r, im_post_comments := mr_post_comments r\<rparr>"

definition resolveInstagramMention ::
    "projector_env \<Rightarrow> int \<Rightarrow> int \<Rightarrow> instagram_mention \<Rightarrow> inbox_db \<Rightarrow> instagram_mention option" where
  "resolveInstagramMention env enterprise channel v db =
     (if truthy_text (im_username v) then Some v
      else if \<not> truthy_text (im_comment_id v) \<and> \<not> truthy_text (im_media_id v) then Some v
      else case findBackfillContext (ib_channels db) enterprise channel of
        None \<Rightarrow> Some v
      | Some ctx \<Rightarrow>
          if \<not> truthy_text (b_token ctx) \<or> b_platform_id ctx = [] then Some v
          else if b_reauth ctx then Some v
          else case pj_decrypt env (text_of (b_token ctx)) of
            None \<Rightarrow> Some v
          | Some token \<Rightarrow>
              (case pj_mention env (b_platform_id ctx) (im_comment_id v) (im_media_id v) token of
                 Inr None \<Rightarrow> Some v
               | Inr (Some r) \<Rightarrow> Some (filled_in v r)
               | Inl (Thrown _) \<Rightarrow> Some v
               | Inl (GraphFailure e) \<Rightarrow> if retryable (mapGraphError e) then None else Some v))"

definition resolve_mention :: "projector_env \<Rightarrow> projector_input \<Rightarrow> mention_payload \<Rightarrow> inbox_db \<Rightarrow> mention_payload option" where
  "resolve_mention env inp payload db =
     (case payload of
        InstagramMention v \<Rightarrow>
          if pi_platform inp = Instagram
          then map_option InstagramMention (resolveInstagramMention env (pi_enterprise inp) (pi_channel inp) v db)
          else Some payload
      | FacebookMention _ \<Rightarrow> Some payload)"

definition projectMention :: "projector_env \<Rightarrow> projector_input \<Rightarrow> mention_payload \<Rightarrow> inbox_outcome inbox_act" where
  "projectMention env inp payload =
     bnd (reads (resolve_mention env inp payload)) (\<lambda>resolved.
       case resolved of
         None \<Rightarrow> throw MentionsApiUnreachable
       | Some p \<Rightarrow>
           bnd now_act (\<lambda>now.
             case normalizeMention (pj_host env) now (pi_platform inp) p of
               NSkip reason \<Rightarrow> ret (skipped reason)
             | NModeration cm \<Rightarrow> applyModeration (pi_enterprise inp) cm
             | NComment c \<Rightarrow>
                 if isOwnAuthor (cc_author c) (pi_own_ids inp) then ret (skipped OWN_CONTENT_REASON)
                 else bnd (reads (find_post (pi_enterprise inp) (pi_channel inp) (cc_post c))) (\<lambda>ownPost.
                   store (pj_host env) (pi_enterprise inp) (pi_channel inp) (pi_platform inp) (pi_event inp) c
                     (if ownPost \<noteq> None then CommentThread else Mention))))"


section \<open>Direct messages\<close>

definition ORPHAN_EDIT_GRACE_ATTEMPTS :: int where "ORPHAN_EDIT_GRACE_ATTEMPTS = 1"

definition event_time :: "messaging_event \<Rightarrow> int option" where
  "event_time e = (case ev_timestamp e of None \<Rightarrow> None | Some t \<Rightarrow> if t = 0 then None else Some t)"

definition event_time_or :: "int \<Rightarrow> messaging_event \<Rightarrow> int" where
  "event_time_or now e = (case event_time e of None \<Rightarrow> now | Some t \<Rightarrow> t)"

definition enqueue_resync :: "int \<Rightarrow> int \<Rightarrow> SyncTriggerKind \<Rightarrow> string \<Rightarrow> bool inbox_act" where
  "enqueue_resync enterprise channel trigger person = (\<lambda>db.
     case enqueueIfAbsent (ib_clock db) \<lparr> es_enterprise = enterprise, es_channel = channel, es_kind = ResyncConversation,
            es_trigger = trigger, es_target = Some person \<rparr> (ib_sync db) of
       (queued, js) \<Rightarrow> Inr (queued, db\<lparr>ib_sync := js\<rparr>))"

definition handleReaction :: "platform_host \<Rightarrow> int \<Rightarrow> messaging_event \<Rightarrow> dm_reaction \<Rightarrow> inbox_outcome inbox_act" where
  "handleReaction h enterprise e r =
     bnd now_act (\<lambda>now.
     bnd (applyReaction h enterprise (text_of (re_mid r))
            (if re_removing r then None else Some (re_emoji r, re_name r, event_time_or now e))) (\<lambda>applied.
       ret (skipped (if \<not> applied then ''a reaction to a message we do not hold''
                     else if re_removing r then ''a reaction removed'' else ''a reaction recorded''))))"

definition handleRead :: "platform_host \<Rightarrow> int \<Rightarrow> messaging_event \<Rightarrow> string \<Rightarrow> inbox_outcome inbox_act" where
  "handleRead h enterprise e mid =
     bnd now_act (\<lambda>now.
     bnd (markSeenByCustomer h enterprise mid (event_time_or now e)) (\<lambda>marked.
       ret (skipped (if 0 < marked then show_nat marked @ '' message(s) marked as seen''
                     else ''a read receipt we cannot place''))))"

definition handleUnsend :: "int \<Rightarrow> messaging_event \<Rightarrow> string \<Rightarrow> inbox_outcome inbox_act" where
  "handleUnsend enterprise e mid =
     bnd now_act (\<lambda>now.
     bnd (markDeletedOnPlatform enterprise mid (event_time_or now e)) (\<lambda>marked.
       ret (skipped (if marked then ''the customer unsent this message; the record is kept''
                     else ''an unsend for a message we do not hold''))))"

definition handleMessageEdit :: "int \<Rightarrow> int \<Rightarrow> messaging_event \<Rightarrow> string \<Rightarrow> int \<Rightarrow> inbox_outcome inbox_act" where
  "handleMessageEdit enterprise channel e mid tries =
     bnd (reads (findIdByPlatformMessageId enterprise mid)) (\<lambda>held.
       if held \<noteq> None then ret (skipped ''a message_edit for a message we already hold'')
       else if \<not> truthy_text (ev_sender e) then ret (skipped ''a message_edit for an unknown message, with no sender'')
       else if tries \<le> ORPHAN_EDIT_GRACE_ATTEMPTS then throw WaitingForOrphanEdit
       else bnd (enqueue_resync enterprise channel Scheduled (text_of (ev_sender e))) (\<lambda>queued.
         ret (skipped (if queued then ''a message_edit for a message we never received - resync queued''
                       else ''a message_edit for a message we never received - a resync is already in flight''))))"

definition dm_customer ::
    "int \<Rightarrow> int \<Rightarrow> Platform \<Rightarrow> string \<Rightarrow> string option \<Rightarrow> CustomerResolution inbox_act" where
  "dm_customer enterprise channel platform person name =
     resolveOrCreate \<lparr> in_customer_enterprise = enterprise, in_customer_kind = userIdKind platform,
       in_customer_value = person, in_customer_name = name, in_customer_source = dmSource platform,
       in_customer_channel = channel \<rparr>"

definition dm_thread :: "int \<Rightarrow> int \<Rightarrow> Platform \<Rightarrow> string \<Rightarrow> CustomerResolution \<Rightarrow> UpsertConversationResult inbox_act" where
  "dm_thread enterprise channel platform person customer =
     upsertConversation \<lparr> up_enterprise = enterprise, up_channel = channel, up_customer = res_customer customer,
       up_identifier = Some (res_identifier customer), up_post = None, up_platform = platform, up_kind = DirectMessage,
       up_thread = composeThreadKey DirectMessage person, up_subject = None, up_context = [] \<rparr>"

definition dm_facts :: "messaging_event \<Rightarrow> dm_message \<Rightarrow> normalized_media \<Rightarrow> config" where
  "dm_facts e m media = buildPlatformFacts m e (nm_story_mention media)
     @ (if content_unavailable e m media then [(''contentUnavailable'', JBool True)] else [])"

definition ask_for_name :: "int \<Rightarrow> int \<Rightarrow> messaging_event \<Rightarrow> string \<Rightarrow> CustomerResolution \<Rightarrow> unit inbox_act" where
  "ask_for_name enterprise channel e person customer =
     (if res_created customer \<and> \<not> truthy_text (ev_sender_name e) \<and> \<not> truthy_text (ev_sender_username e)
      then bnd (enqueue_resync enterprise channel Scheduled person) (\<lambda>_. ret ()) else ret ())"

definition link_handle :: "int \<Rightarrow> Platform \<Rightarrow> messaging_event \<Rightarrow> CustomerResolution \<Rightarrow> unit inbox_act" where
  "link_handle enterprise platform e customer =
     (if platform = Instagram \<and> truthy_text (ev_sender_username e)
      then bnd (linkIdentifier enterprise (res_customer customer) InstagramUsername (text_of (ev_sender_username e))) (\<lambda>_. ret ())
      else ret ())"

definition dm_insert ::
    "int \<Rightarrow> int \<Rightarrow> messaging_event \<Rightarrow> dm_message \<Rightarrow> normalized_media \<Rightarrow> CustomerResolution \<Rightarrow> UpsertConversationResult
      \<Rightarrow> int option inbox_act" where
  "dm_insert enterprise event e m media customer thread =
     bnd (reads (\<lambda>db. if truthy_text (dm_reply_mid m) then findIdByPlatformMessageId enterprise (text_of (dm_reply_mid m)) db
                      else None)) (\<lambda>parent.
     insertInbound \<lparr> mi_enterprise = enterprise, mi_conversation = ur_id thread, mi_customer = res_customer customer,
       mi_event = event, mi_platform_id = text_of (dm_mid m), mi_kind = nm_kind media, mi_body = dm_text m,
       mi_sent_at = event_time e, mi_parent = parent, mi_has_attachments = (nm_attachments media \<noteq> []),
       mi_metadata = dm_facts e m media \<rparr>)"

definition storeDirectMessage ::
    "platform_host \<Rightarrow> projector_input \<Rightarrow> messaging_event \<Rightarrow> dm_message \<Rightarrow> string \<Rightarrow> inbox_outcome inbox_act" where
  "storeDirectMessage h inp e m person =
     (let enterprise = pi_enterprise inp; channel = pi_channel inp; platform = pi_platform inp;
          media = normalizeAttachments h (dm_attachments m) in
     bnd (dm_customer enterprise channel platform person (normalizeOptionalText h (ev_sender_name e))) (\<lambda>customer.
     andThen (ask_for_name enterprise channel e person customer)
     (andThen (link_handle enterprise platform e customer)
     (bnd (dm_thread enterprise channel platform person customer) (\<lambda>thread.
      bnd (dm_insert enterprise (pi_event inp) e m media customer thread) (\<lambda>inserted.
       case inserted of
         None \<Rightarrow> ret (skipped ''the message was already projected'')
       | Some i \<Rightarrow>
           andThen (adoptOrphanReplies enterprise i (text_of (dm_mid m)))
           (andThen (insertAttachments enterprise i (nm_attachments media))
           (bnd now_act (\<lambda>now.
            andThen (count_inbound enterprise channel platform customer thread (event_time_or now e))
             (ret (stored (Some \<lparr> tf_enterprise = enterprise, tf_customer = res_customer customer, tf_channel = Some channel,
                tf_message = i, tf_occurred = event_time_or now e, tf_content = dm_text m,
                tf_kind = resolveDirectMessageTrigger (dm_facts e m media) \<rparr>) None)))))))))))"

definition recover_own ::
    "projector_input \<Rightarrow> messaging_event \<Rightarrow> dm_message \<Rightarrow> normalized_media \<Rightarrow> CustomerResolution \<Rightarrow> UpsertConversationResult
      \<Rightarrow> inbox_outcome inbox_act" where
  "recover_own inp e m media customer thread =
     (let enterprise = pi_enterprise inp; pid = text_of (dm_mid m) in
     bnd (insertRecoveredOutbound \<lparr> mi_enterprise = enterprise, mi_conversation = ur_id thread,
            mi_customer = res_customer customer, mi_event = pi_event inp, mi_platform_id = pid, mi_kind = nm_kind media,
            mi_body = dm_text m, mi_sent_at = event_time e, mi_parent = None,
            mi_has_attachments = (nm_attachments media \<noteq> []),
            mi_metadata = [(''recoveredFromPlatform'', JBool True)] \<rparr>) (\<lambda>inserted.
       case inserted of
         None \<Rightarrow> ret (skipped ''our own message was already recorded'')
       | Some i \<Rightarrow>
           andThen (insertAttachments enterprise i (nm_attachments media))
           (andThen (adoptOrphanReplies enterprise i pid)
           (bnd now_act (\<lambda>now.
            andThen (recordMessage enterprise (ur_id thread) False (event_time_or now e)) (ret (stored None None)))))))"

definition projectOwnMessage :: "platform_host \<Rightarrow> projector_input \<Rightarrow> messaging_event \<Rightarrow> dm_message \<Rightarrow> inbox_outcome inbox_act" where
  "projectOwnMessage h inp e m =
     (let enterprise = pi_enterprise inp; channel = pi_channel inp; platform = pi_platform inp;
          person = text_of (ev_recipient e); pid = text_of (dm_mid m);
          media = normalizeAttachments h (dm_attachments m) in
      if \<not> truthy_text (ev_recipient e) then ret (skipped ''our own message names no recipient'')
      else if ev_recipient e = ev_sender e then ret (skipped ''our own message names us as its recipient'')
      else
        bnd (dm_customer enterprise channel platform person None) (\<lambda>customer.
        bnd (dm_thread enterprise channel platform person customer) (\<lambda>thread.
        bnd (reads (findIdByPlatformMessageId enterprise pid)) (\<lambda>held.
          if held \<noteq> None then ret (skipped ''an echo of a message we already recorded'')
          else bnd (claimPendingOutbound enterprise (ur_id thread) (dm_text m) pid) (\<lambda>claimed.
            case claimed of
              Some i \<Rightarrow> andThen (adoptOrphanReplies enterprise i pid)
                 (ret (skipped ''an echo of a send still in flight; its id is recorded''))
            | None \<Rightarrow> recover_own inp e m media customer thread)))))"

text \<open>What is neither an edit nor a reaction.\<close>

definition projectMessage :: "projector_env \<Rightarrow> projector_input \<Rightarrow> messaging_event \<Rightarrow> inbox_outcome inbox_act" where
  "projectMessage env inp e =
     (let enterprise = pi_enterprise inp; h = pj_host env in
      if truthy_text (ev_read_mid e) then handleRead h enterprise e (text_of (ev_read_mid e))
      else case event_message e of
        None \<Rightarrow>
          ret (skipped (if ev_optin e then ''a messaging opt-in, which is consent rather than a message''
                        else ''the event carries no message id''))
      | Some m \<Rightarrow>
          if truthy_text (dm_mid m) \<and> dm_deleted m then handleUnsend enterprise e (text_of (dm_mid m))
          else if \<not> truthy_text (dm_mid m) then
            ret (skipped (if ev_optin e then ''a messaging opt-in, which is consent rather than a message''
                          else ''the event carries no message id''))
          else if dm_echo m then projectOwnMessage h inp e m
          else if \<not> truthy_text (ev_sender e) then ret (skipped ''the message names no sender'')
          else storeDirectMessage h inp e m (text_of (ev_sender e)))"

definition projectDirectMessage :: "projector_env \<Rightarrow> projector_input \<Rightarrow> messaging_event \<Rightarrow> inbox_outcome inbox_act" where
  "projectDirectMessage env inp e =
     (if truthy_text (ev_edit_mid e)
      then handleMessageEdit (pi_enterprise inp) (pi_channel inp) e (text_of (ev_edit_mid e)) (pi_attempt inp)
      else case ev_reaction e of
        None \<Rightarrow> projectMessage env inp e
      | Some r \<Rightarrow> if truthy_text (re_mid r) then handleReaction (pj_host env) (pi_enterprise inp) e r
                  else projectMessage env inp e)"

section \<open>Posts\<close>

definition projectPost :: "projector_env \<Rightarrow> projector_input \<Rightarrow> post_payload \<Rightarrow> inbox_outcome inbox_act" where
  "projectPost env inp v =
     (let h = pj_host env; platform = pi_platform inp in
      if \<not> truthy_text (pp_post_id v) then ret (skipped ''the event names no post'')
      else bnd (upsertPost \<lparr> ps_enterprise = pi_enterprise inp, ps_channel = pi_channel inp, ps_platform = platform,
             ps_platform_id = text_of (pp_post_id v), ps_kind = toPostKind (orElse (pp_kind v) (pp_item v)) platform,
             ps_caption = normalizeOptionalText h (orElse (pp_caption v) (pp_message v)),
             ps_permalink = orElse (pp_permalink v) (pp_link v), ps_published = published_at h v,
             ps_comments = pp_comments v, ps_likes = pp_likes v, ps_shares = pp_shares v, ps_media = pp_media v \<rparr>)
             (\<lambda>_. ret (stored None None)))"

section \<open>The registered projectors\<close>

datatype inbox_payload =
  CommentPayload comment_payload | MentionPayload mention_payload | MessagePayload messaging_event
| PostPayload post_payload | OtherPayload

definition no_event :: messaging_event where
  "no_event = \<lparr> ev_sender = None, ev_sender_name = None, ev_sender_username = None, ev_recipient = None,
     ev_recovered = False, ev_reaction = None, ev_read_mid = None, ev_timestamp = None, ev_message = None,
     ev_edit_mid = None, ev_postback = None, ev_optin = False, ev_referral = None \<rparr>"

definition no_post :: post_payload where
  "no_post = \<lparr> pp_item = None, pp_message = None, pp_created_time = None, pp_link = None, pp_post_id = None,
     pp_caption = None, pp_permalink = None, pp_published_at = None, pp_kind = None, pp_comments = None, pp_likes = None,
     pp_shares = None, pp_media = None \<rparr>"

text \<open>The projector is chosen by the event's type. The webhook gives a payload the type its shape calls
  for, so a payload of another shape is read as an empty one.\<close>

definition project_inbox :: "projector_env \<Rightarrow> InboundEventType \<Rightarrow> projector_input \<Rightarrow> inbox_payload \<Rightarrow> inbox_outcome inbox_act" where
  "project_inbox env ty inp p =
     (case ty of
        InComment \<Rightarrow> projectComment env inp (case p of CommentPayload c \<Rightarrow> c | _ \<Rightarrow> FacebookComment no_facebook_comment)
      | InMention \<Rightarrow> projectMention env inp (case p of MentionPayload c \<Rightarrow> c | _ \<Rightarrow> FacebookMention no_facebook_mention)
      | InDirectMessage \<Rightarrow> projectDirectMessage env inp (case p of MessagePayload e \<Rightarrow> e | _ \<Rightarrow> no_event)
      | InPostUpdate \<Rightarrow> projectPost env inp (case p of PostPayload v \<Rightarrow> v | _ \<Rightarrow> no_post)
      | _ \<Rightarrow> ret (skipped ''no projector''))"

fun inbox_error_text :: "inbox_error \<Rightarrow> string" where
  "inbox_error_text WaitingForOrphanEdit = ''a message_edit arrived before the message it names''"
| "inbox_error_text MentionsApiUnreachable = ''the mentions api could not be reached; this mention will be retried''"
| "inbox_error_text _ = ''projection failed''"

text \<open>The worker catches what a projector throws; the transaction has been rolled back by then.\<close>

definition inbox_projection ::
    "projector_env \<Rightarrow> (trigger_facts \<Rightarrow> 'r \<Rightarrow> 'r) \<Rightarrow> (reversal_facts \<Rightarrow> 'r \<Rightarrow> 'r) \<Rightarrow> rat
      \<Rightarrow> (inbox_payload, trigger_facts, reversal_facts, inbox_db \<times> 'r) projection_env" where
  "inbox_projection env trigger reversal r =
     \<lparr> project = (\<lambda>ty inp p d. case project_inbox env ty inp p (fst d) of
           Inl e \<Rightarrow> (Inl (inbox_error_text e), d)
         | Inr (outcome, db) \<Rightarrow> (Inr outcome, (db, snd d))),
       onTrigger = (\<lambda>g d. (fst d, trigger g (snd d))),
       onReversal = (\<lambda>v d. (fst d, reversal v (snd d))),
       retry_draw = r \<rparr>"

end
