(* ===== verification/Inbox_Service.thy ===== *)
theory Inbox_Service
  imports Inbox_Projectors
begin

text \<open>
  What an agent does in the inbox (\<open>modules/inbox/inbox.service.ts\<close>): reply and note, assign, change
  the status, mark read, hide, unhide or delete a comment, and ask for a thread to be read again.
  Audit rows and live notifications are left out, as are the listings and \<open>retryModeration\<close>, which
  \<open>Outbox_Reconcile\<close> has.

  Reads that the code makes before it opens the transaction are made in the same \<open>act\<close> here; the
  unique indexes decide between two requests, and they are inside it.
\<close>

record inbox_actor =
  ac_enterprise :: int
  ac_employee :: "int option"
  ac_permissions :: "ThreadPermission list"
  ac_may_hide :: bool
  ac_may_delete :: bool
  ac_correlation :: "string option"

definition require :: "bool \<Rightarrow> inbox_error \<Rightarrow> unit inbox_act" where
  "require ok e = (if ok then ret () else throw e)"

definition requireConversation :: "inbox_actor \<Rightarrow> int \<Rightarrow> ConversationAction \<Rightarrow> conversation_row inbox_act" where
  "requireConversation actor i action =
     bnd (reads (findConversation (ac_enterprise actor) i)) (\<lambda>found.
       case found of
         None \<Rightarrow> throw ConversationNotFound
       | Some c \<Rightarrow>
           if permissionFor (cv_kind c) action \<in> set (ac_permissions actor) then ret c
           else throw ConversationNotFound)"

definition stripThreadPrefix :: "string \<Rightarrow> string" where
  "stripThreadPrefix key = (case dropWhile (\<lambda>c. c \<noteq> CHR '':'') key of [] \<Rightarrow> key | _ # rest \<Rightarrow> rest)"

definition nonempty_text :: "config \<Rightarrow> string \<Rightarrow> string option" where
  "nonempty_text m k = (case text_field m k of Some s \<Rightarrow> if s = [] then None else Some s | None \<Rightarrow> None)"

definition mentionMediaId :: "config \<Rightarrow> string option" where
  "mentionMediaId m = nonempty_text m ''mentionedMediaId''"

definition mentionCommentId :: "config \<Rightarrow> string option" where
  "mentionCommentId m = nonempty_text m ''mentionedCommentId''"

definition requireMentionMediaId :: "config \<Rightarrow> string inbox_act" where
  "requireMentionMediaId m = (case mentionMediaId m of None \<Rightarrow> throw ReplyNotSupported | Some s \<Rightarrow> ret s)"

section \<open>Replies and notes\<close>

record ReplyInput =
  rp_conversation :: int
  rp_body :: string
  rp_key :: string
  rp_note :: bool
  rp_target :: "int option"

record ReplyResult =
  rr_message :: int
  rr_status :: MessageStatus

definition no_payload :: out_payload where
  "no_payload = \<lparr> commentId = None, mediaId = None, message = None, replyToPlatformMessageId = None, hidden = None \<rparr>"

definition replyPayload :: "OutboundEventType \<Rightarrow> conversation_row \<Rightarrow> string option \<Rightarrow> string \<Rightarrow> out_payload inbox_act" where
  "replyPayload ty c target body =
     (if ty = MentionReply then
        bnd (requireMentionMediaId (cv_context c)) (\<lambda>media.
          ret (no_payload\<lparr>mediaId := Some media, commentId := mentionCommentId (cv_context c), message := Some body\<rparr>))
      else if ty = CommentReply then
        ret (no_payload\<lparr>commentId := Some (stripThreadPrefix (cv_thread c)), message := Some body\<rparr>)
      else ret (no_payload\<lparr>message := Some body,
             replyToPlatformMessageId := (if truthy_text target then target else None)\<rparr>))"

definition enqueue_outbound :: "EnqueueOutboundInput \<Rightarrow> int option inbox_act" where
  "enqueue_outbound inp = (\<lambda>db. case enqueue (ib_clock db) inp (ib_outbox db) of
     (made, ob) \<Rightarrow> Inr (made, db\<lparr>ib_outbox := ob\<rparr>))"

definition channel_event ::
    "inbox_actor \<Rightarrow> conversation_row \<Rightarrow> OutboundEventType \<Rightarrow> string option \<Rightarrow> string \<Rightarrow> out_payload \<Rightarrow> EnqueueOutboundInput" where
  "channel_event actor c ty to key payload =
     \<lparr> i_enterprise = Some (ac_enterprise actor), i_channel = Some (cv_channel c), i_destination_kind = ToChannel,
       i_destination_id = Some (show_int (cv_channel c)), i_platform = cv_platform c, i_type = ty, i_in_reply_to = None,
       i_recipient = to, i_dedup = key, i_correlation = ac_correlation actor, i_payload = payload,
       i_scheduled_at = None, i_priority = None \<rparr>"

definition send_reply :: "inbox_actor \<Rightarrow> conversation_row \<Rightarrow> string option \<Rightarrow> string \<Rightarrow> int \<Rightarrow> unit inbox_act" where
  "send_reply actor c target body i =
     (case replyEventTypeFor (cv_kind c) of
        None \<Rightarrow> throw ReplyNotSupported
      | Some ty \<Rightarrow>
          bnd (replyPayload ty c target body) (\<lambda>payload.
          bnd (enqueue_outbound (channel_event actor c ty (Some (stripThreadPrefix (cv_thread c)))
                 (outboundDedupKey (cv_platform c) ty ''messages'' (show_int i)) payload)) (\<lambda>event.
            case event of None \<Rightarrow> ret () | Some e \<Rightarrow> linkOutboundEvent (ac_enterprise actor) i e)))"

definition checkSendPath :: "inbox_actor \<Rightarrow> conversation_row \<Rightarrow> unit inbox_act" where
  "checkSendPath actor c = (\<lambda>db.
     case findSendContext (ac_enterprise actor) (cv_channel c) (ib_channels db) of
       None \<Rightarrow> Inl ChannelNotFound
     | Some x \<Rightarrow>
         if x_reauth x then Inl InboxReauthRequired
         else if \<not> x_managed x then Inl ChannelNotManaged
         else if \<not> evaluateReplyWindow (cv_kind c) (cv_last_inbound c) (map_of (cv_context c) ''mentionKind'') None (ib_clock db)
         then Inl ReplyWindowClosed else Inr ((), db))"

definition findTarget :: "inbox_actor \<Rightarrow> conversation_row \<Rightarrow> int option \<Rightarrow> (int \<times> string) option inbox_act" where
  "findTarget actor c target =
     (case target of
        None \<Rightarrow> ret None
      | Some i \<Rightarrow>
          bnd (reads (findReplyTarget (ac_enterprise actor) (cv_id c) i)) (\<lambda>found.
            case found of
              None \<Rightarrow> throw MessageNotFound
            | Some (m, pid, gone) \<Rightarrow>
                if \<not> truthy_text pid then throw ReplyNotSupported
                else if gone then throw ReplyNotSupported
                else ret (Some (m, text_of pid))))"

definition writeReply ::
    "inbox_actor \<Rightarrow> int \<Rightarrow> conversation_row \<Rightarrow> ReplyInput \<Rightarrow> (int \<times> string) option \<Rightarrow> ReplyResult inbox_act" where
  "writeReply actor employee c inp target =
     bnd (insertOutbound \<lparr> mo_enterprise = ac_enterprise actor, mo_conversation = cv_id c, mo_customer = Some (cv_customer c),
            mo_employee = employee, mo_body = rp_body inp, mo_idempotency = Some (rp_key inp),
            mo_parent = map_option fst target, mo_note = rp_note inp \<rparr>) (\<lambda>i.
     andThen (if rp_note inp then ret () else send_reply actor c (map_option snd target) (rp_body inp) i)
     (bnd now_act (\<lambda>now.
      andThen (recordMessage (ac_enterprise actor) (cv_id c) False now)
      (andThen
        (if cv_customer c \<noteq> 0
         then recordEngagement \<lparr> eg_enterprise = ac_enterprise actor, eg_customer = cv_customer c,
                eg_channel = cv_channel c, eg_platform = cv_platform c, eg_inbound = False,
                eg_conversation = Some (cv_id c), eg_created = False \<rparr>
         else ret ())
        (ret \<lparr> rr_message = i, rr_status = (if rp_note inp then MsgDelivered else MsgPending) \<rparr>)))))"

definition reply :: "inbox_actor \<Rightarrow> ReplyInput \<Rightarrow> ReplyResult inbox_act" where
  "reply actor inp =
     (case ac_employee actor of
        None \<Rightarrow> throw NoActiveEmployment
      | Some employee \<Rightarrow>
          bnd (requireConversation actor (rp_conversation inp) ActReply) (\<lambda>c.
          if cv_status c \<in> set CLOSED_TO_REPLIES \<and> \<not> rp_note inp then throw InboxConversationClosed
          else if cv_status c = ConvArchived then throw InboxConversationClosed
          else bnd (reads (findByIdempotencyKey (ac_enterprise actor) (rp_key inp))) (\<lambda>existing.
            case existing of
              Some m \<Rightarrow>
                if mg_conversation m \<noteq> cv_id c \<or> mg_note m \<noteq> rp_note inp then throw IdempotencyKeyReused
                else ret \<lparr> rr_message = mg_id m, rr_status = mg_status m \<rparr>
            | None \<Rightarrow>
                andThen (if rp_note inp then ret () else checkSendPath actor c)
                (bnd (findTarget actor c (rp_target inp)) (writeReply actor employee c inp)))))"

section \<open>Assigning, closing, reading\<close>

definition assign :: "inbox_actor \<Rightarrow> int \<Rightarrow> int option \<Rightarrow> unit inbox_act" where
  "assign actor i employee =
     andThen
       (case employee of
          None \<Rightarrow> ret ()
        | Some e \<Rightarrow> bnd (reads (\<lambda>db. (e, ac_enterprise actor) \<in> set (ib_employees db))) (\<lambda>works. require works InboxEmployeeNotFound))
       (bnd (requireConversation actor i ActAssign) (\<lambda>c.
         if cv_assigned c = employee then ret ()
         else assignConversation (ac_enterprise actor) (cv_id c) employee))"

definition setStatus :: "inbox_actor \<Rightarrow> int \<Rightarrow> ConversationStatus \<Rightarrow> unit inbox_act" where
  "setStatus actor i status =
     bnd (requireConversation actor i ActManage) (\<lambda>c.
       if cv_status c = status then ret () else setConversationStatus (ac_enterprise actor) (cv_id c) status)"

definition markRead :: "inbox_actor \<Rightarrow> int \<Rightarrow> unit inbox_act" where
  "markRead actor i =
     bnd (requireConversation actor i ActView) (\<lambda>c. markConversationRead (ac_enterprise actor) (cv_id c))"

definition requestResync :: "inbox_actor \<Rightarrow> int \<Rightarrow> bool inbox_act" where
  "requestResync actor i =
     bnd (reads (findResyncTarget (ac_enterprise actor) i)) (\<lambda>found.
       case found of
         None \<Rightarrow> throw ConversationNotFound
       | Some (c, target) \<Rightarrow>
           if cv_kind c \<noteq> DirectMessage then throw ResyncUnsupported
           else if \<not> truthy_text target then throw ResyncUnsupported
           else enqueue_resync (ac_enterprise actor) (cv_channel c) Manual (text_of target))"

section \<open>Moderation\<close>

fun own_moderation_text :: "OwnModeration \<Rightarrow> string" where
  "own_moderation_text HideComment = ''hide''"
| "own_moderation_text UnhideComment = ''unhide''"
| "own_moderation_text DeleteComment = ''delete''"

definition moderation_event_type :: "OwnModeration \<Rightarrow> OutboundEventType" where
  "moderation_event_type action = (if action = DeleteComment then CommentDelete else CommentHide)"

definition moderation_key :: "platform_host \<Rightarrow> conversation_row \<Rightarrow> OwnModeration \<Rightarrow> ModerationTarget \<Rightarrow> string" where
  "moderation_key h c action t =
     outboundDedupKey (cv_platform c) (moderation_event_type action)
       (''messages:'' @ own_moderation_text action @ '':'' @ iso_text h (mt_updated t)) (show_int (mt_id t))"

definition moderation_payload :: "OwnModeration \<Rightarrow> string option \<Rightarrow> out_payload" where
  "moderation_payload action pid =
     no_payload\<lparr>commentId := pid, hidden := (if action = DeleteComment then None else Some (action = HideComment))\<rparr>"

definition moderateTarget ::
    "platform_host \<Rightarrow> inbox_actor \<Rightarrow> conversation_row \<Rightarrow> OwnModeration \<Rightarrow> ModerationTarget \<Rightarrow> unit inbox_act" where
  "moderateTarget h actor c action t =
     (if \<not> truthy_text (mt_platform_id t) then throw ReplyNotSupported
      else if mt_deleted_on_platform t then throw InboxInvalidTransition
      else if action = HideComment \<and> mt_hidden t \<or> action = UnhideComment \<and> \<not> mt_hidden t then throw InboxInvalidTransition
      else bnd (enqueue_outbound (channel_event actor c (moderation_event_type action) (mt_platform_id t)
                  (moderation_key h c action t) (moderation_payload action (mt_platform_id t)))) (\<lambda>queued.
        if queued = None then throw InboxInvalidTransition
        else applyOwnModeration (ac_enterprise actor) (mt_id t) action))"

definition moderateComment :: "platform_host \<Rightarrow> inbox_actor \<Rightarrow> int \<Rightarrow> int \<Rightarrow> OwnModeration \<Rightarrow> unit inbox_act" where
  "moderateComment h actor i m action =
     bnd (requireConversation actor i ActManage) (\<lambda>c.
       if \<not> (if action = DeleteComment then ac_may_delete actor else ac_may_hide actor) then throw InboxPermissionDenied
       else if cv_kind c \<noteq> CommentThread then throw ReplyNotSupported
       else if cv_post c = None then throw ReplyNotSupported
       else bnd (reads (lockModerationTarget (ac_enterprise actor) (cv_id c) m)) (\<lambda>target.
         case target of None \<Rightarrow> throw MessageNotFound | Some t \<Rightarrow> moderateTarget h actor c action t))"

end
