(* ===== verification/Inbox_Counters.thy ===== *)
theory Inbox_Counters
  imports Inbox_Service
begin

text \<open>
  The numbers an inbox shows are columns that every writer keeps up to date by hand: the messages and
  the unread messages of a thread, when the customer last wrote (which decides whether a direct
  message may be answered at all), the threads of a customer. Here they are what they say, after any
  jobs in any order.

  \<open>core\<close> forgets everything of the database that the numbers and the keys do not depend on. Most
  statements do not change it; for the few that do (a new customer, thread or message, a counted
  message, a cleared badge) there is one lemma each. A transaction that has stored a message and has
  not counted it yet is in a state that \<open>owes\<close> the count.
\<close>

section \<open>What the numbers depend on\<close>

definition core_conversation :: "conversation_row \<Rightarrow> conversation_row" where
  "core_conversation c = c\<lparr>cv_identifier := None, cv_post := None, cv_platform := Facebook, cv_kind := Review,
     cv_subject := None, cv_context := [], cv_status := ConvOpen, cv_last_message := None, cv_first_responded := None,
     cv_assigned := None, cv_assigned_at := None, cv_resolved_at := None, cv_deleted := False\<rparr>"

definition core_message :: "inbox_message \<Rightarrow> inbox_message" where
  "core_message m = m\<lparr>mg_customer := None, mg_employee := None, mg_parent := None, mg_inbound_event := None,
     mg_outbound_event := (if mg_direction m = DirInbound then mg_outbound_event m else None),
     mg_platform_id := (if mg_direction m = DirInbound then mg_platform_id m else None), mg_kind := KText, mg_body := None,
     mg_has_attachments := False, mg_metadata := [], mg_hidden := False,
     mg_sent_at := (if mg_direction m = DirInbound then mg_sent_at m else None), mg_deleted_at := None,
     mg_status := MsgPending, mg_updated := 0\<rparr>"

definition core_customer :: "inbox_customer \<Rightarrow> inbox_customer" where
  "core_customer c = c\<lparr>cs_name := None, cs_first_name := None, cs_last_name := None, cs_avatar := None,
     cs_source := SourceManual, cs_first_channel := None, cs_last_channel := None, cs_first_seen := 0, cs_last_seen := 0,
     cs_metadata := [], cs_deleted := False\<rparr>"

definition core :: "inbox_db \<Rightarrow> inbox_db" where
  "core db = db\<lparr>ib_customers := map core_customer (ib_customers db), ib_identifiers := [], ib_engagements := [],
     ib_conversations := map core_conversation (ib_conversations db), ib_messages := map core_message (ib_messages db),
     ib_attachments := [], ib_posts := [], ib_outbox := \<lparr> events = [], next_event_id = 0 \<rparr>, ib_sync := []\<rparr>"

abbreviation same_core :: "inbox_db \<Rightarrow> inbox_db \<Rightarrow> bool" where
  "same_core \<equiv> (\<lambda>db db'. core db' = core db)"

interpretation frame: preorder_rel same_core
  by unfold_locales simp_all

definition unread :: "inbox_message \<Rightarrow> bool" where
  "unread m \<longleftrightarrow> mg_direction m = DirInbound \<and> \<not> mg_read m \<and> \<not> mg_deleted m"

definition inbound :: "inbox_message \<Rightarrow> bool" where
  "inbound m \<longleftrightarrow> mg_direction m = DirInbound"

definition thread_of :: "int \<Rightarrow> inbox_message list \<Rightarrow> inbox_message list" where
  "thread_of i ms = filter (\<lambda>m. mg_conversation m = i) ms"

definition latest :: "int list \<Rightarrow> int option" where
  "latest ts = fold (\<lambda>t acc. latest_of acc t) ts None"

definition tallies :: "inbox_message list \<Rightarrow> conversation_row \<Rightarrow> bool" where
  "tallies ms c \<longleftrightarrow> cv_messages c = int (length (thread_of (cv_id c) ms))
     \<and> cv_unread c = int (length (filter unread (thread_of (cv_id c) ms)))
     \<and> cv_last_inbound c = latest (map arrival (filter inbound (thread_of (cv_id c) ms)))"

definition has_threads :: "conversation_row list \<Rightarrow> inbox_customer \<Rightarrow> bool" where
  "has_threads cs u \<longleftrightarrow> cs_conversations u = int (length (filter (\<lambda>c. cv_customer c = cs_id u) cs))"

definition platform_key :: "inbox_message \<Rightarrow> int \<times> string option" where
  "platform_key m = (mg_enterprise m, mg_platform_id m)"

definition request_key :: "inbox_message \<Rightarrow> int \<times> string option" where
  "request_key m = (mg_enterprise m, mg_idempotency m)"

text \<open>The indexes. That on platform ids is shown for what came from outside, which is what it is for.\<close>

definition keyed :: "inbox_db \<Rightarrow> bool" where
  "keyed k \<longleftrightarrow> distinct (map cv_id (ib_conversations k)) \<and> distinct (map mg_id (ib_messages k))
     \<and> distinct (map cs_id (ib_customers k)) \<and> distinct (map ch_id (ib_channels k))
     \<and> distinct (map (\<lambda>c. (cv_channel c, cv_thread c)) (ib_conversations k))
     \<and> distinct (map platform_key (filter inbound (ib_messages k)))
     \<and> distinct (map request_key (filter (\<lambda>m. mg_idempotency m \<noteq> None) (ib_messages k)))"

definition linked :: "inbox_db \<Rightarrow> bool" where
  "linked k \<longleftrightarrow>
     (\<forall>c \<in> set (ib_conversations k). (cv_channel c, cv_enterprise c) \<in> (\<lambda>x. (ch_id x, ch_enterprise x)) ` set (ib_channels k)
        \<and> (cv_customer c, cv_enterprise c) \<in> (\<lambda>u. (cs_id u, cs_enterprise u)) ` set (ib_customers k))
     \<and> (\<forall>m \<in> set (ib_messages k).
          (mg_conversation m, mg_enterprise m) \<in> (\<lambda>c. (cv_id c, cv_enterprise c)) ` set (ib_conversations k))"

definition from_outside :: "inbox_message \<Rightarrow> bool" where
  "from_outside m \<longleftrightarrow> (inbound m \<longrightarrow> mg_outbound_event m = None)"

definition sound :: "inbox_db \<Rightarrow> bool" where
  "sound k \<longleftrightarrow> keyed k \<and> linked k \<and> list_all (has_threads (ib_conversations k)) (ib_customers k)
     \<and> list_all from_outside (ib_messages k)"

definition consistent :: "inbox_db \<Rightarrow> bool" where
  "consistent k \<longleftrightarrow> sound k \<and> list_all (tallies (ib_messages k)) (ib_conversations k)"

text \<open>The last message is stored and not counted; \<open>sent\<close> is the time the platform gave it, if any.\<close>

definition owes :: "int \<Rightarrow> int \<Rightarrow> bool \<Rightarrow> int option \<Rightarrow> int \<Rightarrow> inbox_db \<Rightarrow> bool" where
  "owes enterprise conversation inb sent i k \<longleftrightarrow> sound k \<and>
     (\<exists>ms m. ib_messages k = ms @ [m] \<and> list_all (tallies ms) (ib_conversations k)
        \<and> mg_id m = i \<and> mg_conversation m = conversation \<and> mg_enterprise m = enterprise \<and> inbound m = inb \<and> unread m = inb
        \<and> (inb \<longrightarrow> mg_sent_at m = sent \<and> mg_created m = ib_clock k))"

section \<open>Statements that keep the core\<close>

lemma core_simps [simp]:
  "ib_clock (core db) = ib_clock db" "ib_channels (core db) = ib_channels db"
  "ib_conversations (core db) = map core_conversation (ib_conversations db)"
  "ib_messages (core db) = map core_message (ib_messages db)" "ib_customers (core db) = map core_customer (ib_customers db)"
  by (simp_all add: core_def)

lemma core_fields [simp]:
  "cv_id (core_conversation c) = cv_id c" "cv_enterprise (core_conversation c) = cv_enterprise c"
  "cv_channel (core_conversation c) = cv_channel c" "cv_customer (core_conversation c) = cv_customer c"
  "cv_thread (core_conversation c) = cv_thread c" "cv_messages (core_conversation c) = cv_messages c"
  "cv_unread (core_conversation c) = cv_unread c" "cv_last_inbound (core_conversation c) = cv_last_inbound c"
  "mg_id (core_message m) = mg_id m" "mg_enterprise (core_message m) = mg_enterprise m"
  "mg_conversation (core_message m) = mg_conversation m" "mg_direction (core_message m) = mg_direction m"
  "mg_note (core_message m) = mg_note m" "mg_idempotency (core_message m) = mg_idempotency m"
  "mg_read (core_message m) = mg_read m" "mg_deleted (core_message m) = mg_deleted m" "mg_created (core_message m) = mg_created m"
  "cs_id (core_customer u) = cs_id u" "cs_enterprise (core_customer u) = cs_enterprise u"
  "cs_conversations (core_customer u) = cs_conversations u"
  by (simp_all add: core_conversation_def core_message_def core_customer_def)

lemma core_messages [simp]:
  "unread (core_message m) = unread m" "inbound (core_message m) = inbound m"
  "from_outside (core_message m) = from_outside m"
  by (simp_all add: unread_def inbound_def from_outside_def core_message_def)

lemma core_arrival [simp]: "inbound m \<Longrightarrow> arrival (core_message m) = arrival m"
  by (cases "mg_sent_at m") (simp_all add: inbound_def arrival_def core_message_def)

lemma core_keys [simp]:
  "request_key (core_message m) = request_key m" "inbound m \<Longrightarrow> platform_key (core_message m) = platform_key m"
  by (simp_all add: request_key_def platform_key_def inbound_def core_message_def)

lemma map_core_filter:
  assumes "\<And>m. P m \<Longrightarrow> f (core_message m) = f m"
  shows "map (\<lambda>x. f (core_message x)) (filter P xs) = map f (filter P xs)"
  using assms by (induction xs) simp_all

lemma thread_of_core: "thread_of i (map core_message ms) = map core_message (thread_of i ms)"
  by (simp add: thread_of_def filter_map comp_def)

lemma agrees_core: "tallies (map core_message ms) (core_conversation c) = tallies ms c"
  by (simp add: tallies_def thread_of_core filter_map comp_def map_core_filter [of inbound arrival])

lemma has_threads_core: "has_threads (map core_conversation cs) (core_customer u) = has_threads cs u"
  by (simp add: has_threads_def filter_map comp_def)

lemma sound_core: "sound (core k) = sound k"
  by (simp add: sound_def keyed_def linked_def list_all_iff has_threads_core comp_def image_image filter_map
      map_core_filter [of inbound platform_key])

lemma settled_core: "consistent (core k) = consistent k"
  by (simp add: consistent_def sound_core list_all_iff agrees_core)

lemma owes_core:
  assumes "owes e c inb t i (core k)"
  shows "owes e c inb t i k"
proof -
  from assms obtain ms m where ms: "map core_message (ib_messages k) = ms @ [m]"
    and a: "list_all (tallies ms) (map core_conversation (ib_conversations k))"
    and m: "mg_id m = i" "mg_conversation m = c" "mg_enterprise m = e" "inbound m = inb" "unread m = inb"
      "inb \<longrightarrow> mg_sent_at m = t \<and> mg_created m = ib_clock k"
    and k: "sound k"
    by (auto simp: owes_def sound_core)
  from ms obtain ns n where n: "ib_messages k = ns @ [n]" "ms = map core_message ns" "m = core_message n"
    by (cases "ib_messages k" rule: rev_cases) auto
  moreover have "inb \<longrightarrow> mg_sent_at n = t" using m by (auto simp: n(3) inbound_def core_message_def)
  ultimately show ?thesis using a m k unfolding owes_def by (auto simp: list_all_iff agrees_core)
qed

lemma core_owes:
  assumes "owes e c inb t i k"
  shows "owes e c inb t i (core k)"
proof -
  from assms obtain ms m where m: "ib_messages k = ms @ [m]" "list_all (tallies ms) (ib_conversations k)"
      "mg_id m = i" "mg_conversation m = c" "mg_enterprise m = e" "inbound m = inb" "unread m = inb"
      "inb \<longrightarrow> mg_sent_at m = t \<and> mg_created m = ib_clock k" and k: "sound k"
    by (auto simp: owes_def)
  moreover have "inb \<longrightarrow> mg_sent_at (core_message m) = t" using m by (auto simp: inbound_def core_message_def)
  ultimately show ?thesis unfolding owes_def sound_core
    by (intro conjI exI [of _ "map core_message ms"] exI [of _ "core_message m"]) (simp_all add: list_all_iff agrees_core)
qed

lemma frame_keeps:
  assumes "steps same_core m"
  shows "keeps consistent m" and "keeps (owes e c inb t i) m"
proof -
  have same: "core s' = core s" if "m s = Inr (x, s')" for s x s' using assms that by (simp add: steps_def)
  have "consistent s'" if "consistent s" "m s = Inr (x, s')" for s x s'
    using that(1) same [OF that(2)] settled_core [of s] settled_core [of s'] by simp
  then show "keeps consistent m" by (auto simp: triple_def)
  have "owes e c inb t i s'" if "owes e c inb t i s" "m s = Inr (x, s')" for s x s'
    using core_owes [OF that(1)] same [OF that(2)] owes_core [of e c inb t i s'] by simp
  then show "keeps (owes e c inb t i) m" by (auto simp: triple_def)
qed

lemma core_update_messages:
  "(\<And>m. P m \<Longrightarrow> core_message (f m) = core_message m) \<Longrightarrow> core (update_messages P f db) = core db"
  by (simp add: core_def update_messages_def map_update_where)

lemma core_update_customers:
  "(\<And>m. P m \<Longrightarrow> core_customer (f m) = core_customer m) \<Longrightarrow> core (update_customers P f db) = core db"
  by (simp add: core_def update_customers_def map_update_where)

lemma core_update_conversations:
  "(\<And>m. P m \<Longrightarrow> core_conversation (f m) = core_conversation m) \<Longrightarrow> core (update_conversations P f db) = core db"
  by (simp add: core_def update_conversations_def map_update_where)

lemma core_other_tables [simp]:
  "core (db\<lparr>ib_identifiers := a\<rparr>) = core db" "core (db\<lparr>ib_engagements := b\<rparr>) = core db"
  "core (db\<lparr>ib_attachments := d\<rparr>) = core db" "core (db\<lparr>ib_posts := e\<rparr>) = core db"
  "core (db\<lparr>ib_outbox := f\<rparr>) = core db" "core (db\<lparr>ib_sync := g\<rparr>) = core db"
  by (simp_all add: core_def)

named_theorems frame_intros

lemma steps_now_act [frame_intros]: "steps same_core now_act"
  unfolding now_act_def by (rule frame.steps_reads)

lemma steps_require [frame_intros]: "steps same_core (require b e)"
  unfolding require_def by (intro frame.steps_if frame.steps_ret frame.steps_throw)

lemma core_touch:
  "core_customer (c\<lparr>cs_name := a\<rparr>) = core_customer c" "core_customer (c\<lparr>cs_first_name := a\<rparr>) = core_customer c"
  "core_customer (c\<lparr>cs_last_name := a\<rparr>) = core_customer c" "core_customer (c\<lparr>cs_avatar := a\<rparr>) = core_customer c"
  "core_customer (c\<lparr>cs_metadata := b\<rparr>) = core_customer c" "core_customer (c\<lparr>cs_last_seen := d\<rparr>) = core_customer c"
  "core_customer (c\<lparr>cs_last_channel := f\<rparr>) = core_customer c"
  by (simp_all add: core_customer_def)

lemma core_message_touch:
  "core_message (m\<lparr>mg_metadata := a\<rparr>) = core_message m" "core_message (m\<lparr>mg_updated := b\<rparr>) = core_message m"
  "core_message (m\<lparr>mg_deleted_at := d\<rparr>) = core_message m" "core_message (m\<lparr>mg_hidden := e\<rparr>) = core_message m"
  "core_message (m\<lparr>mg_body := f\<rparr>) = core_message m" "core_message (m\<lparr>mg_parent := d\<rparr>) = core_message m"
  "mg_direction m \<noteq> DirInbound \<Longrightarrow> core_message (m\<lparr>mg_platform_id := f\<rparr>) = core_message m"
  "core_message (m\<lparr>mg_status := g\<rparr>) = core_message m"
  "mg_direction m \<noteq> DirInbound \<Longrightarrow> core_message (m\<lparr>mg_sent_at := d\<rparr>) = core_message m"
  by (simp_all add: core_message_def)

lemma core_conversation_touch:
  "core_conversation (c\<lparr>cv_status := a\<rparr>) = core_conversation c" "core_conversation (c\<lparr>cv_subject := b\<rparr>) = core_conversation c"
  "core_conversation (c\<lparr>cv_post := d\<rparr>) = core_conversation c" "core_conversation (c\<lparr>cv_context := e\<rparr>) = core_conversation c"
  "core_conversation (c\<lparr>cv_deleted := f\<rparr>) = core_conversation c" "core_conversation (c\<lparr>cv_assigned := d\<rparr>) = core_conversation c"
  "core_conversation (c\<lparr>cv_assigned_at := d\<rparr>) = core_conversation c"
  "core_conversation (c\<lparr>cv_resolved_at := d\<rparr>) = core_conversation c"
  by (simp_all add: core_conversation_def)

lemmas touch_simps = core_touch core_message_touch core_conversation_touch

lemma steps_statements [frame_intros]:
  "steps same_core (insert_identifier a1 a2 a3 a4 a5)" "steps same_core (backfill_name a1 a2 b1)"
  "steps same_core (touchLastSeen a1 a2 b2)" "steps same_core (recordEngagement b3)"
  "steps same_core (nameByIdentifier a1 a3 a4 b4 b5 b6)" "steps same_core (applyPlatformProfile a1 a2 c1 c2 c3 c4 c5)"
  "steps same_core (assignConversation a1 a2 b2)" "steps same_core (setConversationStatus a1 a2 c6)"
  "steps same_core (mergeContextMetadata a1 a2 c7)" "steps same_core (applyReaction h a1 t1 c8)"
  "steps same_core (markDeletedOnPlatform a1 t1 c9)" "steps same_core (markSeenByCustomer h a1 t1 c9)"
  "steps same_core (applyOwnModeration a1 a2 d1)" "steps same_core (applyPlatformModeration a1 d2)"
  "steps same_core (adoptOrphanReplies a1 a2 t1)" "steps same_core (insertAttachments a1 a2 d3)"
  "steps same_core (upsertPost d4)" "steps same_core (enqueue_resync a1 a2 d5 t1)" "steps same_core (enqueue_outbound d6)"
  by (auto simp: steps_def insert_identifier_def backfill_name_def touchLastSeen_def recordEngagement_def nameByIdentifier_def
      applyPlatformProfile_def assignConversation_def setConversationStatus_def mergeContextMetadata_def applyReaction_def
      markDeletedOnPlatform_def markSeenByCustomer_def applyOwnModeration_def applyPlatformModeration_def
      adoptOrphanReplies_def insertAttachments_def upsertPost_def enqueue_resync_def
      enqueue_outbound_def Let_def modifies_def ret_def
      core_update_messages core_update_customers core_update_conversations touch_simps
      split: if_splits option.splits prod.splits)

section \<open>Storing and counting a message\<close>

lemma latest_snoc: "latest (ts @ [t]) = latest_of (latest ts) t"
  by (simp add: latest_def)

lemma latest_nil: "latest [] = None"
  by (simp add: latest_def)

lemma thread_of_snoc: "thread_of i (ms @ [m]) = thread_of i ms @ (if mg_conversation m = i then [m] else [])"
  by (simp add: thread_of_def)

lemma message_refs: "message_refs_ok e c db \<longleftrightarrow> (c, e) \<in> (\<lambda>c. (cv_id c, cv_enterprise c)) ` set (ib_conversations db)"
  by (auto simp: message_refs_ok_def list_ex_iff image_iff)

lemma settled_append:
  assumes s: "consistent db" and refs: "message_refs_ok (mg_enterprise m) (mg_conversation m) db"
    and m: "mg_id m = fresh_id (map mg_id (ib_messages db))" "unread m = inbound m" "from_outside m" "mg_created m = ib_clock db"
    and pid: "inbound m \<Longrightarrow> \<not> list_ex (\<lambda>n. platform_key n = platform_key m) (ib_messages db)"
    and req: "mg_idempotency m \<noteq> None \<Longrightarrow> \<not> list_ex (\<lambda>n. request_key n = request_key m) (ib_messages db)"
  shows "owes (mg_enterprise m) (mg_conversation m) (inbound m) (mg_sent_at m) (mg_id m) (db\<lparr>ib_messages := ib_messages db @ [m]\<rparr>)"
proof -
  have "mg_id m \<notin> mg_id ` set (ib_messages db)" unfolding m(1) by (rule fresh_id_notin_image)
  then have "sound (db\<lparr>ib_messages := ib_messages db @ [m]\<rparr>)"
    using s refs m(3) pid req by (auto simp: consistent_def sound_def keyed_def linked_def message_refs list_ex_iff)
  then show ?thesis using s m unfolding owes_def consistent_def
    by (intro conjI exI [of _ "ib_messages db"] exI [of _ m]) simp_all
qed

definition stored_or_known :: "int \<Rightarrow> int \<Rightarrow> bool \<Rightarrow> int option \<Rightarrow> int option \<Rightarrow> inbox_db \<Rightarrow> bool" where
  "stored_or_known e c inb t r db \<longleftrightarrow> (case r of None \<Rightarrow> consistent db | Some i \<Rightarrow> owes e c inb t i db)"

lemma message_shapes:
  "mg_enterprise (inbound_message i now inp) = mi_enterprise inp" "mg_conversation (inbound_message i now inp) = mi_conversation inp"
  "mg_id (inbound_message i now inp) = i" "inbound (inbound_message i now inp)" "unread (inbound_message i now inp)"
  "from_outside (inbound_message i now inp)" "mg_created (inbound_message i now inp) = now"
  "mg_sent_at (inbound_message i now inp) = mi_sent_at inp"
  "mg_enterprise (recovered_message i now inp) = mi_enterprise inp" "mg_conversation (recovered_message i now inp) = mi_conversation inp"
  "mg_id (recovered_message i now inp) = i" "\<not> inbound (recovered_message i now inp)" "\<not> unread (recovered_message i now inp)"
  "from_outside (recovered_message i now inp)" "mg_created (recovered_message i now inp) = now"
  "mg_sent_at (recovered_message i now inp) = mi_sent_at inp"
  "mg_enterprise (outbound_message i now out) = mo_enterprise out" "mg_conversation (outbound_message i now out) = mo_conversation out"
  "mg_id (outbound_message i now out) = i" "\<not> inbound (outbound_message i now out)" "\<not> unread (outbound_message i now out)"
  "from_outside (outbound_message i now out)" "mg_created (outbound_message i now out) = now"
  "mg_sent_at (outbound_message i now out) = None"
  "mg_platform_id (inbound_message i now inp) = Some (mi_platform_id inp)"
  "mg_idempotency (outbound_message i now out) = mo_idempotency out"
  "mg_idempotency (inbound_message i now inp) = None" "mg_idempotency (recovered_message i now inp) = None"
  by (simp_all add: inbound_message_def recovered_message_def outbound_message_def inbound_def unread_def from_outside_def)

lemma insertInbound_owes:
  "triple consistent (insertInbound inp) (stored_or_known (mi_enterprise inp) (mi_conversation inp) True (mi_sent_at inp))"
proof (rule tripleI)
  fix db r db' assume s: "consistent db" and run: "insertInbound inp db = Inr (r, db')"
  let ?m = "inbound_message (fresh_id (map mg_id (ib_messages db))) (ib_clock db) inp"
  show "stored_or_known (mi_enterprise inp) (mi_conversation inp) True (mi_sent_at inp) r db'"
    using run s settled_append [OF s, of ?m]
    by (auto simp: insertInbound_def insert_platform_message_def stored_or_known_def message_shapes Let_def list_ex_iff
        platform_key_def has_platform_id_def split: if_splits)
qed

lemma insertRecovered_owes:
  "triple consistent (insertRecoveredOutbound inp) (stored_or_known (mi_enterprise inp) (mi_conversation inp) False (mi_sent_at inp))"
proof (rule tripleI)
  fix db r db' assume s: "consistent db" and run: "insertRecoveredOutbound inp db = Inr (r, db')"
  let ?m = "recovered_message (fresh_id (map mg_id (ib_messages db))) (ib_clock db) inp"
  show "stored_or_known (mi_enterprise inp) (mi_conversation inp) False (mi_sent_at inp) r db'"
    using run s settled_append [OF s, of ?m]
    by (auto simp: insertRecoveredOutbound_def insert_platform_message_def stored_or_known_def message_shapes Let_def split: if_splits)
qed

lemma insertOutbound_owes:
  "triple consistent (insertOutbound inp) (\<lambda>i. owes (mo_enterprise inp) (mo_conversation inp) False None i)"
proof (rule tripleI)
  fix db i db' assume s: "consistent db" and run: "insertOutbound inp db = Inr (i, db')"
  let ?m = "outbound_message (fresh_id (map mg_id (ib_messages db))) (ib_clock db) inp"
  show "owes (mo_enterprise inp) (mo_conversation inp) False None i db'"
    using run settled_append [OF s, of ?m]
    by (auto simp: insertOutbound_def message_shapes Let_def list_ex_iff request_key_def
        has_idempotency_def split: if_splits)
qed

lemma agrees_counted:
  assumes "tallies ms c" and "mg_conversation m = cv_id c" and "unread m = inbound m" and "inbound m \<longrightarrow> arrival m = t"
  shows "tallies (ms @ [m]) (count_message (inbound m) t c)"
  using assms by (simp add: tallies_def count_message_def thread_of_snoc one_if_def latest_snoc)

lemma agrees_elsewhere: "tallies ms c \<Longrightarrow> mg_conversation m \<noteq> cv_id c \<Longrightarrow> tallies (ms @ [m]) c"
  by (simp add: tallies_def thread_of_snoc)

lemma count_message_keys [simp]:
  "cv_id (count_message b t c) = cv_id c" "cv_enterprise (count_message b t c) = cv_enterprise c"
  "cv_channel (count_message b t c) = cv_channel c" "cv_customer (count_message b t c) = cv_customer c"
  "cv_thread (count_message b t c) = cv_thread c"
  by (simp_all add: count_message_def)

text \<open>An update of threads that keeps their keys keeps what \<open>sound\<close> says.\<close>

lemma list_all_written:
  "(\<And>x. x \<in> set xs \<Longrightarrow> Q (if P x then f x else x)) \<Longrightarrow> list_all Q (update_where P f xs)"
  by (simp only: list_all_iff set_update_where) blast

lemma sound_map:
  assumes "sound db" and keys: "\<And>c. cv_id (g c) = cv_id c" "\<And>c. cv_enterprise (g c) = cv_enterprise c"
    "\<And>c. cv_channel (g c) = cv_channel c" "\<And>c. cv_customer (g c) = cv_customer c" "\<And>c. cv_thread (g c) = cv_thread c"
  shows "sound (db\<lparr>ib_conversations := map g (ib_conversations db)\<rparr>)"
  using assms(1) by (simp add: sound_def keyed_def linked_def has_threads_def [abs_def] filter_map comp_def image_image keys)

lemma sound_conversations:
  assumes "sound db" and keys: "\<And>c. cv_id (f c) = cv_id c" "\<And>c. cv_enterprise (f c) = cv_enterprise c"
    "\<And>c. cv_channel (f c) = cv_channel c" "\<And>c. cv_customer (f c) = cv_customer c" "\<And>c. cv_thread (f c) = cv_thread c"
  shows "sound (db\<lparr>ib_conversations := update_where P f (ib_conversations db)\<rparr>)"
  unfolding update_where_def by (rule sound_map [OF assms(1)]) (simp_all add: keys)

lemma recordMessage_settles:
  "triple (\<lambda>db. owes e c inb t i db \<and> (inb \<longrightarrow> w = (case t of None \<Rightarrow> ib_clock db | Some s \<Rightarrow> s)))
     (recordMessage e c inb w) (\<lambda>_. consistent)"
proof (rule tripleI)
  fix db x db'
  assume pre: "owes e c inb t i db \<and> (inb \<longrightarrow> w = (case t of None \<Rightarrow> ib_clock db | Some s \<Rightarrow> s))"
    and run: "recordMessage e c inb w db = Inr (x, db')"
  let ?P = "\<lambda>r. cv_id r = c \<and> cv_enterprise r = e"
  from run have db': "db' = db\<lparr>ib_conversations := update_where ?P (count_message inb w) (ib_conversations db)\<rparr>"
    by (simp add: recordMessage_def modifies_def update_conversations_def)
  from pre obtain ms m where ms: "ib_messages db = ms @ [m]" and a: "list_all (tallies ms) (ib_conversations db)"
    and m: "mg_conversation m = c" "mg_enterprise m = e" "inbound m = inb" "unread m = inb"
    and t: "inb \<longrightarrow> arrival m = w" and s: "sound db"
    by (auto simp: owes_def arrival_def split: option.splits)
  have "tallies (ms @ [m]) (if ?P r then count_message inb w r else r)" if r: "r \<in> set (ib_conversations db)" for r
  proof (cases "cv_id r = c")
    case True
    from s m ms have "(c, e) \<in> (\<lambda>c. (cv_id c, cv_enterprise c)) ` set (ib_conversations db)"
      by (simp add: sound_def linked_def)
    then obtain q where "q \<in> set (ib_conversations db)" "cv_id q = c" "cv_enterprise q = e" by auto
    moreover have "distinct (map cv_id (ib_conversations db))" using s by (simp add: sound_def keyed_def)
    ultimately have "r = q" using r True distinct_map_eq [of cv_id "ib_conversations db" r q] by simp
    with \<open>cv_enterprise q = e\<close> have "cv_enterprise r = e" by simp
    with True show ?thesis using agrees_counted [of ms r m w] a r m t by (simp add: list_all_iff)
  qed (use a r m in \<open>simp add: agrees_elsewhere list_all_iff\<close>)
  then have "list_all (tallies (ms @ [m])) (update_where ?P (count_message inb w) (ib_conversations db))"
    by (rule list_all_written)
  then show "consistent db'"
    unfolding consistent_def db' using sound_conversations [OF s, of "count_message inb w" ?P] by (simp add: ms)
qed

section \<open>A message that is read, claimed or delivered\<close>

lemma update_messages_core:
  assumes "\<And>m. m \<in> set (ib_messages db) \<Longrightarrow> P m \<Longrightarrow> core_message (f m) = core_message m"
  shows "core (update_messages P f db) = core db"
  using assms by (simp add: core_def update_messages_def update_where_def)

lemma claimPendingOutbound_settled: "keeps consistent (claimPendingOutbound e c b pid)"
proof (rule tripleI)
  fix db r db' assume s: "consistent db" and run: "claimPendingOutbound e c b pid db = Inr (r, db')"
  show "consistent db'"
  proof (cases "sort_key mg_id (filter (pending_echo e c b) (ib_messages db))")
    case (Cons p ps)
    then have "p \<in> set (sort_key mg_id (filter (pending_echo e c b) (ib_messages db)))" by simp
    then have p: "p \<in> set (ib_messages db)" "mg_direction p = DirOutbound" by (simp_all add: pending_echo_def)
    have out: "mg_direction m = DirOutbound" if "m \<in> set (ib_messages db)" "mg_id m = mg_id p" for m
      using s that p distinct_map_eq [of mg_id "ib_messages db" m p] by (simp add: consistent_def sound_def keyed_def)
    let ?f = "\<lambda>m. m\<lparr>mg_platform_id := Some pid,
                mg_status := (if mg_status m \<in> {MsgSent, MsgDelivered} then mg_status m else MsgSent),
                mg_sent_at := orElse (mg_sent_at m) (Some (ib_clock db)), mg_updated := ib_clock db\<rparr>"
    have "core (update_messages (\<lambda>m. mg_id m = mg_id p) ?f db) = core db"
      by (rule update_messages_core) (simp add: out core_message_def)
    moreover have "db' = update_messages (\<lambda>m. mg_id m = mg_id p) ?f db"
      using run Cons by (simp add: claimPendingOutbound_def split: if_splits)
    ultimately show ?thesis using s settled_core [of db] settled_core [of db'] by simp
  qed (use run s in \<open>simp add: claimPendingOutbound_def\<close>)
qed

lemma recordInboxDelivery_settled: "keeps consistent (recordInboxDelivery e ev pid st)"
proof (rule tripleI)
  fix db r db' assume s: "consistent db" and run: "recordInboxDelivery e ev pid st db = Inr (r, db')"
  let ?hit = "\<lambda>m. mg_enterprise m = e \<and> mg_outbound_event m = Some ev"
  let ?f = "\<lambda>m. m\<lparr>mg_platform_id := orElse pid (mg_platform_id m), mg_status := st,
                  mg_sent_at := (if st = MsgSent then Some (ib_clock db) else mg_sent_at m)\<rparr>"
  have "mg_direction m \<noteq> DirInbound" if "m \<in> set (ib_messages db)" "?hit m" for m
    using s that by (auto simp: consistent_def sound_def list_all_iff from_outside_def inbound_def)
  then have "core (update_messages ?hit ?f db) = core db"
    by (intro update_messages_core) (auto simp: touch_simps)
  moreover have "db' = update_messages ?hit ?f db"
    using run by (auto simp: recordInboxDelivery_def update_messages_def Let_def split: if_splits)
  ultimately show "consistent db'" using s settled_core [of db] settled_core [of db'] by simp
qed

lemma linkOutboundEvent_owes: "keeps (owes e c False t i) (linkOutboundEvent e' i ev)"
proof (rule tripleI)
  fix db r db' assume o: "owes e c False t i db" and run: "linkOutboundEvent e' i ev db = Inr (r, db')"
  from o obtain ms m where m: "ib_messages db = ms @ [m]" "mg_id m = i" "\<not> inbound m"
    and d: "distinct (map mg_id (ib_messages db))" by (auto simp: owes_def sound_def keyed_def)
  have "n = m" if "n \<in> set (ib_messages db)" "mg_id n = i" for n
    using distinct_map_eq [OF d, of n m] that m by simp
  with m(3) have "core db' = core db"
    using run by (auto simp: linkOutboundEvent_def modifies_def inbound_def core_message_def intro!: update_messages_core)
  with core_owes [OF o] show "owes e c False t i db'" using owes_core [of e c False t i db'] by simp
qed

lemma sound_enterprise:
  assumes "sound db" and "m \<in> set (ib_messages db)" and "r \<in> set (ib_conversations db)" and "mg_conversation m = cv_id r"
  shows "mg_enterprise m = cv_enterprise r"
proof -
  from assms(1,2) have "(mg_conversation m, mg_enterprise m) \<in> (\<lambda>c. (cv_id c, cv_enterprise c)) ` set (ib_conversations db)"
    by (simp add: sound_def linked_def)
  then obtain q where q: "q \<in> set (ib_conversations db)" "cv_id q = cv_id r" "cv_enterprise q = mg_enterprise m"
    using assms(4) by auto
  then have "q = r" using assms(1,3) distinct_map_eq [of cv_id "ib_conversations db" q r] by (simp add: sound_def keyed_def)
  with q show ?thesis by simp
qed

definition read_where :: "int \<Rightarrow> int \<Rightarrow> inbox_message \<Rightarrow> inbox_message" where
  "read_where e c m = (if mg_enterprise m = e \<and> mg_conversation m = c \<and> mg_direction m = DirInbound \<and> \<not> mg_read m
     \<and> \<not> mg_deleted m then m\<lparr>mg_read := True\<rparr> else m)"

lemma arrival_read: "arrival (m\<lparr>mg_read := b\<rparr>) = arrival m"
  by (cases "mg_sent_at m") (simp_all add: arrival_def)

lemma read_where_simps [simp]:
  "mg_id (read_where e c m) = mg_id m" "mg_enterprise (read_where e c m) = mg_enterprise m"
  "mg_conversation (read_where e c m) = mg_conversation m" "inbound (read_where e c m) = inbound m"
  "from_outside (read_where e c m) = from_outside m" "arrival (read_where e c m) = arrival m"
  "platform_key (read_where e c m) = platform_key m" "request_key (read_where e c m) = request_key m"
  "mg_idempotency (read_where e c m) = mg_idempotency m"
  "unread (read_where e c m) \<longleftrightarrow> unread m \<and> \<not> (mg_enterprise m = e \<and> mg_conversation m = c)"
  by (auto simp: read_where_def inbound_def from_outside_def arrival_read unread_def platform_key_def request_key_def)

lemma agrees_read_where:
  assumes k: "sound db" and r: "r \<in> set (ib_conversations db)" and a: "tallies (ib_messages db) r"
  shows "tallies (map (read_where e c) (ib_messages db))
    (if cv_id r = c \<and> cv_enterprise r = e then r\<lparr>cv_unread := 0\<rparr> else r)"
proof -
  let ?t = "thread_of (cv_id r) (ib_messages db)"
  have t: "thread_of i (map (read_where e c) (ib_messages db)) = map (read_where e c) (thread_of i (ib_messages db))" for i
    by (simp add: thread_of_def filter_map comp_def)
  have e: "mg_enterprise m = cv_enterprise r \<and> mg_conversation m = cv_id r" if "m \<in> set ?t" for m
    using that sound_enterprise [OF k _ r, of m] by (simp add: thread_of_def)
  have "filter (\<lambda>m. unread m \<and> \<not> (mg_enterprise m = e \<and> mg_conversation m = c)) ?t
      = (if cv_id r = c \<and> cv_enterprise r = e then [] else filter unread ?t)"
    using e by (auto simp: filter_empty_conv intro!: filter_cong)
  then show ?thesis using a
    by (cases "cv_id r = c \<and> cv_enterprise r = e") (auto simp: tallies_def t filter_map comp_def)
qed

lemma markConversationRead_settled: "keeps consistent (markConversationRead e c)"
proof (rule tripleI)
  fix db r db' assume s: "consistent db" and run: "markConversationRead e c db = Inr (r, db')"
  let ?P = "\<lambda>r. cv_id r = c \<and> cv_enterprise r = e" and ?f = "\<lambda>r. r\<lparr>cv_unread := 0\<rparr>"
  let ?ms = "map (read_where e c) (ib_messages db)" and ?cs = "update_where ?P ?f (ib_conversations db)"
  have db': "db' = db\<lparr>ib_conversations := ?cs, ib_messages := ?ms\<rparr>"
    using run by (simp add: markConversationRead_def clear_badge_def mark_messages_read_def andThen_Inr modifies_def
        update_conversations_def update_messages_def update_where_def read_where_def [abs_def])
  have k: "sound db" using s by (simp add: consistent_def)
  have "sound (db\<lparr>ib_conversations := ?cs\<rparr>)" by (rule sound_conversations [OF k]) simp_all
  then have "sound db'" unfolding db' by (simp add: sound_def keyed_def linked_def comp_def list.pred_map filter_map)
  moreover have "list_all (tallies ?ms) ?cs"
    by (rule list_all_written) (use s agrees_read_where [OF k] in \<open>simp add: consistent_def list_all_iff\<close>)
  ultimately show "consistent db'" by (simp add: consistent_def db')
qed

section \<open>New customers and threads\<close>

lemma linked_customers:
  assumes "linked db" and "(\<lambda>u. (cs_id u, cs_enterprise u)) ` set (ib_customers db) \<subseteq> (\<lambda>u. (cs_id u, cs_enterprise u)) ` set us"
  shows "linked (db\<lparr>ib_customers := us\<rparr>)"
  using assms(1) subsetD [OF assms(2)] by (simp add: linked_def)

lemma thread_of_fresh:
  assumes "sound db" and "i \<notin> cv_id ` set (ib_conversations db)"
  shows "thread_of i (ib_messages db) = []"
  using assms by (auto simp: thread_of_def filter_empty_conv sound_def linked_def image_iff)

definition unused_customer :: "int \<Rightarrow> inbox_db \<Rightarrow> bool" where
  "unused_customer i db \<longleftrightarrow> consistent db \<and> i \<notin> set (map cv_customer (ib_conversations db))"

lemma no_threads: "cs_id u \<notin> set (map cv_customer cs) \<Longrightarrow> cs_conversations u = 0 \<Longrightarrow> has_threads cs u"
  by (auto simp: has_threads_def filter_empty_conv image_iff)

lemma customer_known:
  assumes "sound db" and "c \<in> set (ib_conversations db)"
  obtains v where "v \<in> set (ib_customers db)" "cs_id v = cv_customer c" "cs_enterprise v = cv_enterprise c"
proof -
  from assms have "(cv_customer c, cv_enterprise c) \<in> (\<lambda>u. (cs_id u, cs_enterprise u)) ` set (ib_customers db)"
    by (simp add: sound_def linked_def)
  then obtain v where "(cv_customer c, cv_enterprise c) = (cs_id v, cs_enterprise v)" "v \<in> set (ib_customers db)" by (rule imageE)
  with that show ?thesis by simp
qed

lemma insert_customer_settled: "triple consistent (insert_customer inp) unused_customer"
proof (rule tripleI)
  fix db i db' assume s: "consistent db" and run: "insert_customer inp db = Inr (i, db')"
  let ?u = "new_customer i (ib_clock db) inp"
  from run have db': "db' = db\<lparr>ib_customers := ib_customers db @ [?u]\<rparr>" and i: "i = fresh_id (map cs_id (ib_customers db))"
    by (auto simp: insert_customer_def Let_def)
  have u: "cs_id ?u = i" "cs_conversations ?u = 0" by (simp_all add: new_customer_def)
  have new: "i \<notin> cs_id ` set (ib_customers db)" unfolding i by (rule fresh_id_notin_image)
  have k: "sound db" using s by (simp add: consistent_def)
  have none: "i \<notin> set (map cv_customer (ib_conversations db))"
  proof
    assume "i \<in> set (map cv_customer (ib_conversations db))"
    then obtain c where c: "c \<in> set (ib_conversations db)" "cv_customer c = i" by auto
    obtain v where "v \<in> set (ib_customers db)" "cs_id v = cv_customer c" by (rule customer_known [OF k c(1)])
    with c(2) new show False by force
  qed
  have "linked db'" unfolding db' using k by (intro linked_customers) (simp_all add: sound_def subset_insertI)
  then have "sound db'" using k new none u no_threads [of ?u "ib_conversations db"] by (simp add: sound_def keyed_def db')
  with s none show "unused_customer i db'" by (simp add: unused_customer_def consistent_def db')
qed

lemma frame_unused:
  assumes "steps same_core m"
  shows "keeps (unused_customer i) m"
proof (rule tripleI)
  fix s x s' assume u: "unused_customer i s" and run: "m s = Inr (x, s')"
  have c: "core s' = core s" using assms run by (simp add: steps_def)
  have "map cv_customer (map core_conversation (ib_conversations s')) = map cv_customer (map core_conversation (ib_conversations s))"
    by (rule arg_cong [where f = "map cv_customer"]) (metis c core_simps(3))
  then have "map cv_customer (ib_conversations s') = map cv_customer (ib_conversations s)" by (simp add: comp_def)
  moreover have "consistent s' = consistent s" by (metis c settled_core)
  ultimately show "unused_customer i s'" using u by (simp add: unused_customer_def del: list.set_map)
qed

lemma delete_customer_settled: "triple (unused_customer i) (delete_customer e i) (\<lambda>_. consistent)"
proof (rule tripleI)
  fix db r db' assume u: "unused_customer i db" and run: "delete_customer e i db = Inr (r, db')"
  let ?P = "\<lambda>c. \<not> (cs_id c = i \<and> cs_enterprise c = e)"
  from run have db': "db' = db\<lparr>ib_customers := filter ?P (ib_customers db)\<rparr>" by (simp add: delete_customer_def modifies_def)
  have k: "sound db" using u by (simp add: unused_customer_def consistent_def)
  have "(cv_customer c, cv_enterprise c) \<in> (\<lambda>u. (cs_id u, cs_enterprise u)) ` set (filter ?P (ib_customers db))"
    if c: "c \<in> set (ib_conversations db)" for c
  proof -
    obtain v where v: "v \<in> set (ib_customers db)" "cs_id v = cv_customer c" "cs_enterprise v = cv_enterprise c"
      by (rule customer_known [OF k c])
    moreover have "cv_customer c \<noteq> i" using u c by (auto simp: unused_customer_def)
    ultimately show ?thesis by (intro image_eqI [of _ _ v]) simp_all
  qed
  then have "linked db'" using k by (simp add: db' linked_def sound_def)
  then have "sound db'" using k by (simp add: sound_def keyed_def db' distinct_map_filter list_all_iff)
  with u show "consistent db'" by (simp add: unused_customer_def consistent_def db')
qed

lemma core_rejoin: "core_conversation (rejoin u c) = core_conversation c"
  by (simp add: rejoin_def core_conversation_def)

lemma has_threads_new:
  assumes "has_threads cs v" and "cv_customer c = k"
  shows "has_threads (cs @ [c]) (if cs_id v = k then v\<lparr>cs_conversations := cs_conversations v + 1\<rparr> else v)"
  using assms by (simp add: has_threads_def)

lemma new_thread_settled:
  assumes s: "consistent db" and refs: "conversation_refs_ok u db" and new: "find (same_thread u) (ib_conversations db) = None"
    and i: "i = fresh_id (map cv_id (ib_conversations db))"
  shows "consistent (update_customers (\<lambda>c. cs_id c = up_customer u \<and> cs_enterprise c = up_enterprise u)
             (\<lambda>c. c\<lparr>cs_conversations := cs_conversations c + 1\<rparr>)
             (db\<lparr>ib_conversations := ib_conversations db @ [new_conversation i u]\<rparr>))"
proof -
  let ?n = "new_conversation i u" and ?f = "\<lambda>c. c\<lparr>cs_conversations := cs_conversations c + 1\<rparr>"
  let ?P = "\<lambda>c. cs_id c = up_customer u \<and> cs_enterprise c = up_enterprise u"
  let ?us = "update_where ?P ?f (ib_customers db)" and ?cs = "ib_conversations db @ [?n]"
  have k: "sound db" using s by (simp add: consistent_def)
  have ids: "i \<notin> cv_id ` set (ib_conversations db)" unfolding i by (rule fresh_id_notin_image)
  have n: "cv_id ?n = i" "cv_enterprise ?n = up_enterprise u" "cv_channel ?n = up_channel u"
    "cv_customer ?n = up_customer u" "cv_thread ?n = up_thread u" by (simp_all add: new_conversation_def)
  have us: "map cs_id ?us = map cs_id (ib_customers db)"
    "(\<lambda>u. (cs_id u, cs_enterprise u)) ` set ?us = (\<lambda>u. (cs_id u, cs_enterprise u)) ` set (ib_customers db)"
    using arg_cong [OF map_update_where [of ?P "\<lambda>u. (cs_id u, cs_enterprise u)" ?f "ib_customers db"], of set]
    by (simp add: map_update_where, simp only: list.set_map) simp
  have keys: "keyed (db\<lparr>ib_conversations := ?cs, ib_customers := ?us\<rparr>)"
    using k ids new by (auto simp: sound_def keyed_def n us find_None_all same_thread_def)
  have "(up_channel u, up_enterprise u) \<in> (\<lambda>x. (ch_id x, ch_enterprise x)) ` set (ib_channels db)"
    "(up_customer u, up_enterprise u) \<in> (\<lambda>u. (cs_id u, cs_enterprise u)) ` set (ib_customers db)"
    using refs by (force simp: conversation_refs_ok_def list_ex_iff)+
  then have "linked (db\<lparr>ib_conversations := ?cs, ib_customers := ?us\<rparr>)"
    using k by (simp add: sound_def linked_def n us(2))
  moreover have "list_all (has_threads ?cs) ?us"
  proof (rule list_all_written)
    fix v assume v: "v \<in> set (ib_customers db)"
    from refs obtain w where w: "w \<in> set (ib_customers db)" "?P w" by (auto simp: conversation_refs_ok_def list_ex_iff)
    have "?P v \<longleftrightarrow> cs_id v = up_customer u"
      using k v w distinct_map_eq [of cs_id "ib_customers db" v w] by (auto simp: sound_def keyed_def)
    then show "has_threads ?cs (if ?P v then ?f v else v)"
      using k v has_threads_new [of "ib_conversations db" v ?n] by (simp add: sound_def list_all_iff n)
  qed
  ultimately have "sound (db\<lparr>ib_conversations := ?cs, ib_customers := ?us\<rparr>)" using k keys by (simp add: sound_def)
  moreover have "tallies (ib_messages db) ?n"
    using thread_of_fresh [OF k ids] by (simp add: tallies_def n latest_nil) (simp add: new_conversation_def)
  ultimately show ?thesis using s by (simp add: consistent_def update_customers_def)
qed

lemma upsertConversation_settled: "keeps consistent (upsertConversation u)"
proof (rule tripleI)
  fix db r db' assume s: "consistent db" and run: "upsertConversation u db = Inr (r, db')"
  show "consistent db'"
  proof (cases "find (same_thread u) (ib_conversations db)")
    case None
    with run new_thread_settled [OF s _ None refl] show ?thesis
      by (auto simp: upsertConversation_def Let_def split: if_splits)
  next
    case (Some c)
    then have "core db' = core db"
      using run by (auto simp: upsertConversation_def core_def map_update_where core_rejoin split: if_splits)
    with s settled_core [of db] settled_core [of db'] show ?thesis by simp
  qed
qed

lemma create_customer_settled: "keeps consistent (create_customer inp)"
proof -
  have case_made: "triple P (case made of None \<Rightarrow> m | Some k \<Rightarrow> n k) Q" if "triple P m Q" "\<And>k. triple P (n k) Q"
    for P Q and made :: "int option" and m :: "CustomerResolution inbox_act" and n
    using that by (cases made) simp_all
  have "keeps consistent (case winner of None \<Rightarrow> throw IdentifierUnresolved | Some r \<Rightarrow> ret r)" for winner :: "CustomerResolution option"
    by (intro triple_rules)
  then show ?thesis unfolding create_customer_def andThen_def
    by (intro triple_bnd [OF insert_customer_settled] triple_bnd [OF frame_unused [OF steps_statements(1)]] case_made
        triple_bnd [OF delete_customer_settled] keeps_bnd keeps_reads)
      (simp_all add: triple_def ret_def unused_customer_def)
qed

lemma resolveOrCreate_settled: "keeps consistent (resolveOrCreate inp)"
  unfolding resolveOrCreate_def
  by (intro triple_rules create_customer_settled frame_keeps(1) steps_statements)

end
