(* ===== verification/Inbox_Runs.thy ===== *)
theory Inbox_Runs
  imports Inbox_Counters
begin

text \<open>
  Everything that writes the inbox, in any order: the projector worker, agents, the delivery
  write-back, the profile sync, and the clock (\<open>inbox_step\<close>). Every step keeps the counters right.
\<close>

section \<open>The projectors\<close>

lemma triple_reads_fact: "(\<And>x. triple (\<lambda>s. P s \<and> x = f s) (g x) Q) \<Longrightarrow> triple P (bnd (reads f) g) Q"
  by (simp add: triple_def bnd_def reads_def)

lemmas framed = steps_statements [THEN frame_keeps(1)] steps_now_act [THEN frame_keeps(1)] steps_require [THEN frame_keeps(1)]
lemmas framed_owes = steps_statements [THEN frame_keeps(2)]

lemma keeps_ret: "keeps I (ret x)"
  by (simp add: triple_def ret_def)

lemma keeps_prod [triple_rules]: "(\<And>a b. triple I (f a b) Q) \<Longrightarrow> triple I (case x of (a, b) \<Rightarrow> f a b) Q"
  by (cases x) simp

lemma linkIdentifier_settled: "keeps consistent (linkIdentifier e c k v)"
  unfolding linkIdentifier_def by (intro triple_rules framed)

lemma store_customer_settled: "keeps consistent (store_customer h e ch p c)"
  unfolding store_customer_def by (intro triple_rules resolveOrCreate_settled linkIdentifier_settled)

lemma store_thread_settled: "keeps consistent (store_thread h e ch p c k cu)"
  unfolding store_thread_def by (intro triple_rules upsertConversation_settled)

lemma store_message_owes:
  "triple consistent (store_message e ev c cu th) (stored_or_known e (ur_id th) True (cc_created c))"
  unfolding store_message_def
  by (rule keeps_bnd [OF keeps_reads]) (use insertInbound_owes in \<open>force simp: triple_def\<close>)

lemma counted:
  assumes "c = ur_id th" and rest: "\<And>now. triple consistent (m now) Q"
  shows "triple (owes e c True t i) (bnd now_act (\<lambda>now.
    andThen (count_inbound e ch p cu th (case t of None \<Rightarrow> now | Some s \<Rightarrow> s)) (m now))) Q"
  unfolding now_act_def count_inbound_def assms(1)
proof (rule triple_reads_fact)
  fix now
  let ?w = "case t of None \<Rightarrow> now | Some s \<Rightarrow> s"
  let ?P = "\<lambda>db. owes e (ur_id th) True t i db \<and> now = ib_clock db"
  have rm: "triple ?P (recordMessage e (ur_id th) True ?w) (\<lambda>_. consistent)"
    by (rule triple_weaken [OF recordMessage_settles [of e "ur_id th" True t i ?w]]) (auto split: option.split)
  have "triple ?P (andThen (recordMessage e (ur_id th) True ?w) (andThen (touchLastSeen e (res_customer cu) (Some ch))
       (recordEngagement \<lparr> eg_enterprise = e, eg_customer = res_customer cu, eg_channel = ch, eg_platform = p,
          eg_inbound = True, eg_conversation = Some (ur_id th), eg_created = ur_created th \<rparr>))) (\<lambda>_. consistent)"
    unfolding andThen_def by (intro triple_bnd [OF rm] keeps_bnd framed)
  then show "triple ?P
     (andThen (andThen (recordMessage e (ur_id th) True ?w) (andThen (touchLastSeen e (res_customer cu) (Some ch))
       (recordEngagement \<lparr> eg_enterprise = e, eg_customer = res_customer cu, eg_channel = ch, eg_platform = p,
          eg_inbound = True, eg_conversation = Some (ur_id th), eg_created = ur_created th \<rparr>))) (m now)) Q"
    by (simp only: andThen_def [of _ "m now"]) (rule triple_bnd [OF _ rest])
qed

lemma store_settled: "keeps consistent (store h e ch p ev c k)"
proof -
  have "triple (stored_or_known e (ur_id th) True (cc_created c) r) (case r of
         None \<Rightarrow> ret (skipped ''the comment was already projected'')
       | Some i \<Rightarrow> bnd now_act (\<lambda>now.
           let occurredAt = (case cc_created c of None \<Rightarrow> now | Some t \<Rightarrow> t) in
           andThen (count_inbound e ch p cu th occurredAt)
             (ret (stored (Some \<lparr> tf_enterprise = e, tf_customer = res_customer cu, tf_channel = Some ch,
                tf_message = i, tf_occurred = occurredAt, tf_content = cc_text c,
                tf_kind = (if k = Mention then CommentOnMentionedPost else CommentOnOwnPost) \<rparr>) None)))) (\<lambda>_. consistent)" for th cu r
  proof (cases r)
    case (Some i)
    have "stored_or_known e (ur_id th) True (cc_created c) (Some i) = owes e (ur_id th) True (cc_created c) i"
      by (simp add: fun_eq_iff stored_or_known_def)
    then show ?thesis unfolding Some option.case Let_def by (simp only:) (intro counted [OF refl] triple_ret)
  qed (simp add: stored_or_known_def triple_def ret_def)
  then show ?thesis unfolding store_def
    by (intro keeps_bnd store_customer_settled store_thread_settled triple_bnd [OF store_message_owes])
qed

lemma applyModeration_settled: "keeps consistent (applyModeration e cm)"
  unfolding applyModeration_def by (intro triple_rules framed)

lemma projectComment_settled: "keeps consistent (projectComment env inp pl)"
proof -
  have "keeps consistent (case n of NSkip r \<Rightarrow> ret (skipped r) | NModeration cm \<Rightarrow> applyModeration (pi_enterprise inp) cm
      | NComment c \<Rightarrow> if isOwnAuthor (cc_author c) (pi_own_ids inp) then ret (skipped OWN_CONTENT_REASON)
          else store (pj_host env) (pi_enterprise inp) (pi_channel inp) (pi_platform inp) (pi_event inp) c CommentThread)" for n
    by (cases n) (simp_all add: keeps_ret applyModeration_settled store_settled)
  then show ?thesis by (simp add: projectComment_def)
qed

lemma projectMention_settled: "keeps consistent (projectMention env inp pl)"
proof -
  have "keeps consistent (case n of NSkip r \<Rightarrow> ret (skipped r) | NModeration cm \<Rightarrow> applyModeration (pi_enterprise inp) cm
      | NComment c \<Rightarrow> if isOwnAuthor (cc_author c) (pi_own_ids inp) then ret (skipped OWN_CONTENT_REASON)
          else bnd (reads (find_post (pi_enterprise inp) (pi_channel inp) (cc_post c))) (\<lambda>ownPost.
            store (pj_host env) (pi_enterprise inp) (pi_channel inp) (pi_platform inp) (pi_event inp) c
              (if ownPost \<noteq> None then CommentThread else Mention)))" for n
    by (cases n) (auto intro!: keeps_bnd keeps_reads keeps_ret applyModeration_settled store_settled)
  then show ?thesis unfolding projectMention_def now_act_def by (intro triple_rules)
qed

lemma dm_statements_settled:
  "keeps consistent (dm_customer e ch p person nm)" "keeps consistent (dm_thread e ch p person cu)"
  "keeps consistent (ask_for_name e ch ev person cu)" "keeps consistent (link_handle e p ev cu)"
  unfolding dm_customer_def dm_thread_def ask_for_name_def link_handle_def
  by (intro triple_rules resolveOrCreate_settled upsertConversation_settled linkIdentifier_settled framed)+

lemma dm_insert_owes: "triple consistent (dm_insert e n ev m media cu th) (stored_or_known e (ur_id th) True (event_time ev))"
  unfolding dm_insert_def by (rule keeps_bnd [OF keeps_reads]) (use insertInbound_owes in \<open>force simp: triple_def\<close>)

lemma storeDirectMessage_settled: "keeps consistent (storeDirectMessage h inp e m person)"
proof -
  let ?e = "pi_enterprise inp" and ?media = "normalizeAttachments h (dm_attachments m)"
  have "triple (stored_or_known ?e (ur_id th) True (event_time e) r) (case r of
         None \<Rightarrow> ret (skipped ''the message was already projected'')
       | Some i \<Rightarrow>
           andThen (adoptOrphanReplies ?e i (text_of (dm_mid m)))
           (andThen (insertAttachments ?e i (nm_attachments ?media))
           (bnd now_act (\<lambda>now.
            andThen (count_inbound ?e (pi_channel inp) (pi_platform inp) cu th (event_time_or now e))
             (ret (stored (Some \<lparr> tf_enterprise = ?e, tf_customer = res_customer cu, tf_channel = Some (pi_channel inp),
                tf_message = i, tf_occurred = event_time_or now e, tf_content = dm_text m,
                tf_kind = resolveDirectMessageTrigger (dm_facts e m ?media) \<rparr>) None)))))) (\<lambda>_. consistent)" for th cu r
  proof (cases r)
    case (Some i)
    have "stored_or_known ?e (ur_id th) True (event_time e) (Some i) = owes ?e (ur_id th) True (event_time e) i"
      by (simp add: fun_eq_iff stored_or_known_def)
    then show ?thesis unfolding Some option.case event_time_or_def
      by (simp only:) (intro keeps_andThen framed_owes counted [OF refl] triple_ret)
  qed (simp add: stored_or_known_def triple_def ret_def)
  then show ?thesis unfolding storeDirectMessage_def Let_def
    by (intro keeps_bnd keeps_andThen dm_statements_settled triple_bnd [OF dm_insert_owes])
qed

lemma sent_counted:
  assumes "\<And>now. keeps consistent (m now)"
  shows "triple (owes e c False t i) (bnd now_act (\<lambda>now. andThen (recordMessage e c False (f now)) (m now))) (\<lambda>_. consistent)"
  unfolding now_act_def
proof (rule keeps_bnd [OF keeps_reads])
  fix now
  have "triple (owes e c False t i) (recordMessage e c False (f now)) (\<lambda>_. consistent)"
    by (rule triple_weaken [OF recordMessage_settles [of e c False t i]]) auto
  then show "triple (owes e c False t i) (andThen (recordMessage e c False (f now)) (m now)) (\<lambda>_. consistent)"
    unfolding andThen_def by (rule triple_bnd) (rule assms)
qed

lemma recover_own_settled: "keeps consistent (recover_own inp e m media cu th)"
proof -
  let ?e = "pi_enterprise inp"
  have "triple (stored_or_known ?e (ur_id th) False (event_time e) r) (case r of
         None \<Rightarrow> ret (skipped ''our own message was already recorded'')
       | Some i \<Rightarrow>
           andThen (insertAttachments ?e i (nm_attachments media))
           (andThen (adoptOrphanReplies ?e i (text_of (dm_mid m)))
           (bnd now_act (\<lambda>now.
            andThen (recordMessage ?e (ur_id th) False (event_time_or now e)) (ret (stored None None)))))) (\<lambda>_. consistent)" for r
  proof (cases r)
    case (Some i)
    have "stored_or_known ?e (ur_id th) False (event_time e) (Some i) = owes ?e (ur_id th) False (event_time e) i"
      by (simp add: fun_eq_iff stored_or_known_def)
    then show ?thesis unfolding Some option.case
      by (simp only:) (intro keeps_andThen framed_owes sent_counted keeps_ret)
  qed (simp add: stored_or_known_def triple_def ret_def)
  moreover have "triple consistent (insertRecoveredOutbound x) (stored_or_known ?e (ur_id th) False (event_time e))"
    if "mi_enterprise x = ?e" "mi_conversation x = ur_id th" "mi_sent_at x = event_time e" for x
    using insertRecovered_owes [of x] that by simp
  ultimately show ?thesis unfolding recover_own_def Let_def
    by (intro triple_bnd [where R = "stored_or_known ?e (ur_id th) False (event_time e)"]) simp_all
qed

lemma projectOwnMessage_settled: "keeps consistent (projectOwnMessage h inp e m)"
  unfolding projectOwnMessage_def Let_def
  by (intro triple_rules dm_statements_settled claimPendingOutbound_settled framed recover_own_settled)

lemma projectDirectMessage_settled: "keeps consistent (projectDirectMessage env inp e)"
proof -
  have "keeps consistent (projectMessage env inp ev)" for ev
    unfolding projectMessage_def Let_def handleRead_def handleUnsend_def now_act_def
    by (intro triple_rules framed projectOwnMessage_settled storeDirectMessage_settled)
  then show ?thesis
    unfolding projectDirectMessage_def handleMessageEdit_def handleReaction_def now_act_def
    by (intro triple_rules framed)
qed

lemma projectPost_settled: "keeps consistent (projectPost env inp v)"
  unfolding projectPost_def Let_def by (intro triple_rules framed)

lemma project_inbox_settled: "keeps consistent (project_inbox env ty inp p)"
  by (cases ty) (simp_all add: project_inbox_def projectComment_settled projectMention_settled projectDirectMessage_settled
      projectPost_settled keeps_ret)

section \<open>Agents\<close>

lemma requireConversation_settled: "keeps consistent (requireConversation a i x)"
  unfolding requireConversation_def by (intro triple_rules)

lemma send_reply_owes: "keeps (owes e c False t i) (send_reply a cv tg b i)"
proof -
  have "keeps (owes e c False t i) (replyPayload ty cv tg b)" for ty
    unfolding replyPayload_def requireMentionMediaId_def by (intro triple_rules)
  then show ?thesis unfolding send_reply_def
    by (intro triple_rules framed_owes linkOutboundEvent_owes)
qed

lemma writeReply_settled: "keeps consistent (writeReply a em c inp tg)"
  unfolding writeReply_def
proof (rule triple_bnd [OF insertOutbound_owes], simp only: OutboundMessageInput.select_convs)
  fix i
  let ?o = "owes (ac_enterprise a) (cv_id c) False None i"
  show "triple ?o (andThen (if rp_note inp then ret () else send_reply a c (map_option snd tg) (rp_body inp) i)
     (bnd now_act (\<lambda>now.
      andThen (recordMessage (ac_enterprise a) (cv_id c) False now)
      (andThen
        (if cv_customer c \<noteq> 0
         then recordEngagement \<lparr> eg_enterprise = ac_enterprise a, eg_customer = cv_customer c,
                eg_channel = cv_channel c, eg_platform = cv_platform c, eg_inbound = False,
                eg_conversation = Some (cv_id c), eg_created = False \<rparr>
         else ret ())
        (ret \<lparr> rr_message = i, rr_status = (if rp_note inp then MsgDelivered else MsgPending) \<rparr>))))) (\<lambda>_. consistent)"
    by (intro keeps_andThen keeps_if triple_ret send_reply_owes sent_counted [where f = "\<lambda>x. x"] framed)
qed

lemma checkSendPath_settled: "keeps consistent (checkSendPath a c)"
  by (auto simp: triple_def checkSendPath_def split: option.splits if_splits)

lemma reply_settled: "keeps consistent (reply a inp)"
  unfolding reply_def findTarget_def
  by (intro triple_rules requireConversation_settled checkSendPath_settled writeReply_settled)

lemma agent_settled:
  "keeps consistent (assign a i em)" "keeps consistent (setStatus a i st)" "keeps consistent (markRead a i)"
  "keeps consistent (requestResync a i)"
  unfolding assign_def setStatus_def markRead_def requestResync_def
  by (intro triple_rules requireConversation_settled markConversationRead_settled framed)+

lemma moderateComment_settled: "keeps consistent (moderateComment h a i m x)"
  unfolding moderateComment_def moderateTarget_def
  by (intro triple_rules requireConversation_settled framed)

section \<open>Runs\<close>

text \<open>What agents, the delivery write-back and the profile sync do. The result is not recorded.\<close>

datatype inbox_job =
  JReply inbox_actor ReplyInput
| JAssign inbox_actor int "int option"
| JStatus inbox_actor int ConversationStatus
| JRead inbox_actor int
| JResync inbox_actor int
| JModerate platform_host inbox_actor int int OwnModeration
| JDelivered int int "string option" MessageStatus
| JNamed int IdentifierKind string string "string option" "string option"
| JProfile int int "string option" "string option" "string option" "string option" config
| JContext int int config

fun perform_job :: "inbox_job \<Rightarrow> unit inbox_act" where
  "perform_job (JReply a inp) = bnd (reply a inp) (\<lambda>_. ret ())"
| "perform_job (JAssign a i e) = assign a i e"
| "perform_job (JStatus a i st) = setStatus a i st"
| "perform_job (JRead a i) = markRead a i"
| "perform_job (JResync a i) = bnd (requestResync a i) (\<lambda>_. ret ())"
| "perform_job (JModerate h a i m x) = moderateComment h a i m x"
| "perform_job (JDelivered e ev pid st) = recordInboxDelivery e ev pid st"
| "perform_job (JNamed e k v nm g f) = bnd (nameByIdentifier e k v nm g f) (\<lambda>_. ret ())"
| "perform_job (JProfile e c nm g f av pr) = bnd (applyPlatformProfile e c nm g f av pr) (\<lambda>_. ret ())"
| "perform_job (JContext e c patch) = mergeContextMetadata e c patch"

lemma perform_job_settled: "keeps consistent (perform_job j)"
  by (cases j) (auto intro!: keeps_bnd keeps_ret reply_settled agent_settled moderateComment_settled
      recordInboxDelivery_settled framed)

text \<open>The tables that others write: the ledger by the relay, the jobs by the backfill worker, the channels
  by connecting and disconnecting, which keeps every row.\<close>

definition others_wrote :: "inbox_db \<Rightarrow> inbox_db \<Rightarrow> bool" where
  "others_wrote db db' \<longleftrightarrow> (\<exists>ob js cs es t. ib_clock db \<le> t \<and> distinct (map ch_id cs)
     \<and> (\<lambda>x. (ch_id x, ch_enterprise x)) ` set (ib_channels db) \<subseteq> (\<lambda>x. (ch_id x, ch_enterprise x)) ` set cs
     \<and> db' = db\<lparr>ib_outbox := ob, ib_sync := js, ib_channels := cs, ib_employees := es, ib_clock := t\<rparr>)"

definition empty_inbox :: "channel list \<Rightarrow> inbox_db" where
  "empty_inbox cs = \<lparr> ib_customers = [], ib_identifiers = [], ib_engagements = [], ib_conversations = [], ib_messages = [],
     ib_attachments = [], ib_posts = [], ib_outbox = \<lparr> events = [], next_event_id = 1 \<rparr>, ib_sync = [],
     ib_channels = cs, ib_employees = [], ib_clock = 0 \<rparr>"

text \<open>One step, with the event it offers to the reward engine, if it offers one.\<close>

inductive inbox_step :: "inbox_db \<Rightarrow> trigger_facts option \<Rightarrow> inbox_db \<Rightarrow> bool" where
  projected: "project_inbox env ty inp p db = Inr (outcome, db') \<Longrightarrow> inbox_step db (offered outcome) db'"
| acted: "perform_job j db = Inr (x, db') \<Longrightarrow> inbox_step db None db'"
| elsewhere: "others_wrote db db' \<Longrightarrow> inbox_step db None db'"

text \<open>What happens after a state, and the events offered on the way, the latest first.\<close>

inductive inbox_after :: "inbox_db \<Rightarrow> trigger_facts list \<Rightarrow> inbox_db \<Rightarrow> bool" for start where
  now: "inbox_after start [] start"
| later: "inbox_after start ts db \<Longrightarrow> inbox_step db t db' \<Longrightarrow> inbox_after start ((case t of None \<Rightarrow> [] | Some x \<Rightarrow> [x]) @ ts) db'"

definition inbox_reach :: "trigger_facts list \<Rightarrow> inbox_db \<Rightarrow> bool" where
  "inbox_reach ts db \<longleftrightarrow> (\<exists>cs. distinct (map ch_id cs) \<and> inbox_after (empty_inbox cs) ts db)"

lemma others_settled:
  assumes "consistent db" and "others_wrote db db'"
  shows "consistent db'"
proof -
  from assms(2) obtain ob js cs es t where cs: "distinct (map ch_id cs)"
      "(\<lambda>x. (ch_id x, ch_enterprise x)) ` set (ib_channels db) \<subseteq> (\<lambda>x. (ch_id x, ch_enterprise x)) ` set cs"
    and db': "db' = db\<lparr>ib_outbox := ob, ib_sync := js, ib_channels := cs, ib_employees := es, ib_clock := t\<rparr>"
    unfolding others_wrote_def by blast
  have "linked db'" using assms(1) subsetD [OF cs(2)] by (simp add: consistent_def sound_def linked_def db')
  then show ?thesis using assms(1) cs(1) by (simp add: consistent_def sound_def keyed_def db')
qed

lemma step_settled: "inbox_step db t db' \<Longrightarrow> consistent db \<Longrightarrow> consistent db'"
  by (cases rule: inbox_step.cases)
    (auto dest: tripleD [OF project_inbox_settled] tripleD [OF perform_job_settled] others_settled)

lemma after_settled: "inbox_after db ts db' \<Longrightarrow> consistent db \<Longrightarrow> consistent db'"
  by (induction rule: inbox_after.induct) (auto dest: step_settled)

lemma empty_settled: "distinct (map ch_id cs) \<Longrightarrow> consistent (empty_inbox cs)"
  by (simp add: consistent_def sound_def keyed_def linked_def empty_inbox_def)

lemma reach_settled: "inbox_reach ts db \<Longrightarrow> consistent db"
  unfolding inbox_reach_def by (auto dest: after_settled empty_settled)

section \<open>Messages stay, and are offered once\<close>

definition message_key :: "inbox_message \<Rightarrow> int \<times> int \<times> int \<times> MessageDirection \<times> string option \<times> bool" where
  "message_key m = (mg_id m, mg_enterprise m, mg_conversation m, mg_direction m, mg_idempotency m, mg_note m)"

definition still_has :: "(int \<times> int \<times> int \<times> MessageDirection \<times> string option \<times> bool) set \<Rightarrow> inbox_db \<Rightarrow> bool" where
  "still_has ks db \<longleftrightarrow> ks \<subseteq> message_key ` set (ib_messages db)"

lemma message_key_core [simp]: "message_key (core_message m) = message_key m"
  by (simp add: message_key_def)

lemma holds_keys: "still_has ks db \<longleftrightarrow> ks \<subseteq> set (map message_key (ib_messages db))"
  by (simp add: still_has_def)

lemma frame_holds:
  assumes "steps same_core m"
  shows "keeps (still_has ks) m"
proof (rule tripleI)
  fix s x s' assume h: "still_has ks s" and run: "m s = Inr (x, s')"
  have c: "core s' = core s" using assms run by (simp add: steps_def)
  have "map message_key (map core_message (ib_messages s')) = map message_key (map core_message (ib_messages s))"
    by (rule arg_cong [where f = "map message_key"]) (metis c core_simps(4))
  then have "map message_key (ib_messages s') = map message_key (ib_messages s)"
    by (simp add: comp_def)
  with h show "still_has ks s'" by (simp only: holds_keys)
qed

lemma holds_update_messages:
  "(\<And>m. message_key (f m) = message_key m) \<Longrightarrow> still_has ks (update_messages P f db) = still_has ks db"
  by (simp add: holds_keys update_messages_def map_update_where del: set_map)

lemma holds_others [simp]:
  "still_has ks (db\<lparr>ib_customers := a\<rparr>) = still_has ks db" "still_has ks (db\<lparr>ib_conversations := b\<rparr>) = still_has ks db"
  "still_has ks (update_customers P f db) = still_has ks db" "still_has ks (update_conversations Q g db) = still_has ks db"
  by (simp_all add: still_has_def update_customers_def update_conversations_def)

lemma holds_statements:
  "keeps (still_has ks) (insert_customer a1)" "keeps (still_has ks) (delete_customer a2 a3)" "keeps (still_has ks) (upsertConversation a4)"
  "keeps (still_has ks) (recordMessage a5 a6 a7 a8)" "keeps (still_has ks) (markConversationRead a9 b1)"
  "keeps (still_has ks) (claimPendingOutbound b2 b3 b4 b5)" "keeps (still_has ks) (linkOutboundEvent b6 b7 b8)"
  "keeps (still_has ks) (insertOutbound c1)"
  by (auto simp: triple_def insert_customer_def delete_customer_def upsertConversation_def recordMessage_def
      markConversationRead_def clear_badge_def mark_messages_read_def claimPendingOutbound_def linkOutboundEvent_def
      andThen_Inr modifies_def Let_def holds_update_messages message_key_def split: if_splits option.splits list.splits)
    (auto simp: still_has_def insertOutbound_def Let_def split: if_splits)

lemma holds_delivery: "keeps (still_has ks) (recordInboxDelivery e ev pid st)"
proof (rule tripleI)
  fix db x db' assume h: "still_has ks db" and run: "recordInboxDelivery e ev pid st db = Inr (x, db')"
  have "db' = update_messages (\<lambda>m. mg_enterprise m = e \<and> mg_outbound_event m = Some ev)
    (\<lambda>m. m\<lparr>mg_platform_id := orElse pid (mg_platform_id m), mg_status := st,
       mg_sent_at := (if st = MsgSent then Some (ib_clock db) else mg_sent_at m)\<rparr>) db"
    using run by (auto simp: recordInboxDelivery_def update_messages_def Let_def split: if_splits)
  with h show "still_has ks db'" by (simp add: holds_update_messages message_key_def)
qed

lemma holds_insert: "keeps (still_has ks) (insert_platform_message mk inp)"
  by (auto simp: triple_def insert_platform_message_def still_has_def Let_def split: if_splits)

lemmas held = steps_statements [THEN frame_holds] steps_now_act [THEN frame_holds] steps_require [THEN frame_holds]
  holds_statements holds_delivery

lemma holds_customer: "keeps (still_has ks) (resolveOrCreate a)" "keeps (still_has ks) (linkIdentifier b c d e)"
  unfolding resolveOrCreate_def create_customer_def linkIdentifier_def by (intro triple_rules held)+

definition offers :: "(int \<times> int \<times> int \<times> MessageDirection \<times> string option \<times> bool) set \<Rightarrow> inbox_outcome \<Rightarrow> inbox_db \<Rightarrow> bool" where
  "offers ks out db \<longleftrightarrow> still_has ks db \<and> (\<forall>t. offered out = Some t \<longrightarrow> tf_message t \<notin> fst ` ks
     \<and> (\<exists>c q n. (tf_message t, tf_enterprise t, c, DirInbound, q, n) \<in> message_key ` set (ib_messages db)))"

lemma ret_offers: "offered out = None \<Longrightarrow> triple (still_has ks) (ret out) (offers ks)"
  by (simp add: triple_def ret_def offers_def)

lemma skipped_offers: "triple (still_has ks) (ret (skipped why)) (offers ks)"
  by (rule ret_offers) (simp add: skipped_def)

lemma stored_offers: "triple (still_has ks) (ret (stored None v)) (offers ks)"
  by (rule ret_offers) (simp add: stored_def)

text \<open>A message has just been inserted, and is not among \<open>ks\<close>.\<close>

definition arrived :: "(int \<times> int \<times> int \<times> MessageDirection \<times> string option \<times> bool) set \<Rightarrow> int \<Rightarrow> int option \<Rightarrow> inbox_db \<Rightarrow> bool" where
  "arrived ks e r db \<longleftrightarrow> still_has ks db \<and> (case r of None \<Rightarrow> True | Some i \<Rightarrow>
     i \<notin> fst ` ks \<and> (\<exists>c q n. still_has {(i, e, c, DirInbound, q, n)} db))"

lemma arrived_keeps:
  assumes "\<And>ks. keeps (still_has ks) m"
  shows "keeps (arrived ks e r) m"
  using assms by (fastforce simp: triple_def arrived_def split: option.splits)

lemma insertInbound_arrived: "triple (still_has ks) (insertInbound inp) (arrived ks (mi_enterprise inp))"
proof (rule tripleI)
  fix db r db' assume h: "still_has ks db" and run: "insertInbound inp db = Inr (r, db')"
  let ?i = "fresh_id (map mg_id (ib_messages db))"
  have "mg_id m \<noteq> ?i" if "m \<in> set (ib_messages db)" for m
    using fresh_id_map [OF that, of mg_id] by simp
  then have new: "?i \<notin> fst ` ks" using h by (force simp: still_has_def message_key_def)
  show "arrived ks (mi_enterprise inp) r db'"
  proof (cases r)
    case None
    with run h show ?thesis
      by (auto simp: insertInbound_def insert_platform_message_def arrived_def Let_def split: if_splits)
  next
    case (Some i)
    let ?m = "inbound_message ?i (ib_clock db) inp"
    from run Some have db': "i = ?i" "db' = db\<lparr>ib_messages := ib_messages db @ [?m]\<rparr>"
      by (auto simp: insertInbound_def insert_platform_message_def Let_def split: if_splits)
    have "message_key ?m = (?i, mi_enterprise inp, mi_conversation inp, DirInbound, None, False)"
      by (simp add: message_key_def inbound_message_def)
    then have "still_has {(?i, mi_enterprise inp, mi_conversation inp, DirInbound, None, False)} db'"
      by (simp add: still_has_def db')
    moreover have "still_has ks db'" using h by (auto simp: still_has_def db')
    ultimately show ?thesis using new unfolding arrived_def Some option.case db'(1) by blast
  qed
qed

lemma arrived_offers:
  "triple (arrived ks e (Some i)) (ret (stored (Some \<lparr> tf_enterprise = e, tf_customer = cu, tf_channel = ch,
     tf_message = i, tf_occurred = w, tf_content = t, tf_kind = k \<rparr>) None)) (offers ks)"
  by (auto simp: triple_def ret_def offers_def stored_def arrived_def still_has_def)

lemma counted_arrived: "keeps (arrived ks e r) (count_inbound a p q cu th w)"
  unfolding count_inbound_def by (intro keeps_andThen arrived_keeps held)

lemma applyModeration_offers: "triple (still_has ks) (applyModeration e cm) (offers ks)"
  unfolding applyModeration_def by (intro triple_rules held skipped_offers stored_offers)

lemma store_customer_holds: "keeps (still_has ks) (store_customer h e ch p c)"
  unfolding store_customer_def by (intro triple_rules holds_customer)

lemma store_thread_holds: "keeps (still_has ks) (store_thread h e ch p c k cu)"
  unfolding store_thread_def by (intro triple_rules held)

lemma store_message_arrived: "triple (still_has ks) (store_message e ev c cu th) (arrived ks e)"
  unfolding store_message_def
  by (rule keeps_bnd [OF keeps_reads]) (use insertInbound_arrived in \<open>force simp: triple_def\<close>)

lemma arrived_none: "triple (arrived ks e None) (ret (skipped why)) (offers ks)"
  by (simp add: triple_def ret_def offers_def skipped_def arrived_def)

lemma case_arrived:
  assumes "triple (arrived ks e None) m Q" and "\<And>i. triple (arrived ks e (Some i)) (f i) Q"
  shows "triple (arrived ks e r) (case r of None \<Rightarrow> m | Some i \<Rightarrow> f i) Q"
  using assms by (cases r) simp_all

lemma store_offers: "triple (still_has ks) (store h e ch p ev c k) (offers ks)"
  unfolding store_def Let_def
  by (intro keeps_bnd store_customer_holds store_thread_holds triple_bnd [OF store_message_arrived] case_arrived arrived_none
      keeps_andThen counted_arrived arrived_offers arrived_keeps held)

lemma projectComment_offers: "triple (still_has ks) (projectComment env inp pl) (offers ks)"
proof -
  have "triple (still_has ks) (case n of NSkip r \<Rightarrow> ret (skipped r) | NModeration cm \<Rightarrow> applyModeration (pi_enterprise inp) cm
      | NComment c \<Rightarrow> if isOwnAuthor (cc_author c) (pi_own_ids inp) then ret (skipped OWN_CONTENT_REASON)
          else store (pj_host env) (pi_enterprise inp) (pi_channel inp) (pi_platform inp) (pi_event inp) c CommentThread) (offers ks)" for n
    by (cases n) (simp_all add: skipped_offers applyModeration_offers store_offers)
  then show ?thesis by (simp add: projectComment_def)
qed

lemma projectMention_offers: "triple (still_has ks) (projectMention env inp pl) (offers ks)"
proof -
  have "triple (still_has ks) (case n of NSkip r \<Rightarrow> ret (skipped r) | NModeration cm \<Rightarrow> applyModeration (pi_enterprise inp) cm
      | NComment c \<Rightarrow> if isOwnAuthor (cc_author c) (pi_own_ids inp) then ret (skipped OWN_CONTENT_REASON)
          else bnd (reads (find_post (pi_enterprise inp) (pi_channel inp) (cc_post c))) (\<lambda>ownPost.
            store (pj_host env) (pi_enterprise inp) (pi_channel inp) (pi_platform inp) (pi_event inp) c
              (if ownPost \<noteq> None then CommentThread else Mention))) (offers ks)" for n
    by (cases n) (auto intro!: keeps_bnd keeps_reads skipped_offers applyModeration_offers store_offers)
  then show ?thesis unfolding projectMention_def now_act_def by (intro triple_rules)
qed

lemma dm_statements_hold:
  "keeps (still_has ks) (dm_customer e ch p person nm)" "keeps (still_has ks) (dm_thread e ch p person cu)"
  "keeps (still_has ks) (ask_for_name e ch ev person cu)" "keeps (still_has ks) (link_handle e p ev cu)"
  unfolding dm_customer_def dm_thread_def ask_for_name_def link_handle_def
  by (intro triple_rules holds_customer held)+

lemma dm_insert_arrived: "triple (still_has ks) (dm_insert e n ev m media cu th) (arrived ks e)"
  unfolding dm_insert_def by (rule keeps_bnd [OF keeps_reads]) (use insertInbound_arrived in \<open>force simp: triple_def\<close>)

lemma storeDirectMessage_offers: "triple (still_has ks) (storeDirectMessage h inp e m person) (offers ks)"
  unfolding storeDirectMessage_def Let_def
  by (intro keeps_bnd keeps_andThen dm_statements_hold triple_bnd [OF dm_insert_arrived] case_arrived arrived_none
      counted_arrived arrived_offers arrived_keeps held)

lemma projectOwnMessage_offers: "triple (still_has ks) (projectOwnMessage h inp e m) (offers ks)"
  unfolding projectOwnMessage_def recover_own_def insertRecoveredOutbound_def Let_def
  by (intro triple_rules dm_statements_hold held holds_insert skipped_offers stored_offers)

lemma projectDirectMessage_offers: "triple (still_has ks) (projectDirectMessage env inp e) (offers ks)"
proof -
  have "triple (still_has ks) (projectMessage env inp ev) (offers ks)" for ev
    unfolding projectMessage_def Let_def handleRead_def handleUnsend_def
    by (intro triple_rules held skipped_offers projectOwnMessage_offers storeDirectMessage_offers)
  then show ?thesis
    unfolding projectDirectMessage_def handleMessageEdit_def handleReaction_def
    by (intro triple_rules held skipped_offers)
qed

lemma projectPost_offers: "triple (still_has ks) (projectPost env inp v) (offers ks)"
  unfolding projectPost_def Let_def by (intro triple_rules held skipped_offers stored_offers)

lemma project_inbox_offers: "triple (still_has ks) (project_inbox env ty inp p) (offers ks)"
  by (cases ty) (simp_all add: project_inbox_def projectComment_offers projectMention_offers projectDirectMessage_offers
      projectPost_offers skipped_offers)

lemma reply_holds: "keeps (still_has ks) (reply a inp)"
  unfolding reply_def requireConversation_def findTarget_def writeReply_def send_reply_def replyPayload_def
    requireMentionMediaId_def
  by (intro triple_rules held) (auto simp: triple_def checkSendPath_def split: option.splits if_splits)

lemma agent_holds:
  "keeps (still_has ks) (assign a i em)" "keeps (still_has ks) (setStatus a i st)" "keeps (still_has ks) (markRead a i)"
  "keeps (still_has ks) (requestResync a i)" "keeps (still_has ks) (moderateComment h a i m x)"
  unfolding assign_def setStatus_def markRead_def requestResync_def moderateComment_def moderateTarget_def
    requireConversation_def
  by (intro triple_rules held)+

lemma run_job_holds: "keeps (still_has ks) (perform_job j)"
  by (cases j; simp only: perform_job.simps; intro keeps_bnd keeps_ret reply_holds agent_holds held)

lemma step_offers:
  assumes "inbox_step db t db'" and "still_has ks db"
  shows "still_has ks db' \<and> (\<forall>x. t = Some x \<longrightarrow> tf_message x \<notin> fst ` ks
    \<and> (\<exists>c q n. (tf_message x, tf_enterprise x, c, DirInbound, q, n) \<in> message_key ` set (ib_messages db')))"
  using assms
proof (cases rule: inbox_step.cases)
  case (projected env ty inp p outcome)
  have "offers ks outcome db'" by (rule tripleD [OF project_inbox_offers assms(2) projected(2)])
  then show ?thesis by (simp add: offers_def projected(1))
next
  case (acted j x)
  have "still_has ks db'" by (rule tripleD [OF run_job_holds assms(2) acted(2)])
  then show ?thesis by (simp add: acted(1))
qed (use assms(2) in \<open>auto simp: others_wrote_def still_has_def\<close>)

lemma after_holds: "inbox_after db ts db' \<Longrightarrow> still_has ks db \<Longrightarrow> still_has ks db'"
  by (induction rule: inbox_after.induct) (auto dest: step_offers)

end
