(* ===== verification/Inbox_Safety.thy ===== *)
theory Inbox_Safety
  imports Inbox_Runs
begin

text \<open>
  What is true of the inbox in every reachable state, and what an agent's reply does. A demo runs one
  direct message of a customer, an agent's answer, and a second delivery of the message.
\<close>

section \<open>A thread with one message\<close>

definition inbox_host :: platform_host where
  "inbox_host = \<lparr> normalizeText = (\<lambda>s. s), parse_instant = (\<lambda>_. None), iso_text = show_int, url_host = (\<lambda>_. None),
     url_path = (\<lambda>s. s), url_query = (\<lambda>_ _. None) \<rparr>"

definition demo_projectors :: projector_env where
  "demo_projectors = \<lparr> pj_host = inbox_host, pj_decrypt = Some, pj_mention = (\<lambda>_ _ _ _. Inr None) \<rparr>"

definition demo_account :: channel where
  "demo_account = \<lparr> ch_id = 3, ch_enterprise = 7, ch_connection = 5, ch_parent = None, ch_platform = Instagram,
     ch_platform_id = ''ig'', ch_token = Some ''sealed'', ch_token_status = TokenValid, ch_reauth = False,
     ch_managed = True, ch_deleted = False, ch_status = ChannelActive \<rparr>"

definition demo_delivery :: "int \<Rightarrow> projector_input" where
  "demo_delivery n = \<lparr> pi_enterprise = 7, pi_channel = 3, pi_platform = Instagram, pi_event = n, pi_own_ids = [''ig''],
     pi_attempt = 1 \<rparr>"

definition demo_said :: "string \<Rightarrow> string \<Rightarrow> int \<Rightarrow> messaging_event" where
  "demo_said mid t w = no_event\<lparr>ev_sender := Some ''c1'', ev_recipient := Some ''ig'', ev_timestamp := Some w,
     ev_message := Some (bare_message\<lparr>dm_mid := Some mid, dm_text := Some t\<rparr>)\<rparr>"

definition after_project :: "InboundEventType \<Rightarrow> inbox_payload \<Rightarrow> inbox_db \<Rightarrow> trigger_facts option \<times> inbox_db" where
  "after_project ty p db = (case project_inbox demo_projectors ty (demo_delivery 1) p db of
     Inl e \<Rightarrow> (None, db) | Inr (out, db') \<Rightarrow> (offered out, db'))"

definition after_job :: "inbox_job \<Rightarrow> inbox_db \<Rightarrow> inbox_db" where
  "after_job j db = (case perform_job j db of Inl e \<Rightarrow> db | Inr (x, db') \<Rightarrow> db')"

definition demo_opened :: "trigger_facts option \<times> inbox_db" where
  "demo_opened = after_project InDirectMessage (MessagePayload (demo_said ''m1'' ''hi'' 1000)) (empty_inbox [demo_account])"

definition demo_agent :: inbox_actor where
  "demo_agent = \<lparr> ac_enterprise = 7, ac_employee = Some 1, ac_permissions = [ConversationsView, ConversationsReply,
     ConversationsManage, CommentsManage, MentionsReply], ac_may_hide = True, ac_may_delete = True, ac_correlation = None \<rparr>"

definition demo_answer :: "bool \<Rightarrow> ReplyInput" where
  "demo_answer note = \<lparr> rp_conversation = 1, rp_body = ''hello'', rp_key = ''k1'', rp_note = note, rp_target = None \<rparr>"

definition demo_answered :: inbox_db where
  "demo_answered = after_job (JReply demo_agent (demo_answer False)) (snd demo_opened)"

text \<open>The rows of the demo, evaluated once.\<close>

definition demo_thread :: conversation_row where
  "demo_thread = \<lparr> cv_id = 1, cv_enterprise = 7, cv_channel = 3, cv_customer = 1, cv_identifier = Some 1, cv_post = None,
     cv_platform = Instagram, cv_kind = DirectMessage, cv_thread = ''dm:c1'', cv_subject = None, cv_context = [],
     cv_status = ConvOpen, cv_unread = 1, cv_messages = 1, cv_last_message = Some 1000, cv_last_inbound = Some 1000,
     cv_first_responded = None, cv_assigned = None, cv_assigned_at = None, cv_resolved_at = None, cv_deleted = False \<rparr>"

definition demo_inbound :: inbox_message where
  "demo_inbound = \<lparr> mg_id = 1, mg_enterprise = 7, mg_conversation = 1, mg_direction = DirInbound, mg_customer = Some 1,
     mg_employee = None, mg_parent = None, mg_inbound_event = Some 1, mg_outbound_event = None, mg_platform_id = Some ''m1'',
     mg_idempotency = None, mg_kind = KText, mg_body = Some ''hi'', mg_has_attachments = False, mg_metadata = [],
     mg_read = False, mg_note = False, mg_hidden = False, mg_sent_at = Some 1000, mg_deleted_at = None,
     mg_status = MsgDelivered, mg_created = 0, mg_updated = 0, mg_deleted = False \<rparr>"

definition demo_engagement :: "int \<Rightarrow> engagement_row" where
  "demo_engagement sent = \<lparr> en_enterprise = 7, en_customer = 1, en_channel = 3, en_platform = Instagram, en_first = 0,
     en_last = 0, en_inbound = 1, en_outbound = sent, en_conversations = 1, en_last_conversation = Some 1, en_deleted = False \<rparr>"

definition demo_queue :: outbox where
  "demo_queue = \<lparr> events = [new_event 0 1 (channel_event demo_agent demo_thread OutDirectMessage (Some ''c1'')
       ''instagram:direct_message:messages:2'' (no_payload\<lparr>message := Some ''hello''\<rparr>))], next_event_id = 2 \<rparr>"

lemma demo_opened_code [code]:
  "demo_opened = (Some \<lparr> tf_enterprise = 7, tf_customer = 1, tf_channel = Some 3, tf_message = 1, tf_occurred = 1000,
       tf_content = Some ''hi'', tf_kind = DirectMessageInbound \<rparr>,
     (empty_inbox [demo_account])\<lparr>
       ib_customers := [\<lparr> cs_id = 1, cs_enterprise = 7, cs_name = None, cs_first_name = None, cs_last_name = None,
         cs_avatar = None, cs_source = SourceInstagramDm, cs_first_channel = Some 3, cs_last_channel = Some 3,
         cs_first_seen = 0, cs_last_seen = 0, cs_conversations = 1, cs_metadata = [], cs_deleted = False \<rparr>],
       ib_identifiers := [\<lparr> idn_id = 1, idn_enterprise = 7, idn_customer = 1, idn_kind = InstagramUserId, idn_value = ''c1'',
         idn_primary = True, idn_active = True, idn_deleted = False \<rparr>],
       ib_engagements := [demo_engagement 0], ib_conversations := [demo_thread], ib_messages := [demo_inbound],
       ib_sync := snd (enqueueIfAbsent 0 \<lparr> es_enterprise = 7, es_channel = 3, es_kind = ResyncConversation,
         es_trigger = Scheduled, es_target = Some ''c1'' \<rparr> [])\<rparr>)"
  by code_simp

lemma demo_answered_code [code]:
  "demo_answered = (snd demo_opened)\<lparr>ib_engagements := [demo_engagement 1],
     ib_conversations := [demo_thread\<lparr>cv_messages := 2, cv_first_responded := Some 0\<rparr>],
     ib_messages := [demo_inbound, (outbound_message 2 0 \<lparr> mo_enterprise = 7, mo_conversation = 1, mo_customer = Some 1,
       mo_employee = 1, mo_body = ''hello'', mo_idempotency = Some ''k1'', mo_parent = None, mo_note = False \<rparr>)
         \<lparr>mg_outbound_event := Some 1\<rparr>],
     ib_outbox := demo_queue\<rparr>"
  by code_simp

lemma after_project_step:
  assumes "inbox_after start ts db"
  shows "inbox_after start ((case fst (after_project ty p db) of None \<Rightarrow> [] | Some x \<Rightarrow> [x]) @ ts) (snd (after_project ty p db))"
proof (cases "project_inbox demo_projectors ty (demo_delivery 1) p db")
  case (Inr r)
  then obtain out db' where r: "project_inbox demo_projectors ty (demo_delivery 1) p db = Inr (out, db')" by (cases r) simp
  show ?thesis using inbox_after.later [OF assms inbox_step.projected [OF r]] by (simp add: after_project_def r)
qed (use assms in \<open>simp add: after_project_def\<close>)

lemma after_job_step:
  assumes "inbox_after start ts db"
  shows "inbox_after start ts (after_job j db)"
proof (cases "perform_job j db")
  case (Inr r)
  then obtain x db' where r: "perform_job j db = Inr (x, db')" by (cases r) simp
  show ?thesis using inbox_after.later [OF assms inbox_step.acted [OF r]] by (simp add: after_job_def r)
qed (use assms in \<open>simp add: after_job_def\<close>)

lemma demo_reached:
  "inbox_reach [the (fst demo_opened)] (snd demo_opened)" "inbox_reach [the (fst demo_opened)] demo_answered"
proof -
  have some: "fst demo_opened = Some (the (fst demo_opened))" by code_simp
  have 1: "inbox_after (empty_inbox [demo_account]) [the (fst demo_opened)] (snd demo_opened)"
    using after_project_step [OF inbox_after.now [of "empty_inbox [demo_account]"], of InDirectMessage
        "MessagePayload (demo_said ''m1'' ''hi'' 1000)"] some
    by (simp add: demo_opened_def [symmetric] split: option.splits)
  then show "inbox_reach [the (fst demo_opened)] (snd demo_opened)" unfolding inbox_reach_def
    by (intro exI [of _ "[demo_account]"]) simp
  from after_job_step [OF 1] show "inbox_reach [the (fst demo_opened)] demo_answered"
    unfolding inbox_reach_def demo_answered_def by (intro exI [of _ "[demo_account]"]) simp
qed

section \<open>The numbers are right\<close>



lemma within_latest:
  "(case latest ts of None \<Rightarrow> False | Some t \<Rightarrow> now - t \<le> w) \<longleftrightarrow> (\<exists>t \<in> set ts. now - t \<le> (w :: int))"
proof (induction ts rule: rev_induct)
  case (snoc t ts)
  then show ?case by (cases "latest ts") (auto simp: latest_snoc latest_of_def max_def)
qed (simp add: latest_nil)

text \<open>C29: The reply window is the platform's. Whether a direct message may be answered is decided by a column; in every
  reachable state it says yes exactly when some message of the customer in this thread arrived within 24 hours.\<close>

theorem reply_window_exact:
  assumes "inbox_reach ts db" and "c \<in> set (ib_conversations db)"
  shows "evaluateReplyWindow DirectMessage (cv_last_inbound c) k None (ib_clock db)
    \<longleftrightarrow> (\<exists>m \<in> set (ib_messages db). mg_conversation m = cv_id c \<and> mg_direction m = DirInbound
          \<and> ib_clock db - arrival m \<le> MESSAGING_WINDOW_MS)"
proof -
  have "consistent db" by (rule reach_settled [OF assms(1)])
  with assms(2) have "cv_last_inbound c = latest (map arrival (filter inbound (thread_of (cv_id c) (ib_messages db))))"
    by (simp add: consistent_def list_all_iff tallies_def)
  moreover have "evaluateReplyWindow DirectMessage l k None n
      = (case l of None \<Rightarrow> False | Some t \<Rightarrow> n - t \<le> MESSAGING_WINDOW_MS)" for l n
    by (simp add: evaluateReplyWindow_def WINDOWED_KINDS_def)
  ultimately show ?thesis by (simp only: within_latest) (auto simp: thread_of_def inbound_def)
qed

theorem reply_window_exact_witness:
  "evaluateReplyWindow DirectMessage (cv_last_inbound (ib_conversations demo_answered ! 0)) None None (ib_clock demo_answered)"
proof -
  have c: "ib_conversations demo_answered ! 0 \<in> set (ib_conversations demo_answered)" by (rule nth_mem) code_simp
  have m: "ib_messages demo_answered ! 0 \<in> set (ib_messages demo_answered)" by (rule nth_mem) code_simp
  have "mg_conversation (ib_messages demo_answered ! 0) = cv_id (ib_conversations demo_answered ! 0)
    \<and> mg_direction (ib_messages demo_answered ! 0) = DirInbound
    \<and> ib_clock demo_answered - arrival (ib_messages demo_answered ! 0) \<le> MESSAGING_WINDOW_MS" by code_simp
  with m show ?thesis using reply_window_exact [OF demo_reached(2) c, of None] by blast
qed

section \<open>One event for one piece of content\<close>

definition offered_content :: "inbox_db \<Rightarrow> trigger_facts \<Rightarrow> (int \<times> string option) option" where
  "offered_content db t = map_option platform_key (find (\<lambda>m. mg_id m = tf_message t) (ib_messages db))"

definition offers_kept :: "trigger_facts list \<Rightarrow> inbox_db \<Rightarrow> bool" where
  "offers_kept ts db \<longleftrightarrow> distinct (map tf_message ts)
     \<and> (\<forall>t \<in> set ts. \<exists>c q n. (tf_message t, tf_enterprise t, c, DirInbound, q, n) \<in> message_key ` set (ib_messages db))"

lemma offers_kept_step:
  assumes "offers_kept ts db" and "inbox_step db t db'"
  shows "offers_kept ((case t of None \<Rightarrow> [] | Some x \<Rightarrow> [x]) @ ts) db'"
proof -
  let ?ks = "message_key ` set (ib_messages db)"
  have "still_has ?ks db" by (simp add: still_has_def)
  from step_offers [OF assms(2) this] have h: "?ks \<subseteq> message_key ` set (ib_messages db')"
    and o: "\<And>x. t = Some x \<Longrightarrow> tf_message x \<notin> fst ` ?ks"
      "\<And>x. t = Some x \<Longrightarrow> \<exists>c q n. (tf_message x, tf_enterprise x, c, DirInbound, q, n) \<in> message_key ` set (ib_messages db')"
    unfolding still_has_def by blast+
  have old: "\<exists>c q n. (tf_message x, tf_enterprise x, c, DirInbound, q, n) \<in> message_key ` set (ib_messages db')"
    if "x \<in> set ts" for x using assms(1) h that unfolding offers_kept_def by blast
  have "tf_message x \<in> fst ` ?ks" if "x \<in> set ts" for x
    using assms(1) that unfolding offers_kept_def by (metis fst_conv imageI)
  then have "tf_message y \<notin> tf_message ` set ts" if "t = Some y" for y using o(1) [OF that] by force
  with assms(1) old o(2) show ?thesis by (cases t) (simp_all add: offers_kept_def)
qed

lemma offers_kept_reach: "inbox_reach ts db \<Longrightarrow> offers_kept ts db"
proof -
  have "offers_kept ts db" if "inbox_after start ts db" for start
    using that by (induction rule: inbox_after.induct) (simp add: offers_kept_def, blast intro: offers_kept_step)
  then show "inbox_reach ts db \<Longrightarrow> offers_kept ts db" unfolding inbox_reach_def by blast
qed

text \<open>C30: One comment or message rewards once. However webhooks and backfills deliver the same content, in whatever
  order and however often, no two events offered to the reward engine are about the same content of a business, as the
  platform names it.\<close>

theorem content_offered_once:
  assumes "inbox_reach ts db"
  shows "distinct (map (offered_content db) ts)"
proof -
  have s: "consistent db" by (rule reach_settled [OF assms])
  note k = offers_kept_reach [OF assms]
  have row: "\<exists>m \<in> set (ib_messages db). mg_id m = tf_message t \<and> inbound m \<and> offered_content db t = Some (platform_key m)"
    if t: "t \<in> set ts" for t
  proof -
    from k t obtain m where m: "m \<in> set (ib_messages db)" "mg_id m = tf_message t" "mg_direction m = DirInbound"
      by (fastforce simp: offers_kept_def message_key_def)
    then have "find (\<lambda>m. mg_id m = tf_message t) (ib_messages db) \<noteq> None" by (auto simp: find_None_all)
    then obtain n where n: "find (\<lambda>m. mg_id m = tf_message t) (ib_messages db) = Some n" by blast
    from find_Some_iff_mem [OF n] have "n = m"
      using s m distinct_map_eq [of mg_id "ib_messages db" n m] by (simp add: consistent_def sound_def keyed_def)
    with m n show ?thesis by (auto simp: offered_content_def inbound_def)
  qed
  have d: "distinct (map platform_key (filter inbound (ib_messages db)))" using s by (simp add: consistent_def sound_def keyed_def)
  have "tf_message t = tf_message t'" if t: "t \<in> set ts" "t' \<in> set ts" "offered_content db t = offered_content db t'" for t t'
  proof -
    from row [OF t(1)] obtain m where m: "m \<in> set (filter inbound (ib_messages db))" "mg_id m = tf_message t"
      "offered_content db t = Some (platform_key m)" by auto
    from row [OF t(2)] obtain n where n: "n \<in> set (filter inbound (ib_messages db))" "mg_id n = tf_message t'"
      "offered_content db t' = Some (platform_key n)" by auto
    have "m = n" by (rule distinct_map_eq [OF d m(1) n(1)]) (use t(3) m n in simp)
    with m n show ?thesis by simp
  qed
  moreover have "distinct ts" "inj_on tf_message (set ts)" using k by (simp_all add: offers_kept_def distinct_map)
  ultimately show ?thesis by (auto simp: distinct_map intro!: inj_onI dest: inj_onD)
qed

theorem content_offered_once_witness:
  "distinct (map (offered_content demo_answered) [the (fst demo_opened)])
    \<and> offered_content demo_answered (the (fst demo_opened)) = Some (7, Some ''m1'')"
  by (rule conjI [OF content_offered_once [OF demo_reached(2)]]) code_simp

section \<open>Replies\<close>

lemma reply_holds_key:
  "triple (\<lambda>_. True) (reply a inp) (\<lambda>r db. \<exists>c d n. still_has {(rr_message r, ac_enterprise a, c, d, Some (rp_key inp), n)} db)"
proof -
  let ?Q = "\<lambda>r db. \<exists>c d n. still_has {(rr_message r, ac_enterprise a, c, d, Some (rp_key inp), n)} db"
  have w: "triple (\<lambda>_. True) (writeReply a em c inp tg) ?Q" for em c tg
    unfolding writeReply_def
  proof (rule triple_bnd [where R = "\<lambda>i. still_has {(i, ac_enterprise a, cv_id c, DirOutbound, Some (rp_key inp), rp_note inp)}"])
    show "triple (\<lambda>_. True) (insertOutbound \<lparr> mo_enterprise = ac_enterprise a, mo_conversation = cv_id c, mo_customer = Some (cv_customer c),
            mo_employee = em, mo_body = rp_body inp, mo_idempotency = Some (rp_key inp),
            mo_parent = map_option fst tg, mo_note = rp_note inp \<rparr>)
       (\<lambda>i. still_has {(i, ac_enterprise a, cv_id c, DirOutbound, Some (rp_key inp), rp_note inp)})"
      by (auto simp: triple_def insertOutbound_def still_has_def Let_def outbound_message_def message_key_def split: if_splits)
    fix i
    let ?h = "still_has {(i, ac_enterprise a, cv_id c, DirOutbound, Some (rp_key inp), rp_note inp)}"
    have last: "triple ?h (ret \<lparr> rr_message = i, rr_status = st \<rparr>) ?Q" for st
      by (auto simp: triple_def ret_def)
    show "triple ?h (andThen (if rp_note inp then ret () else send_reply a c (map_option snd tg) (rp_body inp) i)
     (bnd now_act (\<lambda>now.
      andThen (recordMessage (ac_enterprise a) (cv_id c) False now)
      (andThen
        (if cv_customer c \<noteq> 0
         then recordEngagement \<lparr> eg_enterprise = ac_enterprise a, eg_customer = cv_customer c,
                eg_channel = cv_channel c, eg_platform = cv_platform c, eg_inbound = False,
                eg_conversation = Some (cv_id c), eg_created = False \<rparr>
         else ret ())
        (ret \<lparr> rr_message = i, rr_status = (if rp_note inp then MsgDelivered else MsgPending) \<rparr>))))) ?Q"
      unfolding send_reply_def replyPayload_def requireMentionMediaId_def
      by (intro keeps_andThen keeps_bnd keeps_if keeps_option held keeps_ret keeps_reads last triple_throw)
  qed
  have known: "triple (\<lambda>db. findByIdempotencyKey (ac_enterprise a) (rp_key inp) db = Some m)
      (ret \<lparr> rr_message = mg_id m, rr_status = mg_status m \<rparr>) ?Q" for m
  proof (rule tripleI)
    fix db r db'
    assume f: "findByIdempotencyKey (ac_enterprise a) (rp_key inp) db = Some m"
      and run: "ret \<lparr> rr_message = mg_id m, rr_status = mg_status m \<rparr> db = Inr (r, db')"
    from f have "m \<in> set (ib_messages db) \<and> has_idempotency (ac_enterprise a) (Some (rp_key inp)) m"
      unfolding findByIdempotencyKey_def by (rule find_Some_iff_mem)
    moreover from this have "message_key m = (mg_id m, ac_enterprise a, mg_conversation m, mg_direction m, Some (rp_key inp), mg_note m)"
      by (simp add: message_key_def has_idempotency_def)
    ultimately have "still_has {(mg_id m, ac_enterprise a, mg_conversation m, mg_direction m, Some (rp_key inp), mg_note m)} db"
      by (simp add: still_has_def) (metis imageI)
    moreover have "rr_message r = mg_id m" "db' = db" using run by (auto simp: ret_def)
    ultimately show "?Q r db'" by (intro exI [of _ "mg_conversation m"] exI [of _ "mg_direction m"] exI [of _ "mg_note m"]) simp
  qed
  show ?thesis
  proof (rule tripleI)
    fix db r db' assume "reply a inp db = Inr (r, db')"
    then show "?Q r db'"
      unfolding reply_def
      using w known
      by (auto simp: act_simps bnd_Inr andThen_Inr throw_def reads_def triple_def split: option.splits if_splits)
  qed
qed

text \<open>C31: A reply is sent once per key. When a reply succeeded, whatever happens afterwards, a request with the same key
  that succeeds answers with the same message and writes nothing: no second message, no second row of the outbound ledger.\<close>

theorem reply_once_per_key:
  assumes reach: "inbox_reach ts db" and first: "reply a inp db = Inr (r, db1)" and after: "inbox_after db1 ts' db2"
    and again: "reply b inp' db2 = Inr (r', db3)"
    and same: "ac_enterprise b = ac_enterprise a" "rp_key inp' = rp_key inp"
  shows "rr_message r' = rr_message r \<and> db3 = db2"
proof -
  let ?e = "ac_enterprise a"
  have "consistent db1" by (rule tripleD [OF reply_settled reach_settled [OF reach] first])
  with after have s: "consistent db2" by (rule after_settled)
  from tripleD [OF reply_holds_key TrueI first] obtain c d n
    where "still_has {(rr_message r, ?e, c, d, Some (rp_key inp), n)} db1" by blast
  with after have "still_has {(rr_message r, ?e, c, d, Some (rp_key inp), n)} db2" by (rule after_holds)
  then obtain m where m: "m \<in> set (ib_messages db2)" "mg_id m = rr_message r" "has_idempotency ?e (Some (rp_key inp)) m"
    by (auto simp: still_has_def message_key_def has_idempotency_def)
  then obtain q where q: "findByIdempotencyKey ?e (rp_key inp) db2 = Some q"
    by (cases "findByIdempotencyKey ?e (rp_key inp) db2") (auto simp: findByIdempotencyKey_def find_None_all)
  have qm: "q \<in> set (ib_messages db2) \<and> has_idempotency ?e (Some (rp_key inp)) q"
    using q unfolding findByIdempotencyKey_def by (rule find_Some_iff_mem)
  have d: "distinct (map request_key (filter (\<lambda>m. mg_idempotency m \<noteq> None) (ib_messages db2)))"
    using s by (simp add: consistent_def sound_def keyed_def)
  have "q = m"
    by (rule distinct_map_eq [OF d]) (use qm m in \<open>auto simp: has_idempotency_def request_key_def\<close>)
  then have q': "findByIdempotencyKey (ac_enterprise b) (rp_key inp') db2 = Some m" using q same by simp
  from again have "db3 = db2 \<and> rr_message r' = mg_id m"
    unfolding reply_def requireConversation_def
    by (auto simp: bnd_Inr reads_def throw_def ret_def q' split: option.splits if_splits)
  with m(2) show ?thesis by simp
qed

definition demo_reply :: "inbox_db \<Rightarrow> ReplyResult \<times> inbox_db" where
  "demo_reply db = (case reply demo_agent (demo_answer False) db of Inr (r, db') \<Rightarrow> (r, db') | Inl e \<Rightarrow> (\<lparr> rr_message = 0, rr_status = MsgFailed \<rparr>, db))"

lemma demo_replied: "demo_reply (snd demo_opened) = (\<lparr> rr_message = 2, rr_status = MsgPending \<rparr>, demo_answered)"
  by code_simp

definition demo_resolved :: inbox_db where
  "demo_resolved = after_job (JRead demo_agent 1) demo_answered"

theorem reply_once_per_key_witness:
  "rr_message (fst (demo_reply demo_resolved)) = rr_message (fst (demo_reply (snd demo_opened)))
    \<and> snd (demo_reply demo_resolved) = demo_resolved"
proof (rule reply_once_per_key [OF demo_reached(1)])
  show "reply demo_agent (demo_answer False) (snd demo_opened) = Inr (fst (demo_reply (snd demo_opened)), snd (demo_reply (snd demo_opened)))"
    unfolding demo_replied by code_simp
  show "inbox_after (snd (demo_reply (snd demo_opened))) [] demo_resolved"
    unfolding demo_resolved_def demo_replied snd_conv by (rule after_job_step [OF inbox_after.now])
  show "reply demo_agent (demo_answer False) demo_resolved = Inr (fst (demo_reply demo_resolved), snd (demo_reply demo_resolved))"
    by code_simp
qed simp_all

text \<open>A thread's key names one item of the platform. It tells kinds and ids apart, and what a reply is addressed
  to is the id it was made from, whatever characters the id has.\<close>

theorem thread_key_round_trip:
  "stripThreadPrefix (composeThreadKey k i) = i \<and> (composeThreadKey k i = composeThreadKey k' i' \<longleftrightarrow> k = k' \<and> i = i')"
proof -
  have no: "CHR '':'' \<notin> set (THREAD_KEY_PREFIX k)" for k by (cases k) simp_all
  have inj: "THREAD_KEY_PREFIX k = THREAD_KEY_PREFIX k' \<longleftrightarrow> k = k'" by (cases k; cases k') simp_all
  have "dropWhile (\<lambda>c. c \<noteq> CHR '':'') (THREAD_KEY_PREFIX k @ CHR '':'' # i) = CHR '':'' # i"
    using no [of k] by (subst dropWhile_append2) auto
  then show ?thesis
    using append_sep_inject [OF no no, of k i k' i'] inj by (simp add: stripThreadPrefix_def composeThreadKey_def)
qed

end
