(* ===== verification/Inbox_Replies.thy ===== *)
theory Inbox_Replies
  imports Inbox_Safety
begin

text \<open>
  What one request does: a reply that is accepted queues one send, and an agent changes nothing outside the
  business.
\<close>

section \<open>A reply queues one send\<close>

lemma send_reply_run:
  assumes run: "send_reply a c t b i d = Inr (u, d')"
    and new: "\<And>p ty. (ac_enterprise a, outboundDedupKey p ty ''messages'' (show_int i)) \<notin> dedup_index ` set (events (ib_outbox d))"
  shows "\<exists>ty ev. replyEventTypeFor (cv_kind c) = Some ty \<and> o_type ev = ty \<and> o_status ev = OutPending
    \<and> o_enterprise ev = Some (ac_enterprise a) \<and> o_channel ev = Some (cv_channel c)
    \<and> recipient ev = Some (stripThreadPrefix (cv_thread c)) \<and> message (o_payload ev) = Some b
    \<and> d' = d\<lparr>ib_outbox := (ib_outbox d)\<lparr>events := events (ib_outbox d) @ [ev], next_event_id := next_event_id (ib_outbox d) + 1\<rparr>,
        ib_messages := update_where (\<lambda>m. mg_id m = i \<and> mg_enterprise m = ac_enterprise a)
          (\<lambda>m. m\<lparr>mg_outbound_event := Some (o_id ev)\<rparr>) (ib_messages d)\<rparr>"
proof -
  from run obtain ty where ty: "replyEventTypeFor (cv_kind c) = Some ty"
    by (cases "replyEventTypeFor (cv_kind c)") (simp_all add: send_reply_def throw_def)
  let ?inp = "\<lambda>pl. channel_event a c ty (Some (stripThreadPrefix (cv_thread c)))
                 (outboundDedupKey (cv_platform c) ty ''messages'' (show_int i)) pl"
  from run ty obtain pl d1 where pl: "replyPayload ty c t b d = Inr (pl, d1)"
    and rest: "bnd (enqueue_outbound (?inp pl)) (\<lambda>event. case event of None \<Rightarrow> ret () | Some e \<Rightarrow> linkOutboundEvent (ac_enterprise a) i e) d1 = Inr (u, d')"
    by (auto simp: send_reply_def bnd_Inr)
  from pl have d1: "d1 = d" and m: "message pl = Some b"
    by (auto simp: replyPayload_def requireMentionMediaId_def act_simps split: if_splits option.splits)
  let ?ev = "new_event (ib_clock d) (next_event_id (ib_outbox d)) (?inp pl)"
  have "dedup_index ?ev = (ac_enterprise a, outboundDedupKey (cv_platform c) ty ''messages'' (show_int i))"
    by (simp add: dedup_index_def new_event_def channel_event_def)
  then have "\<not> list_ex (\<lambda>f. dedup_index f = dedup_index ?ev) (events (ib_outbox d))"
    using new [of "cv_platform c" ty] by (auto simp: list_ex_iff image_iff)
  then have "d' = d\<lparr>ib_outbox := (ib_outbox d)\<lparr>events := events (ib_outbox d) @ [?ev], next_event_id := next_event_id (ib_outbox d) + 1\<rparr>,
        ib_messages := update_where (\<lambda>m. mg_id m = i \<and> mg_enterprise m = ac_enterprise a)
          (\<lambda>m. m\<lparr>mg_outbound_event := Some (o_id ?ev)\<rparr>) (ib_messages d)\<rparr>"
    using rest unfolding d1
    by (auto simp: bnd_Inr enqueue_outbound_def enqueue_def Let_def linkOutboundEvent_def modifies_def update_messages_def new_event_def)
  with ty m show ?thesis by (intro exI [of _ ty] exI [of _ ?ev]) (simp add: new_event_def channel_event_def)
qed

lemma reply_run:
  assumes "reply a inp db = Inr (r, db')" and "findByIdempotencyKey (ac_enterprise a) (rp_key inp) db = None"
  obtains (ran) em c tg where "ac_employee a = Some em" "findConversation (ac_enterprise a) (rp_conversation inp) db = Some c"
    "cv_status c \<in> set CLOSED_TO_REPLIES \<longrightarrow> rp_note inp" "\<not> rp_note inp \<longrightarrow> checkSendPath a c db = Inr ((), db)"
    "writeReply a em c inp tg db = Inr (r, db')"
proof -
  have path: "checkSendPath a c d = Inr (x, d') \<Longrightarrow> d' = d" for c d x d'
    by (auto simp: checkSendPath_def split: option.splits if_splits)
  have target: "findTarget a c t d = Inr (x, d') \<Longrightarrow> d' = d" for c t d x d'
    by (auto simp: findTarget_def act_simps split: option.splits if_splits)
  from assms obtain em c where c: "ac_employee a = Some em" "findConversation (ac_enterprise a) (rp_conversation inp) db = Some c"
      "cv_status c \<in> set CLOSED_TO_REPLIES \<longrightarrow> rp_note inp"
    and rest: "andThen (if rp_note inp then ret () else checkSendPath a c)
        (bnd (findTarget a c (rp_target inp)) (writeReply a em c inp)) db = Inr (r, db')"
    by (auto simp: reply_def requireConversation_def bnd_Inr reads_def ret_def throw_def split: option.splits if_splits)
  from rest obtain u d1 where p: "(if rp_note inp then ret () else checkSendPath a c) db = Inr (u, d1)"
    and q: "bnd (findTarget a c (rp_target inp)) (writeReply a em c inp) d1 = Inr (r, db')" by (auto simp: andThen_Inr)
  from p have d1: "d1 = db" using path [of c db u d1] by (auto simp: ret_def split: if_splits)
  from q obtain tg d2 where "findTarget a c (rp_target inp) d1 = Inr (tg, d2)" "writeReply a em c inp tg d2 = Inr (r, db')"
    by (auto simp: bnd_Inr)
  then have "writeReply a em c inp tg db = Inr (r, db')" using target d1 by blast
  moreover have "\<not> rp_note inp \<longrightarrow> checkSendPath a c db = Inr ((), db)" using p d1 by (cases "rp_note inp") simp_all
  ultimately show thesis using c ran by blast
qed

lemma update_where_last:
  assumes "\<And>x. x \<in> set xs \<Longrightarrow> \<not> P x" and "P y"
  shows "update_where P f (xs @ [y]) = xs @ [f y]"
  using update_where_none [of xs P f] assms by (simp add: update_where_def)

text \<open>C32: A reply that is accepted is one message and one queued send. The message is pending and names its row of the
  outbound ledger; the row is addressed to the thread's item on the thread's channel and carries the text. The thread
  was open, its channel usable and its window open.\<close>

theorem reply_queues_one_send:
  assumes run: "reply a inp db = Inr (r, db')" and fresh: "findByIdempotencyKey (ac_enterprise a) (rp_key inp) db = None"
    and public: "\<not> rp_note inp"
    and new: "\<And>p ty. (ac_enterprise a, outboundDedupKey p ty ''messages'' (show_int (rr_message r)))
        \<notin> dedup_index ` set (events (ib_outbox db))"
  shows "\<exists>c ty ev m. findConversation (ac_enterprise a) (rp_conversation inp) db = Some c \<and> cv_status c \<notin> set CLOSED_TO_REPLIES
    \<and> checkSendPath a c db = Inr ((), db) \<and> replyEventTypeFor (cv_kind c) = Some ty
    \<and> events (ib_outbox db') = events (ib_outbox db) @ [ev] \<and> o_type ev = ty \<and> o_status ev = OutPending
    \<and> o_channel ev = Some (cv_channel c) \<and> recipient ev = Some (stripThreadPrefix (cv_thread c))
    \<and> message (o_payload ev) = Some (rp_body inp)
    \<and> ib_messages db' = ib_messages db @ [m] \<and> mg_id m = rr_message r \<and> mg_conversation m = cv_id c
    \<and> mg_outbound_event m = Some (o_id ev) \<and> mg_body m = Some (rp_body inp) \<and> mg_status m = MsgPending \<and> rr_status r = MsgPending"
proof -
  let ?e = "ac_enterprise a"
  obtain em c tg where c: "findConversation ?e (rp_conversation inp) db = Some c" "cv_status c \<notin> set CLOSED_TO_REPLIES"
      "checkSendPath a c db = Inr ((), db)" and w: "writeReply a em c inp tg db = Inr (r, db')"
    by (rule reply_run [OF run fresh]) (use public in blast)
  let ?x = "\<lparr> mo_enterprise = ?e, mo_conversation = cv_id c, mo_customer = Some (cv_customer c), mo_employee = em,
     mo_body = rp_body inp, mo_idempotency = Some (rp_key inp), mo_parent = map_option fst tg, mo_note = rp_note inp \<rparr>"
  from w public obtain i d1 d2 where i: "insertOutbound ?x db = Inr (i, d1)"
    and s: "send_reply a c (map_option snd tg) (rp_body inp) i d1 = Inr ((), d2)"
    and rest: "ib_messages db' = ib_messages d2" "ib_outbox db' = ib_outbox d2" "rr_message r = i" "rr_status r = MsgPending"
    by (auto simp: writeReply_def act_simps now_act_def recordMessage_def update_conversations_def recordEngagement_def Let_def
        split: if_splits)
  let ?m = "outbound_message i (ib_clock db) ?x"
  from i have d1: "d1 = db\<lparr>ib_messages := ib_messages db @ [?m]\<rparr>" and fi: "i = fresh_id (map mg_id (ib_messages db))"
    by (auto simp: insertOutbound_def Let_def split: if_splits)
  have ob: "ib_outbox d1 = ib_outbox db" by (simp add: d1)
  from send_reply_run [OF s] new obtain ty ev where ev: "replyEventTypeFor (cv_kind c) = Some ty" "o_type ev = ty"
      "o_status ev = OutPending" "o_channel ev = Some (cv_channel c)" "recipient ev = Some (stripThreadPrefix (cv_thread c))"
      "message (o_payload ev) = Some (rp_body inp)" "events (ib_outbox d2) = events (ib_outbox db) @ [ev]"
      "ib_messages d2 = update_where (\<lambda>m. mg_id m = i \<and> mg_enterprise m = ?e) (\<lambda>m. m\<lparr>mg_outbound_event := Some (o_id ev)\<rparr>)
         (ib_messages db @ [?m])"
    unfolding ob rest(3) by (auto simp: d1)
  have "ib_messages d2 = ib_messages db @ [?m\<lparr>mg_outbound_event := Some (o_id ev)\<rparr>]"
    unfolding ev(8) using fresh_id_map [of _ "ib_messages db" mg_id]
    by (intro update_where_last) (auto simp: fi outbound_message_def dest: less_imp_neq)
  then show ?thesis using c ev rest public
    by (intro exI [of _ c] exI [of _ ty] exI [of _ ev] exI [of _ "?m\<lparr>mg_outbound_event := Some (o_id ev)\<rparr>"])
      (simp add: outbound_message_def)
qed

theorem reply_queues_one_send_witness:
  "map (\<lambda>e. message (o_payload e)) (events (ib_outbox (snd (demo_reply (snd demo_opened))))) = [Some ''hello'']"
proof -
  have none: "events (ib_outbox (snd demo_opened)) = []" by code_simp
  have run: "reply demo_agent (demo_answer False) (snd demo_opened) = Inr (fst (demo_reply (snd demo_opened)), snd (demo_reply (snd demo_opened)))"
    unfolding demo_replied by code_simp
  have "findByIdempotencyKey (ac_enterprise demo_agent) (rp_key (demo_answer False)) (snd demo_opened) = None" "\<not> rp_note (demo_answer False)"
    by code_simp+
  from reply_queues_one_send [OF run this] show ?thesis by (auto simp: none) (simp add: demo_answer_def)
qed

section \<open>An agent stays in the business\<close>

text \<open>What belongs to other businesses. The sync jobs are not among it: a job's slot is the channel.\<close>

definition elsewhere :: "int \<Rightarrow> inbox_db \<Rightarrow> inbox_db" where
  "elsewhere e db = db\<lparr>ib_customers := filter (\<lambda>c. cs_enterprise c \<noteq> e) (ib_customers db),
     ib_identifiers := filter (\<lambda>i. idn_enterprise i \<noteq> e) (ib_identifiers db),
     ib_engagements := filter (\<lambda>g. en_enterprise g \<noteq> e) (ib_engagements db),
     ib_conversations := filter (\<lambda>c. cv_enterprise c \<noteq> e) (ib_conversations db),
     ib_messages := filter (\<lambda>m. mg_enterprise m \<noteq> e) (ib_messages db),
     ib_attachments := filter (\<lambda>a. at_enterprise a \<noteq> e) (ib_attachments db),
     ib_posts := filter (\<lambda>p. po_enterprise p \<noteq> e) (ib_posts db),
     ib_outbox := \<lparr> events = filter (\<lambda>v. o_enterprise v \<noteq> Some e) (events (ib_outbox db)), next_event_id = 0 \<rparr>,
     ib_sync := []\<rparr>"

abbreviation spares :: "int \<Rightarrow> inbox_db \<Rightarrow> inbox_db \<Rightarrow> bool" where
  "spares e \<equiv> (\<lambda>db db'. elsewhere e db' = elsewhere e db)"

interpretation spared: preorder_rel "spares e"
  by unfold_locales simp_all

lemma filter_untouched:
  assumes "\<And>x. P x \<Longrightarrow> \<not> Q x \<and> \<not> Q (f x)"
  shows "filter Q (update_where P f xs) = filter Q xs"
  using assms by (induction xs) (auto simp: update_where_def)

lemma elsewhere_updates:
  "(\<And>m. P m \<Longrightarrow> mg_enterprise m = e \<and> mg_enterprise (f m) = e) \<Longrightarrow> elsewhere e (update_messages P f db) = elsewhere e db"
  "(\<And>c. Q c \<Longrightarrow> cv_enterprise c = e \<and> cv_enterprise (g c) = e) \<Longrightarrow> elsewhere e (update_conversations Q g db) = elsewhere e db"
  by (simp_all add: elsewhere_def update_messages_def update_conversations_def filter_untouched)

lemma agent_statements_spare:
  "steps (spares e) (insertOutbound out)" if "mo_enterprise out = e" for out
  using that by (auto simp: steps_def insertOutbound_def elsewhere_def outbound_message_def Let_def split: if_splits)

lemma touched_spares:
  "elsewhere e (db\<lparr>ib_sync := x\<rparr>) = elsewhere e db"
  "cv_enterprise (count_message b w c) = cv_enterprise c"
  by (simp_all add: elsewhere_def count_message_def)

lemma modifies_spares: "(\<And>db. elsewhere e (f db) = elsewhere e db) \<Longrightarrow> steps (spares e) (modifies f)"
  by (simp add: steps_def modifies_def)

lemma statements_spare:
  "steps (spares e) (recordMessage e c b w)" "steps (spares e) (assignConversation e c em)" "steps (spares e) (setConversationStatus e c st)"
  "steps (spares e) (linkOutboundEvent e i ev)" "steps (spares e) (applyOwnModeration e i x)"
  "steps (spares e) (markConversationRead e c)" "steps (spares e) (enqueue_resync e ch tr who)"
  unfolding recordMessage_def assignConversation_def setConversationStatus_def linkOutboundEvent_def applyOwnModeration_def
    markConversationRead_def clear_badge_def mark_messages_read_def enqueue_resync_def
  by ((intro spared.steps_rules modifies_spares elsewhere_updates; simp add: touched_spares)+)
    (auto simp: steps_def touched_spares split: prod.splits)

lemma elsewhere_engagements:
  "filter (\<lambda>g. en_enterprise g \<noteq> e) xs = filter (\<lambda>g. en_enterprise g \<noteq> e) (ib_engagements db)
    \<Longrightarrow> elsewhere e (db\<lparr>ib_engagements := xs\<rparr>) = elsewhere e db"
  by (simp add: elsewhere_def)

lemma engagement_spares: "eg_enterprise g = e \<Longrightarrow> steps (spares e) (recordEngagement g)"
  unfolding recordEngagement_def Let_def
  by (intro modifies_spares elsewhere_engagements) (simp split: if_split, intro impI filter_untouched, simp)

lemma enqueue_spares: "i_enterprise out = Some e \<Longrightarrow> steps (spares e) (enqueue_outbound out)"
  by (auto simp: steps_def enqueue_outbound_def enqueue_def Let_def elsewhere_def new_event_def split: if_splits)

lemma checks_spare: "steps (spares e) (checkSendPath a c)" "steps (spares e) (requireConversation a i x)" "steps (spares e) (findTarget a c t)"
  "steps (spares e) (replyPayload ty c s b)" "steps (spares e) (require ok er)"
  by (auto simp: steps_def checkSendPath_def requireConversation_def findTarget_def replyPayload_def requireMentionMediaId_def
      require_def act_simps split: option.splits if_splits)

lemmas sparing = spared.steps_rules statements_spare checks_spare

text \<open>C33: An agent acts within the business. Whatever an agent asks for - a reply, an assignment, a status, reading,
  moderation, a resync - and whatever ids the request names, the customers, threads, messages, attachments, posts and
  queued sends of every other business are as before.\<close>

theorem agent_stays_in_business:
  assumes "m = bnd (reply a inp) (\<lambda>_. ret ()) \<or> m = assign a i em \<or> m = setStatus a i st \<or> m = markRead a i
    \<or> m = bnd (requestResync a i) (\<lambda>_. ret ()) \<or> m = moderateComment h a i j x"
    and "m db = Inr (u, db')"
  shows "elsewhere (ac_enterprise a) db' = elsewhere (ac_enterprise a) db"
proof -
  let ?e = "ac_enterprise a"
  have send: "steps (spares ?e) (send_reply a c t b k)" for c t b k
    unfolding send_reply_def by (intro sparing enqueue_spares) (simp add: channel_event_def)
  have written: "steps (spares ?e) (writeReply a n c inp tg)" for n c tg
    unfolding writeReply_def now_act_def by (intro sparing send engagement_spares agent_statements_spare) simp_all
  have "steps (spares ?e) (bnd (reply a inp) (\<lambda>_. ret ()))" unfolding reply_def by (intro sparing written)
  moreover have "steps (spares ?e) (assign a i em)" "steps (spares ?e) (setStatus a i st)" "steps (spares ?e) (markRead a i)"
    "steps (spares ?e) (bnd (requestResync a i) (\<lambda>_. ret ()))"
    unfolding assign_def setStatus_def markRead_def requestResync_def
    by (intro sparing | simp add: split_def sparing)+
  moreover have "steps (spares ?e) (moderateComment h a i j x)"
    unfolding moderateComment_def moderateTarget_def by (intro sparing enqueue_spares) (simp add: channel_event_def)
  ultimately have "steps (spares ?e) m" using assms(1) by blast
  then show ?thesis using assms(2) by (rule stepsD)
qed

theorem agent_stays_in_business_witness:
  "elsewhere 7 (snd (demo_reply (snd demo_opened))) = elsewhere 7 (snd demo_opened)"
proof -
  have "bnd (reply demo_agent (demo_answer False)) (\<lambda>_. ret ()) (snd demo_opened) = Inr ((), snd (demo_reply (snd demo_opened)))"
    unfolding demo_replied by code_simp
  moreover have "ac_enterprise demo_agent = 7" by code_simp
  ultimately show ?thesis using agent_stays_in_business by metis
qed

end
