(* ===== verification/Inbox_Gaps.thy ===== *)
theory Inbox_Gaps
  imports Inbox_Replies
begin

text \<open>
  Three behaviours of the inbox that its comments and reports do not expect: an echo that reopens a thread,
  a mention nobody can answer, and a note that stops the response clock.
\<close>

section \<open>An echo reopens a thread\<close>

abbreviation same_threads :: "inbox_db \<Rightarrow> inbox_db \<Rightarrow> bool" where
  "same_threads \<equiv> (\<lambda>db db'. (ib_messages db', ib_conversations db') = (ib_messages db, ib_conversations db))"

interpretation threads: preorder_rel same_threads
  by unfold_locales simp_all

lemma customer_keeps_threads: "steps same_threads (dm_customer enterprise channel platform person name)"
proof -
  have "steps same_threads (insert_customer x)" "steps same_threads (insert_identifier e c k v p)"
      "steps same_threads (backfill_name e c n)" "steps same_threads (delete_customer e c)" for x e c k v p n
    by (auto simp: steps_def insert_customer_def insert_identifier_def backfill_name_def delete_customer_def modifies_def ret_def
        update_customers_def Let_def split: if_splits)
  then show ?thesis unfolding dm_customer_def resolveOrCreate_def create_customer_def by (intro threads.steps_rules)
qed

lemma upsert_rejoins:
  assumes "upsertConversation u db = Inr (r, db')" and "c \<in> set (ib_conversations db)" and "same_thread u c"
  shows "ib_messages db' = ib_messages db \<and> rejoin u c \<in> set (ib_conversations db')"
proof -
  have "find (same_thread u) (ib_conversations db) \<noteq> None" using assms(2,3) by (auto simp: find_None_iff)
  then show ?thesis using assms
    by (auto simp: upsertConversation_def set_update_where split: if_splits intro!: rev_image_eqI [of c])
qed

text \<open>C37: A delivery that adds nothing still reopens a resolved thread. The platform repeats our own reply back to us; the
  echo is recognised and skipped, but the thread it names has by then been written: it is open again, with no new
  message, and still carries the time it was resolved.\<close>

theorem echo_reopens_resolved:
  assumes run: "projectOwnMessage h inp e m db = Inr (out, db')"
    and held: "findIdByPlatformMessageId (pi_enterprise inp) (text_of (dm_mid m)) db \<noteq> None"
    and c: "c \<in> set (ib_conversations db)" "cv_channel c = pi_channel inp"
      "cv_thread c = composeThreadKey DirectMessage (text_of (ev_recipient e))" "cv_status c \<in> set CLOSED_TO_REPLIES"
    and sent: "truthy_text (ev_recipient e)" "ev_recipient e \<noteq> ev_sender e"
  shows "ib_messages db' = ib_messages db \<and> offered out = None
    \<and> (\<exists>c' \<in> set (ib_conversations db'). cv_id c' = cv_id c \<and> cv_status c' = ConvOpen \<and> cv_resolved_at c' = cv_resolved_at c)"
proof -
  from run sent obtain cu d1 th d2
    where 1: "dm_customer (pi_enterprise inp) (pi_channel inp) (pi_platform inp) (text_of (ev_recipient e)) None db = Inr (cu, d1)"
      and 2: "dm_thread (pi_enterprise inp) (pi_channel inp) (pi_platform inp) (text_of (ev_recipient e)) cu d1 = Inr (th, d2)"
      and rest: "bnd (reads (findIdByPlatformMessageId (pi_enterprise inp) (text_of (dm_mid m)))) (\<lambda>held.
          if held \<noteq> None then ret (skipped ''an echo of a message we already recorded'')
          else bnd (claimPendingOutbound (pi_enterprise inp) (ur_id th) (dm_text m) (text_of (dm_mid m))) (\<lambda>claimed.
            case claimed of
              Some i \<Rightarrow> andThen (adoptOrphanReplies (pi_enterprise inp) i (text_of (dm_mid m)))
                 (ret (skipped ''an echo of a send still in flight; its id is recorded''))
            | None \<Rightarrow> recover_own inp e m (normalizeAttachments h (dm_attachments m)) cu th)) d2 = Inr (out, db')"
    by (auto simp: projectOwnMessage_def Let_def bnd_Inr simp del: not_None_eq)
  from stepsD [OF customer_keeps_threads 1] have d1: "ib_messages d1 = ib_messages db" "ib_conversations d1 = ib_conversations db"
    by simp_all
  obtain u where u: "dm_thread (pi_enterprise inp) (pi_channel inp) (pi_platform inp) (text_of (ev_recipient e)) cu = upsertConversation u"
      "up_channel u = pi_channel inp" "up_thread u = composeThreadKey DirectMessage (text_of (ev_recipient e))"
    by (simp add: dm_thread_def)
  have d2: "ib_messages d2 = ib_messages d1" "rejoin u c \<in> set (ib_conversations d2)"
    using upsert_rejoins [of u d1 th d2 c] 2 u c d1 by (simp_all add: same_thread_def)
  then have "findIdByPlatformMessageId (pi_enterprise inp) (text_of (dm_mid m)) d2 \<noteq> None"
    using held d1 by (simp add: findIdByPlatformMessageId_def)
  with rest have "db' = d2" "out = skipped ''an echo of a message we already recorded''"
    by (auto simp: bnd_Inr reads_def ret_def)
  moreover have "cv_id (rejoin u c) = cv_id c" "cv_status (rejoin u c) = ConvOpen" "cv_resolved_at (rejoin u c) = cv_resolved_at c"
    using c(4) by (simp_all add: rejoin_def)
  ultimately show ?thesis using d1(1) d2 by (intro conjI bexI [of _ "rejoin u c"]) (simp_all add: skipped_def)
qed

definition demo_resolved_thread :: inbox_db where
  "demo_resolved_thread = after_job (JStatus demo_agent 1 ConvResolved) (after_job (JDelivered 7 1 (Some ''m2'') MsgSent) demo_answered)"

definition demo_echo :: messaging_event where
  "demo_echo = no_event\<lparr>ev_sender := Some ''ig'', ev_recipient := Some ''c1''\<rparr>"

definition demo_echoed :: "inbox_outcome \<times> inbox_db" where
  "demo_echoed = (case projectOwnMessage inbox_host (demo_delivery 2) demo_echo (bare_message\<lparr>dm_mid := Some ''m2''\<rparr>) demo_resolved_thread
     of Inl e \<Rightarrow> (skipped [], demo_resolved_thread) | Inr r \<Rightarrow> r)"

theorem echo_reopens_resolved_witness:
  "map cv_status (ib_conversations demo_resolved_thread) = [ConvResolved]
    \<and> list_ex (\<lambda>c. cv_status c = ConvOpen) (ib_conversations (snd demo_echoed))"
proof -
  let ?c = "ib_conversations demo_resolved_thread ! 0"
  have run: "projectOwnMessage inbox_host (demo_delivery 2) demo_echo (bare_message\<lparr>dm_mid := Some ''m2''\<rparr>) demo_resolved_thread
      = Inr (fst demo_echoed, snd demo_echoed)" by code_simp
  have held: "findIdByPlatformMessageId (pi_enterprise (demo_delivery 2)) (text_of (dm_mid (bare_message\<lparr>dm_mid := Some ''m2''\<rparr>)))
      demo_resolved_thread \<noteq> None" by code_simp
  have c: "?c \<in> set (ib_conversations demo_resolved_thread)" by (rule nth_mem) code_simp
  have "cv_channel ?c = pi_channel (demo_delivery 2)"
      "cv_thread ?c = composeThreadKey DirectMessage (text_of (ev_recipient demo_echo))" "cv_status ?c \<in> set CLOSED_TO_REPLIES"
      "truthy_text (ev_recipient demo_echo)" "ev_recipient demo_echo \<noteq> ev_sender demo_echo" by code_simp+
  from echo_reopens_resolved [OF run held c this]
  have "list_ex (\<lambda>c. cv_status c = ConvOpen) (ib_conversations (snd demo_echoed))" by (auto simp: list_ex_iff)
  moreover have "map cv_status (ib_conversations demo_resolved_thread) = [ConvResolved]" by code_simp
  ultimately show ?thesis by blast
qed

section \<open>A mention nobody can answer\<close>

text \<open>A mention on Facebook looks answerable and is not. Its thread carries no media id, the reply window says yes,
  and every reply to it is refused.\<close>

theorem facebook_mention_unanswerable:
  assumes "normalizeMention h now Facebook p = NComment x" and "cv_kind c = Mention"
    and "cv_context c = (case cc_metadata x of None \<Rightarrow> [] | Some m \<Rightarrow> m)"
    and "findConversation (ac_enterprise a) (rp_conversation inp) db = Some c"
    and "findByIdempotencyKey (ac_enterprise a) (rp_key inp) db = None" and "\<not> rp_note inp"
  shows "evaluateReplyWindow (cv_kind c) (cv_last_inbound c) (map_of (cv_context c) ''mentionKind'') None now
    \<and> isl (reply a inp db)"
proof -
  have none: "cc_metadata x = None"
    using assms(1) by (auto simp: normalizeMention_def normalizeFacebookMention_def Let_def split: if_splits option.splits)
  have open_: "evaluateReplyWindow (cv_kind c) l (map_of (cv_context c) ''mentionKind'') None n" for l n
    using assms(2,3) none by (simp add: evaluateReplyWindow_def WINDOWED_KINDS_def)
  have "\<not> (\<exists>r db'. reply a inp db = Inr (r, db'))"
  proof (intro notI, elim exE)
    fix r db' assume run: "reply a inp db = Inr (r, db')"
    from reply_run [OF run assms(5)] assms(4) obtain em tg where "writeReply a em c inp tg db = Inr (r, db')"
      by (metis option.sel)
    then show False using assms(2,3,6) none
      by (auto simp: writeReply_def andThen_Inr bnd_Inr send_reply_def replyPayload_def requireMentionMediaId_def mentionMediaId_def
          nonempty_text_def text_field_def throw_def)
  qed
  then have "isl (reply a inp db)" by (cases "reply a inp db") auto
  with open_ show ?thesis by blast
qed

definition demo_page :: channel where
  "demo_page = demo_account\<lparr>ch_platform := Facebook\<rparr>"

definition demo_mentioned :: "trigger_facts option \<times> inbox_db" where
  "demo_mentioned = (case store inbox_host 7 3 Facebook 1
       (case normalizeMention inbox_host 0 Facebook (FacebookMention (no_facebook_mention\<lparr>fm_post_id := Some ''p1'', fm_sender_id := Some ''c1''\<rparr>)) of
          NComment x \<Rightarrow> x) Mention (empty_inbox [demo_page]) of Inr (out, db) \<Rightarrow> (offered out, db))"

theorem facebook_mention_unanswerable_witness:
  "map (\<lambda>c. evaluateReplyWindow (cv_kind c) (cv_last_inbound c) (map_of (cv_context c) ''mentionKind'') None 0)
      (ib_conversations (snd demo_mentioned)) = [True]
    \<and> isl (reply demo_agent (demo_answer False) (snd demo_mentioned))"
proof -
  let ?p = "FacebookMention (no_facebook_mention\<lparr>fm_post_id := Some ''p1'', fm_sender_id := Some ''c1''\<rparr>)"
  let ?c = "ib_conversations (snd demo_mentioned) ! 0"
  obtain x where x: "normalizeMention inbox_host 0 Facebook ?p = NComment x" "cc_metadata x = None"
    by (simp add: normalizeMention_def normalizeFacebookMention_def no_facebook_mention_def moderationAction_def Let_def orElse_def
        truthy_text_def)
  have c: "cv_kind ?c = Mention" "cv_context ?c = []"
    "findConversation (ac_enterprise demo_agent) (rp_conversation (demo_answer False)) (snd demo_mentioned) = Some ?c"
    "findByIdempotencyKey (ac_enterprise demo_agent) (rp_key (demo_answer False)) (snd demo_mentioned) = None"
    "\<not> rp_note (demo_answer False)" "ib_conversations (snd demo_mentioned) = [?c]"
    by code_simp+
  from facebook_mention_unanswerable [OF x(1) c(1) _ c(3,4,5)] c(2) x(2) show ?thesis by (subst (1) c(6)) simp
qed

section \<open>A note stops the response clock\<close>

text \<open>An internal note counts as the business's answer. A note goes to nobody, yet it sets the thread's time of the
  first reply, which reports of response times read.\<close>

theorem note_stops_response_clock:
  assumes run: "reply a inp db = Inr (r, db')" and new: "findByIdempotencyKey (ac_enterprise a) (rp_key inp) db = None"
    and note_: "rp_note inp" and c: "findConversation (ac_enterprise a) (rp_conversation inp) db = Some c" "cv_first_responded c = None"
  shows "ib_outbox db' = ib_outbox db
    \<and> (\<exists>c' \<in> set (ib_conversations db'). cv_id c' = cv_id c \<and> cv_first_responded c' = Some (ib_clock db))"
proof -
  from reply_run [OF run new] c(1) obtain em tg where w: "writeReply a em c inp tg db = Inr (r, db')" by (metis option.sel)
  from c(1) have m: "c \<in> set (ib_conversations db)" "cv_enterprise c = ac_enterprise a"
    unfolding findConversation_def by (auto dest: find_Some_iff_mem)
  from w note_ have "ib_outbox db' = ib_outbox db
    \<and> ib_conversations db' = update_where (\<lambda>d. cv_id d = cv_id c \<and> cv_enterprise d = ac_enterprise a) (count_message False (ib_clock db)) (ib_conversations db)"
    by (auto simp: writeReply_def act_simps now_act_def insertOutbound_def recordMessage_def update_conversations_def
        recordEngagement_def Let_def split: if_splits)
  moreover from this have "count_message False (ib_clock db) c \<in> set (ib_conversations db')"
    using m by (auto simp: set_update_where intro!: rev_image_eqI [of c])
  moreover have "cv_first_responded (count_message False (ib_clock db) c) = Some (ib_clock db)"
      "cv_id (count_message False (ib_clock db) c) = cv_id c"
    using c(2) by (simp_all add: count_message_def orElse_def)
  ultimately show ?thesis by blast
qed

theorem note_stops_response_clock_witness:
  "list_ex (\<lambda>c. cv_first_responded c \<noteq> None) (ib_conversations (after_job (JReply demo_agent (demo_answer True)) (snd demo_opened)))"
proof -
  let ?db = "snd demo_opened"
  let ?c = "ib_conversations ?db ! 0"
  obtain r where r: "reply demo_agent (demo_answer True) ?db = Inr (r, after_job (JReply demo_agent (demo_answer True)) ?db)"
  proof (cases "reply demo_agent (demo_answer True) ?db")
    case (Inr q)
    then show thesis using that by (cases q) (simp add: after_job_def bnd_def ret_def)
  next
    case (Inl er)
    moreover have "\<not> isl (reply demo_agent (demo_answer True) ?db)" by code_simp
    ultimately show thesis by simp
  qed
  have "findByIdempotencyKey (ac_enterprise demo_agent) (rp_key (demo_answer True)) ?db = None" "rp_note (demo_answer True)"
    "findConversation (ac_enterprise demo_agent) (rp_conversation (demo_answer True)) ?db = Some ?c" "cv_first_responded ?c = None"
    by code_simp+
  from note_stops_response_clock [OF r this] show ?thesis by (auto simp: list_ex_iff)
qed

end
