(* ===== verification/Features.thy ===== *)
theory Features
  imports Event_Queue Effects
begin

text \<open>
  What a business may use (\<open>modules/enterprises/features.service.ts\<close>, \<open>enterprise-feature.repository.ts\<close>,
  and \<open>decideFeature\<close> of \<open>modules/platform/platform.service.ts\<close> with its statements of
  \<open>platform-admin.repository.ts\<close>). Each of these requests reads the row and writes later, in no
  transaction, so the write takes what was read as an argument: anything may have happened between.
  Audit rows, \<open>updated_at\<close> and the test that a business id was given are left out.
\<close>

section \<open>The tables\<close>

datatype FeatureStatus = FeatureActive | FeatureBeta | FeatureDeprecated

datatype EnterpriseFeatureStatus =
  FeatAccessRequested | FeatDeclined | FeatActive | FeatDisabled | FeatExpired | FeatRevoked

fun ENTERPRISE_FEATURE_TRANSITIONS :: "EnterpriseFeatureStatus \<Rightarrow> EnterpriseFeatureStatus list" where
  "ENTERPRISE_FEATURE_TRANSITIONS FeatAccessRequested = [FeatActive, FeatDeclined]"
| "ENTERPRISE_FEATURE_TRANSITIONS FeatDeclined = [FeatAccessRequested]"
| "ENTERPRISE_FEATURE_TRANSITIONS FeatActive = [FeatDisabled, FeatExpired, FeatRevoked]"
| "ENTERPRISE_FEATURE_TRANSITIONS FeatDisabled = [FeatActive]"
| "ENTERPRISE_FEATURE_TRANSITIONS FeatExpired = [FeatActive]"
| "ENTERPRISE_FEATURE_TRANSITIONS FeatRevoked = []"

record feature_row =
  ft_id :: int
  ft_key :: string
  ft_status :: FeatureStatus
  ft_deleted :: bool

record enterprise_feature =
  fe_id :: int
  fe_enterprise :: int
  fe_feature :: int
  fe_status :: EnterpriseFeatureStatus
  fe_requested_by :: "int option"
  fe_requested_at :: "int option"
  fe_decided_by :: "int option"
  fe_decided_at :: "int option"
  fe_decline_reason :: "string option"
  fe_enabled_at :: "int option"
  fe_disabled_at :: "int option"
  fe_expires_at :: "int option"
  fe_deleted :: bool

record feature_db =
  fd_catalogue :: "feature_row list"
  fd_rows :: "enterprise_feature list"

datatype feature_error = FeatureNotFound | FeatureTransitionRefused | FeatureConcurrentModification

type_synonym 'a feature_req = "(feature_error, feature_db, 'a) req"

definition standing_row :: "int \<Rightarrow> int \<Rightarrow> enterprise_feature \<Rightarrow> bool" where
  "standing_row enterprise feature r \<longleftrightarrow> fe_enterprise r = enterprise \<and> fe_feature r = feature \<and> \<not> fe_deleted r"

section \<open>The business asks\<close>

definition listForEnterprise :: "int \<Rightarrow> feature_db \<Rightarrow> (string \<times> EnterpriseFeatureStatus option) list" where
  "listForEnterprise enterprise db =
     map (\<lambda>f. (ft_key f, map_option fe_status (find (standing_row enterprise (ft_id f)) (fd_rows db))))
       (filter (\<lambda>f. \<not> ft_deleted f \<and> ft_status f \<noteq> FeatureDeprecated) (fd_catalogue db))"

text \<open>The join of the two tables. A deleted feature of the catalogue still answers here.\<close>

definition currentStatus :: "int \<Rightarrow> string \<Rightarrow> feature_db \<Rightarrow> EnterpriseFeatureStatus option" where
  "currentStatus enterprise key db =
     map_option fe_status (find (\<lambda>r. fe_enterprise r = enterprise \<and> \<not> fe_deleted r
         \<and> list_ex (\<lambda>f. ft_id f = fe_feature r \<and> ft_key f = key) (fd_catalogue db)) (fd_rows db))"

definition new_feature :: "int \<Rightarrow> int \<Rightarrow> int \<Rightarrow> EnterpriseFeatureStatus \<Rightarrow> enterprise_feature" where
  "new_feature i enterprise feature status =
     \<lparr> fe_id = i, fe_enterprise = enterprise, fe_feature = feature, fe_status = status, fe_requested_by = None,
       fe_requested_at = None, fe_decided_by = None, fe_decided_at = None, fe_decline_reason = None, fe_enabled_at = None,
       fe_disabled_at = None, fe_expires_at = None, fe_deleted = False \<rparr>"

definition ask_again :: "int \<Rightarrow> int \<Rightarrow> enterprise_feature \<Rightarrow> enterprise_feature" where
  "ask_again now employee r = r\<lparr>fe_status := FeatAccessRequested, fe_requested_by := Some employee,
     fe_requested_at := Some now, fe_decline_reason := None\<rparr>"

text \<open>\<open>INSERT \<dots> SELECT \<dots> ON CONFLICT DO UPDATE \<dots> WHERE status = 'declined' RETURNING status\<close>. The key of the catalogue
  is unique.\<close>

definition requestAccess :: "int \<Rightarrow> int \<Rightarrow> string \<Rightarrow> int \<Rightarrow> feature_db \<Rightarrow> EnterpriseFeatureStatus option \<times> feature_db" where
  "requestAccess now enterprise key employee db =
     (case find (\<lambda>f. ft_key f = key \<and> \<not> ft_deleted f \<and> ft_status f \<noteq> FeatureDeprecated) (fd_catalogue db) of
        None \<Rightarrow> (None, db)
      | Some f \<Rightarrow>
          (case find (standing_row enterprise (ft_id f)) (fd_rows db) of
             None \<Rightarrow> (Some FeatAccessRequested, db\<lparr>fd_rows := fd_rows db
               @ [(new_feature (fresh_id (map fe_id (fd_rows db))) enterprise (ft_id f) FeatAccessRequested)
                    \<lparr>fe_requested_by := Some employee, fe_requested_at := Some now\<rparr>]\<rparr>)
           | Some r \<Rightarrow>
               if fe_status r = FeatDeclined
               then (Some FeatAccessRequested,
                     db\<lparr>fd_rows := update_where (\<lambda>q. fe_id q = fe_id r \<and> fe_status q = FeatDeclined) (ask_again now employee) (fd_rows db)\<rparr>)
               else (None, db)))"

definition mayRequestFrom :: "EnterpriseFeatureStatus \<Rightarrow> bool" where
  "mayRequestFrom status \<longleftrightarrow> FeatAccessRequested \<in> set (ENTERPRISE_FEATURE_TRANSITIONS status)"

definition requestable :: "EnterpriseFeatureStatus option \<Rightarrow> bool" where
  "requestable status = (case status of None \<Rightarrow> True | Some s \<Rightarrow> s \<noteq> FeatAccessRequested \<and> mayRequestFrom s)"

definition request_from :: "int \<Rightarrow> int \<Rightarrow> int \<Rightarrow> string \<Rightarrow> EnterpriseFeatureStatus option \<Rightarrow> unit feature_req" where
  "request_from now enterprise employee key before =
     (if before = Some FeatAccessRequested then rret ()
      else if (case before of None \<Rightarrow> False | Some s \<Rightarrow> \<not> mayRequestFrom s) then rthrow FeatureTransitionRefused
      else rbnd (rstate (requestAccess now enterprise key employee)) (\<lambda>result.
        if result = None then rthrow FeatureNotFound else rret ()))"

definition request_feature :: "int \<Rightarrow> int \<Rightarrow> int \<Rightarrow> string \<Rightarrow> unit feature_req" where
  "request_feature now enterprise employee key =
     rbnd (rreads (currentStatus enterprise key)) (request_from now enterprise employee key)"

section \<open>The platform decides\<close>

definition findFeatureIdByKey :: "string \<Rightarrow> feature_db \<Rightarrow> int option" where
  "findFeatureIdByKey key db = map_option ft_id (find (\<lambda>f. ft_key f = key \<and> \<not> ft_deleted f) (fd_catalogue db))"

definition findEnterpriseFeature :: "int \<Rightarrow> int \<Rightarrow> feature_db \<Rightarrow> (int \<times> EnterpriseFeatureStatus) option" where
  "findEnterpriseFeature enterprise feature db =
     map_option (\<lambda>r. (fe_id r, fe_status r)) (find (standing_row enterprise feature) (fd_rows db))"

definition insertEnterpriseFeature :: "int \<Rightarrow> int \<Rightarrow> int \<Rightarrow> EnterpriseFeatureStatus \<Rightarrow> int \<Rightarrow> feature_db \<Rightarrow> feature_db" where
  "insertEnterpriseFeature now enterprise feature status staff db =
     (if list_ex (standing_row enterprise feature) (fd_rows db) then db
      else db\<lparr>fd_rows := fd_rows db @ [(new_feature (fresh_id (map fe_id (fd_rows db))) enterprise feature status)
        \<lparr>fe_decided_by := Some staff, fe_decided_at := Some now,
         fe_enabled_at := (if status = FeatActive then Some now else None)\<rparr>]\<rparr>)"

definition decided :: "int \<Rightarrow> EnterpriseFeatureStatus \<Rightarrow> int \<Rightarrow> string option \<Rightarrow> enterprise_feature \<Rightarrow> enterprise_feature" where
  "decided now to staff reason r = r\<lparr>fe_status := to, fe_decided_by := Some staff, fe_decided_at := Some now,
     fe_decline_reason := reason, fe_enabled_at := (if to = FeatActive then Some now else fe_enabled_at r),
     fe_disabled_at := (if to \<in> {FeatDisabled, FeatRevoked} then Some now else fe_disabled_at r)\<rparr>"

definition updateEnterpriseFeatureStatus ::
    "int \<Rightarrow> int \<Rightarrow> EnterpriseFeatureStatus \<Rightarrow> EnterpriseFeatureStatus \<Rightarrow> int \<Rightarrow> string option \<Rightarrow> feature_db \<Rightarrow> bool \<times> feature_db" where
  "updateEnterpriseFeatureStatus now i from_status to staff reason db =
     (let hit = (\<lambda>r. fe_id r = i \<and> fe_status r = from_status \<and> \<not> fe_deleted r)
      in (list_ex hit (fd_rows db), db\<lparr>fd_rows := update_where hit (decided now to staff reason) (fd_rows db)\<rparr>))"

definition decide_from ::
    "int \<Rightarrow> int \<Rightarrow> int \<Rightarrow> int \<Rightarrow> EnterpriseFeatureStatus \<Rightarrow> string option \<Rightarrow> (int \<times> EnterpriseFeatureStatus) option
     \<Rightarrow> EnterpriseFeatureStatus option feature_req" where
  "decide_from now staff enterprise feature status reason existing =
     (case existing of
        None \<Rightarrow>
          if status \<noteq> FeatActive \<and> status \<noteq> FeatDeclined then rthrow FeatureTransitionRefused
          else rthen (rwrites (insertEnterpriseFeature now enterprise feature status staff)) (rret None)
      | Some (i, was) \<Rightarrow>
          if was = status then rthrow FeatureTransitionRefused
          else if status \<notin> set (ENTERPRISE_FEATURE_TRANSITIONS was) then rthrow FeatureTransitionRefused
          else rbnd (rstate (updateEnterpriseFeatureStatus now i was status staff reason)) (\<lambda>applied.
            if applied then rret (Some was) else rthrow FeatureConcurrentModification))"

definition decideFeature ::
    "int \<Rightarrow> int \<Rightarrow> int \<Rightarrow> string \<Rightarrow> EnterpriseFeatureStatus \<Rightarrow> string option \<Rightarrow> EnterpriseFeatureStatus option feature_req" where
  "decideFeature now staff enterprise key status reason =
     rbnd (rreads (findFeatureIdByKey key)) (\<lambda>found.
       case found of
         None \<Rightarrow> rthrow FeatureNotFound
       | Some feature \<Rightarrow>
           rbnd (rreads (findEnterpriseFeature enterprise feature))
             (decide_from now staff enterprise feature status reason))"

section \<open>The term runs out\<close>

definition term_over :: "int \<Rightarrow> enterprise_feature \<Rightarrow> bool" where
  "term_over now r \<longleftrightarrow> \<not> fe_deleted r \<and> fe_status r = FeatActive
     \<and> (case fe_expires_at r of None \<Rightarrow> False | Some t \<Rightarrow> t \<le> now)"

definition expireDue :: "int \<Rightarrow> nat \<Rightarrow> feature_db \<Rightarrow> nat \<times> feature_db" where
  "expireDue now limit db =
     (let ids = first_ids fe_id (term_over now) (\<lambda>r. the (fe_expires_at r)) limit (fd_rows db);
          hit = (\<lambda>r. fe_id r \<in> set ids)
      in (length (filter hit (fd_rows db)),
          db\<lparr>fd_rows := update_where hit (\<lambda>r. r\<lparr>fe_status := FeatExpired, fe_disabled_at := Some now\<rparr>) (fd_rows db)\<rparr>))"

section \<open>Any request at any time\<close>

text \<open>The write of each request, with whatever it read before.\<close>

inductive feature_step :: "feature_db \<Rightarrow> feature_db \<Rightarrow> bool" where
  asked: "request_from now enterprise employee key before db = (res, db') \<Longrightarrow> feature_step db db'"
| ruled: "decide_from now staff enterprise feature status reason existing db = (out, db') \<Longrightarrow> feature_step db db'"
| lapsed: "expireDue now limit db = (n, db') \<Longrightarrow> feature_step db db'"

inductive_cases feature_stepE: "feature_step db db'"

definition lawful :: "enterprise_feature \<Rightarrow> enterprise_feature \<Rightarrow> bool" where
  "lawful r r' \<longleftrightarrow> fe_id r' = fe_id r \<and> fe_enterprise r' = fe_enterprise r \<and> fe_feature r' = fe_feature r
     \<and> (fe_status r' = fe_status r \<or> fe_status r' \<in> set (ENTERPRISE_FEATURE_TRANSITIONS (fe_status r)))"

lemma lawful_update:
  assumes "r \<in> set rows" and "P r \<Longrightarrow> lawful r (f r)"
  shows "\<exists>r' \<in> set (update_where P f rows). lawful r r'"
  using assms by (intro bexI [of _ "if P r then f r else r"]) (auto simp: set_update_where lawful_def)

lemma lawful_kept: "r \<in> set rows \<Longrightarrow> set rows \<subseteq> set rows' \<Longrightarrow> \<exists>r' \<in> set rows'. lawful r r'"
  by (intro bexI [of _ r]) (auto simp: lawful_def)

lemma ask_lawful: "fe_status r = FeatDeclined \<Longrightarrow> lawful r (ask_again now employee r)"
  by (simp add: lawful_def ask_again_def)

lemma decided_lawful: "status \<in> set (ENTERPRISE_FEATURE_TRANSITIONS (fe_status r)) \<Longrightarrow> lawful r (decided now status staff reason r)"
  by (simp add: lawful_def decided_def)

lemma requestAccess_lawful:
  assumes "r \<in> set (fd_rows db)"
  shows "\<exists>r' \<in> set (fd_rows (snd (requestAccess now enterprise key employee db))). lawful r r'"
proof -
  have kept: "set (fd_rows db) \<subseteq> set rows \<Longrightarrow> \<exists>r' \<in> set rows. lawful r r'" for rows by (rule lawful_kept [OF assms])
  have asked: "\<exists>r' \<in> set (update_where (\<lambda>q. fe_id q = i \<and> fe_status q = FeatDeclined) (ask_again now employee) (fd_rows db)). lawful r r'" for i
    using assms by (rule lawful_update) (simp add: ask_lawful)
  show ?thesis by (auto simp: requestAccess_def asked split: option.split intro: kept)
qed

lemma decide_lawful:
  assumes r: "r \<in> set (fd_rows db)"
  shows "\<exists>r' \<in> set (fd_rows (snd (decide_from now staff enterprise feature status reason existing db))). lawful r r'"
proof (cases existing)
  case None
  then show ?thesis using lawful_kept [OF r]
    by (auto simp: decide_from_def req_defs insertEnterpriseFeature_def)
next
  case (Some x)
  then obtain i was where x: "existing = Some (i, was)" by (cases x) simp
  show ?thesis
  proof (cases "status \<in> set (ENTERPRISE_FEATURE_TRANSITIONS was) \<and> was \<noteq> status")
    case True
    have "\<exists>r' \<in> set (update_where (\<lambda>r. fe_id r = i \<and> fe_status r = was \<and> \<not> fe_deleted r) (decided now status staff reason) (fd_rows db)). lawful r r'"
      using r by (rule lawful_update) (use True in \<open>auto intro: decided_lawful\<close>)
    then show ?thesis using True x by (auto simp: decide_from_def req_defs updateEnterpriseFeatureStatus_def Let_def)
  next
    case False
    then show ?thesis using x lawful_kept [OF r] by (auto simp: decide_from_def req_defs)
  qed
qed

lemma expire_lawful:
  assumes d: "distinct (map fe_id (fd_rows db))" and r: "r \<in> set (fd_rows db)"
  shows "\<exists>r' \<in> set (fd_rows (snd (expireDue now limit db))). lawful r r'"
proof -
  have "\<exists>r' \<in> set (update_where (\<lambda>r. fe_id r \<in> set (first_ids fe_id (term_over now) (\<lambda>r. the (fe_expires_at r)) limit (fd_rows db)))
      (\<lambda>r. r\<lparr>fe_status := FeatExpired, fe_disabled_at := Some now\<rparr>) (fd_rows db)). lawful r r'"
    using r
  proof (rule lawful_update)
    assume "fe_id r \<in> set (first_ids fe_id (term_over now) (\<lambda>r. the (fe_expires_at r)) limit (fd_rows db))"
    then obtain q where "q \<in> set (fd_rows db)" "fe_id q = fe_id r" "term_over now q" by (blast dest: first_ids_sub)
    moreover from this have "q = r" using distinct_map_eq [OF d _ r] by blast
    ultimately show "lawful r (r\<lparr>fe_status := FeatExpired, fe_disabled_at := Some now\<rparr>)"
      by (simp add: lawful_def term_over_def)
  qed
  then show ?thesis by (simp add: expireDue_def Let_def)
qed


definition demo_features :: feature_db where
  "demo_features = \<lparr> fd_catalogue = [\<lparr> ft_id = 1, ft_key = ''post_insights'', ft_status = FeatureActive, ft_deleted = False \<rparr>],
     fd_rows = [(new_feature 4 7 1 FeatActive)\<lparr>fe_expires_at := Some 50\<rparr>] \<rparr>"


section \<open>A renewal does not last\<close>

text \<open>A feature that is renewed after its term ends again the same night. Moving it from expired to active leaves the old date
  in place, so the next sweep finds it over.\<close>

theorem renewed_feature_expires_again:
  assumes r: "r \<in> set (fd_rows db)" "fe_status r = FeatExpired" "\<not> fe_deleted r" "fe_expires_at r = Some t" "t \<le> now'"
    and ids: "distinct (map fe_id (fd_rows db))"
    and renew: "decide_from now staff enterprise feature FeatActive reason (Some (fe_id r, FeatExpired)) db = (Inr out, db1)"
    and room: "length (fd_rows db) \<le> limit"
  shows "(\<exists>r1 \<in> set (fd_rows db1). fe_id r1 = fe_id r \<and> fe_status r1 = FeatActive)
    \<and> (\<exists>r2 \<in> set (fd_rows (snd (expireDue now' limit db1))). fe_id r2 = fe_id r \<and> fe_status r2 = FeatExpired)"
proof -
  let ?hit = "\<lambda>q. fe_id q = fe_id r \<and> fe_status q = FeatExpired \<and> \<not> fe_deleted q"
  let ?r1 = "decided now FeatActive staff reason r"
  from renew have rows: "fd_rows db1 = update_where ?hit (decided now FeatActive staff reason) (fd_rows db)"
    by (auto simp: decide_from_def req_defs updateEnterpriseFeatureStatus_def Let_def split: if_splits)
  have r1: "?r1 \<in> set (fd_rows db1)" unfolding rows set_update_where using r by (intro image_eqI [of _ _ r]) simp_all
  have over: "term_over now' ?r1" using r by (simp add: term_over_def decided_def)
  let ?due = "filter (term_over now') (fd_rows db1)"
  have "length ?due \<le> length (fd_rows db1)" by (rule length_filter_le)
  then have "take limit (sort_key (\<lambda>r. the (fe_expires_at r)) ?due) = sort_key (\<lambda>r. the (fe_expires_at r)) ?due"
    using room by (simp add: rows)
  then have "fe_id r \<in> set (first_ids fe_id (term_over now') (\<lambda>r. the (fe_expires_at r)) limit (fd_rows db1))"
    using r1 over by (auto simp: first_ids_def decided_def intro!: image_eqI [of _ _ ?r1])
  then have "?r1\<lparr>fe_status := FeatExpired, fe_disabled_at := Some now'\<rparr> \<in> set (fd_rows (snd (expireDue now' limit db1)))"
    using r1 by (auto simp: expireDue_def Let_def set_update_where decided_def intro!: image_eqI [of _ _ ?r1])
  then show ?thesis using r1 by (fastforce simp: decided_def intro: bexI [rotated])
qed

definition demo_expired :: feature_db where
  "demo_expired = demo_features\<lparr>fd_rows := [(new_feature 4 7 1 FeatExpired)\<lparr>fe_expires_at := Some 50\<rparr>]\<rparr>"

theorem renewed_feature_expires_again_witness:
  "\<exists>r \<in> set (fd_rows (snd (expireDue 60 500 (snd (decide_from 55 1 7 1 FeatActive None (Some (4, FeatExpired)) demo_expired))))).
     fe_id r = 4 \<and> fe_status r = FeatExpired"
proof -
  let ?r = "hd (fd_rows demo_expired)"
  have r: "?r \<in> set (fd_rows demo_expired)" "fe_status ?r = FeatExpired" "\<not> fe_deleted ?r" "fe_expires_at ?r = Some 50" "(50 :: int) \<le> 60"
    "distinct (map fe_id (fd_rows demo_expired))" "length (fd_rows demo_expired) \<le> 500" "fe_id ?r = 4"
    by (simp_all add: demo_expired_def demo_features_def new_feature_def)
  have renew: "decide_from 55 1 7 1 FeatActive None (Some (fe_id ?r, FeatExpired)) demo_expired
      = (Inr (Some FeatExpired), snd (decide_from 55 1 7 1 FeatActive None (Some (fe_id ?r, FeatExpired)) demo_expired))"
    by code_simp
  from renewed_feature_expires_again [OF r(1-6) renew r(7)] r(8) show ?thesis by simp
qed

end
