(* ===== verification/Retention.thy ===== *)
theory Retention
  imports Features Sync_Jobs Inbox_Safety Inbound_Ledger Auth_Store Reward_Awards
begin

text \<open>
  The nightly sweep (\<open>workers/sweeper.worker.ts\<close>) over the tables of the other theories, with the
  statements of \<open>oauth-state.repository.ts\<close> and the retention of \<open>provider-api-usage.repository.ts\<close>. A
  statement commits by itself; one that the database refuses throws, and the rest of the sweep does
  not run. Of the foreign keys those to the two ledgers are here: \<open>messages.inbound_event_id\<close>,
  \<open>messages.outbound_event_id\<close> and \<open>outbound_events.in_reply_to_event_id\<close> of \<open>schema-objects.ts\<close>, none with an
  \<open>ON DELETE\<close> action. (\<open>verifications.outbound_event_id\<close> is never written.)
\<close>

section \<open>OAuth states and usage\<close>

record oauth_state =
  os_nonce :: string
  os_enterprise :: int
  os_employee :: "int option"
  os_expires :: int
  os_consumed :: "int option"
  os_created :: int
  os_deleted :: bool

text \<open>The index on the nonce refuses a second live row of one nonce.\<close>

definition create_state :: "int \<Rightarrow> string \<Rightarrow> int \<Rightarrow> int option \<Rightarrow> int \<Rightarrow> oauth_state list \<Rightarrow> oauth_state list option" where
  "create_state now nonce enterprise employee expiresAt ss =
     (if list_ex (\<lambda>s. os_nonce s = nonce \<and> \<not> os_deleted s) ss then None
      else Some (ss @ [\<lparr> os_nonce = nonce, os_enterprise = enterprise, os_employee = employee, os_expires = expiresAt,
             os_consumed = None, os_created = now, os_deleted = False \<rparr>]))"

definition spendable_state :: "int \<Rightarrow> string \<Rightarrow> oauth_state \<Rightarrow> bool" where
  "spendable_state now nonce s \<longleftrightarrow> os_nonce s = nonce \<and> os_consumed s = None \<and> now < os_expires s \<and> \<not> os_deleted s"

definition consume_state :: "int \<Rightarrow> string \<Rightarrow> oauth_state list \<Rightarrow> (int \<times> int option) option \<times> oauth_state list" where
  "consume_state now nonce ss =
     (map_option (\<lambda>s. (os_enterprise s, os_employee s)) (find (spendable_state now nonce) ss),
      update_where (spendable_state now nonce) (\<lambda>s. s\<lparr>os_consumed := Some now\<rparr>) ss)"

definition deleteStatesBefore :: "int \<Rightarrow> nat \<Rightarrow> oauth_state list \<Rightarrow> oauth_state list" where
  "deleteStatesBefore cutoff =
     delete_some (\<lambda>s. (os_consumed s \<noteq> None \<or> os_expires s < cutoff) \<and> os_created s < cutoff)"

record usage_row =
  us_id :: int
  us_bucket :: int

definition META_USAGE_RETENTION_MS :: int where "META_USAGE_RETENTION_MS = 48 * 60 * 60 * 1000"

definition sweepUsage :: "int \<Rightarrow> int \<Rightarrow> nat \<Rightarrow> usage_row list \<Rightarrow> usage_row list" where
  "sweepUsage now olderThan = delete_rows us_id (\<lambda>u. us_bucket u < now - olderThan) us_bucket"

section \<open>The sweep\<close>

definition VERIFICATION_RETENTION_DAYS :: int where "VERIFICATION_RETENTION_DAYS = 7"
definition SESSION_RETENTION_DAYS :: int where "SESSION_RETENTION_DAYS = 30"
definition LEDGER_RETENTION_DAYS :: int where "LEDGER_RETENTION_DAYS = 30"
definition OAUTH_STATE_RETENTION_DAYS :: int where "OAUTH_STATE_RETENTION_DAYS = 1"

definition daysAgo :: "int \<Rightarrow> int \<Rightarrow> int" where
  "daysAgo now days = now - days * 24 * 60 * 60 * 1000"

record 'p retained =
  rt_auth :: auth_db
  rt_states :: "oauth_state list"
  rt_ledger :: "'p inbound_table"
  rt_inbox :: inbox_db
  rt_usage :: "usage_row list"
  rt_features :: feature_db

datatype sweep_error = StillReferenced

type_synonym ('p, 'a) sweep_req = "(sweep_error, 'p retained, 'a) req"

text \<open>The two foreign keys that point at a row.\<close>

definition inbound_in_use :: "'p retained \<Rightarrow> int \<Rightarrow> bool" where
  "inbound_in_use db i \<longleftrightarrow> list_ex (\<lambda>m. mg_inbound_event m = Some i) (ib_messages (rt_inbox db))
     \<or> list_ex (\<lambda>e. in_reply_to e = Some i) (events (ib_outbox (rt_inbox db)))"

definition outbound_in_use :: "'p retained \<Rightarrow> int \<Rightarrow> bool" where
  "outbound_in_use db i \<longleftrightarrow> list_ex (\<lambda>m. mg_outbound_event m = Some i) (ib_messages (rt_inbox db))"

text \<open>A statement that answers how many rows it took out.\<close>

definition counted :: "('s \<Rightarrow> nat) \<Rightarrow> ('s \<Rightarrow> 's) \<Rightarrow> ('e, 's, nat) req" where
  "counted size_of f = rstate (\<lambda>db. (size_of db - size_of (f db), f db))"

definition sweep_codes :: "int \<Rightarrow> nat \<Rightarrow> ('p, nat) sweep_req" where
  "sweep_codes cutoff limit = counted (\<lambda>db. length (v_rows (challenges (rt_auth db))))
     (\<lambda>db. db\<lparr>rt_auth := (rt_auth db)\<lparr>challenges := sweepVerifications cutoff limit (challenges (rt_auth db))\<rparr>\<rparr>)"

definition sweep_sessions :: "int \<Rightarrow> nat \<Rightarrow> ('p, nat) sweep_req" where
  "sweep_sessions cutoff limit = counted (\<lambda>db. length (sessions (rt_auth db)))
     (\<lambda>db. db\<lparr>rt_auth := sweepSessions cutoff limit (rt_auth db)\<rparr>)"

definition sweep_states :: "int \<Rightarrow> nat \<Rightarrow> ('p, nat) sweep_req" where
  "sweep_states cutoff limit = counted (\<lambda>db. length (rt_states db))
     (\<lambda>db. db\<lparr>rt_states := deleteStatesBefore cutoff limit (rt_states db)\<rparr>)"

definition old_inbound :: "int \<Rightarrow> 'p inbound_event \<Rightarrow> bool" where
  "old_inbound cutoff e \<longleftrightarrow> in_status e \<in> set SETTLED_INBOUND_STATUSES \<and> in_created e < cutoff"

definition sweep_inbound :: "int \<Rightarrow> nat \<Rightarrow> ('p, nat) sweep_req" where
  "sweep_inbound cutoff limit = (\<lambda>db.
     if list_ex (inbound_in_use db) (first_ids in_id (old_inbound cutoff) in_created limit (in_rows (rt_ledger db)))
     then (Inl StillReferenced, db)
     else counted (\<lambda>db. length (in_rows (rt_ledger db)))
       (\<lambda>db. db\<lparr>rt_ledger := deleteInboundBefore cutoff limit (rt_ledger db)\<rparr>) db)"

definition old_outbound :: "int \<Rightarrow> outbound_event \<Rightarrow> bool" where
  "old_outbound cutoff e \<longleftrightarrow> o_status e \<in> set SETTLED_OUTBOUND_STATUSES \<and> created_at e < cutoff"

definition on_inbox :: "(inbox_db \<Rightarrow> inbox_db) \<Rightarrow> 'p retained \<Rightarrow> 'p retained" where
  "on_inbox f db = db\<lparr>rt_inbox := f (rt_inbox db)\<rparr>"

definition sweep_outbound :: "int \<Rightarrow> nat \<Rightarrow> ('p, nat) sweep_req" where
  "sweep_outbound cutoff limit = (\<lambda>db.
     if list_ex (outbound_in_use db) (first_ids o_id (old_outbound cutoff) created_at limit (events (ib_outbox (rt_inbox db))))
     then (Inl StillReferenced, db)
     else counted (\<lambda>db. length (events (ib_outbox (rt_inbox db))))
       (on_inbox (\<lambda>ib. ib\<lparr>ib_outbox := deleteSettledBefore cutoff limit (ib_outbox ib)\<rparr>)) db)"

definition sweep_jobs :: "int \<Rightarrow> nat \<Rightarrow> ('p, nat) sweep_req" where
  "sweep_jobs cutoff limit = counted (\<lambda>db. length (ib_sync (rt_inbox db)))
     (on_inbox (\<lambda>ib. ib\<lparr>ib_sync := deleteSettledJobs cutoff limit (ib_sync ib)\<rparr>))"

definition sweep_usage :: "int \<Rightarrow> nat \<Rightarrow> ('p, nat) sweep_req" where
  "sweep_usage now limit = counted (\<lambda>db. length (rt_usage db))
     (\<lambda>db. db\<lparr>rt_usage := sweepUsage now META_USAGE_RETENTION_MS limit (rt_usage db)\<rparr>)"

definition expire_features :: "int \<Rightarrow> nat \<Rightarrow> ('p, nat) sweep_req" where
  "expire_features now limit = rstate (\<lambda>db. case expireDue now limit (rt_features db) of
     (n, fd) \<Rightarrow> (n, db\<lparr>rt_features := fd\<rparr>))"

primrec drain_batches :: "nat \<Rightarrow> (nat \<Rightarrow> ('e, 's, nat) req) \<Rightarrow> ('e, 's, nat) req" where
  "drain_batches 0 m = rret 0"
| "drain_batches (Suc passes) m =
     rbnd (m SWEEP_BATCH) (\<lambda>deleted.
       if deleted < SWEEP_BATCH then rret deleted
       else rbnd (drain_batches passes m) (\<lambda>n. rret (deleted + n)))"

definition drain :: "(nat \<Rightarrow> ('e, 's, nat) req) \<Rightarrow> ('e, 's, nat) req" where
  "drain = drain_batches MAX_SWEEP_PASSES"

definition sweep_tables :: "int \<Rightarrow> ('p, nat) sweep_req" where
  "sweep_tables now =
     rthen (drain (sweep_codes (daysAgo now VERIFICATION_RETENTION_DAYS)))
    (rthen (drain (sweep_sessions (daysAgo now SESSION_RETENTION_DAYS)))
    (rthen (drain (sweep_states (daysAgo now OAUTH_STATE_RETENTION_DAYS)))
    (rthen (drain (sweep_inbound (daysAgo now LEDGER_RETENTION_DAYS)))
    (rthen (drain (sweep_outbound (daysAgo now LEDGER_RETENTION_DAYS)))
    (rthen (drain (sweep_jobs (daysAgo now LEDGER_RETENTION_DAYS)))
    (rthen (drain (sweep_usage now))
           (drain (expire_features now))))))))"

text \<open>Whether the sweep ended, and what it left. What it throws is caught and logged.\<close>

definition sweep_tick :: "int \<Rightarrow> 'p retained \<Rightarrow> bool \<times> 'p retained" where
  "sweep_tick now db = (case sweep_tables now db of (Inl _, db') \<Rightarrow> (False, db') | (Inr _, db') \<Rightarrow> (True, db'))"

text \<open>The hourly tick beside it.\<close>

definition expireEntitlements :: "reward_db \<Rightarrow> reward_db" where
  "expireEntitlements db = snd (drain (\<lambda>limit. inTransaction (expireLapsed limit)) db)"

section \<open>A drain\<close>

lemma drain_counted:
  fixes d :: 's
  assumes "\<And>limit d. g (f limit d) = g d"
  shows "\<exists>n d'. drain_batches passes (\<lambda>limit. counted size_of (f limit)) d = (Inr n :: 'e + nat, d') \<and> g d' = g d"
proof (induction passes arbitrary: d)
  case (Suc passes)
  let ?d = "f SWEEP_BATCH d"
  from Suc [of ?d] assms [of SWEEP_BATCH d] obtain n d'
    where "drain_batches passes (\<lambda>limit. counted size_of (f limit)) ?d = (Inr n :: 'e + nat, d')" "g d' = g d" by auto
  then show ?case using assms [of SWEEP_BATCH d] by (simp add: counted_def rbnd_def rstate_def rret_def)
qed (simp add: rret_def)

section \<open>The sweep stops at a referenced row\<close>

definition swept_part :: "'p retained \<Rightarrow> 'p inbound_table \<times> inbox_db \<times> usage_row list \<times> feature_db" where
  "swept_part db = (rt_ledger db, rt_inbox db, rt_usage db, rt_features db)"

definition blocks :: "int \<Rightarrow> 'p inbound_event \<Rightarrow> 'p retained \<Rightarrow> bool" where
  "blocks now e db \<longleftrightarrow> e \<in> set (in_rows (rt_ledger db)) \<and> old_inbound (daysAgo now LEDGER_RETENTION_DAYS) e
     \<and> inbound_in_use db (in_id e)
     \<and> length (filter (\<lambda>f. in_status f \<in> set SETTLED_INBOUND_STATUSES \<and> in_created f \<le> in_created e)
          (in_rows (rt_ledger db))) \<le> SWEEP_BATCH"

lemma blocks_part: "swept_part db' = swept_part db \<Longrightarrow> blocks now e db' = blocks now e db"
  by (simp add: blocks_def swept_part_def inbound_in_use_def)

lemma drain_throws: "0 < passes \<Longrightarrow> m SWEEP_BATCH d = (Inl x, d) \<Longrightarrow> drain_batches passes m d = (Inl x, d)"
  by (cases passes) (simp_all add: rbnd_def)

lemma inbound_blocked:
  assumes "blocks now e db"
  shows "drain (sweep_inbound (daysAgo now LEDGER_RETENTION_DAYS)) db = (Inl StillReferenced, db)"
proof -
  let ?c = "daysAgo now LEDGER_RETENTION_DAYS"
  have "length (filter (\<lambda>f. old_inbound ?c f \<and> in_created f \<le> in_created e) (in_rows (rt_ledger db)))
      = length (filter (\<lambda>f. in_status f \<in> set SETTLED_INBOUND_STATUSES \<and> in_created f \<le> in_created e) (in_rows (rt_ledger db)))"
    using assms by (intro arg_cong [where f = length] filter_cong refl) (auto simp: blocks_def old_inbound_def)
  then have "in_id e \<in> set (first_ids in_id (old_inbound ?c) in_created SWEEP_BATCH (in_rows (rt_ledger db)))"
    using assms by (intro first_ids_within) (simp_all add: blocks_def)
  then have "sweep_inbound ?c SWEEP_BATCH db = (Inl StillReferenced, db)"
    using assms by (auto simp: sweep_inbound_def list_ex_iff blocks_def)
  then show ?thesis unfolding drain_def by (rule drain_throws [rotated]) (simp add: MAX_SWEEP_PASSES_def)
qed

lemma sweep_blocked:
  assumes "blocks now e db"
  shows "\<not> fst (sweep_tick now db) \<and> swept_part (snd (sweep_tick now db)) = swept_part db"
proof -
  have "\<exists>n d'. drain (sweep_codes c) d = (Inr n, d') \<and> swept_part d' = swept_part d" for c and d :: "'a retained"
    unfolding drain_def sweep_codes_def by (rule drain_counted) (simp add: swept_part_def)
  then obtain n1 d1 where 1: "drain (sweep_codes (daysAgo now VERIFICATION_RETENTION_DAYS)) db = (Inr n1, d1)"
      "swept_part d1 = swept_part db" by blast
  have "\<exists>n d'. drain (sweep_sessions c) d = (Inr n, d') \<and> swept_part d' = swept_part d" for c and d :: "'a retained"
    unfolding drain_def sweep_sessions_def by (rule drain_counted) (simp add: swept_part_def)
  then obtain n2 d2 where 2: "drain (sweep_sessions (daysAgo now SESSION_RETENTION_DAYS)) d1 = (Inr n2, d2)"
      "swept_part d2 = swept_part d1" by blast
  have "\<exists>n d'. drain (sweep_states c) d = (Inr n, d') \<and> swept_part d' = swept_part d" for c and d :: "'a retained"
    unfolding drain_def sweep_states_def by (rule drain_counted) (simp add: swept_part_def)
  then obtain n3 d3 where 3: "drain (sweep_states (daysAgo now OAUTH_STATE_RETENTION_DAYS)) d2 = (Inr n3, d3)"
      "swept_part d3 = swept_part d2" by blast
  have part: "swept_part d3 = swept_part db" using 1 2 3 by simp
  then have "blocks now e d3" using assms blocks_part by blast
  from inbound_blocked [OF this] 1(1) 2(1) 3(1) part show ?thesis
    by (simp add: sweep_tick_def sweep_tables_def rthen_def rbnd_def)
qed

primrec nights :: "int list \<Rightarrow> 'p retained \<Rightarrow> bool list \<times> 'p retained" where
  "nights [] db = ([], db)"
| "nights (now # later) db = (case sweep_tick now db of (ok, d) \<Rightarrow> case nights later d of (oks, d') \<Rightarrow> (ok # oks, d'))"

text \<open>C34: One projected message ends retention for good. An inbound event that became a message is still named by it when the
  event is thirty days old; once it is among the oldest five hundred settled events, every nightly sweep
  fails at the inbound ledger, and neither the ledgers, the sync jobs, the usage table nor the expiry of
  features is reached, night after night.\<close>

theorem retention_sweep_stops:
  assumes "\<forall>now \<in> set ns. blocks now e db"
  shows "fst (nights ns db) = map (\<lambda>_. False) ns
    \<and> rt_ledger (snd (nights ns db)) = rt_ledger db \<and> rt_inbox (snd (nights ns db)) = rt_inbox db
    \<and> rt_usage (snd (nights ns db)) = rt_usage db \<and> rt_features (snd (nights ns db)) = rt_features db"
proof -
  have "fst (nights ns d) = map (\<lambda>_. False) ns \<and> swept_part (snd (nights ns d)) = swept_part d"
    if "\<forall>now \<in> set ns. blocks now e d" for d
    using that
  proof (induction ns arbitrary: d)
    case (Cons now ns)
    from sweep_blocked [of now e d] Cons.prems
    have n: "\<not> fst (sweep_tick now d)" "swept_part (snd (sweep_tick now d)) = swept_part d" by simp_all
    moreover have "\<forall>now \<in> set ns. blocks now e (snd (sweep_tick now' d))" if "swept_part (snd (sweep_tick now' d)) = swept_part d" for now'
      using blocks_part [OF that] Cons.prems by simp
    ultimately show ?case using Cons.IH [of "snd (sweep_tick now d)"] by (simp add: split_def)
  qed simp
  from this [OF assms] show ?thesis by (simp add: swept_part_def)
qed

definition demo_event_row :: "int inbound_event" where
  "demo_event_row = \<lparr> in_id = 1, in_enterprise = Some 7, in_channel = Some 3, in_source_kind = FromChannel, in_source_id = Some ''ig'',
     in_platform = Instagram, in_type = InDirectMessage, in_platform_event_id = Some ''m1'', in_dedup = ''m1'', in_correlation = None,
     in_payload = 0, in_priority = 0, in_status = InProcessed, in_lease_owner = None, in_lease_expires = None, in_attempts = 1,
     in_max = 3, in_next = None, in_created = 0, in_last_error = None, in_last_error_at = None, in_dead_at = None,
     in_started = None, in_processed = Some 0, in_received = None \<rparr>"

definition demo_retained :: "int retained" where
  "demo_retained = \<lparr> rt_auth = \<lparr> logins = [], sessions = [], nextSession = 1, employments = [], staffMembers = [], businesses = [],
       challenges = \<lparr> v_rows = [], v_next = 1 \<rparr>, auditTrail = [], signedPayloads = [] \<rparr>,
     rt_states = [], rt_ledger = \<lparr> in_rows = [demo_event_row], in_next_id = 2 \<rparr>, rt_inbox = snd demo_opened,
     rt_usage = [], rt_features = demo_features \<rparr>"

theorem retention_sweep_stops_witness:
  "fst (nights [3000000000, 3086400000] demo_retained) = [False, False]
    \<and> map fe_status (fd_rows (rt_features (snd (nights [3000000000, 3086400000] demo_retained)))) = [FeatActive]"
proof -
  have used: "inbound_in_use demo_retained (in_id demo_event_row)" by code_simp
  have "blocks now demo_event_row demo_retained" if "2592000000 < now" for now
    using that used by (simp add: blocks_def demo_retained_def demo_event_row_def old_inbound_def daysAgo_def LEDGER_RETENTION_DAYS_def
        SETTLED_INBOUND_STATUSES_def SWEEP_BATCH_def)
  then have "\<forall>now \<in> set [3000000000, 3086400000]. blocks now demo_event_row demo_retained" by simp
  from retention_sweep_stops [OF this] show ?thesis
    by (simp add: demo_retained_def demo_features_def new_feature_def)
qed

section \<open>A sweep that nothing blocks\<close>

lemma first_ids_due:
  assumes "distinct (map rid rows)" and "r \<in> set rows" and "rid r \<in> set (first_ids rid due order limit rows)"
  shows "due r"
  using assms(3) first_ids_sub [of "rid r" rid due order limit rows] distinct_map_eq [OF assms(1) _ assms(2)] by metis

lemma first_ids_count:
  assumes d: "distinct (map rid rows)"
  shows "length (filter (\<lambda>r. rid r \<in> set (first_ids rid due order limit rows)) rows) = min (length (filter due rows)) limit"
proof -
  let ?ids = "first_ids rid due order limit rows"
  have "distinct (map rid (sort_key order (filter due rows)))"
    using d by (auto simp: distinct_map intro: inj_on_subset)
  then have ids: "distinct ?ids" unfolding first_ids_def take_map [symmetric] by (rule distinct_take)
  have "set (map rid (filter (\<lambda>r. rid r \<in> set ?ids) rows)) = set ?ids"
    using first_ids_sub [of _ rid due order limit rows] by force
  moreover have "distinct (map rid (filter (\<lambda>r. rid r \<in> set ?ids) rows))"
    using d by (rule distinct_map_filter)
  ultimately have "length (map rid (filter (\<lambda>r. rid r \<in> set ?ids) rows)) = length ?ids"
    using ids by (metis distinct_card)
  then show ?thesis by (simp add: first_ids_length)
qed

definition terms_over :: "int \<Rightarrow> feature_db \<Rightarrow> nat" where
  "terms_over now fd = length (filter (term_over now) (fd_rows fd))"

lemma expire_batch:
  assumes d: "distinct (map fe_id (fd_rows fd))" and run: "expireDue now limit fd = (n, fd')"
  shows "n = min (terms_over now fd) limit \<and> terms_over now fd' = terms_over now fd - n \<and> distinct (map fe_id (fd_rows fd'))"
proof -
  let ?ids = "first_ids fe_id (term_over now) (\<lambda>r. the (fe_expires_at r)) limit (fd_rows fd)"
  let ?hit = "\<lambda>r. fe_id r \<in> set ?ids"
  let ?f = "\<lambda>r. r\<lparr>fe_status := FeatExpired, fe_disabled_at := Some now\<rparr>"
  from run have n: "n = length (filter ?hit (fd_rows fd))" and rows: "fd_rows fd' = update_where ?hit ?f (fd_rows fd)"
    by (auto simp: expireDue_def Let_def)
  have "length (filter (term_over now) (update_where P ?f rows)) = length (filter (\<lambda>r. term_over now r \<and> \<not> P r) rows)"
    for P :: "enterprise_feature \<Rightarrow> bool" and rows
    by (induction rows) (simp_all add: update_where_def term_over_def)
  then have after: "terms_over now fd' = length (filter (\<lambda>r. term_over now r \<and> \<not> ?hit r) (fd_rows fd))"
    by (simp add: terms_over_def rows)
  have "filter (\<lambda>r. term_over now r \<and> ?hit r) (fd_rows fd) = filter ?hit (fd_rows fd)"
    by (rule filter_cong [OF refl]) (use first_ids_due [OF d] in blast)
  then have "filter ?hit (filter (term_over now) (fd_rows fd)) = filter ?hit (fd_rows fd)" by (simp add: filter_filter)
  then have "terms_over now fd = n + terms_over now fd'"
    using sum_length_filter_compl [of ?hit "filter (term_over now) (fd_rows fd)"]
    unfolding after unfolding n terms_over_def by (simp add: conj_commute)
  moreover have "n = min (terms_over now fd) limit" unfolding n terms_over_def by (rule first_ids_count [OF d])
  moreover have "distinct (map fe_id (fd_rows fd'))" using d by (simp add: rows map_update_where)
  ultimately show ?thesis by simp
qed

lemma drain_expires:
  assumes "distinct (map fe_id (fd_rows (rt_features db)))" and "terms_over now (rt_features db) \<le> passes * SWEEP_BATCH"
  shows "\<exists>n d'. drain_batches passes (expire_features now) db = (Inr n, d') \<and> terms_over now (rt_features d') = 0"
  using assms
proof (induction passes arbitrary: db)
  case (Suc passes)
  let ?l = "terms_over now (rt_features db)"
  obtain n fd where run: "expireDue now SWEEP_BATCH (rt_features db) = (n, fd)" by fastforce
  from expire_batch [OF Suc.prems(1) run] have n: "n = min ?l SWEEP_BATCH" "terms_over now fd = ?l - n" "distinct (map fe_id (fd_rows fd))"
    by simp_all
  have step: "expire_features now SWEEP_BATCH db = (Inr n, db\<lparr>rt_features := fd\<rparr>)" by (simp add: expire_features_def rstate_def run)
  show ?case
  proof (cases "n < SWEEP_BATCH")
    case True
    then have "terms_over now fd = 0" using n by (simp add: min_def split: if_splits)
    with True show ?thesis by (simp add: step rbnd_def rret_def)
  next
    case False
    then have "terms_over now fd \<le> passes * SWEEP_BATCH" using n(1,2) Suc.prems(2) by (simp add: min_def split: if_splits)
    with Suc.IH [of "db\<lparr>rt_features := fd\<rparr>"] n(3) obtain k d' where
      "drain_batches passes (expire_features now) (db\<lparr>rt_features := fd\<rparr>) = (Inr k, d')" "terms_over now (rt_features d') = 0"
      by auto
    with False show ?thesis by (simp add: step rbnd_def rret_def)
  qed
qed (simp add: rret_def)

definition unblocked :: "int \<Rightarrow> feature_db \<Rightarrow> 'p retained \<Rightarrow> bool" where
  "unblocked now fd db \<longleftrightarrow> rt_features db = fd
     \<and> (\<forall>e \<in> set (in_rows (rt_ledger db)). old_inbound (daysAgo now LEDGER_RETENTION_DAYS) e \<longrightarrow> \<not> inbound_in_use db (in_id e))
     \<and> (\<forall>e \<in> set (events (ib_outbox (rt_inbox db))). old_outbound (daysAgo now LEDGER_RETENTION_DAYS) e \<longrightarrow> \<not> outbound_in_use db (o_id e))"

lemma drain_goes_on:
  assumes "\<And>d. I d \<Longrightarrow> \<exists>n d'. m SWEEP_BATCH d = (Inr n, d') \<and> I d'" and "I d"
  shows "\<exists>n d'. drain m d = (Inr n, d') \<and> I d'"
proof -
  have "\<exists>n d'. drain_batches k m d = (Inr n, d') \<and> I d'" for k
    using assms(2)
  proof (induction k arbitrary: d)
    case (Suc k)
    from assms(1) [OF Suc.prems] obtain n d1 where 1: "m SWEEP_BATCH d = (Inr n, d1)" "I d1" by blast
    from Suc.IH [OF 1(2)] 1 show ?case by (cases "n < SWEEP_BATCH") (auto simp: rbnd_def rret_def)
  qed (simp add: rret_def)
  then show ?thesis by (simp add: drain_def)
qed

lemma delete_rows_sub: "set (delete_rows rid old order limit rows) \<subseteq> set rows"
  by (auto simp: delete_rows_def Let_def)

lemma unblocked_steps:
  assumes u: "unblocked now fd d"
  shows "\<exists>n d'. sweep_codes c limit d = (Inr n, d') \<and> unblocked now fd d'"
    and "\<exists>n d'. sweep_sessions c limit d = (Inr n, d') \<and> unblocked now fd d'"
    and "\<exists>n d'. sweep_states c limit d = (Inr n, d') \<and> unblocked now fd d'"
    and "\<exists>n d'. sweep_usage t limit d = (Inr n, d') \<and> unblocked now fd d'"
    and "\<exists>n d'. sweep_jobs c limit d = (Inr n, d') \<and> unblocked now fd d'"
  using u by (simp_all add: sweep_codes_def sweep_sessions_def sweep_states_def sweep_usage_def sweep_jobs_def counted_def rstate_def
      unblocked_def inbound_in_use_def outbound_in_use_def on_inbox_def)

lemma unblocked_inbound:
  assumes u: "unblocked now fd d"
  shows "\<exists>n d'. sweep_inbound (daysAgo now LEDGER_RETENTION_DAYS) limit d = (Inr n, d') \<and> unblocked now fd d'"
proof -
  let ?c = "daysAgo now LEDGER_RETENTION_DAYS"
  have "\<not> list_ex (inbound_in_use d) (first_ids in_id (old_inbound ?c) in_created limit (in_rows (rt_ledger d)))"
    using u first_ids_sub [of _ in_id "old_inbound ?c" in_created limit "in_rows (rt_ledger d)"]
    unfolding list_ex_iff unblocked_def by blast
  moreover have "set (in_rows (deleteInboundBefore ?c limit (rt_ledger d))) \<subseteq> set (in_rows (rt_ledger d))"
    unfolding deleteInboundBefore_def using delete_rows_sub by fastforce
  ultimately show ?thesis using u
    by (auto simp: sweep_inbound_def counted_def rstate_def unblocked_def inbound_in_use_def outbound_in_use_def)
qed

lemma unblocked_outbound:
  assumes u: "unblocked now fd d"
  shows "\<exists>n d'. sweep_outbound (daysAgo now LEDGER_RETENTION_DAYS) limit d = (Inr n, d') \<and> unblocked now fd d'"
proof -
  let ?c = "daysAgo now LEDGER_RETENTION_DAYS"
  have "\<not> list_ex (outbound_in_use d) (first_ids o_id (old_outbound ?c) created_at limit (events (ib_outbox (rt_inbox d))))"
    using u first_ids_sub [of _ o_id "old_outbound ?c" created_at limit "events (ib_outbox (rt_inbox d))"]
    unfolding list_ex_iff unblocked_def by blast
  moreover have sub: "set (events (deleteSettledBefore ?c limit (ib_outbox (rt_inbox d)))) \<subseteq> set (events (ib_outbox (rt_inbox d)))"
    unfolding deleteSettledBefore_def using delete_rows_sub by fastforce
  moreover from sub have "list_ex P (events (deleteSettledBefore ?c limit (ib_outbox (rt_inbox d)))) \<Longrightarrow> list_ex P (events (ib_outbox (rt_inbox d)))" for P
    by (auto simp: list_ex_iff)
  ultimately show ?thesis using u
    by (auto simp: sweep_outbound_def counted_def rstate_def unblocked_def inbound_in_use_def outbound_in_use_def on_inbox_def)
qed

text \<open>C35: A sweep that nothing blocks ends every term that is over. While no settled event of thirty days is named by a message
  or a send, the sweep runs to its end, and up to a hundred thousand features whose date has passed are
  expired, none left active.\<close>

theorem clear_sweep_ends_terms:
  assumes clear: "unblocked now (rt_features db) db" and ids: "distinct (map fe_id (fd_rows (rt_features db)))"
    and room: "terms_over now (rt_features db) \<le> MAX_SWEEP_PASSES * SWEEP_BATCH"
  shows "fst (sweep_tick now db) \<and> (\<forall>r \<in> set (fd_rows (rt_features (snd (sweep_tick now db)))). \<not> term_over now r)"
proof -
  let ?I = "unblocked now (rt_features db)"
  note go = drain_goes_on [where I = ?I]
  obtain n1 d1 where 1: "drain (sweep_codes (daysAgo now VERIFICATION_RETENTION_DAYS)) db = (Inr n1, d1)" "?I d1"
    using go [of "sweep_codes (daysAgo now VERIFICATION_RETENTION_DAYS)", OF _ clear] unblocked_steps(1) by blast
  obtain n2 d2 where 2: "drain (sweep_sessions (daysAgo now SESSION_RETENTION_DAYS)) d1 = (Inr n2, d2)" "?I d2"
    using go [of "sweep_sessions (daysAgo now SESSION_RETENTION_DAYS)", OF _ 1(2)] unblocked_steps(2) by blast
  obtain n3 d3 where 3: "drain (sweep_states (daysAgo now OAUTH_STATE_RETENTION_DAYS)) d2 = (Inr n3, d3)" "?I d3"
    using go [of "sweep_states (daysAgo now OAUTH_STATE_RETENTION_DAYS)", OF _ 2(2)] unblocked_steps(3) by blast
  obtain n4 d4 where 4: "drain (sweep_inbound (daysAgo now LEDGER_RETENTION_DAYS)) d3 = (Inr n4, d4)" "?I d4"
    using go [of "sweep_inbound (daysAgo now LEDGER_RETENTION_DAYS)", OF _ 3(2)] unblocked_inbound by blast
  obtain n5 d5 where 5: "drain (sweep_outbound (daysAgo now LEDGER_RETENTION_DAYS)) d4 = (Inr n5, d5)" "?I d5"
    using go [of "sweep_outbound (daysAgo now LEDGER_RETENTION_DAYS)", OF _ 4(2)] unblocked_outbound by blast
  obtain n6 d6 where 6: "drain (sweep_jobs (daysAgo now LEDGER_RETENTION_DAYS)) d5 = (Inr n6, d6)" "?I d6"
    using go [of "sweep_jobs (daysAgo now LEDGER_RETENTION_DAYS)", OF _ 5(2)] unblocked_steps(5) by blast
  obtain n7 d7 where 7: "drain (sweep_usage now) d6 = (Inr n7, d7)" "?I d7"
    using go [of "sweep_usage now", OF _ 6(2)] unblocked_steps(4) by blast
  have "rt_features d7 = rt_features db" using 7(2) by (simp add: unblocked_def)
  with drain_expires [of d7 now MAX_SWEEP_PASSES] ids room
  obtain n8 d8 where 8: "drain (expire_features now) d7 = (Inr n8, d8)" "terms_over now (rt_features d8) = 0"
    by (auto simp: drain_def)
  have "sweep_tick now db = (True, d8)"
    using 1(1) 2(1) 3(1) 4(1) 5(1) 6(1) 7(1) 8(1) by (simp add: sweep_tick_def sweep_tables_def rthen_def rbnd_def)
  with 8(2) show ?thesis by (simp add: terms_over_def filter_empty_conv)
qed

theorem clear_sweep_ends_terms_witness:
  "fst (sweep_tick 1000 demo_retained)
    \<and> list_all (\<lambda>r. \<not> term_over 1000 r) (fd_rows (rt_features (snd (sweep_tick 1000 demo_retained))))"
proof -
  have "unblocked 1000 (rt_features demo_retained) demo_retained"
    by (simp add: unblocked_def demo_retained_def demo_event_row_def old_inbound_def daysAgo_def LEDGER_RETENTION_DAYS_def) code_simp
  moreover have "distinct (map fe_id (fd_rows (rt_features demo_retained)))"
    "terms_over 1000 (rt_features demo_retained) \<le> MAX_SWEEP_PASSES * SWEEP_BATCH"
    by (simp_all add: demo_retained_def demo_features_def terms_over_def MAX_SWEEP_PASSES_def SWEEP_BATCH_def)
  ultimately show ?thesis using clear_sweep_ends_terms [of 1000 demo_retained] by (simp add: list_all_iff)
qed

end
