(* ===== verification/Spec2Isabelle.thy ===== *)
theory Spec2Isabelle
  imports Reward_Caps Reward_Bank Reward_Schedule Rbac_Roles Outbox_Agreement Inbound_Ledger Auth_Proof
    Sync_Runs Inbox_Gaps Retention
begin

text \<open>
  Verification of the unified inbox service: a multi-tenant NestJS application that collects
  comments, mentions and direct messages of a business from its social channels, lets employees
  answer them, and rewards customers for them. All file names below are under \<open>src/src\<close>.

  \<^bold>\<open>The program.\<close> Webhooks and backfills write rows of the \<^emph>\<open>inbound ledger\<close>; the projector worker
  claims them, turns them into conversations and messages, and offers each projected event to
  the \<^emph>\<open>reward engine\<close>, which matches it against the rules of the business, awards benefits
  through wallets with an append-only ledger, and takes awards back when content disappears. An
  agent's reply is a message plus a row of the \<^emph>\<open>outbound ledger\<close>; the relay worker claims it,
  calls the platform and writes the outcome back; a reconciler reads the platform back when the
  outcome was never learned. A \<^emph>\<open>backfill\<close> worker pages through what the platform already has, as jobs
  with a lease and a cursor. What an employee may do is decided by \<^emph>\<open>roles\<close> with levels and
  permissions, which employees edit within their own authority; who somebody is, by logins that are
  proven with one-time codes, sessions, and tokens that the guards check on every request.

  \<^bold>\<open>State and effects.\<close> A table is a list of records, one statement is one function on it, and a
  unique index or check is a refusal. In the reward engine and the role model a computation is
  of the type \<open>act\<close> of theory \<open>Prelude\<close>: an error, or a result and the new database; an error
  rolls back, as the transactions do. The ledgers pass the tables explicitly, because their
  workers interleave: \<open>relay_step\<close> and \<open>inbound_step\<close> are step relations with one database round
  trip per step. The inbox is one database of type \<open>inbox_db\<close>; a projected event or an agent's request
  is one step of \<open>inbox_step\<close>, because each runs in one transaction. Times are integers in milliseconds, amounts are unbounded integers (the columns
  are \<open>bigint\<close> and the contracts bound every input far below), \<open>Math.random\<close>, the time-zone data,
  digests, ciphers and the platform's answers are parameters.

  \<^bold>\<open>Theories.\<close>

  \<^item> \<open>Prelude\<close>: the type \<open>act\<close> with its triples, tables, the locale of operations that a key makes
    idempotent, decimal texts. \<open>Rounding\<close>: \<open>Math.round\<close>.
  \<^item> \<open>Reward_Types\<close>: enums and rows (\<open>shared/enums/reward.enum.ts\<close>, \<open>database/entities/reward-*\<close>).
  \<^item> \<open>Reward_Ledger\<close>: \<open>database/repositories/reward-wallet.repository.ts\<close>, with the invariant
    \<open>books_ok\<close>. \<open>Reward_Bank\<close>: the abstract bank that it refines.
  \<^item> \<open>Reward_Awards\<close>: the repositories of awards, caps, entitlements, rules and programs.
  \<^item> \<open>Calendar\<close>, \<open>Reward_Period\<close>, \<open>Reward_Conditions\<close>, \<open>Reward_Contract\<close>: local time, cap periods
    (\<open>period-key.util.ts\<close>), conditions and trigger matching, and the schemas of the stored configs
    (\<open>shared/contracts/rewards/reward.contract.ts\<close>). \<open>Reward_Schedule\<close>: the schedule of the
    program form and the condition it is stored as (\<open>rewards.service.ts\<close>).
  \<^item> \<open>Reward_Benefits\<close>: the four benefit handlers and the dispatcher. \<open>Reward_Evaluator\<close>:
    \<open>rule-evaluator.service.ts\<close> and \<open>factor.provider.ts\<close>. \<open>Reward_Grant\<close>: \<open>reward-grant.service.ts\<close>
    and the manual adjustment. \<open>Reward_Caps\<close>: the cap invariant over all of these.
  \<^item> \<open>Rbac_Authority\<close>: the pure rules of \<open>shared/rbac\<close>. \<open>Rbac_Roles\<close>: \<open>roles.service.ts\<close>,
    \<open>employees.service.ts\<close> and their repositories, with actors who act in any order.
  \<^item> \<open>Event_Queue\<close>: what the two ledgers share, with the locale \<open>lease_table\<close>, the retry policy and
    the dedup keys (\<open>modules/ledger\<close>).
  \<^item> \<open>Outbox_Store\<close>: \<open>outbound-event.repository.ts\<close>. \<open>Outbox_Relay\<close>: \<open>outbound-relay.worker.ts\<close> with
    \<open>graph-error.mapper.ts\<close> and the requests of \<open>graph-api.client.ts\<close>. \<open>Outbox_Reconcile\<close>:
    \<open>send-reconciliation.service.ts\<close> and the replay of a dead moderation. \<open>Outbox_Delivery\<close>: all
    of them at once. \<open>Outbox_Agreement\<close>: the message an agent sees.
  \<^item> \<open>Inbound_Ledger\<close>: \<open>inbound-event.repository.ts\<close> and \<open>inbound-projector.worker.ts\<close>.
  \<^item> \<open>Effects\<close>: requests, which keep what they wrote before they fail. \<open>Verification_Store\<close>:
    \<open>verification.service.ts\<close>, its repository and its configuration; \<open>Verification_Race\<close>: concurrent
    submissions, one database round trip per step (\<open>verify_step\<close>).
  \<^item> \<open>Auth_Store\<close>: the statements on logins, sessions, employments and staff rows. \<open>Auth_Service\<close>:
    \<open>auth.service.ts\<close>, \<open>token.service.ts\<close>, and the invitations, sign-up and status changes of
    \<open>employees.service.ts\<close>, \<open>platform.service.ts\<close> and \<open>enterprise-onboarding.service.ts\<close>. \<open>Auth_Runs\<close>:
    requests of anybody in any order. \<open>Auth_Safety\<close>, \<open>Auth_Login\<close>, \<open>Auth_Invites\<close>, \<open>Auth_Proof\<close>: what
    holds of them. \<open>Auth_Guards\<close>: \<open>shared/guards\<close> and \<open>permission.repository.ts\<close>. \<open>Auth_Demo\<close>: a
    small database for the witnesses.
  \<^item> \<open>Sync_Jobs\<close>: \<open>sync-job.repository.ts\<close>, the scheduler and the draining of the sweeper.
    \<open>Sync_Runs\<close>: \<open>backfill.worker.ts\<close>, from the claim of a job to its saved page, with any number of
    workers.
  \<^item> \<open>Inbox_Normalize\<close>: the readers of webhook payloads, thread keys and the reply window
    (\<open>comment-normalizer.ts\<close>, \<open>attachment-normalizer.ts\<close>, \<open>reply-window.ts\<close>). \<open>Inbox_Store\<close>: the
    repositories of customers, conversations, messages, attachments and posts. \<open>Inbox_Projectors\<close>: the
    projectors of comments, mentions, direct messages and posts. \<open>Inbox_Service\<close>: what an agent does
    (\<open>inbox.service.ts\<close>).
  \<^item> \<open>Inbox_Counters\<close>: what every statement does to the counters; \<open>Inbox_Runs\<close>: all projectors and
    agents in any order; \<open>Inbox_Safety\<close>, \<open>Inbox_Replies\<close>: what holds of them; \<open>Inbox_Gaps\<close>: three
    behaviours its comments do not expect.
  \<^item> \<open>Features\<close>: what a business may use (\<open>features.service.ts\<close>, \<open>enterprise-feature.repository.ts\<close>,
    \<open>decideFeature\<close> of \<open>platform.service.ts\<close>). \<open>Retention\<close>: the nightly \<open>sweeper.worker.ts\<close> over the tables
    of the other theories, with \<open>oauth-state.repository.ts\<close>.
  \<^item> This theory: the reward engine as a whole, as jobs that run in any order.

  \<^bold>\<open>Interfaces.\<close> \<open>keyed_once\<close> (a retry under one key writes nothing), \<open>reversal_invariant\<close> and
  \<open>job_invariant\<close> (what every statement keeps, every job keeps), \<open>condition_handler\<close> (a handler
  without its fact refuses) and \<open>lease_table\<close> (a claimed row is not due) are locales, each
  interpreted on the definitions of the components. \<open>auth_relation\<close> and the locales that extend it,
  \<open>statement_relation\<close>, \<open>open_relation\<close> and \<open>standing_relation\<close>, are the contracts of the
  authentication requests: what every statement respects, every request respects. \<open>preorder_rel\<close>,
  what a sequence of statements respects when each does, is interpreted on the columns that no
  counter reads, on the other businesses, and on the threads.

  \<^bold>\<open>What is shown.\<close> For the money: balances are the sums of their entries, entries are only
  appended, one key pays once, no unattended run overdraws, a compensation is the exact opposite
  of its benefit, conversions and factors are exact, and the repository refines an abstract bank.
  For awards: exactly one per event, caps hold, a redelivery does nothing, every evaluation
  ends. For periods, windows and schedules: the code agrees with the calendar. For roles: no
  coalition gains what none of it had, an owner always remains, nobody is active who did not
  accept. For the ledgers: a send is accepted at most once, rows follow their state machine,
  message and row agree, claims are ordered and exclusive, delays and hand-outs are bounded, a
  reply is called lost only on evidence. For authentication: a session needs a proven
  address, a code is compared and accepted within its budget in every interleaving, sign-out is
  final, sessions are capped, a platform admin remains, a lock ends, failures look alike, reach into
  a business is on record, and a request is admitted by what the database says at that moment. For
  the backfill: one live job per slot, a run banks the pages it read, a worker that lost its lease
  changes nothing, a dead worker's job returns. For the inbox: counters and badges are right, the reply
  window is the platform's, one piece of content is offered to the reward engine once, one key sends
  one reply, an accepted reply queues exactly one send, and an agent writes within the business. For
  features: their status follows the documented arrows, and a sweep that nothing blocks ends every
  term that is over.

  \<^bold>\<open>Where the code does something else than it says.\<close> Theorems show: a held reversal keeps its cap
  slot, a stale reversal keeps the value, a conversion raises the lifetime figure, a parked reply can
  die silently, reaped sends are not counted, the third projection failure is final, a whole-day
  slot is lost on a second save; an invitation can hand over the login of somebody else, a lock
  confirms a right password, a resend refills the budget of an invitation and tells whether one is
  pending, staff without platform-wide reach get through to nothing, and a refresh drops the
  business that staff reach into; two sync jobs of one slot jam the backfill of everybody, an echo of a
  sent reply reopens a resolved thread, a mention on Facebook looks answerable and is not, a note
  to colleagues stops the clock of the first answer, the nightly sweep stops for good at the first
  old event that a message names, and a renewed feature expires again.

  \<^bold>\<open>Bounds and assumptions.\<close> \<open>onTriggerEvent_fuel\<close> runs the recursion of threshold events; two
  rounds are enough, which \<open>onTriggerEvent_total\<close> proves. All other recursion is structural; the drain of
  the sweeper has the code's own bound of 200 passes of 500 rows. The
  outbound guarantee assumes of the platform only \<open>answers\<close>: a refused call, a clean 4xx, had no
  effect. Time is not assumed to be kind: a worker that outlives the reaper's grace is one of the
  three exceptions the theorem names. One clock is used for processes and database, and each
  modelled function reads it once. A token verifies only if its payload was signed; a selection token
  presented was signed by the service, as hypotheses of the theorems that need it.

  \<^bold>\<open>Not modelled.\<close> HTTP controllers other than those of authentication, and validation of requests;
  listings, dashboards and other queries; the forms that write programs and rules, which only fill
  the tables the engine reads; OAuth, webhook subscription and the reading half of the Graph client,
  which are exchanges with the platform; what one page of the Graph API becomes; live notifications,
  logs, version history and most audit rows; entities, migrations and seed data.
\<close>

section \<open>The engine as a whole\<close>

text \<open>What runs against the tables of the engine: a social event (\<open>RuleEvaluator.onTriggerEvent\<close>),
  the sweep of held awards, the reversal of deleted content, a manual adjustment, the expiry of
  entitlements, the passing of time, and any change of the configuration tables by the services
  that own them. A run that throws is rolled back and is no step.\<close>

datatype job =
    Event trigger_event
  | Sweep
  | ReverseContent int string int string
  | Adjusting "(ActorKind \<times> int option) option" int adjust_input
  | Expire nat
  | Tick int
  | Configure "reward_rule list" "rule_benefit list" "rule_condition list" "reward_program list"
      "enterprise_settings list" "customer_row list"

fun run_job :: "host \<Rightarrow> job \<Rightarrow> unit reward_act" where
  "run_job h (Event ev) = onTriggerEvent h ev"
| "run_job h Sweep = andThen (grantDueAwards h) (ret ())"
| "run_job h (ReverseContent ent kind src reason) = andThen (reverseForDeletedContent h ent kind src reason) (ret ())"
| "run_job h (Adjusting actor ent inp) = andThen (adjustBalance actor ent inp) (ret ())"
| "run_job h (Expire limit) = andThen (expireLapsed limit) (ret ())"
| "run_job h (Tick ms) = modifies (\<lambda>db. db\<lparr>clock := clock db + max ms 0\<rparr>)"
| "run_job h (Configure rs bs cs ps es us) = modifies (\<lambda>db. db\<lparr>rules := rs, rule_benefits := bs,
     rule_conditions := cs, programs := ps, enterprises := es, customers := us\<rparr>)"

definition fresh :: "reward_db \<Rightarrow> bool" where
  "fresh db \<longleftrightarrow> wallets db = [] \<and> ledger db = [] \<and> awards db = [] \<and> award_benefits db = []
     \<and> cap_counters db = [] \<and> entitlements db = []"

inductive reachable :: "host \<Rightarrow> reward_db \<Rightarrow> bool" for h :: host where
  start: "fresh db \<Longrightarrow> reachable h db"
| step: "reachable h db \<Longrightarrow> run_job h j db = Inr (x, db') \<Longrightarrow> reachable h db'"

text \<open>A reversal invariant that depends on the tables of the engine only is kept by every job.\<close>

locale job_invariant = reversal_invariant +
  assumes I_config: "I db \<Longrightarrow> I (db\<lparr>rules := rs, rule_benefits := bs, rule_conditions := cs,
      programs := ps, enterprises := es, customers := us\<rparr>)"
    and I_clock: "I db \<Longrightarrow> I (db\<lparr>clock := t\<rparr>)"
begin

lemma keeps_run_job: "keeps I (run_job h j)"
  by (cases j) (auto intro!: keeps_andThen triple_ret keeps_modifies keeps_onTriggerEvent
      keeps_grantDueAwards keeps_reverseForDeletedContent keeps_adjustBalance I_expire I_config I_clock)

lemma keeps_jobs: "keeps I (run_all (map (run_job h) js))"
  by (induction js) (auto intro: triple_ret keeps_andThen keeps_run_job)

end

interpretation engine_job: job_invariant engine_ok
  by unfold_locales (simp_all add: engine_ok_def books_ok_def records_ok_def)

interpretation ledger_job: job_invariant "\<lambda>s. prefix es (ledger s)"
  by unfold_locales simp_all

lemma keeps_caps_job: "keeps caps_ok (run_job h j)"
proof (cases j)
  case (Configure rs bs cs ps es us)
  then show ?thesis
    by (auto intro!: keeps_modifies simp: caps_ok_def engine_ok_def books_ok_def records_ok_def caps_cover_def
        granted_in_def used_in_def counter_of_def)
next
  case (Tick ms)
  then show ?thesis
    by (auto intro!: keeps_modifies simp: caps_ok_def engine_ok_def books_ok_def records_ok_def caps_cover_def
        granted_in_def used_in_def counter_of_def)
qed (auto intro!: keeps_andThen triple_ret caps_onTriggerEvent caps_grantDueAwards
    caps_reverseForDeletedContent caps_other)

lemma fresh_caps_ok: "fresh db \<Longrightarrow> caps_ok db"
  by (simp add: fresh_def caps_ok_def engine_ok_def books_ok_def books_def records_ok_def awards_ok_def
      counters_ok_def benefits_ok_def entitlements_ok_def caps_cover_def granted_in_def used_in_def
      counter_of_def running_def)

lemma reachable_caps_ok: "reachable h db \<Longrightarrow> caps_ok db"
  by (induction rule: reachable.induct) (auto intro: fresh_caps_ok tripleD [OF keeps_caps_job])

lemma reachable_books: "reachable h db \<Longrightarrow> books (wallets db) (ledger db)"
  using reachable_caps_ok by (auto simp: caps_ok_def engine_ok_def books_ok_def)

section \<open>A business that has rewarded one comment\<close>

definition paid_award :: reward_award where
  "paid_award = \<lparr>a_id = 1, a_enterprise = 1, a_program = 2, a_rule = 3, a_rule_version = 1,
     a_program_version = 1, a_customer = 5, a_channel = None, a_source_kind = ''post'', a_source = 9,
     a_status = Granted, a_period_key = Some ''1970-01-01'', a_held_until = None, a_occurred = 1000,
     a_granted_at = Some 0, a_reversed_at = None, a_reason = None, a_factor = None,
     a_factor_provider = None, a_deleted = False\<rparr>"

definition paid_counter :: cap_counter where
  "paid_counter = \<lparr>c_enterprise = 1, c_program = 2, c_rule = 3, c_customer = 5,
     c_period = ''1970-01-01'', c_used = 1, c_cap = 1\<rparr>"

definition credited_db :: reward_db where
  "credited_db = demo_db\<lparr>
     wallets := [\<lparr>w_id = 1, w_enterprise = 1, w_account = Customer, w_customer = Some 5, w_kind = Points,
       w_currency = None, w_balance = 20, w_pending = 0, w_lifetime = 20, w_version = 1, w_deleted = False\<rparr>],
     ledger := [\<lparr>e_id = 1, e_enterprise = 1, e_wallet = 1, e_kind = Earn, e_amount = 20,
       e_balance_after = 20, e_award = Some 1, e_rule = Some 3, e_rule_version = Some 1, e_group = None,
       e_reverses = None, e_key = ''award:1:benefit:0'', e_actor_kind = None, e_actor = None,
       e_reason = None, e_occurred = 1000\<rparr>],
     awards := [paid_award],
     award_benefits := [\<lparr>b_id = 1, b_enterprise = 1, b_award = 1, b_index = 0, b_kind = ''grant_points'',
       b_payload = PaidPoints 20, b_compensation = UndoPoints 1 1 20, b_status = Applied,
       b_key = ''award:1:benefit:0'', b_deleted = False\<rparr>],
     cap_counters := [paid_counter],
     audit_logs := [\<lparr>l_enterprise = 1, l_action = AuditGranted, l_entity = 1\<rparr>]\<rparr>"

lemma credited_run: "run_job demo_host (Event (demo_event 9)) demo_db = Inr ((), credited_db)"
  by code_simp

lemma credited_reachable: "reachable demo_host credited_db"
  by (rule reachable.step [OF reachable.start credited_run]) code_simp

lemma credited_tables: "granted_in credited_db (1, 3, 5, ''1970-01-01'') = 1"
  by code_simp

section \<open>Properties of every reachable state\<close>

text \<open>C1: The books balance. In every state the engine can reach, each wallet row's balance is exactly
  the sum of that wallet's ledger entries, and every entry belongs to a wallet of its own
  business.\<close>

theorem reachable_books_balance:
  assumes "reachable h db" and "w \<in> set (wallets db)" and "e \<in> set (ledger db)"
  shows "w_balance w = sumEntries db (w_enterprise w) (w_id w)
    \<and> (\<exists>v\<in>set (wallets db). w_id v = e_wallet e \<and> w_enterprise v = e_enterprise e)"
  using reachable_books [OF assms(1)] assms(2,3) by (auto simp: books_def sumEntries_def)

theorem reachable_books_balance_witness:
  "w_balance (hd (wallets credited_db)) = 20
   \<and> sumEntries credited_db (w_enterprise (hd (wallets credited_db))) (w_id (hd (wallets credited_db))) = 20"
proof -
  have "wallets credited_db \<noteq> []" "ledger credited_db \<noteq> []" "w_balance (hd (wallets credited_db)) = 20"
    by code_simp+
  with reachable_books_balance [OF credited_reachable, of "hd (wallets credited_db)" "hd (ledger credited_db)"]
  show ?thesis by simp
qed

text \<open>Every line of a statement of account is right. In every reachable state the \<open>balance_after\<close>
  written on an entry is the sum of its wallet's entries before it plus its own amount, so the
  statement adds up line by line and not only at the end.\<close>

theorem reachable_statement_adds_up:
  assumes "reachable h db" and "ledger db = older @ e # newer"
  shows "e_balance_after e = sum_of (e_enterprise e) (e_wallet e) older + e_amount e"
  using reachable_books [OF assms(1)] assms(2) by (simp add: books_def running_def)

theorem reachable_statement_adds_up_witness:
  "e_balance_after (hd (ledger credited_db)) = 20"
proof -
  have l: "ledger credited_db = [] @ hd (ledger credited_db) # tl (ledger credited_db)"
    "e_amount (hd (ledger credited_db)) = 20" by code_simp+
  from reachable_statement_adds_up [OF credited_reachable l(1)] l(2) show ?thesis by simp
qed



text \<open>One event rewards a customer once per rule. In every reachable state two awards that were not
  deleted and agree on business, rule, customer and source are one and the same row, no two
  ledger entries of a business carry one idempotency key, and no entry is reversed twice.\<close>

theorem reachable_exactly_once:
  assumes "reachable h db"
  shows "distinct (map source_key (filter (\<lambda>a. \<not> a_deleted a) (awards db)))
    \<and> distinct (map (\<lambda>e. (e_enterprise e, e_key e)) (ledger db))
    \<and> distinct (map reversal_key (filter (\<lambda>e. e_reverses e \<noteq> None) (ledger db)))"
  using reachable_caps_ok [OF assms]
  by (simp add: caps_ok_def engine_ok_def books_ok_def books_def records_ok_def awards_ok_def)

theorem reachable_exactly_once_witness:
  "distinct (map source_key (filter (\<lambda>a. \<not> a_deleted a) (awards credited_db))) \<and> awards credited_db \<noteq> []"
proof -
  have "awards credited_db \<noteq> []" by code_simp
  with reachable_exactly_once [OF credited_reachable] show ?thesis by blast
qed

section \<open>Properties of every step\<close>

text \<open>The ledger is append-only. Whatever runs, the ledger after is the ledger before with entries
  added at its end: nothing is changed, reordered or removed.\<close>

theorem ledger_append_only:
  assumes "run_job h j db = Inr (x, db')"
  shows "\<exists>added. ledger db' = ledger db @ added"
proof -
  have "prefix (ledger db) (ledger db')"
    by (rule tripleD [OF ledger_job.keeps_run_job [of "ledger db"] _ assms]) simp
  then show ?thesis by (auto simp: prefix_def)
qed

theorem ledger_append_only_witness: "\<exists>added. ledger credited_db = ledger demo_db @ added"
  by (rule ledger_append_only [OF credited_run])

lemma jobs_prefix:
  assumes "run_all (map (run_job h) js) db = Inr (x, db')"
  shows "prefix (ledger db) (ledger db')"
  by (rule tripleD [OF ledger_job.keeps_jobs [of "ledger db"] _ assms]) simp

lemma jobs_single: "run_job h j db = Inr (x, db') \<Longrightarrow> run_all (map (run_job h) [j]) db = Inr ((), db')"
  by (simp add: andThen_Inr ret_def)

text \<open>A posting that is retried pays once. However much runs between the two attempts, the second
  one with the same business and idempotency key returns the entry the first one wrote and
  changes nothing, whatever wallet or amount it names.\<close>

theorem posting_retry_pays_once:
  assumes "post p isEarn db = Inr (e, db1)" and "run_all (map (run_job h) js) db1 = Inr (x, db2)"
    and "p_enterprise q = p_enterprise p" and "p_key q = p_key p"
  shows "post q isEarn' db2 = Inr (e, db2)"
proof -
  have "entry_by_key db1 (p_enterprise p) (p_key p) = Some e"
    using post_once.records [of "(p, isEarn)" db e db1] assms(1) by simp
  then have "entry_by_key db2 (p_enterprise q) (p_key q) = Some e"
    unfolding assms(3,4) by (rule entry_by_key_grows [OF jobs_prefix [OF assms(2)]])
  then show ?thesis by (rule post_replay)
qed

definition bonus :: post_input where
  "bonus = \<lparr>p_enterprise = 1, p_wallet = 1, p_kind = Adjust, p_amount = 5, p_key = ''adjust:x'',
     p_occurred = 2000, p_award = None, p_rule = None, p_rule_version = None, p_group = None,
     p_reverses = None, p_actor_kind = None, p_actor = None, p_reason = None\<rparr>"

definition bonus_entry :: ledger_entry where
  "bonus_entry = entry_of bonus 2 25"

lemma bonus_run: "post bonus False credited_db = Inr (bonus_entry, after (post bonus False) credited_db)"
  by code_simp

theorem posting_retry_pays_once_witness:
  "\<exists>s. post bonus False s = Inr (bonus_entry, s)"
proof -
  obtain s where "run_job demo_host (Event (demo_event 10)) (after (post bonus False) credited_db) = Inr ((), s)"
    using onTriggerEvent_returns [of demo_host "demo_event 10"] by (auto simp: returns_def)
  from posting_retry_pays_once [OF bonus_run jobs_single [OF this]] show ?thesis by blast
qed

text \<open>A manual adjustment that is retried moves the money once. A second call with the same
  idempotency key, by anybody and after anything, returns the entry of the first and leaves the
  ledger as it is.\<close>

theorem adjustment_retry_moves_once:
  assumes "adjustBalance actor ent inp db = Inr (e, db1)"
    and "run_all (map (run_job h) js) db1 = Inr (x, db2)" and "j_key inp' = j_key inp"
    and "adjustBalance actor' ent inp' db2 = Inr (e', db3)"
  shows "e' = e \<and> ledger db3 = ledger db2"
proof -
  let ?key = "''adjust:'' @ j_key inp"
  have "entry_by_key db1 ent ?key = Some e"
    using assms(1) post_once.records
    by (fastforce simp: adjustBalance_def bnd_Inr andThen_Inr reads_def ret_def throw_def postUnchecked_def
        audit_record_def modifies_def entry_by_key_def split: option.splits)
  then have 2: "entry_by_key db2 ent ?key = Some e"
    by (rule entry_by_key_grows [OF jobs_prefix [OF assms(2)]])
  have "entry_by_key t ent ?key = Some e" if "ledger t = ledger db2" for t
    using 2 that by (simp add: entry_by_key_def)
  with assms(3,4) show ?thesis
    by (auto simp: adjustBalance_def bnd_Inr andThen_Inr reads_def ret_def throw_def postUnchecked_def
        audit_record_def modifies_def ensure_Inr post_Inr split: option.splits)
qed

definition demo_adjust :: adjust_input where
  "demo_adjust = \<lparr>j_customer = 5, j_wallet_kind = Points, j_currency = None, j_amount = -3, j_key = ''k''\<rparr>"

lemma demo_adjust_run:
  obtains e where "adjustBalance None 1 demo_adjust credited_db
     = Inr (e, after (adjustBalance None 1 demo_adjust) credited_db)" "e_amount e = -3"
proof -
  have "case adjustBalance None 1 demo_adjust credited_db of Inl _ \<Rightarrow> False | Inr (e, _) \<Rightarrow> e_amount e = -3"
    by code_simp
  with that show ?thesis by (auto simp: after_def split: sum.splits prod.splits)
qed

lemma demo_adjust_again:
  obtains e' s' where "adjustBalance None 1 (demo_adjust\<lparr>j_amount := 7\<rparr>)
     (after (adjustBalance None 1 demo_adjust) credited_db) = Inr (e', s')"
proof -
  have "case adjustBalance None 1 (demo_adjust\<lparr>j_amount := 7\<rparr>)
     (after (adjustBalance None 1 demo_adjust) credited_db) of Inl _ \<Rightarrow> False | Inr _ \<Rightarrow> True"
    by code_simp
  with that show ?thesis by (auto split: sum.splits prod.splits)
qed

theorem adjustment_retry_moves_once_witness:
  "\<exists>s e s'. adjustBalance None 1 (demo_adjust\<lparr>j_amount := 7\<rparr>) s = Inr (e, s') \<and> ledger s' = ledger s \<and> e_amount e = -3"
proof -
  let ?s = "after (adjustBalance None 1 demo_adjust) credited_db"
  obtain e where e: "adjustBalance None 1 demo_adjust credited_db = Inr (e, ?s)" "e_amount e = -3"
    by (rule demo_adjust_run)
  obtain e' s' where again: "adjustBalance None 1 (demo_adjust\<lparr>j_amount := 7\<rparr>) ?s = Inr (e', s')"
    by (rule demo_adjust_again)
  have "run_all (map (run_job demo_host) []) ?s = Inr ((), ?s)" by (simp add: ret_def)
  from adjustment_retry_moves_once [OF e(1) this _ again] again e(2) show ?thesis by auto
qed

fun unattended :: "job \<Rightarrow> bool" where
  "unattended (ReverseContent _ _ _ _) = False"
| "unattended (Adjusting _ _ _) = False"
| "unattended _ = True"

lemma overdraft_job: "unattended j \<Longrightarrow> keeps no_overdraft (run_job h j)"
  by (cases j) (auto intro!: keeps_andThen triple_ret keeps_modifies overdraft_inv.keeps_onTriggerEvent
      overdraft_inv.keeps_grantDueAwards
      record_statements_same_books(14) [THEN keeps_no_overdraft] simp: no_overdraft_def)

text \<open>C19: Unattended work never overdraws. No sequence of events, sweeps, expiries, clock ticks and
  configuration changes takes a wallet below zero; only a reversal or an adjustment by a person
  can.\<close>

theorem unattended_never_overdraws:
  assumes "no_overdraft db" and "list_all unattended js" and "run_all (map (run_job h) js) db = Inr (x, db')"
  shows "no_overdraft db'"
proof -
  have "keeps no_overdraft (run_all (map (run_job h) js))"
    using assms(2) by (induction js) (auto intro: triple_ret keeps_andThen overdraft_job)
  then show ?thesis using assms(1,3) by (rule tripleD)
qed

theorem unattended_never_overdraws_witness: "no_overdraft credited_db"
  by (rule unattended_never_overdraws [OF _ _ jobs_single [OF credited_run]]) code_simp+

text \<open>A conditional debit either takes exactly the amount or takes nothing. On the books of any
  reachable state it never leaves a wallet below zero: it refuses when the wallet holds less than
  the amount, and otherwise the new entry's \<open>balance_after\<close> is the old ledger sum less the amount
  and is not negative.\<close>

theorem debit_all_or_nothing:
  assumes "reachable h db" and "entry_by_key db (p_enterprise p) (p_key p) = None"
    and "debitIfSufficient p db = Inr (r, db')"
  shows "(r = None \<and> db' = db \<and> sumEntries db (p_enterprise p) (p_wallet p) < - p_amount p)
    \<or> (\<exists>e. r = Some e \<and> ledger db' = ledger db @ [e] \<and> e_amount e = p_amount p
        \<and> e_balance_after e = sumEntries db (p_enterprise p) (p_wallet p) + p_amount p
        \<and> 0 \<le> e_balance_after e)"
proof -
  from assms(2,3) obtain w where w: "wallet_by_id db (p_enterprise p) (p_wallet p) = Some w"
    and out: "if - p_amount p \<le> w_balance w then \<exists>e. r = Some e \<and> move_and_write p 0 w db = Inr (e, db')
              else r = None \<and> db' = db"
    by (auto simp: debit_Inr)
  have "w_balance w = sumEntries db (p_enterprise p) (p_wallet p)"
    using reachable_books [OF assms(1)] wallet_by_idD [OF w] by (auto simp: books_def sumEntries_def)
  with out show ?thesis
    by (auto simp: move_and_write_Inr entry_of_def split: if_splits)
qed

definition spend :: "int \<Rightarrow> post_input" where
  "spend n = bonus\<lparr>p_amount := - n, p_key := ''spend''\<rparr>"

theorem debit_all_or_nothing_witness:
  "debitIfSufficient (spend 25) credited_db = Inr (None, credited_db) \<and> sumEntries credited_db 1 1 < 25"
proof -
  have run: "debitIfSufficient (spend 25) credited_db = Inr (None, credited_db)" by code_simp
  have "entry_by_key credited_db (p_enterprise (spend 25)) (p_key (spend 25)) = None" by code_simp
  from debit_all_or_nothing [OF credited_reachable this run] run show ?thesis
    by (simp add: spend_def bonus_def)
qed

theorem repository_refines_bank_witness:
  "bank_debit (spend 25) (bank_of credited_db) = Inr (False, bank_of credited_db)
   \<and> purse (bank_of credited_db) (1, 1) = Some (sumEntries credited_db 1 1)"
proof -
  have run: "debitIfSufficient (spend 25) credited_db = Inr (None, credited_db)" by code_simp
  have "wallet_by_id credited_db 1 1 = None \<longleftrightarrow> False" by code_simp
  moreover have "books_ok credited_db" using reachable_books [OF credited_reachable] by (simp add: books_ok_def)
  from repository_refines_bank [OF this, of "spend 25"] run
  have "bank_debit (spend 25) (bank_of credited_db) = Inr (False, bank_of credited_db)" by simp
  ultimately show ?thesis by (simp add: bank_of_def)
qed

section \<open>The life of an entitlement\<close>

fun may_become :: "RewardEntitlementStatus \<Rightarrow> RewardEntitlementStatus \<Rightarrow> bool" where
  "may_become Issued s = (s \<in> {Issued, Revoked, EntitlementExpired})"
| "may_become s t = (s = t)"

text \<open>The same entitlement later: everything but the status is as it was issued.\<close>

definition later :: "reward_entitlement \<Rightarrow> reward_entitlement \<Rightarrow> bool" where
  "later n n' \<longleftrightarrow> n' = n\<lparr>n_status := n_status n'\<rparr> \<and> may_become (n_status n) (n_status n')"

definition issued_from :: "reward_entitlement list \<Rightarrow> reward_db \<Rightarrow> bool" where
  "issued_from ns db \<longleftrightarrow> distinct (map n_id (entitlements db))
     \<and> list_all (\<lambda>n. list_ex (later n) (entitlements db)) ns"

lemma may_become_trans: "may_become a b \<Longrightarrow> may_become b c \<Longrightarrow> may_become a c"
  by (cases a; cases b) auto

lemma issued_from_update:
  assumes "issued_from ns db" and "st = Revoked \<or> st = EntitlementExpired"
    and "\<And>n. n \<in> set (entitlements db) \<Longrightarrow> P n \<Longrightarrow> n_status n = Issued"
  shows "issued_from ns (db\<lparr>entitlements := update_where P (\<lambda>n. n\<lparr>n_status := st\<rparr>) (entitlements db)\<rparr>)"
proof -
  have "\<exists>n'\<in>set (update_where P (\<lambda>n. n\<lparr>n_status := st\<rparr>) (entitlements db)). later n n'" if n: "n \<in> set ns" for n
  proof -
    from assms(1) n obtain m where m: "m \<in> set (entitlements db)" "later n m"
      by (auto simp: issued_from_def list_all_iff list_ex_iff)
    show ?thesis
    proof (cases "P m")
      case True
      then have "later n (m\<lparr>n_status := st\<rparr>)"
        using m assms(2) assms(3) [OF m(1)] may_become_trans [of "n_status n" Issued st] by (auto simp: later_def)
      with m True show ?thesis by (force simp: set_update_where)
    next
      case False
      with m show ?thesis by (force simp: set_update_where)
    qed
  qed
  moreover have "map n_id (update_where P (\<lambda>n. n\<lparr>n_status := st\<rparr>) (entitlements db)) = map n_id (entitlements db)"
    by (rule map_update_where) simp
  ultimately show ?thesis using assms(1) by (simp add: issued_from_def list_all_iff list_ex_iff)
qed

lemma issued_from_frame: "entitlements db' = entitlements db \<Longrightarrow> issued_from ns db \<Longrightarrow> issued_from ns db'"
  by (simp add: issued_from_def)

lemma issued_from_issue: "keeps (issued_from ns) (issue ent cust awardId item code expires)"
  by (rule tripleI) (auto simp: issue_def issued_from_def Let_def list_all_iff list_ex_iff
      split: if_splits dest: fresh_id_map [where f = n_id])

lemma issued_from_revoke: "keeps (issued_from ns) (revokeIfUnredeemed ent i)"
  by (rule tripleI) (auto simp: revokeIfUnredeemed_def revocable_def intro!: issued_from_update)

lemma issued_from_expire: "keeps (issued_from ns) (expireLapsed limit)"
proof (rule tripleI)
  fix db k db'
  assume ok: "issued_from ns db" and run: "expireLapsed limit db = Inr (k, db')"
  let ?due = "take limit (sort_key (\<lambda>n. the (n_expires_at n)) (filter (lapsed (clock db)) (entitlements db)))"
  have "n_status n = Issued" if n: "n \<in> set (entitlements db)" and due: "n_id n \<in> set (map n_id ?due)" for n
  proof -
    from due obtain m where "m \<in> set ?due" and id: "n_id m = n_id n" by auto
    then have m: "m \<in> set (entitlements db)" "n_status m = Issued"
      by (auto dest!: in_set_takeD simp: lapsed_def)
    with id n ok have "m = n" using distinct_map_eq [of n_id "entitlements db" m n] by (simp add: issued_from_def)
    with m show ?thesis by simp
  qed
  with run ok show "issued_from ns db'"
    by (auto simp: expireLapsed_def Let_def intro!: issued_from_update)
qed

definition same_entitlements :: "reward_db \<Rightarrow> reward_db \<Rightarrow> bool" where
  "same_entitlements s s' \<longleftrightarrow> entitlements s' = entitlements s"

lemma other_statements_same_entitlements:
  "steps same_entitlements (ensureCustomerWallet ent cust kind cur)"
  "steps same_entitlements (post p isEarn)"
  "steps same_entitlements (debitIfSufficient p)"
  "steps same_entitlements (createIfAbsent k)"
  "steps same_entitlements (markSkipped ent awardId status reason periodKey)"
  "steps same_entitlements (markGranted ent awardId f prov periodKey)"
  "steps same_entitlements (markReversed ent awardId reason)"
  "steps same_entitlements (claimCapSlot ent prog rule cust periodKey' cap)"
  "steps same_entitlements (releaseCapSlot ent rule cust periodKey')"
  "steps same_entitlements (recordBenefit ent awardId idx kind' pay undo key)"
  "steps same_entitlements (markBenefitCompensated ent benefitId)"
  "steps same_entitlements (audit_record ent action entity)"
  "steps same_entitlements (randomUUID h)"
  "steps same_entitlements (randomBytes h)"
  by (auto simp: steps_def same_entitlements_def statement_defs ensure_Inr post_Inr debit_Inr
      move_and_write_Inr split: if_splits option.splits)

lemma keeps_issued_from: "steps same_entitlements m \<Longrightarrow> keeps (issued_from ns) m"
  by (erule keeps_from_steps) (auto simp: same_entitlements_def intro: issued_from_frame)

interpretation entitlement_job: job_invariant "issued_from ns"
  by unfold_locales
    (simp_all add: credit_def postUnchecked_def issued_from_issue issued_from_revoke issued_from_expire
      issued_from_frame other_statements_same_entitlements [THEN keeps_issued_from])

text \<open>An entitlement, once issued, is never lost or altered. Through any sequence of runs from a
  reachable state it keeps its customer, item, code and expiry, and its status moves at most once,
  from issued to revoked or expired; one that is redeemed, reserved, revoked or expired stays so.\<close>

theorem entitlement_moves_once:
  assumes "reachable h db" and "n \<in> set (entitlements db)" and "run_all (map (run_job h) js) db = Inr (x, db')"
  shows "\<exists>n'\<in>set (entitlements db'). later n n'"
proof -
  have ids: "distinct (map n_id (entitlements db))"
    using reachable_caps_ok [OF assms(1)]
    by (simp add: caps_ok_def engine_ok_def records_ok_def entitlements_ok_def)
  have "later m m" for m by (cases "n_status m") (simp_all add: later_def)
  with ids have "issued_from (entitlements db) db"
    unfolding issued_from_def list_all_iff list_ex_iff by blast
  then have "issued_from (entitlements db) db'"
    using assms(3) by (rule tripleD [OF entitlement_job.keeps_jobs])
  with assms(2) show ?thesis by (auto simp: issued_from_def list_all_iff list_ex_iff)
qed

definition gift_db :: reward_db where
  "gift_db = demo_db\<lparr>rule_benefits := [\<lparr>rb_enterprise = 1, rb_rule = 3, rb_rule_version = 1, rb_index = 0,
     rb_kind = ''issue_entitlement'', rb_mode = Fixed, rb_cap = None,
     rb_config = [(''itemRef'', JStr ''coffee''), (''validForDays'', JNum 1)], rb_deleted = False\<rparr>]\<rparr>"

definition gift :: "RewardEntitlementStatus \<Rightarrow> reward_entitlement" where
  "gift status = \<lparr>n_id = 1, n_enterprise = 1, n_customer = 5, n_award = 1, n_item = ''coffee'', n_status = status,
     n_code = ''AAAAAAAAAA'', n_issued_at = 0, n_expires_at = Some 86401000, n_deleted = False\<rparr>"

definition gifted_db :: reward_db where
  "gifted_db = gift_db\<lparr>awards := [paid_award], cap_counters := [paid_counter],
     award_benefits := [\<lparr>b_id = 1, b_enterprise = 1, b_award = 1, b_index = 0,
       b_kind = ''issue_entitlement'', b_payload = PaidEntitlement ''coffee'' 1,
       b_compensation = UndoEntitlement 1, b_status = Applied, b_key = ''award:1:benefit:0'',
       b_deleted = False\<rparr>],
     entitlements := [gift Issued],
     audit_logs := [\<lparr>l_enterprise = 1, l_action = AuditGranted, l_entity = 1\<rparr>], entropy := 1\<rparr>"

lemma gifted_run: "run_job demo_host (Event (demo_event 9)) gift_db = Inr ((), gifted_db)"
  by code_simp

lemma gifted_reachable: "reachable demo_host gifted_db"
  by (rule reachable.step [OF reachable.start gifted_run]) code_simp

theorem entitlement_moves_once_witness:
  "\<exists>n'\<in>set [gift EntitlementExpired]. later (gift Issued) n'"
proof -
  let ?js = "[Tick 200000000, Expire 10]"
  let ?s = "gifted_db\<lparr>entitlements := [gift EntitlementExpired], clock := 200000000\<rparr>"
  have run: "run_all (map (run_job demo_host) ?js) gifted_db = Inr ((), ?s)" by code_simp
  have "gift Issued \<in> set (entitlements gifted_db)" by (simp add: gifted_db_def)
  from entitlement_moves_once [OF gifted_reachable this run] show ?thesis by simp
qed

end
